(* ===== verification/Prelude.thy ===== *)
theory Prelude
  imports Complex_Main "HOL-Library.Multiset" "HOL-Library.Char_ord" "HOL-Library.List_Lexorder"
    "HOL-Library.Product_Lexorder"
begin

text \<open>
  Shared vocabulary of the development: the error values the services raise, actions on a state
  (a Python coroutine that may raise, with its effects kept when it does), the relational
  operations the repositories use on tables kept as lists of rows, and the generic list lemmas the
  component theories share.
\<close>

section \<open>Proof collections\<close>

named_theorems act_simps \<open>equations of the action combinators\<close>
named_theorems sql_simps \<open>characterisations of the relational helpers\<close>
named_theorems frame_simps \<open>what an operation leaves unchanged\<close>

section \<open>Values\<close>

type_synonym decimal = rat
type_synonym timestamp = int

text \<open>A value of an event payload: what \<open>json.dumps\<close> is given.\<close>

datatype jval = JNull | JBool bool | JStr string | JInt int | JDec decimal | JList "jval list" | JObj "(string \<times> jval) list"

type_synonym payload = "(string \<times> jval) list"

text \<open>\<open>payload.get(key, default)\<close>.\<close>

definition payload_get :: "payload \<Rightarrow> string \<Rightarrow> jval \<Rightarrow> jval" where
  "payload_get p k d = (case map_of p k of None \<Rightarrow> d | Some v \<Rightarrow> v)"

text \<open>The string under a key, empty or absent when there is none.\<close>

definition payload_str :: "payload \<Rightarrow> string \<Rightarrow> string" where
  "payload_str p k = (case payload_get p k (JStr []) of JStr s \<Rightarrow> s | _ \<Rightarrow> [])"

definition payload_opt :: "payload \<Rightarrow> string \<Rightarrow> string option" where
  "payload_opt p k = (case payload_get p k JNull of JStr s \<Rightarrow> Some s | _ \<Rightarrow> None)"

text \<open>Python truthiness of a payload value.\<close>

fun jtruthy :: "jval \<Rightarrow> bool" where
  "jtruthy JNull = False"
| "jtruthy (JBool b) = b"
| "jtruthy (JStr s) = (s \<noteq> [])"
| "jtruthy (JInt n) = (n \<noteq> 0)"
| "jtruthy (JDec d) = (d \<noteq> 0)"
| "jtruthy (JList xs) = (xs \<noteq> [])"
| "jtruthy (JObj kvs) = (kvs \<noteq> [])"

section \<open>Errors\<close>

text \<open>
  The exceptions that reach a caller. A conflict carries either the refused transition or the
  message text; the rest mirror their Python classes.
\<close>

datatype conflict = RefusedTransition string string string | ConflictMsg string

datatype error =
    NotFoundError string string
  | ConflictError conflict
  | ForbiddenError string
  | ValueError string
  | IntegrityError string
  | MultipleResultsFound
  | NoResultFound
  | DispatchError string
  | UnboundLocalError string
  | NameError string
  | ImportError string
  | AttributeError string
  | KeyError string
  | IndexError string
  | TypeError string
  | UnauthorizedError string
  | TooManyRequestsError string
  | InvalidWebhookSignatureError
  | InvalidRequestError
  | ChatToSalesError string nat

section \<open>Actions\<close>

text \<open>
  A coroutine acting on a state: it returns a value or raises, and in both cases the state carries
  whatever effects happened before.
\<close>

type_synonym ('w, 'a) act = "'w \<Rightarrow> (error + 'a) \<times> 'w"

definition ret :: "'a \<Rightarrow> ('w, 'a) act" where
  "ret x = (\<lambda>w. (Inr x, w))"

definition raise :: "error \<Rightarrow> ('w, 'a) act" where
  "raise e = (\<lambda>w. (Inl e, w))"

definition bindA :: "('w, 'a) act \<Rightarrow> ('a \<Rightarrow> ('w, 'b) act) \<Rightarrow> ('w, 'b) act" where
  "bindA m f = (\<lambda>w. case m w of (Inl e, w') \<Rightarrow> (Inl e, w') | (Inr x, w') \<Rightarrow> f x w')"

definition thenA :: "('w, 'a) act \<Rightarrow> ('w, 'b) act \<Rightarrow> ('w, 'b) act" where
  "thenA m k = bindA m (\<lambda>_. k)"

definition getA :: "('w \<Rightarrow> 'a) \<Rightarrow> ('w, 'a) act" where
  "getA f = (\<lambda>w. (Inr (f w), w))"

definition modA :: "('w \<Rightarrow> 'w) \<Rightarrow> ('w, unit) act" where
  "modA f = (\<lambda>w. (Inr (), f w))"

text \<open>A pure result lifted to an action.\<close>

definition liftE :: "error + 'a \<Rightarrow> ('w, 'a) act" where
  "liftE r = (\<lambda>w. (r, w))"

text \<open>\<open>try: m except Exception: h\<close>.\<close>

definition tryA :: "('w, 'a) act \<Rightarrow> (error \<Rightarrow> ('w, 'a) act) \<Rightarrow> ('w, 'a) act" where
  "tryA m h = (\<lambda>w. case m w of (Inl e, w') \<Rightarrow> h e w' | (Inr x, w') \<Rightarrow> (Inr x, w'))"

text \<open>A \<open>for\<close> loop whose body may raise.\<close>

fun forA :: "'b list \<Rightarrow> ('b \<Rightarrow> ('w, 'a) act) \<Rightarrow> ('w, unit) act" where
  "forA [] f = ret ()"
| "forA (x # xs) f = thenA (f x) (forA xs f)"

lemma ret_apply [simp, act_simps]: "ret x w = (Inr x, w)"
  by (simp add: ret_def)

lemma raise_apply [simp, act_simps]: "raise e w = (Inl e, w)"
  by (simp add: raise_def)

lemma getA_apply [simp, act_simps]: "getA f w = (Inr (f w), w)"
  by (simp add: getA_def)

lemma modA_apply [simp, act_simps]: "modA f w = (Inr (), f w)"
  by (simp add: modA_def)

lemma liftE_apply [simp, act_simps]: "liftE r w = (r, w)"
  by (simp add: liftE_def)

lemma bindA_apply [act_simps]:
  "bindA m f w = (case m w of (Inl e, w') \<Rightarrow> (Inl e, w') | (Inr x, w') \<Rightarrow> f x w')"
  by (simp add: bindA_def)

lemma thenA_apply [act_simps]:
  "thenA m k w = (case m w of (Inl e, w') \<Rightarrow> (Inl e, w') | (Inr x, w') \<Rightarrow> k w')"
  by (simp add: thenA_def bindA_def)

lemma tryA_apply [act_simps]:
  "tryA m h w = (case m w of (Inl e, w') \<Rightarrow> h e w' | (Inr x, w') \<Rightarrow> (Inr x, w'))"
  by (simp add: tryA_def)

lemma bindA_Inr: "m w = (Inr x, w') \<Longrightarrow> bindA m f w = f x w'"
  by (simp add: bindA_apply)

lemma bindA_Inl: "m w = (Inl e, w') \<Longrightarrow> bindA m f w = (Inl e, w')"
  by (simp add: bindA_apply)

lemma thenA_Inr: "m w = (Inr x, w') \<Longrightarrow> thenA m k w = k w'"
  by (simp add: thenA_apply)

lemma bindA_InrE:
  assumes "bindA m f w = (Inr y, w2)"
  obtains x w1 where "m w = (Inr x, w1)" and "f x w1 = (Inr y, w2)"
  using assms by (auto simp: bindA_apply split: prod.splits sum.splits)

lemma thenA_InrE:
  assumes "thenA m k w = (Inr y, w2)"
  obtains x w1 where "m w = (Inr x, w1)" and "k w1 = (Inr y, w2)"
  using assms by (auto simp: thenA_apply split: prod.splits sum.splits)

text \<open>
  An action keeps a predicate of the state when it holds afterwards whether the action returned or
  raised. The combinators preserve this, so a frame or an invariant of an operation follows from
  those of its parts.
\<close>

definition keeps :: "('w, 'a) act \<Rightarrow> ('w \<Rightarrow> bool) \<Rightarrow> bool" where
  "keeps m P \<longleftrightarrow> (\<forall>w. P w \<longrightarrow> P (snd (m w)))"

lemma keepsI: "(\<And>w. P w \<Longrightarrow> P (snd (m w))) \<Longrightarrow> keeps m P"
  by (simp add: keeps_def)

lemma keepsD: "keeps m P \<Longrightarrow> P w \<Longrightarrow> P (snd (m w))"
  by (simp add: keeps_def)

lemma keeps_ret [simp, intro]: "keeps (ret x) P"
  by (simp add: keeps_def)

lemma keeps_raise [simp, intro]: "keeps (raise e) P"
  by (simp add: keeps_def)

lemma keeps_getA [simp, intro]: "keeps (getA f) P"
  by (simp add: keeps_def)

lemma keeps_liftE [simp, intro]: "keeps (liftE r) P"
  by (simp add: keeps_def)

lemma keeps_modA: "(\<And>w. P w \<Longrightarrow> P (f w)) \<Longrightarrow> keeps (modA f) P"
  by (simp add: keeps_def)

lemma keeps_bindA [intro]: "keeps m P \<Longrightarrow> (\<And>x. keeps (f x) P) \<Longrightarrow> keeps (bindA m f) P"
  by (fastforce simp: keeps_def bindA_apply split: prod.splits sum.splits)

lemma keeps_thenA [intro]: "keeps m P \<Longrightarrow> keeps k P \<Longrightarrow> keeps (thenA m k) P"
  by (auto simp: thenA_def)

lemma keeps_tryA [intro]: "keeps m P \<Longrightarrow> (\<And>e. keeps (h e) P) \<Longrightarrow> keeps (tryA m h) P"
  by (fastforce simp: keeps_def tryA_apply split: prod.splits sum.splits)

lemma keeps_forA [intro]: "(\<And>x. keeps (f x) P) \<Longrightarrow> keeps (forA xs f) P"
  by (induction xs) auto

lemma keeps_if [intro]: "keeps m P \<Longrightarrow> keeps k P \<Longrightarrow> keeps (if b then m else k) P"
  by simp

lemma keeps_option [intro]:
  "keeps m P \<Longrightarrow> (\<And>x. keeps (f x) P) \<Longrightarrow> keeps (case v of None \<Rightarrow> m | Some x \<Rightarrow> f x) P"
  by (cases v) auto

section \<open>Tables as lists of rows\<close>

text \<open>\<open>Result.scalar_one_or_none()\<close>: more than one row raises.\<close>

fun scalar_one_or_none :: "'a list \<Rightarrow> error + 'a option" where
  "scalar_one_or_none [] = Inr None"
| "scalar_one_or_none [x] = Inr (Some x)"
| "scalar_one_or_none _ = Inl MultipleResultsFound"

text \<open>\<open>UPDATE table SET \<dots> WHERE p\<close>.\<close>

definition update_where :: "('a \<Rightarrow> bool) \<Rightarrow> ('a \<Rightarrow> 'a) \<Rightarrow> 'a list \<Rightarrow> 'a list" where
  "update_where p f xs = map (\<lambda>x. if p x then f x else x) xs"

text \<open>\<open>ORDER BY k DESC\<close>; rows with equal keys keep their table order.\<close>

definition order_by_desc :: "('a \<Rightarrow> int) \<Rightarrow> 'a list \<Rightarrow> 'a list" where
  "order_by_desc k xs = sort_key (\<lambda>x. - k x) xs"

definition order_by_asc :: "('a \<Rightarrow> int) \<Rightarrow> 'a list \<Rightarrow> 'a list" where
  "order_by_asc k xs = sort_key k xs"

text \<open>\<open>LIMIT l OFFSET o\<close>.\<close>

definition page :: "nat \<Rightarrow> nat \<Rightarrow> 'a list \<Rightarrow> 'a list" where
  "page l off xs = take l (drop off xs)"

lemma update_where_Nil [simp]: "update_where p f [] = []"
  by (simp add: update_where_def)

lemma update_where_Cons [simp]:
  "update_where p f (x # xs) = (if p x then f x else x) # update_where p f xs"
  by (simp add: update_where_def)

lemma length_update_where [simp, sql_simps]: "length (update_where p f xs) = length xs"
  by (simp add: update_where_def)

lemma update_where_append [simp]:
  "update_where p f (xs @ ys) = update_where p f xs @ update_where p f ys"
  by (simp add: update_where_def)

lemma set_update_where [sql_simps]:
  "set (update_where p f xs) = (\<lambda>x. if p x then f x else x) ` set xs"
  by (simp add: update_where_def)

lemma ball_update_where [sql_simps]:
  "(\<forall>x\<in>set (update_where p f xs). P x) \<longleftrightarrow> (\<forall>x\<in>set xs. if p x then P (f x) else P x)"
  by (induction xs) auto

lemma map_update_where_same [sql_simps]:
  "(\<And>x. p x \<Longrightarrow> g (f x) = g x) \<Longrightarrow> map g (update_where p f xs) = map g xs"
  by (simp add: update_where_def)

lemma image_update_where_same [sql_simps]:
  "(\<And>x. p x \<Longrightarrow> g (f x) = g x) \<Longrightarrow> g ` set (update_where p f xs) = g ` set xs"
  by (metis list.set_map map_update_where_same)

lemma update_where_none: "\<forall>x\<in>set xs. \<not> p x \<Longrightarrow> update_where p f xs = xs"
  by (induction xs) auto

lemma set_order_by_desc [simp, sql_simps]: "set (order_by_desc k xs) = set xs"
  by (simp add: order_by_desc_def)

lemma length_order_by_desc [simp, sql_simps]: "length (order_by_desc k xs) = length xs"
  by (simp add: order_by_desc_def)

lemma mset_order_by_desc [simp, sql_simps]: "mset (order_by_desc k xs) = mset xs"
  by (simp add: order_by_desc_def)

lemma order_by_desc_Nil [simp]: "order_by_desc k [] = []"
  by (simp add: order_by_desc_def)

lemma order_by_desc_empty_iff [simp]: "order_by_desc k xs = [] \<longleftrightarrow> xs = []"
  by (metis length_0_conv length_order_by_desc)

lemma order_by_desc_head_max:
  assumes "order_by_desc k xs = y # ys" and "x \<in> set xs"
  shows "k x \<le> k y"
proof -
  have "sorted (map (\<lambda>x. - k x) (y # ys))"
    using assms(1) by (metis order_by_desc_def sorted_sort_key)
  moreover have "x \<in> set (y # ys)"
    using assms by (metis set_order_by_desc)
  ultimately show ?thesis by auto
qed

lemma set_order_by_asc [simp, sql_simps]: "set (order_by_asc k xs) = set xs"
  by (simp add: order_by_asc_def)

lemma length_order_by_asc [simp, sql_simps]: "length (order_by_asc k xs) = length xs"
  by (simp add: order_by_asc_def)

text \<open>With a key that is distinct over the table, a lookup by that key finds at most one row.\<close>

lemma distinct_map_Cons_neq: "distinct (map k (y # ys)) \<Longrightarrow> z \<in> set ys \<Longrightarrow> k z \<noteq> k y"
  by (simp, metis image_eqI)

lemma filter_key_unique:
  assumes "distinct (map k xs)" and "x \<in> set xs" and "p x"
  shows "filter (\<lambda>y. k y = k x \<and> p y) xs = [x]"
  using assms
proof (induction xs)
  case Nil
  then show ?case by simp
next
  case (Cons y ys)
  show ?case
  proof (cases "x = y")
    case True
    with distinct_map_Cons_neq [OF Cons.prems(1)] have "\<forall>z\<in>set ys. k z \<noteq> k x" by simp
    then have "filter (\<lambda>z. k z = k x \<and> p z) ys = []" by (simp add: filter_empty_conv)
    with True Cons.prems show ?thesis by simp
  next
    case False
    with Cons.prems have "k y \<noteq> k x" by auto
    with False Cons show ?thesis by auto
  qed
qed

lemma filter_key_cases:
  assumes "distinct (map k xs)"
  obtains "filter (\<lambda>y. k y = a \<and> p y) xs = []"
  | x where "x \<in> set xs" and "k x = a" and "p x" and "filter (\<lambda>y. k y = a \<and> p y) xs = [x]"
proof (cases "filter (\<lambda>y. k y = a \<and> p y) xs")
  case Nil
  then show thesis by (rule that(1))
next
  case (Cons x ys)
  then have "x \<in> set (filter (\<lambda>y. k y = a \<and> p y) xs)" by simp
  then have x: "x \<in> set xs" "k x = a" "p x" by auto
  with assms have "filter (\<lambda>y. k y = a \<and> p y) xs = [x]"
    using filter_key_unique [of k xs x p] by simp
  with x show thesis by (rule that(2))
qed

lemma scalar_key:
  assumes "distinct (map k xs)"
  shows "scalar_one_or_none (filter (\<lambda>y. k y = a \<and> p y) xs) = Inr (find (\<lambda>y. k y = a \<and> p y) xs)"
  using assms
proof (induction xs)
  case (Cons y ys)
  show ?case
  proof (cases "k y = a \<and> p y")
    case True
    with distinct_map_Cons_neq [OF Cons.prems] have "\<forall>z\<in>set ys. k z \<noteq> a" by simp
    then have "filter (\<lambda>z. k z = a \<and> p z) ys = []" by (simp add: filter_empty_conv)
    with True show ?thesis by simp
  next
    case False
    with Cons show ?thesis by auto
  qed
qed simp

lemma scalar_Some: "scalar_one_or_none xs = Inr (Some x) \<Longrightarrow> xs = [x]"
  by (cases xs rule: scalar_one_or_none.cases) auto

lemma scalar_None: "scalar_one_or_none xs = Inr None \<longleftrightarrow> xs = []"
  by (cases xs rule: scalar_one_or_none.cases) auto

lemma scalar_take1: "scalar_one_or_none (take 1 xs) = Inr (case xs of [] \<Rightarrow> None | x # _ \<Rightarrow> Some x)"
  by (cases xs) auto

lemma find_Some_iff2: "find p xs = Some x \<Longrightarrow> x \<in> set xs \<and> p x"
  by (induction xs) (auto split: if_splits)

lemma find_distinct_key:
  assumes "distinct (map k xs)" and "x \<in> set xs" and "p x"
  shows "find (\<lambda>y. k y = k x \<and> p y) xs = Some x"
  using scalar_key [OF assms(1), of "k x" p] filter_key_unique [of k xs x p] assms by simp

lemma page_concat: "page l off xs @ page m (off + l) xs = page (l + m) off xs"
  by (simp add: page_def take_add add.commute)

section \<open>Wildcard patterns\<close>

text \<open>
  Patterns with one wildcard for any run of characters and one for a single character: SQL's \<open>LIKE\<close>
  (\<open>%\<close>, \<open>_\<close>) and Redis' \<open>PSUBSCRIBE\<close> globs (\<open>*\<close>, \<open>?\<close>).
\<close>

fun wild_match :: "char \<Rightarrow> char \<Rightarrow> string \<Rightarrow> string \<Rightarrow> bool" where
  "wild_match many one [] s = (s = [])"
| "wild_match many one (p # ps) [] = (p = many \<and> wild_match many one ps [])"
| "wild_match many one (p # ps) (c # cs) =
     (if p = many then wild_match many one ps (c # cs) \<or> wild_match many one (p # ps) cs
      else (p = one \<or> p = c) \<and> wild_match many one ps cs)"

lemma wild_match_literal:
  assumes "many \<notin> set p" and "one \<notin> set p"
  shows "wild_match many one (p @ ps) s \<longleftrightarrow> (\<exists>r. s = p @ r \<and> wild_match many one ps r)"
  using assms
proof (induction p arbitrary: s)
  case (Cons a p)
  then show ?case by (cases s) auto
qed simp

lemma wild_match_many:
  "wild_match many one (many # ps) s \<longleftrightarrow> (\<exists>x r. s = x @ r \<and> wild_match many one ps r)"
proof (induction s)
  case (Cons c cs)
  have "(\<exists>x r. c # cs = x @ r \<and> wild_match many one ps r) \<longleftrightarrow>
      wild_match many one ps (c # cs) \<or> (\<exists>x r. cs = x @ r \<and> wild_match many one ps r)"
    by (metis append_Cons append_Nil list.inject neq_Nil_conv)
  with Cons show ?case by simp
qed simp

lemma wild_match_prefix:
  assumes "many \<notin> set p" and "one \<notin> set p"
  shows "wild_match many one (p @ [many]) s \<longleftrightarrow> (\<exists>r. s = p @ r)"
  by (simp add: wild_match_literal [OF assms] wild_match_many)

end
