(* ===== verification/Redis.thy ===== *)
theory Redis
  imports Prelude
begin

text \<open>
  The Redis commands the program uses (\<open>SETEX\<close>, \<open>GET\<close>, \<open>DELETE\<close>, \<open>INCR\<close>, \<open>EXPIRE\<close>,
  \<open>SADD\<close>, \<open>SREM\<close>, \<open>SMEMBERS\<close>, \<open>SCARD\<close>) on a keyspace with expiry times, and the contract of a
  cache of documents under a family of keys with a time to live. Times are microseconds; a key
  whose expiry is not in the future does not exist any more.
\<close>

section \<open>Keyspace\<close>

record 'v redis =
  kv :: "string \<rightharpoonup> 'v \<times> timestamp option"
  sets :: "string \<rightharpoonup> string list \<times> timestamp option"

definition second :: int where
  "second = 1000000"

definition alive :: "timestamp \<Rightarrow> timestamp option \<Rightarrow> bool" where
  "alive now ex = (case ex of None \<Rightarrow> True | Some t \<Rightarrow> now < t)"

definition redis_get :: "timestamp \<Rightarrow> string \<Rightarrow> 'v redis \<Rightarrow> 'v option" where
  "redis_get now k r = (case kv r k of None \<Rightarrow> None
     | Some (v, ex) \<Rightarrow> if alive now ex then Some v else None)"

definition redis_setex :: "timestamp \<Rightarrow> string \<Rightarrow> int \<Rightarrow> 'v \<Rightarrow> 'v redis \<Rightarrow> 'v redis" where
  "redis_setex now k ttl v r = r\<lparr>kv := (kv r)(k \<mapsto> (v, Some (now + ttl * second)))\<rparr>"

definition redis_delete :: "string \<Rightarrow> 'v redis \<Rightarrow> 'v redis" where
  "redis_delete k r = r\<lparr>kv := (kv r)(k := None)\<rparr>"

text \<open>\<open>INCR\<close> of a counter keeps its expiry and starts a missing one at 1 without expiry; \<open>EXPIRE\<close> sets the expiry of a key that exists.\<close>

definition redis_incr :: "('v \<Rightarrow> int) \<Rightarrow> (int \<Rightarrow> 'v) \<Rightarrow> timestamp \<Rightarrow> string \<Rightarrow> 'v redis \<Rightarrow> 'v redis" where
  "redis_incr rd wr now k r = r\<lparr>kv := (kv r)(k \<mapsto> (case kv r k of None \<Rightarrow> (wr 1, None)
     | Some (v, ex) \<Rightarrow> if alive now ex then (wr (rd v + 1), ex) else (wr 1, None)))\<rparr>"

definition redis_expire :: "timestamp \<Rightarrow> string \<Rightarrow> int \<Rightarrow> 'v redis \<Rightarrow> 'v redis" where
  "redis_expire now k ttl r = (case redis_get now k r of None \<Rightarrow> r
     | Some v \<Rightarrow> r\<lparr>kv := (kv r)(k \<mapsto> (v, Some (now + ttl * second)))\<rparr>)"

definition redis_smembers :: "timestamp \<Rightarrow> string \<Rightarrow> 'v redis \<Rightarrow> string list" where
  "redis_smembers now k r = (case sets r k of None \<Rightarrow> []
     | Some (xs, ex) \<Rightarrow> if alive now ex then xs else [])"

definition redis_expiry :: "timestamp \<Rightarrow> string \<Rightarrow> 'v redis \<Rightarrow> timestamp option" where
  "redis_expiry now k r = (case sets r k of None \<Rightarrow> None
     | Some (xs, ex) \<Rightarrow> if alive now ex then ex else None)"

definition redis_sadd :: "timestamp \<Rightarrow> string \<Rightarrow> string \<Rightarrow> 'v redis \<Rightarrow> 'v redis" where
  "redis_sadd now k m r =
     r\<lparr>sets := (sets r)(k \<mapsto> (List.insert m (redis_smembers now k r), redis_expiry now k r))\<rparr>"

text \<open>\<open>SREM\<close> keeps the expiry; a set whose last member is removed ceases to exist.\<close>

definition redis_srem :: "timestamp \<Rightarrow> string \<Rightarrow> string \<Rightarrow> 'v redis \<Rightarrow> 'v redis" where
  "redis_srem now k m r = (let xs = removeAll m (redis_smembers now k r) in
     r\<lparr>sets := (sets r)(k := (if xs = [] then None else Some (xs, redis_expiry now k r)))\<rparr>)"

definition redis_expire_set :: "timestamp \<Rightarrow> string \<Rightarrow> int \<Rightarrow> 'v redis \<Rightarrow> 'v redis" where
  "redis_expire_set now k ttl r = (case redis_smembers now k r of [] \<Rightarrow> r
     | xs \<Rightarrow> r\<lparr>sets := (sets r)(k \<mapsto> (xs, Some (now + ttl * second)))\<rparr>)"

definition redis_scard :: "timestamp \<Rightarrow> string \<Rightarrow> 'v redis \<Rightarrow> nat" where
  "redis_scard now k r = length (redis_smembers now k r)"

definition empty_redis :: "'v redis" where
  "empty_redis = \<lparr>kv = Map.empty, sets = Map.empty\<rparr>"

lemmas redis_defs = redis_get_def redis_setex_def redis_delete_def redis_smembers_def
  redis_expiry_def redis_sadd_def redis_srem_def redis_expire_set_def redis_scard_def alive_def

lemma redis_get_setex:
  "redis_get now' k' (redis_setex now k ttl v r) =
     (if k' = k then (if now' < now + ttl * second then Some v else None) else redis_get now' k' r)"
  by (simp add: redis_defs)

lemma redis_get_delete:
  "redis_get now k' (redis_delete k r) = (if k' = k then None else redis_get now k' r)"
  by (simp add: redis_defs)

lemma redis_get_set_ops [simp]:
  "redis_get now k (redis_sadd t s m r) = redis_get now k r"
  "redis_get now k (redis_srem t s m r) = redis_get now k r"
  "redis_get now k (redis_expire_set t s ttl r) = redis_get now k r"
  by (simp_all add: redis_defs Let_def split: list.splits option.splits prod.splits)

lemma redis_smembers_kv_ops [simp]:
  "redis_smembers now k (redis_setex t k' ttl v r) = redis_smembers now k r"
  "redis_smembers now k (redis_delete k' r) = redis_smembers now k r"
  by (simp_all add: redis_defs)

lemma redis_smembers_sadd:
  "redis_smembers now k (redis_sadd now s m r) =
     (if k = s then List.insert m (redis_smembers now s r) else redis_smembers now k r)"
  by (auto simp: redis_defs split: option.splits if_splits)

lemma redis_smembers_srem:
  "redis_smembers now k (redis_srem now s m r) =
     (if k = s then removeAll m (redis_smembers now s r) else redis_smembers now k r)"
  by (auto simp: redis_defs Let_def split: option.splits if_splits)

lemma redis_smembers_expire_set:
  "0 < ttl \<Longrightarrow> redis_smembers now k (redis_expire_set now s ttl r) = redis_smembers now k r"
  by (auto simp: redis_defs second_def split: option.splits if_splits list.splits)

section \<open>Contract of a document cache\<close>

text \<open>
  What a client of a cache of documents relies on: at time \<open>t\<close> a key holds what was last put under it unless it
  was cleared or its time to live has passed. The abstract cache is a map from keys to documents with
  their expiry; clients reason about a sequence of commands on it.
\<close>

datatype ('k, 'd) cache_op = Put 'k 'd | Clear 'k | Wait int

fun cell_step :: "('k \<Rightarrow> int) \<Rightarrow> ('k, 'd) cache_op \<Rightarrow> timestamp \<times> ('k \<rightharpoonup> 'd \<times> timestamp) \<Rightarrow> timestamp \<times> ('k \<rightharpoonup> 'd \<times> timestamp)" where
  "cell_step ttl (Put k d) (now, m) = (now, m(k \<mapsto> (d, now + ttl k)))"
| "cell_step ttl (Clear k) (now, m) = (now, m(k := None))"
| "cell_step ttl (Wait t) (now, m) = (now + t, m)"

fun cache_run :: "('k \<Rightarrow> 'd \<Rightarrow> 'w \<Rightarrow> 'w) \<Rightarrow> ('k \<Rightarrow> 'w \<Rightarrow> 'w) \<Rightarrow> (int \<Rightarrow> 'w \<Rightarrow> 'w) \<Rightarrow> ('k, 'd) cache_op \<Rightarrow> 'w \<Rightarrow> 'w" where
  "cache_run put clear wait (Put k d) = put k d"
| "cache_run put clear wait (Clear k) = clear k"
| "cache_run put clear wait (Wait s) = wait s"

fun permitted :: "('k \<Rightarrow> bool) \<Rightarrow> ('k \<Rightarrow> bool) \<Rightarrow> ('k, 'd) cache_op \<Rightarrow> bool" where
  "permitted valid clearable (Put k d) = valid k"
| "permitted valid clearable (Clear k) = (valid k \<and> clearable k)"
| "permitted valid clearable (Wait s) = True"

definition live :: "timestamp \<Rightarrow> ('d \<times> timestamp) option \<Rightarrow> 'd option" where
  "live t c = (case c of None \<Rightarrow> None | Some (d, ex) \<Rightarrow> if t < ex then Some d else None)"

lemma live_simps [simp]: "live t None = None" "live t (Some (d, ex)) = (if t < ex then Some d else None)"
  by (simp_all add: live_def)

locale document_cache =
  fixes now :: "'w \<Rightarrow> timestamp" and look :: "timestamp \<Rightarrow> 'k \<Rightarrow> 'w \<Rightarrow> 'd option"
    and put :: "'k \<Rightarrow> 'd \<Rightarrow> 'w \<Rightarrow> 'w" and clear :: "'k \<Rightarrow> 'w \<Rightarrow> 'w" and wait :: "int \<Rightarrow> 'w \<Rightarrow> 'w"
    and valid :: "'k \<Rightarrow> bool" and clearable :: "'k \<Rightarrow> bool" and ttl :: "'k \<Rightarrow> int"
  assumes look_put: "valid i \<Longrightarrow> valid j \<Longrightarrow>
      look t j (put i d w) = (if j = i then live t (Some (d, now w + ttl i)) else look t j w)"
    and look_clear: "valid i \<Longrightarrow> clearable i \<Longrightarrow> valid j \<Longrightarrow> look t j (clear i w) = (if j = i then None else look t j w)"
    and look_wait: "look t j (wait s w) = look t j w"
    and now_ops: "now (put i d w) = now w" "now (clear i w) = now w" "now (wait s w) = now w + s"
begin

text \<open>An abstract cache describes a state when both show the same documents at every time.\<close>

definition agrees :: "timestamp \<times> ('k \<rightharpoonup> 'd \<times> timestamp) \<Rightarrow> 'w \<Rightarrow> bool" where
  "agrees c w \<longleftrightarrow> now w = fst c \<and> (\<forall>t j. valid j \<longrightarrow> look t j w = live t (snd c j))"

lemma step_refines: "agrees c w \<Longrightarrow> permitted valid clearable x \<Longrightarrow> agrees (cell_step ttl x c) (cache_run put clear wait x w)"
  by (cases x; cases c) (auto simp: agrees_def look_put look_clear look_wait now_ops)

lemma run_refines:
  "agrees c w \<Longrightarrow> \<forall>x\<in>set xs. permitted valid clearable x \<Longrightarrow>
     agrees (fold (cell_step ttl) xs c) (fold (cache_run put clear wait) xs w)"
proof (induction xs arbitrary: c w)
  case (Cons x xs)
  then have "agrees (cell_step ttl x c) (cache_run put clear wait x w)" by (intro step_refines) simp_all
  with Cons show ?case by simp
qed simp

end

end
