(* ===== verification/World.thy ===== *)
theory World
  imports Redis
begin

text \<open>
  The state every service acts on: the database tables (one list of rows per table, in insertion
  order), the events published on the bus, the messages handed to the WhatsApp API, the clock and
  the supply of identifiers \<open>uuid4\<close> yields. Row types follow the SQLAlchemy models under
  \<open>src/app/modules/*/models.py\<close>; a column keeps its name behind a prefix per table.
\<close>

section \<open>Enumerations stored in columns\<close>

datatype order_state = INQUIRY | CONFIRMED | PAID | FAILED

fun order_state_value :: "order_state \<Rightarrow> string" where
  "order_state_value INQUIRY = ''inquiry''"
| "order_state_value CONFIRMED = ''confirmed''"
| "order_state_value PAID = ''paid''"
| "order_state_value FAILED = ''failed''"

datatype payment_status = PAY_PENDING | PAY_SUCCESS | PAY_FAILED

datatype credit_sale_status = CS_ACTIVE | CS_SETTLED | CS_DISPUTED | CS_WRITTEN_OFF

fun credit_sale_status_value :: "credit_sale_status \<Rightarrow> string" where
  "credit_sale_status_value CS_ACTIVE = ''active''"
| "credit_sale_status_value CS_SETTLED = ''settled''"
| "credit_sale_status_value CS_DISPUTED = ''disputed''"
| "credit_sale_status_value CS_WRITTEN_OFF = ''written_off''"

datatype referral_status = SIGNED_UP | FIRST_ORDER | ACTIVE_30D | CONVERTED

datatype attribution_type = ORGANIC | REFERRAL | AGENT | PARTNERSHIP

datatype interest_type = PRICE_INQUIRY | IMAGE_INQUIRY | ORDER_CANCELLED

datatype broadcast_status = BC_DRAFT | BC_SENDING | BC_SENT | BC_PAUSED | BC_FAILED

datatype recipient_status =
  RC_PENDING | RC_SENT | RC_DELIVERED | RC_READ | RC_REPLIED | RC_OPTED_OUT | RC_SKIPPED

datatype conversation_status = CV_ACTIVE | CV_RESOLVED | CV_ESCALATED

datatype notification_status = NT_PENDING | NT_SENT | NT_FAILED

section \<open>Rows\<close>

record order =
  o_id :: string
  o_tenant_id :: string
  o_conversation_id :: string
  o_customer_id :: "string option"
  o_customer_phone :: "string option"
  o_customer_name :: "string option"
  o_trader_phone :: "string option"
  o_state :: order_state
  o_amount :: "decimal option"
  o_currency :: string
  o_is_credit :: bool
  o_reminder_sent_at :: "timestamp option"
  o_created_at :: timestamp

record order_item =
  oi_id :: string
  oi_order_id :: string
  oi_product_name :: string
  oi_quantity :: int
  oi_unit_price :: decimal

record payment =
  p_id :: string
  p_tenant_id :: string
  p_order_id :: string
  p_reference :: string
  p_amount :: decimal
  p_currency :: string
  p_status :: payment_status
  p_provider :: string
  p_payment_link :: "string option"
  p_created_at :: timestamp

record credit_sale =
  cs_id :: string
  cs_tenant_id :: string
  cs_order_id :: "string option"
  cs_conversation_id :: "string option"
  cs_customer_name :: string
  cs_amount :: decimal
  cs_currency :: string
  cs_due_date :: "timestamp option"
  cs_status :: credit_sale_status
  cs_notes :: "string option"
  cs_reminder_interval_days :: int
  cs_max_reminders :: int
  cs_reminders_sent :: int
  cs_last_reminded_at :: "timestamp option"
  cs_created_at :: timestamp

record customer_list_entry =
  cl_id :: string
  cl_tenant_id :: string
  cl_trader_phone :: string
  cl_customer_phone :: string
  cl_customer_name :: "string option"
  cl_total_orders :: int
  cl_total_spend :: decimal
  cl_first_order_date :: "timestamp option"
  cl_last_order_date :: "timestamp option"
  cl_opted_out :: bool
  cl_opted_out_at :: "timestamp option"
  cl_last_broadcast_at :: "timestamp option"
  cl_segments :: "string list"
  cl_segments_updated_at :: "timestamp option"

record referral =
  rf_id :: string
  rf_referrer_phone :: "string option"
  rf_agent_code :: "string option"
  rf_referred_phone :: string
  rf_referred_name :: "string option"
  rf_attribution_type :: attribution_type
  rf_status :: referral_status
  rf_first_order_at :: "timestamp option"
  rf_active_30d_at :: "timestamp option"
  rf_converted_at :: "timestamp option"

record interest_event =
  ie_id :: string
  ie_tenant_id :: string
  ie_trader_phone :: string
  ie_customer_phone :: string
  ie_customer_name :: "string option"
  ie_product_name :: string
  ie_price :: "int option"
  ie_event_type :: interest_type
  ie_followed_up :: bool
  ie_followed_up_at :: "timestamp option"
  ie_converted :: bool
  ie_order_id :: "string option"
  ie_created_at :: timestamp

record broadcast =
  b_id :: string
  b_tenant_id :: string
  b_trader_phone :: string
  b_segment :: string
  b_message_text :: string
  b_original_text :: "string option"
  b_total_recipients :: int
  b_sent_count :: int
  b_status :: broadcast_status
  b_completed_at :: "timestamp option"

record broadcast_recipient =
  br_id :: string
  br_broadcast_id :: string
  br_customer_phone :: string
  br_customer_name :: "string option"
  br_status :: recipient_status
  br_sent_at :: "timestamp option"
  br_skip_reason :: "string option"

record conversation =
  cv_id :: string
  cv_tenant_id :: string
  cv_channel :: string
  cv_customer_id :: "string option"
  cv_customer_identifier :: string
  cv_customer_name :: "string option"
  cv_status :: conversation_status
  cv_assigned_to_user_id :: "string option"
  cv_created_at :: timestamp
  cv_updated_at :: timestamp

record message =
  m_id :: string
  m_tenant_id :: string
  m_conversation_id :: string
  m_sender_role :: string
  m_sender_identifier :: "string option"
  m_content :: string
  m_external_id :: "string option"
  m_created_at :: timestamp

record message_reaction =
  mr_id :: string
  mr_message_id :: string
  mr_tenant_id :: string
  mr_user_id :: string
  mr_emoji :: string
  mr_created_at :: timestamp

record scheduled_message =
  sm_id :: string
  sm_tenant_id :: string
  sm_conversation_id :: string
  sm_content :: string
  sm_scheduled_for :: timestamp
  sm_status :: string

datatype auth_provider = EMAIL | GOOGLE | WHATSAPP

record user =
  u_id :: string
  u_email :: string
  u_phone_number :: "string option"
  u_password_hash :: "string option"
  u_auth_provider :: auth_provider
  u_display_name :: "string option"
  u_is_superadmin :: bool

record tenant =
  tn_id :: string
  tn_name :: "string option"

record user_tenant =
  ut_user_id :: string
  ut_tenant_id :: string
  ut_role :: string
  ut_created_at :: timestamp

record invite_token =
  iv_tenant_id :: string
  iv_token :: string
  iv_role :: string
  iv_expires_at :: timestamp
  iv_used_at :: "timestamp option"

record tenant_channel =
  tc_id :: string
  tc_tenant_id :: string
  tc_channel :: string
  tc_phone_number_id :: string
  tc_encrypted_access_token :: string
  tc_webhook_registered :: bool

text \<open>
  The row of a trader. The catalogue column holds JSON text in one of the two shapes the program writes: a dict from
  names to prices, or the list of products read from a photo or a voice note; a value stands for the text
  \<open>json.dumps\<close> gives for it, which \<open>json.loads\<close> reads back.
\<close>

datatype onboarding_status = IN_PROGRESS | COMPLETE

datatype catalogue_json = CatDict "(string \<times> int) list" | CatList "(string \<times> int) list"

record trader_row =
  td_id :: string
  td_tenant_id :: "string option"
  td_phone_number :: string
  td_business_name :: "string option"
  td_business_category :: "string option"
  td_store_slug :: "string option"
  td_onboarding_status :: onboarding_status
  td_tier :: string
  td_bank_name :: "string option"
  td_bank_account_number :: "string option"
  td_bank_account_name :: "string option"
  td_referral_code :: "string option"
  td_attribution_type :: "string option"
  td_attribution_code :: "string option"
  td_onboarding_catalogue :: "catalogue_json option"
  td_created_at :: timestamp

record customer_route =
  cr_customer_phone :: string
  cr_trader_phone :: string
  cr_store_slug :: string
  cr_tenant_id :: string

record onboarding_event =
  oe_phone_number :: string
  oe_event_type :: string
  oe_step_name :: "string option"
  oe_path :: "string option"
  oe_created_at :: timestamp

record product_image =
  pi_trader_phone :: string
  pi_product_name :: string
  pi_image_url :: string
  pi_image_nobg_url :: "string option"
  pi_image_hash :: "string option"

record product_description =
  pd_id :: string
  pd_trader_phone :: string
  pd_product_name :: string
  pd_price :: "int option"
  pd_description :: "string option"
  pd_image_hash :: "string option"
  pd_confirmed :: bool
  pd_created_at :: timestamp

datatype weekly_report_status = WR_SENT | WR_FAILED | WR_SKIPPED

record report_config =
  rc_tenant_id :: string
  rc_enabled :: bool
  rc_recipient_phone :: "string option"
  rc_timezone :: string

record weekly_report =
  wr_tenant_id :: string
  wr_week_start :: string
  wr_status :: weekly_report_status
  wr_recipient_phone :: "string option"
  wr_report_text :: "string option"
  wr_error_detail :: "string option"

section \<open>Outbound messages\<close>

text \<open>
  A message body is either text the code assembles (kept as a string) or one of the reply templates
  of \<open>whatsapp.py\<close>, named, with its arguments rendered. Buttons of an interactive message are the
  (id, title) pairs the recipient can tap; a list picker has titled sections of (id, title,
  description) rows.
\<close>

datatype body = Plain string | Template string "jval list"

datatype wa_message =
    TextMsg body
  | ButtonMsg body "(string \<times> string) list" "string option"
  | ListMsg body string "(string \<times> (string \<times> string \<times> string) list) list"
  | ImageMsg string "body option"
  | ImageUrlMsg string "body option"
  | VideoUrlMsg string "body option"

record notification =
  nt_id :: string
  nt_tenant_id :: string
  nt_event_id :: string
  nt_recipient :: string
  nt_channel :: string
  nt_message_text :: body
  nt_status :: notification_status
  nt_order_id :: "string option"

record event =
  ev_event_name :: string
  ev_tenant_id :: string
  ev_payload :: payload
  ev_event_id :: string
  ev_timestamp :: timestamp

section \<open>Documents kept in Redis\<close>

text \<open>
  An item of a parsed order (\<open>{name, qty, unit_price}\<close>), an entry of a numbered list shown to a
  customer, and the trader dict of \<open>orders/handlers.py\<close>. The documents are the JSON objects
  \<open>orders/session.py\<close> stores, one constructor per writer; \<open>json.loads(json.dumps(d))\<close> is \<open>d\<close>.
\<close>

record cart_item =
  it_name :: string
  it_qty :: int
  it_unit_price :: "int option"

record numbered_item =
  ni_index :: int
  ni_name :: string
  ni_price :: int

record trader =
  tr_business_name :: string
  tr_business_category :: string
  tr_catalogue :: "(string \<times> int) list"
  tr_phone_number :: string
  tr_tenant_id :: string
  tr_store_slug :: string
  tr_bank_name :: string
  tr_bank_account_number :: string
  tr_bank_account_name :: string

text \<open>
  The state of an onboarding: \<open>onboarding/session.py\<close> stores a step and a dict of what was collected so far. The
  keys the service writes are the fields of the record, a key that is absent being \<open>None\<close>, false or empty.
\<close>

datatype onboarding_step = AWAITING_NAME | AWAITING_CATEGORY | AWAITING_CATALOGUE | AWAITING_PHOTO
  | AWAITING_PHOTO_CONFIRMATION | AWAITING_VOICE | AWAITING_VOICE_CONFIRMATION | QA_IN_PROGRESS

record onboarding_data =
  od_last_active :: timestamp
  od_attribution_type :: "string option"
  od_attribution_code :: "string option"
  od_name :: "string option"
  od_category :: "string option"
  od_awaiting_other_desc :: bool
  od_category_desc :: "string option"
  od_extracted_products :: "(string \<times> int) list"
  od_media_catalogue :: "(string \<times> int) list option"
  od_qa_index :: nat
  od_qa_prices :: "(string \<times> int) list"
  od_pending_prompt :: "body option"

datatype doc =
    ConfirmSession "string option" "cart_item list" int "string option"
  | ClarifySession string string "numbered_item list"
  | ClarifyContext string string "numbered_item list"
  | NegotiationDoc int int string "cart_item list" "string option" string string
  | TraderDoc trader
  | NoTraderDoc
  | RoutingDoc string string string string "(string \<times> int) list"
  | ImageInquiryDoc string payload
  | TraderSessionDoc string payload
  | FlagDoc
  | OnboardingDoc onboarding_step onboarding_data
  | TextDoc string
  | CounterDoc int
  | ShareDoc payload

section \<open>The world\<close>

record world =
  orders :: "order list"
  order_items :: "order_item list"
  payments :: "payment list"
  credit_sales :: "credit_sale list"
  customer_list :: "customer_list_entry list"
  referrals :: "referral list"
  interest_events :: "interest_event list"
  broadcasts :: "broadcast list"
  broadcast_recipients :: "broadcast_recipient list"
  conversations :: "conversation list"
  messages :: "message list"
  message_reactions :: "message_reaction list"
  scheduled_messages :: "scheduled_message list"
  notifications :: "notification list"
  tenant_channels :: "tenant_channel list"
  users :: "user list"
  user_tenants :: "user_tenant list"
  tenants :: "tenant list"
  invite_tokens :: "invite_token list"
  traders :: "trader_row list"
  customer_routes :: "customer_route list"
  onboarding_events :: "onboarding_event list"
  product_images :: "product_image list"
  product_descriptions :: "product_description list"
  report_configs :: "report_config list"
  weekly_reports :: "weekly_report list"
  published :: "event list"
  dispatched :: "(string \<times> string \<times> wa_message) list"
  redis :: "doc redis"
  clock :: timestamp
  uuid_src :: "nat \<Rightarrow> string"
  uuid_n :: nat

type_synonym 'a svc = "(world, 'a) act"

text \<open>\<open>str(uuid.uuid4())\<close>: the next identifier of the supply.\<close>

definition uuid4 :: "string svc" where
  "uuid4 = (\<lambda>w. (Inr (uuid_src w (uuid_n w)), w\<lparr>uuid_n := Suc (uuid_n w)\<rparr>))"

lemma uuid4_apply [simp, act_simps]:
  "uuid4 w = (Inr (uuid_src w (uuid_n w)), w\<lparr>uuid_n := Suc (uuid_n w)\<rparr>)"
  by (simp add: uuid4_def)

text \<open>
  \<open>async with async_session_factory.begin()\<close>: the block commits when it returns and rolls its
  database writes back when it raises. What already left the process (published events, messages
  handed to WhatsApp, Redis commands) is not undone.
\<close>

definition restore_db :: "world \<Rightarrow> world \<Rightarrow> world" where
  "restore_db w0 w = w0\<lparr>published := published w, dispatched := dispatched w,
     redis := redis w, clock := clock w, uuid_n := uuid_n w\<rparr>"

definition session_begin :: "'a svc \<Rightarrow> 'a svc" where
  "session_begin m = (\<lambda>w. case m w of (Inl e, w') \<Rightarrow> (Inl e, restore_db w w') | (Inr x, w') \<Rightarrow> (Inr x, w'))"

lemma restore_db_same [simp]: "restore_db w w = w"
  by (simp add: restore_db_def)

lemma session_begin_Inr: "m w = (Inr x, w') \<Longrightarrow> session_begin m w = (Inr x, w')"
  by (simp add: session_begin_def)

lemma session_begin_Inl: "m w = (Inl e, w') \<Longrightarrow> session_begin m w = (Inl e, restore_db w w')"
  by (simp add: session_begin_def)

text \<open>The state after an action, whether it returned or raised.\<close>

definition exec :: "'a svc \<Rightarrow> world \<Rightarrow> world" where
  "exec m w = snd (m w)"

text \<open>Primary keys are distinct and no identifier still to come is in use.\<close>

definition order_ids :: "world \<Rightarrow> string list" where
  "order_ids w = map o_id (orders w)"

definition wf_orders :: "world \<Rightarrow> bool" where
  "wf_orders w \<longleftrightarrow> distinct (order_ids w) \<and> inj (uuid_src w)
     \<and> (\<forall>n\<ge>uuid_n w. uuid_src w n \<notin> set (order_ids w))
     \<and> (\<forall>n\<ge>uuid_n w. \<forall>it\<in>set (order_items w). oi_order_id it \<noteq> uuid_src w n)"

lemma wf_orders_distinct: "wf_orders w \<Longrightarrow> distinct (map o_id (orders w))"
  by (simp add: wf_orders_def order_ids_def)

lemma wf_orders_fresh: "wf_orders w \<Longrightarrow> uuid_src w (uuid_n w) \<notin> o_id ` set (orders w)"
  by (auto simp: wf_orders_def order_ids_def)

lemma wf_orders_fresh_items:
  "wf_orders w \<Longrightarrow> it \<in> set (order_items w) \<Longrightarrow> oi_order_id it \<noteq> uuid_src w (uuid_n w)"
  by (auto simp: wf_orders_def)

text \<open>The empty database, used by the examples.\<close>

definition empty_world :: world where
  "empty_world = \<lparr>orders = [], order_items = [], payments = [], credit_sales = [],
     customer_list = [], referrals = [], interest_events = [], broadcasts = [],
     broadcast_recipients = [], conversations = [], messages = [], message_reactions = [], scheduled_messages = [],
     notifications = [], tenant_channels = [], users = [], user_tenants = [], tenants = [], invite_tokens = [], traders = [], customer_routes = [],
     onboarding_events = [], product_images = [], product_descriptions = [], report_configs = [], weekly_reports = [], published = [], dispatched = [],
     redis = empty_redis, clock = 0,
     uuid_src = (\<lambda>n. replicate n CHR ''u''), uuid_n = 0\<rparr>"

text \<open>A trader who has just completed onboarding, for the examples.\<close>

definition example_trader :: "string \<Rightarrow> string \<Rightarrow> trader_row" where
  "example_trader phone slug = \<lparr>td_id = phone, td_tenant_id = Some ''t1'', td_phone_number = phone, td_business_name = Some ''Mama Caro'',
     td_business_category = Some ''food'', td_store_slug = Some slug, td_onboarding_status = COMPLETE, td_tier = ''ofe'',
     td_bank_name = None, td_bank_account_number = None, td_bank_account_name = None, td_referral_code = None,
     td_attribution_type = None, td_attribution_code = None, td_onboarding_catalogue = None, td_created_at = 0\<rparr>"

lemma inj_replicate: "inj (\<lambda>n. replicate n c)"
  by (rule injI) (metis length_replicate)

lemma replicate_neq_hd: "s \<noteq> [] \<Longrightarrow> hd s \<noteq> c \<Longrightarrow> replicate n c \<noteq> s"
  by (cases n) auto

text \<open>A state over the example supply is well-formed when its keys are not made of \<open>u\<close>s.\<close>

lemma wf_orders_example:
  assumes "uuid_src w = uuid_src empty_world"
    and "distinct (map o_id (orders w))"
    and "\<forall>x\<in>set (orders w). o_id x \<noteq> [] \<and> hd (o_id x) \<noteq> CHR ''u''"
    and "\<forall>it\<in>set (order_items w). oi_order_id it \<noteq> [] \<and> hd (oi_order_id it) \<noteq> CHR ''u''"
  shows "wf_orders w"
  using assms replicate_neq_hd
  by (fastforce simp: wf_orders_def order_ids_def empty_world_def inj_replicate)

lemma wf_orders_empty: "wf_orders empty_world"
  by (simp add: wf_orders_def order_ids_def empty_world_def inj_replicate)

end
