(* ===== verification/Channels.thy ===== *)
theory Channels
  imports World
begin

text \<open>
  The repository of connected channels (\<open>src/app/modules/channels/repository.py\<close>): one row per
  tenant and channel, looked up by tenant when a message goes out and by Meta's phone number id when
  one comes in.
\<close>

section \<open>Operations\<close>

definition get_by_tenant_and_channel :: "string \<Rightarrow> string \<Rightarrow> tenant_channel option svc" where
  "get_by_tenant_and_channel tid ch = bindA (getA tenant_channels) (\<lambda>cs.
     liftE (scalar_one_or_none (filter (\<lambda>c. (tc_tenant_id c, tc_channel c) = (tid, ch) \<and> True) cs)))"

definition list_by_tenant :: "string \<Rightarrow> world \<Rightarrow> tenant_channel list" where
  "list_by_tenant tid w = filter (\<lambda>c. tc_tenant_id c = tid) (tenant_channels w)"

definition get_by_phone_number_id :: "string \<Rightarrow> string \<Rightarrow> tenant_channel option svc" where
  "get_by_phone_number_id pid ch = bindA (getA tenant_channels) (\<lambda>cs.
     liftE (scalar_one_or_none (filter (\<lambda>c. tc_phone_number_id c = pid \<and> tc_channel c = ch) cs)))"

definition set_channel :: "string \<Rightarrow> (tenant_channel \<Rightarrow> tenant_channel) \<Rightarrow> unit svc" where
  "set_channel cid f = modA (\<lambda>w. w\<lparr>tenant_channels := update_where (\<lambda>c. tc_id c = cid) f (tenant_channels w)\<rparr>)"

definition mark_webhook_registered :: "string \<Rightarrow> string \<Rightarrow> unit svc" where
  "mark_webhook_registered tid ch = bindA (get_by_tenant_and_channel tid ch) (\<lambda>c. case c of
     None \<Rightarrow> ret ()
   | Some c \<Rightarrow> set_channel (tc_id c) (\<lambda>c. c\<lparr>tc_webhook_registered := True\<rparr>))"

definition channel_upsert :: "string \<Rightarrow> string \<Rightarrow> string \<Rightarrow> string \<Rightarrow> bool \<Rightarrow> (tenant_channel \<times> bool) svc" where
  "channel_upsert tid ch pid token registered = bindA (get_by_tenant_and_channel tid ch) (\<lambda>c. case c of
     Some c \<Rightarrow> (let upd = (\<lambda>c. c\<lparr>tc_phone_number_id := pid, tc_encrypted_access_token := token,
                               tc_webhook_registered := registered\<rparr>)
       in thenA (set_channel (tc_id c) upd) (ret (upd c, False)))
   | None \<Rightarrow> bindA uuid4 (\<lambda>i.
       let c = \<lparr>tc_id = i, tc_tenant_id = tid, tc_channel = ch, tc_phone_number_id = pid,
                tc_encrypted_access_token = token, tc_webhook_registered = registered\<rparr>
       in thenA (modA (\<lambda>w. w\<lparr>tenant_channels := tenant_channels w @ [c]\<rparr>)) (ret (c, True))))"

section \<open>One row per tenant and channel\<close>

definition tc_key :: "tenant_channel \<Rightarrow> string \<times> string" where
  "tc_key c = (tc_tenant_id c, tc_channel c)"

definition wf_channels :: "world \<Rightarrow> bool" where
  "wf_channels w \<longleftrightarrow> distinct (map tc_key (tenant_channels w)) \<and> distinct (map tc_id (tenant_channels w))
     \<and> inj (uuid_src w) \<and> (\<forall>n\<ge>uuid_n w. uuid_src w n \<notin> tc_id ` set (tenant_channels w))"

definition channel_at :: "world \<Rightarrow> string \<Rightarrow> string \<Rightarrow> tenant_channel option" where
  "channel_at w tid ch = find (\<lambda>c. tc_key c = (tid, ch) \<and> True) (tenant_channels w)"

lemma get_channel_eq:
  "wf_channels w \<Longrightarrow> get_by_tenant_and_channel tid ch w = (Inr (channel_at w tid ch), w)"
  using scalar_key [of tc_key "tenant_channels w" "(tid, ch)" "\<lambda>_. True"]
  by (simp add: get_by_tenant_and_channel_def bindA_apply wf_channels_def channel_at_def tc_key_def)

lemma get_channel_state: "snd (get_by_tenant_and_channel tid ch w) = w"
  by (simp add: get_by_tenant_and_channel_def bindA_apply)

lemma channel_at_None: "channel_at w tid ch = None \<longleftrightarrow> (tid, ch) \<notin> tc_key ` set (tenant_channels w)"
  by (auto simp: channel_at_def find_None_iff image_iff)

lemma channel_at_SomeD: "channel_at w tid ch = Some c \<Longrightarrow> c \<in> set (tenant_channels w) \<and> tc_key c = (tid, ch)"
  using find_Some_iff2 by (fastforce simp: channel_at_def)

lemma find_append_option:
  "find p (xs @ ys) = (case find p xs of None \<Rightarrow> find p ys | Some x \<Rightarrow> Some x)"
  by (induction xs) auto

lemma find_update_key:
  assumes "distinct (map i xs)" and "x \<in> set xs" and "\<And>y. k (f y) = k y"
  shows "find (\<lambda>y. k y = a \<and> True) (update_where (\<lambda>y. i y = i x) f xs) =
     (if k x = a \<and> find (\<lambda>y. k y = a \<and> True) xs = Some x then Some (f x)
      else find (\<lambda>y. k y = a \<and> True) xs)"
  using assms(1,2)
proof (induction xs)
  case (Cons y ys)
  show ?case
  proof (cases "y = x")
    case True
    with distinct_map_Cons_neq [OF Cons.prems(1)] have "\<forall>z\<in>set ys. i z \<noteq> i x" by simp
    with True show ?thesis by (simp add: assms(3) update_where_none)
  next
    case False
    with Cons.prems have "i y \<noteq> i x" by auto
    with False Cons show ?thesis by (simp add: assms(3))
  qed
qed simp

section \<open>Properties\<close>

text \<open>
  Connecting a channel is an upsert. Afterwards the tenant's channel is looked up with exactly the
  phone number id and token just given, no other tenant's or channel's record has changed, there is still
  one row per tenant and channel, and the returned flag tells whether the row is new.
\<close>

theorem channel_upsert_roundtrip:
  assumes "wf_channels w"
  shows "\<exists>c created w'. channel_upsert tid ch pid token reg w = (Inr (c, created), w')
     \<and> created = (channel_at w tid ch = None) \<and> wf_channels w'
     \<and> (\<forall>t k. get_by_tenant_and_channel t k w' = (Inr (if (t, k) = (tid, ch) then Some c else channel_at w t k), w'))
     \<and> tc_phone_number_id c = pid \<and> tc_encrypted_access_token c = token \<and> tc_webhook_registered c = reg"
proof (cases "channel_at w tid ch")
  case None
  define c where "c = \<lparr>tc_id = uuid_src w (uuid_n w), tc_tenant_id = tid, tc_channel = ch,
    tc_phone_number_id = pid, tc_encrypted_access_token = token, tc_webhook_registered = reg\<rparr>"
  define w' where "w' = w\<lparr>uuid_n := Suc (uuid_n w), tenant_channels := tenant_channels w @ [c]\<rparr>"
  have run: "channel_upsert tid ch pid token reg w = (Inr (c, True), w')"
    by (simp add: channel_upsert_def act_simps get_channel_eq [OF assms] None c_def w'_def Let_def)
  have "uuid_src w (uuid_n w) \<notin> tc_id ` set (tenant_channels w)"
    using assms by (simp add: wf_channels_def)
  moreover have "\<forall>n\<ge>Suc (uuid_n w). uuid_src w n \<noteq> uuid_src w (uuid_n w)"
    using assms by (auto simp: wf_channels_def dest: injD)
  ultimately have wf: "wf_channels w'"
    using assms None [unfolded channel_at_None]
    by (auto simp: wf_channels_def w'_def c_def tc_key_def)
  have at: "channel_at w' t k = (if (t, k) = (tid, ch) then Some c else channel_at w t k)" for t k
    using None by (auto simp: channel_at_def w'_def c_def tc_key_def find_append_option split: option.splits)
  from run wf at None show ?thesis by (auto simp: get_channel_eq c_def)
next
  case (Some c)
  note mem = channel_at_SomeD [OF Some]
  define f where "f = (\<lambda>c::tenant_channel. c\<lparr>tc_phone_number_id := pid, tc_encrypted_access_token := token,
    tc_webhook_registered := reg\<rparr>)"
  define w' where "w' = w\<lparr>tenant_channels := update_where (\<lambda>x. tc_id x = tc_id c) f (tenant_channels w)\<rparr>"
  have k [simp]: "tc_key (f x) = tc_key x" "tc_id (f x) = tc_id x" for x by (simp_all add: f_def tc_key_def)
  have run: "channel_upsert tid ch pid token reg w = (Inr (f c, False), w')"
    by (simp add: channel_upsert_def act_simps get_channel_eq [OF assms] Some set_channel_def f_def w'_def Let_def)
  have wf: "wf_channels w'"
    using assms by (simp add: wf_channels_def w'_def map_update_where_same image_update_where_same)
  have at: "channel_at w' t k = (if (t, k) = (tid, ch) then Some (f c) else channel_at w t k)" for t k
    using find_update_key [of tc_id "tenant_channels w" c tc_key f "(t, k)"] assms mem Some
    by (auto simp: channel_at_def w'_def wf_channels_def)
  from run wf at Some show ?thesis by (auto simp: get_channel_eq f_def)
qed

definition one_channel :: world where
  "one_channel = empty_world\<lparr>tenant_channels := [\<lparr>tc_id = ''c1'', tc_tenant_id = ''t1'', tc_channel = ''whatsapp'',
     tc_phone_number_id = ''p1'', tc_encrypted_access_token = ''tok'', tc_webhook_registered = False\<rparr>]\<rparr>"

lemma wf_one_channel: "wf_channels one_channel"
  using replicate_neq_hd [of "''c1''" "CHR ''u''"] by (simp add: wf_channels_def one_channel_def empty_world_def inj_replicate)

theorem channel_upsert_roundtrip_witness:
  "wf_channels one_channel
   \<and> (\<exists>c w'. channel_upsert ''t1'' ''whatsapp'' ''p2'' ''tok2'' True one_channel = (Inr (c, False), w')
        \<and> tc_phone_number_id c = ''p2'')"
  using channel_upsert_roundtrip [OF wf_one_channel, of "''t1''" "''whatsapp''" "''p2''" "''tok2''" True]
    wf_one_channel
  by (auto simp: channel_at_def one_channel_def tc_key_def)

end
