(* ===== verification/Notifications.thy ===== *)
theory Notifications
  imports Channels Pystring
begin

text \<open>
  Outbound messages (\<open>src/app/modules/notifications/service.py\<close>, \<open>repository.py\<close>): every message is
  persisted under an event id before it is handed to Meta's Cloud API, and the row then records SENT
  or FAILED. The HTTP client and the token cipher are parameters (a gateway); what the API accepted is
  appended to \<open>dispatched\<close>.
\<close>

section \<open>The gateway\<close>

text \<open>
  What \<open>response.json()["messages"][0]["id"]\<close> finds in the body of an answer: the identifier of the message, a
  missing key or index (\<open>KeyError\<close>, \<open>IndexError\<close>), JSON of another shape (\<open>TypeError\<close>), or no JSON at all
  (\<open>ValueError\<close>).
\<close>

datatype answer_body = MessageId string | MissingKey | OtherShape | NotJson

record response =
  rs_status :: nat
  rs_text :: string
  rs_body :: answer_body

record gateway =
  gw_decrypt :: "string \<Rightarrow> error + string"
  gw_post :: "timestamp \<Rightarrow> string \<Rightarrow> string \<Rightarrow> string \<Rightarrow> wa_message \<Rightarrow> error + response"

definition is_success :: "response \<Rightarrow> bool" where
  "is_success r \<longleftrightarrow> 200 \<le> rs_status r \<and> rs_status r < 300"

text \<open>Decrypt the token and post; an accepted message is on its way to the recipient.\<close>

definition post_message :: "gateway \<Rightarrow> string \<Rightarrow> tenant_channel \<Rightarrow> string \<Rightarrow> wa_message \<Rightarrow> response svc" where
  "post_message gw tid ch rcpt msg =
     bindA (liftE (gw_decrypt gw (tc_encrypted_access_token ch))) (\<lambda>token w.
       case gw_post gw (clock w) (tc_phone_number_id ch) token rcpt msg of
         Inl e \<Rightarrow> (Inl e, w)
       | Inr r \<Rightarrow> (Inr r, if is_success r then w\<lparr>dispatched := dispatched w @ [(tid, rcpt, msg)]\<rparr> else w))"

section \<open>Dispatch adapters\<close>

definition dispatch_or_raise :: "gateway \<Rightarrow> string \<Rightarrow> string \<Rightarrow> wa_message \<Rightarrow> response svc" where
  "dispatch_or_raise gw tid rcpt msg = bindA (get_by_tenant_and_channel tid ''whatsapp'') (\<lambda>c. case c of
     None \<Rightarrow> raise (NotFoundError ''WhatsApp channel'' tid)
   | Some ch \<Rightarrow> bindA (post_message gw tid ch rcpt msg) (\<lambda>r.
       if is_success r then ret r
       else if rs_status r = 401 then raise (DispatchError ''WhatsApp access token is invalid or expired.'')
       else raise (DispatchError (''WhatsApp API error '' @ show_nat (rs_status r) @ '': '' @ take 200 (rs_text r)))))"

text \<open>
  The media senders read the identifier of the message out of an accepting answer. Forwarding a media id forgives
  \<open>KeyError\<close>, \<open>IndexError\<close> and \<open>TypeError\<close>, sending by URL the first two only; a body that is not JSON raises in
  both, after Meta has accepted the message.
\<close>

definition forwarded_id :: "response \<Rightarrow> string option svc" where
  "forwarded_id r = (case rs_body r of MessageId i \<Rightarrow> ret (Some i) | MissingKey \<Rightarrow> ret None | OtherShape \<Rightarrow> ret None
     | NotJson \<Rightarrow> raise (ValueError ''Expecting value''))"

definition posted_id :: "response \<Rightarrow> string option svc" where
  "posted_id r = (case rs_body r of MessageId i \<Rightarrow> ret (Some i) | MissingKey \<Rightarrow> ret None
     | OtherShape \<Rightarrow> raise (TypeError ''messages'') | NotJson \<Rightarrow> raise (ValueError ''Expecting value''))"

definition dispatch_or_none :: "gateway \<Rightarrow> string \<Rightarrow> string \<Rightarrow> wa_message \<Rightarrow> string option svc" where
  "dispatch_or_none gw tid rcpt msg = bindA (get_by_tenant_and_channel tid ''whatsapp'') (\<lambda>c. case c of
     None \<Rightarrow> ret None
   | Some ch \<Rightarrow> bindA (post_message gw tid ch rcpt msg) (\<lambda>r.
       if is_success r then posted_id r else ret None))"

definition dispatch_whatsapp :: "gateway \<Rightarrow> string \<Rightarrow> string \<Rightarrow> body \<Rightarrow> unit svc" where
  "dispatch_whatsapp gw tid rcpt text = thenA (dispatch_or_raise gw tid rcpt (TextMsg text)) (ret ())"

definition dispatch_whatsapp_interactive ::
  "gateway \<Rightarrow> string \<Rightarrow> string \<Rightarrow> body \<Rightarrow> (string \<times> string) list \<Rightarrow> string option \<Rightarrow> unit svc" where
  "dispatch_whatsapp_interactive gw tid rcpt text buttons ctx =
     thenA (dispatch_or_raise gw tid rcpt (ButtonMsg text (take 3 buttons)
       (case ctx of Some [] \<Rightarrow> None | _ \<Rightarrow> ctx))) (ret ())"

definition dispatch_whatsapp_list ::
  "gateway \<Rightarrow> string \<Rightarrow> string \<Rightarrow> body \<Rightarrow> string \<Rightarrow> (string \<times> (string \<times> string \<times> string) list) list \<Rightarrow> unit svc" where
  "dispatch_whatsapp_list gw tid rcpt text label sections =
     thenA (dispatch_or_raise gw tid rcpt (ListMsg text (take 20 label) sections)) (ret ())"

text \<open>\<open>if caption\<close>: an empty caption is no caption.\<close>

definition caption_or_none :: "body option \<Rightarrow> body option" where
  "caption_or_none c = (case c of Some (Plain []) \<Rightarrow> None | _ \<Rightarrow> c)"

definition dispatch_whatsapp_image :: "gateway \<Rightarrow> string \<Rightarrow> string \<Rightarrow> string \<Rightarrow> body option \<Rightarrow> string option svc" where
  "dispatch_whatsapp_image gw tid rcpt media caption =
     bindA (dispatch_or_raise gw tid rcpt (ImageMsg media (caption_or_none caption))) forwarded_id"

definition dispatch_whatsapp_image_url :: "gateway \<Rightarrow> string \<Rightarrow> string \<Rightarrow> string \<Rightarrow> body option \<Rightarrow> string option svc" where
  "dispatch_whatsapp_image_url gw tid rcpt url caption =
     dispatch_or_none gw tid rcpt (ImageUrlMsg url (caption_or_none caption))"

section \<open>Repository\<close>

definition get_by_event_id :: "string \<Rightarrow> notification option svc" where
  "get_by_event_id eid = bindA (getA notifications) (\<lambda>ns.
     liftE (scalar_one_or_none (filter (\<lambda>n. nt_event_id n = eid \<and> True) ns)))"

definition notification_create ::
  "string \<Rightarrow> string \<Rightarrow> string \<Rightarrow> body \<Rightarrow> string \<Rightarrow> string option \<Rightarrow> notification svc" where
  "notification_create tid eid rcpt text ch oid = bindA uuid4 (\<lambda>i w.
     if eid \<in> set (map nt_event_id (notifications w)) then (Inl (IntegrityError ''ix_notifications_event_id''), w)
     else let n = \<lparr>nt_id = i, nt_tenant_id = tid, nt_event_id = eid, nt_recipient = rcpt, nt_channel = ch,
                   nt_message_text = text, nt_status = NT_PENDING, nt_order_id = oid\<rparr>
          in (Inr n, w\<lparr>notifications := notifications w @ [n]\<rparr>))"

definition update_status :: "notification \<Rightarrow> notification_status \<Rightarrow> unit svc" where
  "update_status n st = modA (\<lambda>w. w\<lparr>notifications :=
     update_where (\<lambda>x. nt_id x = nt_id n) (\<lambda>x. x\<lparr>nt_status := st\<rparr>) (notifications w)\<rparr>)"

section \<open>Sending\<close>

text \<open>
  The body the six senders share: skip when the event id is known, persist, dispatch, record the
  outcome; an exception of the dispatch is recorded and then handled as the sender chooses.
\<close>

definition send_once :: "string \<Rightarrow> string \<Rightarrow> string \<Rightarrow> body \<Rightarrow> string \<Rightarrow> string option \<Rightarrow> 'a \<Rightarrow> 'a svc
    \<Rightarrow> (error \<Rightarrow> 'a svc) \<Rightarrow> 'a svc" where
  "send_once tid eid rcpt text ch oid skipped dispatch failed =
     bindA (get_by_event_id eid) (\<lambda>existing. case existing of
       Some _ \<Rightarrow> ret skipped
     | None \<Rightarrow> bindA (notification_create tid eid rcpt text ch oid) (\<lambda>n.
         tryA (bindA dispatch (\<lambda>x. thenA (update_status n NT_SENT) (ret x)))
              (\<lambda>e. thenA (update_status n NT_FAILED) (failed e))))"

definition sending_tenant :: "string option \<Rightarrow> string \<Rightarrow> string" where
  "sending_tenant ctid tid = (case ctid of Some c \<Rightarrow> if c = [] then tid else c | None \<Rightarrow> tid)"

definition send_message :: "gateway \<Rightarrow> string \<Rightarrow> string \<Rightarrow> string \<Rightarrow> body \<Rightarrow> string \<Rightarrow> string option
    \<Rightarrow> string option \<Rightarrow> unit svc" where
  "send_message gw tid eid rcpt text ch oid ctid = send_once tid eid rcpt text ch oid ()
     (if ch = ''whatsapp'' then dispatch_whatsapp gw (sending_tenant ctid tid) rcpt text else ret ()) raise"

definition send_interactive :: "gateway \<Rightarrow> string \<Rightarrow> string \<Rightarrow> string \<Rightarrow> body \<Rightarrow> (string \<times> string) list
    \<Rightarrow> string \<Rightarrow> string option \<Rightarrow> string option \<Rightarrow> string option \<Rightarrow> unit svc" where
  "send_interactive gw tid eid rcpt text buttons ch oid ctid ctx = send_once tid eid rcpt text ch oid ()
     (if ch = ''whatsapp'' then dispatch_whatsapp_interactive gw (sending_tenant ctid tid) rcpt text buttons ctx
      else ret ()) raise"

definition send_list :: "gateway \<Rightarrow> string \<Rightarrow> string \<Rightarrow> string \<Rightarrow> body \<Rightarrow> string
    \<Rightarrow> (string \<times> (string \<times> string \<times> string) list) list \<Rightarrow> string \<Rightarrow> string option \<Rightarrow> string option \<Rightarrow> unit svc" where
  "send_list gw tid eid rcpt text label sections ch oid ctid = send_once tid eid rcpt text ch oid ()
     (if ch = ''whatsapp'' then dispatch_whatsapp_list gw (sending_tenant ctid tid) rcpt text label sections
      else ret ()) raise"

definition caption_or :: "string \<Rightarrow> body option \<Rightarrow> body" where
  "caption_or d c = (case caption_or_none c of None \<Rightarrow> Plain d | Some b \<Rightarrow> b)"

definition send_image :: "gateway \<Rightarrow> string \<Rightarrow> string \<Rightarrow> string \<Rightarrow> string \<Rightarrow> body option \<Rightarrow> string
    \<Rightarrow> string option \<Rightarrow> string option \<Rightarrow> string option svc" where
  "send_image gw tid eid rcpt media caption ch oid ctid =
     send_once tid eid rcpt (caption_or ''[image]'' caption) ch oid None
       (if ch = ''whatsapp'' then dispatch_whatsapp_image gw (sending_tenant ctid tid) rcpt media caption
        else ret None) raise"

definition send_image_url :: "gateway \<Rightarrow> string \<Rightarrow> string \<Rightarrow> string \<Rightarrow> string \<Rightarrow> body option \<Rightarrow> string
    \<Rightarrow> string option \<Rightarrow> string option svc" where
  "send_image_url gw tid eid rcpt url caption ch ctid =
     send_once tid eid rcpt (caption_or ''[image]'' caption) ch None None
       (if ch = ''whatsapp'' then dispatch_whatsapp_image_url gw (sending_tenant ctid tid) rcpt url caption
        else ret None) (\<lambda>_. ret None)"

definition send_video_url :: "gateway \<Rightarrow> string \<Rightarrow> string \<Rightarrow> string \<Rightarrow> string \<Rightarrow> body option \<Rightarrow> string
    \<Rightarrow> string option \<Rightarrow> string option svc" where
  "send_video_url gw tid eid rcpt url caption ch ctid =
     send_once tid eid rcpt (caption_or ''[video]'' caption) ch None None
       (if ch = ''whatsapp'' then dispatch_or_none gw (sending_tenant ctid tid) rcpt
          (VideoUrlMsg url (caption_or_none caption)) else ret None) (\<lambda>_. ret None)"

section \<open>What a dispatch changes\<close>

text \<open>
  A dispatch changes nothing but the messages accepted by the API, at most one; the senders that do not read the
  answer have none accepted when they raise.
\<close>

definition may_dispatch :: "string \<Rightarrow> 'a svc \<Rightarrow> bool" where
  "may_dispatch rcpt m \<longleftrightarrow> (\<forall>w. \<exists>r ds. m w = (r, w\<lparr>dispatched := dispatched w @ ds\<rparr>)
     \<and> length ds \<le> 1 \<and> (\<forall>d\<in>set ds. fst (snd d) = rcpt))"

definition only_dispatches :: "string \<Rightarrow> 'a svc \<Rightarrow> bool" where
  "only_dispatches rcpt m \<longleftrightarrow> (\<forall>w. \<exists>r ds. m w = (r, w\<lparr>dispatched := dispatched w @ ds\<rparr>)
     \<and> length ds \<le> 1 \<and> (\<forall>d\<in>set ds. fst (snd d) = rcpt) \<and> (\<forall>e. r = Inl e \<longrightarrow> ds = []))"

lemma only_may: "only_dispatches rcpt m \<Longrightarrow> may_dispatch rcpt m"
  unfolding only_dispatches_def may_dispatch_def by blast

lemma only_dispatches_ret [simp]: "only_dispatches rcpt (ret x)"
  unfolding only_dispatches_def by (intro allI exI [of _ "[]"] exI [of _ "Inr x"]) simp

lemma post_message_cases:
  obtains e where "post_message gw tid ch rcpt msg w = (Inl e, w)"
  | r where "post_message gw tid ch rcpt msg w = (Inr r, w\<lparr>dispatched := dispatched w @ [(tid, rcpt, msg)]\<rparr>)"
      and "is_success r"
  | r where "post_message gw tid ch rcpt msg w = (Inr r, w)" and "\<not> is_success r"
proof (cases "gw_decrypt gw (tc_encrypted_access_token ch)")
  case (Inl e)
  then have "post_message gw tid ch rcpt msg w = (Inl e, w)"
    by (simp add: post_message_def bindA_apply)
  then show thesis by (rule that(1))
next
  case (Inr token)
  note dec = this
  show thesis
  proof (cases "gw_post gw (clock w) (tc_phone_number_id ch) token rcpt msg")
    case (Inl e)
    with dec have "post_message gw tid ch rcpt msg w = (Inl e, w)"
      by (simp add: post_message_def bindA_apply)
    then show thesis by (rule that(1))
  next
    case (Inr r)
    with dec have eq: "post_message gw tid ch rcpt msg w =
        (Inr r, if is_success r then w\<lparr>dispatched := dispatched w @ [(tid, rcpt, msg)]\<rparr> else w)"
      by (simp add: post_message_def bindA_apply)
    show thesis
    proof (cases "is_success r")
      case True
      with eq show thesis by (intro that(2)) simp_all
    next
      case False
      with eq show thesis by (intro that(3)) simp_all
    qed
  qed
qed

lemma get_channel_cases:
  obtains e where "get_by_tenant_and_channel tid ch w = (Inl e, w)"
  | x where "get_by_tenant_and_channel tid ch w = (Inr x, w)"
  by (cases "fst (get_by_tenant_and_channel tid ch w)")
    (auto simp: get_by_tenant_and_channel_def bindA_apply)

lemma only_dispatchesI:
  assumes "\<And>w. (\<exists>r. m w = (r, w)) \<or> (\<exists>x t msg. m w = (Inr x, w\<lparr>dispatched := dispatched w @ [(t, rcpt, msg)]\<rparr>))"
  shows "only_dispatches rcpt m"
  unfolding only_dispatches_def
proof
  fix w
  from assms [of w] show "\<exists>r ds. m w = (r, w\<lparr>dispatched := dispatched w @ ds\<rparr>)
     \<and> length ds \<le> 1 \<and> (\<forall>d\<in>set ds. fst (snd d) = rcpt) \<and> (\<forall>e. r = Inl e \<longrightarrow> ds = [])"
  proof (elim disjE exE)
    fix r assume "m w = (r, w)"
    then show ?thesis by (intro exI [of _ r] exI [of _ "[]"]) simp
  next
    fix x t msg assume "m w = (Inr x, w\<lparr>dispatched := dispatched w @ [(t, rcpt, msg)]\<rparr>)"
    then show ?thesis by (intro exI [of _ "Inr x"] exI [of _ "[(t, rcpt, msg)]"]) simp
  qed
qed

lemma dispatch_or_raise_only [simp]: "only_dispatches rcpt (dispatch_or_raise gw tid rcpt msg)"
proof (rule only_dispatchesI)
  fix w
  show "(\<exists>r. dispatch_or_raise gw tid rcpt msg w = (r, w)) \<or> (\<exists>x t m. dispatch_or_raise gw tid rcpt msg w =
      (Inr x, w\<lparr>dispatched := dispatched w @ [(t, rcpt, m)]\<rparr>))"
  proof (cases rule: get_channel_cases [of tid "''whatsapp''" w])
    case (2 x)
    then show ?thesis
    proof (cases x)
      case (Some ch)
      with 2 show ?thesis
        by (cases rule: post_message_cases [of gw tid ch rcpt msg w])
          (auto simp: dispatch_or_raise_def bindA_apply)
    qed (simp add: dispatch_or_raise_def bindA_apply)
  qed (simp add: dispatch_or_raise_def bindA_apply)
qed

text \<open>Reading the answer changes nothing; when it cannot raise, neither does the dispatch.\<close>

lemma answer_pure: "\<exists>r. forwarded_id a w = (r, w)" "\<exists>r. posted_id a w = (r, w)"
  by (cases "rs_body a"; simp add: forwarded_id_def posted_id_def)+

lemma may_dispatch_read:
  assumes "may_dispatch rcpt m" and f: "\<And>x w. \<exists>r. f x w = (r, w)"
  shows "may_dispatch rcpt (bindA m f)"
  unfolding may_dispatch_def
proof
  fix w
  from assms(1) obtain r ds where m: "m w = (r, w\<lparr>dispatched := dispatched w @ ds\<rparr>)" "length ds \<le> 1" "\<forall>d\<in>set ds. fst (snd d) = rcpt"
    unfolding may_dispatch_def by blast
  have "\<exists>r'. bindA m f w = (r', w\<lparr>dispatched := dispatched w @ ds\<rparr>)"
    using f m(1) by (cases r) (auto simp: bindA_apply)
  with m(2,3) show "\<exists>r ds. bindA m f w = (r, w\<lparr>dispatched := dispatched w @ ds\<rparr>) \<and> length ds \<le> 1 \<and> (\<forall>d\<in>set ds. fst (snd d) = rcpt)"
    by blast
qed

lemma dispatch_image_may [simp]: "may_dispatch rcpt (dispatch_whatsapp_image gw tid rcpt media cap)"
  unfolding dispatch_whatsapp_image_def by (intro may_dispatch_read only_may dispatch_or_raise_only answer_pure)

lemma dispatch_or_none_may [simp]: "may_dispatch rcpt (dispatch_or_none gw tid rcpt msg)"
  unfolding may_dispatch_def
proof
  fix w
  let ?m = "dispatch_or_none gw tid rcpt msg"
  have "(\<exists>r. ?m w = (r, w)) \<or> (\<exists>r. ?m w = (r, w\<lparr>dispatched := dispatched w @ [(tid, rcpt, msg)]\<rparr>))"
  proof (cases rule: get_channel_cases [of tid "''whatsapp''" w])
    case (2 x)
    then show ?thesis
    proof (cases x)
      case (Some ch)
      show ?thesis
      proof (cases rule: post_message_cases [of gw tid ch rcpt msg w])
        case (2 r)
        with \<open>get_by_tenant_and_channel tid ''whatsapp'' w = (Inr x, w)\<close> Some answer_pure(2) [of r "w\<lparr>dispatched := dispatched w @ [(tid, rcpt, msg)]\<rparr>"]
        show ?thesis by (auto simp: dispatch_or_none_def bindA_apply)
      qed (use 2 Some in \<open>auto simp: dispatch_or_none_def bindA_apply\<close>)
    qed (simp add: dispatch_or_none_def bindA_apply)
  qed (simp add: dispatch_or_none_def bindA_apply)
  then show "\<exists>r ds. ?m w = (r, w\<lparr>dispatched := dispatched w @ ds\<rparr>) \<and> length ds \<le> 1 \<and> (\<forall>d\<in>set ds. fst (snd d) = rcpt)"
  proof (elim disjE exE)
    fix r assume "?m w = (r, w)"
    then show ?thesis by (intro exI [of _ r] exI [of _ "[]"]) simp
  next
    fix r assume "?m w = (r, w\<lparr>dispatched := dispatched w @ [(tid, rcpt, msg)]\<rparr>)"
    then show ?thesis by (intro exI [of _ r] exI [of _ "[(tid, rcpt, msg)]"]) simp
  qed
qed

text \<open>A gateway is readable when the answers that accept a message are JSON: then forwarding an image raises only unsent.\<close>

definition readable :: "gateway \<Rightarrow> bool" where
  "readable gw \<longleftrightarrow> (\<forall>now p token rcpt msg r. gw_post gw now p token rcpt msg = Inr r \<longrightarrow> is_success r \<longrightarrow> rs_body r \<noteq> NotJson)"

lemma dispatch_image_only:
  assumes "readable gw"
  shows "only_dispatches rcpt (dispatch_whatsapp_image gw tid rcpt media cap)"
proof (rule only_dispatchesI)
  fix w
  let ?msg = "ImageMsg media (caption_or_none cap)" and ?m = "dispatch_whatsapp_image gw tid rcpt media cap"
  show "(\<exists>r. ?m w = (r, w)) \<or> (\<exists>x t m. ?m w = (Inr x, w\<lparr>dispatched := dispatched w @ [(t, rcpt, m)]\<rparr>))"
  proof (cases rule: get_channel_cases [of tid "''whatsapp''" w])
    case (2 x)
    note got = this
    show ?thesis
    proof (cases x)
      case (Some ch)
      show ?thesis
      proof (cases rule: post_message_cases [of gw tid ch rcpt ?msg w])
        case (2 r)
        then have "rs_body r \<noteq> NotJson"
          using assms by (auto simp: readable_def post_message_def bindA_apply split: sum.splits)
        then have "\<exists>x. forwarded_id r v = (Inr x, v)" for v by (cases "rs_body r") (simp_all add: forwarded_id_def)
        with got Some 2 show ?thesis by (fastforce simp: dispatch_whatsapp_image_def dispatch_or_raise_def bindA_apply)
      qed (use got Some in \<open>auto simp: dispatch_whatsapp_image_def dispatch_or_raise_def bindA_apply\<close>)
    qed (use got in \<open>simp add: dispatch_whatsapp_image_def dispatch_or_raise_def bindA_apply\<close>)
  qed (simp add: dispatch_whatsapp_image_def dispatch_or_raise_def bindA_apply)
qed

lemma only_dispatches_then_ret [simp]:
  "only_dispatches rcpt m \<Longrightarrow> only_dispatches rcpt (thenA m (ret ()))"
  unfolding only_dispatches_def thenA_apply
proof
  fix w
  assume "\<forall>w. \<exists>r ds. m w = (r, w\<lparr>dispatched := dispatched w @ ds\<rparr>) \<and> length ds \<le> 1
    \<and> (\<forall>d\<in>set ds. fst (snd d) = rcpt) \<and> (\<forall>e. r = Inl e \<longrightarrow> ds = [])"
  then obtain r ds where "m w = (r, w\<lparr>dispatched := dispatched w @ ds\<rparr>)" "length ds \<le> 1"
    "\<forall>d\<in>set ds. fst (snd d) = rcpt" "\<forall>e. r = Inl e \<longrightarrow> ds = []" by blast
  then show "\<exists>r ds. (case m w of (Inl e, w') \<Rightarrow> (Inl e, w') | (Inr x, w') \<Rightarrow> ret () w') =
      (r, w\<lparr>dispatched := dispatched w @ ds\<rparr>) \<and> length ds \<le> 1
      \<and> (\<forall>d\<in>set ds. fst (snd d) = rcpt) \<and> (\<forall>e. r = Inl e \<longrightarrow> ds = [])"
    by (intro exI [of _ "case r of Inl e \<Rightarrow> Inl e | Inr _ \<Rightarrow> Inr ()"] exI [of _ ds])
      (simp split: sum.splits)
qed

lemma may_dispatch_ret [simp]: "may_dispatch rcpt (ret x)"
  by (simp add: only_may)

lemmas dispatch_adapter_defs = dispatch_whatsapp_def dispatch_whatsapp_interactive_def dispatch_whatsapp_list_def
  dispatch_whatsapp_image_url_def

section \<open>What a send changes\<close>

definition notified :: "world \<Rightarrow> string set" where
  "notified w = nt_event_id ` set (notifications w)"

definition wf_notifications :: "world \<Rightarrow> bool" where
  "wf_notifications w \<longleftrightarrow> distinct (map nt_event_id (notifications w)) \<and> inj (uuid_src w)
     \<and> (\<forall>n\<ge>uuid_n w. uuid_src w n \<notin> nt_id ` set (notifications w))"

lemma get_by_event_id_eq:
  "wf_notifications w \<Longrightarrow> get_by_event_id eid w = (Inr (find (\<lambda>n. nt_event_id n = eid \<and> True) (notifications w)), w)"
  using scalar_key [of nt_event_id "notifications w" eid "\<lambda>_. True"]
  by (simp add: get_by_event_id_def bindA_apply wf_notifications_def)

lemma send_once_known:
  assumes "wf_notifications w" and "eid \<in> notified w"
  shows "send_once tid eid rcpt text ch oid skipped dispatch failed w = (Inr skipped, w)"
proof -
  from assms(2) have "find (\<lambda>n. nt_event_id n = eid \<and> True) (notifications w) \<noteq> None"
    by (auto simp: find_None_iff notified_def)
  then show ?thesis
    by (auto simp: send_once_def bindA_apply get_by_event_id_eq [OF assms(1)])
qed

definition pending_row :: "world \<Rightarrow> string \<Rightarrow> string \<Rightarrow> string \<Rightarrow> body \<Rightarrow> string \<Rightarrow> string option \<Rightarrow> notification" where
  "pending_row w tid eid rcpt text ch oid = \<lparr>nt_id = uuid_src w (uuid_n w), nt_tenant_id = tid, nt_event_id = eid,
     nt_recipient = rcpt, nt_channel = ch, nt_message_text = text, nt_status = NT_PENDING, nt_order_id = oid\<rparr>"

definition with_row :: "world \<Rightarrow> notification \<Rightarrow> world" where
  "with_row w n = w\<lparr>uuid_n := Suc (uuid_n w), notifications := notifications w @ [n]\<rparr>"

lemma update_status_new:
  assumes "wf_notifications w" and "nt_id n = uuid_src w (uuid_n w)"
  shows "update_status n st (with_row w n\<lparr>dispatched := ds\<rparr>) = (Inr (), with_row w (n\<lparr>nt_status := st\<rparr>)\<lparr>dispatched := ds\<rparr>)"
proof -
  have "\<forall>x\<in>set (notifications w). nt_id x \<noteq> nt_id n"
    using assms by (force simp: wf_notifications_def)
  then show ?thesis
    by (simp add: update_status_def with_row_def update_where_none)
qed

lemma unsent_when_raised:
  assumes "only_dispatches rcpt d" and "d v = (Inl e, v\<lparr>dispatched := dispatched v @ ds\<rparr>)"
  shows "ds = []"
proof -
  from assms(1) obtain r ds' where "d v = (r, v\<lparr>dispatched := dispatched v @ ds'\<rparr>)" "\<forall>e. r = Inl e \<longrightarrow> ds' = []"
    unfolding only_dispatches_def by blast
  with assms(2) have "v\<lparr>dispatched := dispatched v @ ds\<rparr> = v\<lparr>dispatched := dispatched v @ []\<rparr>" by auto
  then have "dispatched (v\<lparr>dispatched := dispatched v @ ds\<rparr>) = dispatched (v\<lparr>dispatched := dispatched v @ []\<rparr>)" by (rule arg_cong)
  then show ?thesis by simp
qed

lemma send_once_may:
  fixes w :: world and tid eid rcpt :: string and msg :: body and ch :: string and oid :: "string option"
  assumes wf: "wf_notifications w" and new: "eid \<notin> notified w" and d: "may_dispatch rcpt dispatch"
  defines "n \<equiv> pending_row w tid eid rcpt msg ch oid"
  obtains (sent) x ds where "send_once tid eid rcpt msg ch oid skipped dispatch failed w =
      (Inr x, with_row w (n\<lparr>nt_status := NT_SENT\<rparr>)\<lparr>dispatched := dispatched w @ ds\<rparr>)"
      and "length ds \<le> 1" and "\<forall>d\<in>set ds. fst (snd d) = rcpt" and "fst (dispatch (with_row w n)) = Inr x"
  | (failed) e ds where "send_once tid eid rcpt msg ch oid skipped dispatch failed w =
      failed e (with_row w (n\<lparr>nt_status := NT_FAILED\<rparr>)\<lparr>dispatched := dispatched w @ ds\<rparr>)"
      and "length ds \<le> 1" and "\<forall>d\<in>set ds. fst (snd d) = rcpt"
      and "dispatch (with_row w n) = (Inl e, with_row w n\<lparr>dispatched := dispatched (with_row w n) @ ds\<rparr>)"
proof -
  have none: "find (\<lambda>n. nt_event_id n = eid) (notifications w) = None"
    using new by (auto simp: find_None_iff notified_def)
  have create: "notification_create tid eid rcpt msg ch oid w = (Inr n, with_row w n)"
    using new by (simp add: notification_create_def bindA_apply notified_def n_def pending_row_def with_row_def Let_def)
  have run: "send_once tid eid rcpt msg ch oid skipped dispatch failed w =
     tryA (bindA dispatch (\<lambda>x. thenA (update_status n NT_SENT) (ret x)))
              (\<lambda>e. thenA (update_status n NT_FAILED) (failed e)) (with_row w n)"
    by (simp add: send_once_def bindA_apply get_by_event_id_eq [OF wf] none create)
  from d obtain r ds where "dispatch (with_row w n) = (r, with_row w n\<lparr>dispatched := dispatched (with_row w n) @ ds\<rparr>)"
    and ds: "length ds \<le> 1" "\<forall>d\<in>set ds. fst (snd d) = rcpt"
    unfolding may_dispatch_def by blast
  then have disp: "dispatch (with_row w n) = (r, with_row w n\<lparr>dispatched := dispatched w @ ds\<rparr>)"
    and same: "dispatched (with_row w n) = dispatched w" by (simp_all add: with_row_def)
  have "nt_id n = uuid_src w (uuid_n w)" by (simp add: n_def pending_row_def)
  note upd = update_status_new [OF wf this]
  show thesis
  proof (cases r)
    case (Inl e)
    show ?thesis
      by (rule that(2)) (use ds in \<open>simp_all add: run tryA_apply bindA_apply thenA_apply disp Inl upd same\<close>)
  next
    case (Inr x)
    show ?thesis
      by (rule that(1)) (use ds in \<open>simp_all add: run tryA_apply bindA_apply thenA_apply disp Inr upd\<close>)
  qed
qed

lemma send_once_new:
  assumes wf: "wf_notifications w" and new: "eid \<notin> notified w" and d: "only_dispatches rcpt dispatch"
  obtains (sent) x ds where "send_once tid eid rcpt text ch oid skipped dispatch failed w =
      (Inr x, with_row w (pending_row w tid eid rcpt text ch oid\<lparr>nt_status := NT_SENT\<rparr>)\<lparr>dispatched := dispatched w @ ds\<rparr>)"
      and "length ds \<le> 1" and "\<forall>d\<in>set ds. fst (snd d) = rcpt"
      and "fst (dispatch (with_row w (pending_row w tid eid rcpt text ch oid))) = Inr x"
  | (failed) e where "send_once tid eid rcpt text ch oid skipped dispatch failed w =
      failed e (with_row w (pending_row w tid eid rcpt text ch oid\<lparr>nt_status := NT_FAILED\<rparr>))"
      and "fst (dispatch (with_row w (pending_row w tid eid rcpt text ch oid))) = Inl e"
proof (cases rule: send_once_may [OF wf new only_may [OF d], where tid = tid and msg = "text" and ch = ch and oid = oid and skipped = skipped and failed = failed])
  case (1 x ds)
  then show ?thesis by (rule that(1))
next
  case (2 e ds)
  have same: "with_row w m\<lparr>dispatched := dispatched w\<rparr> = with_row w m" for m
    by (simp add: with_row_def)
  have "ds = []" by (rule unsent_when_raised [OF d]) (rule 2(4))
  with 2(1,4) show ?thesis by (intro that(2)) (simp_all add: same)
qed

section \<open>Sequences of sends\<close>

datatype send_op =
    Message string string string body string "string option" "string option"
  | Interactive string string string body "(string \<times> string) list" string "string option" "string option" "string option"
  | ListPicker string string string body string "(string \<times> (string \<times> string \<times> string) list) list" string
      "string option" "string option"
  | Image string string string string "body option" string "string option" "string option"
  | ImageUrl string string string string "body option" string "string option"
  | VideoUrl string string string string "body option" string "string option"

fun op_event :: "send_op \<Rightarrow> string" where
  "op_event (Message tid eid rcpt text ch oid ctid) = eid"
| "op_event (Interactive tid eid rcpt text bs ch oid ctid ctx) = eid"
| "op_event (ListPicker tid eid rcpt text l ss ch oid ctid) = eid"
| "op_event (Image tid eid rcpt media cap ch oid ctid) = eid"
| "op_event (ImageUrl tid eid rcpt url cap ch ctid) = eid"
| "op_event (VideoUrl tid eid rcpt url cap ch ctid) = eid"

text \<open>A send in its own transaction, as every caller runs it.\<close>

fun run_send :: "gateway \<Rightarrow> send_op \<Rightarrow> unit svc" where
  "run_send gw (Message tid eid rcpt text ch oid ctid) =
     session_begin (thenA (send_message gw tid eid rcpt text ch oid ctid) (ret ()))"
| "run_send gw (Interactive tid eid rcpt text bs ch oid ctid ctx) =
     session_begin (thenA (send_interactive gw tid eid rcpt text bs ch oid ctid ctx) (ret ()))"
| "run_send gw (ListPicker tid eid rcpt text l ss ch oid ctid) =
     session_begin (thenA (send_list gw tid eid rcpt text l ss ch oid ctid) (ret ()))"
| "run_send gw (Image tid eid rcpt media cap ch oid ctid) =
     session_begin (thenA (send_image gw tid eid rcpt media cap ch oid ctid) (ret ()))"
| "run_send gw (ImageUrl tid eid rcpt url cap ch ctid) =
     session_begin (thenA (send_image_url gw tid eid rcpt url cap ch ctid) (ret ()))"
| "run_send gw (VideoUrl tid eid rcpt url cap ch ctid) =
     session_begin (thenA (send_video_url gw tid eid rcpt url cap ch ctid) (ret ()))"

definition send_step :: "gateway \<times> send_op \<Rightarrow> world \<Rightarrow> world" where
  "send_step g w = exec (run_send (fst g) (snd g)) w"

text \<open>
  The three outcomes of a send: the event was known and nothing happens; it raised and only an
  identifier was drawn, no message having left unless the send may lose track of one; or it left one row for its
  event and at most one message.
\<close>

definition send_outcome :: "bool \<Rightarrow> string \<Rightarrow> world \<Rightarrow> (error + unit) \<times> world \<Rightarrow> bool" where
  "send_outcome loses eid w out \<longleftrightarrow> (eid \<in> notified w \<and> out = (Inr (), w))
     \<or> (eid \<notin> notified w \<and> (\<exists>e ds. out = (Inl e, w\<lparr>uuid_n := Suc (uuid_n w), dispatched := dispatched w @ ds\<rparr>)
          \<and> length ds \<le> (if loses then 1 else 0)))
     \<or> (eid \<notin> notified w \<and> (\<exists>n ds. out = (Inr (), with_row w n\<lparr>dispatched := dispatched w @ ds\<rparr>)
          \<and> nt_event_id n = eid \<and> nt_id n = uuid_src w (uuid_n w) \<and> length ds \<le> 1))"

lemma send_outcome_kept:
  "send_outcome False eid w out \<longleftrightarrow> (eid \<in> notified w \<and> out = (Inr (), w))
     \<or> (eid \<notin> notified w \<and> (\<exists>e. out = (Inl e, w\<lparr>uuid_n := Suc (uuid_n w)\<rparr>)))
     \<or> (eid \<notin> notified w \<and> (\<exists>n ds. out = (Inr (), with_row w n\<lparr>dispatched := dispatched w @ ds\<rparr>)
          \<and> nt_event_id n = eid \<and> nt_id n = uuid_src w (uuid_n w) \<and> length ds \<le> 1))"
proof -
  have "w\<lparr>uuid_n := k, dispatched := dispatched w @ []\<rparr> = w\<lparr>uuid_n := k\<rparr>" for k by simp
  then show ?thesis by (auto simp: send_outcome_def)
qed

text \<open>Only the forwarding of an image by a gateway with unreadable answers loses track.\<close>

fun loses_track :: "gateway \<Rightarrow> send_op \<Rightarrow> bool" where
  "loses_track gw (Image tid eid rcpt media cap ch oid ctid) = (\<not> readable gw)"
| "loses_track gw op = False"

lemma restore_with_row: "restore_db w (with_row w n) = w\<lparr>uuid_n := Suc (uuid_n w)\<rparr>"
  by (simp add: restore_db_def with_row_def)

lemma restore_with_row_sent: "restore_db w (with_row w n\<lparr>dispatched := ds\<rparr>) = w\<lparr>uuid_n := Suc (uuid_n w), dispatched := ds\<rparr>"
  by (simp add: restore_db_def with_row_def)

lemma pending_row_keys: "nt_event_id (pending_row w tid eid rcpt text ch oid\<lparr>nt_status := s\<rparr>) = eid"
  "nt_id (pending_row w tid eid rcpt text ch oid\<lparr>nt_status := s\<rparr>) = uuid_src w (uuid_n w)"
  by (simp_all add: pending_row_def)

lemma send_outcome_rowI:
  assumes "eid \<notin> notified w" and "length ds \<le> 1"
  shows "send_outcome loses eid w (Inr (), with_row w (pending_row w tid eid rcpt msg ch oid\<lparr>nt_status := st\<rparr>)
     \<lparr>dispatched := dispatched w @ ds\<rparr>)"
  unfolding send_outcome_def using assms pending_row_keys by blast

lemma send_once_outcome:
  assumes wf: "wf_notifications w" and d: "may_dispatch rcpt dispatch"
    and f: "failed = raise \<and> (loses \<or> only_dispatches rcpt dispatch) \<or> failed = (\<lambda>_. ret y)"
  shows "send_outcome loses eid w
     (session_begin (thenA (send_once tid eid rcpt msg ch oid skipped dispatch failed) (ret ())) w)"
proof (cases "eid \<in> notified w")
  case True
  then show ?thesis by (simp add: send_outcome_def session_begin_def thenA_apply send_once_known [OF wf])
next
  case False
  note new = this and row = send_outcome_rowI [OF this, where loses = loses and tid = tid and rcpt = rcpt and msg = msg and ch = ch and oid = oid]
  let ?n = "pending_row w tid eid rcpt msg ch oid"
  show ?thesis
  proof (cases rule: send_once_may [OF wf False d, where tid = tid and msg = msg and ch = ch and oid = oid and skipped = skipped and failed = failed])
    case (1 x ds)
    with row show ?thesis by (simp add: session_begin_def thenA_apply)
  next
    case (2 e ds)
    show ?thesis
    proof (cases "failed = raise \<and> (loses \<or> only_dispatches rcpt dispatch)")
      case True
      have "length ds \<le> (if loses then 1 else 0)"
      proof (cases loses)
        case False
        with True have "only_dispatches rcpt dispatch" by blast
        then have "ds = []" by (rule unsent_when_raised) (rule 2(4))
        then show ?thesis by simp
      qed (use 2(2) in simp)
      moreover have "session_begin (thenA (send_once tid eid rcpt msg ch oid skipped dispatch failed) (ret ())) w
          = (Inl e, w\<lparr>uuid_n := Suc (uuid_n w), dispatched := dispatched w @ ds\<rparr>)"
        using 2(1) True by (simp add: session_begin_def thenA_apply restore_with_row_sent)
      ultimately show ?thesis using new unfolding send_outcome_def by blast
    next
      case False
      with f have "failed = (\<lambda>_. ret y)" by blast
      with 2(1) have "session_begin (thenA (send_once tid eid rcpt msg ch oid skipped dispatch failed) (ret ())) w =
          (Inr (), with_row w (?n\<lparr>nt_status := NT_FAILED\<rparr>)\<lparr>dispatched := dispatched w @ ds\<rparr>)"
        by (simp add: session_begin_def thenA_apply)
      then show ?thesis using row [OF 2(2)] by simp
    qed
  qed
qed

lemma run_send_outcome:
  assumes wf: "wf_notifications w"
  shows "send_outcome (loses_track gw op) (op_event op) w (run_send gw op w)"
proof -
  note senders = send_message_def send_interactive_def send_list_def send_image_def send_image_url_def send_video_url_def
  have texts: "only_dispatches rcpt d \<Longrightarrow> send_outcome b eid w (session_begin (thenA (send_once tid eid rcpt m ch oid s d raise) (ret ())) w)"
    for rcpt b eid tid m ch oid and s :: 'a and d
    by (rule send_once_outcome [OF wf only_may]) auto
  have url: "may_dispatch rcpt d \<Longrightarrow> send_outcome b eid w (session_begin (thenA (send_once tid eid rcpt m ch oid s d (\<lambda>_. ret y)) (ret ())) w)"
    for rcpt b eid tid m ch oid and s y :: 'b and d
    by (rule send_once_outcome [OF wf, where y = y]) auto
  have image: "send_outcome (\<not> readable gw) eid w (session_begin (thenA (send_once tid eid rcpt m ch oid s
      (if c then dispatch_whatsapp_image gw t rcpt md cap else ret None) raise) (ret ())) w)" for eid tid rcpt m ch oid s c t md cap
    by (rule send_once_outcome [OF wf]) (auto simp: dispatch_image_only)
  show ?thesis
    by (cases op; simp only: run_send.simps op_event.simps loses_track.simps senders)
      (rule texts url image; simp add: dispatch_adapter_defs)+
qed

section \<open>Properties\<close>

lemma send_outcome_wf:
  assumes "wf_notifications w" and "send_outcome loses eid w (r, w')"
  shows "wf_notifications w' \<and> notified w \<subseteq> notified w' \<and> (r = Inr () \<longrightarrow> notified w' = insert eid (notified w))
    \<and> (\<exists>ds. dispatched w' = dispatched w @ ds \<and> length ds \<le> (if eid \<notin> notified w \<and> (r = Inr () \<or> loses) then 1 else 0))"
proof -
  have fresh: "\<forall>n\<ge>Suc (uuid_n w). uuid_src w n \<noteq> uuid_src w (uuid_n w)"
    using assms(1) by (auto simp: wf_notifications_def dest: injD)
  from assms(2) consider
    "eid \<in> notified w" "r = Inr ()" "w' = w"
  | e ds where "eid \<notin> notified w" "r = Inl e" "w' = w\<lparr>uuid_n := Suc (uuid_n w), dispatched := dispatched w @ ds\<rparr>"
      "length ds \<le> (if loses then 1 else 0)"
  | n ds where "eid \<notin> notified w" "r = Inr ()" "w' = with_row w n\<lparr>dispatched := dispatched w @ ds\<rparr>"
      "nt_event_id n = eid" "nt_id n = uuid_src w (uuid_n w)" "length ds \<le> 1"
    by (auto simp: send_outcome_def)
  then show ?thesis
  proof cases
    case 1
    with assms(1) show ?thesis by auto
  next
    case 2
    with assms(1) show ?thesis by (auto simp: wf_notifications_def notified_def)
  next
    case 3
    with assms(1) fresh show ?thesis
      by (auto simp: wf_notifications_def notified_def with_row_def)
  qed
qed

lemma card_new_insert:
  assumes "finite E" and "e \<notin> N"
  shows "card (insert e E - N) = Suc (card (E - insert e N))"
proof -
  have "insert e E - N = insert e (E - insert e N)" using assms(2) by auto
  with assms(1) show ?thesis by simp
qed

text \<open>
  C14: how often an event is notified. For any sequence of sends of any kind, each against a gateway that may accept,
  reject or fail as it likes, the messages Meta accepts (answers with a 2xx status) number at most the distinct event
  ids that were not already notified, plus one for each forwarded image whose gateway accepts with a body that is not
  JSON: that answer raises after the message was accepted, the row is rolled back and the event may be sent again (an answer
  that never arrives is a failure, whatever became of the message). And
  sending again under an event id that has been notified does nothing at all, whatever is sent.
\<close>

theorem send_at_most_once:
  assumes "wf_notifications w"
  shows "wf_notifications (fold send_step gops w)
     \<and> (\<exists>ds. dispatched (fold send_step gops w) = dispatched w @ ds
          \<and> length ds \<le> card (op_event ` snd ` set gops - notified w) + length (filter (\<lambda>(gw, op). loses_track gw op) gops))
     \<and> (\<forall>gw op. op_event op \<in> notified (fold send_step gops w) \<longrightarrow>
          run_send gw op (fold send_step gops w) = (Inr (), fold send_step gops w))"
  using assms
proof (induction gops arbitrary: w)
  case Nil
  have "run_send gw op w = (Inr (), w)" if "op_event op \<in> notified w" for gw op
    using run_send_outcome [OF Nil, of gw op] that by (auto simp: send_outcome_def)
  with Nil show ?case by simp
next
  case (Cons g gops)
  obtain r w1 where run: "run_send (fst g) (snd g) w = (r, w1)" by force
  let ?e = "op_event (snd g)" and ?E = "op_event ` snd ` set gops" and ?l = "loses_track (fst g) (snd g)"
  let ?n = "length (filter (\<lambda>(gw, op). loses_track gw op) gops)"
  have step: "send_step g w = w1" by (simp add: send_step_def exec_def run)
  from run_send_outcome [OF Cons.prems, of "fst g" "snd g"] run
  have "send_outcome ?l ?e w (r, w1)" by simp
  note o = send_outcome_wf [OF Cons.prems this]
  from o obtain d1 where d1: "dispatched w1 = dispatched w @ d1"
    "length d1 \<le> (if ?e \<notin> notified w \<and> (r = Inr () \<or> ?l) then 1 else 0)" by blast
  from Cons.IH [of w1] o obtain d2 where d2: "dispatched (fold send_step gops w1) = dispatched w1 @ d2"
    "length d2 \<le> card (?E - notified w1) + ?n" by blast
  have mono: "card (?E - notified w1) \<le> card (insert ?e ?E - notified w)"
    using o by (intro card_mono) auto
  have "length (d1 @ d2) \<le> card (insert ?e ?E - notified w) + ((if ?l then 1 else 0) + ?n)"
  proof (cases "?e \<notin> notified w \<and> r = Inr ()")
    case True
    with o d1 d2 show ?thesis by (simp add: card_new_insert)
  next
    case False
    with d1(2) have "length d1 \<le> (if ?l then 1 else 0)" by (auto split: if_splits)
    with mono d2(2) show ?thesis by simp
  qed
  moreover have "length (filter (\<lambda>(gw, op). loses_track gw op) (g # gops)) = (if ?l then 1 else 0) + ?n" by (cases g) simp
  ultimately show ?case using Cons.IH [of w1] o d1(1) d2(1) step by (auto simp: image_image simp del: filter.simps)
qed

definition open_gateway :: gateway where
  "open_gateway = \<lparr>gw_decrypt = Inr, gw_post = (\<lambda>_ _ _ _ _. Inr \<lparr>rs_status = 200, rs_text = [], rs_body = MessageId ''wamid''\<rparr>)\<rparr>"

definition rejecting_gateway :: gateway where
  "rejecting_gateway = open_gateway\<lparr>gw_post := (\<lambda>_ _ _ _ _. Inr \<lparr>rs_status = 400, rs_text = ''bad'', rs_body = OtherShape\<rparr>)\<rparr>"

lemma wf_notifications_none: "notifications w = [] \<Longrightarrow> uuid_src w = uuid_src empty_world \<Longrightarrow> wf_notifications w"
  by (simp add: wf_notifications_def empty_world_def inj_replicate)

lemma wf_notifications_one_channel: "wf_notifications one_channel"
  by (rule wf_notifications_none) (simp_all add: one_channel_def empty_world_def)

theorem send_at_most_once_witness:
  "\<exists>ds. dispatched (fold send_step
       (replicate 3 (open_gateway, Message ''t1'' ''e1'' ''234'' (Plain ''hi'') ''whatsapp'' None None)) one_channel) =
     dispatched one_channel @ ds \<and> length ds \<le> 1"
proof -
  have "card (op_event ` snd ` set (replicate 3 (open_gateway, Message ''t1'' ''e1'' ''234'' (Plain ''hi'') ''whatsapp'' None None))
      - notified one_channel) = 1"
    by (simp add: notified_def one_channel_def empty_world_def)
  with send_at_most_once [OF wf_notifications_one_channel,
      of "replicate 3 (open_gateway, Message ''t1'' ''e1'' ''234'' (Plain ''hi'') ''whatsapp'' None None)"]
  show ?thesis by auto
qed

text \<open>
  The loss is real. A gateway that accepts an image with a body that is not JSON has it delivered again at
  every attempt: two sends under one event id deliver two messages and leave no row.
\<close>

definition garbled_gateway :: gateway where
  "garbled_gateway = open_gateway\<lparr>gw_post := (\<lambda>_ _ _ _ _. Inr \<lparr>rs_status = 200, rs_text = ''<html>'', rs_body = NotJson\<rparr>)\<rparr>"

theorem garbled_image_sent_again:
  fixes w :: world
  defines "w \<equiv> fold send_step (replicate 2 (garbled_gateway, Image ''t1'' ''e1'' ''234'' ''m1'' None ''whatsapp'' None None)) one_channel"
  shows "dispatched w = replicate 2 (''t1'', ''234'', ImageMsg ''m1'' None) \<and> notifications w = []"
proof -
  have "run_send garbled_gateway (Image ''t1'' ''e1'' ''234'' ''m1'' None ''whatsapp'' None None) (one_channel\<lparr>uuid_n := n, dispatched := ds\<rparr>)
     = (Inl (ValueError ''Expecting value''), one_channel\<lparr>uuid_n := Suc n, dispatched := ds @ [(''t1'', ''234'', ImageMsg ''m1'' None)]\<rparr>)" for n ds
    by (simp add: session_begin_def send_image_def send_once_def act_simps get_by_event_id_def one_channel_def
        empty_world_def notification_create_def dispatch_whatsapp_image_def dispatch_or_raise_def sending_tenant_def
        get_by_tenant_and_channel_def update_status_def Let_def post_message_def garbled_gateway_def open_gateway_def is_success_def
        forwarded_id_def caption_or_none_def caption_or_def restore_db_def)
  then have step: "send_step (garbled_gateway, Image ''t1'' ''e1'' ''234'' ''m1'' None ''whatsapp'' None None) (one_channel\<lparr>uuid_n := n, dispatched := ds\<rparr>)
     = one_channel\<lparr>uuid_n := Suc n, dispatched := ds @ [(''t1'', ''234'', ImageMsg ''m1'' None)]\<rparr>" for n ds
    by (simp add: send_step_def exec_def)
  have "one_channel = one_channel\<lparr>uuid_n := 0, dispatched := []\<rparr>" by (simp add: one_channel_def empty_world_def)
  then have "w = one_channel\<lparr>uuid_n := 2, dispatched := replicate 2 (''t1'', ''234'', ImageMsg ''m1'' None)\<rparr>"
    using step [where n = 0 and ds = "[]"] step [where n = 1 and ds = "[(''t1'', ''234'', ImageMsg ''m1'' None)]"] by (simp add: w_def numeral_2_eq_2)
  then show ?thesis by (simp add: one_channel_def empty_world_def)
qed

text \<open>
  A failed delivery leaves no trace. When the dispatch of a text message raises, the service marks the
  row FAILED and re-raises, and since every caller runs it in its own transaction, that row is rolled back:
  inside the transaction there is a FAILED row for the event, afterwards the table is as it was and
  nothing was delivered, so the event can be sent again.
\<close>

theorem failed_send_rolled_back:
  assumes "wf_notifications w"
    and "session_begin (send_message gw tid eid rcpt msg ch oid ctid) w = (Inl e, w')"
  shows "(\<exists>n\<in>set (notifications (snd (send_message gw tid eid rcpt msg ch oid ctid w))).
            nt_event_id n = eid \<and> nt_status n = NT_FAILED)
     \<and> notifications w' = notifications w \<and> dispatched w' = dispatched w \<and> eid \<notin> notified w'"
proof -
  let ?d = "if ch = ''whatsapp'' then dispatch_whatsapp gw (sending_tenant ctid tid) rcpt msg else ret ()"
  have od: "only_dispatches rcpt ?d" by (simp add: dispatch_adapter_defs)
  have new: "eid \<notin> notified w"
  proof
    assume "eid \<in> notified w"
    with assms(2) show False by (simp add: send_message_def session_begin_def send_once_known [OF assms(1)])
  qed
  show ?thesis
  proof (rule send_once_new [OF assms(1) new od, of tid msg ch oid "()" raise])
    fix x ds
    assume "send_once tid eid rcpt msg ch oid () ?d raise w = (Inr x, with_row w
      (pending_row w tid eid rcpt msg ch oid\<lparr>nt_status := NT_SENT\<rparr>)\<lparr>dispatched := dispatched w @ ds\<rparr>)"
    with assms(2) show ?thesis by (simp add: send_message_def session_begin_def)
  next
    fix e'
    assume "send_once tid eid rcpt msg ch oid () ?d raise w =
      raise e' (with_row w (pending_row w tid eid rcpt msg ch oid\<lparr>nt_status := NT_FAILED\<rparr>))"
    with assms(2) new show ?thesis
      by (auto simp: send_message_def session_begin_def restore_db_def with_row_def pending_row_def notified_def)
  qed
qed

theorem failed_send_rolled_back_witness:
  "\<exists>e w'. session_begin (send_message open_gateway ''t2'' ''e1'' ''234'' (Plain ''hi'') ''whatsapp'' None None) one_channel
     = (Inl e, w') \<and> notifications w' = []"
proof -
  have "\<exists>e w'. session_begin (send_message open_gateway ''t2'' ''e1'' ''234'' (Plain ''hi'') ''whatsapp'' None None) one_channel
     = (Inl e, w')"
    by (simp add: session_begin_def send_message_def send_once_def act_simps get_by_event_id_def one_channel_def
        empty_world_def notification_create_def dispatch_whatsapp_def dispatch_or_raise_def sending_tenant_def
        get_by_tenant_and_channel_def update_status_def Let_def)
  then obtain e w' where run: "session_begin (send_message open_gateway ''t2'' ''e1'' ''234'' (Plain ''hi'') ''whatsapp'' None None)
      one_channel = (Inl e, w')" by blast
  from failed_send_rolled_back [OF wf_notifications_one_channel run] run show ?thesis
    by (auto simp: one_channel_def empty_world_def)
qed

text \<open>
  Media sent by URL is recorded as SENT even when Meta rejected it. With a connected channel and a
  response outside 2xx, nothing is delivered, no error is raised, and the row says SENT.
\<close>

theorem rejected_media_marked_sent:
  assumes "wf_notifications w" and "wf_channels w" and "eid \<notin> notified w"
    and "channel_at w (sending_tenant ctid tid) ''whatsapp'' = Some c"
    and "gw_decrypt gw (tc_encrypted_access_token c) = Inr token"
    and "gw_post gw (clock w) (tc_phone_number_id c) token rcpt (ImageUrlMsg url (caption_or_none caption)) = Inr r"
    and "\<not> is_success r"
  shows "session_begin (send_image_url gw tid eid rcpt url caption ''whatsapp'' ctid) w =
     (Inr None, with_row w (pending_row w tid eid rcpt (caption_or ''[image]'' caption) ''whatsapp'' None\<lparr>nt_status := NT_SENT\<rparr>))"
proof -
  let ?w = "with_row w (pending_row w tid eid rcpt (caption_or ''[image]'' caption) ''whatsapp'' None)"
  let ?d = "dispatch_whatsapp_image_url gw (sending_tenant ctid tid) rcpt url caption"
  have "wf_channels ?w"
    using assms(2) by (auto simp: wf_channels_def with_row_def)
  moreover have "channel_at ?w t k = channel_at w t k" "clock ?w = clock w" for t k
    by (simp_all add: channel_at_def with_row_def)
  ultimately have d: "?d ?w = (Inr None, ?w)"
    using assms(4-7) by (simp add: dispatch_whatsapp_image_url_def dispatch_or_none_def post_message_def
        bindA_apply get_channel_eq)
  have upd: "update_status (pending_row w tid eid rcpt (caption_or ''[image]'' caption) ''whatsapp'' None) NT_SENT ?w =
      (Inr (), with_row w (pending_row w tid eid rcpt (caption_or ''[image]'' caption) ''whatsapp'' None\<lparr>nt_status := NT_SENT\<rparr>))"
    using update_status_new [OF assms(1), of "pending_row w tid eid rcpt (caption_or ''[image]'' caption) ''whatsapp'' None"
        NT_SENT "dispatched w"] by (simp add: pending_row_def with_row_def)
  have none: "find (\<lambda>n. nt_event_id n = eid) (notifications w) = None"
    using assms(3) by (auto simp: find_None_iff notified_def)
  have create: "notification_create tid eid rcpt (caption_or ''[image]'' caption) ''whatsapp'' None w =
      (Inr (pending_row w tid eid rcpt (caption_or ''[image]'' caption) ''whatsapp'' None), ?w)"
    using assms(3) by (simp add: notification_create_def bindA_apply notified_def pending_row_def with_row_def Let_def)
  show ?thesis
    by (simp add: send_image_url_def send_once_def session_begin_def bindA_apply tryA_apply thenA_apply
        get_by_event_id_eq [OF assms(1)] none create d upd)
qed

theorem rejected_media_marked_sent_witness:
  "session_begin (send_image_url rejecting_gateway ''t1'' ''e1'' ''234'' ''http://x'' None ''whatsapp'' None) one_channel =
     (Inr None, with_row one_channel (pending_row one_channel ''t1'' ''e1'' ''234'' (Plain ''[image]'') ''whatsapp'' None\<lparr>nt_status := NT_SENT\<rparr>))"
proof -
  have n: "''e1'' \<notin> notified one_channel" by (simp add: notified_def one_channel_def empty_world_def)
  have c: "channel_at one_channel (sending_tenant None ''t1'') ''whatsapp'' = Some (hd (tenant_channels one_channel))"
    by (simp add: channel_at_def one_channel_def tc_key_def sending_tenant_def)
  show ?thesis
    using rejected_media_marked_sent [OF wf_notifications_one_channel wf_one_channel n c,
        of rejecting_gateway _ "''234''" "''http://x''" None]
    by (simp add: rejecting_gateway_def open_gateway_def is_success_def caption_or_def caption_or_none_def)
qed

end
