(* ===== verification/Calendar.thy ===== *)
theory Calendar
  imports Prelude
begin

text \<open>
  The part of Python's \<open>datetime\<close> the program uses: \<open>timedelta.days\<close>, \<open>datetime.weekday\<close>,
  \<open>datetime.day\<close> and the range checks of the \<open>datetime(year, month, day)\<close> constructor. A timestamp
  is the number of microseconds since 1970-01-01 UTC.
\<close>

definition day_us :: int where
  "day_us = 86400000000"

definition hour_us :: int where
  "hour_us = 3600000000"

text \<open>\<open>(a - b).days\<close>.\<close>

definition days_between :: "timestamp \<Rightarrow> timestamp \<Rightarrow> int" where
  "days_between a b = (a - b) div day_us"

text \<open>\<open>weekday()\<close>: Monday is 0; day 0 was a Thursday.\<close>

definition weekday :: "timestamp \<Rightarrow> int" where
  "weekday t = (t div day_us + 3) mod 7"

text \<open>\<open>day\<close>: the day of the month in the proleptic Gregorian calendar.\<close>

definition day_of_era :: "timestamp \<Rightarrow> int" where
  "day_of_era t = (t div day_us + 719468) mod 146097"

definition day_of_month :: "timestamp \<Rightarrow> int" where
  "day_of_month t =
     (let doe = day_of_era t;
          yoe = (doe - doe div 1460 + doe div 36524 - doe div 146096) div 365;
          doy = doe - (365 * yoe + yoe div 4 - yoe div 100);
          mp = (5 * doy + 2) div 153
      in doy - (153 * mp + 2) div 5 + 1)"

definition is_leap :: "int \<Rightarrow> bool" where
  "is_leap y \<longleftrightarrow> y mod 4 = 0 \<and> (y mod 100 \<noteq> 0 \<or> y mod 400 = 0)"

definition days_in_month :: "int \<Rightarrow> int \<Rightarrow> int" where
  "days_in_month y m =
     (if m = 2 then (if is_leap y then 29 else 28)
      else if m = 4 \<or> m = 6 \<or> m = 9 \<or> m = 11 then 30 else 31)"

definition days_from_civil :: "int \<Rightarrow> int \<Rightarrow> int \<Rightarrow> int" where
  "days_from_civil y m d =
     (let y' = (if m \<le> 2 then y - 1 else y);
          yoe = y' mod 400;
          doy = (153 * (if m > 2 then m - 3 else m + 9) + 2) div 5 + d - 1
      in (y' div 400) * 146097 + yoe * 365 + yoe div 4 - yoe div 100 + doy - 719468)"

record date =
  d_year :: int
  d_month :: int
  d_day :: int

definition valid_date :: "int \<Rightarrow> int \<Rightarrow> int \<Rightarrow> bool" where
  "valid_date y m d \<longleftrightarrow> 1 \<le> y \<and> y \<le> 9999 \<and> 1 \<le> m \<and> m \<le> 12 \<and> 1 \<le> d \<and> d \<le> days_in_month y m"

text \<open>\<open>datetime(year, month, day)\<close> raises \<open>ValueError\<close> when the day is out of range.\<close>

definition datetime :: "int \<Rightarrow> int \<Rightarrow> int \<Rightarrow> error + timestamp" where
  "datetime y m d = (if valid_date y m d then Inr (days_from_civil y m d * day_us)
     else Inl (ValueError ''day is out of range for month''))"

lemma weekday_range: "0 \<le> weekday t \<and> weekday t < 7"
  by (simp add: weekday_def)

lemma month_offset_bounds:
  fixes doy :: int
  defines "e \<equiv> (153 * ((5 * doy + 2) div 153) + 2) div 5"
  shows "1 \<le> doy - e + 1 \<and> doy - e + 1 \<le> 31"
proof -
  define q where "q = (5 * doy + 2) div 153"
  define r where "r = (5 * doy + 2) mod 153"
  have "5 * doy + 2 = 153 * q + r" "0 \<le> r" "r < 153"
    by (simp_all add: q_def r_def)
  moreover have "5 * e \<le> 153 * q + 2" "153 * q + 2 < 5 * e + 5"
    unfolding e_def q_def [symmetric] by (simp_all add: pos_less_divide_eq)
  ultimately show ?thesis by linarith
qed

lemma day_of_month_bounds: "1 \<le> day_of_month t \<and> day_of_month t \<le> 31"
  unfolding day_of_month_def Let_def by (rule month_offset_bounds)

lemma datetime_Inr: "datetime y m d = Inr t \<longleftrightarrow> valid_date y m d \<and> t = days_from_civil y m d * day_us"
  by (auto simp: datetime_def)

text \<open>Consecutive days of a month are one day apart.\<close>

lemma days_from_civil_Suc: "days_from_civil y m (d + 1) = days_from_civil y m d + 1"
  by (simp add: days_from_civil_def Let_def)

lemma days_in_month_le: "days_in_month y m \<le> 31"
  by (simp add: days_in_month_def)

end
