(* ===== verification/Customer_List.thy ===== *)
theory Customer_List
  imports World Calendar
begin

text \<open>
  The per-trader customer list of \<open>marketing/customer_list.py\<close>: entries are created and updated after
  every paid order, customers opt out of broadcasts, and segments are counted and selected. The
  entries implement an abstract ledger of purchases per (trader, customer) pair.
\<close>

section \<open>Model\<close>

definition cl_key :: "customer_list_entry \<Rightarrow> string \<times> string" where
  "cl_key e = (cl_trader_phone e, cl_customer_phone e)"

definition find_entry :: "string \<Rightarrow> string \<Rightarrow> customer_list_entry option svc" where
  "find_entry tp cp = bindA (getA customer_list) (\<lambda>es.
     liftE (scalar_one_or_none (filter (\<lambda>e. cl_key e = (tp, cp) \<and> True) es)))"

text \<open>\<open>if customer_name\<close>: \<open>None\<close> and the empty string are false.\<close>

definition truthy_str :: "string option \<Rightarrow> bool" where
  "truthy_str v = (case v of None \<Rightarrow> False | Some s \<Rightarrow> s \<noteq> [])"

definition bump_entry :: "timestamp \<Rightarrow> string option \<Rightarrow> decimal \<Rightarrow> customer_list_entry \<Rightarrow> customer_list_entry" where
  "bump_entry now cname amt e =
     e\<lparr>cl_total_orders := cl_total_orders e + 1, cl_total_spend := cl_total_spend e + amt,
       cl_last_order_date := Some now,
       cl_customer_name := (if truthy_str cname \<and> \<not> truthy_str (cl_customer_name e)
                            then cname else cl_customer_name e)\<rparr>"

definition new_entry ::
  "string \<Rightarrow> string \<Rightarrow> string \<Rightarrow> string \<Rightarrow> string option \<Rightarrow> decimal \<Rightarrow> timestamp \<Rightarrow> customer_list_entry" where
  "new_entry i tid tp cp cname amt now =
     \<lparr>cl_id = i, cl_tenant_id = tid, cl_trader_phone = tp, cl_customer_phone = cp,
      cl_customer_name = cname, cl_total_orders = 1, cl_total_spend = amt,
      cl_first_order_date = Some now, cl_last_order_date = Some now, cl_opted_out = False,
      cl_opted_out_at = None, cl_last_broadcast_at = None, cl_segments = [],
      cl_segments_updated_at = None\<rparr>"

definition upsert_customer ::
  "string \<Rightarrow> string \<Rightarrow> string \<Rightarrow> string option \<Rightarrow> decimal \<Rightarrow> customer_list_entry svc" where
  "upsert_customer tp tid cp cname amt = bindA (find_entry tp cp) (\<lambda>found.
     case found of
       Some e \<Rightarrow> (\<lambda>w. (Inr (bump_entry (clock w) cname amt e),
         w\<lparr>customer_list := update_where (\<lambda>x. cl_id x = cl_id e) (bump_entry (clock w) cname amt) (customer_list w)\<rparr>))
     | None \<Rightarrow> bindA uuid4 (\<lambda>i w.
         let e = new_entry i tid tp cp cname amt (clock w)
         in (Inr e, w\<lparr>customer_list := customer_list w @ [e]\<rparr>)))"

definition opt_out :: "string \<Rightarrow> string \<Rightarrow> bool svc" where
  "opt_out tp cp = bindA (find_entry tp cp) (\<lambda>found.
     case found of
       Some e \<Rightarrow> if \<not> cl_opted_out e
         then (\<lambda>w. (Inr True, w\<lparr>customer_list := update_where (\<lambda>x. cl_id x = cl_id e)
                (\<lambda>x. x\<lparr>cl_opted_out := True, cl_opted_out_at := Some (clock w)\<rparr>) (customer_list w)\<rparr>))
         else ret False
     | None \<Rightarrow> ret False)"

text \<open>\<open>ORDER BY last_order_date DESC\<close>; PostgreSQL puts NULLs first.\<close>

definition by_last_order :: "customer_list_entry list \<Rightarrow> customer_list_entry list" where
  "by_last_order es = filter (\<lambda>e. cl_last_order_date e = None) es @
     order_by_desc (\<lambda>e. case cl_last_order_date e of None \<Rightarrow> 0 | Some t \<Rightarrow> t)
       (filter (\<lambda>e. cl_last_order_date e \<noteq> None) es)"

definition get_customers_for_trader :: "string \<Rightarrow> bool \<Rightarrow> world \<Rightarrow> customer_list_entry list" where
  "get_customers_for_trader tp exclude_opted_out w =
     by_last_order (filter (\<lambda>e. cl_trader_phone e = tp \<and> (exclude_opted_out \<longrightarrow> \<not> cl_opted_out e))
       (customer_list w))"

definition get_customer_count :: "string \<Rightarrow> world \<Rightarrow> nat" where
  "get_customer_count tp w =
     length (filter (\<lambda>e. cl_trader_phone e = tp \<and> \<not> cl_opted_out e) (customer_list w))"

definition fallback_behaviour :: "customer_list_entry \<Rightarrow> string" where
  "fallback_behaviour c =
     (if cl_total_orders c \<ge> 5 \<or> cl_total_spend c \<ge> 200000 then ''vip''
      else if cl_total_orders c \<ge> 2 then ''repeat_buyer''
      else if cl_total_orders c = 1 then ''paid_once''
      else ''new_lead'')"

definition customer_segments :: "customer_list_entry \<Rightarrow> string list" where
  "customer_segments c = (if cl_segments c \<noteq> [] then cl_segments c else [fallback_behaviour c])"

text \<open>\<open>counts[s] = counts.get(s, 0) + 1\<close>.\<close>

definition count_tag :: "string \<Rightarrow> (string \<rightharpoonup> nat) \<Rightarrow> (string \<rightharpoonup> nat)" where
  "count_tag s m = m(s \<mapsto> (case m s of None \<Rightarrow> 0 | Some n \<Rightarrow> n) + 1)"

definition get_segment_counts :: "string \<Rightarrow> world \<Rightarrow> (string \<rightharpoonup> nat)" where
  "get_segment_counts tp w =
     (let customers = get_customers_for_trader tp True w
      in fold (\<lambda>c. fold count_tag (customer_segments c)) customers
           [''all_customers'' \<mapsto> length customers])"

definition get_customers_by_segment :: "string \<Rightarrow> string \<Rightarrow> world \<Rightarrow> customer_list_entry list" where
  "get_customers_by_segment tp segment w =
     (let customers = get_customers_for_trader tp True w
      in if segment = ''all_customers'' then customers
         else filter (\<lambda>c. segment \<in> set (customer_segments c)) customers)"

section \<open>Well-formedness\<close>

text \<open>The primary key and the unique constraint of the table, and fresh identifiers to come.\<close>

definition wf_customers :: "world \<Rightarrow> bool" where
  "wf_customers w \<longleftrightarrow> distinct (map cl_id (customer_list w)) \<and> distinct (map cl_key (customer_list w))
     \<and> inj (uuid_src w) \<and> (\<forall>n\<ge>uuid_n w. uuid_src w n \<notin> cl_id ` set (customer_list w))"

lemma wf_customers_empty: "wf_customers empty_world"
  by (simp add: wf_customers_def empty_world_def inj_replicate)

definition entry_at :: "world \<Rightarrow> string \<Rightarrow> string \<Rightarrow> customer_list_entry option" where
  "entry_at w tp cp = find (\<lambda>e. cl_key e = (tp, cp) \<and> True) (customer_list w)"

lemma find_entry_eq: "wf_customers w \<Longrightarrow> find_entry tp cp w = (Inr (entry_at w tp cp), w)"
  using scalar_key [of cl_key "customer_list w" "(tp, cp)" "\<lambda>_. True"]
  by (simp add: find_entry_def bindA_apply entry_at_def wf_customers_def)

lemma entry_at_Some: "entry_at w tp cp = Some e \<Longrightarrow> e \<in> set (customer_list w) \<and> cl_key e = (tp, cp)"
  unfolding entry_at_def by (drule find_Some_iff2) simp

lemma entry_at_None: "entry_at w tp cp = None \<longleftrightarrow> (tp, cp) \<notin> cl_key ` set (customer_list w)"
  by (simp add: entry_at_def find_None_iff) (metis (no_types, lifting) image_iff)

lemma entry_at_iff:
  assumes "wf_customers w"
  shows "entry_at w tp cp = Some e \<longleftrightarrow> e \<in> set (customer_list w) \<and> cl_key e = (tp, cp)"
  using find_distinct_key [of cl_key "customer_list w" e "\<lambda>_. True"] assms
  by (auto simp: entry_at_def wf_customers_def dest: find_Some_iff2)

lemma cl_key_bump [simp]: "cl_key (bump_entry now cn amt e) = cl_key e"
  by (simp add: cl_key_def bump_entry_def)

lemma cl_id_bump [simp]: "cl_id (bump_entry now cn amt e) = cl_id e"
  by (simp add: bump_entry_def)

lemma cl_key_new [simp]: "cl_key (new_entry i tid tp cp cn amt now) = (tp, cp)"
  by (simp add: cl_key_def new_entry_def)

lemma upsert_found:
  "wf_customers w \<Longrightarrow> entry_at w tp cp = Some e \<Longrightarrow>
   upsert_customer tp tid cp cn amt w =
     (Inr (bump_entry (clock w) cn amt e),
      w\<lparr>customer_list := update_where (\<lambda>x. cl_id x = cl_id e) (bump_entry (clock w) cn amt) (customer_list w)\<rparr>)"
  by (simp add: upsert_customer_def bindA_apply find_entry_eq)

lemma upsert_new:
  "wf_customers w \<Longrightarrow> entry_at w tp cp = None \<Longrightarrow>
   upsert_customer tp tid cp cn amt w =
     (let e = new_entry (uuid_src w (uuid_n w)) tid tp cp cn amt (clock w)
      in (Inr e, w\<lparr>uuid_n := Suc (uuid_n w), customer_list := customer_list w @ [e]\<rparr>))"
  by (simp add: upsert_customer_def bindA_apply find_entry_eq Let_def)

lemma upsert_total: "wf_customers w \<Longrightarrow> \<exists>e. fst (upsert_customer tp tid cp cn amt w) = Inr e"
  by (cases "entry_at w tp cp") (simp_all add: upsert_found upsert_new Let_def)

text \<open>An update by primary key changes the entry of that key and no other.\<close>

lemma entry_at_update_id:
  assumes wf: "wf_customers w" and e: "entry_at w tp cp = Some e"
    and f: "\<And>x. cl_key (f x) = cl_key x"
  shows "entry_at (w\<lparr>customer_list := update_where (\<lambda>x. cl_id x = cl_id e) f (customer_list w)\<rparr>) tp' cp' =
     (if (tp', cp') = (tp, cp) then Some (f e) else entry_at w tp' cp')"
proof -
  have mem: "e \<in> set (customer_list w)" "cl_key e = (tp, cp)" using entry_at_Some [OF e] by auto
  have same: "cl_id x = cl_id e \<longleftrightarrow> cl_key x = (tp, cp)" if "x \<in> set (customer_list w)" for x
    using wf mem that by (auto simp: wf_customers_def distinct_map inj_on_def)
  define g where "g = (\<lambda>x. if cl_id x = cl_id e then f x else x)"
  have g: "cl_key (g x) = cl_key x" for x by (simp add: g_def f)
  have "find (\<lambda>x. cl_key x = k \<and> True) (map g xs) = map_option g (find (\<lambda>x. cl_key x = k \<and> True) xs)" for k xs
    by (induction xs) (auto simp: g)
  then have "entry_at (w\<lparr>customer_list := map g (customer_list w)\<rparr>) tp' cp' = map_option g (entry_at w tp' cp')"
    by (simp add: entry_at_def)
  also have "\<dots> = (if (tp', cp') = (tp, cp) then Some (f e) else entry_at w tp' cp')"
    using e same by (cases "entry_at w tp' cp'") (auto simp: g_def dest: entry_at_Some)
  finally show ?thesis by (simp add: update_where_def g_def)
qed

lemma entry_at_append:
  "entry_at w tp cp = None \<Longrightarrow> cl_key e = (tp, cp) \<Longrightarrow>
   entry_at (w\<lparr>uuid_n := n, customer_list := customer_list w @ [e]\<rparr>) tp' cp' =
     (if (tp', cp') = (tp, cp) then Some e else entry_at w tp' cp')"
proof -
  have "find P (xs @ [e]) = (case find P xs of Some y \<Rightarrow> Some y | None \<Rightarrow> if P e then Some e else None)"
    for P and xs :: "customer_list_entry list"
    by (induction xs) auto
  then show "entry_at w tp cp = None \<Longrightarrow> cl_key e = (tp, cp) \<Longrightarrow> ?thesis"
    by (auto simp: entry_at_def split: option.splits)
qed

lemma entry_at_upsert:
  assumes "wf_customers w"
  shows "entry_at (exec (upsert_customer tp tid cp cn amt) w) tp' cp' =
     (if (tp', cp') = (tp, cp)
      then Some (case entry_at w tp cp of None \<Rightarrow> new_entry (uuid_src w (uuid_n w)) tid tp cp cn amt (clock w)
                 | Some e \<Rightarrow> bump_entry (clock w) cn amt e)
      else entry_at w tp' cp')"
proof (cases "entry_at w tp cp")
  case None
  then show ?thesis
    using entry_at_append [OF None] by (simp add: exec_def upsert_new [OF assms None] Let_def)
next
  case (Some e)
  then show ?thesis
    using entry_at_update_id [OF assms Some] by (simp add: exec_def upsert_found [OF assms Some])
qed

lemma wf_upsert:
  assumes "wf_customers w"
  shows "wf_customers (exec (upsert_customer tp tid cp cn amt) w)"
proof (cases "entry_at w tp cp")
  case None
  have "uuid_src w (uuid_n w) \<notin> cl_id ` set (customer_list w)"
    using assms by (simp add: wf_customers_def)
  moreover have "uuid_src w n \<noteq> uuid_src w (uuid_n w)" if "Suc (uuid_n w) \<le> n" for n
    using assms that by (auto simp: wf_customers_def dest: injD)
  ultimately show ?thesis
    using assms None
    by (auto simp: exec_def upsert_new [OF assms None] Let_def wf_customers_def entry_at_None new_entry_def
        cl_key_def)
next
  case (Some e)
  then show ?thesis
    using assms
    by (simp add: exec_def upsert_found [OF assms Some] wf_customers_def map_update_where_same
        image_update_where_same)
qed

section \<open>The list as a ledger\<close>

text \<open>
  What the list promises: per (trader, customer) pair, the number of purchases recorded and the money
  spent. Recording a purchase adds one and its amount at that pair.
\<close>

type_synonym ledger = "string \<times> string \<Rightarrow> int \<times> decimal"

definition record_purchase :: "string \<Rightarrow> string \<Rightarrow> decimal \<Rightarrow> ledger \<Rightarrow> ledger" where
  "record_purchase tp cp amt l = l((tp, cp) := (fst (l (tp, cp)) + 1, snd (l (tp, cp)) + amt))"

definition ledger_of :: "world \<Rightarrow> ledger" where
  "ledger_of w = (\<lambda>(tp, cp). case entry_at w tp cp of None \<Rightarrow> (0, 0)
     | Some e \<Rightarrow> (cl_total_orders e, cl_total_spend e))"

lemma upsert_refines_ledger:
  assumes "wf_customers w"
  shows "ledger_of (exec (upsert_customer tp tid cp cn amt) w) = record_purchase tp cp amt (ledger_of w)"
proof (rule ext, clarify)
  fix a b
  show "ledger_of (exec (upsert_customer tp tid cp cn amt) w) (a, b) =
      record_purchase tp cp amt (ledger_of w) (a, b)"
    by (cases "(a, b) = (tp, cp)"; cases "entry_at w tp cp")
      (simp_all add: ledger_of_def record_purchase_def entry_at_upsert [OF assms] new_entry_def bump_entry_def)
qed

text \<open>The interface a client of the list relies on, and the provider's instance of it.\<close>

locale purchase_ledger =
  fixes inv :: "'s \<Rightarrow> bool"
    and abs :: "'s \<Rightarrow> ledger"
    and rec :: "string \<Rightarrow> string \<Rightarrow> decimal \<Rightarrow> 's \<Rightarrow> 's"
  assumes rec_inv: "inv s \<Longrightarrow> inv (rec tp cp amt s)"
    and rec_abs: "inv s \<Longrightarrow> abs (rec tp cp amt s) = record_purchase tp cp amt (abs s)"
begin

lemma run_inv: "inv s \<Longrightarrow> inv (fold (\<lambda>(tp, cp, amt). rec tp cp amt) ps s)"
  by (induction ps arbitrary: s) (auto simp: rec_inv)

lemma run_abs:
  "inv s \<Longrightarrow> abs (fold (\<lambda>(tp, cp, amt). rec tp cp amt) ps s) k =
     (fst (abs s k) + int (length (filter (\<lambda>(tp, cp, amt). (tp, cp) = k) ps)),
      snd (abs s k) + (\<Sum>(tp, cp, amt)\<leftarrow>filter (\<lambda>(tp, cp, amt). (tp, cp) = k) ps. amt))"
  by (induction ps arbitrary: s) (auto simp: rec_inv rec_abs record_purchase_def)

end

text \<open>Upserting one purchase, with the tenant and name that came with it fixed.\<close>

definition record_entry :: "string \<Rightarrow> string option \<Rightarrow> string \<Rightarrow> string \<Rightarrow> decimal \<Rightarrow> world \<Rightarrow> world" where
  "record_entry tid cn tp cp amt w = exec (upsert_customer tp tid cp cn amt) w"

interpretation upserts: purchase_ledger wf_customers ledger_of "record_entry tid cn" for tid cn
  by unfold_locales (simp_all add: record_entry_def wf_upsert upsert_refines_ledger)

text \<open>
  C38: the aggregates of the customer list are exact. Recording any sequence of purchases into a
  well-formed list never fails and leaves, for every (trader, customer) pair, \<open>total_orders\<close> raised by
  the number of its purchases and \<open>total_spend\<close> by the sum of their amounts; pairs that bought
  nothing are unchanged.
\<close>

theorem customer_aggregates_exact:
  assumes "wf_customers w"
  shows "ledger_of (fold (\<lambda>(tp, cp, amt). record_entry tid cn tp cp amt) ps w) k =
     (fst (ledger_of w k) + int (length (filter (\<lambda>(tp, cp, amt). (tp, cp) = k) ps)),
      snd (ledger_of w k) + (\<Sum>(tp, cp, amt)\<leftarrow>filter (\<lambda>(tp, cp, amt). (tp, cp) = k) ps. amt))
     \<and> wf_customers (fold (\<lambda>(tp, cp, amt). record_entry tid cn tp cp amt) ps w)"
  using upserts.run_abs [OF assms] upserts.run_inv [OF assms] by blast

theorem customer_aggregates_exact_witness:
  "ledger_of (fold (\<lambda>(tp, cp, amt). record_entry ''t1'' None tp cp amt)
     [(''080'', ''234'', 5), (''081'', ''234'', 9), (''080'', ''234'', 7)] empty_world) (''080'', ''234'') = (2, 12)"
  using customer_aggregates_exact [OF wf_customers_empty, of "''t1''" None
      "[(''080'', ''234'', 5), (''081'', ''234'', 9), (''080'', ''234'', 7)]" "(''080'', ''234'')"]
  by (simp add: ledger_of_def entry_at_def empty_world_def)

section \<open>Opting out\<close>

definition opted_out :: "world \<Rightarrow> string \<Rightarrow> string \<Rightarrow> bool" where
  "opted_out w tp cp \<longleftrightarrow> (case entry_at w tp cp of None \<Rightarrow> False | Some e \<Rightarrow> cl_opted_out e)"

lemma set_by_last_order [simp]: "set (by_last_order es) = set es"
  by (auto simp: by_last_order_def)

lemma length_by_last_order [simp]: "length (by_last_order es) = length es"
  using sum_length_filter_compl [of "\<lambda>e. cl_last_order_date e = None" es] by (simp add: by_last_order_def)

lemma mset_by_last_order [simp]: "mset (by_last_order es) = mset es"
  using multiset_partition [of "mset es" "\<lambda>e. cl_last_order_date e = None"]
  by (simp add: by_last_order_def)

lemma opt_out_eq:
  assumes "wf_customers w"
  shows "opt_out tp cp w = (case entry_at w tp cp of
     None \<Rightarrow> (Inr False, w)
   | Some e \<Rightarrow> if cl_opted_out e then (Inr False, w)
       else (Inr True, w\<lparr>customer_list := update_where (\<lambda>x. cl_id x = cl_id e)
              (\<lambda>x. x\<lparr>cl_opted_out := True, cl_opted_out_at := Some (clock w)\<rparr>) (customer_list w)\<rparr>))"
  by (auto simp: opt_out_def bindA_apply find_entry_eq [OF assms] split: option.splits)

lemma wf_opt_out: "wf_customers w \<Longrightarrow> wf_customers (exec (opt_out tp cp) w)"
  by (auto simp: exec_def opt_out_eq wf_customers_def map_update_where_same image_update_where_same cl_key_def
      split: option.splits)

lemma entry_at_opt_out:
  assumes "wf_customers w"
  shows "entry_at (exec (opt_out tp cp) w) tp' cp' =
     (if (tp', cp') = (tp, cp)
      then map_option (\<lambda>e. if cl_opted_out e then e
             else e\<lparr>cl_opted_out := True, cl_opted_out_at := Some (clock w)\<rparr>) (entry_at w tp cp)
      else entry_at w tp' cp')"
proof (cases "entry_at w tp cp")
  case (Some e)
  then show ?thesis
    using entry_at_update_id [OF assms Some, of "\<lambda>x. x\<lparr>cl_opted_out := True, cl_opted_out_at := Some (clock w)\<rparr>" tp' cp']
    by (auto simp: exec_def opt_out_eq [OF assms] cl_key_def)
qed (simp add: exec_def opt_out_eq [OF assms])

lemma opted_out_upsert:
  "wf_customers w \<Longrightarrow> opted_out (exec (upsert_customer tp tid cp cn amt) w) tp' cp' = opted_out w tp' cp'"
  by (auto simp: opted_out_def entry_at_upsert new_entry_def bump_entry_def split: option.splits)

lemma not_listed_if_opted_out:
  assumes "wf_customers w" and "opted_out w tp cp"
  shows "\<forall>e\<in>set (get_customers_by_segment tp seg w). cl_customer_phone e \<noteq> cp"
proof
  fix e assume "e \<in> set (get_customers_by_segment tp seg w)"
  then have e: "e \<in> set (customer_list w)" "cl_trader_phone e = tp" "\<not> cl_opted_out e"
    by (auto simp: get_customers_by_segment_def get_customers_for_trader_def Let_def split: if_splits)
  show "cl_customer_phone e \<noteq> cp"
  proof
    assume "cl_customer_phone e = cp"
    with e have "entry_at w tp cp = Some e"
      by (simp add: entry_at_iff [OF assms(1)] cl_key_def)
    with assms(2) e(3) show False by (simp add: opted_out_def)
  qed
qed

text \<open>
  Opting out is permanent and respected. Once a customer on a trader's list has opted out, no
  later purchase recorded for anybody and no further opt-out brings them back into any segment of
  that trader; a repeated opt-out reports that nothing changed.
\<close>

theorem opt_out_sticky:
  assumes wf: "wf_customers w" and on_list: "entry_at w tp cp \<noteq> None"
    and w2: "w2 = fold (\<lambda>(tid, cn, tp', cp', amt). record_entry tid cn tp' cp' amt) ps
                    (exec (opt_out tp cp) w)"
  shows "(\<forall>e\<in>set (get_customers_by_segment tp seg w2). cl_customer_phone e \<noteq> cp)
     \<and> opt_out tp cp w2 = (Inr False, w2)"
proof -
  let ?run = "fold (\<lambda>(tid, cn, tp', cp', amt). record_entry tid cn tp' cp' amt) ps"
  have "wf_customers (?run v) \<and> opted_out (?run v) tp cp" if "wf_customers v \<and> opted_out v tp cp" for v
    by (rule fold_invariant [where Q = "\<lambda>_. True" and P = "\<lambda>v. wf_customers v \<and> opted_out v tp cp"])
      (use that in \<open>simp_all add: split_beta record_entry_def wf_upsert opted_out_upsert\<close>)
  moreover have "opted_out (exec (opt_out tp cp) w) tp cp"
    using on_list by (auto simp: opted_out_def entry_at_opt_out [OF wf])
  ultimately have "wf_customers w2 \<and> opted_out w2 tp cp"
    using wf_opt_out [OF wf] w2 by blast
  then show ?thesis
    using not_listed_if_opted_out [of w2 tp cp seg]
    by (cases "entry_at w2 tp cp") (simp_all add: opt_out_eq opted_out_def)
qed

definition one_customer :: world where
  "one_customer = record_entry ''t1'' None ''080'' ''234'' 10 empty_world"

lemma wf_one_customer: "wf_customers one_customer"
  by (simp add: one_customer_def record_entry_def wf_upsert wf_customers_empty)

lemma entry_one_customer: "entry_at one_customer ''080'' ''234'' \<noteq> None"
  by (simp add: one_customer_def record_entry_def entry_at_upsert [OF wf_customers_empty])

theorem opt_out_sticky_witness:
  "opt_out ''080'' ''234''
     (record_entry ''t1'' None ''080'' ''234'' 5 (exec (opt_out ''080'' ''234'') one_customer)) =
   (Inr False, record_entry ''t1'' None ''080'' ''234'' 5 (exec (opt_out ''080'' ''234'') one_customer))"
  using opt_out_sticky [OF wf_one_customer entry_one_customer,
      where ps = "[(''t1'', None, ''080'', ''234'', 5)]", OF refl]
  by simp

section \<open>Segments\<close>

lemma fold_count_tag:
  "fold count_tag ss m s =
     (if count_list ss s = 0 then m s
      else Some ((case m s of None \<Rightarrow> 0 | Some n \<Rightarrow> n) + count_list ss s))"
  by (induction ss arbitrary: m) (auto simp: count_tag_def split: option.splits)

lemma fold_counts:
  "fold (\<lambda>c. fold count_tag (f c)) cs m s =
     (let k = (\<Sum>c\<leftarrow>cs. count_list (f c) s)
      in if k = 0 then m s else Some ((case m s of None \<Rightarrow> 0 | Some n \<Rightarrow> n) + k))"
  by (induction cs arbitrary: m) (auto simp: fold_count_tag Let_def split: option.splits)

lemma count_list_distinct: "distinct xs \<Longrightarrow> count_list xs x = (if x \<in> set xs then 1 else 0)"
  by (induction xs) auto

lemma length_filter_sum: "length (filter P xs) = (\<Sum>x\<leftarrow>xs. if P x then 1 else 0)"
  by (induction xs) auto

text \<open>
  The numbers on the segment picker are the sizes of the audiences. When no customer carries the
  same tag twice, the count shown for a tag is exactly the number of customers selecting that segment
  returns (absent from the table when there is none), and \<open>all_customers\<close> counts every customer who
  has not opted out.
\<close>

theorem segment_counts_match_selection:
  assumes "\<forall>e\<in>set (customer_list w). distinct (cl_segments e) \<and> ''all_customers'' \<notin> set (cl_segments e)"
  shows "(case get_segment_counts tp w s of None \<Rightarrow> 0 | Some n \<Rightarrow> n) =
           length (get_customers_by_segment tp s w)
     \<and> get_segment_counts tp w ''all_customers'' = Some (get_customer_count tp w)"
proof -
  let ?cs = "get_customers_for_trader tp True w"
  have seg: "distinct (customer_segments c)" "''all_customers'' \<notin> set (customer_segments c)"
    if "c \<in> set ?cs" for c
    using assms that
    by (auto simp: customer_segments_def get_customers_for_trader_def fallback_behaviour_def)
  have all0: "(\<Sum>c\<leftarrow>?cs. count_list (customer_segments c) ''all_customers'') = 0"
    using seg(2) by (simp add: sum_list_eq_0_iff count_list_0_iff)
  have "(\<Sum>c\<leftarrow>?cs. count_list (customer_segments c) s) =
      length (filter (\<lambda>c. s \<in> set (customer_segments c)) ?cs)"
    unfolding length_filter_sum
    by (rule arg_cong [where f = sum_list], rule map_cong [OF refl], rule count_list_distinct, rule seg(1))
  then have "(case get_segment_counts tp w s of None \<Rightarrow> 0 | Some n \<Rightarrow> n) =
      length (get_customers_by_segment tp s w)"
    using all0
    by (cases "s = ''all_customers''")
      (simp_all add: get_segment_counts_def fold_counts Let_def get_customers_by_segment_def)
  moreover have "length ?cs = get_customer_count tp w"
    by (simp add: get_customers_for_trader_def get_customer_count_def)
  ultimately show ?thesis
    using all0 by (simp add: get_segment_counts_def fold_counts Let_def)
qed

theorem segment_counts_match_selection_witness:
  "get_segment_counts ''080'' one_customer ''all_customers'' = Some (get_customer_count ''080'' one_customer)"
proof -
  have "\<forall>e\<in>set (customer_list one_customer). distinct (cl_segments e) \<and> ''all_customers'' \<notin> set (cl_segments e)"
    by (simp add: one_customer_def record_entry_def exec_def upsert_customer_def find_entry_def bindA_apply
        empty_world_def new_entry_def Let_def)
  from segment_counts_match_selection [OF this] show ?thesis by blast
qed

end
