(* ===== verification/Broadcast.thy ===== *)
theory Broadcast
  imports Notifications Customer_List Calendar
begin

text \<open>
  Broadcasts (\<open>src/app/modules/marketing/broadcast.py\<close>): the quality checks on a message, the
  anti-spam counts, and the paced sender that walks the pending recipients, skips those who opted out
  or had a broadcast in the last seven days, sends the rest one by one and closes the broadcast.
\<close>

section \<open>Quality checks\<close>

text \<open>The four spam patterns, each as a search for a match anywhere in the text.\<close>

definition is_shouting :: "char \<Rightarrow> bool" where
  "is_shouting c \<longleftrightarrow> (CHR ''A'' \<le> c \<and> c \<le> CHR ''Z'') \<or> is_space c"

fun has_run :: "nat \<Rightarrow> (char \<Rightarrow> bool) \<Rightarrow> nat \<Rightarrow> string \<Rightarrow> bool" where
  "has_run n p k [] = (n \<le> k)"
| "has_run n p k (c # cs) = (n \<le> k \<or> has_run n p (if p c then Suc k else 0) cs)"

definition contains_any :: "string list \<Rightarrow> string \<Rightarrow> bool" where
  "contains_any ps s = list_ex (\<lambda>p. contains (lower s) p) ps"

definition link_shorteners :: "string list" where
  "link_shorteners = [''bit.ly'', ''tinyurl'', ''shorturl'']"

definition spammy_phrases :: "string list" where
  "spammy_phrases = [''guaranteed'', ''best price ever'', ''limited offer'', ''act now'', ''don'' @ [CHR 39] @ ''t miss'']"

definition check_message_quality :: "string \<Rightarrow> string list" where
  "check_message_quality s =
     (if length (strip s) < 20 then [''too_short''] else [])
     @ (if has_run 20 is_shouting 0 s then [''all_caps''] else [])
     @ (if has_run 2 (\<lambda>c. c = CHR ''!'') 0 s then [''exclamation''] else [])
     @ (if contains_any link_shorteners s then [''shortener''] else [])
     @ (if contains_any spammy_phrases s then [''spammy''] else [])"

section \<open>Anti-spam counts\<close>

definition get_7day_skip_count :: "string \<Rightarrow> string list \<Rightarrow> world \<Rightarrow> nat" where
  "get_7day_skip_count tp phones w = (if phones = [] then 0 else
     length (filter (\<lambda>e. cl_trader_phone e = tp \<and> cl_customer_phone e \<in> set phones
       \<and> (case cl_last_broadcast_at e of None \<Rightarrow> False | Some t \<Rightarrow> t > clock w - 7 * day_us)) (customer_list w)))"

text \<open>\<open>ORDER BY completed_at DESC LIMIT 1\<close>; a missing date sorts first.\<close>

definition get_last_broadcast_to_segment :: "string \<Rightarrow> string \<Rightarrow> world \<Rightarrow> timestamp option" where
  "get_last_broadcast_to_segment tp seg w =
     (let ds = map b_completed_at (filter (\<lambda>b. b_trader_phone b = tp \<and> b_segment b = seg \<and> b_status b = BC_SENT) (broadcasts w))
      in if ds = [] \<or> None \<in> set ds then None else Some (Max (set (map the ds))))"

section \<open>The paced sender\<close>

definition set_broadcast :: "string \<Rightarrow> (broadcast \<Rightarrow> broadcast) \<Rightarrow> unit svc" where
  "set_broadcast bid f = modA (\<lambda>w. w\<lparr>broadcasts := update_where (\<lambda>b. b_id b = bid) f (broadcasts w)\<rparr>)"

definition set_recipient :: "string \<Rightarrow> (broadcast_recipient \<Rightarrow> broadcast_recipient) \<Rightarrow> unit svc" where
  "set_recipient rid f = modA (\<lambda>w. w\<lparr>broadcast_recipients :=
     update_where (\<lambda>r. br_id r = rid) f (broadcast_recipients w)\<rparr>)"

definition broadcast_event :: "string \<Rightarrow> string \<Rightarrow> string" where
  "broadcast_event bid phone = ''broadcast.'' @ bid @ ''.'' @ phone"

definition skip_reason_cap :: "int \<Rightarrow> string" where
  "skip_reason_cap days = ''Last broadcast '' @ show_int days @ ''d ago (7-day cap)''"

text \<open>\<open>asyncio.sleep(0.5)\<close>.\<close>

definition pace :: "unit svc" where
  "pace = modA (\<lambda>w. w\<lparr>clock := clock w + 500000\<rparr>)"

text \<open>
  Sending to one recipient: the message in its own transaction, then the recipient's row and the
  customer's last broadcast date in another.
\<close>

definition deliver :: "gateway \<Rightarrow> broadcast \<Rightarrow> string \<Rightarrow> string \<Rightarrow> broadcast_recipient \<Rightarrow> unit svc" where
  "deliver gw bc tp ptid r =
     thenA (session_begin (send_message gw ptid (broadcast_event (b_id bc) (br_customer_phone r)) (br_customer_phone r)
              (Plain (b_message_text bc)) ''whatsapp'' None None))
     (bindA (getA clock) (\<lambda>send_time.
        thenA (set_recipient (br_id r) (\<lambda>x. x\<lparr>br_status := RC_SENT, br_sent_at := Some send_time\<rparr>))
          (modA (\<lambda>w. w\<lparr>customer_list := update_where (\<lambda>e. cl_trader_phone e = tp \<and> cl_customer_phone e = br_customer_phone r)
             (\<lambda>e. e\<lparr>cl_last_broadcast_at := Some send_time\<rparr>) (customer_list w)\<rparr>))))"

text \<open>The two reasons not to send, in the order they are checked.\<close>

definition skip_check :: "timestamp \<Rightarrow> customer_list_entry option \<Rightarrow> (recipient_status \<times> string) option" where
  "skip_check now entry = (case entry of None \<Rightarrow> None
     | Some e \<Rightarrow>
         (let opted = (if cl_opted_out e then Some (RC_OPTED_OUT, ''Opted out'') else None)
          in case cl_last_broadcast_at e of
               None \<Rightarrow> opted
             | Some t \<Rightarrow> if days_between now t < 7 then Some (RC_SKIPPED, skip_reason_cap (days_between now t))
                         else opted))"

text \<open>
  The guarded part of one turn. The callback runs after the count is raised and inside the same
  \<open>try\<close>, so an exception of it is swallowed and the count kept.
\<close>

definition send_and_count :: "gateway \<Rightarrow> broadcast \<Rightarrow> string \<Rightarrow> string \<Rightarrow> nat \<Rightarrow> (nat \<Rightarrow> nat \<Rightarrow> unit svc) option
    \<Rightarrow> broadcast_recipient \<Rightarrow> nat \<Rightarrow> nat svc" where
  "send_and_count gw bc tp ptid n_total on_progress r sent_count =
     bindA (tryA (thenA (deliver gw bc tp ptid r) (ret (Suc sent_count))) (\<lambda>_. ret sent_count)) (\<lambda>n.
       thenA (case on_progress of
                Some cb \<Rightarrow> if n = Suc sent_count \<and> n mod 5 = 0 then tryA (cb n n_total) (\<lambda>_. ret ()) else ret ()
              | None \<Rightarrow> ret ())
         (thenA pace (ret n)))"

definition broadcast_one :: "gateway \<Rightarrow> broadcast \<Rightarrow> string \<Rightarrow> string \<Rightarrow> timestamp \<Rightarrow> nat \<Rightarrow> (nat \<Rightarrow> nat \<Rightarrow> unit svc) option
    \<Rightarrow> broadcast_recipient \<Rightarrow> nat \<Rightarrow> nat svc" where
  "broadcast_one gw bc tp ptid now n_total on_progress r sent_count =
     bindA (find_entry tp (br_customer_phone r)) (\<lambda>entry.
       case skip_check now entry of
         Some (st, reason) \<Rightarrow>
           thenA (set_recipient (br_id r) (\<lambda>x. x\<lparr>br_status := st, br_skip_reason := Some reason\<rparr>)) (ret sent_count)
       | None \<Rightarrow> send_and_count gw bc tp ptid n_total on_progress r sent_count)"

fun broadcast_loop :: "gateway \<Rightarrow> broadcast \<Rightarrow> string \<Rightarrow> string \<Rightarrow> timestamp \<Rightarrow> nat \<Rightarrow> (nat \<Rightarrow> nat \<Rightarrow> unit svc) option
    \<Rightarrow> broadcast_recipient list \<Rightarrow> nat \<Rightarrow> nat svc" where
  "broadcast_loop gw bc tp ptid now n_total cb [] sent_count = ret sent_count"
| "broadcast_loop gw bc tp ptid now n_total cb (r # rs) sent_count =
     bindA (broadcast_one gw bc tp ptid now n_total cb r sent_count) (broadcast_loop gw bc tp ptid now n_total cb rs)"

definition pending_recipients :: "string \<Rightarrow> world \<Rightarrow> broadcast_recipient list" where
  "pending_recipients bid w = filter (\<lambda>r. br_broadcast_id r = bid \<and> br_status r = RC_PENDING) (broadcast_recipients w)"

definition send_broadcast_paced :: "gateway \<Rightarrow> string \<Rightarrow> string \<Rightarrow> string \<Rightarrow> (nat \<Rightarrow> nat \<Rightarrow> unit svc) option \<Rightarrow> unit svc" where
  "send_broadcast_paced gw bid tp ptid on_progress =
     bindA (getA broadcasts) (\<lambda>bs. bindA (liftE (scalar_one_or_none (filter (\<lambda>b. b_id b = bid) bs))) (\<lambda>b. case b of
       None \<Rightarrow> ret ()
     | Some bc \<Rightarrow> bindA (getA (pending_recipients bid)) (\<lambda>recipients.
         thenA (set_broadcast bid (\<lambda>b. b\<lparr>b_status := BC_SENDING\<rparr>))
         (bindA (getA clock) (\<lambda>now.
          bindA (broadcast_loop gw bc tp ptid now (length recipients) on_progress recipients 0) (\<lambda>sent_count.
          bindA (getA clock) (\<lambda>end_time.
            set_broadcast bid (\<lambda>b. b\<lparr>b_status := BC_SENT, b_sent_count := int sent_count,
              b_completed_at := Some end_time\<rparr>))))))))"

section \<open>What one turn changes\<close>

text \<open>
  A progress callback sends to the trader at most: it may add notifications and messages to the
  trader's phone, and changes neither the lists nor the broadcast.
\<close>

definition trader_callback :: "string \<Rightarrow> (nat \<Rightarrow> nat \<Rightarrow> unit svc) option \<Rightarrow> bool" where
  "trader_callback tp cb \<longleftrightarrow> (\<forall>f. cb = Some f \<longrightarrow> (\<forall>n m w. wf_notifications w \<longrightarrow>
     (let w' = snd (f n m w) in wf_notifications w' \<and> notified w \<subseteq> notified w' \<and> uuid_n w \<le> uuid_n w'
       \<and> uuid_src w' = uuid_src w \<and> clock w' = clock w
       \<and> customer_list w' = customer_list w \<and> broadcasts w' = broadcasts w
       \<and> broadcast_recipients w' = broadcast_recipients w
       \<and> (\<exists>ds. dispatched w' = dispatched w @ ds \<and> (\<forall>d\<in>set ds. fst (snd d) = tp)))))"

lemma thenA_ret_unit [simp]: "thenA m (ret ()) = (m :: unit svc)"
  by (rule ext) (auto simp: thenA_apply split: prod.splits sum.splits)

definition appends_only :: "(string \<times> string \<times> wa_message) list \<Rightarrow> string \<times> string \<times> wa_message \<Rightarrow> world \<Rightarrow> bool" where
  "appends_only ds0 d w \<longleftrightarrow> (\<exists>ds. dispatched w = ds0 @ ds \<and> set ds \<subseteq> {d})"

lemma appends_only_refl [simp]: "appends_only (dispatched w) d w"
  by (simp add: appends_only_def)

lemma keeps_appends_send_message:
  "keeps (send_message gw tid eid rcpt msg ch oid ctid) (appends_only ds0 (sending_tenant ctid tid, rcpt, TextMsg msg))"
proof -
  let ?P = "appends_only ds0 (sending_tenant ctid tid, rcpt, TextMsg msg)"
  have post: "keeps (post_message gw (sending_tenant ctid tid) c rcpt (TextMsg msg)) ?P" for c
  proof (rule keepsI)
    fix w assume w: "?P w"
    show "?P (snd (post_message gw (sending_tenant ctid tid) c rcpt (TextMsg msg) w))"
      by (cases rule: post_message_cases [of gw "sending_tenant ctid tid" c rcpt "TextMsg msg" w])
        (use w in \<open>auto simp: appends_only_def\<close>)
  qed
  have d: "keeps (dispatch_whatsapp gw (sending_tenant ctid tid) rcpt msg) ?P"
    unfolding dispatch_whatsapp_def dispatch_or_raise_def get_by_tenant_and_channel_def
    by (intro keeps_thenA keeps_bindA keeps_option keeps_if post keeps_getA keeps_liftE keeps_raise keeps_ret)
  have c: "keeps (notification_create tid eid rcpt msg ch oid) ?P"
    unfolding notification_create_def by (rule keepsI) (simp add: bindA_apply Let_def appends_only_def)
  have u: "keeps (update_status n st) ?P" for n st
    unfolding update_status_def by (rule keeps_modA) (simp add: appends_only_def)
  show ?thesis
    unfolding send_message_def send_once_def get_by_event_id_def
    by (intro keeps_thenA keeps_bindA keeps_option keeps_if keeps_tryA c u d keeps_getA keeps_liftE keeps_raise keeps_ret)
qed

lemma appends_only_restore: "appends_only ds0 d (restore_db w0 w) = appends_only ds0 d w"
  by (simp add: appends_only_def restore_db_def)

lemma keeps_session_begin:
  assumes "keeps m P" and "\<And>w0 w. P (restore_db w0 w) = P w"
  shows "keeps (session_begin m) P"
  using assms by (fastforce simp: keeps_def session_begin_def split: prod.splits sum.splits)

lemma deliver_cases:
  fixes r :: broadcast_recipient and w :: world
  assumes wf: "wf_notifications w"
  defines "p \<equiv> br_customer_phone r" and "f \<equiv> (\<lambda>e::customer_list_entry. e\<lparr>cl_last_broadcast_at := Some (clock w)\<rparr>)"
    and "g \<equiv> (\<lambda>x::broadcast_recipient. x\<lparr>br_status := RC_SENT, br_sent_at := Some (clock w)\<rparr>)"
  obtains (raised) e where "deliver gw bc tp ptid r w = (Inl e, w\<lparr>uuid_n := Suc (uuid_n w)\<rparr>)"
      and "broadcast_event (b_id bc) p \<notin> notified w"
  | (sent) n ds ns where "deliver gw bc tp ptid r w = (Inr (), w\<lparr>uuid_n := n, notifications := ns, dispatched := dispatched w @ ds,
        broadcast_recipients := update_where (\<lambda>x. br_id x = br_id r) g (broadcast_recipients w),
        customer_list := update_where (\<lambda>e. cl_trader_phone e = tp \<and> cl_customer_phone e = p) f (customer_list w)\<rparr>)"
      and "uuid_n w \<le> n" and "length ds \<le> 1" and "set ds \<subseteq> {(ptid, p, TextMsg (Plain (b_message_text bc)))}"
      and "wf_notifications (w\<lparr>uuid_n := n, notifications := ns\<rparr>)"
      and "nt_event_id ` set ns = insert (broadcast_event (b_id bc) p) (notified w)"
      and "broadcast_event (b_id bc) p \<in> notified w \<Longrightarrow> ds = []"
proof -
  let ?ev = "broadcast_event (b_id bc) p"
  let ?send = "session_begin (send_message gw ptid ?ev p (Plain (b_message_text bc)) ''whatsapp'' None None)"
  have out: "send_outcome False ?ev w (?send w)"
    using run_send_outcome [OF wf, of gw "Message ptid ?ev p (Plain (b_message_text bc)) ''whatsapp'' None None"]
    by simp
  have "appends_only (dispatched w) (sending_tenant None ptid, p, TextMsg (Plain (b_message_text bc))) (snd (?send w))"
    by (rule keepsD [OF keeps_session_begin [OF keeps_appends_send_message]]) (simp_all add: appends_only_restore)
  then obtain ds' where ds': "dispatched (snd (?send w)) = dispatched w @ ds'"
      "set ds' \<subseteq> {(ptid, p, TextMsg (Plain (b_message_text bc)))}"
    by (auto simp: appends_only_def sending_tenant_def)
  have deliver: "deliver gw bc tp ptid r w = (case ?send w of (Inl e, w') \<Rightarrow> (Inl e, w')
      | (Inr _, w') \<Rightarrow> (Inr (), w'\<lparr>broadcast_recipients := update_where (\<lambda>x. br_id x = br_id r)
           (\<lambda>x. x\<lparr>br_status := RC_SENT, br_sent_at := Some (clock w')\<rparr>) (broadcast_recipients w'),
          customer_list := update_where (\<lambda>e. cl_trader_phone e = tp \<and> cl_customer_phone e = p)
           (\<lambda>e. e\<lparr>cl_last_broadcast_at := Some (clock w')\<rparr>) (customer_list w')\<rparr>))"
    unfolding deliver_def p_def by (simp add: act_simps set_recipient_def split: prod.splits sum.splits)
  from out consider
    "?ev \<in> notified w" "?send w = (Inr (), w)"
  | e where "?ev \<notin> notified w" "?send w = (Inl e, w\<lparr>uuid_n := Suc (uuid_n w)\<rparr>)"
  | n ds where "?ev \<notin> notified w" "?send w = (Inr (), with_row w n\<lparr>dispatched := dispatched w @ ds\<rparr>)"
      "nt_event_id n = ?ev" "nt_id n = uuid_src w (uuid_n w)" "length ds \<le> 1"
    unfolding send_outcome_kept by blast
  then show thesis
  proof cases
    case 1
    show thesis
      by (rule sent [where n = "uuid_n w" and ns = "notifications w" and ds = "[]"])
        (use 1 wf in \<open>simp_all add: deliver f_def g_def notified_def insert_absorb\<close>)
  next
    case (2 e)
    show thesis by (rule raised [of e]) (use 2 in \<open>simp_all add: deliver\<close>)
  next
    case (3 n ds)
    have "send_outcome False ?ev w (Inr (), with_row w n\<lparr>dispatched := dispatched w @ ds\<rparr>)"
      using out 3 by simp
    from send_outcome_wf [OF wf this]
    have "wf_notifications (w\<lparr>uuid_n := Suc (uuid_n w), notifications := notifications w @ [n]\<rparr>)"
      by (simp add: wf_notifications_def with_row_def)
    moreover have "set ds \<subseteq> {(ptid, p, TextMsg (Plain (b_message_text bc)))}"
      using ds' 3 by simp
    ultimately show thesis
      by (intro sent [where n = "Suc (uuid_n w)" and ns = "notifications w @ [n]" and ds = ds])
        (use 3 in \<open>simp_all add: deliver f_def g_def notified_def with_row_def\<close>)
  qed
qed

section \<open>The invariant of the loop\<close>

definition row_status :: "world \<Rightarrow> string \<Rightarrow> recipient_status option" where
  "row_status w i = map_option br_status (find (\<lambda>x. br_id x = i) (broadcast_recipients w))"

lemma row_status_update:
  assumes "\<And>x. br_id (h x) = br_id x"
  shows "map_option br_status (find (\<lambda>x. br_id x = i) (update_where (\<lambda>x. br_id x = j) h xs)) =
    (if i = j then map_option (\<lambda>x. br_status (h x)) (find (\<lambda>x. br_id x = i) xs)
     else map_option br_status (find (\<lambda>x. br_id x = i) xs))"
  by (induction xs) (auto simp: assms)

lemma entry_at_update_phone:
  assumes "\<And>e. cl_key (f e) = cl_key e"
  shows "entry_at (w\<lparr>customer_list := update_where (\<lambda>e. cl_trader_phone e = tp \<and> cl_customer_phone e = p) f (customer_list w)\<rparr>) tp q =
    (if q = p then map_option f (entry_at w tp p) else entry_at w tp q)"
proof -
  have "find (\<lambda>e. cl_key e = (tp, q) \<and> True) (update_where (\<lambda>e. cl_trader_phone e = tp \<and> cl_customer_phone e = p) f xs) =
    (if q = p then map_option f (find (\<lambda>e. cl_key e = (tp, p) \<and> True) xs) else find (\<lambda>e. cl_key e = (tp, q) \<and> True) xs)" for xs
    by (induction xs) (auto simp: assms, auto simp: cl_key_def)
  then show ?thesis by (simp add: entry_at_def)
qed

definition accepted :: "world \<Rightarrow> broadcast \<Rightarrow> string \<Rightarrow> string \<Rightarrow> broadcast_recipient list \<Rightarrow> string \<times> string \<times> wa_message \<Rightarrow> bool" where
  "accepted w0 bc tp ptid rs d \<longleftrightarrow> fst (snd d) \<in> br_customer_phone ` set rs
     \<and> skip_check (clock w0) (entry_at w0 tp (fst (snd d))) = None
     \<and> d = (ptid, fst (snd d), TextMsg (Plain (b_message_text bc)))"

definition deliveries :: "string \<Rightarrow> (string \<times> string \<times> wa_message) list \<Rightarrow> string list" where
  "deliveries tp ds = map (\<lambda>d. fst (snd d)) (filter (\<lambda>d. fst (snd d) \<noteq> tp) ds)"

lemma deliveries_append [simp]: "deliveries tp (ds @ ds') = deliveries tp ds @ deliveries tp ds'"
  by (simp add: deliveries_def)

definition broadcast_inv :: "world \<Rightarrow> broadcast \<Rightarrow> string \<Rightarrow> string \<Rightarrow> broadcast_recipient list \<Rightarrow> world \<Rightarrow> bool" where
  "broadcast_inv w0 bc tp ptid rs w \<longleftrightarrow> wf_customers w \<and> wf_notifications w
     \<and> (\<forall>p. entry_at w tp p = entry_at w0 tp p \<or> broadcast_event (b_id bc) p \<in> notified w)
     \<and> (\<exists>ds. dispatched w = dispatched w0 @ ds
          \<and> (\<forall>d\<in>set ds. fst (snd d) \<noteq> tp \<longrightarrow> accepted w0 bc tp ptid rs d \<and> broadcast_event (b_id bc) (fst (snd d)) \<in> notified w)
          \<and> distinct (deliveries tp ds))"

lemma broadcast_event_inj [simp]: "broadcast_event bid p = broadcast_event bid q \<longleftrightarrow> p = q"
  by (simp add: broadcast_event_def)

text \<open>Transporting the invariant along a change that only drops nothing.\<close>

lemma wf_customers_later:
  assumes "wf_customers w" and "customer_list w' = customer_list w" and "uuid_src w' = uuid_src w" and "uuid_n w \<le> uuid_n w'"
  shows "wf_customers w'"
  using assms by (simp add: wf_customers_def)

lemma broadcast_inv_quiet:
  assumes inv: "broadcast_inv w0 bc tp ptid rs w" and "customer_list w' = customer_list w" and "uuid_src w' = uuid_src w"
    and "uuid_n w \<le> uuid_n w'" and "wf_notifications w'" and mono: "notified w \<subseteq> notified w'"
    and d: "dispatched w' = dispatched w @ ds'" and tp: "\<forall>d\<in>set ds'. fst (snd d) = tp"
  shows "broadcast_inv w0 bc tp ptid rs w'"
proof -
  from inv obtain ds where ds: "dispatched w = dispatched w0 @ ds" "distinct (deliveries tp ds)"
    "\<forall>d\<in>set ds. fst (snd d) \<noteq> tp \<longrightarrow> accepted w0 bc tp ptid rs d \<and> broadcast_event (b_id bc) (fst (snd d)) \<in> notified w"
    unfolding broadcast_inv_def by blast
  have "deliveries tp ds' = []" using tp by (auto simp: deliveries_def filter_empty_conv)
  with ds d tp mono have "\<exists>ds. dispatched w' = dispatched w0 @ ds
      \<and> (\<forall>d\<in>set ds. fst (snd d) \<noteq> tp \<longrightarrow> accepted w0 bc tp ptid rs d \<and> broadcast_event (b_id bc) (fst (snd d)) \<in> notified w')
      \<and> distinct (deliveries tp ds)"
    by (intro exI [of _ "ds @ ds'"]) auto
  moreover have "entry_at w' tp p = entry_at w tp p" for p
    using assms(2) by (simp add: entry_at_def)
  then have "entry_at w' tp p = entry_at w0 tp p \<or> broadcast_event (b_id bc) p \<in> notified w'" for p
    using inv mono unfolding broadcast_inv_def by (simp, blast)
  moreover have "wf_customers w'"
    using inv assms(2-4) wf_customers_later [of w w'] unfolding broadcast_inv_def by blast
  ultimately show ?thesis using assms(5) unfolding broadcast_inv_def by blast
qed

lemma broadcast_inv_sent:
  assumes inv: "broadcast_inv w0 bc tp ptid rs w" and r: "p \<in> br_customer_phone ` set rs"
    and skip: "skip_check (clock w0) (entry_at w tp p) = None"
    and cl: "customer_list w' = update_where (\<lambda>e. cl_trader_phone e = tp \<and> cl_customer_phone e = p) f (customer_list w)"
    and f: "\<And>e. cl_key (f e) = cl_key e" "\<And>e. cl_id (f e) = cl_id e"
    and u: "uuid_src w' = uuid_src w" "uuid_n w \<le> uuid_n w'" and wf: "wf_notifications w'"
    and ev: "notified w' = insert (broadcast_event (b_id bc) p) (notified w)"
    and d: "dispatched w' = dispatched w @ ds'" "length ds' \<le> 1" "set ds' \<subseteq> {(ptid, p, TextMsg (Plain (b_message_text bc)))}"
    and known: "broadcast_event (b_id bc) p \<in> notified w \<Longrightarrow> ds' = []"
  shows "broadcast_inv w0 bc tp ptid rs w'"
proof -
  from inv obtain ds where ds: "dispatched w = dispatched w0 @ ds" "distinct (deliveries tp ds)"
    "\<forall>d\<in>set ds. fst (snd d) \<noteq> tp \<longrightarrow> accepted w0 bc tp ptid rs d \<and> broadcast_event (b_id bc) (fst (snd d)) \<in> notified w"
    unfolding broadcast_inv_def by blast
  have wfc: "wf_customers w'"
    using inv u cl f unfolding broadcast_inv_def wf_customers_def
    by (auto simp: map_update_where_same image_update_where_same)
  have ent: "entry_at w' tp q = (if q = p then map_option f (entry_at w tp p) else entry_at w tp q)" for q
    using entry_at_update_phone [where f = f and w = w and tp = tp and p = p and q = q] f(1) cl by (simp add: entry_at_def)
  have "entry_at w' tp q = entry_at w0 tp q \<or> broadcast_event (b_id bc) q \<in> notified w'" for q
    using inv ent [of q] ev unfolding broadcast_inv_def by (cases "q = p") auto
  moreover have "\<exists>ds. dispatched w' = dispatched w0 @ ds
      \<and> (\<forall>d\<in>set ds. fst (snd d) \<noteq> tp \<longrightarrow> accepted w0 bc tp ptid rs d \<and> broadcast_event (b_id bc) (fst (snd d)) \<in> notified w')
      \<and> distinct (deliveries tp ds)"
  proof (cases ds')
    case Nil
    with ds d ev show ?thesis by (intro exI [of _ ds]) auto
  next
    case (Cons d1 rest)
    with d have [simp]: "ds' = [(ptid, p, TextMsg (Plain (b_message_text bc)))]" by simp
    with known have new: "broadcast_event (b_id bc) p \<notin> notified w" by auto
    then have "entry_at w tp p = entry_at w0 tp p" using inv unfolding broadcast_inv_def by blast
    with skip r have "accepted w0 bc tp ptid rs (ptid, p, TextMsg (Plain (b_message_text bc)))"
      by (simp add: accepted_def)
    moreover have "p \<notin> set (deliveries tp ds)"
      using ds(3) new by (auto simp: deliveries_def)
    ultimately show ?thesis
      using ds d(1) ev by (intro exI [of _ "ds @ ds'"]) (auto simp: deliveries_def)
  qed
  ultimately show ?thesis using wfc wf unfolding broadcast_inv_def by blast
qed

definition turn_ok :: "world \<Rightarrow> broadcast \<Rightarrow> string \<Rightarrow> string \<Rightarrow> broadcast_recipient list \<Rightarrow> string \<Rightarrow> nat \<Rightarrow> world \<Rightarrow> nat \<Rightarrow> world \<Rightarrow> bool" where
  "turn_ok w0 bc tp ptid rs i k w n w' \<longleftrightarrow> broadcast_inv w0 bc tp ptid rs w' \<and> broadcasts w' = broadcasts w
     \<and> (\<forall>j. j \<noteq> i \<longrightarrow> row_status w' j = row_status w j)
     \<and> (row_status w i = Some RC_PENDING \<longrightarrow>
          (n = Suc k \<and> row_status w' i = Some RC_SENT)
          \<or> (n = k \<and> row_status w' i \<in> {Some RC_PENDING, Some RC_SKIPPED, Some RC_OPTED_OUT}))"

lemma turn_ok_after:
  assumes "turn_ok w0 bc tp ptid rs i k w n w1" and "broadcast_inv w0 bc tp ptid rs w2"
    and "broadcasts w2 = broadcasts w1" and "broadcast_recipients w2 = broadcast_recipients w1"
  shows "turn_ok w0 bc tp ptid rs i k w n w2"
  using assms by (simp add: turn_ok_def row_status_def)

lemma skip_check_status: "skip_check now e = Some (st, reason) \<Longrightarrow> st \<in> {RC_SKIPPED, RC_OPTED_OUT}"
  by (auto simp: skip_check_def Let_def split: option.splits if_splits)

lemma skipped_turn:
  assumes "broadcast_inv w0 bc tp ptid rs w" and "st \<in> {RC_SKIPPED, RC_OPTED_OUT}"
  shows "turn_ok w0 bc tp ptid rs i k w k (w\<lparr>broadcast_recipients :=
     update_where (\<lambda>r. br_id r = i) (\<lambda>x. x\<lparr>br_status := st, br_skip_reason := Some reason\<rparr>) (broadcast_recipients w)\<rparr>)"
proof -
  let ?w = "w\<lparr>broadcast_recipients :=
     update_where (\<lambda>r. br_id r = i) (\<lambda>x. x\<lparr>br_status := st, br_skip_reason := Some reason\<rparr>) (broadcast_recipients w)\<rparr>"
  have "broadcast_inv w0 bc tp ptid rs ?w"
    by (rule broadcast_inv_quiet [OF assms(1), where ds' = "[]"])
      (use assms(1) in \<open>simp_all add: broadcast_inv_def wf_notifications_def notified_def\<close>)
  with assms(2) show ?thesis
    by (auto simp: turn_ok_def row_status_def row_status_update)
qed

lemma delivered_turn:
  assumes inv: "broadcast_inv w0 bc tp ptid rs w" and r: "r \<in> set rs"
    and skip: "skip_check (clock w0) (entry_at w tp (br_customer_phone r)) = None"
  obtains n w1 where "tryA (thenA (deliver gw bc tp ptid r) (ret (Suc k))) (\<lambda>_. ret k) w = (Inr n, w1)"
    and "turn_ok w0 bc tp ptid rs (br_id r) k w n w1"
proof -
  have wf: "wf_notifications w" using inv by (simp add: broadcast_inv_def)
  have mem: "br_customer_phone r \<in> br_customer_phone ` set rs" using r by simp
  show thesis
  proof (rule deliver_cases [OF wf, of gw bc tp ptid r])
    fix e assume run: "deliver gw bc tp ptid r w = (Inl e, w\<lparr>uuid_n := Suc (uuid_n w)\<rparr>)"
    have "broadcast_inv w0 bc tp ptid rs (w\<lparr>uuid_n := Suc (uuid_n w)\<rparr>)"
      by (rule broadcast_inv_quiet [OF inv, where ds' = "[]"])
        (use wf in \<open>simp_all add: wf_notifications_def notified_def\<close>)
    then have "turn_ok w0 bc tp ptid rs (br_id r) k w k (w\<lparr>uuid_n := Suc (uuid_n w)\<rparr>)"
      by (simp add: turn_ok_def row_status_def)
    with run show thesis by (intro that [of k]) (simp_all add: tryA_apply thenA_apply)
  next
    fix m ds ns
    let ?w = "w\<lparr>uuid_n := m, notifications := ns, dispatched := dispatched w @ ds,
        broadcast_recipients := update_where (\<lambda>x. br_id x = br_id r)
          (\<lambda>x. x\<lparr>br_status := RC_SENT, br_sent_at := Some (clock w)\<rparr>) (broadcast_recipients w),
        customer_list := update_where (\<lambda>e. cl_trader_phone e = tp \<and> cl_customer_phone e = br_customer_phone r)
          (\<lambda>e. e\<lparr>cl_last_broadcast_at := Some (clock w)\<rparr>) (customer_list w)\<rparr>"
    assume run: "deliver gw bc tp ptid r w = (Inr (), ?w)"
      and m: "uuid_n w \<le> m" and ds: "length ds \<le> 1"
        "set ds \<subseteq> {(ptid, br_customer_phone r, TextMsg (Plain (b_message_text bc)))}"
      and wf': "wf_notifications (w\<lparr>uuid_n := m, notifications := ns\<rparr>)"
      and ev: "nt_event_id ` set ns = insert (broadcast_event (b_id bc) (br_customer_phone r)) (notified w)"
      and known: "broadcast_event (b_id bc) (br_customer_phone r) \<in> notified w \<Longrightarrow> ds = []"
    have "broadcast_inv w0 bc tp ptid rs ?w"
      by (rule broadcast_inv_sent [OF inv mem skip, where f = "\<lambda>e. e\<lparr>cl_last_broadcast_at := Some (clock w)\<rparr>" and ds' = ds])
        (use m ds wf' ev known in \<open>simp_all add: wf_notifications_def notified_def cl_key_def\<close>)
    then have "turn_ok w0 bc tp ptid rs (br_id r) k w (Suc k) ?w"
      by (auto simp: turn_ok_def row_status_def row_status_update)
    with run show thesis by (intro that [of "Suc k"]) (simp_all add: tryA_apply thenA_apply)
  qed
qed

lemma broadcast_turn:
  assumes inv: "broadcast_inv w0 bc tp ptid rs w" and r: "r \<in> set rs" and cb: "trader_callback tp cb"
  obtains n w' where "broadcast_one gw bc tp ptid (clock w0) tot cb r k w = (Inr n, w')"
    and "turn_ok w0 bc tp ptid rs (br_id r) k w n w'"
proof (cases "skip_check (clock w0) (entry_at w tp (br_customer_phone r))")
  case (Some s)
  obtain st reason where s: "s = (st, reason)" by force
  have wfc: "wf_customers w" using inv by (simp add: broadcast_inv_def)
  let ?w = "w\<lparr>broadcast_recipients := update_where (\<lambda>x. br_id x = br_id r)
     (\<lambda>x. x\<lparr>br_status := st, br_skip_reason := Some reason\<rparr>) (broadcast_recipients w)\<rparr>"
  have "broadcast_one gw bc tp ptid (clock w0) tot cb r k w = (Inr k, ?w)"
    by (simp add: broadcast_one_def bindA_apply thenA_apply find_entry_eq [OF wfc] set_recipient_def Some s)
  moreover have "turn_ok w0 bc tp ptid rs (br_id r) k w k ?w"
    by (rule skipped_turn [OF inv skip_check_status [OF Some [unfolded s]]])
  ultimately show thesis by (rule that)
next
  case None
  have wfc: "wf_customers w" using inv by (simp add: broadcast_inv_def)
  obtain n w1 where run: "tryA (thenA (deliver gw bc tp ptid r) (ret (Suc k))) (\<lambda>_. ret k) w = (Inr n, w1)"
    and ok: "turn_ok w0 bc tp ptid rs (br_id r) k w n w1"
    by (rule delivered_turn [OF inv r None])
  define pr where "pr = (case cb of
                Some f \<Rightarrow> if n = Suc k \<and> n mod 5 = 0 then tryA (f n tot) (\<lambda>_. ret ()) else ret ()
              | None \<Rightarrow> ret ())"
  have inv1: "broadcast_inv w0 bc tp ptid rs w1" using ok by (simp add: turn_ok_def)
  have "\<exists>w2. pr w1 = (Inr (), w2) \<and> turn_ok w0 bc tp ptid rs (br_id r) k w n w2"
  proof (cases "\<exists>f. cb = Some f \<and> n = Suc k \<and> n mod 5 = 0")
    case True
    then obtain f where f: "cb = Some f" "n = Suc k" "n mod 5 = 0" by (elim exE conjE) (rule that)
    let ?w2 = "snd (f n tot w1)"
    have wf1: "wf_notifications w1" using inv1 by (simp add: broadcast_inv_def)
    from cb f(1) wf1 have q: "wf_notifications ?w2" "notified w1 \<subseteq> notified ?w2" "uuid_n w1 \<le> uuid_n ?w2"
      "uuid_src ?w2 = uuid_src w1" "customer_list ?w2 = customer_list w1" "broadcasts ?w2 = broadcasts w1"
      "broadcast_recipients ?w2 = broadcast_recipients w1"
      "\<exists>ds. dispatched ?w2 = dispatched w1 @ ds \<and> (\<forall>d\<in>set ds. fst (snd d) = tp)"
      unfolding trader_callback_def Let_def by blast+
    then obtain ds where ds: "dispatched ?w2 = dispatched w1 @ ds" "\<forall>d\<in>set ds. fst (snd d) = tp" by blast
    have "broadcast_inv w0 bc tp ptid rs ?w2"
      by (rule broadcast_inv_quiet [OF inv1 q(5,4,3,1,2) ds])
    from turn_ok_after [OF ok this q(6,7)] f show ?thesis
      by (auto simp: pr_def tryA_apply split: prod.splits sum.splits)
  next
    case False
    with ok show ?thesis by (auto simp: pr_def split: option.splits)
  qed
  then obtain w2 where w2: "pr w1 = (Inr (), w2)" "turn_ok w0 bc tp ptid rs (br_id r) k w n w2" by blast
  have "broadcast_inv w0 bc tp ptid rs (w2\<lparr>clock := clock w2 + 500000\<rparr>)"
    by (rule broadcast_inv_quiet [where w = w2 and ds' = "[]"])
      (use w2 in \<open>simp_all add: turn_ok_def broadcast_inv_def wf_notifications_def notified_def\<close>)
  from turn_ok_after [OF w2(2) this] None run w2 show thesis
    by (intro that [of n])
      (simp_all add: broadcast_one_def send_and_count_def bindA_apply thenA_apply find_entry_eq [OF wfc] pr_def pace_def)
qed

lemma broadcast_loop_run:
  assumes "broadcast_inv w0 bc tp ptid rs w" and "set rs' \<subseteq> set rs" and "distinct (map br_id rs')"
    and "\<forall>r\<in>set rs'. row_status w (br_id r) = Some RC_PENDING" and cb: "trader_callback tp cb"
  shows "\<exists>n w'. broadcast_loop gw bc tp ptid (clock w0) tot cb rs' k w = (Inr n, w')
     \<and> broadcast_inv w0 bc tp ptid rs w' \<and> broadcasts w' = broadcasts w
     \<and> (\<forall>j. j \<notin> br_id ` set rs' \<longrightarrow> row_status w' j = row_status w j)
     \<and> n = k + length (filter (\<lambda>r. row_status w' (br_id r) = Some RC_SENT) rs')
     \<and> (\<forall>r\<in>set rs'. row_status w' (br_id r) \<in> {Some RC_PENDING, Some RC_SENT, Some RC_SKIPPED, Some RC_OPTED_OUT})"
  using assms(1-4)
proof (induction rs' arbitrary: w k)
  case (Cons r rs')
  obtain n w1 where one: "broadcast_one gw bc tp ptid (clock w0) tot cb r k w = (Inr n, w1)"
    and ok: "turn_ok w0 bc tp ptid rs (br_id r) k w n w1"
    by (rule broadcast_turn [OF Cons.prems(1) _ cb, of r]) (use Cons.prems(2) in auto)
  have fresh: "br_id r \<notin> br_id ` set rs'" using Cons.prems(3) by simp
  have inv1: "broadcast_inv w0 bc tp ptid rs w1" and pend: "\<forall>r\<in>set rs'. row_status w1 (br_id r) = Some RC_PENDING"
    using ok Cons.prems(4) fresh by (auto simp: turn_ok_def image_iff)
  from Cons.IH [OF inv1 _ _ pend, of n] Cons.prems(2,3) obtain m w2 where
    rest: "broadcast_loop gw bc tp ptid (clock w0) tot cb rs' n w1 = (Inr m, w2)" "broadcast_inv w0 bc tp ptid rs w2"
      "broadcasts w2 = broadcasts w1" "\<forall>j. j \<notin> br_id ` set rs' \<longrightarrow> row_status w2 j = row_status w1 j"
      "m = n + length (filter (\<lambda>r. row_status w2 (br_id r) = Some RC_SENT) rs')"
      "\<forall>r\<in>set rs'. row_status w2 (br_id r) \<in> {Some RC_PENDING, Some RC_SENT, Some RC_SKIPPED, Some RC_OPTED_OUT}"
    by auto
  have "row_status w2 (br_id r) = row_status w1 (br_id r)" using rest(4) fresh by blast
  moreover have "row_status w (br_id r) = Some RC_PENDING" using Cons.prems(4) by simp
  ultimately have "m = k + length (filter (\<lambda>r. row_status w2 (br_id r) = Some RC_SENT) (r # rs'))
      \<and> row_status w2 (br_id r) \<in> {Some RC_PENDING, Some RC_SENT, Some RC_SKIPPED, Some RC_OPTED_OUT}"
    using ok rest(5) by (auto simp: turn_ok_def)
  moreover have "\<forall>j. j \<notin> br_id ` set (r # rs') \<longrightarrow> row_status w2 j = row_status w j"
    using rest(4) ok by (simp add: turn_ok_def)
  ultimately show ?case
    using one rest ok by (simp add: bindA_apply turn_ok_def)
qed simp

text \<open>The whole run, from a broadcast that exists.\<close>

definition broadcast_ready :: "broadcast \<Rightarrow> world \<Rightarrow> bool" where
  "broadcast_ready bc w \<longleftrightarrow> wf_customers w \<and> wf_notifications w \<and> distinct (map b_id (broadcasts w))
     \<and> distinct (map br_id (broadcast_recipients w)) \<and> bc \<in> set (broadcasts w)"

lemma broadcast_run:
  assumes ready: "broadcast_ready bc w" and cb: "trader_callback tp cb"
  obtains n w1 t where "send_broadcast_paced gw (b_id bc) tp ptid cb w = (Inr (), w1\<lparr>broadcasts :=
      update_where (\<lambda>b. b_id b = b_id bc) (\<lambda>b. b\<lparr>b_status := BC_SENT, b_sent_count := int n, b_completed_at := Some t\<rparr>) (broadcasts w1)\<rparr>)"
    and "t = clock w1" and "broadcast_inv w bc tp ptid (pending_recipients (b_id bc) w) w1"
    and "broadcasts w1 = update_where (\<lambda>b. b_id b = b_id bc) (\<lambda>b. b\<lparr>b_status := BC_SENDING\<rparr>) (broadcasts w)"
    and "n = length (filter (\<lambda>r. row_status w1 (br_id r) = Some RC_SENT) (pending_recipients (b_id bc) w))"
    and "\<forall>r\<in>set (pending_recipients (b_id bc) w).
        row_status w1 (br_id r) \<in> {Some RC_PENDING, Some RC_SENT, Some RC_SKIPPED, Some RC_OPTED_OUT}"
proof -
  let ?rs = "pending_recipients (b_id bc) w"
  let ?w = "w\<lparr>broadcasts := update_where (\<lambda>b. b_id b = b_id bc) (\<lambda>b. b\<lparr>b_status := BC_SENDING\<rparr>) (broadcasts w)\<rparr>"
  have fnd: "scalar_one_or_none (filter (\<lambda>b. b_id b = b_id bc) (broadcasts w)) = Inr (Some bc)"
    using filter_key_unique [of b_id "broadcasts w" bc "\<lambda>_. True"] ready by (simp add: broadcast_ready_def)
  have inv: "broadcast_inv w bc tp ptid ?rs ?w"
    using ready by (auto simp: broadcast_inv_def broadcast_ready_def wf_customers_def wf_notifications_def
        entry_at_def deliveries_def)
  have pend: "\<forall>r\<in>set ?rs. row_status ?w (br_id r) = Some RC_PENDING"
  proof
    fix r assume "r \<in> set ?rs"
    then show "row_status ?w (br_id r) = Some RC_PENDING"
      using find_distinct_key [of br_id "broadcast_recipients w" r "\<lambda>_. True"] ready
      by (simp add: row_status_def pending_recipients_def broadcast_ready_def)
  qed
  have d: "distinct (map br_id ?rs)"
    using ready by (simp add: pending_recipients_def broadcast_ready_def distinct_map_filter)
  from broadcast_loop_run [OF inv _ d pend cb, of gw "length ?rs" 0] obtain n w1 where
    run: "broadcast_loop gw bc tp ptid (clock w) (length ?rs) cb ?rs 0 ?w = (Inr n, w1)"
    and r: "broadcast_inv w bc tp ptid ?rs w1" "broadcasts w1 = broadcasts ?w"
      "n = length (filter (\<lambda>r. row_status w1 (br_id r) = Some RC_SENT) ?rs)"
      "\<forall>r\<in>set ?rs. row_status w1 (br_id r) \<in> {Some RC_PENDING, Some RC_SENT, Some RC_SKIPPED, Some RC_OPTED_OUT}"
    by auto
  show thesis
    by (rule that [where n = n and ?w1.0 = w1 and t = "clock w1"])
      (use r run in \<open>simp_all add: send_broadcast_paced_def bindA_apply thenA_apply fnd set_broadcast_def\<close>)
qed

section \<open>Properties\<close>

text \<open>
  A broadcast never reaches somebody it must not. Whatever the gateway answers, the run ends, every
  message it sends to a phone other than the trader's is the broadcast's text to a recipient that was
  pending, and that customer, if on the trader's list, had not opted out and had no broadcast in the
  seven days before; nobody gets it twice.
\<close>

theorem broadcast_respects_customers:
  assumes "broadcast_ready bc w" and "trader_callback tp cb"
  shows "\<exists>w' ds. send_broadcast_paced gw (b_id bc) tp ptid cb w = (Inr (), w') \<and> dispatched w' = dispatched w @ ds
     \<and> distinct (deliveries tp ds)
     \<and> (\<forall>d\<in>set ds. fst (snd d) \<noteq> tp \<longrightarrow> d = (ptid, fst (snd d), TextMsg (Plain (b_message_text bc)))
         \<and> fst (snd d) \<in> br_customer_phone ` set (pending_recipients (b_id bc) w)
         \<and> (\<forall>e. entry_at w tp (fst (snd d)) = Some e \<longrightarrow> \<not> cl_opted_out e
              \<and> (\<forall>t. cl_last_broadcast_at e = Some t \<longrightarrow> 7 \<le> days_between (clock w) t)))"
proof -
  have skip: "\<not> cl_opted_out e \<and> (\<forall>t. cl_last_broadcast_at e = Some t \<longrightarrow> 7 \<le> days_between now t)"
    if "skip_check now (Some e) = None" for now e
    using that by (auto simp: skip_check_def Let_def split: option.splits if_splits)
  obtain n w1 t where run: "send_broadcast_paced gw (b_id bc) tp ptid cb w = (Inr (), w1\<lparr>broadcasts :=
      update_where (\<lambda>b. b_id b = b_id bc) (\<lambda>b. b\<lparr>b_status := BC_SENT, b_sent_count := int n, b_completed_at := Some t\<rparr>) (broadcasts w1)\<rparr>)"
    and inv: "broadcast_inv w bc tp ptid (pending_recipients (b_id bc) w) w1"
    by (rule broadcast_run [OF assms])
  from inv obtain ds where ds: "dispatched w1 = dispatched w @ ds" "distinct (deliveries tp ds)"
    "\<forall>d\<in>set ds. fst (snd d) \<noteq> tp \<longrightarrow> accepted w bc tp ptid (pending_recipients (b_id bc) w) d"
    unfolding broadcast_inv_def by blast
  have d: "d = (ptid, fst (snd d), TextMsg (Plain (b_message_text bc)))
      \<and> fst (snd d) \<in> br_customer_phone ` set (pending_recipients (b_id bc) w)
      \<and> (\<forall>e. entry_at w tp (fst (snd d)) = Some e \<longrightarrow> \<not> cl_opted_out e
           \<and> (\<forall>t. cl_last_broadcast_at e = Some t \<longrightarrow> 7 \<le> days_between (clock w) t))"
    if "d \<in> set ds" "fst (snd d) \<noteq> tp" for d
    using bspec [OF ds(3) that(1)] that(2) skip unfolding accepted_def by auto
  show ?thesis
    by (rule exI, rule exI [of _ ds], intro conjI, rule run) (use ds d in simp_all)
qed

definition sample_broadcast :: broadcast where
  "sample_broadcast = \<lparr>b_id = ''b1'', b_tenant_id = ''t1'', b_trader_phone = ''080'', b_segment = ''all_customers'',
     b_message_text = ''hello'', b_original_text = None, b_total_recipients = 1, b_sent_count = 0, b_status = BC_DRAFT, b_completed_at = None\<rparr>"

definition broadcast_world :: world where
  "broadcast_world = one_channel\<lparr>broadcasts := [sample_broadcast], broadcast_recipients := [\<lparr>br_id = ''r1'',
     br_broadcast_id = ''b1'', br_customer_phone = ''234'', br_customer_name = None, br_status = RC_PENDING,
     br_sent_at = None, br_skip_reason = None\<rparr>]\<rparr>"

lemma broadcast_world_ready: "broadcast_ready sample_broadcast broadcast_world"
  by (simp add: broadcast_ready_def broadcast_world_def one_channel_def empty_world_def wf_customers_def
      wf_notifications_def inj_replicate)

theorem broadcast_respects_customers_witness:
  "\<exists>w' ds. send_broadcast_paced open_gateway (b_id sample_broadcast) ''080'' ''t1'' None broadcast_world = (Inr (), w')
     \<and> dispatched w' = dispatched broadcast_world @ ds \<and> distinct (deliveries ''080'' ds)"
proof -
  have "trader_callback ''080'' None" by (simp add: trader_callback_def)
  from broadcast_respects_customers [OF broadcast_world_ready this, of open_gateway "''t1''"] show ?thesis
    by blast
qed

text \<open>
  The closed broadcast reports what happened. It ends as SENT with the number of recipients whose row is
  SENT, and every recipient that was pending is SENT, SKIPPED or OPTED_OUT, or still PENDING when its send
  raised: failed sends are not recorded and the broadcast is closed all the same.
\<close>

theorem broadcast_reports_counts:
  assumes "broadcast_ready bc w" and "trader_callback tp cb"
  shows "\<exists>w' t. send_broadcast_paced gw (b_id bc) tp ptid cb w = (Inr (), w')
     \<and> bc\<lparr>b_status := BC_SENT, b_completed_at := Some t,
          b_sent_count := int (length (filter (\<lambda>r. row_status w' (br_id r) = Some RC_SENT) (pending_recipients (b_id bc) w)))\<rparr>
        \<in> set (broadcasts w')
     \<and> (\<forall>r\<in>set (pending_recipients (b_id bc) w).
          row_status w' (br_id r) \<in> {Some RC_PENDING, Some RC_SENT, Some RC_SKIPPED, Some RC_OPTED_OUT})"
proof -
  obtain n w1 t where run: "send_broadcast_paced gw (b_id bc) tp ptid cb w = (Inr (), w1\<lparr>broadcasts :=
      update_where (\<lambda>b. b_id b = b_id bc) (\<lambda>b. b\<lparr>b_status := BC_SENT, b_sent_count := int n, b_completed_at := Some t\<rparr>) (broadcasts w1)\<rparr>)"
    and bs: "broadcasts w1 = update_where (\<lambda>b. b_id b = b_id bc) (\<lambda>b. b\<lparr>b_status := BC_SENDING\<rparr>) (broadcasts w)"
    and n: "n = length (filter (\<lambda>r. row_status w1 (br_id r) = Some RC_SENT) (pending_recipients (b_id bc) w))"
    and st: "\<forall>r\<in>set (pending_recipients (b_id bc) w).
        row_status w1 (br_id r) \<in> {Some RC_PENDING, Some RC_SENT, Some RC_SKIPPED, Some RC_OPTED_OUT}"
    by (rule broadcast_run [OF assms])
  have same: "row_status (w1\<lparr>broadcasts := b\<rparr>) i = row_status w1 i" for b i by (simp add: row_status_def)
  have mem: "bc \<in> set (broadcasts w)" using assms(1) by (simp add: broadcast_ready_def)
  show ?thesis
    by (rule exI, rule exI [of _ t], intro conjI, rule run)
      (use st mem n in \<open>simp_all add: same bs update_where_def image_image, force\<close>)
qed

theorem broadcast_reports_counts_witness:
  "\<exists>w'. send_broadcast_paced rejecting_gateway (b_id sample_broadcast) ''080'' ''t1'' None broadcast_world = (Inr (), w')"
proof -
  have "trader_callback ''080'' None" by (simp add: trader_callback_def)
  from broadcast_reports_counts [OF broadcast_world_ready this, of rejecting_gateway "''t1''"] show ?thesis
    by blast
qed

end
