(* ===== verification/Followup.thy ===== *)
theory Followup
  imports World Calendar
begin

text \<open>
  Customer interest and its single follow-up (\<open>src/app/modules/marketing/followup.py\<close>): an interest
  event is logged once per customer and product in 48 hours, becomes pending after a delay, and
  leaves the queue when it is followed up or converted into an order.
\<close>

section \<open>Operations\<close>

definition log_interest :: "string \<Rightarrow> string \<Rightarrow> string \<Rightarrow> string option \<Rightarrow> string \<Rightarrow> int option \<Rightarrow> interest_type
    \<Rightarrow> interest_event svc" where
  "log_interest tid tp cp cname product price ty =
     bindA (getA (\<lambda>w. (clock w - 48 * hour_us, interest_events w))) (\<lambda>(cutoff, es).
     bindA (liftE (scalar_one_or_none (take 1 (filter (\<lambda>e. ie_trader_phone e = tp \<and> ie_customer_phone e = cp
        \<and> ie_product_name e = product \<and> ie_created_at e > cutoff) es)))) (\<lambda>existing. case existing of
       Some e \<Rightarrow> ret e
     | None \<Rightarrow> bindA uuid4 (\<lambda>i. bindA (getA clock) (\<lambda>now.
         let e = \<lparr>ie_id = i, ie_tenant_id = tid, ie_trader_phone = tp, ie_customer_phone = cp,
                  ie_customer_name = cname, ie_product_name = product, ie_price = price, ie_event_type = ty,
                  ie_followed_up = False, ie_followed_up_at = None, ie_converted = False,
                  ie_order_id = None, ie_created_at = now\<rparr>
         in thenA (modA (\<lambda>w. w\<lparr>interest_events := interest_events w @ [e]\<rparr>)) (ret e)))))"

definition mark_converted :: "string \<Rightarrow> string \<Rightarrow> string \<Rightarrow> string \<Rightarrow> unit svc" where
  "mark_converted tp cp product oid = modA (\<lambda>w. w\<lparr>interest_events := update_where
     (\<lambda>e. ie_trader_phone e = tp \<and> ie_customer_phone e = cp \<and> ie_product_name e = product \<and> \<not> ie_converted e)
     (\<lambda>e. e\<lparr>ie_converted := True, ie_order_id := Some oid\<rparr>) (interest_events w)\<rparr>)"

definition get_pending_followups :: "int \<Rightarrow> nat \<Rightarrow> world \<Rightarrow> interest_event list" where
  "get_pending_followups min_age_hours limit w = take limit (order_by_asc ie_created_at
     (filter (\<lambda>e. \<not> ie_followed_up e \<and> \<not> ie_converted e \<and> ie_created_at e \<le> clock w - min_age_hours * hour_us)
       (interest_events w)))"

definition mark_followed_up :: "string \<Rightarrow> unit svc" where
  "mark_followed_up eid = modA (\<lambda>w. w\<lparr>interest_events := update_where (\<lambda>e. ie_id e = eid)
     (\<lambda>e. e\<lparr>ie_followed_up := True, ie_followed_up_at := Some (clock w)\<rparr>) (interest_events w)\<rparr>)"

section \<open>Histories\<close>

datatype interest_op =
    LogInterest string string string "string option" string "int option" interest_type
  | MarkConverted string string string string
  | MarkFollowedUp string
  | Wait nat

fun interest_step :: "interest_op \<Rightarrow> world \<Rightarrow> world" where
  "interest_step (LogInterest tid tp cp n product price ty) w = exec (log_interest tid tp cp n product price ty) w"
| "interest_step (MarkConverted tp cp product oid) w = exec (mark_converted tp cp product oid) w"
| "interest_step (MarkFollowedUp eid) w = exec (mark_followed_up eid) w"
| "interest_step (Wait dt) w = w\<lparr>clock := clock w + int dt\<rparr>"

definition interest_key :: "interest_event \<Rightarrow> string \<times> string \<times> string" where
  "interest_key e = (ie_trader_phone e, ie_customer_phone e, ie_product_name e)"

text \<open>
  Events about the same customer and product are at least 48 hours apart, in table order, and none
  lies in the future.
\<close>

definition spaced :: "interest_event list \<Rightarrow> bool" where
  "spaced es \<longleftrightarrow> sorted_wrt (\<lambda>a b. interest_key a = interest_key b \<longrightarrow> ie_created_at a + 48 * hour_us \<le> ie_created_at b) es"

definition interest_inv :: "world \<Rightarrow> bool" where
  "interest_inv w \<longleftrightarrow> spaced (interest_events w) \<and> (\<forall>e\<in>set (interest_events w). ie_created_at e \<le> clock w)"

definition recent :: "world \<Rightarrow> string \<Rightarrow> string \<Rightarrow> string \<Rightarrow> interest_event list" where
  "recent w tp cp product = filter (\<lambda>e. interest_key e = (tp, cp, product) \<and> ie_created_at e > clock w - 48 * hour_us)
     (interest_events w)"

definition new_interest :: "world \<Rightarrow> string \<Rightarrow> string \<Rightarrow> string \<Rightarrow> string option \<Rightarrow> string \<Rightarrow> int option \<Rightarrow> interest_type
    \<Rightarrow> interest_event" where
  "new_interest w tid tp cp cname product price ty = \<lparr>ie_id = uuid_src w (uuid_n w), ie_tenant_id = tid,
     ie_trader_phone = tp, ie_customer_phone = cp, ie_customer_name = cname, ie_product_name = product,
     ie_price = price, ie_event_type = ty, ie_followed_up = False, ie_followed_up_at = None,
     ie_converted = False, ie_order_id = None, ie_created_at = clock w\<rparr>"

lemma log_interest_eq:
  "log_interest tid tp cp cname product price ty w = (case recent w tp cp product of
     e # _ \<Rightarrow> (Inr e, w)
   | [] \<Rightarrow> (Inr (new_interest w tid tp cp cname product price ty),
       w\<lparr>uuid_n := Suc (uuid_n w), interest_events := interest_events w @ [new_interest w tid tp cp cname product price ty]\<rparr>))"
  by (simp add: log_interest_def act_simps scalar_take1 recent_def interest_key_def new_interest_def Let_def
      conj_assoc split: list.splits)

lemma interest_inv_update:
  assumes "\<And>e. p e \<Longrightarrow> interest_key (f e) = interest_key e" and "\<And>e. p e \<Longrightarrow> ie_created_at (f e) = ie_created_at e"
  shows "interest_inv (w\<lparr>interest_events := update_where p f (interest_events w)\<rparr>) \<longleftrightarrow> interest_inv w"
proof -
  have "interest_key (if p e then f e else e) = interest_key e"
    "ie_created_at (if p e then f e else e) = ie_created_at e" for e
    by (simp_all add: assms)
  then have "spaced (update_where p f es) = spaced es"
    "(\<forall>e\<in>set (update_where p f es). ie_created_at e \<le> c) = (\<forall>e\<in>set es. ie_created_at e \<le> c)" for es c
    by (simp_all only: spaced_def update_where_def sorted_wrt_map set_map ball_simps)
  then show ?thesis by (simp add: interest_inv_def)
qed

lemma interest_step_inv: "interest_inv w \<Longrightarrow> interest_inv (interest_step op w)"
proof (induction op w rule: interest_step.induct)
  case (1 tid tp cp n product price ty w)
  show ?case
  proof (cases "recent w tp cp product")
    case Nil
    then have "\<forall>e\<in>set (interest_events w). interest_key e = (tp, cp, product) \<longrightarrow> ie_created_at e \<le> clock w - 48 * hour_us"
      by (auto simp: recent_def filter_empty_conv)
    with 1 Nil show ?thesis
      by (auto simp: exec_def log_interest_eq interest_inv_def spaced_def sorted_wrt_append new_interest_def interest_key_def)
  qed (use 1 in \<open>simp add: exec_def log_interest_eq\<close>)
next
  case (2 tp cp product oid w)
  then show ?case
    by (simp add: exec_def mark_converted_def interest_inv_update interest_key_def)
next
  case (3 eid w)
  then show ?case
    by (simp add: exec_def mark_followed_up_def interest_inv_update interest_key_def)
next
  case (4 dt w)
  then show ?case by (auto simp: interest_inv_def)
qed

section \<open>Properties\<close>

text \<open>
  A customer's interest in a product is logged at most once in 48 hours, whatever happens in between:
  over any history of interest, conversions, follow-ups and waiting, two events about the same trader,
  customer and product are at least 48 hours apart.
\<close>

theorem interest_logged_once_per_48h:
  assumes "interest_inv w"
    and "i < j" and "j < length (interest_events (fold interest_step ops w))"
    and "interest_key (interest_events (fold interest_step ops w) ! i) = interest_key (interest_events (fold interest_step ops w) ! j)"
  shows "ie_created_at (interest_events (fold interest_step ops w) ! i) + 48 * hour_us
     \<le> ie_created_at (interest_events (fold interest_step ops w) ! j)"
proof -
  have "interest_inv (fold interest_step ops w)"
    using assms(1) by (induction ops arbitrary: w) (simp_all add: interest_step_inv)
  with assms(2-4) show ?thesis
    by (auto simp: interest_inv_def spaced_def sorted_wrt_iff_nth_less)
qed

definition interest_history :: "interest_op list" where
  "interest_history = [LogInterest ''t'' ''080'' ''081'' None ''Rice'' None PRICE_INQUIRY, Wait (nat (50 * hour_us)),
     LogInterest ''t'' ''080'' ''081'' None ''Rice'' None PRICE_INQUIRY]"

lemma interest_history_run:
  "interest_events (fold interest_step interest_history empty_world) =
     [new_interest empty_world ''t'' ''080'' ''081'' None ''Rice'' None PRICE_INQUIRY,
      (new_interest empty_world ''t'' ''080'' ''081'' None ''Rice'' None PRICE_INQUIRY)\<lparr>ie_id := ''u'', ie_created_at := 50 * hour_us\<rparr>]"
  by (simp add: interest_history_def exec_def log_interest_eq recent_def new_interest_def interest_key_def
      empty_world_def hour_us_def)

theorem interest_logged_once_per_48h_witness:
  "ie_created_at (interest_events (fold interest_step interest_history empty_world) ! 0) + 48 * hour_us
     \<le> ie_created_at (interest_events (fold interest_step interest_history empty_world) ! 1)"
proof -
  have inv: "interest_inv empty_world"
    by (simp add: interest_inv_def spaced_def empty_world_def)
  show ?thesis
    by (rule interest_logged_once_per_48h [OF inv])
      (simp_all add: interest_history_run interest_key_def new_interest_def)
qed

lemma followed_up_stays:
  assumes "\<forall>e\<in>set (interest_events w). ie_id e = eid \<longrightarrow> ie_followed_up e"
    and "\<forall>n\<ge>uuid_n w. uuid_src w n \<noteq> eid"
  shows "(\<forall>e\<in>set (interest_events (interest_step op w)). ie_id e = eid \<longrightarrow> ie_followed_up e)
     \<and> (\<forall>n\<ge>uuid_n (interest_step op w). uuid_src (interest_step op w) n \<noteq> eid)"
  using assms
proof (induction op w rule: interest_step.induct)
  case (1 tid tp cp n product price ty w)
  then show ?case
    by (cases "recent w tp cp product") (auto simp: exec_def log_interest_eq new_interest_def)
qed (auto simp: exec_def mark_converted_def mark_followed_up_def set_update_where)

lemma pending_sound:
  assumes "e \<in> set (get_pending_followups h l w)"
  shows "\<not> ie_followed_up e \<and> \<not> ie_converted e \<and> ie_created_at e + h * hour_us \<le> clock w \<and> e \<in> set (interest_events w)"
proof -
  have "e \<in> set (filter (\<lambda>e. \<not> ie_followed_up e \<and> \<not> ie_converted e
      \<and> ie_created_at e \<le> clock w - h * hour_us) (interest_events w))"
    using in_set_takeD [OF assms [unfolded get_pending_followups_def]] by simp
  then show ?thesis by simp
qed

lemma followed_up_stays_fold:
  assumes "\<forall>e\<in>set (interest_events w). ie_id e = eid \<longrightarrow> ie_followed_up e"
    and "\<forall>n\<ge>uuid_n w. uuid_src w n \<noteq> eid"
  shows "\<forall>e\<in>set (interest_events (fold interest_step ops w)). ie_id e = eid \<longrightarrow> ie_followed_up e"
  using assms
proof (induction ops arbitrary: w)
  case (Cons op ops)
  from Cons.IH [of "interest_step op w"] followed_up_stays [OF Cons.prems, of op] show ?case by simp
qed simp

lemma sorted_take_least:
  fixes k :: "'a \<Rightarrow> int"
  assumes "sorted (map k xs)" and "x \<in> set (take l xs)" and "y \<in> set xs" and "y \<notin> set (take l xs)"
  shows "k x \<le> k y"
proof -
  from assms(3,4) have "y \<in> set (drop l xs)" by (metis Un_iff append_take_drop_id set_append)
  with assms(1,2) show ?thesis
    by (metis (no_types, lifting) append_take_drop_id sorted_map sorted_wrt_append)
qed

text \<open>
  What is pending is old enough, oldest first, and is followed up at most once. The events returned
  are neither followed up nor converted and have the required age, they come in order of creation, an
  older qualifying event is never left out for a younger one, and once an event is marked followed up it
  is not returned again after any history.
\<close>

theorem pending_followups_spec:
  assumes "\<forall>n\<ge>uuid_n w. uuid_src w n \<noteq> eid"
  shows "(\<forall>e\<in>set (get_pending_followups h l w). \<not> ie_followed_up e \<and> \<not> ie_converted e
            \<and> ie_created_at e + h * hour_us \<le> clock w \<and> e \<in> set (interest_events w))
     \<and> sorted (map ie_created_at (get_pending_followups h l w))
     \<and> (\<forall>e\<in>set (interest_events w). \<not> ie_followed_up e \<and> \<not> ie_converted e \<and> ie_created_at e + h * hour_us \<le> clock w
          \<and> e \<notin> set (get_pending_followups h l w)
          \<longrightarrow> (\<forall>e'\<in>set (get_pending_followups h l w). ie_created_at e' \<le> ie_created_at e))
     \<and> (\<forall>ops. eid \<notin> ie_id ` set (get_pending_followups h l (fold interest_step ops (interest_step (MarkFollowedUp eid) w))))"
proof (intro conjI)
  show "\<forall>e\<in>set (get_pending_followups h l w). \<not> ie_followed_up e \<and> \<not> ie_converted e
            \<and> ie_created_at e + h * hour_us \<le> clock w \<and> e \<in> set (interest_events w)"
    using pending_sound by blast
  show "sorted (map ie_created_at (get_pending_followups h l w))"
    by (simp add: get_pending_followups_def order_by_asc_def take_map [symmetric] sorted_wrt_take)
  show "\<forall>e\<in>set (interest_events w). \<not> ie_followed_up e \<and> \<not> ie_converted e \<and> ie_created_at e + h * hour_us \<le> clock w
          \<and> e \<notin> set (get_pending_followups h l w)
          \<longrightarrow> (\<forall>e'\<in>set (get_pending_followups h l w). ie_created_at e' \<le> ie_created_at e)"
    unfolding get_pending_followups_def order_by_asc_def
    by (intro ballI impI, rule sorted_take_least [OF sorted_sort_key [of ie_created_at]], assumption) auto
  show "\<forall>ops. eid \<notin> ie_id ` set (get_pending_followups h l (fold interest_step ops (interest_step (MarkFollowedUp eid) w)))"
  proof
    fix ops
    define w' where "w' = interest_step (MarkFollowedUp eid) w"
    let ?w = w'
    have "\<forall>e\<in>set (interest_events ?w). ie_id e = eid \<longrightarrow> ie_followed_up e"
      by (simp add: w'_def exec_def mark_followed_up_def ball_update_where)
    moreover have "\<forall>n\<ge>uuid_n ?w. uuid_src ?w n \<noteq> eid"
      using assms by (simp add: w'_def exec_def mark_followed_up_def)
    ultimately have "\<forall>e\<in>set (interest_events (fold interest_step ops ?w)). ie_id e = eid \<longrightarrow> ie_followed_up e"
      using followed_up_stays_fold [of ?w eid ops] by blast
    then show "eid \<notin> ie_id ` set (get_pending_followups h l (fold interest_step ops (interest_step (MarkFollowedUp eid) w)))"
      unfolding w'_def [symmetric] using pending_sound by blast
  qed
qed

theorem pending_followups_spec_witness:
  "''x'' \<notin> ie_id ` set (get_pending_followups 24 50 (fold interest_step [Wait 5] (interest_step (MarkFollowedUp ''x'')
     (empty_world\<lparr>interest_events := [new_interest empty_world ''t'' ''080'' ''081'' None ''Rice'' None PRICE_INQUIRY\<lparr>ie_id := ''x''\<rparr>]\<rparr>))))"
proof -
  let ?w = "empty_world\<lparr>interest_events := [new_interest empty_world ''t'' ''080'' ''081'' None ''Rice'' None PRICE_INQUIRY\<lparr>ie_id := ''x''\<rparr>]\<rparr>"
  have "\<forall>n\<ge>uuid_n ?w. uuid_src ?w n \<noteq> ''x''"
    using replicate_neq_hd [of "''x''" "CHR ''u''"] by (simp add: empty_world_def)
  from pending_followups_spec [OF this, of 24 50] show ?thesis by blast
qed

end
