(* ===== verification/Segments.thy ===== *)
theory Segments
  imports Customer_List Pystring
begin

text \<open>
  The nightly segment computation of \<open>marketing/segments.py\<close>: behaviour, interest and timing tags of
  one customer from their orders, and the pass over all customers. Ratios that Python computes in
  floating point are compared here as exact fractions.
\<close>

section \<open>Model\<close>

definition lapsed_since :: "timestamp \<Rightarrow> timestamp option \<Rightarrow> bool" where
  "lapsed_since now lst = (case lst of None \<Rightarrow> False | Some d \<Rightarrow> days_between now d > 90)"

definition compute_behaviour_segment ::
  "int \<Rightarrow> decimal \<Rightarrow> timestamp option \<Rightarrow> bool \<Rightarrow> timestamp \<Rightarrow> string" where
  "compute_behaviour_segment total_orders total_spend last_order_date has_confirmed_unpaid now =
     (if total_orders = 0 then (if has_confirmed_unpaid then ''abandoned_cart'' else ''new_lead'')
      else if total_orders \<ge> 5 \<or> total_spend \<ge> 200000 then
        (if lapsed_since now last_order_date then ''lapsed'' else ''vip'')
      else if total_orders \<ge> 2 then
        (if lapsed_since now last_order_date then ''lapsed'' else ''repeat_buyer'')
      else (if lapsed_since now last_order_date then ''lapsed'' else ''paid_once''))"

definition compute_interest_segments :: "string list \<Rightarrow> int \<Rightarrow> decimal \<Rightarrow> decimal \<Rightarrow> string list" where
  "compute_interest_segments product_names negotiation_count avg_order_value trader_avg_order_value =
     (if length (remdups (filter (\<lambda>n. n \<noteq> []) (map (\<lambda>n. lower (strip n)) product_names))) \<ge> 5
      then [''diverse_buyer''] else [])
     @ (if negotiation_count \<ge> 2 then [''price_sensitive''] else [])
     @ (if negotiation_count = 0 \<and> avg_order_value > 0 \<and> trader_avg_order_value > 0
           \<and> avg_order_value \<ge> trader_avg_order_value * (3 / 2)
        then [''premium''] else [])"

text \<open>The positive gaps, in whole days, between consecutive dates.\<close>

fun gaps :: "timestamp list \<Rightarrow> int list" where
  "gaps (a # b # ds) = (let d = days_between b a in (if d > 0 then [d] else []) @ gaps (b # ds))"
| "gaps _ = []"

definition compute_timing_segments :: "timestamp list \<Rightarrow> string list" where
  "compute_timing_segments order_dates =
     (if length order_dates < 2 then []
      else let ds = sort order_dates;
               n = int (length ds);
               weekend = int (length (filter (\<lambda>d. weekday d \<in> {4, 5, 6}) ds));
               payday = int (length (filter (\<lambda>d. day_of_month d \<ge> 25 \<or> day_of_month d \<le> 5) ds));
               intervals = gaps ds
           in (if 10 * weekend > 6 * n then [''weekend''] else [])
              @ (if 2 * payday > n then [''payday''] else [])
              @ (if intervals = [] then []
                 else if sum_list intervals \<le> 10 * int (length intervals) then [''weekly'']
                 else if sum_list intervals \<le> 40 * int (length intervals) then [''monthly'']
                 else []))"

definition amount_or_zero :: "order \<Rightarrow> decimal" where
  "amount_or_zero x = (case o_amount x of None \<Rightarrow> 0 | Some a \<Rightarrow> a)"

text \<open>\<open>SELECT avg(amount)\<close> over the trader's paid orders with an amount; 0 when there is none.\<close>

definition trader_average :: "string \<Rightarrow> world \<Rightarrow> decimal" where
  "trader_average tp w =
     (let xs = filter (\<lambda>x. o_trader_phone x = Some tp \<and> o_state x = PAID \<and> o_amount x \<noteq> None) (orders w)
      in if xs = [] then 0 else sum_list (map amount_or_zero xs) / of_nat (length xs))"

definition compute_segments_for_customer :: "world \<Rightarrow> customer_list_entry \<Rightarrow> timestamp \<Rightarrow> string list" where
  "compute_segments_for_customer w entry now =
     (let os = order_by_desc o_created_at
             (filter (\<lambda>x. o_trader_phone x = Some (cl_trader_phone entry)
                          \<and> o_customer_phone x = Some (cl_customer_phone entry)) (orders w));
          has_confirmed_unpaid = (\<exists>x\<in>set os. o_state x = CONFIRMED);
          paid_orders = filter (\<lambda>x. o_state x = PAID) os;
          order_ids = map o_id paid_orders;
          product_names = map oi_product_name (filter (\<lambda>it. oi_order_id it \<in> set order_ids) (order_items w));
          negotiation_count = 0;
          avg_order_value = (if paid_orders = [] then 0
             else sum_list (map amount_or_zero paid_orders) / of_nat (length paid_orders))
      in [compute_behaviour_segment (cl_total_orders entry) (cl_total_spend entry)
            (cl_last_order_date entry) has_confirmed_unpaid now]
         @ compute_interest_segments product_names negotiation_count avg_order_value
             (trader_average (cl_trader_phone entry) w)
         @ compute_timing_segments (map o_created_at paid_orders))"

definition recompute_all_segments :: "nat svc" where
  "recompute_all_segments = (\<lambda>w.
     (Inr (length (filter (\<lambda>e. \<not> cl_opted_out e) (customer_list w))),
      w\<lparr>customer_list := update_where (\<lambda>e. \<not> cl_opted_out e)
          (\<lambda>e. e\<lparr>cl_segments := compute_segments_for_customer w e (clock w),
                 cl_segments_updated_at := Some (clock w)\<rparr>) (customer_list w)\<rparr>))"

section \<open>Lemmas\<close>

definition BEHAVIOUR :: "string list" where
  "BEHAVIOUR = [''new_lead'', ''abandoned_cart'', ''paid_once'', ''repeat_buyer'', ''vip'', ''lapsed'']"

text \<open>The interest and timing tags the computation can assign.\<close>

definition INTEREST :: "string list" where
  "INTEREST = [''diverse_buyer'', ''premium'']"

definition TIMING :: "string list" where
  "TIMING = [''weekend'', ''payday'', ''weekly'', ''monthly'']"

definition EXTRA :: "string list" where
  "EXTRA = INTEREST @ TIMING"

lemma interest_timing_disjoint: "set INTEREST \<inter> set TIMING = {}"
  by (simp add: INTEREST_def TIMING_def)

lemma behaviour_extra_disjoint: "t \<in> set BEHAVIOUR \<Longrightarrow> t \<notin> set EXTRA"
  by (auto simp: BEHAVIOUR_def EXTRA_def INTEREST_def TIMING_def)

lemma behaviour_tag: "compute_behaviour_segment n s l u now \<in> set BEHAVIOUR"
  by (simp add: compute_behaviour_segment_def BEHAVIOUR_def)

lemma interest_exclusive:
  "\<not> (''premium'' \<in> set (compute_interest_segments ns k a t)
      \<and> ''price_sensitive'' \<in> set (compute_interest_segments ns k a t))"
  by (simp add: compute_interest_segments_def)

text \<open>Interest tags (no negotiation is ever counted) followed by timing tags.\<close>

lemma interest_tags_all: "list_all (\<lambda>x. x \<in> set INTEREST) (compute_interest_segments ns 0 a t)"
  by (simp add: compute_interest_segments_def INTEREST_def)

lemma timing_tags_all: "list_all (\<lambda>x. x \<in> set TIMING) (compute_timing_segments ds)"
  by (simp add: compute_timing_segments_def TIMING_def Let_def)

lemma tags_distinct: "distinct (compute_interest_segments ns k a t)" "distinct (compute_timing_segments ds)"
  by (simp_all add: compute_interest_segments_def compute_timing_segments_def Let_def)

lemma extra_tags:
  "set (compute_interest_segments ns 0 a t @ compute_timing_segments ds) \<subseteq> set EXTRA
   \<and> distinct (compute_interest_segments ns 0 a t @ compute_timing_segments ds)"
  using interest_tags_all [of ns a t] timing_tags_all [of ds] tags_distinct interest_timing_disjoint
  unfolding set_append distinct_append EXTRA_def list_all_iff by blast

lemma segments_shape:
  obtains t ts where "compute_segments_for_customer w e now = t # ts"
    and "t \<in> set BEHAVIOUR" and "set ts \<subseteq> set EXTRA" and "distinct ts"
  using extra_tags behaviour_tag unfolding compute_segments_for_customer_def Let_def
  by (metis append_Cons append_Nil)

lemma segments_distinct: "distinct (compute_segments_for_customer w e now)"
  by (rule segments_shape [of w e now]) (auto dest: behaviour_extra_disjoint)

lemma segments_tags: "set (compute_segments_for_customer w e now) \<subseteq> set BEHAVIOUR \<union> set EXTRA"
  by (rule segments_shape [of w e now]) auto

lemma gaps_pos: "d \<in> set (gaps ds) \<Longrightarrow> 0 < d"
  by (induction ds rule: gaps.induct) (auto simp: Let_def split: if_splits)

section \<open>Properties\<close>

text \<open>
  The behaviour tag is a function of the purchase history with one reading: no purchase means
  new lead (or abandoned cart when a confirmed order is unpaid); otherwise a customer silent for more
  than 90 days is lapsed whatever they spent; otherwise five orders or 200000 spent make a VIP, two
  orders a repeat buyer, one order a one-time buyer. For a customer who has bought and has not
  lapsed it agrees with the tag shown before the nightly computation has run.
\<close>

theorem behaviour_segment_spec:
  assumes "0 \<le> n"
  shows "compute_behaviour_segment n s lst u now =
     (if n = 0 then (if u then ''abandoned_cart'' else ''new_lead'')
      else if \<exists>d. lst = Some d \<and> now - d \<ge> 91 * day_us then ''lapsed''
      else if n \<ge> 5 \<or> s \<ge> 200000 then ''vip''
      else if n \<ge> 2 then ''repeat_buyer'' else ''paid_once'')
     \<and> (cl_total_orders e = n \<and> cl_total_spend e = s \<and> 0 < n \<and> \<not> lapsed_since now lst \<longrightarrow>
          compute_behaviour_segment n s lst u now = fallback_behaviour e)"
proof -
  have "lapsed_since now lst \<longleftrightarrow> (\<exists>d. lst = Some d \<and> now - d \<ge> 91 * day_us)"
    by (cases lst) (auto simp: lapsed_since_def days_between_def day_us_def)
  then show ?thesis
    using assms by (auto simp: compute_behaviour_segment_def fallback_behaviour_def)
qed

theorem behaviour_segment_spec_witness:
  "compute_behaviour_segment 6 1000 (Some 0) False (100 * day_us) = ''lapsed''
   \<and> compute_behaviour_segment 1 250000 (Some 0) False (10 * day_us) = ''vip''"
proof -
  have n: "(0::int) \<le> 6" "(0::int) \<le> 1" by simp_all
  show ?thesis
    using behaviour_segment_spec [OF n(1), of 1000 "Some 0" False "100 * day_us" undefined]
      behaviour_segment_spec [OF n(2), of 250000 "Some 0" False "10 * day_us" undefined]
    by (simp add: day_us_def)
qed

text \<open>
  After the nightly pass every active customer carries exactly one behaviour tag, placed first,
  followed by interest and timing tags without repetition; opted-out customers and everybody's
  purchase aggregates are untouched. Two of the tags the module documents, \<open>price_sensitive\<close> and
  \<open>browsed_only\<close>, are never assigned.
\<close>

theorem recompute_segments_spec:
  assumes "e' \<in> set (customer_list (exec recompute_all_segments w))"
  shows "\<exists>e\<in>set (customer_list w).
      (cl_opted_out e \<longrightarrow> e' = e)
    \<and> (\<not> cl_opted_out e \<longrightarrow>
        distinct (cl_segments e') \<and> cl_segments e' \<noteq> []
        \<and> filter (\<lambda>t. t \<in> set BEHAVIOUR) (cl_segments e') = [hd (cl_segments e')]
        \<and> ''price_sensitive'' \<notin> set (cl_segments e') \<and> ''browsed_only'' \<notin> set (cl_segments e'))
    \<and> cl_key e' = cl_key e \<and> cl_total_orders e' = cl_total_orders e \<and> cl_total_spend e' = cl_total_spend e"
proof -
  obtain e where e: "e \<in> set (customer_list w)"
    and e': "e' = (if cl_opted_out e then e else e\<lparr>cl_segments := compute_segments_for_customer w e (clock w),
                 cl_segments_updated_at := Some (clock w)\<rparr>)"
    using assms by (auto simp: exec_def recompute_all_segments_def set_update_where)
  let ?s = "compute_segments_for_customer w e (clock w)"
  obtain t ts where s: "?s = t # ts" and t: "t \<in> set BEHAVIOUR" and ts: "set ts \<subseteq> set EXTRA"
    by (rule segments_shape)
  have "filter (\<lambda>t. t \<in> set BEHAVIOUR) ts = []"
    using ts behaviour_extra_disjoint by (auto simp: filter_empty_conv)
  moreover have "''price_sensitive'' \<notin> set BEHAVIOUR \<union> set EXTRA" "''browsed_only'' \<notin> set BEHAVIOUR \<union> set EXTRA"
    by (simp_all add: BEHAVIOUR_def EXTRA_def INTEREST_def TIMING_def)
  then have "''price_sensitive'' \<notin> set ?s" "''browsed_only'' \<notin> set ?s"
    using segments_tags [of w e "clock w"] by auto
  ultimately have "distinct ?s \<and> ?s \<noteq> [] \<and> filter (\<lambda>t. t \<in> set BEHAVIOUR) ?s = [hd ?s]
      \<and> ''price_sensitive'' \<notin> set ?s \<and> ''browsed_only'' \<notin> set ?s"
    using segments_distinct [of w e "clock w"] s t by simp
  then show ?thesis
    using e by (intro bexI [of _ e]) (simp_all add: e' cl_key_def)
qed

theorem recompute_segments_spec_witness:
  "\<exists>e'. e' \<in> set (customer_list (exec recompute_all_segments one_customer)) \<and> cl_segments e' \<noteq> []
     \<and> cl_key e' = (''080'', ''234'')"
proof -
  have c: "map cl_key (customer_list one_customer) = [(''080'', ''234'')]"
    "\<forall>e\<in>set (customer_list one_customer). \<not> cl_opted_out e"
    by (simp_all add: one_customer_def record_entry_def exec_def upsert_customer_def find_entry_def bindA_apply
        empty_world_def new_entry_def Let_def cl_key_def)
  then obtain e' where e': "e' \<in> set (customer_list (exec recompute_all_segments one_customer))"
    by (auto simp: exec_def recompute_all_segments_def set_update_where)
  from recompute_segments_spec [OF e'] obtain e where e: "e \<in> set (customer_list one_customer)"
    and "\<not> cl_opted_out e \<longrightarrow> cl_segments e' \<noteq> []" and k: "cl_key e' = cl_key e" by blast
  moreover have "cl_key e \<in> set (map cl_key (customer_list one_customer))" using e by simp
  ultimately have "cl_segments e' \<noteq> [] \<and> cl_key e' = (''080'', ''234'')" using c by simp
  with e' show ?thesis by blast
qed

end
