(* ===== verification/Order_State_Machine.thy ===== *)
theory Order_State_Machine
  imports World
begin

text \<open>
  The order state machine of \<open>orders/state_machine.py\<close>: the transition table, the check every state
  change goes through, and the transition graph it admits as a step relation with its reachable
  states.
\<close>

section \<open>Model\<close>

text \<open>\<open>_VALID_TRANSITIONS\<close>.\<close>

fun VALID_TRANSITIONS :: "order_state \<Rightarrow> order_state list" where
  "VALID_TRANSITIONS INQUIRY = [CONFIRMED, FAILED]"
| "VALID_TRANSITIONS CONFIRMED = [PAID, FAILED]"
| "VALID_TRANSITIONS PAID = []"
| "VALID_TRANSITIONS FAILED = []"

text \<open>\<open>OrderState(value)\<close>: the enum member with this value, or a \<open>ValueError\<close>.\<close>

definition OrderState :: "string \<Rightarrow> error + order_state" where
  "OrderState s =
     (if s = ''inquiry'' then Inr INQUIRY
      else if s = ''confirmed'' then Inr CONFIRMED
      else if s = ''paid'' then Inr PAID
      else if s = ''failed'' then Inr FAILED
      else Inl (ValueError s))"

record invalid_transition =
  it_order_id :: string
  it_from_state :: string
  it_to_state :: string

definition InvalidTransitionError :: "string \<Rightarrow> string \<Rightarrow> string \<Rightarrow> invalid_transition" where
  "InvalidTransitionError oid from to = \<lparr>it_order_id = oid, it_from_state = from, it_to_state = to\<rparr>"

definition validate_transition :: "string \<Rightarrow> string \<Rightarrow> string \<Rightarrow> invalid_transition + unit" where
  "validate_transition oid current new =
     (case (OrderState current, OrderState new) of
        (Inr from_state, Inr to_state) \<Rightarrow>
          if from_state = to_state then Inl (InvalidTransitionError oid current new)
          else if to_state \<notin> set (VALID_TRANSITIONS from_state)
          then Inl (InvalidTransitionError oid current new)
          else Inr ()
      | _ \<Rightarrow> Inl (InvalidTransitionError oid current new))"

section \<open>The transition graph\<close>

text \<open>The documented contract: one rule per arrow of the module's docstring.\<close>

inductive transition :: "order_state \<Rightarrow> order_state \<Rightarrow> bool" where
  confirm: "transition INQUIRY CONFIRMED"
| reject: "transition INQUIRY FAILED"
| pay: "transition CONFIRMED PAID"
| cancel: "transition CONFIRMED FAILED"

inductive_simps transition_from_PAID: "transition PAID s"
inductive_simps transition_from_FAILED: "transition FAILED s"
inductive_simps transition_from_INQUIRY: "transition INQUIRY s"
inductive_simps transition_from_CONFIRMED: "transition CONFIRMED s"

lemmas transition_iffs = transition_from_PAID transition_from_FAILED transition_from_INQUIRY
  transition_from_CONFIRMED

code_pred transition .

definition terminal :: "order_state \<Rightarrow> bool" where
  "terminal s \<longleftrightarrow> s = PAID \<or> s = FAILED"

lemma transition_table: "transition s t \<longleftrightarrow> t \<in> set (VALID_TRANSITIONS s)"
  by (cases s) (auto simp: transition_iffs)

lemma transition_irrefl: "\<not> transition s s"
  by (cases s) (auto simp: transition_iffs)

lemma terminal_iff_stuck: "terminal s \<longleftrightarrow> (\<forall>t. \<not> transition s t)"
  by (cases s) (auto simp: terminal_def transition_iffs)

lemma OrderState_value [simp]: "OrderState (order_state_value s) = Inr s"
  by (cases s) (simp_all add: OrderState_def)

lemma OrderState_Inr: "OrderState v = Inr s \<longleftrightarrow> v = order_state_value s"
  by (cases s) (auto simp: OrderState_def split: if_splits)

lemma order_state_value_inj: "order_state_value s = order_state_value t \<longleftrightarrow> s = t"
  by (metis OrderState_value sum.inject(2))

text \<open>On values of the enum, the check accepts exactly the arrows of the graph.\<close>

lemma validate_transition_value:
  "validate_transition oid (order_state_value s) (order_state_value t) =
     (if transition s t then Inr ()
      else Inl (InvalidTransitionError oid (order_state_value s) (order_state_value t)))"
  using transition_irrefl [of s] by (auto simp: validate_transition_def transition_table)

lemma validate_transition_Inr:
  "validate_transition oid cur new = Inr () \<longleftrightarrow>
     (\<exists>s t. cur = order_state_value s \<and> new = order_state_value t \<and> transition s t)"
proof
  assume "validate_transition oid cur new = Inr ()"
  then obtain s t where "OrderState cur = Inr s" "OrderState new = Inr t"
    "t \<in> set (VALID_TRANSITIONS s)"
    by (auto simp: validate_transition_def split: sum.splits if_splits)
  then show "\<exists>s t. cur = order_state_value s \<and> new = order_state_value t \<and> transition s t"
    by (auto simp: OrderState_Inr transition_table)
qed (auto simp: validate_transition_value)

text \<open>A life of an order: the states it goes through, from creation on.\<close>

fun lifeline :: "order_state list \<Rightarrow> bool" where
  "lifeline [] = False"
| "lifeline [s] = (s = INQUIRY)"
| "lifeline (t # s # ss) = (transition s t \<and> lifeline (s # ss))"

text \<open>Every transition moves forward in this measure.\<close>

fun rank :: "order_state \<Rightarrow> nat" where
  "rank INQUIRY = 0"
| "rank CONFIRMED = 1"
| "rank PAID = 2"
| "rank FAILED = 2"

lemma transition_rank: "transition s t \<Longrightarrow> rank s < rank t"
  by (induction rule: transition.induct) auto

lemma rank_le_2: "rank s \<le> 2"
  by (cases s) auto

lemma lifeline_length: "lifeline (s # ss) \<Longrightarrow> length ss \<le> rank s"
  by (induction ss arbitrary: s) (auto dest: transition_rank, fastforce dest: transition_rank)

section \<open>Properties\<close>

text \<open>
  The check accepts a pair of state strings exactly when they are the values of two states
  joined by an arrow of the documented graph, and every refusal (unknown state, no-op, skipped
  state, terminal source) reports the order and the two strings it was given.
\<close>

theorem validate_transition_spec:
  "validate_transition oid cur new =
     (if \<exists>s t. cur = order_state_value s \<and> new = order_state_value t \<and> transition s t
      then Inr ()
      else Inl \<lparr>it_order_id = oid, it_from_state = cur, it_to_state = new\<rparr>)"
proof (cases "validate_transition oid cur new")
  case (Inl e)
  then have "e = InvalidTransitionError oid cur new"
    by (auto simp: validate_transition_def split: sum.splits if_splits)
  with Inl show ?thesis
    using validate_transition_Inr [of oid cur new] by (simp add: InvalidTransitionError_def)
next
  case (Inr u)
  then show ?thesis using validate_transition_Inr [of oid cur new] by simp
qed

text \<open>
  An order's life is short and ends for good: any sequence of states each accepted by the check
  after the previous one, starting at INQUIRY, has at most three states, and once PAID or FAILED is
  reached no further state is accepted.
\<close>

theorem lifeline_bounded:
  assumes "lifeline (s # ss)"
  shows "length (s # ss) \<le> 3 \<and>
     (terminal s \<longrightarrow> validate_transition oid (order_state_value s) v \<noteq> Inr ())"
proof
  show "length (s # ss) \<le> 3"
    using lifeline_length [OF assms] rank_le_2 [of s] by simp
  show "terminal s \<longrightarrow> validate_transition oid (order_state_value s) v \<noteq> Inr ()"
    by (auto simp: validate_transition_Inr order_state_value_inj terminal_iff_stuck)
qed

theorem lifeline_bounded_witness:
  "length [PAID, CONFIRMED, INQUIRY] \<le> 3 \<and>
     validate_transition ''o1'' (order_state_value PAID) ''confirmed'' \<noteq> Inr ()"
proof -
  have l: "lifeline [PAID, CONFIRMED, INQUIRY]" by (simp add: transition_iffs)
  show ?thesis
    using lifeline_bounded [OF l, of "''o1''" "''confirmed''"] by (simp add: terminal_def)
qed

end
