(* ===== verification/Order_Repository.thy ===== *)
theory Order_Repository
  imports Order_State_Machine Calendar
begin

text \<open>
  The data-access layer of orders (\<open>orders/repository.py\<close>), one definition per method, and what the
  services rely on: lookups are scoped and unique, writes touch one order, pages tile the filtered
  list, and a trader's orders move between tenants together with their conversations.
\<close>

section \<open>Model\<close>

definition OPEN_STATES :: "order_state list" where
  "OPEN_STATES = [INQUIRY, CONFIRMED]"

text \<open>\<open>if tenant_id: \<dots>.where(tenant_id == \<dots>)\<close>: \<open>None\<close> and the empty string leave a query unscoped.\<close>

definition scoped :: "string option \<Rightarrow> string \<Rightarrow> bool" where
  "scoped tid t = (case tid of None \<Rightarrow> True | Some x \<Rightarrow> x = [] \<or> x = t)"

definition get_by_id :: "string \<Rightarrow> string option \<Rightarrow> order option svc" where
  "get_by_id oid tid = bindA (getA orders) (\<lambda>os.
     liftE (scalar_one_or_none (filter (\<lambda>x. o_id x = oid \<and> scoped tid (o_tenant_id x)) os)))"

definition get_open_order_for_conversation :: "string \<Rightarrow> string \<Rightarrow> order option svc" where
  "get_open_order_for_conversation conv tid = bindA (getA orders) (\<lambda>os.
     liftE (scalar_one_or_none (take 1 (order_by_desc o_created_at
       (filter (\<lambda>x. o_conversation_id x = conv \<and> o_tenant_id x = tid
                    \<and> o_state x \<in> set OPEN_STATES) os)))))"

text \<open>SQL \<open>LIKE\<close> with the wildcards \<open>%\<close> and \<open>_\<close>.\<close>

definition sql_like :: "string \<Rightarrow> string \<Rightarrow> bool" where
  "sql_like = wild_match CHR ''%'' CHR ''_''"

definition get_by_ref_prefix :: "string \<Rightarrow> string option \<Rightarrow> order option svc" where
  "get_by_ref_prefix ref tid = bindA (getA orders) (\<lambda>os.
     liftE (scalar_one_or_none (take 1
       (filter (\<lambda>x. sql_like (ref @ ''%'') (o_id x) \<and> scoped tid (o_tenant_id x)) os))))"

definition get_open_order_by_customer_phone :: "string \<Rightarrow> string \<Rightarrow> order option svc" where
  "get_open_order_by_customer_phone phone tid = bindA (getA orders) (\<lambda>os.
     liftE (scalar_one_or_none (take 1 (order_by_desc o_created_at
       (filter (\<lambda>x. o_customer_phone x = Some phone \<and> o_tenant_id x = tid
                    \<and> o_state x \<in> set OPEN_STATES) os)))))"

definition create_order_row ::
  "string \<Rightarrow> string \<Rightarrow> string \<Rightarrow> string option \<Rightarrow> string option \<Rightarrow> string option \<Rightarrow> string option
   \<Rightarrow> decimal option \<Rightarrow> string \<Rightarrow> timestamp \<Rightarrow> order" where
  "create_order_row i tid conv cid cphone cname tphone amt cur now =
     \<lparr>o_id = i, o_tenant_id = tid, o_conversation_id = conv, o_customer_id = cid,
      o_customer_phone = cphone, o_customer_name = cname, o_trader_phone = tphone,
      o_state = INQUIRY, o_amount = amt, o_currency = cur, o_is_credit = False,
      o_reminder_sent_at = None, o_created_at = now\<rparr>"

definition repo_create_order ::
  "string \<Rightarrow> string \<Rightarrow> string option \<Rightarrow> string option \<Rightarrow> string option \<Rightarrow> string option
   \<Rightarrow> decimal option \<Rightarrow> string \<Rightarrow> order svc" where
  "repo_create_order tid conv cid cphone cname tphone amt cur = bindA uuid4 (\<lambda>i w.
     let row = create_order_row i tid conv cid cphone cname tphone amt cur (clock w)
     in (Inr row, w\<lparr>orders := orders w @ [row]\<rparr>))"

definition update_state :: "order \<Rightarrow> order_state \<Rightarrow> order svc" where
  "update_state ord new = thenA
     (modA (\<lambda>w. w\<lparr>orders := update_where (\<lambda>x. o_id x = o_id ord) (\<lambda>x. x\<lparr>o_state := new\<rparr>) (orders w)\<rparr>))
     (ret (ord\<lparr>o_state := new\<rparr>))"

definition delete_items_for_order :: "string \<Rightarrow> unit svc" where
  "delete_items_for_order oid =
     modA (\<lambda>w. w\<lparr>order_items := filter (\<lambda>it. oi_order_id it \<noteq> oid) (order_items w)\<rparr>)"

definition add_item :: "string \<Rightarrow> string \<Rightarrow> int \<Rightarrow> decimal \<Rightarrow> order_item svc" where
  "add_item oid name qty price = bindA uuid4 (\<lambda>i w.
     let row = \<lparr>oi_id = i, oi_order_id = oid, oi_product_name = name, oi_quantity = qty,
                oi_unit_price = price\<rparr>
     in (Inr row, w\<lparr>order_items := order_items w @ [row]\<rparr>))"

text \<open>The line items of an order (the \<open>Order.items\<close> relationship).\<close>

definition items_of :: "world \<Rightarrow> string \<Rightarrow> order_item list" where
  "items_of w oid = filter (\<lambda>it. oi_order_id it = oid) (order_items w)"

text \<open>The filters of \<open>list_orders\<close>; the end date is pushed to the next day by \<open>to_date.day + 1\<close>.\<close>

definition list_filter ::
  "string option \<Rightarrow> order_state option \<Rightarrow> date option \<Rightarrow> date option \<Rightarrow> error + (order \<Rightarrow> bool)" where
  "list_filter tid st from_date to_date =
     (case (case from_date of None \<Rightarrow> Inr None
            | Some d \<Rightarrow> map_sum id Some (datetime (d_year d) (d_month d) (d_day d))) of
        Inl e \<Rightarrow> Inl e
      | Inr lo \<Rightarrow>
        (case (case to_date of None \<Rightarrow> Inr None
               | Some d \<Rightarrow> map_sum id Some (datetime (d_year d) (d_month d) (d_day d + 1))) of
           Inl e \<Rightarrow> Inl e
         | Inr hi \<Rightarrow> Inr (\<lambda>x.
             (case tid of None \<Rightarrow> True | Some t \<Rightarrow> o_tenant_id x = t)
             \<and> (case st of None \<Rightarrow> True | Some s \<Rightarrow> o_state x = s)
             \<and> (case lo of None \<Rightarrow> True | Some t \<Rightarrow> t \<le> o_created_at x)
             \<and> (case hi of None \<Rightarrow> True | Some t \<Rightarrow> o_created_at x < t))))"

definition repo_list_orders ::
  "string option \<Rightarrow> order_state option \<Rightarrow> date option \<Rightarrow> date option \<Rightarrow> nat \<Rightarrow> nat
   \<Rightarrow> ((order \<times> nat) list \<times> nat) svc" where
  "repo_list_orders tid st from_date to_date limit offset =
     bindA (liftE (list_filter tid st from_date to_date)) (\<lambda>p.
       getA (\<lambda>w. (map (\<lambda>x. (x, length (items_of w (o_id x))))
                      (page limit offset (order_by_desc o_created_at (filter p (orders w)))),
                  length (filter p (orders w)))))"

definition migrate_trader_orders_to_tenant :: "string \<Rightarrow> string \<Rightarrow> string \<Rightarrow> nat svc" where
  "migrate_trader_orders_to_tenant tphone old new = (\<lambda>w.
     let order_ids = map o_id (filter (\<lambda>x. o_tenant_id x = old \<and> o_trader_phone x = Some tphone) (orders w))
     in if order_ids = [] then (Inr 0, w)
        else let conv_ids = remdups (map o_conversation_id (filter (\<lambda>x. o_id x \<in> set order_ids) (orders w)))
             in (Inr (length order_ids),
                 w\<lparr>orders := update_where (\<lambda>x. o_id x \<in> set order_ids)
                              (\<lambda>x. x\<lparr>o_tenant_id := new\<rparr>) (orders w),
                   conversations := update_where (\<lambda>c. cv_id c \<in> set conv_ids \<and> cv_tenant_id c = old)
                              (\<lambda>c. c\<lparr>cv_tenant_id := new\<rparr>) (conversations w),
                   messages := update_where (\<lambda>m. m_conversation_id m \<in> set conv_ids \<and> m_tenant_id m = old)
                              (\<lambda>m. m\<lparr>m_tenant_id := new\<rparr>) (messages w),
                   scheduled_messages := update_where
                              (\<lambda>m. sm_conversation_id m \<in> set conv_ids \<and> sm_tenant_id m = old)
                              (\<lambda>m. m\<lparr>sm_tenant_id := new\<rparr>) (scheduled_messages w)\<rparr>))"

section \<open>Lookups\<close>

text \<open>The specification of a scoped lookup: the order with this key, if the scope admits it.\<close>

definition order_at :: "world \<Rightarrow> string \<Rightarrow> string option \<Rightarrow> order option" where
  "order_at w oid tid = find (\<lambda>x. o_id x = oid \<and> scoped tid (o_tenant_id x)) (orders w)"

lemma get_by_id_eq:
  assumes "wf_orders w"
  shows "get_by_id oid tid w = (Inr (order_at w oid tid), w)"
  using scalar_key [OF wf_orders_distinct [OF assms]]
  by (simp add: get_by_id_def bindA_apply order_at_def)

lemma order_at_Some:
  "order_at w oid tid = Some x \<Longrightarrow> x \<in> set (orders w) \<and> o_id x = oid \<and> scoped tid (o_tenant_id x)"
  unfolding order_at_def by (drule find_Some_iff2) simp

lemma order_at_iff:
  assumes "wf_orders w"
  shows "order_at w oid tid = Some x \<longleftrightarrow>
     x \<in> set (orders w) \<and> o_id x = oid \<and> scoped tid (o_tenant_id x)"
  using find_distinct_key [OF wf_orders_distinct [OF assms], of x "\<lambda>x. scoped tid (o_tenant_id x)"]
  by (auto simp: order_at_def dest: find_Some_iff2)

lemma get_by_id_state [simp]: "snd (get_by_id oid tid w) = w"
  by (simp add: get_by_id_def bindA_apply)

lemma get_open_state [simp]: "snd (get_open_order_for_conversation conv tid w) = w"
  by (simp add: get_open_order_for_conversation_def bindA_apply)

lemma get_open_eq:
  "get_open_order_for_conversation conv tid w =
     (Inr (case order_by_desc o_created_at
             (filter (\<lambda>x. o_conversation_id x = conv \<and> o_tenant_id x = tid
                          \<and> o_state x \<in> set OPEN_STATES) (orders w)) of
             [] \<Rightarrow> None | x # _ \<Rightarrow> Some x), w)"
  unfolding get_open_order_for_conversation_def bindA_apply getA_apply
  by (simp only: prod.case sum.case liftE_apply scalar_take1)

lemma open_iff [simp]: "s \<in> set OPEN_STATES \<longleftrightarrow> \<not> terminal s"
  by (cases s) (simp_all add: OPEN_STATES_def terminal_def)

lemma case_list_None: "(case xs of [] \<Rightarrow> None | x # _ \<Rightarrow> Some x) = None \<longleftrightarrow> xs = []"
  by (cases xs) auto

lemma get_open_None:
  "get_open_order_for_conversation conv tid w = (Inr None, w) \<longleftrightarrow>
     (\<forall>x\<in>set (orders w). o_conversation_id x = conv \<and> o_tenant_id x = tid \<longrightarrow> terminal (o_state x))"
  by (auto simp: get_open_eq filter_empty_conv case_list_None)

lemma get_open_Some:
  assumes "get_open_order_for_conversation conv tid w = (Inr (Some x), w)"
  shows "x \<in> set (orders w) \<and> o_conversation_id x = conv \<and> o_tenant_id x = tid \<and> \<not> terminal (o_state x)"
proof -
  from assms obtain xs where "order_by_desc o_created_at
      (filter (\<lambda>x. o_conversation_id x = conv \<and> o_tenant_id x = tid
                   \<and> o_state x \<in> set OPEN_STATES) (orders w)) = x # xs"
    by (auto simp: get_open_eq split: list.splits)
  then have "x \<in> set (filter (\<lambda>x. o_conversation_id x = conv \<and> o_tenant_id x = tid
                   \<and> o_state x \<in> set OPEN_STATES) (orders w))"
    by (metis list.set_intros(1) set_order_by_desc)
  then show ?thesis by simp
qed

section \<open>Listing\<close>

lemma list_filter_error:
  assumes "valid_date (d_year d) (d_month d) (d_day d)"
  shows "list_filter tid st None (Some d) = Inl (ValueError ''day is out of range for month'') \<longleftrightarrow>
     d_day d = days_in_month (d_year d) (d_month d)"
  using assms by (auto simp: list_filter_def datetime_def valid_date_def)

lemma list_filter_Inr_no_dates:
  "list_filter tid st None None = Inr (\<lambda>x.
     (case tid of None \<Rightarrow> True | Some t \<Rightarrow> o_tenant_id x = t)
     \<and> (case st of None \<Rightarrow> True | Some s \<Rightarrow> o_state x = s))"
  by (simp add: list_filter_def)

lemma repo_list_orders_eq:
  "list_filter tid st fd td = Inr p \<Longrightarrow>
   repo_list_orders tid st fd td limit offset w =
     (Inr (map (\<lambda>x. (x, length (items_of w (o_id x))))
             (page limit offset (order_by_desc o_created_at (filter p (orders w)))),
           length (filter p (orders w))), w)"
  by (simp add: repo_list_orders_def bindA_apply)

lemma pages_tile: "concat (map (\<lambda>k. page l (k * l) xs) [0..<n]) = take (n * l) xs"
proof (induction n)
  case (Suc n)
  have "take (n * l) xs @ page l (n * l) xs = take (n * l + l) xs"
    by (simp add: page_def take_add)
  with Suc show ?case by (simp add: add.commute)
qed simp

text \<open>The rows the dashboard would see if it asked for everything at once.\<close>

definition all_rows :: "(order \<Rightarrow> bool) \<Rightarrow> world \<Rightarrow> (order \<times> nat) list" where
  "all_rows p w = map (\<lambda>x. (x, length (items_of w (o_id x))))
     (order_by_desc o_created_at (filter p (orders w)))"

text \<open>The rows one call returns, and the total it reports.\<close>

definition list_rows :: "string option \<Rightarrow> order_state option \<Rightarrow> date option \<Rightarrow> date option \<Rightarrow> nat \<Rightarrow> nat
    \<Rightarrow> world \<Rightarrow> (order \<times> nat) list" where
  "list_rows tid st fd td limit offset w =
     (case repo_list_orders tid st fd td limit offset w of (Inr (rows, _), _) \<Rightarrow> rows | _ \<Rightarrow> [])"

lemma all_rows_sorted: "sorted_wrt (\<lambda>a b. o_created_at (fst b) \<le> o_created_at (fst a)) (all_rows p w)"
proof -
  have "sorted (map (\<lambda>x. - o_created_at x) (order_by_desc o_created_at (filter p (orders w))))"
    by (simp add: order_by_desc_def)
  then show ?thesis
    by (simp add: all_rows_def sorted_wrt_map sorted_map)
qed

text \<open>
  The pages of a listing tile it. Asking for pages of size \<open>l\<close> at offsets 0, l, 2l, \<dots> until
  the reported total is covered returns every matching order exactly once, newest first, each with
  the number of its line items.
\<close>

theorem list_orders_pages_tile:
  assumes "list_filter tid st fd td = Inr p" and "length (filter p (orders w)) \<le> n * l"
  shows "concat (map (\<lambda>k. list_rows tid st fd td l (k * l) w) [0..<n]) = all_rows p w
     \<and> mset (map fst (all_rows p w)) = mset (filter p (orders w))
     \<and> sorted_wrt (\<lambda>a b. o_created_at (fst b) \<le> o_created_at (fst a)) (all_rows p w)"
proof -
  have rows: "list_rows tid st fd td l (k * l) w =
      page l (k * l) (all_rows p w)" for k
    using repo_list_orders_eq [OF assms(1)]
    by (simp add: list_rows_def all_rows_def page_def take_map drop_map)
  have "concat (map (\<lambda>k. page l (k * l) (all_rows p w)) [0..<n]) = all_rows p w"
    unfolding pages_tile using assms(2) by (simp add: all_rows_def)
  moreover have "mset (map fst (all_rows p w)) = mset (filter p (orders w))"
    by (simp add: all_rows_def comp_def)
  ultimately show ?thesis using rows all_rows_sorted by simp
qed

definition sample_order :: "string \<Rightarrow> string \<Rightarrow> order_state \<Rightarrow> decimal option \<Rightarrow> timestamp \<Rightarrow> order" where
  "sample_order i t s a now =
     (create_order_row i t ''c1'' None (Some ''234'') None (Some ''080'') a ''NGN'' now)\<lparr>o_state := s\<rparr>"

theorem list_orders_pages_tile_witness:
  "(let w = empty_world\<lparr>orders := [sample_order ''a'' ''t1'' INQUIRY None 1,
         sample_order ''b'' ''t1'' PAID None 2, sample_order ''c'' ''t2'' PAID None 3]\<rparr>;
       p = (\<lambda>x. o_tenant_id x = ''t1'')
    in concat (map (\<lambda>k. list_rows (Some ''t1'') None None None 1 (k * 1) w) [0..<2]) = all_rows p w
      \<and> length (all_rows p w) = 2)"
proof -
  define w where "w = empty_world\<lparr>orders := [sample_order ''a'' ''t1'' INQUIRY None 1,
         sample_order ''b'' ''t1'' PAID None 2, sample_order ''c'' ''t2'' PAID None 3]\<rparr>"
  define p where "p = (\<lambda>x::order. o_tenant_id x = ''t1'')"
  have f: "list_filter (Some ''t1'') None None None = Inr p"
    by (simp add: list_filter_Inr_no_dates p_def)
  have l: "length (filter p (orders w)) \<le> 2 * 1" "length (filter p (orders w)) = 2"
    by (simp_all add: w_def p_def sample_order_def create_order_row_def)
  show ?thesis
    using list_orders_pages_tile [OF f l(1)] l(2)
    unfolding Let_def w_def [symmetric] p_def [symmetric] by (simp add: all_rows_def)
qed

text \<open>
  Asking for the orders up to the last day of a month always fails: the inclusive end of day is
  computed as \<open>day + 1\<close> of the same month, which the \<open>datetime\<close> constructor rejects. On every other
  day of the month the same request succeeds.
\<close>

theorem list_orders_month_end_raises:
  assumes "valid_date (d_year d) (d_month d) (d_day d)"
  shows "repo_list_orders tid st None (Some d) limit offset w =
           (Inl (ValueError ''day is out of range for month''), w)
     \<longleftrightarrow> d_day d = days_in_month (d_year d) (d_month d)"
  using list_filter_error [OF assms, of tid st]
  by (auto simp: repo_list_orders_def bindA_apply split: sum.splits)

theorem list_orders_month_end_raises_witness:
  "repo_list_orders (Some ''t1'') None None (Some \<lparr>d_year = 2026, d_month = 4, d_day = 30\<rparr>) 20 0 empty_world =
     (Inl (ValueError ''day is out of range for month''), empty_world)"
  using list_orders_month_end_raises [of "\<lparr>d_year = 2026, d_month = 4, d_day = 30\<rparr>" "Some ''t1''" None 20 0 empty_world]
  by (simp add: valid_date_def days_in_month_def)

section \<open>Tenant migration\<close>

definition belongs :: "string \<Rightarrow> string \<Rightarrow> order \<Rightarrow> bool" where
  "belongs t tphone x \<longleftrightarrow> o_tenant_id x = t \<and> o_trader_phone x = Some tphone"

text \<open>With distinct keys, the update by identifier list is the update by predicate.\<close>

lemma migrate_orders_eq:
  assumes "wf_orders w"
  shows "update_where (\<lambda>x. o_id x \<in> set (map o_id (filter (belongs old tp) (orders w)))) f (orders w) =
     update_where (belongs old tp) f (orders w)"
  unfolding update_where_def
proof (rule map_cong [OF refl])
  fix x assume x: "x \<in> set (orders w)"
  have "o_id x \<in> set (map o_id (filter (belongs old tp) (orders w))) \<longleftrightarrow> belongs old tp x"
    using x wf_orders_distinct [OF assms] by (auto simp: distinct_map inj_on_def)
  then show "(if o_id x \<in> set (map o_id (filter (belongs old tp) (orders w))) then f x else x) =
      (if belongs old tp x then f x else x)" by simp
qed

lemma migrate_orders:
  assumes "wf_orders w"
  shows "orders (exec (migrate_trader_orders_to_tenant tp old new) w) =
     update_where (belongs old tp) (\<lambda>x. x\<lparr>o_tenant_id := new\<rparr>) (orders w)"
proof (cases "filter (belongs old tp) (orders w) = []")
  case True
  then have "update_where (belongs old tp) (\<lambda>x. x\<lparr>o_tenant_id := new\<rparr>) (orders w) = orders w"
    by (intro update_where_none) (simp add: filter_empty_conv)
  with True show ?thesis
    by (simp add: migrate_trader_orders_to_tenant_def exec_def belongs_def [abs_def] Let_def)
next
  case False
  then show ?thesis
    using migrate_orders_eq [OF assms, of old tp "\<lambda>x. x\<lparr>o_tenant_id := new\<rparr>"]
    by (simp add: migrate_trader_orders_to_tenant_def exec_def belongs_def [abs_def] Let_def)
qed

lemma migrate_others:
  "old \<noteq> new \<Longrightarrow> filter (\<lambda>x. \<not> belongs new tp x)
       (update_where (belongs old tp) (\<lambda>x. x\<lparr>o_tenant_id := new\<rparr>) xs) =
     filter (\<lambda>x. \<not> belongs old tp x \<and> \<not> belongs new tp x) xs"
  by (induction xs) (auto simp: belongs_def)

lemma migrate_result:
  "fst (migrate_trader_orders_to_tenant tp old new w) = Inr (length (filter (belongs old tp) (orders w)))"
  by (simp add: migrate_trader_orders_to_tenant_def belongs_def [abs_def] Let_def)

lemma migrate_conversations:
  assumes "x \<in> set (orders w)" and "belongs old tp x"
    and "c \<in> set (conversations (exec (migrate_trader_orders_to_tenant tp old new) w))"
    and "cv_id c = o_conversation_id x" and "old \<noteq> new"
  shows "cv_tenant_id c \<noteq> old"
proof -
  have ne: "filter (\<lambda>x. o_tenant_id x = old \<and> o_trader_phone x = Some tp) (orders w) \<noteq> []"
    using assms(1,2) by (auto simp: filter_empty_conv belongs_def)
  have "o_conversation_id x \<in> o_conversation_id ` {y \<in> set (orders w).
      o_id y \<in> o_id ` {z \<in> set (orders w). o_tenant_id z = old \<and> o_trader_phone z = Some tp}}"
    using assms(1,2) by (auto simp: belongs_def)
  then show ?thesis
    using assms(3-5) ne
    by (auto simp: migrate_trader_orders_to_tenant_def exec_def Let_def set_update_where split: if_splits)
qed

text \<open>
  Moving a trader's orders to a new tenant is complete, exact and repeatable. The call reports
  how many orders it moved; afterwards no order of the trader is left in the old tenant, every other
  order is untouched, no order is lost or changed in anything but its tenant, the conversation of
  every moved order has left the old tenant too, and calling it again moves nothing.
\<close>

theorem migrate_complete:
  assumes wf: "wf_orders w" and ne: "old \<noteq> new"
    and run: "migrate_trader_orders_to_tenant tp old new w = (Inr n, w')"
  shows "n = length (filter (belongs old tp) (orders w))
     \<and> filter (belongs old tp) (orders w') = []
     \<and> filter (\<lambda>x. \<not> belongs new tp x) (orders w') = filter (\<lambda>x. \<not> belongs old tp x \<and> \<not> belongs new tp x) (orders w)
     \<and> map (\<lambda>x. x\<lparr>o_tenant_id := []\<rparr>) (orders w') = map (\<lambda>x. x\<lparr>o_tenant_id := []\<rparr>) (orders w)
     \<and> (\<forall>x\<in>set (orders w). belongs old tp x \<longrightarrow>
          (\<forall>c\<in>set (conversations w'). cv_id c = o_conversation_id x \<longrightarrow> cv_tenant_id c \<noteq> old))
     \<and> migrate_trader_orders_to_tenant tp old new w' = (Inr 0, w')"
proof (intro conjI)
  have w': "w' = exec (migrate_trader_orders_to_tenant tp old new) w"
    using run by (simp add: exec_def)
  have os: "orders w' = update_where (belongs old tp) (\<lambda>x. x\<lparr>o_tenant_id := new\<rparr>) (orders w)"
    unfolding w' by (rule migrate_orders [OF wf])
  show "n = length (filter (belongs old tp) (orders w))"
    using migrate_result [of tp old new w] run by simp
  show none: "filter (belongs old tp) (orders w') = []"
    using ne by (auto simp: os filter_empty_conv set_update_where belongs_def)
  show "filter (\<lambda>x. \<not> belongs new tp x) (orders w') = filter (\<lambda>x. \<not> belongs old tp x \<and> \<not> belongs new tp x) (orders w)"
    unfolding os by (rule migrate_others [OF ne])
  show "map (\<lambda>x. x\<lparr>o_tenant_id := []\<rparr>) (orders w') = map (\<lambda>x. x\<lparr>o_tenant_id := []\<rparr>) (orders w)"
    unfolding os by (rule map_update_where_same) simp
  show "\<forall>x\<in>set (orders w). belongs old tp x \<longrightarrow>
          (\<forall>c\<in>set (conversations w'). cv_id c = o_conversation_id x \<longrightarrow> cv_tenant_id c \<noteq> old)"
    unfolding w' using migrate_conversations ne by blast
  show "migrate_trader_orders_to_tenant tp old new w' = (Inr 0, w')"
    using none by (simp add: migrate_trader_orders_to_tenant_def belongs_def [abs_def] Let_def)
qed

theorem migrate_complete_witness:
  "let w = empty_world\<lparr>orders := [sample_order ''a'' ''t1'' INQUIRY None 1,
         sample_order ''b'' ''t2'' PAID None 2]\<rparr>;
       w' = exec (migrate_trader_orders_to_tenant ''080'' ''t1'' ''t9'') w
   in filter (belongs ''t1'' ''080'') (orders w') = []
      \<and> migrate_trader_orders_to_tenant ''080'' ''t1'' ''t9'' w' = (Inr 0, w')"
proof -
  define w where "w = empty_world\<lparr>orders := [sample_order ''a'' ''t1'' INQUIRY None 1,
         sample_order ''b'' ''t2'' PAID None 2]\<rparr>"
  have wf: "wf_orders w"
    by (rule wf_orders_example) (simp_all add: w_def sample_order_def create_order_row_def empty_world_def)
  have run: "migrate_trader_orders_to_tenant ''080'' ''t1'' ''t9'' w =
      (Inr (length (filter (belongs ''t1'' ''080'') (orders w))),
       exec (migrate_trader_orders_to_tenant ''080'' ''t1'' ''t9'') w)"
    by (simp add: prod_eq_iff exec_def migrate_result)
  have ne: "''t1'' \<noteq> ''t9''" by simp
  show ?thesis
    using migrate_complete [OF wf ne run] unfolding Let_def w_def [symmetric] by blast
qed

end
