(* ===== verification/Event_Bus.thy ===== *)
theory Event_Bus
  imports World
begin

text \<open>
  The Redis pub/sub event bus of \<open>infra/event_bus.py\<close>: channel names and subscription patterns, the
  event envelope, publishing, and the listener loop that feeds events to a handler and survives the
  handler's exceptions.
\<close>

section \<open>Channels and patterns\<close>

definition CHANNEL_PREFIX :: string where
  "CHANNEL_PREFIX = ''chattosales.events''"

definition channel :: "string \<Rightarrow> string \<Rightarrow> string" where
  "channel tid name = CHANNEL_PREFIX @ ''.'' @ tid @ ''.'' @ name"

definition pattern :: "string \<Rightarrow> string" where
  "pattern tid = CHANNEL_PREFIX @ ''.'' @ tid @ ''.*''"

definition global_pattern :: "string \<Rightarrow> string" where
  "global_pattern name = CHANNEL_PREFIX @ ''.*.'' @ name"

definition ALL_EVENTS_PATTERN :: string where
  "ALL_EVENTS_PATTERN = CHANNEL_PREFIX @ ''.*''"

text \<open>Redis \<open>PSUBSCRIBE\<close> matching.\<close>

definition glob :: "string \<Rightarrow> string \<Rightarrow> bool" where
  "glob = wild_match CHR ''*'' CHR ''?''"

section \<open>Publishing\<close>

text \<open>\<open>Event(event_name, tenant_id, payload)\<close> with its generated identifier and timestamp.\<close>

definition make_event :: "string \<Rightarrow> string \<Rightarrow> payload \<Rightarrow> event svc" where
  "make_event name tid p = bindA uuid4 (\<lambda>i w.
     (Inr \<lparr>ev_event_name = name, ev_tenant_id = tid, ev_payload = p, ev_event_id = i,
           ev_timestamp = clock w\<rparr>, w))"

definition event_channel :: "event \<Rightarrow> string" where
  "event_channel e = channel (ev_tenant_id e) (ev_event_name e)"

definition publish_event :: "event \<Rightarrow> unit svc" where
  "publish_event e = modA (\<lambda>w. w\<lparr>published := published w @ [e]\<rparr>)"

definition emit :: "string \<Rightarrow> string \<Rightarrow> payload \<Rightarrow> unit svc" where
  "emit name tid p = bindA (make_event name tid p) publish_event"

section \<open>Listening\<close>

text \<open>The events a global listener for \<open>name\<close> receives out of those published.\<close>

definition subscribe_all_tenants_event :: "string \<Rightarrow> event list \<Rightarrow> event list" where
  "subscribe_all_tenants_event name es = filter (\<lambda>e. glob (global_pattern name) (event_channel e)) es"

definition subscribe_event :: "string \<Rightarrow> string \<Rightarrow> event list \<Rightarrow> event list" where
  "subscribe_event tid name es = filter (\<lambda>e. event_channel e = channel tid name) es"

definition subscribe_tenant_events :: "string \<Rightarrow> event list \<Rightarrow> event list" where
  "subscribe_tenant_events tid es = filter (\<lambda>e. glob (pattern tid) (event_channel e)) es"

definition subscribe_all_events :: "event list \<Rightarrow> event list" where
  "subscribe_all_events es = filter (\<lambda>e. glob ALL_EVENTS_PATTERN (event_channel e)) es"

text \<open>The loop of \<open>create_listener_task\<close> and \<open>create_global_listener_task\<close>: an exception of the
  handler is logged and the next event is handled.\<close>

fun listener_loop :: "(event \<Rightarrow> unit svc) \<Rightarrow> event list \<Rightarrow> world \<Rightarrow> world" where
  "listener_loop h [] w = w"
| "listener_loop h (e # es) w = listener_loop h es (exec (h e) w)"

definition create_global_listener_task :: "string \<Rightarrow> (event \<Rightarrow> unit svc) \<Rightarrow> event list \<Rightarrow> world \<Rightarrow> world" where
  "create_global_listener_task name h es w = listener_loop h (subscribe_all_tenants_event name es) w"

section \<open>Lemmas\<close>

lemma emit_apply [simp]:
  "emit name tid p w =
     (Inr (), w\<lparr>uuid_n := Suc (uuid_n w), published := published w @
        [\<lparr>ev_event_name = name, ev_tenant_id = tid, ev_payload = p,
          ev_event_id = uuid_src w (uuid_n w), ev_timestamp = clock w\<rparr>]\<rparr>)"
  by (simp add: emit_def make_event_def publish_event_def bindA_apply)

lemma listener_loop_append: "listener_loop h (es @ fs) w = listener_loop h fs (listener_loop h es w)"
  by (induction es arbitrary: w) auto

lemma listener_loop_keeps:
  "(\<And>e. keeps (h e) P) \<Longrightarrow> P w \<Longrightarrow> P (listener_loop h es w)"
  by (induction es arbitrary: w) (auto simp: exec_def keeps_def)

lemma prefix_plain [simp]:
  "CHR ''*'' \<notin> set CHANNEL_PREFIX" "CHR ''?'' \<notin> set CHANNEL_PREFIX"
  by (simp_all add: CHANNEL_PREFIX_def)

definition plain :: "string \<Rightarrow> bool" where
  "plain s \<longleftrightarrow> CHR ''*'' \<notin> set s \<and> CHR ''?'' \<notin> set s"

lemma glob_global_pattern:
  assumes "plain name"
  shows "glob (global_pattern name) s \<longleftrightarrow> (\<exists>x. s = CHANNEL_PREFIX @ ''.'' @ x @ ''.'' @ name)"
proof -
  have "wild_match CHR ''*'' CHR ''?'' (''.'' @ name) s \<longleftrightarrow> s = ''.'' @ name" for s
    using wild_match_literal [of "CHR ''*''" "''.'' @ name" "CHR ''?''" "[]" s] assms
    by (auto simp: plain_def)
  then show ?thesis
    unfolding glob_def global_pattern_def
    using wild_match_literal [of "CHR ''*''" "CHANNEL_PREFIX @ ''.''" "CHR ''?''" "''*.'' @ name" s]
    by (auto simp: wild_match_many)
qed

lemma glob_pattern:
  assumes "plain tid"
  shows "glob (pattern tid) s \<longleftrightarrow> (\<exists>x. s = CHANNEL_PREFIX @ ''.'' @ tid @ ''.'' @ x)"
  using wild_match_prefix [of "CHR ''*''" "CHANNEL_PREFIX @ ''.'' @ tid @ ''.''" "CHR ''?''" s] assms
  by (simp add: glob_def pattern_def plain_def)

lemma dots_split:
  assumes "CHR ''.'' \<notin> set t" and "t @ ''.'' @ e = x @ ''.'' @ e'"
    and "count_list e (CHR ''.'') = count_list e' (CHR ''.'')"
  shows "x = t \<and> e = e'"
proof -
  have "count_list (t @ ''.'' @ e) (CHR ''.'') = count_list (x @ ''.'' @ e') (CHR ''.'')"
    using assms(2) by simp
  then have "count_list x (CHR ''.'') = 0"
    using assms(1,3) by (simp add: count_list_0_iff)
  then have x: "CHR ''.'' \<notin> set x" by (simp add: count_list_0_iff)
  have "takeWhile (\<lambda>c. c \<noteq> CHR ''.'') (t @ ''.'' @ e) = t"
    using assms(1) by (subst takeWhile_append2) auto
  moreover have "takeWhile (\<lambda>c. c \<noteq> CHR ''.'') (x @ ''.'' @ e') = x"
    using x by (subst takeWhile_append2) auto
  ultimately have "x = t" using assms(2) by metis
  with assms(2) show ?thesis by simp
qed

section \<open>Properties\<close>

text \<open>
  The single listener per event name sees exactly that event of every tenant. For tenant
  identifiers without dots and event names with equally many dots, the wildcard pattern of one event
  name matches the channel of another only when the names are equal, so no listener receives
  somebody else's events and none of its own is missed.
\<close>

theorem global_listener_exact:
  assumes "plain name" and "CHR ''.'' \<notin> set (ev_tenant_id e)"
    and "count_list (ev_event_name e) (CHR ''.'') = count_list name (CHR ''.'')"
  shows "e \<in> set (subscribe_all_tenants_event name es) \<longleftrightarrow> e \<in> set es \<and> ev_event_name e = name"
proof -
  have "glob (global_pattern name) (event_channel e) \<longleftrightarrow> ev_event_name e = name"
    using dots_split [OF assms(2) _ assms(3)]
    by (auto simp: glob_global_pattern [OF assms(1)] event_channel_def channel_def)
  then show ?thesis by (auto simp: subscribe_all_tenants_event_def)
qed

theorem global_listener_exact_witness:
  "let e = \<lparr>ev_event_name = ''order.paid'', ev_tenant_id = ''t1'', ev_payload = [],
            ev_event_id = ''e1'', ev_timestamp = 0\<rparr>
   in e \<in> set (subscribe_all_tenants_event ''order.paid'' [e])
      \<and> e \<notin> set (subscribe_all_tenants_event ''order.created'' [e])"
proof -
  let ?e = "\<lparr>ev_event_name = ''order.paid'', ev_tenant_id = ''t1'', ev_payload = [],
            ev_event_id = ''e1'', ev_timestamp = 0\<rparr>"
  have p: "plain ''order.paid''" "plain ''order.created''" by (simp_all add: plain_def)
  show ?thesis
    using global_listener_exact [OF p(1), of ?e "[?e]"] global_listener_exact [OF p(2), of ?e "[?e]"]
    by (simp add: Let_def)
qed

text \<open>
  A tenant's subscription never leaks: the wildcard pattern of a tenant matches the channel of an
  event only if the event belongs to that tenant, for identifiers without dots.
\<close>

theorem tenant_subscription_isolated:
  assumes "plain tid" and "CHR ''.'' \<notin> set tid" and "CHR ''.'' \<notin> set (ev_tenant_id e)"
  shows "e \<in> set (subscribe_tenant_events tid es) \<longleftrightarrow> e \<in> set es \<and> ev_tenant_id e = tid"
proof -
  have "takeWhile (\<lambda>c. c \<noteq> CHR ''.'') (t @ ''.'' @ x) = t" if "CHR ''.'' \<notin> set t" for t x
    using that by (subst takeWhile_append2) auto
  then have "ev_tenant_id e @ ''.'' @ y = tid @ ''.'' @ x \<Longrightarrow> ev_tenant_id e = tid" for x y
    using assms(2,3) by metis
  then have "glob (pattern tid) (event_channel e) \<longleftrightarrow> ev_tenant_id e = tid"
    by (auto simp: glob_pattern [OF assms(1)] event_channel_def channel_def)
  then show ?thesis by (auto simp: subscribe_tenant_events_def)
qed

theorem tenant_subscription_isolated_witness:
  "let e = \<lparr>ev_event_name = ''order.paid'', ev_tenant_id = ''t1'', ev_payload = [],
            ev_event_id = ''e1'', ev_timestamp = 0\<rparr>
   in e \<in> set (subscribe_tenant_events ''t1'' [e]) \<and> e \<notin> set (subscribe_tenant_events ''t2'' [e])"
proof -
  let ?e = "\<lparr>ev_event_name = ''order.paid'', ev_tenant_id = ''t1'', ev_payload = [],
            ev_event_id = ''e1'', ev_timestamp = 0\<rparr>"
  have p: "plain ''t1''" "plain ''t2''" by (simp_all add: plain_def)
  show ?thesis
    using tenant_subscription_isolated [OF p(1), of ?e "[?e]"]
      tenant_subscription_isolated [OF p(2), of ?e "[?e]"]
    by (simp add: Let_def)
qed

end
