(* ===== verification/Referrals.thy ===== *)
theory Referrals
  imports World Pystring
begin

text \<open>
  The referral system of \<open>marketing/referrals.py\<close>: referral and agent codes, the search for an unused
  code, one referral per referred trader, and its milestones.
\<close>

section \<open>Model\<close>

definition is_alnum :: "char \<Rightarrow> bool" where
  "is_alnum c \<longleftrightarrow> is_ascii_alpha c \<or> is_digit c"

text \<open>\<open>uuid.uuid4().hex\<close>: the identifier without its dashes.\<close>

definition uuid_hex :: "string \<Rightarrow> string" where
  "uuid_hex u = filter (\<lambda>c. c \<noteq> CHR ''-'') u"

definition generate_referral_code :: "string \<Rightarrow> string svc" where
  "generate_referral_code business_name =
     (let slug = strip (filter (\<lambda>c. is_alnum c \<or> is_space c) business_name);
          parts = take 3 (split_ws (upper slug))
      in if parts = [] then bindA uuid4 (\<lambda>u. ret (''REF-'' @ upper (take 6 (uuid_hex u))))
         else ret (''REF-'' @ join ''-'' parts))"

definition generate_agent_code :: "string \<Rightarrow> string svc" where
  "generate_agent_code name =
     (let slug = take 8 (upper (strip (filter is_alnum name)))
      in bindA uuid4 (\<lambda>u. let short = upper (take 4 (uuid_hex u))
           in ret (if slug \<noteq> [] then ''AGT-'' @ slug @ ''-'' @ short else ''AGT-'' @ short)))"

definition suffixed :: "string \<Rightarrow> nat \<Rightarrow> string" where
  "suffixed base k = base @ ''-'' @ show_nat k"

lemma suffixed_inj: "suffixed base j = suffixed base k \<longleftrightarrow> j = k"
  by (simp add: suffixed_def show_nat_inj)

lemma finite_suffixes: "finite {k. suffixed base k \<in> set codes}"
  by (rule finite_imageD [of "suffixed base"])
    (auto simp: inj_on_def suffixed_inj intro: finite_subset [of _ "set codes"])

definition later_suffixes :: "string list \<Rightarrow> string \<Rightarrow> nat \<Rightarrow> nat set" where
  "later_suffixes codes base suffix = {k. suffix \<le> k \<and> suffixed base k \<in> set codes}"

lemma finite_later: "finite (later_suffixes codes base suffix)"
  unfolding later_suffixes_def by (rule finite_subset [OF _ finite_suffixes [of base codes]]) auto

lemma later_step:
  "card (later_suffixes codes base suffix) =
     card (later_suffixes codes base (Suc suffix)) + (if suffixed base suffix \<in> set codes then 1 else 0)"
proof -
  have "later_suffixes codes base suffix = later_suffixes codes base (Suc suffix) \<union>
      (if suffixed base suffix \<in> set codes then {suffix} else {})"
    by (auto simp: later_suffixes_def le_Suc_eq not_less_eq_eq)
      (metis le_antisym not_less_eq_eq)+
  moreover have "suffix \<notin> later_suffixes codes base (Suc suffix)"
    by (simp add: later_suffixes_def)
  ultimately show ?thesis
    using finite_later [of codes base "Suc suffix"] by simp
qed

text \<open>The \<open>while True\<close> loop of \<open>ensure_unique_referral_code\<close>, over the codes in use.\<close>

function unique_loop :: "string list \<Rightarrow> string \<Rightarrow> string \<Rightarrow> nat \<Rightarrow> error + string" where
  "unique_loop codes base code suffix =
     (case scalar_one_or_none (filter (\<lambda>c. c = code) codes) of
        Inl e \<Rightarrow> Inl e
      | Inr None \<Rightarrow> Inr code
      | Inr (Some _) \<Rightarrow> unique_loop codes base (suffixed base suffix) (suffix + 1))"
  by pat_completeness auto
termination
proof (relation "measure (\<lambda>(codes, base, code, suffix).
    card (later_suffixes codes base suffix) + (if code \<in> set codes then 1 else 0))", goal_cases)
  case (2 codes base code suffix e x)
  then have "code \<in> set codes" by (auto dest!: scalar_Some simp: filter_eq_Cons_iff)
  then show ?case using later_step [of codes base suffix] by simp
qed simp

declare unique_loop.simps [simp del]

text \<open>The referral codes in use: the column of the traders table, without its nulls.\<close>

definition referral_codes :: "world \<Rightarrow> string list" where
  "referral_codes w = List.map_filter td_referral_code (traders w)"

definition ensure_unique_referral_code :: "string \<Rightarrow> string svc" where
  "ensure_unique_referral_code base = bindA (getA referral_codes) (\<lambda>codes.
     liftE (unique_loop codes base base 2))"

definition log_referral ::
  "string \<Rightarrow> string option \<Rightarrow> string option \<Rightarrow> string option \<Rightarrow> attribution_type \<Rightarrow> referral svc" where
  "log_referral referred referred_name referrer agent_code attribution =
     bindA (getA referrals) (\<lambda>rs.
       bindA (liftE (scalar_one_or_none (filter (\<lambda>r. rf_referred_phone r = referred \<and> True) rs))) (\<lambda>existing.
         case existing of
           Some r \<Rightarrow> ret r
         | None \<Rightarrow> bindA uuid4 (\<lambda>i w.
             let r = \<lparr>rf_id = i, rf_referrer_phone = referrer, rf_agent_code = agent_code,
                      rf_referred_phone = referred, rf_referred_name = referred_name,
                      rf_attribution_type = attribution, rf_status = SIGNED_UP,
                      rf_first_order_at = None, rf_active_30d_at = None, rf_converted_at = None\<rparr>
             in (Inr r, w\<lparr>referrals := referrals w @ [r]\<rparr>))))"

definition advance_referral_to_first_order :: "string \<Rightarrow> unit svc" where
  "advance_referral_to_first_order tp = modA (\<lambda>w. w\<lparr>referrals := update_where
     (\<lambda>r. rf_referred_phone r = tp \<and> rf_status r = SIGNED_UP)
     (\<lambda>r. r\<lparr>rf_status := FIRST_ORDER, rf_first_order_at := Some (clock w)\<rparr>) (referrals w)\<rparr>)"

definition advance_referral_to_active :: "string \<Rightarrow> unit svc" where
  "advance_referral_to_active tp = modA (\<lambda>w. w\<lparr>referrals := update_where
     (\<lambda>r. rf_referred_phone r = tp \<and> rf_status r = FIRST_ORDER)
     (\<lambda>r. r\<lparr>rf_status := ACTIVE_30D, rf_active_30d_at := Some (clock w)\<rparr>) (referrals w)\<rparr>)"

definition advance_referral_to_converted :: "string \<Rightarrow> unit svc" where
  "advance_referral_to_converted tp = modA (\<lambda>w. w\<lparr>referrals := update_where
     (\<lambda>r. rf_referred_phone r = tp \<and> rf_status r \<in> {SIGNED_UP, FIRST_ORDER, ACTIVE_30D})
     (\<lambda>r. r\<lparr>rf_status := CONVERTED, rf_converted_at := Some (clock w)\<rparr>) (referrals w)\<rparr>)"

text \<open>The three counts: total, beyond sign-up, converted.\<close>

definition get_referral_stats :: "string \<Rightarrow> world \<Rightarrow> nat \<times> nat \<times> nat" where
  "get_referral_stats referrer w =
     (let rs = filter (\<lambda>r. rf_referrer_phone r = Some referrer) (referrals w)
      in (length rs, length (filter (\<lambda>r. rf_status r \<noteq> SIGNED_UP) rs),
          length (filter (\<lambda>r. rf_status r = CONVERTED) rs)))"

section \<open>Codes\<close>

lemma filter_key_distinct: "distinct codes \<Longrightarrow>
  scalar_one_or_none (filter (\<lambda>c. c = code) codes) = Inr (if code \<in> set codes then Some code else None)"
  using scalar_key [of "\<lambda>c. c" codes code "\<lambda>_. True"]
    find_distinct_key [of "\<lambda>c. c" codes code "\<lambda>_. True"]
  by (cases "code \<in> set codes") (auto simp: find_None_iff)

lemma unique_loop_spec:
  assumes "distinct codes"
  shows "\<exists>j. unique_loop codes base code suffix = Inr (if j = 0 then code else suffixed base (suffix + j - 1))
     \<and> (if j = 0 then code else suffixed base (suffix + j - 1)) \<notin> set codes
     \<and> (j \<noteq> 0 \<longrightarrow> code \<in> set codes)
     \<and> (\<forall>k. suffix \<le> k \<and> k < suffix + j - 1 \<longrightarrow> suffixed base k \<in> set codes)"
  using assms
proof (induction codes base code suffix rule: unique_loop.induct)
  case (1 codes base code suffix)
  note s = filter_key_distinct [OF "1.prems", of code]
  show ?case
  proof (cases "code \<in> set codes")
    case False
    then show ?thesis
      by (intro exI [of _ 0]) (auto simp: unique_loop.simps [of codes base code suffix] s)
  next
    case True
    let ?next = "suffixed base suffix"
    have step: "unique_loop codes base code suffix = unique_loop codes base ?next (suffix + 1)"
      using True by (simp add: unique_loop.simps [of codes base code suffix] s)
    from "1.IH" [OF s] True "1.prems" obtain j where
      j: "unique_loop codes base ?next (suffix + 1) = Inr (if j = 0 then ?next else suffixed base (suffix + 1 + j - 1))"
      "(if j = 0 then ?next else suffixed base (suffix + 1 + j - 1)) \<notin> set codes"
      "j \<noteq> 0 \<longrightarrow> ?next \<in> set codes"
      "\<forall>k. suffix + 1 \<le> k \<and> k < suffix + 1 + j - 1 \<longrightarrow> suffixed base k \<in> set codes"
      by auto
    have "\<forall>k. suffix \<le> k \<and> k < suffix + j \<longrightarrow> suffixed base k \<in> set codes"
      using j(3,4) by (metis Suc_eq_plus1 add_diff_cancel_right' add.right_neutral add.commute add_Suc le_antisym
          not_less not_less_eq_eq)
    then show ?thesis
      using j(1,2) True step by (intro exI [of _ "Suc j"]) (auto split: if_splits)
  qed
qed

section \<open>Milestones\<close>

fun milestone :: "referral_status \<Rightarrow> nat" where
  "milestone SIGNED_UP = 0"
| "milestone FIRST_ORDER = 1"
| "milestone ACTIVE_30D = 2"
| "milestone CONVERTED = 3"

text \<open>The operations that touch the referrals table.\<close>

datatype referral_op =
    LogReferral string "string option" "string option" "string option" attribution_type
  | FirstOrder string
  | Active30 string
  | Converted string

fun referral_step :: "referral_op \<Rightarrow> world \<Rightarrow> world" where
  "referral_step (LogReferral p n r a t) w = exec (log_referral p n r a t) w"
| "referral_step (FirstOrder p) w = exec (advance_referral_to_first_order p) w"
| "referral_step (Active30 p) w = exec (advance_referral_to_active p) w"
| "referral_step (Converted p) w = exec (advance_referral_to_converted p) w"

text \<open>One referral per referred phone, and each milestone reached carries its date.\<close>

definition referral_inv :: "world \<Rightarrow> bool" where
  "referral_inv w \<longleftrightarrow> distinct (map rf_referred_phone (referrals w))
     \<and> (\<forall>r\<in>set (referrals w).
          (rf_status r = FIRST_ORDER \<longrightarrow> rf_first_order_at r \<noteq> None)
        \<and> (rf_status r = ACTIVE_30D \<longrightarrow> rf_first_order_at r \<noteq> None \<and> rf_active_30d_at r \<noteq> None)
        \<and> (rf_status r = CONVERTED \<longrightarrow> rf_converted_at r \<noteq> None))"

definition referral_at :: "world \<Rightarrow> string \<Rightarrow> referral option" where
  "referral_at w p = find (\<lambda>r. rf_referred_phone r = p \<and> True) (referrals w)"

lemma log_referral_eq:
  assumes "referral_inv w"
  shows "log_referral p n r a t w = (case referral_at w p of
     Some x \<Rightarrow> (Inr x, w)
   | None \<Rightarrow> let x = \<lparr>rf_id = uuid_src w (uuid_n w), rf_referrer_phone = r, rf_agent_code = a,
               rf_referred_phone = p, rf_referred_name = n, rf_attribution_type = t, rf_status = SIGNED_UP,
               rf_first_order_at = None, rf_active_30d_at = None, rf_converted_at = None\<rparr>
       in (Inr x, w\<lparr>uuid_n := Suc (uuid_n w), referrals := referrals w @ [x]\<rparr>))"
  using scalar_key [of rf_referred_phone "referrals w" p "\<lambda>_. True"] assms
  by (simp add: log_referral_def bindA_apply referral_at_def referral_inv_def Let_def split: option.splits)

lemma referral_at_None: "referral_at w p = None \<longleftrightarrow> p \<notin> set (map rf_referred_phone (referrals w))"
  by (auto simp: referral_at_def find_None_iff image_iff)

lemma referral_step_inv: "referral_inv w \<Longrightarrow> referral_inv (referral_step op w)"
proof (cases op)
  case (LogReferral p n r a t)
  assume inv: "referral_inv w"
  then show ?thesis
    using LogReferral referral_at_None [of w p]
    by (cases "referral_at w p")
      (auto simp: exec_def log_referral_eq [OF inv] Let_def referral_inv_def)
qed (auto simp: exec_def advance_referral_to_first_order_def advance_referral_to_active_def
    advance_referral_to_converted_def referral_inv_def map_update_where_same set_update_where)

text \<open>Position by position, an operation only advances a referral already in the table.\<close>

lemma referral_step_monotone:
  assumes "referral_inv w" and "i < length (referrals w)"
  shows "i < length (referrals (referral_step op w))
     \<and> rf_referred_phone (referrals (referral_step op w) ! i) = rf_referred_phone (referrals w ! i)
     \<and> milestone (rf_status (referrals w ! i)) \<le> milestone (rf_status (referrals (referral_step op w) ! i))"
proof (cases op)
  case (LogReferral p n r a t)
  then show ?thesis
    using assms(2)
    by (cases "referral_at w p") (auto simp: exec_def log_referral_eq [OF assms(1)] Let_def nth_append)
qed (use assms(2) in \<open>auto simp: exec_def advance_referral_to_first_order_def advance_referral_to_active_def
    advance_referral_to_converted_def update_where_def\<close>)

section \<open>Properties\<close>

text \<open>
  The search for a referral code always ends with one nobody uses, and with the smallest suffix:
  the base code itself if it is free, otherwise base-k for the least k from 2 on that is free.
\<close>

theorem unique_referral_code:
  assumes "distinct (referral_codes w)"
  shows "\<exists>code. ensure_unique_referral_code base w = (Inr code, w) \<and> code \<notin> set (referral_codes w)
     \<and> (code = base \<or> (base \<in> set (referral_codes w) \<and> (\<exists>k\<ge>2. code = suffixed base k
           \<and> (\<forall>j. 2 \<le> j \<and> j < k \<longrightarrow> suffixed base j \<in> set (referral_codes w)))))"
proof -
  from unique_loop_spec [OF assms, of base base 2] obtain j where
    j: "unique_loop (referral_codes w) base base 2 = Inr (if j = 0 then base else suffixed base (2 + j - 1))"
    "(if j = 0 then base else suffixed base (2 + j - 1)) \<notin> set (referral_codes w)"
    "j \<noteq> 0 \<longrightarrow> base \<in> set (referral_codes w)"
    "\<forall>k. 2 \<le> k \<and> k < 2 + j - 1 \<longrightarrow> suffixed base k \<in> set (referral_codes w)" by blast
  show ?thesis
  proof (cases "j = 0")
    case True
    with j show ?thesis by (auto simp: ensure_unique_referral_code_def bindA_apply)
  next
    case False
    with j show ?thesis
      by (intro exI [of _ "suffixed base (2 + j - 1)"])
        (auto simp: ensure_unique_referral_code_def bindA_apply intro!: exI [of _ "Suc j"])
  qed
qed

theorem unique_referral_code_witness:
  "let w = empty_world\<lparr>traders := [(example_trader ''080'' ''a'')\<lparr>td_referral_code := Some ''REF-A''\<rparr>,
      (example_trader ''081'' ''b'')\<lparr>td_referral_code := Some ''REF-A-2''\<rparr>]\<rparr>
   in \<exists>code. ensure_unique_referral_code ''REF-A'' w = (Inr code, w) \<and> code \<notin> {''REF-A'', ''REF-A-2''}"
proof -
  let ?w = "empty_world\<lparr>traders := [(example_trader ''080'' ''a'')\<lparr>td_referral_code := Some ''REF-A''\<rparr>,
      (example_trader ''081'' ''b'')\<lparr>td_referral_code := Some ''REF-A-2''\<rparr>]\<rparr>"
  have c: "referral_codes ?w = [''REF-A'', ''REF-A-2'']" by (simp add: referral_codes_def map_filter_simps)
  then have d: "distinct (referral_codes ?w)" by simp
  from unique_referral_code [OF d, of "''REF-A''"] show ?thesis by (auto simp: c Let_def)
qed

text \<open>
  A referral is logged once and its milestone never goes back. From an empty table, whatever
  sequence of sign-ups, first orders, activity and conversions happens, there is one referral per
  referred trader, every milestone reached has its date, and between any two moments no referral
  changes whom it is about or falls to an earlier milestone.
\<close>

theorem referral_milestones_monotone:
  assumes "referral_inv w" and "i < length (referrals w)"
  shows "referral_inv (fold referral_step ops w)
     \<and> i < length (referrals (fold referral_step ops w))
     \<and> rf_referred_phone (referrals (fold referral_step ops w) ! i) = rf_referred_phone (referrals w ! i)
     \<and> milestone (rf_status (referrals w ! i)) \<le> milestone (rf_status (referrals (fold referral_step ops w) ! i))"
  using assms
proof (induction ops arbitrary: w)
  case (Cons op ops)
  from Cons.IH [OF referral_step_inv [OF Cons.prems(1)], of op] referral_step_monotone [OF Cons.prems, of op]
  show ?case by (auto intro: order_trans)
qed simp

theorem referral_milestones_monotone_witness:
  "let w = referral_step (LogReferral ''080'' None None None ORGANIC) empty_world
   in milestone (rf_status (referrals (fold referral_step [FirstOrder ''080'', Converted ''080'', FirstOrder ''080''] w) ! 0)) \<ge> 0
      \<and> referral_inv (fold referral_step [FirstOrder ''080'', Converted ''080'', FirstOrder ''080''] w)"
proof -
  have inv: "referral_inv empty_world" by (simp add: referral_inv_def empty_world_def)
  have l: "0 < length (referrals (referral_step (LogReferral ''080'' None None None ORGANIC) empty_world))"
    by (simp only: referral_step.simps exec_def log_referral_eq [OF inv])
      (simp add: referral_at_def Let_def empty_world_def)
  from referral_milestones_monotone [OF referral_step_inv [OF inv] l,
      of "[FirstOrder ''080'', Converted ''080'', FirstOrder ''080'']"]
  show ?thesis by (simp add: Let_def)
qed

end
