(* ===== verification/Order_Service.thy ===== *)
theory Order_Service
  imports Order_Repository Event_Bus Customer_List Referrals
begin

text \<open>
  The order service (\<open>src/app/modules/orders/service.py\<close>, lines 85 to 463, and \<open>list_orders\<close>): creation of orders
  from conversations and over HTTP, the state transitions with their events and marketing side
  effects, and line items. Every operation is related to one relation on orders (\<open>order_change\<close>), from
  which the life cycle, isolation and uniqueness properties follow.
\<close>

section \<open>Requests\<close>

record order_item_create =
  ic_name :: string
  ic_quantity :: int
  ic_unit_price :: decimal

record order_create =
  oc_tenant_id :: string
  oc_conversation_id :: string
  oc_customer_id :: "string option"
  oc_items :: "order_item_create list"
  oc_currency :: string

text \<open>The validator of \<open>OrderItemCreate\<close>.\<close>

definition positive_quantity :: "int \<Rightarrow> error + int" where
  "positive_quantity v = (if v \<le> 0 then Inl (ValueError ''quantity must be greater than zero'') else Inr v)"

definition items_sum :: "order_item_create list \<Rightarrow> decimal" where
  "items_sum its = (\<Sum>i\<leftarrow>its. ic_unit_price i * of_int (ic_quantity i))"

definition rows_sum :: "order_item list \<Rightarrow> decimal" where
  "rows_sum its = (\<Sum>i\<leftarrow>its. oi_unit_price i * of_int (oi_quantity i))"

text \<open>\<open>OrderOut.total_amount\<close>.\<close>

definition total_amount :: "order \<Rightarrow> order_item list \<Rightarrow> decimal" where
  "total_amount x its = (case o_amount x of Some a \<Rightarrow> a | None \<Rightarrow> rows_sum its)"

text \<open>\<open>total or None\<close>.\<close>

definition none_if_zero :: "decimal \<Rightarrow> decimal option" where
  "none_if_zero d = (if d = 0 then None else Some d)"

definition json_amount :: "decimal option \<Rightarrow> jval" where
  "json_amount a = (case a of None \<Rightarrow> JNull | Some d \<Rightarrow> if d = 0 then JNull else JDec d)"

section \<open>Helpers\<close>

definition get_or_404 :: "string \<Rightarrow> string option \<Rightarrow> order svc" where
  "get_or_404 oid tid = bindA (get_by_id oid tid) (\<lambda>x. case x of
     None \<Rightarrow> raise (NotFoundError ''Order'' oid) | Some x \<Rightarrow> ret x)"

definition state_changed_payload :: "order \<Rightarrow> order_state \<Rightarrow> payload" where
  "state_changed_payload x new = [(''order_id'', JStr (o_id x)), (''conversation_id'', JStr (o_conversation_id x)),
     (''previous_state'', JStr (order_state_value (o_state x))), (''new_state'', JStr (order_state_value new))]"

definition transition_order :: "order \<Rightarrow> order_state \<Rightarrow> order svc" where
  "transition_order x new =
     (case validate_transition (o_id x) (order_state_value (o_state x)) (order_state_value new) of
        Inl e \<Rightarrow> raise (ConflictError (RefusedTransition (it_order_id e) (it_from_state e) (it_to_state e)))
      | Inr _ \<Rightarrow> bindA (update_state x new) (\<lambda>x'.
          thenA (emit ''order.state_changed'' (o_tenant_id x) (state_changed_payload x new)) (ret x')))"

text \<open>\<open>_reload\<close>: the order with its line items; \<open>scalar_one\<close> raises unless there is exactly one.\<close>

definition reload :: "string \<Rightarrow> (order \<times> order_item list) svc" where
  "reload oid = bindA (get_by_id oid None) (\<lambda>x. case x of
     None \<Rightarrow> raise NoResultFound
   | Some x \<Rightarrow> getA (\<lambda>w. (x, items_of w oid)))"

section \<open>Creation\<close>

definition create_order_from_conversation :: "string \<Rightarrow> string \<Rightarrow> string option \<Rightarrow> order option svc" where
  "create_order_from_conversation tid conv cid =
     bindA (get_open_order_for_conversation conv tid) (\<lambda>existing. case existing of
       Some _ \<Rightarrow> ret None
     | None \<Rightarrow> bindA (repo_create_order tid conv cid None None None None ''NGN'') (\<lambda>x.
         thenA (emit ''order.created'' tid [(''order_id'', JStr (o_id x)), (''conversation_id'', JStr conv),
                  (''state'', JStr (order_state_value INQUIRY))])
           (ret (Some x))))"

definition add_all_items :: "string \<Rightarrow> order_item_create list \<Rightarrow> unit svc" where
  "add_all_items oid its = forA its (\<lambda>i. add_item oid (ic_name i) (ic_quantity i) (ic_unit_price i))"

definition set_order :: "string \<Rightarrow> (order \<Rightarrow> order) \<Rightarrow> unit svc" where
  "set_order oid f = modA (\<lambda>w. w\<lparr>orders := update_where (\<lambda>x. o_id x = oid) f (orders w)\<rparr>)"

definition create_order :: "order_create \<Rightarrow> (order \<times> order_item list) svc" where
  "create_order d =
     (let tot = items_sum (oc_items d) in
      bindA (get_open_order_for_conversation (oc_conversation_id d) (oc_tenant_id d)) (\<lambda>existing. case existing of
        Some x \<Rightarrow>
          thenA (delete_items_for_order (o_id x))
          (thenA (set_order (o_id x) (\<lambda>x. x\<lparr>o_amount := none_if_zero tot, o_currency := oc_currency d\<rparr>))
          (thenA (add_all_items (o_id x) (oc_items d))
             (reload (o_id x))))
      | None \<Rightarrow>
          bindA (repo_create_order (oc_tenant_id d) (oc_conversation_id d) (oc_customer_id d) None None None
                   (none_if_zero tot) (oc_currency d)) (\<lambda>x.
          thenA (add_all_items (o_id x) (oc_items d))
          (thenA (emit ''order.created'' (o_tenant_id x) [(''order_id'', JStr (o_id x)),
                    (''conversation_id'', JStr (o_conversation_id x)), (''state'', JStr (order_state_value INQUIRY)),
                    (''amount'', json_amount (o_amount x)), (''currency'', JStr (o_currency x))])
             (reload (o_id x))))))"

section \<open>Transitions\<close>

definition confirm_order :: "string \<Rightarrow> string option \<Rightarrow> (order \<times> order_item list) svc" where
  "confirm_order oid tid = bindA (get_or_404 oid tid) (\<lambda>x. bindA (transition_order x CONFIRMED) (\<lambda>x. reload (o_id x)))"

definition str_or_empty :: "string option \<Rightarrow> string" where
  "str_or_empty s = (case s of None \<Rightarrow> [] | Some s \<Rightarrow> s)"

definition amount_or_0 :: "decimal option \<Rightarrow> decimal" where
  "amount_or_0 a = (case a of None \<Rightarrow> 0 | Some d \<Rightarrow> d)"

definition do_paid_transition :: "order \<Rightarrow> order svc" where
  "do_paid_transition x = bindA (transition_order x PAID) (\<lambda>x.
     thenA (tryA (thenA (upsert_customer (str_or_empty (o_trader_phone x)) (o_tenant_id x) (str_or_empty (o_customer_phone x))
                           (o_customer_name x) (amount_or_0 (o_amount x))) (ret ())) (\<lambda>_. ret ()))
     (thenA (tryA (advance_referral_to_first_order (str_or_empty (o_trader_phone x))) (\<lambda>_. ret ()))
     (thenA (emit ''order.paid'' (o_tenant_id x) [(''order_id'', JStr (o_id x)), (''conversation_id'', JStr (o_conversation_id x)),
               (''previous_state'', JStr (order_state_value CONFIRMED)), (''new_state'', JStr (order_state_value PAID)),
               (''amount'', json_amount (o_amount x)), (''currency'', JStr (o_currency x))])
       (ret x))))"

definition mark_order_paid :: "string \<Rightarrow> string option \<Rightarrow> (order \<times> order_item list) svc" where
  "mark_order_paid oid tid = bindA (get_or_404 oid tid) (\<lambda>x. bindA (do_paid_transition x) (\<lambda>x. reload (o_id x)))"

definition complete_order :: "string \<Rightarrow> string option \<Rightarrow> (order \<times> order_item list) svc" where
  "complete_order oid tid = bindA (get_or_404 oid tid) (\<lambda>x. bindA (do_paid_transition x) (\<lambda>x. reload (o_id x)))"

definition fail_order :: "string \<Rightarrow> string option \<Rightarrow> (order \<times> order_item list) svc" where
  "fail_order oid tid = bindA (get_or_404 oid tid) (\<lambda>x. bindA (transition_order x FAILED) (\<lambda>x. reload (o_id x)))"

text \<open>\<open>except ConflictError: return None\<close>; other exceptions propagate.\<close>

definition none_on_conflict :: "order svc \<Rightarrow> order option svc" where
  "none_on_conflict m = tryA (bindA m (\<lambda>x. ret (Some x)))
     (\<lambda>e. case e of ConflictError _ \<Rightarrow> ret None | _ \<Rightarrow> raise e)"

definition handle_payment_confirmed :: "string \<Rightarrow> string \<Rightarrow> order option svc" where
  "handle_payment_confirmed oid tid = bindA (get_by_id oid (Some tid)) (\<lambda>x. case x of
     None \<Rightarrow> ret None
   | Some x \<Rightarrow> if o_state x = PAID then ret (Some x) else none_on_conflict (do_paid_transition x))"

definition handle_credit_sale_resolved :: "string \<Rightarrow> string \<Rightarrow> order option svc" where
  "handle_credit_sale_resolved oid tid = bindA (get_by_id oid (Some tid)) (\<lambda>x. case x of
     None \<Rightarrow> ret None
   | Some x \<Rightarrow> if o_state x = PAID \<or> o_state x = FAILED then ret (Some x)
       else none_on_conflict (do_paid_transition x))"

section \<open>Line items\<close>

definition add_items :: "string \<Rightarrow> order_item_create list \<Rightarrow> string option \<Rightarrow> (order \<times> order_item list) svc" where
  "add_items oid its tid = bindA (get_or_404 oid tid) (\<lambda>x.
     if o_state x \<noteq> INQUIRY \<and> o_state x \<noteq> CONFIRMED
     then raise (ConflictError (ConflictMsg (''Cannot add items to an order in '' @ order_state_value (o_state x))))
     else thenA (add_all_items (o_id x) its)
       (thenA (set_order (o_id x) (\<lambda>x. x\<lparr>o_amount := Some (items_sum its)\<rparr>))
         (reload (o_id x))))"

section \<open>Listing\<close>

definition list_orders :: "string option \<Rightarrow> order_state option \<Rightarrow> date option \<Rightarrow> date option \<Rightarrow> nat \<Rightarrow> nat
    \<Rightarrow> ((order \<times> nat \<times> order_item list) list \<times> nat \<times> nat \<times> nat) svc" where
  "list_orders tid st fd td limit offset = bindA (repo_list_orders tid st fd td limit offset) (\<lambda>(rows, tot).
     getA (\<lambda>w. (map (\<lambda>(x, count). (x, count, items_of w (o_id x))) rows, tot, limit, offset)))"

section \<open>What the operations change\<close>

definition later :: "world \<Rightarrow> world \<Rightarrow> bool" where
  "later w w' \<longleftrightarrow> uuid_src w' = uuid_src w \<and> uuid_n w \<le> uuid_n w'"

lemma later_refl [simp]: "later w w"
  by (simp add: later_def)

lemma later_trans: "later w1 w2 \<Longrightarrow> later w2 w3 \<Longrightarrow> later w1 w3"
  by (simp add: later_def)

text \<open>
  The ways an operation may change the order tables. A change is made on behalf of a tenant scope;
  the flag says whether the creation of an order checks that its conversation has no open one.
\<close>

definition keeps_identity :: "(order \<Rightarrow> order) \<Rightarrow> bool" where
  "keeps_identity f \<longleftrightarrow> (\<forall>y. o_id (f y) = o_id y \<and> o_tenant_id (f y) = o_tenant_id y
     \<and> o_conversation_id (f y) = o_conversation_id y \<and> o_state (f y) = o_state y)"

inductive order_change :: "bool \<Rightarrow> string option \<Rightarrow> world \<Rightarrow> world \<Rightarrow> bool" for chk tid w where
  unchanged: "orders w' = orders w \<Longrightarrow> order_items w' = order_items w \<Longrightarrow> later w w' \<Longrightarrow> order_change chk tid w w'"
| moved: "x \<in> set (orders w) \<Longrightarrow> scoped tid (o_tenant_id x) \<Longrightarrow> transition (o_state x) t \<Longrightarrow>
    orders w' = update_where (\<lambda>y. o_id y = o_id x) (\<lambda>y. y\<lparr>o_state := t\<rparr>) (orders w) \<Longrightarrow>
    order_items w' = order_items w \<Longrightarrow> later w w' \<Longrightarrow> order_change chk tid w w'"
| created: "scoped tid (o_tenant_id row) \<Longrightarrow> o_state row = INQUIRY \<Longrightarrow> o_id row = uuid_src w (uuid_n w) \<Longrightarrow>
    (chk \<Longrightarrow> \<forall>y\<in>set (orders w). o_conversation_id y = o_conversation_id row \<and> o_tenant_id y = o_tenant_id row
        \<longrightarrow> terminal (o_state y)) \<Longrightarrow>
    orders w' = orders w @ [row] \<Longrightarrow> order_items w' = order_items w @ its \<Longrightarrow>
    (\<forall>i\<in>set its. oi_order_id i = o_id row) \<Longrightarrow> uuid_src w' = uuid_src w \<Longrightarrow> uuid_n w < uuid_n w' \<Longrightarrow>
    order_change chk tid w w'"
| edited: "x \<in> set (orders w) \<Longrightarrow> scoped tid (o_tenant_id x) \<Longrightarrow> \<not> terminal (o_state x) \<Longrightarrow>
    orders w' = update_where (\<lambda>y. o_id y = o_id x) f (orders w) \<Longrightarrow> keeps_identity f \<Longrightarrow>
    filter (\<lambda>i. oi_order_id i \<noteq> o_id x) (order_items w') = filter (\<lambda>i. oi_order_id i \<noteq> o_id x) (order_items w) \<Longrightarrow>
    later w w' \<Longrightarrow> order_change chk tid w w'"

lemma change_refl [simp]: "order_change chk tid w w"
  by (rule unchanged) simp_all

lemma unchanged_after:
  assumes "order_change chk tid w w1" and "orders w2 = orders w1" and "order_items w2 = order_items w1" and "later w1 w2"
  shows "order_change chk tid w w2"
  using assms(1)
proof cases
  case unchanged
  then show ?thesis using assms(2-4) by (intro order_change.unchanged) (auto intro: later_trans)
next
  case (moved x t)
  then show ?thesis using assms(2-4) by (intro order_change.moved [of x]) (auto intro: later_trans)
next
  case (created row its)
  then show ?thesis using assms(2-4) by (intro order_change.created [of tid row]) (auto simp: later_def)
next
  case (edited x f)
  then show ?thesis using assms(2-4) by (intro order_change.edited [of x w tid w2 f]) (auto intro: later_trans)
qed

lemma change_rollback:
  assumes "order_change chk tid w w1"
  shows "order_change chk tid w (restore_db w w1)"
  using assms by cases (auto intro!: order_change.unchanged simp: restore_db_def later_def)

section \<open>Equations of the helpers\<close>

lemma get_or_404_eq:
  "wf_orders w \<Longrightarrow> get_or_404 oid tid w = (case order_at w oid tid of
     None \<Rightarrow> (Inl (NotFoundError ''Order'' oid), w) | Some x \<Rightarrow> (Inr x, w))"
  by (simp add: get_or_404_def bindA_apply get_by_id_eq split: option.splits)

lemma transition_order_eq:
  "transition_order x t w = (if transition (o_state x) t
     then (Inr (x\<lparr>o_state := t\<rparr>), w\<lparr>orders := update_where (\<lambda>y. o_id y = o_id x) (\<lambda>y. y\<lparr>o_state := t\<rparr>) (orders w),
        uuid_n := Suc (uuid_n w), published := published w @ [\<lparr>ev_event_name = ''order.state_changed'',
          ev_tenant_id = o_tenant_id x, ev_payload = state_changed_payload x t, ev_event_id = uuid_src w (uuid_n w),
          ev_timestamp = clock w\<rparr>]\<rparr>)
     else (Inl (ConflictError (RefusedTransition (o_id x) (order_state_value (o_state x)) (order_state_value t))), w))"
  by (simp add: transition_order_def validate_transition_value InvalidTransitionError_def update_state_def act_simps)

lemma reload_state [simp]: "snd (reload oid w) = w"
  by (auto simp: reload_def bindA_apply get_by_id_def split: option.splits sum.splits)

lemma upsert_frame:
  "\<exists>r n cl. upsert_customer tp tid cp cn amt w = (r, w\<lparr>uuid_n := n, customer_list := cl\<rparr>) \<and> uuid_n w \<le> n"
proof (cases "fst (find_entry tp cp w)")
  case (Inl e)
  then have "upsert_customer tp tid cp cn amt w = (Inl e, w\<lparr>uuid_n := uuid_n w, customer_list := customer_list w\<rparr>)"
    by (simp add: upsert_customer_def find_entry_def bindA_apply)
  then show ?thesis by blast
next
  case (Inr found)
  then show ?thesis
  proof (cases found)
    case None
    with Inr have "upsert_customer tp tid cp cn amt w = (Inr (new_entry (uuid_src w (uuid_n w)) tid tp cp cn amt (clock w)),
        w\<lparr>uuid_n := Suc (uuid_n w), customer_list := customer_list w @ [new_entry (uuid_src w (uuid_n w)) tid tp cp cn amt (clock w)]\<rparr>)"
      by (simp add: upsert_customer_def find_entry_def bindA_apply Let_def)
    then show ?thesis using le_SucI by blast
  next
    case (Some e)
    with Inr have "upsert_customer tp tid cp cn amt w = (Inr (bump_entry (clock w) cn amt e),
        w\<lparr>uuid_n := uuid_n w, customer_list := update_where (\<lambda>x. cl_id x = cl_id e) (bump_entry (clock w) cn amt) (customer_list w)\<rparr>)"
      by (simp add: upsert_customer_def find_entry_def bindA_apply Let_def)
    then show ?thesis by blast
  qed
qed

text \<open>The state after the paid transition of a confirmed order, step by step.\<close>

definition paid_event :: "order \<Rightarrow> world \<Rightarrow> event" where
  "paid_event x w = \<lparr>ev_event_name = ''order.paid'', ev_tenant_id = o_tenant_id x,
     ev_payload = [(''order_id'', JStr (o_id x)), (''conversation_id'', JStr (o_conversation_id x)),
       (''previous_state'', JStr (order_state_value CONFIRMED)), (''new_state'', JStr (order_state_value PAID)),
       (''amount'', json_amount (o_amount x)), (''currency'', JStr (o_currency x))],
     ev_event_id = uuid_src w (uuid_n w), ev_timestamp = clock w\<rparr>"

definition after_paid :: "order \<Rightarrow> world \<Rightarrow> world" where
  "after_paid x w =
     (let w1 = exec (transition_order x PAID) w;
          w2 = exec (upsert_customer (str_or_empty (o_trader_phone x)) (o_tenant_id x) (str_or_empty (o_customer_phone x))
                       (o_customer_name x) (amount_or_0 (o_amount x))) w1;
          w3 = exec (advance_referral_to_first_order (str_or_empty (o_trader_phone x))) w2
      in w3\<lparr>uuid_n := Suc (uuid_n w3), published := published w3 @ [paid_event x w3]\<rparr>)"

lemma do_paid_transition_eq:
  "do_paid_transition x w = (if o_state x = CONFIRMED then (Inr (x\<lparr>o_state := PAID\<rparr>), after_paid x w)
     else (Inl (ConflictError (RefusedTransition (o_id x) (order_state_value (o_state x)) (order_state_value PAID))), w))"
proof (cases "o_state x = CONFIRMED")
  case True
  have t: "transition CONFIRMED PAID" by (rule transition.pay)
  have swallow: "tryA (thenA m (ret ())) (\<lambda>_. ret ()) w = (Inr (), exec m w)" for m :: "'b svc" and w
    by (auto simp: tryA_apply thenA_apply exec_def split: prod.splits sum.splits)
  have "tryA (advance_referral_to_first_order tp) (\<lambda>_. ret ()) w = (Inr (), exec (advance_referral_to_first_order tp) w)" for tp w
    by (simp add: tryA_apply advance_referral_to_first_order_def exec_def)
  then show ?thesis
    using True t by (simp add: do_paid_transition_def bindA_apply thenA_apply [of "tryA m h" for m h]
        thenA_apply [of "emit a b c" for a b c] swallow transition_order_eq [of x] after_paid_def exec_def [of "transition_order x PAID"]
        Let_def paid_event_def)
next
  case False
  then have "\<not> transition (o_state x) PAID" by (cases "o_state x") (auto simp: transition_iffs)
  with False show ?thesis by (simp add: do_paid_transition_def bindA_apply transition_order_eq)
qed

lemma after_paid_orders:
  assumes "o_state x = CONFIRMED"
  shows "orders (after_paid x w) = update_where (\<lambda>y. o_id y = o_id x) (\<lambda>y. y\<lparr>o_state := PAID\<rparr>) (orders w)
     \<and> order_items (after_paid x w) = order_items w \<and> later w (after_paid x w)"
proof -
  have t: "transition CONFIRMED PAID" by (rule transition.pay)
  let ?w1 = "exec (transition_order x PAID) w"
  obtain r n cl where u: "upsert_customer (str_or_empty (o_trader_phone x)) (o_tenant_id x) (str_or_empty (o_customer_phone x))
      (o_customer_name x) (amount_or_0 (o_amount x)) ?w1 = (r, ?w1\<lparr>uuid_n := n, customer_list := cl\<rparr>)" "uuid_n ?w1 \<le> n"
    using upsert_frame by blast
  have w1: "orders ?w1 = update_where (\<lambda>y. o_id y = o_id x) (\<lambda>y. y\<lparr>o_state := PAID\<rparr>) (orders w)"
    "order_items ?w1 = order_items w" "uuid_n ?w1 = Suc (uuid_n w)" "uuid_src ?w1 = uuid_src w"
    using t assms by (simp_all add: exec_def transition_order_eq)
  have "after_paid x w = (let w3 = exec (advance_referral_to_first_order (str_or_empty (o_trader_phone x)))
       (?w1\<lparr>uuid_n := n, customer_list := cl\<rparr>) in w3\<lparr>uuid_n := Suc (uuid_n w3), published := published w3 @ [paid_event x w3]\<rparr>)"
    unfolding after_paid_def by (simp add: exec_def [of "upsert_customer a b c d e" for a b c d e] u(1) Let_def)
  with w1 u(2) show ?thesis
    by (simp add: advance_referral_to_first_order_def exec_def [of "modA f" for f] Let_def later_def)
qed

definition item_data :: "order_item \<Rightarrow> string \<times> int \<times> decimal" where
  "item_data i = (oi_product_name i, oi_quantity i, oi_unit_price i)"

definition create_data :: "order_item_create \<Rightarrow> string \<times> int \<times> decimal" where
  "create_data i = (ic_name i, ic_quantity i, ic_unit_price i)"

lemma add_all_items_eq:
  obtains rows where "add_all_items oid its w = (Inr (), w\<lparr>uuid_n := uuid_n w + length its, order_items := order_items w @ rows\<rparr>)"
    and "\<forall>i\<in>set rows. oi_order_id i = oid" and "map item_data rows = map create_data its"
proof -
  have "\<exists>rows. add_all_items oid its w = (Inr (), w\<lparr>uuid_n := uuid_n w + length its, order_items := order_items w @ rows\<rparr>)
     \<and> (\<forall>i\<in>set rows. oi_order_id i = oid) \<and> map item_data rows = map create_data its"
  proof (induction its arbitrary: w)
    case Nil
    then show ?case by (intro exI [of _ "[]"]) (simp add: add_all_items_def)
  next
    case (Cons i its)
    let ?r = "\<lparr>oi_id = uuid_src w (uuid_n w), oi_order_id = oid, oi_product_name = ic_name i, oi_quantity = ic_quantity i,
      oi_unit_price = ic_unit_price i\<rparr>"
    let ?w = "w\<lparr>uuid_n := Suc (uuid_n w), order_items := order_items w @ [?r]\<rparr>"
    from Cons.IH [of ?w] obtain rows where
      rows: "add_all_items oid its ?w = (Inr (), ?w\<lparr>uuid_n := uuid_n ?w + length its, order_items := order_items ?w @ rows\<rparr>)"
      "\<forall>i\<in>set rows. oi_order_id i = oid" "map item_data rows = map create_data its" by blast
    have "add_item oid (ic_name i) (ic_quantity i) (ic_unit_price i) w = (Inr ?r, ?w)"
      by (simp add: add_item_def bindA_apply Let_def)
    then have "add_all_items oid (i # its) w = add_all_items oid its ?w"
      by (simp add: add_all_items_def thenA_apply)
    moreover have "item_data ?r = create_data i" by (simp add: item_data_def create_data_def)
    ultimately show ?case
      using rows by (intro exI [of _ "?r # rows"]) simp
  qed
  then show thesis using that by blast
qed

lemma rows_sum_items: "map item_data rows = map create_data its \<Longrightarrow> rows_sum rows = items_sum its"
proof -
  assume m: "map item_data rows = map create_data its"
  have "rows_sum rows = (\<Sum>(n, q, p)\<leftarrow>map item_data rows. p * of_int q)"
    by (simp add: rows_sum_def item_data_def comp_def)
  also have "\<dots> = items_sum its"
    unfolding m by (simp add: items_sum_def create_data_def comp_def)
  finally show ?thesis .
qed

section \<open>Operations of the API\<close>

datatype order_op =
    CreateFromConversation string string "string option"
  | CreateOrder order_create
  | ConfirmOrder string "string option"
  | MarkOrderPaid string "string option"
  | CompleteOrder string "string option"
  | FailOrder string "string option"
  | AddItems string "order_item_create list" "string option"
  | PaymentConfirmed string string
  | CreditSaleResolved string string

fun op_tenant :: "order_op \<Rightarrow> string option" where
  "op_tenant (CreateFromConversation tid conv cid) = Some tid"
| "op_tenant (CreateOrder d) = Some (oc_tenant_id d)"
| "op_tenant (ConfirmOrder oid tid) = tid"
| "op_tenant (MarkOrderPaid oid tid) = tid"
| "op_tenant (CompleteOrder oid tid) = tid"
| "op_tenant (FailOrder oid tid) = tid"
| "op_tenant (AddItems oid its tid) = tid"
| "op_tenant (PaymentConfirmed oid tid) = Some tid"
| "op_tenant (CreditSaleResolved oid tid) = Some tid"

text \<open>Each operation in its transaction: a request or an event handler.\<close>

fun order_step :: "order_op \<Rightarrow> world \<Rightarrow> world" where
  "order_step (CreateFromConversation tid conv cid) w = exec (session_begin (create_order_from_conversation tid conv cid)) w"
| "order_step (CreateOrder d) w = exec (session_begin (create_order d)) w"
| "order_step (ConfirmOrder oid tid) w = exec (session_begin (confirm_order oid tid)) w"
| "order_step (MarkOrderPaid oid tid) w = exec (session_begin (mark_order_paid oid tid)) w"
| "order_step (CompleteOrder oid tid) w = exec (session_begin (complete_order oid tid)) w"
| "order_step (FailOrder oid tid) w = exec (session_begin (fail_order oid tid)) w"
| "order_step (AddItems oid its tid) w = exec (session_begin (add_items oid its tid)) w"
| "order_step (PaymentConfirmed oid tid) w = exec (session_begin (handle_payment_confirmed oid tid)) w"
| "order_step (CreditSaleResolved oid tid) w = exec (session_begin (handle_credit_sale_resolved oid tid)) w"

lemma change_session: "order_change chk tid w (snd (m w)) \<Longrightarrow> order_change chk tid w (exec (session_begin m) w)"
  by (auto simp: exec_def session_begin_def change_rollback split: prod.splits sum.splits)

lemma snd_bind_reload: "snd (bindA m (\<lambda>x. reload (f x)) w) = snd (m w)"
  by (auto simp: bindA_apply split: prod.splits sum.splits)

lemma change_transition:
  assumes "order_at w oid tid = Some x"
  shows "order_change chk tid w (snd (transition_order x t w))"
proof (cases "transition (o_state x) t")
  case True
  with order_at_Some [OF assms] show ?thesis
    by (intro order_change.moved [of x _ _ t]) (simp_all add: transition_order_eq later_def)
qed (simp add: transition_order_eq)

lemma change_paid:
  assumes "order_at w oid tid = Some x"
  shows "order_change chk tid w (snd (do_paid_transition x w))"
proof (cases "o_state x = CONFIRMED")
  case True
  have "transition CONFIRMED PAID" by (rule transition.pay)
  with True order_at_Some [OF assms] after_paid_orders [OF True, of w] show ?thesis
    by (intro order_change.moved [of x _ _ PAID]) (simp_all add: do_paid_transition_eq)
qed (simp add: do_paid_transition_eq)

lemma change_none_on_conflict:
  "order_change chk tid w (snd (m w)) \<Longrightarrow> order_change chk tid w (snd (none_on_conflict m w))"
  by (auto simp: none_on_conflict_def tryA_apply bindA_apply split: prod.splits sum.splits error.splits)

lemma change_get_or_404:
  assumes "wf_orders w" and "\<And>x. order_at w oid tid = Some x \<Longrightarrow> order_change chk tid w (snd (f x w))"
  shows "order_change chk tid w (snd (bindA (get_or_404 oid tid) f w))"
  using assms(2) by (simp add: bindA_apply get_or_404_eq [OF assms(1)] split: option.splits)

lemma change_get_by_id:
  assumes "wf_orders w" and "\<And>x. order_at w oid tid = Some x \<Longrightarrow> order_change chk tid w (snd (f (Some x) w))"
    and "f None w = (r, w)"
  shows "order_change chk tid w (snd (bindA (get_by_id oid tid) f w))"
  using assms(2,3) by (cases "order_at w oid tid") (simp_all add: bindA_apply get_by_id_eq [OF assms(1)])

lemma get_open_cases:
  obtains x where "get_open_order_for_conversation conv tid w = (Inr (Some x), w)"
      and "x \<in> set (orders w)" and "o_conversation_id x = conv" and "o_tenant_id x = tid" and "\<not> terminal (o_state x)"
  | "get_open_order_for_conversation conv tid w = (Inr None, w)"
      and "\<forall>y\<in>set (orders w). o_conversation_id y = conv \<and> o_tenant_id y = tid \<longrightarrow> terminal (o_state y)"
proof -
  obtain v where v: "get_open_order_for_conversation conv tid w = (Inr v, w)"
    by (simp only: get_open_eq)
  then show thesis
  proof (cases v)
    case None
    with v show thesis using that(2) get_open_None by blast
  next
    case (Some x)
    with v show thesis using that(1) get_open_Some by blast
  qed
qed

lemma change_create_from_conversation:
  "order_change True (Some tid) w (snd (create_order_from_conversation tid conv cid w))"
proof (cases rule: get_open_cases [of conv tid w])
  case (2)
  then show ?thesis
    by (intro order_change.created [of _ "create_order_row (uuid_src w (uuid_n w)) tid conv cid None None None None ''NGN'' (clock w)" _ _ _ "[]"])
      (simp_all add: create_order_from_conversation_def bindA_apply thenA_apply repo_create_order_def Let_def
        create_order_row_def scoped_def)
qed (simp add: create_order_from_conversation_def bindA_apply)

lemma change_create_order: "order_change True (Some (oc_tenant_id d)) w (snd (create_order d w))"
proof (cases rule: get_open_cases [of "oc_conversation_id d" "oc_tenant_id d" w])
  case (1 x)
  let ?f = "\<lambda>x. x\<lparr>o_amount := none_if_zero (items_sum (oc_items d)), o_currency := oc_currency d\<rparr>"
  let ?w = "w\<lparr>order_items := filter (\<lambda>it. oi_order_id it \<noteq> o_id x) (order_items w),
     orders := update_where (\<lambda>y. o_id y = o_id x) ?f (orders w)\<rparr>"
  obtain rows where rows: "add_all_items (o_id x) (oc_items d) ?w =
      (Inr (), ?w\<lparr>uuid_n := uuid_n ?w + length (oc_items d), order_items := order_items ?w @ rows\<rparr>)"
    "\<forall>i\<in>set rows. oi_order_id i = o_id x"
    by (rule add_all_items_eq)
  have "snd (create_order d w) = ?w\<lparr>uuid_n := uuid_n ?w + length (oc_items d), order_items := order_items ?w @ rows\<rparr>"
    using rows(1) by (simp add: create_order_def Let_def bindA_apply thenA_apply 1 delete_items_for_order_def set_order_def)
  with 1 rows(2) show ?thesis
    by (intro order_change.edited [where x = x and f = ?f])
      (simp_all add: scoped_def later_def keeps_identity_def filter_empty_conv)
next
  case 2
  let ?row = "create_order_row (uuid_src w (uuid_n w)) (oc_tenant_id d) (oc_conversation_id d) (oc_customer_id d) None None None
    (none_if_zero (items_sum (oc_items d))) (oc_currency d) (clock w)"
  let ?w = "w\<lparr>uuid_n := Suc (uuid_n w), orders := orders w @ [?row]\<rparr>"
  have id: "o_id ?row = uuid_src w (uuid_n w)" by (simp add: create_order_row_def)
  obtain rows where rows: "add_all_items (uuid_src w (uuid_n w)) (oc_items d) ?w =
      (Inr (), ?w\<lparr>uuid_n := uuid_n ?w + length (oc_items d), order_items := order_items ?w @ rows\<rparr>)"
    "\<forall>i\<in>set rows. oi_order_id i = uuid_src w (uuid_n w)"
    by (rule add_all_items_eq)
  let ?w' = "snd (create_order d w)"
  have w': "orders ?w' = orders w @ [?row]" "order_items ?w' = order_items w @ rows" "uuid_src ?w' = uuid_src w" "uuid_n w < uuid_n ?w'"
    using rows(1) by (simp_all add: create_order_def Let_def bindA_apply thenA_apply 2 repo_create_order_def id)
  show ?thesis
    by (rule order_change.created [of _ ?row, OF _ _ id _ w'(1,2) _ w'(3,4)])
      (use 2 rows(2) in \<open>simp_all add: create_order_row_def scoped_def\<close>)
qed

lemma change_add_items:
  assumes "wf_orders w"
  shows "order_change True tid w (snd (add_items oid its tid w))"
  unfolding add_items_def
proof (rule change_get_or_404 [OF assms])
  fix x assume x: "order_at w oid tid = Some x"
  show "order_change True tid w (snd ((if o_state x \<noteq> INQUIRY \<and> o_state x \<noteq> CONFIRMED
     then raise (ConflictError (ConflictMsg (''Cannot add items to an order in '' @ order_state_value (o_state x))))
     else thenA (add_all_items (o_id x) its)
       (thenA (set_order (o_id x) (\<lambda>x. x\<lparr>o_amount := Some (items_sum its)\<rparr>)) (reload (o_id x)))) w))"
  proof (cases "terminal (o_state x)")
    case False
    then have st: "\<not> (o_state x \<noteq> INQUIRY \<and> o_state x \<noteq> CONFIRMED)"
      by (cases "o_state x") (simp_all add: terminal_def)
    obtain rows where rows: "add_all_items (o_id x) its w = (Inr (), w\<lparr>uuid_n := uuid_n w + length its, order_items := order_items w @ rows\<rparr>)"
      "\<forall>i\<in>set rows. oi_order_id i = o_id x"
      by (rule add_all_items_eq)
    show ?thesis
      by (rule order_change.edited [where x = x and f = "\<lambda>x. x\<lparr>o_amount := Some (items_sum its)\<rparr>"])
        (use False rows order_at_Some [OF x] in \<open>simp_all add: st thenA_apply set_order_def later_def keeps_identity_def filter_empty_conv\<close>)
  qed (auto simp: terminal_def)
qed

lemma order_step_change:
  assumes wf: "wf_orders w"
  shows "order_change True (op_tenant op) w (order_step op w)"
proof (cases op)
  case (CreateFromConversation tid conv cid)
  then show ?thesis by (simp add: change_session change_create_from_conversation)
next
  case (CreateOrder d)
  then show ?thesis by (simp add: change_session change_create_order)
next
  case (AddItems oid its tid)
  then show ?thesis by (simp add: change_session change_add_items [OF wf])
next
  case (PaymentConfirmed oid tid)
  then show ?thesis
    unfolding PaymentConfirmed order_step.simps op_tenant.simps
    by (intro change_session, unfold handle_payment_confirmed_def, intro change_get_by_id [OF wf])
      (auto intro: change_none_on_conflict change_paid)
next
  case (CreditSaleResolved oid tid)
  then show ?thesis
    unfolding CreditSaleResolved order_step.simps op_tenant.simps
    by (intro change_session, unfold handle_credit_sale_resolved_def, intro change_get_by_id [OF wf])
      (auto intro: change_none_on_conflict change_paid)
qed (auto intro!: change_session change_get_or_404 [OF wf] intro: change_transition change_paid
    simp: confirm_order_def mark_order_paid_def complete_order_def fail_order_def snd_bind_reload)

section \<open>Invariants of a change\<close>

lemma later_ids: "later w w' \<Longrightarrow> uuid_src w' = uuid_src w \<and> uuid_n w \<le> uuid_n w'"
  by (simp add: later_def)

lemma wf_orders_update:
  assumes "wf_orders w" and "orders w' = update_where p f (orders w)" and "\<And>x. o_id (f x) = o_id x"
    and "\<forall>i\<in>set (order_items w'). i \<in> set (order_items w) \<or> oi_order_id i \<in> o_id ` set (orders w)" and "later w w'"
  shows "wf_orders w'"
proof -
  have "map o_id (orders w') = map o_id (orders w)"
    unfolding assms(2) by (rule map_update_where_same) (rule assms(3))
  then have ids: "order_ids w' = order_ids w" by (simp add: order_ids_def)
  have "oi_order_id it \<noteq> uuid_src w n" if "uuid_n w \<le> n" "it \<in> set (order_items w')" for n it
  proof (cases "it \<in> set (order_items w)")
    case True
    with assms(1) that(1) show ?thesis by (simp add: wf_orders_def)
  next
    case False
    with assms(4) that(2) have "oi_order_id it \<in> set (order_ids w)" by (auto simp: order_ids_def)
    with assms(1) that(1) show ?thesis by (auto simp: wf_orders_def)
  qed
  with assms(1,5) ids show ?thesis by (simp add: wf_orders_def later_def)
qed

lemma change_wf:
  assumes "order_change chk tid w w'" and wf: "wf_orders w"
  shows "wf_orders w'"
  using assms(1)
proof cases
  case unchanged
  with wf show ?thesis by (auto simp: wf_orders_def order_ids_def later_def)
next
  case (moved x t)
  then show ?thesis
    by (intro wf_orders_update [OF wf moved(4)]) auto
next
  case (created row its)
  have fresh: "uuid_src w n \<noteq> uuid_src w (uuid_n w)" if "uuid_n w < n" for n
    using wf that by (auto simp: wf_orders_def dest: injD)
  have "oi_order_id it \<noteq> uuid_src w n" if n: "uuid_n w < n" and it: "it \<in> set (order_items w')" for n it
  proof (cases "it \<in> set its")
    case True
    with created(3,7) fresh [OF n] show ?thesis by simp
  next
    case False
    with it created(6) wf n show ?thesis by (simp add: wf_orders_def)
  qed
  moreover have "uuid_src w n \<notin> set (order_ids w')" if "uuid_n w < n" for n
    using wf that fresh [OF that] created(3,5) by (simp add: wf_orders_def order_ids_def)
  moreover have "distinct (order_ids w')"
    using wf_orders_distinct [OF wf] wf_orders_fresh [OF wf] created(3,5) by (simp add: order_ids_def)
  ultimately show ?thesis
    using wf created(8,9) by (simp add: wf_orders_def)
next
  case (edited x f)
  have "oi_order_id it = o_id x" if "it \<in> set (order_items w') - set (order_items w)" for it
    using that arg_cong [OF edited(6), of set] by auto
  with edited show ?thesis
    by (intro wf_orders_update [OF wf edited(4)]) (auto simp: keeps_identity_def)
qed

text \<open>What becomes of the order at a position of the table.\<close>

lemma change_nth:
  assumes "order_change chk tid w w'" and wf: "wf_orders w" and i: "i < length (orders w)"
  defines "x \<equiv> orders w ! i" and "x' \<equiv> orders w' ! i"
  shows "i < length (orders w') \<and> o_id x' = o_id x \<and> o_tenant_id x' = o_tenant_id x
     \<and> (o_state x' = o_state x \<or> transition (o_state x) (o_state x'))
     \<and> (terminal (o_state x) \<or> \<not> scoped tid (o_tenant_id x) \<longrightarrow>
          x' = x \<and> items_of w' (o_id x) = items_of w (o_id x))"
  using assms(1)
proof cases
  case unchanged
  then show ?thesis using i by (simp add: x_def x'_def items_of_def)
next
  case (moved y t)
  have same: "orders w ! i = y" if "o_id (orders w ! i) = o_id y"
    using wf_orders_distinct [OF wf] i moved(1) that by (auto simp: distinct_map inj_on_def)
  have "x' = (if o_id x = o_id y then x\<lparr>o_state := t\<rparr> else x)"
    using i by (simp add: x_def x'_def moved(4) update_where_def)
  moreover have "\<not> terminal (o_state y)" using moved(3) terminal_iff_stuck by blast
  ultimately show ?thesis
    using i same moved by (auto simp: x_def items_of_def)
next
  case (created row its)
  have "o_id x \<noteq> o_id row"
    using wf_orders_fresh [OF wf] nth_mem [OF i] created(3) by (metis imageI x_def)
  then have "items_of w' (o_id x) = items_of w (o_id x)"
    using created(6,7) by (auto simp: items_of_def filter_empty_conv)
  with i created(5) show ?thesis by (simp add: x_def x'_def nth_append)
next
  case (edited y f)
  have same: "orders w ! i = y" if "o_id (orders w ! i) = o_id y"
    using wf_orders_distinct [OF wf] i edited(1) that by (auto simp: distinct_map inj_on_def)
  have x': "x' = (if o_id x = o_id y then f x else x)"
    using i by (simp add: x_def x'_def edited(4) update_where_def)
  have "items_of w' (o_id x) = items_of w (o_id x)" if "o_id x \<noteq> o_id y"
  proof -
    have "items_of v (o_id x) = filter (\<lambda>i. oi_order_id i = o_id x) (filter (\<lambda>i. oi_order_id i \<noteq> o_id y) (order_items v))" for v
      using that by (auto simp: items_of_def intro: filter_cong)
    then show ?thesis by (simp only: edited(6))
  qed
  with x' i same edited show ?thesis by (auto simp: x_def keeps_identity_def)
qed

lemma order_steps_wf: "wf_orders w \<Longrightarrow> wf_orders (fold order_step ops w)"
  by (induction ops arbitrary: w) (auto intro: change_wf [OF order_step_change])

section \<open>Properties\<close>

lemma orders_follow:
  assumes "wf_orders w" and "i < length (orders w)"
  shows "i < length (orders (fold order_step ops w))
     \<and> o_id (orders (fold order_step ops w) ! i) = o_id (orders w ! i)
     \<and> (terminal (o_state (orders w ! i)) \<longrightarrow>
          orders (fold order_step ops w) ! i = orders w ! i
          \<and> items_of (fold order_step ops w) (o_id (orders w ! i)) = items_of w (o_id (orders w ! i)))"
  using assms
proof (induction ops arbitrary: w)
  case (Cons op ops)
  note step = order_step_change [OF Cons.prems(1), of op]
  note nth = change_nth [OF step Cons.prems]
  from Cons.IH [OF change_wf [OF step Cons.prems(1)], of] nth show ?case by auto
qed simp

text \<open>
  C8: the life cycle of an order. Whatever sequence of operations the API and the event handlers perform, in
  any order and for any orders, each single operation leaves the state of every order that exists as it is or moves it
  along one transition of the documented table; an order keeps its identifier throughout, and once it is PAID or
  FAILED neither its row nor its line items ever change.
\<close>

theorem order_lifecycle:
  assumes "wf_orders w" and "i < length (orders w)"
  shows "(\<forall>n<length ops. let v = fold order_step (take n ops) w; v' = order_step (ops ! n) v in
          \<forall>j<length (orders v). j < length (orders v') \<and> o_id (orders v' ! j) = o_id (orders v ! j)
            \<and> (o_state (orders v' ! j) = o_state (orders v ! j) \<or> transition (o_state (orders v ! j)) (o_state (orders v' ! j))))
     \<and> i < length (orders (fold order_step ops w))
     \<and> o_id (orders (fold order_step ops w) ! i) = o_id (orders w ! i)
     \<and> (terminal (o_state (orders w ! i)) \<longrightarrow>
          orders (fold order_step ops w) ! i = orders w ! i
          \<and> items_of (fold order_step ops w) (o_id (orders w ! i)) = items_of w (o_id (orders w ! i)))"
proof
  show "\<forall>n<length ops. let v = fold order_step (take n ops) w; v' = order_step (ops ! n) v in
          \<forall>j<length (orders v). j < length (orders v') \<and> o_id (orders v' ! j) = o_id (orders v ! j)
            \<and> (o_state (orders v' ! j) = o_state (orders v ! j) \<or> transition (o_state (orders v ! j)) (o_state (orders v' ! j)))"
    unfolding Let_def
  proof (intro allI impI, goal_cases)
    case (1 n j)
    have wf: "wf_orders (fold order_step (take n ops) w)" by (rule order_steps_wf [OF assms(1)])
    from change_nth [OF order_step_change [OF wf] wf 1(2)] show ?case by blast
  qed
qed (rule orders_follow [OF assms])

definition one_order :: "order_state \<Rightarrow> world" where
  "one_order s = empty_world\<lparr>orders := [(create_order_row ''o1'' ''t1'' ''c1'' None (Some ''234'') None (Some ''080'') (Some 100) ''NGN'' 0)\<lparr>o_state := s\<rparr>]\<rparr>"

lemma wf_one_order: "wf_orders (one_order s)"
  by (rule wf_orders_example) (simp_all add: one_order_def create_order_row_def empty_world_def)

theorem order_lifecycle_witness:
  "terminal PAID \<and> orders (fold order_step [FailOrder ''o1'' None, AddItems ''o1'' [] None, MarkOrderPaid ''o1'' None] (one_order PAID)) ! 0
     = orders (one_order PAID) ! 0"
proof -
  have "0 < length (orders (one_order PAID))" by (simp add: one_order_def)
  from order_lifecycle [OF wf_one_order this, of "[FailOrder ''o1'' None, AddItems ''o1'' [] None, MarkOrderPaid ''o1'' None]"]
  show ?thesis by (auto simp: one_order_def terminal_def)
qed

text \<open>
  C9: tenants are isolated. Operations scoped to a tenant, however many, leave every order of every other
  tenant, and its line items, as they were.
\<close>

theorem tenant_isolation:
  assumes "wf_orders w" and "i < length (orders w)" and "t \<noteq> []"
    and "\<forall>op\<in>set ops. op_tenant op = Some t" and "o_tenant_id (orders w ! i) \<noteq> t"
  shows "i < length (orders (fold order_step ops w)) \<and> orders (fold order_step ops w) ! i = orders w ! i
     \<and> items_of (fold order_step ops w) (o_id (orders w ! i)) = items_of w (o_id (orders w ! i))"
  using assms
proof (induction ops arbitrary: w)
  case (Cons op ops)
  note step = order_step_change [OF Cons.prems(1), of op]
  have "\<not> scoped (op_tenant op) (o_tenant_id (orders w ! i))"
    using Cons.prems(3-5) by (simp add: scoped_def)
  with change_nth [OF step Cons.prems(1,2)]
  have nth: "i < length (orders (order_step op w))" "orders (order_step op w) ! i = orders w ! i"
    "items_of (order_step op w) (o_id (orders w ! i)) = items_of w (o_id (orders w ! i))" by blast+
  from Cons.IH [OF change_wf [OF step Cons.prems(1)] nth(1) Cons.prems(3)] Cons.prems(4,5) nth(2,3) show ?case
    by simp
qed simp

theorem tenant_isolation_witness:
  "orders (fold order_step [ConfirmOrder ''o1'' (Some ''t2''), FailOrder ''o1'' (Some ''t2'')] (one_order INQUIRY)) ! 0
     = orders (one_order INQUIRY) ! 0"
proof -
  have "0 < length (orders (one_order INQUIRY))" by (simp add: one_order_def)
  from tenant_isolation [OF wf_one_order this, of "''t2''" "[ConfirmOrder ''o1'' (Some ''t2''), FailOrder ''o1'' (Some ''t2'')]"]
  show ?thesis by (simp add: one_order_def create_order_row_def)
qed

text \<open>Open orders per tenant and conversation.\<close>

definition open_conversations :: "world \<Rightarrow> (string \<times> string) list" where
  "open_conversations w = map (\<lambda>x. (o_tenant_id x, o_conversation_id x)) (filter (\<lambda>x. \<not> terminal (o_state x)) (orders w))"

lemma distinct_open_update:
  assumes "distinct (map g (filter q xs))" and "\<And>x. g (f x) = g x" and "\<And>x. x \<in> set xs \<Longrightarrow> p x \<Longrightarrow> q (f x) \<Longrightarrow> q x"
  shows "distinct (map g (filter q (update_where p f xs))) \<and> g ` set (filter q (update_where p f xs)) \<subseteq> g ` set (filter q xs)"
  using assms(1,3)
proof (induction xs)
  case (Cons x xs)
  from Cons.prems have d: "distinct (map g (filter q xs))" by (auto split: if_splits)
  have s: "\<And>y. y \<in> set xs \<Longrightarrow> p y \<Longrightarrow> q (f y) \<Longrightarrow> q y" using Cons.prems(2) by simp
  note IH = Cons.IH [OF d s]
  have head: "g (if p x then f x else x) = g x" by (simp add: assms(2))
  have "q (if p x then f x else x) \<Longrightarrow> q x" using Cons.prems(2) [of x] by (auto split: if_splits)
  with Cons.prems(1) IH head show ?case by (auto split: if_splits)
qed simp

lemma change_one_open:
  assumes "order_change True tid w w'" and wf: "wf_orders w" and d: "distinct (open_conversations w)"
  shows "distinct (open_conversations w')"
  using assms(1)
proof cases
  case unchanged
  with d show ?thesis by (simp add: open_conversations_def)
next
  case (moved x t)
  have "\<not> terminal (o_state y)" if "y \<in> set (orders w)" "o_id y = o_id x" for y
    using moved(1,3) that wf_orders_distinct [OF wf] terminal_iff_stuck by (auto simp: distinct_map inj_on_def)
  then show ?thesis
    using distinct_open_update [of "\<lambda>x. (o_tenant_id x, o_conversation_id x)" "\<lambda>x. \<not> terminal (o_state x)" "orders w"
        "\<lambda>y. y\<lparr>o_state := t\<rparr>" "\<lambda>y. o_id y = o_id x"] d
    by (simp add: open_conversations_def moved(4))
next
  case (created row its)
  then have "(o_tenant_id row, o_conversation_id row) \<notin> set (open_conversations w)"
    by (auto simp: open_conversations_def)
  with d created(2,5) show ?thesis by (simp add: open_conversations_def)
next
  case (edited x f)
  then show ?thesis
    using distinct_open_update [of "\<lambda>x. (o_tenant_id x, o_conversation_id x)" "\<lambda>x. \<not> terminal (o_state x)" "orders w"
        f "\<lambda>y. o_id y = o_id x"] d
    by (simp add: open_conversations_def keeps_identity_def)
qed

text \<open>
  A conversation has at most one open order. If that holds at the start, it holds after any sequence of
  operations, because both ways of creating an order look for an open one first.
\<close>

theorem one_open_order_per_conversation:
  assumes "wf_orders w" and "distinct (open_conversations w)"
  shows "distinct (open_conversations (fold order_step ops w))"
  using assms
proof (induction ops arbitrary: w)
  case (Cons op ops)
  note step = order_step_change [OF Cons.prems(1), of op]
  from Cons.IH [OF change_wf [OF step Cons.prems(1)] change_one_open [OF step Cons.prems]] show ?case by simp
qed simp

theorem one_open_order_per_conversation_witness:
  "distinct (open_conversations (fold order_step
     [CreateFromConversation ''t1'' ''c1'' None, FailOrder ''o1'' None, CreateFromConversation ''t1'' ''c1'' None] (one_order INQUIRY)))"
proof -
  have "distinct (open_conversations (one_order INQUIRY))"
    by (simp add: open_conversations_def one_order_def)
  from one_open_order_per_conversation [OF wf_one_order this] show ?thesis .
qed

text \<open>The effects of the paid transition beyond the orders.\<close>

lemma transition_exec:
  assumes "transition (o_state x) t"
  shows "referrals (exec (transition_order x t) w) = referrals w \<and> clock (exec (transition_order x t) w) = clock w
     \<and> customer_list (exec (transition_order x t) w) = customer_list w
     \<and> uuid_src (exec (transition_order x t) w) = uuid_src w \<and> uuid_n w \<le> uuid_n (exec (transition_order x t) w)
     \<and> (\<exists>e. published (exec (transition_order x t) w) = published w @ [e] \<and> ev_event_name e = ''order.state_changed''
            \<and> ev_tenant_id e = o_tenant_id x \<and> ev_payload e = state_changed_payload x t)"
  using assms by (simp add: exec_def transition_order_eq)

lemma after_paid_effects:
  assumes "o_state x = CONFIRMED" and wf: "wf_customers w"
  shows "ledger_of (after_paid x w) = record_purchase (str_or_empty (o_trader_phone x)) (str_or_empty (o_customer_phone x))
            (amount_or_0 (o_amount x)) (ledger_of w)
     \<and> wf_customers (after_paid x w)
     \<and> referrals (after_paid x w) = update_where (\<lambda>r. rf_referred_phone r = str_or_empty (o_trader_phone x) \<and> rf_status r = SIGNED_UP)
            (\<lambda>r. r\<lparr>rf_status := FIRST_ORDER, rf_first_order_at := Some (clock w)\<rparr>) (referrals w)
     \<and> (\<exists>e w3. published (after_paid x w) = published w @ [e, paid_event x w3] \<and> ev_event_name e = ''order.state_changed''
            \<and> ev_tenant_id e = o_tenant_id x \<and> ev_payload e = state_changed_payload x PAID)"
proof -
  have t: "transition (o_state x) PAID" using assms(1) transition.pay by simp
  define w1 where "w1 = exec (transition_order x PAID) w"
  note w1 = transition_exec [OF t, of w, folded w1_def]
  define u where "u = upsert_customer (str_or_empty (o_trader_phone x)) (o_tenant_id x) (str_or_empty (o_customer_phone x))
      (o_customer_name x) (amount_or_0 (o_amount x))"
  define w3 where "w3 = exec (advance_referral_to_first_order (str_or_empty (o_trader_phone x))) (exec u w1)"
  have ap: "after_paid x w = w3\<lparr>uuid_n := Suc (uuid_n w3), published := published w3 @ [paid_event x w3]\<rparr>"
    by (simp add: after_paid_def w1_def u_def w3_def Let_def)
  have wf1: "wf_customers w1" using wf w1 by (simp add: wf_customers_def)
  have "ledger_of w1 = ledger_of w" using w1 by (simp add: ledger_of_def entry_at_def)
  then have led2: "ledger_of (exec u w1) = record_purchase (str_or_empty (o_trader_phone x)) (str_or_empty (o_customer_phone x))
      (amount_or_0 (o_amount x)) (ledger_of w)"
    unfolding u_def using upsert_refines_ledger [OF wf1] by simp
  obtain r n cl where fr: "u w1 = (r, w1\<lparr>uuid_n := n, customer_list := cl\<rparr>)"
    unfolding u_def using upsert_frame by blast
  then have w2: "exec u w1 = w1\<lparr>uuid_n := n, customer_list := cl\<rparr>" by (simp add: exec_def)
  have wf2: "wf_customers (exec u w1)" unfolding u_def by (rule wf_upsert [OF wf1])
  have w3: "w3 = (exec u w1)\<lparr>referrals := update_where (\<lambda>r. rf_referred_phone r = str_or_empty (o_trader_phone x) \<and> rf_status r = SIGNED_UP)
            (\<lambda>r. r\<lparr>rf_status := FIRST_ORDER, rf_first_order_at := Some (clock w)\<rparr>) (referrals w)\<rparr>"
    unfolding w3_def advance_referral_to_first_order_def using w1 by (simp add: exec_def [of "modA f" for f] w2)
  have "ledger_of (after_paid x w) = ledger_of (exec u w1)"
    unfolding ap w3 by (simp add: ledger_of_def entry_at_def)
  moreover have "published w3 = published w1" unfolding w3 w2 by simp
  moreover have "wf_customers (after_paid x w)" using wf2 unfolding ap w3 by (simp add: wf_customers_def)
  moreover have "referrals (after_paid x w) = update_where (\<lambda>r. rf_referred_phone r = str_or_empty (o_trader_phone x) \<and> rf_status r = SIGNED_UP)
            (\<lambda>r. r\<lparr>rf_status := FIRST_ORDER, rf_first_order_at := Some (clock w)\<rparr>) (referrals w)"
    unfolding ap w3 by simp
  moreover have "published (after_paid x w) = published w3 @ [paid_event x w3]" unfolding ap by simp
  ultimately show ?thesis using led2 w1 by (auto simp del: append_assoc simp: append_assoc [symmetric])
qed

text \<open>
  Paying an order does exactly what it should. For a CONFIRMED order, the order becomes PAID and no
  other order changes, the trader's customer list records one more purchase of this amount by this
  customer (and nothing else), a referral of the trader still at sign-up reaches its first-order
  milestone, and two events follow: the state change and the payment with its amount. For an order in any
  other state it raises a conflict and changes nothing.
\<close>

theorem paid_transition_effects:
  assumes "wf_customers w" and "x \<in> set (orders w)"
  shows "if o_state x = CONFIRMED then
       do_paid_transition x w = (Inr (x\<lparr>o_state := PAID\<rparr>), after_paid x w)
       \<and> orders (after_paid x w) = update_where (\<lambda>y. o_id y = o_id x) (\<lambda>y. y\<lparr>o_state := PAID\<rparr>) (orders w)
       \<and> ledger_of (after_paid x w) = record_purchase (str_or_empty (o_trader_phone x)) (str_or_empty (o_customer_phone x))
            (amount_or_0 (o_amount x)) (ledger_of w)
       \<and> referrals (after_paid x w) = update_where (\<lambda>r. rf_referred_phone r = str_or_empty (o_trader_phone x) \<and> rf_status r = SIGNED_UP)
            (\<lambda>r. r\<lparr>rf_status := FIRST_ORDER, rf_first_order_at := Some (clock w)\<rparr>) (referrals w)
       \<and> (\<exists>e1 e2. published (after_paid x w) = published w @ [e1, e2] \<and> ev_event_name e1 = ''order.state_changed''
            \<and> ev_event_name e2 = ''order.paid'' \<and> ev_tenant_id e1 = o_tenant_id x \<and> ev_tenant_id e2 = o_tenant_id x
            \<and> payload_get (ev_payload e2) ''order_id'' JNull = JStr (o_id x)
            \<and> payload_get (ev_payload e2) ''amount'' JNull = json_amount (o_amount x))
     else do_paid_transition x w =
       (Inl (ConflictError (RefusedTransition (o_id x) (order_state_value (o_state x)) ''paid'')), w)"
proof (cases "o_state x = CONFIRMED")
  case True
  obtain e w3 where "published (after_paid x w) = published w @ [e, paid_event x w3]" "ev_event_name e = ''order.state_changed''"
    "ev_tenant_id e = o_tenant_id x"
    using after_paid_effects [OF True assms(1)] by blast
  then have "\<exists>e1 e2. published (after_paid x w) = published w @ [e1, e2] \<and> ev_event_name e1 = ''order.state_changed''
            \<and> ev_event_name e2 = ''order.paid'' \<and> ev_tenant_id e1 = o_tenant_id x \<and> ev_tenant_id e2 = o_tenant_id x
            \<and> payload_get (ev_payload e2) ''order_id'' JNull = JStr (o_id x)
            \<and> payload_get (ev_payload e2) ''amount'' JNull = json_amount (o_amount x)"
    by (intro exI [of _ e] exI [of _ "paid_event x w3"]) (simp add: paid_event_def payload_get_def)
  with True after_paid_orders [OF True, of w] after_paid_effects [OF True assms(1)] show ?thesis
    by (simp add: do_paid_transition_eq)
qed (simp add: do_paid_transition_eq)

lemma wf_customers_one_order: "wf_customers (one_order s)"
  by (simp add: wf_customers_def one_order_def empty_world_def inj_replicate)

theorem paid_transition_effects_witness:
  "ledger_of (after_paid (hd (orders (one_order CONFIRMED))) (one_order CONFIRMED)) (''080'', ''234'') = (1, 100)
   \<and> (\<exists>e. do_paid_transition (hd (orders (one_order INQUIRY))) (one_order INQUIRY) = (Inl e, one_order INQUIRY))"
proof -
  have mem: "hd (orders (one_order s)) \<in> set (orders (one_order s))" for s by (simp add: one_order_def)
  have l: "ledger_of (one_order CONFIRMED) p = (0, 0)" for p
    by (simp add: ledger_of_def entry_at_def one_order_def empty_world_def split: prod.splits)
  have c: "o_state (hd (orders (one_order CONFIRMED))) = CONFIRMED" "o_state (hd (orders (one_order INQUIRY))) \<noteq> CONFIRMED"
    by (simp_all add: one_order_def)
  have a: "str_or_empty (o_trader_phone (hd (orders (one_order CONFIRMED)))) = ''080''"
    "str_or_empty (o_customer_phone (hd (orders (one_order CONFIRMED)))) = ''234''"
    "amount_or_0 (o_amount (hd (orders (one_order CONFIRMED)))) = 100"
    by (simp_all add: one_order_def create_order_row_def str_or_empty_def amount_or_0_def)
  from paid_transition_effects [OF wf_customers_one_order mem, of CONFIRMED]
  have "ledger_of (after_paid (hd (orders (one_order CONFIRMED))) (one_order CONFIRMED)) =
      record_purchase ''080'' ''234'' 100 (ledger_of (one_order CONFIRMED))"
    unfolding a if_P [OF c(1)] by blast
  moreover from paid_transition_effects [OF wf_customers_one_order mem, of INQUIRY]
  have "\<exists>e. do_paid_transition (hd (orders (one_order INQUIRY))) (one_order INQUIRY) = (Inl e, one_order INQUIRY)"
    unfolding if_not_P [OF c(2)] by blast
  ultimately show ?thesis by (simp add: record_purchase_def l)
qed

text \<open>
  The payment handler is total and idempotent. On a payment event it never raises: an unknown order, one of
  another tenant and one that cannot be paid give None and change nothing, a CONFIRMED order is paid, and
  delivering the same event again returns the paid order and changes nothing.
\<close>

theorem payment_confirmed_idempotent:
  assumes wf: "wf_orders w"
  shows "\<exists>r w'. handle_payment_confirmed oid tid w = (Inr r, w')
     \<and> (w' \<noteq> w \<longrightarrow> (\<exists>x. order_at w oid (Some tid) = Some x \<and> o_state x = CONFIRMED \<and> w' = after_paid x w
           \<and> r = Some (x\<lparr>o_state := PAID\<rparr>)))
     \<and> (\<exists>r'. handle_payment_confirmed oid tid w' = (Inr r', w') \<and> (r' = None \<longleftrightarrow> r = None))"
proof (cases "order_at w oid (Some tid)")
  case None
  then show ?thesis by (simp add: handle_payment_confirmed_def bindA_apply get_by_id_eq [OF wf])
next
  case (Some x)
  note at = order_at_Some [OF Some]
  show ?thesis
  proof (cases "o_state x = CONFIRMED")
    case True
    let ?w = "after_paid x w"
    have run: "handle_payment_confirmed oid tid w = (Inr (Some (x\<lparr>o_state := PAID\<rparr>)), ?w)"
      using Some True by (simp add: handle_payment_confirmed_def bindA_apply get_by_id_eq [OF wf] none_on_conflict_def
          tryA_apply do_paid_transition_eq)
    have "order_change True (Some tid) w ?w"
      using change_paid [OF Some] True by (simp add: do_paid_transition_eq)
    then have wf': "wf_orders ?w" by (rule change_wf [OF _ wf])
    have "x\<lparr>o_state := PAID\<rparr> \<in> set (orders ?w)"
      using at after_paid_orders [OF True, of w] by (auto simp: set_update_where image_iff)
    with at have "order_at ?w oid (Some tid) = Some (x\<lparr>o_state := PAID\<rparr>)"
      by (simp add: order_at_iff [OF wf'])
    then have "handle_payment_confirmed oid tid ?w = (Inr (Some (x\<lparr>o_state := PAID\<rparr>)), ?w)"
      by (simp add: handle_payment_confirmed_def bindA_apply get_by_id_eq [OF wf'])
    with run Some True show ?thesis by simp
  next
    case False
    with Some have "handle_payment_confirmed oid tid w = (Inr (if o_state x = PAID then Some x else None), w)"
      by (simp add: handle_payment_confirmed_def bindA_apply get_by_id_eq [OF wf] none_on_conflict_def tryA_apply
          do_paid_transition_eq)
    then show ?thesis by simp
  qed
qed

theorem payment_confirmed_idempotent_witness:
  "\<exists>r w'. handle_payment_confirmed ''o1'' ''t1'' (one_order CONFIRMED) = (Inr r, w')
     \<and> (\<exists>r'. handle_payment_confirmed ''o1'' ''t1'' w' = (Inr r', w'))"
  using payment_confirmed_idempotent [OF wf_one_order, of "''o1''" "''t1''" CONFIRMED] by blast

lemma reload_eq:
  "wf_orders w \<Longrightarrow> x \<in> set (orders w) \<Longrightarrow> reload (o_id x) w = (Inr (x, items_of w (o_id x)), w)"
  using order_at_iff [of w "o_id x" None x]
  by (simp add: reload_def bindA_apply get_by_id_eq scoped_def)

text \<open>
  Creating an order over HTTP stores what was asked for. Whether the conversation already had an open order
  (its items are replaced) or a new one is created, the call returns that order with exactly the requested
  items in order and its total equal to their sum, and the order's previous items are gone.
\<close>

theorem create_order_total:
  assumes wf: "wf_orders w"
  shows "\<exists>x its w'. create_order d w = (Inr (x, its), w') \<and> x \<in> set (orders w') \<and> its = items_of w' (o_id x)
     \<and> map item_data its = map create_data (oc_items d)
     \<and> total_amount x its = items_sum (oc_items d)
     \<and> o_tenant_id x = oc_tenant_id d \<and> o_conversation_id x = oc_conversation_id d \<and> \<not> terminal (o_state x)
     \<and> o_currency x = oc_currency d"
proof (cases rule: get_open_cases [of "oc_conversation_id d" "oc_tenant_id d" w])
  case (1 x)
  let ?f = "\<lambda>x. x\<lparr>o_amount := none_if_zero (items_sum (oc_items d)), o_currency := oc_currency d\<rparr>"
  let ?w = "w\<lparr>order_items := filter (\<lambda>it. oi_order_id it \<noteq> o_id x) (order_items w),
     orders := update_where (\<lambda>y. o_id y = o_id x) ?f (orders w)\<rparr>"
  obtain rows where rows: "add_all_items (o_id x) (oc_items d) ?w =
      (Inr (), ?w\<lparr>uuid_n := uuid_n ?w + length (oc_items d), order_items := order_items ?w @ rows\<rparr>)"
    "\<forall>i\<in>set rows. oi_order_id i = o_id x" "map item_data rows = map create_data (oc_items d)"
    by (rule add_all_items_eq)
  let ?w' = "?w\<lparr>uuid_n := uuid_n ?w + length (oc_items d), order_items := order_items ?w @ rows\<rparr>"
  have run: "create_order d w = reload (o_id x) ?w'"
    using rows(1) by (simp add: create_order_def Let_def bindA_apply thenA_apply 1 delete_items_for_order_def set_order_def)
  have wf': "wf_orders ?w'"
    using change_wf [OF change_create_order wf, of d] run by simp
  have mem: "?f x \<in> set (orders ?w')" using 1(2) by (auto simp: set_update_where image_iff)
  have its: "items_of ?w' (o_id x) = rows"
    using rows(2) by (simp add: items_of_def filter_empty_conv)
  have res: "create_order d w = (Inr (?f x, rows), ?w')"
    using run reload_eq [OF wf' mem] its by simp
  show ?thesis
    by (rule exI, rule exI, rule exI, intro conjI, rule res)
      (use 1 mem rows(3) its rows_sum_items [OF rows(3)] in \<open>simp_all add: total_amount_def none_if_zero_def\<close>)
next
  case 2
  let ?row = "create_order_row (uuid_src w (uuid_n w)) (oc_tenant_id d) (oc_conversation_id d) (oc_customer_id d) None None None
    (none_if_zero (items_sum (oc_items d))) (oc_currency d) (clock w)"
  let ?w = "w\<lparr>uuid_n := Suc (uuid_n w), orders := orders w @ [?row]\<rparr>"
  have id: "o_id ?row = uuid_src w (uuid_n w)" by (simp add: create_order_row_def)
  obtain rows where rows: "add_all_items (uuid_src w (uuid_n w)) (oc_items d) ?w =
      (Inr (), ?w\<lparr>uuid_n := uuid_n ?w + length (oc_items d), order_items := order_items ?w @ rows\<rparr>)"
    "\<forall>i\<in>set rows. oi_order_id i = uuid_src w (uuid_n w)" "map item_data rows = map create_data (oc_items d)"
    by (rule add_all_items_eq)
  let ?w1 = "?w\<lparr>uuid_n := uuid_n ?w + length (oc_items d), order_items := order_items ?w @ rows\<rparr>"
  obtain es where run: "create_order d w = reload (o_id ?row) (?w1\<lparr>uuid_n := Suc (uuid_n ?w1), published := es\<rparr>)"
    using rows(1) by (simp add: create_order_def Let_def bindA_apply thenA_apply 2 repo_create_order_def id)
  let ?w' = "?w1\<lparr>uuid_n := Suc (uuid_n ?w1), published := es\<rparr>"
  have wf': "wf_orders ?w'"
    using change_wf [OF change_create_order wf, of d] run by simp
  have mem: "?row \<in> set (orders ?w')" by simp
  have its: "items_of ?w' (o_id ?row) = rows"
    using rows(2) wf_orders_fresh_items [OF wf] by (simp add: items_of_def filter_empty_conv id)
  have res: "create_order d w = (Inr (?row, rows), ?w')"
    using run reload_eq [OF wf' mem] its by simp
  show ?thesis
    by (rule exI, rule exI, rule exI, intro conjI, rule res)
      (use mem rows(3) its rows_sum_items [OF rows(3)] in
        \<open>simp_all add: total_amount_def none_if_zero_def create_order_row_def terminal_def\<close>)
qed

definition sample_create :: order_create where
  "sample_create = \<lparr>oc_tenant_id = ''t1'', oc_conversation_id = ''c1'', oc_customer_id = None,
     oc_items = [\<lparr>ic_name = ''Rice'', ic_quantity = 2, ic_unit_price = 50\<rparr>], oc_currency = ''NGN''\<rparr>"

theorem create_order_total_witness:
  "\<exists>x its w'. create_order sample_create (one_order INQUIRY) = (Inr (x, its), w') \<and> total_amount x its = 100"
  using create_order_total [OF wf_one_order, of sample_create INQUIRY]
  by (auto simp: sample_create_def items_sum_def)

text \<open>
  Adding items overwrites the total. On an open order the new line items are appended to the old ones, but
  the stored amount becomes the sum of the added items only, so the total reported for the order falls
  short by the value of everything it had before.
\<close>

theorem add_items_overwrites_total:
  assumes wf: "wf_orders w" and x: "order_at w oid tid = Some x" and st: "\<not> terminal (o_state x)"
  shows "\<exists>x' its w'. add_items oid new tid w = (Inr (x', its), w')
     \<and> map item_data its = map item_data (items_of w oid) @ map create_data new
     \<and> o_amount x' = Some (items_sum new)
     \<and> total_amount x' its = rows_sum its - rows_sum (items_of w oid)"
proof -
  note at = order_at_Some [OF x]
  have s: "\<not> (o_state x \<noteq> INQUIRY \<and> o_state x \<noteq> CONFIRMED)"
    using st by (cases "o_state x") (simp_all add: terminal_def)
  obtain rows where rows: "add_all_items (o_id x) new w = (Inr (), w\<lparr>uuid_n := uuid_n w + length new, order_items := order_items w @ rows\<rparr>)"
    "\<forall>i\<in>set rows. oi_order_id i = o_id x" "map item_data rows = map create_data new"
    by (rule add_all_items_eq)
  let ?f = "\<lambda>x. x\<lparr>o_amount := Some (items_sum new)\<rparr>"
  let ?w' = "w\<lparr>uuid_n := uuid_n w + length new, order_items := order_items w @ rows,
    orders := update_where (\<lambda>y. o_id y = o_id x) ?f (orders w)\<rparr>"
  have run: "add_items oid new tid w = reload (o_id x) ?w'"
    using rows(1) x by (simp add: add_items_def bindA_apply get_or_404_eq [OF wf] if_not_P [OF s] thenA_apply set_order_def)
  have wf': "wf_orders ?w'"
    using change_wf [OF change_add_items [OF wf, of tid oid new] wf] run by simp
  have mem: "?f x \<in> set (orders ?w')" using at by (auto simp: set_update_where image_iff)
  have its: "items_of ?w' (o_id x) = items_of w oid @ rows"
    using rows(2) at by (simp add: items_of_def filter_True)
  have res: "add_items oid new tid w = (Inr (?f x, items_of w oid @ rows), ?w')"
    using run reload_eq [OF wf' mem] its by simp
  show ?thesis
    by (rule exI, rule exI, rule exI, intro conjI, rule res)
      (use rows(3) rows_sum_items [OF rows(3)] in \<open>simp_all add: total_amount_def rows_sum_def\<close>)
qed

theorem add_items_overwrites_total_witness:
  "\<exists>x' its w'. add_items ''o1'' [\<lparr>ic_name = ''Rice'', ic_quantity = 2, ic_unit_price = 50\<rparr>] None
      (one_order INQUIRY\<lparr>order_items := [\<lparr>oi_id = ''i1'', oi_order_id = ''o1'', oi_product_name = ''Beans'', oi_quantity = 1,
         oi_unit_price = 70\<rparr>]\<rparr>) = (Inr (x', its), w')
     \<and> total_amount x' its = rows_sum its - 70"
proof -
  let ?w = "one_order INQUIRY\<lparr>order_items := [\<lparr>oi_id = ''i1'', oi_order_id = ''o1'', oi_product_name = ''Beans'', oi_quantity = 1,
         oi_unit_price = 70\<rparr>]\<rparr>"
  have wf: "wf_orders ?w"
    by (rule wf_orders_example) (simp_all add: one_order_def create_order_row_def empty_world_def)
  have x: "order_at ?w ''o1'' None = Some (hd (orders ?w))"
    by (simp add: order_at_def one_order_def create_order_row_def scoped_def)
  have st: "\<not> terminal (o_state (hd (orders ?w)))" by (simp add: one_order_def terminal_def)
  have "rows_sum (items_of ?w ''o1'') = 70" by (simp add: rows_sum_def items_of_def)
  with add_items_overwrites_total [OF wf x st, of "[\<lparr>ic_name = ''Rice'', ic_quantity = 2, ic_unit_price = 50\<rparr>]"]
  show ?thesis by auto
qed

section \<open>Events that pay an order\<close>

text \<open>The order a payment event names is not waiting for one.\<close>

definition not_awaiting :: "string \<Rightarrow> string \<Rightarrow> world \<Rightarrow> bool" where
  "not_awaiting oid tid w \<longleftrightarrow> (\<forall>x\<in>set (orders w). o_id x = oid \<and> scoped (Some tid) (o_tenant_id x) \<longrightarrow> o_state x \<noteq> CONFIRMED)"

lemma not_awaiting_after_paid:
  assumes "o_state x = CONFIRMED"
  shows "not_awaiting oid tid w \<Longrightarrow> not_awaiting oid tid (after_paid x w)" and "not_awaiting (o_id x) tid (after_paid x w)"
  using after_paid_orders [OF assms, of w] by (auto simp: not_awaiting_def ball_update_where)

lemma wf_after_paid:
  assumes "wf_orders w" and "order_at w oid (Some tid) = Some x" and "o_state x = CONFIRMED"
  shows "wf_orders (after_paid x w)"
  using change_wf [OF change_paid [OF assms(2), of True] assms(1)] assms(3) by (simp add: do_paid_transition_eq)

lemma order_at_awaiting:
  assumes "wf_orders w"
  shows "not_awaiting oid tid w \<longleftrightarrow> (case order_at w oid (Some tid) of None \<Rightarrow> True | Some x \<Rightarrow> o_state x \<noteq> CONFIRMED)"
proof (cases "order_at w oid (Some tid)")
  case None
  then show ?thesis using order_at_iff [OF assms, of oid "Some tid"] by (auto simp: not_awaiting_def)
next
  case (Some x)
  then have "y \<in> set (orders w) \<and> o_id y = oid \<and> scoped (Some tid) (o_tenant_id y) \<longleftrightarrow> x = y" for y
    using order_at_iff [OF assms, of oid "Some tid" y] by auto
  then have "not_awaiting oid tid w \<longleftrightarrow> o_state x \<noteq> CONFIRMED" unfolding not_awaiting_def by metis
  with Some show ?thesis by simp
qed

text \<open>Both events that pay an order do nothing unless it is CONFIRMED, and then pay it.\<close>

lemma handle_payment_confirmed_exec:
  assumes "wf_orders w"
  shows "exec (session_begin (handle_payment_confirmed oid tid)) w =
     (if not_awaiting oid tid w then w else after_paid (the (order_at w oid (Some tid))) w)"
  by (auto simp: order_at_awaiting [OF assms] handle_payment_confirmed_def act_simps get_by_id_eq [OF assms] none_on_conflict_def
      do_paid_transition_eq exec_def session_begin_def split: option.splits)

lemma handle_credit_sale_resolved_exec:
  assumes "wf_orders w"
  shows "exec (session_begin (handle_credit_sale_resolved oid tid)) w =
     (if not_awaiting oid tid w then w else after_paid (the (order_at w oid (Some tid))) w)"
  by (auto simp: order_at_awaiting [OF assms] handle_credit_sale_resolved_def act_simps get_by_id_eq [OF assms] none_on_conflict_def
      do_paid_transition_eq exec_def session_begin_def split: option.splits)

definition pay_if_awaiting :: "string \<Rightarrow> string \<Rightarrow> world \<Rightarrow> world" where
  "pay_if_awaiting oid tid w = (if not_awaiting oid tid w then w else after_paid (the (order_at w oid (Some tid))) w)"

lemma pay_if_awaiting:
  assumes wf: "wf_orders w"
  shows "wf_orders (pay_if_awaiting oid tid w) \<and> not_awaiting oid tid (pay_if_awaiting oid tid w)
     \<and> (not_awaiting oid' tid' w \<longrightarrow> not_awaiting oid' tid' (pay_if_awaiting oid tid w))"
proof (cases "not_awaiting oid tid w")
  case False
  then obtain x where x: "order_at w oid (Some tid) = Some x" "o_state x = CONFIRMED"
    by (auto simp: order_at_awaiting [OF wf] split: option.splits)
  with order_at_Some [OF x(1)] False show ?thesis
    using wf_after_paid [OF wf x] not_awaiting_after_paid [OF x(2)] by (auto simp: pay_if_awaiting_def)
qed (simp add: pay_if_awaiting_def wf)

end
