(* ===== verification/Delivery.thy ===== *)
theory Delivery
  imports Event_Bus
begin

text \<open>
  At-least-once delivery. A publisher may repeat an event, so a handler of \<open>infra/event_bus.py\<close> has to make
  the second delivery harmless. The interface below is what such a handler promises: handling an event
  settles it, no other event unsettles it, and a settled event is ignored. Its client is the listener
  loop, which then does with a sequence of deliveries what it does with each event's first one.
\<close>

lemma own_channel: "glob (global_pattern name) (event_channel e)" if "plain name" "ev_event_name e = name"
  using that by (auto simp: glob_global_pattern event_channel_def channel_def)

locale settling_handler =
  fixes h :: "event \<Rightarrow> unit svc" and inv :: "world \<Rightarrow> bool" and settled :: "event \<Rightarrow> world \<Rightarrow> bool"
  assumes keeps_inv: "inv w \<Longrightarrow> inv (exec (h e) w)"
    and settles: "inv w \<Longrightarrow> settled e (exec (h e) w)"
    and stays_settled: "inv w \<Longrightarrow> settled e w \<Longrightarrow> settled e (exec (h e') w)"
    and ignores_settled: "inv w \<Longrightarrow> settled e w \<Longrightarrow> exec (h e) w = w"
begin

lemma loop_inv: "inv w \<Longrightarrow> inv (listener_loop h es w)"
  by (induction es arbitrary: w) (simp_all add: keeps_inv)

lemma loop_stays: "inv w \<Longrightarrow> settled e w \<Longrightarrow> settled e (listener_loop h es w)"
  by (induction es arbitrary: w) (simp_all add: keeps_inv stays_settled)

lemma loop_settles: "inv w \<Longrightarrow> e \<in> set es \<Longrightarrow> settled e (listener_loop h es w)"
proof (induction es arbitrary: w)
  case (Cons f es)
  have "inv (exec (h f) w)" using Cons.prems(1) by (rule keeps_inv)
  moreover have "e = f \<Longrightarrow> settled e (exec (h f) w)" using settles [OF Cons.prems(1)] by simp
  ultimately show ?case using Cons loop_stays by auto
qed simp

lemma first_deliveries: "inv w \<Longrightarrow> listener_loop h es w = listener_loop h (rev (remdups (rev es))) w"
proof (induction es rule: rev_induct)
  case (snoc e es)
  show ?case
  proof (cases "e \<in> set es")
    case True
    with snoc have "exec (h e) (listener_loop h es w) = listener_loop h es w"
      by (intro ignores_settled loop_inv loop_settles) simp_all
    with True snoc show ?thesis by (simp add: listener_loop_append)
  next
    case False
    with snoc show ?thesis by (simp add: listener_loop_append)
  qed
qed simp

lemma repeated_delivery: "inv w \<Longrightarrow> set es = {e} \<Longrightarrow> listener_loop h es w = exec (h e) w"
proof -
  assume "inv w" and "set es = {e}"
  moreover from this(2) have "remdups (rev es) = [e]"
    by (metis distinct_remdups set_remdups set_rev distinct_singleton set_empty2 empty_set
        distinct_card card_1_singleton_iff length_0_conv length_Suc_conv One_nat_def card.insert card.empty finite.emptyI empty_iff list.set_intros(1) singletonD)
  ultimately show ?thesis by (simp add: first_deliveries [of w es])
qed

end

end
