(* ===== verification/Payments.thy ===== *)
theory Payments
  imports Order_Service Delivery
begin

text \<open>
  Payments (\<open>src/app/modules/payments/service.py\<close>, \<open>repository.py\<close>, \<open>handlers.py\<close>): a checkout attempt is
  created for a CONFIRMED order, the provider's webhook settles it, and a confirmed payment is an event
  whose handler pays the order.
\<close>

section \<open>Repository\<close>

definition ACTIVE_STATUSES :: "payment_status list" where
  "ACTIVE_STATUSES = [PAY_PENDING, PAY_SUCCESS]"

definition payment_get_by_id :: "string \<Rightarrow> string option \<Rightarrow> payment option svc" where
  "payment_get_by_id pid tid = bindA (getA payments) (\<lambda>ps.
     liftE (scalar_one_or_none (filter (\<lambda>p. p_id p = pid \<and> scoped tid (p_tenant_id p)) ps)))"

definition get_by_reference :: "string \<Rightarrow> payment option svc" where
  "get_by_reference ref = bindA (getA payments) (\<lambda>ps.
     liftE (scalar_one_or_none (filter (\<lambda>p. p_reference p = ref \<and> True) ps)))"

definition active_payments :: "world \<Rightarrow> string \<Rightarrow> string \<Rightarrow> payment list" where
  "active_payments w oid tid = filter (\<lambda>p. p_order_id p = oid \<and> p_tenant_id p = tid
     \<and> p_status p \<in> set ACTIVE_STATUSES) (payments w)"

definition get_active_for_order :: "string \<Rightarrow> string \<Rightarrow> payment option svc" where
  "get_active_for_order oid tid = bindA (getA (\<lambda>w. active_payments w oid tid)) (\<lambda>ps.
     liftE (scalar_one_or_none (take 1 (order_by_desc p_created_at ps))))"

text \<open>The insert fails on a duplicate reference.\<close>

definition create_payment :: "string \<Rightarrow> string \<Rightarrow> string \<Rightarrow> decimal \<Rightarrow> string \<Rightarrow> string option \<Rightarrow> payment svc" where
  "create_payment tid oid ref amount currency link = bindA uuid4 (\<lambda>i w.
     if ref \<in> set (map p_reference (payments w)) then (Inl (IntegrityError ''payments_reference_key''), w)
     else let p = \<lparr>p_id = i, p_tenant_id = tid, p_order_id = oid, p_reference = ref, p_amount = amount,
                   p_currency = currency, p_status = PAY_PENDING, p_provider = ''paystack'', p_payment_link = link,
                   p_created_at = clock w\<rparr>
          in (Inr p, w\<lparr>payments := payments w @ [p]\<rparr>))"

definition payment_update_status :: "payment \<Rightarrow> payment_status \<Rightarrow> payment svc" where
  "payment_update_status p st = thenA
     (modA (\<lambda>w. w\<lparr>payments := update_where (\<lambda>q. p_id q = p_id p) (\<lambda>q. q\<lparr>p_status := st\<rparr>) (payments w)\<rparr>))
     (ret (p\<lparr>p_status := st\<rparr>))"

text \<open>The page of payments joined with their orders, and the total without the join.\<close>

definition repo_list_payments :: "string \<Rightarrow> payment_status option \<Rightarrow> nat \<Rightarrow> nat \<Rightarrow> world
    \<Rightarrow> (payment \<times> order_state \<times> decimal option) list \<times> nat" where
  "repo_list_payments tid st limit offset w =
     (let ps = filter (\<lambda>p. p_tenant_id p = tid \<and> (case st of None \<Rightarrow> True | Some s \<Rightarrow> p_status p = s)) (payments w);
          rows = concat (map (\<lambda>p. map (\<lambda>x. (p, o_state x, o_amount x)) (filter (\<lambda>x. o_id x = p_order_id p) (orders w))) ps)
      in (page limit offset (order_by_desc (\<lambda>(p, _, _). p_created_at p) rows), length ps))"

section \<open>Service\<close>

definition MOCK_PAYMENT_BASE :: string where
  "MOCK_PAYMENT_BASE = ''https://paystack.mock/pay''"

definition make_reference :: "string svc" where
  "make_reference = bindA uuid4 (\<lambda>u. ret (''pay_'' @ take 20 (uuid_hex u)))"

definition generate_payment_link :: "string \<Rightarrow> string" where
  "generate_payment_link ref = MOCK_PAYMENT_BASE @ ''/'' @ ref"

definition get_payment_or_404 :: "string \<Rightarrow> string option \<Rightarrow> payment svc" where
  "get_payment_or_404 pid tid = bindA (payment_get_by_id pid tid) (\<lambda>p. case p of
     None \<Rightarrow> raise (NotFoundError ''Payment'' pid) | Some p \<Rightarrow> ret p)"

definition create_payment_for_order :: "string \<Rightarrow> string \<Rightarrow> payment svc" where
  "create_payment_for_order oid tid = bindA (get_by_id oid (Some tid)) (\<lambda>x. case x of
     None \<Rightarrow> raise (NotFoundError ''Order'' oid)
   | Some x \<Rightarrow>
       if o_state x \<noteq> CONFIRMED
       then raise (ConflictError (ConflictMsg (''Cannot initiate payment for an order in '' @ order_state_value (o_state x))))
       else case o_amount x of
         None \<Rightarrow> raise (ConflictError (ConflictMsg ''Cannot initiate payment: order has no amount.''))
       | Some amount \<Rightarrow> bindA (get_active_for_order oid tid) (\<lambda>existing. case existing of
           Some p \<Rightarrow> raise (ConflictError (ConflictMsg (''An active payment already exists for this order '' @ p_reference p)))
         | None \<Rightarrow> bindA make_reference (\<lambda>ref.
             bindA (create_payment tid oid ref amount (o_currency x) (Some (generate_payment_link ref))) (\<lambda>p.
             thenA (emit ''payment.created'' tid [(''payment_id'', JStr (p_id p)), (''order_id'', JStr oid),
                      (''reference'', JStr ref), (''amount'', JDec amount), (''currency'', JStr (o_currency x)),
                      (''payment_link'', JStr (generate_payment_link ref))])
               (ret p)))))"

definition confirmed_payload :: "payment \<Rightarrow> payload" where
  "confirmed_payload p = [(''payment_id'', JStr (p_id p)), (''order_id'', JStr (p_order_id p)),
     (''reference'', JStr (p_reference p)), (''tenant_id'', JStr (p_tenant_id p)), (''amount'', JDec (p_amount p)),
     (''currency'', JStr (p_currency p))]"

definition handle_webhook :: "string \<Rightarrow> bool \<Rightarrow> payment option svc" where
  "handle_webhook ref success = bindA (get_by_reference ref) (\<lambda>p. case p of
     None \<Rightarrow> ret None
   | Some p \<Rightarrow> if p_status p = PAY_SUCCESS then ret (Some p)
       else bindA (payment_update_status p (if success then PAY_SUCCESS else PAY_FAILED)) (\<lambda>p'.
         thenA (if success then emit ''payment.confirmed'' (p_tenant_id p) (confirmed_payload p) else ret ())
           (ret (Some p'))))"

definition list_payments :: "string \<Rightarrow> payment_status option \<Rightarrow> nat \<Rightarrow> nat \<Rightarrow> world
    \<Rightarrow> (payment \<times> order_state \<times> decimal option) list \<times> nat \<times> nat \<times> nat" where
  "list_payments tid st limit offset w =
     (let (rows, tot) = repo_list_payments tid st limit offset w in (rows, tot, limit, offset))"

section \<open>Event handler\<close>

definition on_payment_confirmed :: "event \<Rightarrow> unit svc" where
  "on_payment_confirmed e =
     (let oid = payload_str (ev_payload e) ''order_id'';
          t = payload_str (ev_payload e) ''tenant_id'';
          tid = (if t = [] then ev_tenant_id e else t)
      in if oid = [] \<or> tid = [] then ret ()
         else thenA (session_begin (handle_payment_confirmed oid tid)) (ret ()))"

definition register_payment_confirmed_handler :: "event list \<Rightarrow> world \<Rightarrow> world" where
  "register_payment_confirmed_handler = create_global_listener_task ''payment.confirmed'' on_payment_confirmed"

section \<open>Well-formedness\<close>

definition wf_payments :: "world \<Rightarrow> bool" where
  "wf_payments w \<longleftrightarrow> distinct (map p_id (payments w)) \<and> distinct (map p_reference (payments w)) \<and> inj (uuid_src w)
     \<and> (\<forall>n\<ge>uuid_n w. uuid_src w n \<notin> p_id ` set (payments w))"

definition payment_at :: "world \<Rightarrow> string \<Rightarrow> payment option" where
  "payment_at w ref = find (\<lambda>p. p_reference p = ref \<and> True) (payments w)"

lemma get_by_reference_eq: "wf_payments w \<Longrightarrow> get_by_reference ref w = (Inr (payment_at w ref), w)"
  using scalar_key [of p_reference "payments w" ref "\<lambda>_. True"]
  by (simp add: get_by_reference_def bindA_apply payment_at_def wf_payments_def)

lemma payment_at_Some: "payment_at w ref = Some p \<Longrightarrow> p \<in> set (payments w) \<and> p_reference p = ref"
  unfolding payment_at_def by (drule find_Some_iff2) simp

lemma payment_at_iff:
  "wf_payments w \<Longrightarrow> payment_at w ref = Some p \<longleftrightarrow> p \<in> set (payments w) \<and> p_reference p = ref"
  using find_distinct_key [of p_reference "payments w" p "\<lambda>_. True"]
  by (auto simp: payment_at_def wf_payments_def dest: find_Some_iff2)

definition confirmed_event :: "payment \<Rightarrow> world \<Rightarrow> event" where
  "confirmed_event p w = \<lparr>ev_event_name = ''payment.confirmed'', ev_tenant_id = p_tenant_id p,
     ev_payload = confirmed_payload p, ev_event_id = uuid_src w (uuid_n w), ev_timestamp = clock w\<rparr>"

lemma handle_webhook_eq:
  assumes "wf_payments w"
  shows "handle_webhook ref success w = (case payment_at w ref of
     None \<Rightarrow> (Inr None, w)
   | Some p \<Rightarrow> if p_status p = PAY_SUCCESS then (Inr (Some p), w)
       else let st = (if success then PAY_SUCCESS else PAY_FAILED);
                w1 = w\<lparr>payments := update_where (\<lambda>q. p_id q = p_id p) (\<lambda>q. q\<lparr>p_status := st\<rparr>) (payments w)\<rparr>
            in (Inr (Some (p\<lparr>p_status := st\<rparr>)),
                if success then w1\<lparr>uuid_n := Suc (uuid_n w), published := published w @ [confirmed_event p w]\<rparr> else w1))"
  by (auto simp: handle_webhook_def act_simps get_by_reference_eq [OF assms] payment_update_status_def
      confirmed_event_def Let_def split: option.splits)

section \<open>Webhooks\<close>

definition webhook :: "string \<times> bool \<Rightarrow> world \<Rightarrow> world" where
  "webhook h w = exec (session_begin (handle_webhook (fst h) (snd h))) w"

definition about :: "string \<Rightarrow> event \<Rightarrow> bool" where
  "about pid e \<longleftrightarrow> payload_str (ev_payload e) ''payment_id'' = pid"

lemma about_confirmed [simp]: "about pid (confirmed_event p w) \<longleftrightarrow> p_id p = pid"
  by (simp add: about_def confirmed_event_def confirmed_payload_def payload_str_def payload_get_def)

lemma wf_payments_update:
  assumes "wf_payments w" and "\<And>p. p_id (f p) = p_id p" and "\<And>p. p_reference (f p) = p_reference p"
    and "payments w' = update_where q f (payments w)" and "later w w'"
  shows "wf_payments w'"
  using assms by (auto simp: wf_payments_def later_def map_update_where_same image_update_where_same)

lemma webhook_step:
  fixes h :: "string \<times> bool"
  assumes wf: "wf_payments w" and p: "p \<in> set (payments w)"
  defines "hit \<equiv> fst h = p_reference p \<and> p_status p \<noteq> PAY_SUCCESS"
  shows "wf_payments (webhook h w)
     \<and> p\<lparr>p_status := (if hit then if snd h then PAY_SUCCESS else PAY_FAILED else p_status p)\<rparr> \<in> set (payments (webhook h w))
     \<and> (\<exists>es. published (webhook h w) = published w @ es \<and> length (filter (about (p_id p)) es) = (if hit \<and> snd h then 1 else 0))"
proof (cases "payment_at w (fst h)")
  case None
  have "\<not> hit" using None p payment_at_iff [OF wf, of "fst h" p] by (auto simp: hit_def)
  with None wf p show ?thesis
    by (simp add: webhook_def exec_def session_begin_def handle_webhook_eq [OF wf])
next
  case (Some q)
  note q = payment_at_Some [OF Some]
  show ?thesis
  proof (cases "p_status q = PAY_SUCCESS")
    case True
    have "\<not> hit" using Some True p payment_at_iff [OF wf, of "fst h" p] by (auto simp: hit_def)
    with Some True wf p show ?thesis
      by (simp add: webhook_def exec_def session_begin_def handle_webhook_eq [OF wf])
  next
    case False
    have hit: "hit \<longleftrightarrow> p = q"
      using Some False p payment_at_iff [OF wf, of "fst h" p] by (auto simp: hit_def)
    have same: "p_id p = p_id q \<longleftrightarrow> p = q"
      using wf p q by (auto simp: wf_payments_def distinct_map inj_on_def)
    let ?f = "\<lambda>x. x\<lparr>p_status := if snd h then PAY_SUCCESS else PAY_FAILED\<rparr>"
    have ps: "payments (webhook h w) = update_where (\<lambda>x. p_id x = p_id q) ?f (payments w)"
      and later: "later w (webhook h w)"
      and pub: "published (webhook h w) = published w @ (if snd h then [confirmed_event q w] else [])"
      using Some False by (auto simp: webhook_def exec_def session_begin_def handle_webhook_eq [OF wf] Let_def later_def)
    have "wf_payments (webhook h w)"
      by (rule wf_payments_update [OF wf _ _ ps later]) simp_all
    moreover have "p\<lparr>p_status := (if hit then if snd h then PAY_SUCCESS else PAY_FAILED else p_status p)\<rparr> \<in> set (payments (webhook h w))"
      unfolding ps set_update_where by (rule image_eqI [OF _ p]) (simp add: hit same)
    ultimately show ?thesis using pub hit same by auto
  qed
qed

section \<open>Properties\<close>

text \<open>
  C10: webhooks are applied exactly once. After any sequence of provider callbacks, in any order and with any
  repetitions, a payment is SUCCESS if it was or if a success callback for its reference arrived, FAILED if
  only failures did, and otherwise as before, with nothing else of it changed; and the event that confirms
  it was published once if it became SUCCESS in the sequence, and never otherwise.
\<close>

theorem webhook_exactly_once:
  assumes "wf_payments w" and "p \<in> set (payments w)"
  shows "p\<lparr>p_status := (if p_status p = PAY_SUCCESS \<or> (p_reference p, True) \<in> set hs then PAY_SUCCESS
              else if (p_reference p, False) \<in> set hs then PAY_FAILED else p_status p)\<rparr> \<in> set (payments (fold webhook hs w))
     \<and> (\<exists>es. published (fold webhook hs w) = published w @ es
          \<and> length (filter (about (p_id p)) es) = (if p_status p \<noteq> PAY_SUCCESS \<and> (p_reference p, True) \<in> set hs then 1 else 0))"
  using assms
proof (induction hs arbitrary: w p)
  case (Cons h hs)
  let ?hit = "fst h = p_reference p \<and> p_status p \<noteq> PAY_SUCCESS"
  define p' where "p' = p\<lparr>p_status := (if ?hit then if snd h then PAY_SUCCESS else PAY_FAILED else p_status p)\<rparr>"
  have p': "p_id p' = p_id p" "p_reference p' = p_reference p" "p'\<lparr>p_status := st\<rparr> = p\<lparr>p_status := st\<rparr>"
    "p_status p' = (if ?hit then if snd h then PAY_SUCCESS else PAY_FAILED else p_status p)" for st
    by (simp_all add: p'_def)
  note step = webhook_step [OF Cons.prems, of h, folded p'_def]
  from step obtain es1 where es1: "published (webhook h w) = published w @ es1"
    "length (filter (about (p_id p)) es1) = (if ?hit \<and> snd h then 1 else 0)" by blast
  from step have "wf_payments (webhook h w)" "p' \<in> set (payments (webhook h w))" by simp_all
  note IH = Cons.IH [OF this, unfolded p'(1-3)]
  then obtain es2 where es2: "published (fold webhook hs (webhook h w)) = published (webhook h w) @ es2"
    "length (filter (about (p_id p)) es2) = (if p_status p' \<noteq> PAY_SUCCESS \<and> (p_reference p, True) \<in> set hs then 1 else 0)"
    by blast
  obtain r s where h: "h = (r, s)" by force
  have "published (fold webhook (h # hs) w) = published w @ (es1 @ es2)" using es1 es2 by simp
  moreover have "length (filter (about (p_id p)) (es1 @ es2)) =
      (if p_status p \<noteq> PAY_SUCCESS \<and> (p_reference p, True) \<in> set (h # hs) then 1 else 0)"
    using es1(2) es2(2) h p'(4) by (cases s; cases "p_status p") auto
  moreover have "(if p_status p' = PAY_SUCCESS \<or> (p_reference p, True) \<in> set hs then PAY_SUCCESS
              else if (p_reference p, False) \<in> set hs then PAY_FAILED else p_status p') =
      (if p_status p = PAY_SUCCESS \<or> (p_reference p, True) \<in> set (h # hs) then PAY_SUCCESS
              else if (p_reference p, False) \<in> set (h # hs) then PAY_FAILED else p_status p)"
    using h p'(4) by (cases s; cases "p_status p") auto
  ultimately show ?case using IH by auto
next
  case Nil
  have "p\<lparr>p_status := PAY_SUCCESS\<rparr> \<in> set (payments w)" if st: "p_status p = PAY_SUCCESS"
  proof -
    have "p\<lparr>p_status := PAY_SUCCESS\<rparr> = p" using st by (cases p) simp
    with Nil(2) show ?thesis by (simp only:)
  qed
  with Nil show ?case by auto
qed

definition sample_payment :: "string \<Rightarrow> string \<Rightarrow> payment_status \<Rightarrow> payment" where
  "sample_payment i ref st = \<lparr>p_id = i, p_tenant_id = ''t1'', p_order_id = ''o1'', p_reference = ref, p_amount = 100,
     p_currency = ''NGN'', p_status = st, p_provider = ''paystack'', p_payment_link = None, p_created_at = 0\<rparr>"

definition paying_world :: world where
  "paying_world = one_order CONFIRMED\<lparr>payments := [sample_payment ''p1'' ''r1'' PAY_PENDING]\<rparr>"

lemma wf_paying: "wf_payments paying_world"
  using replicate_neq_hd [of "''p1''" "CHR ''u''"]
  by (simp add: wf_payments_def paying_world_def one_order_def sample_payment_def empty_world_def inj_replicate)

theorem webhook_exactly_once_witness:
  "\<exists>es. published (fold webhook [(''r1'', False), (''r1'', True), (''r1'', True)] paying_world) = published paying_world @ es
      \<and> length (filter (about ''p1'') es) = 1"
proof -
  have "sample_payment ''p1'' ''r1'' PAY_PENDING \<in> set (payments paying_world)" by (simp add: paying_world_def)
  from webhook_exactly_once [OF wf_paying this, of "[(''r1'', False), (''r1'', True), (''r1'', True)]"]
  show ?thesis by (simp add: sample_payment_def)
qed

section \<open>Checkout\<close>

definition next_reference :: "world \<Rightarrow> string" where
  "next_reference w = ''pay_'' @ take 20 (uuid_hex (uuid_src w (uuid_n w)))"

definition new_payment :: "world \<Rightarrow> string \<Rightarrow> string \<Rightarrow> decimal \<Rightarrow> string \<Rightarrow> payment" where
  "new_payment w tid oid amount currency = \<lparr>p_id = uuid_src w (Suc (uuid_n w)), p_tenant_id = tid, p_order_id = oid,
     p_reference = next_reference w, p_amount = amount, p_currency = currency, p_status = PAY_PENDING,
     p_provider = ''paystack'', p_payment_link = Some (generate_payment_link (next_reference w)), p_created_at = clock w\<rparr>"

definition payable :: "world \<Rightarrow> string \<Rightarrow> string \<Rightarrow> order \<Rightarrow> decimal \<Rightarrow> bool" where
  "payable w oid tid x amount \<longleftrightarrow> order_at w oid (Some tid) = Some x \<and> o_state x = CONFIRMED \<and> o_amount x = Some amount
     \<and> active_payments w oid tid = []"

lemma get_active_eq:
  "get_active_for_order oid tid w = (Inr (case order_by_desc p_created_at (active_payments w oid tid) of [] \<Rightarrow> None | p # _ \<Rightarrow> Some p), w)"
  unfolding get_active_for_order_def bindA_apply getA_apply
  by (simp only: prod.case sum.case liftE_apply scalar_take1)

lemma create_payment_payable:
  assumes "wf_orders w" and "payable w oid tid x amount" and "next_reference w \<notin> set (map p_reference (payments w))"
  obtains w' where "create_payment_for_order oid tid w = (Inr (new_payment w tid oid amount (o_currency x)), w')"
    and "payments w' = payments w @ [new_payment w tid oid amount (o_currency x)]" and "later w w'"
    and "uuid_n w' = uuid_n w + 3" and "orders w' = orders w"
    and "\<exists>e. published w' = published w @ [e] \<and> ev_event_name e = ''payment.created''"
proof -
  have "next_reference w \<notin> p_reference ` set (payments w)" using assms(3) by simp
  then show thesis
    using assms(2)
    by (intro that [of "snd (create_payment_for_order oid tid w)"])
      (simp_all add: create_payment_for_order_def bindA_apply thenA_apply get_by_id_eq [OF assms(1)] payable_def get_active_eq
        make_reference_def create_payment_def next_reference_def new_payment_def Let_def later_def)
qed

lemma wf_payments_new:
  assumes wf: "wf_payments w" and "next_reference w \<notin> set (map p_reference (payments w))"
    and "payments w' = payments w @ [new_payment w tid oid amount cur]" and "uuid_src w' = uuid_src w" and "uuid_n w' = uuid_n w + 3"
  shows "wf_payments w'"
proof -
  have "uuid_src w n \<noteq> uuid_src w (Suc (uuid_n w))" if "uuid_n w + 3 \<le> n" for n
    using wf that by (auto simp: wf_payments_def dest: injD)
  moreover have "uuid_src w (Suc (uuid_n w)) \<notin> p_id ` set (payments w)"
    using wf by (simp add: wf_payments_def)
  ultimately show ?thesis
    using assms by (auto simp: wf_payments_def new_payment_def)
qed

lemma create_payment_refused:
  assumes "wf_orders w" and "\<forall>x amount. \<not> payable w oid tid x amount"
  shows "\<exists>e. create_payment_for_order oid tid w = (Inl e, w) \<and> ((\<exists>m. e = ConflictError (ConflictMsg m)) \<or> e = NotFoundError ''Order'' oid)"
proof (cases "order_at w oid (Some tid)")
  case None
  then show ?thesis by (simp add: create_payment_for_order_def bindA_apply get_by_id_eq [OF assms(1)])
next
  case (Some x)
  show ?thesis
  proof (cases "o_state x = CONFIRMED \<and> o_amount x \<noteq> None")
    case True
    with Some assms(2) obtain amount where a: "o_amount x = Some amount" and "active_payments w oid tid \<noteq> []"
      by (auto simp: payable_def)
    then obtain p ps where "order_by_desc p_created_at (active_payments w oid tid) = p # ps"
      by (metis order_by_desc_empty_iff neq_Nil_conv)
    with Some True a show ?thesis
      by (simp add: create_payment_for_order_def bindA_apply get_by_id_eq [OF assms(1)] get_active_eq)
  next
    case False
    with Some show ?thesis
      by (cases "o_state x = CONFIRMED"; cases "o_amount x")
        (simp_all add: create_payment_for_order_def bindA_apply get_by_id_eq [OF assms(1)])
  qed
qed

text \<open>
  A payment is opened exactly when it may be. If the order exists for the tenant, is CONFIRMED, has an amount and
  has no pending or successful payment, then (unless the generated reference collides) the call returns a
  new PENDING payment of that amount and currency with its checkout link, which is then the order's only active
  payment; in every other case it raises not-found or a conflict and changes nothing.
\<close>

theorem create_payment_guarded:
  assumes "wf_orders w" and "next_reference w \<notin> set (map p_reference (payments w))"
  shows "if \<exists>x amount. payable w oid tid x amount
     then \<exists>p w' x. create_payment_for_order oid tid w = (Inr p, w') \<and> payable w oid tid x (p_amount p) \<and> p_currency p = o_currency x
       \<and> p_status p = PAY_PENDING \<and> p_payment_link p = Some (generate_payment_link (p_reference p))
       \<and> payments w' = payments w @ [p] \<and> active_payments w' oid tid = [p] \<and> orders w' = orders w
     else \<exists>e. create_payment_for_order oid tid w = (Inl e, w)
       \<and> ((\<exists>m. e = ConflictError (ConflictMsg m)) \<or> e = NotFoundError ''Order'' oid)"
proof (cases "\<exists>x amount. payable w oid tid x amount")
  case True
  then obtain x amount where p: "payable w oid tid x amount" by blast
  obtain w' where run: "create_payment_for_order oid tid w = (Inr (new_payment w tid oid amount (o_currency x)), w')"
    "payments w' = payments w @ [new_payment w tid oid amount (o_currency x)]" "orders w' = orders w"
    by (rule create_payment_payable [OF assms(1) p assms(2)])
  have "active_payments w' oid tid = [new_payment w tid oid amount (o_currency x)]"
    using p by (simp add: active_payments_def run(2) payable_def new_payment_def ACTIVE_STATUSES_def)
  then have "\<exists>p w' x. create_payment_for_order oid tid w = (Inr p, w') \<and> payable w oid tid x (p_amount p) \<and> p_currency p = o_currency x
       \<and> p_status p = PAY_PENDING \<and> p_payment_link p = Some (generate_payment_link (p_reference p))
       \<and> payments w' = payments w @ [p] \<and> active_payments w' oid tid = [p] \<and> orders w' = orders w"
    using p run by (intro exI [of _ "new_payment w tid oid amount (o_currency x)"] exI [of _ w'] exI [of _ x])
      (simp add: new_payment_def)
  with True show ?thesis by simp
next
  case False
  then show ?thesis using create_payment_refused [OF assms(1)] by auto
qed

lemma payable_one_order: "payable (one_order CONFIRMED) ''o1'' ''t1'' (hd (orders (one_order CONFIRMED))) 100"
  by (simp add: payable_def order_at_def one_order_def create_order_row_def scoped_def active_payments_def empty_world_def)

theorem create_payment_guarded_witness:
  "\<exists>p w'. create_payment_for_order ''o1'' ''t1'' (one_order CONFIRMED) = (Inr p, w') \<and> active_payments w' ''o1'' ''t1'' = [p]"
proof -
  have "next_reference (one_order CONFIRMED) \<notin> set (map p_reference (payments (one_order CONFIRMED)))"
    by (simp add: one_order_def empty_world_def)
  from create_payment_guarded [OF wf_one_order this, of "''o1''" "''t1''"] payable_one_order show ?thesis
    by (auto split: if_splits)
qed

text \<open>
  Nothing requires the amount to be positive. The documented check is "amount > 0", but a CONFIRMED order
  with amount zero (adding an empty list of items sets exactly that) gets a payment of zero.
\<close>

theorem zero_amount_payment:
  assumes "wf_orders w" and "order_at w oid (Some tid) = Some x" and "o_state x = CONFIRMED"
    and "active_payments w oid tid = []"
    and "\<forall>n. ''pay_'' @ take 20 (uuid_hex (uuid_src w n)) \<notin> set (map p_reference (payments w))"
  shows "\<exists>x' its w1 p w2. add_items oid [] (Some tid) w = (Inr (x', its), w1) \<and> o_amount x' = Some 0
     \<and> create_payment_for_order oid tid w1 = (Inr p, w2) \<and> p_amount p = 0 \<and> p_status p = PAY_PENDING"
proof -
  note at = order_at_Some [OF assms(2)]
  let ?f = "\<lambda>x. x\<lparr>o_amount := Some 0\<rparr>"
  let ?w1 = "w\<lparr>orders := update_where (\<lambda>y. o_id y = o_id x) ?f (orders w)\<rparr>"
  have run: "add_items oid [] (Some tid) w = reload (o_id x) ?w1"
    using assms(2,3) by (simp add: add_items_def bindA_apply get_or_404_eq [OF assms(1)] thenA_apply set_order_def
        add_all_items_def items_sum_def)
  have wf1: "wf_orders ?w1"
    using change_wf [OF change_add_items [OF assms(1), of "Some tid" oid "[]"] assms(1)] run by simp
  have mem: "?f x \<in> set (orders ?w1)" using at by (auto simp: set_update_where image_iff)
  have res: "add_items oid [] (Some tid) w = (Inr (?f x, items_of ?w1 (o_id x)), ?w1)"
    using run reload_eq [OF wf1 mem] by simp
  have pay: "payable ?w1 oid tid (?f x) 0"
    using mem at assms(3,4) order_at_iff [OF wf1, of oid "Some tid" "?f x"]
    by (simp add: payable_def active_payments_def)
  have ref: "next_reference ?w1 \<notin> set (map p_reference (payments ?w1))"
    using assms(5) by (simp add: next_reference_def)
  obtain w2 where "create_payment_for_order oid tid ?w1 = (Inr (new_payment ?w1 tid oid 0 (o_currency (?f x))), w2)"
    by (rule create_payment_payable [OF wf1 pay ref])
  with res show ?thesis by (auto simp: new_payment_def)
qed

theorem zero_amount_payment_witness:
  "\<exists>x' its w1 p w2. add_items ''o1'' [] (Some ''t1'') (one_order CONFIRMED) = (Inr (x', its), w1)
     \<and> create_payment_for_order ''o1'' ''t1'' w1 = (Inr p, w2) \<and> p_amount p = 0"
proof -
  have o: "order_at (one_order CONFIRMED) ''o1'' (Some ''t1'') = Some (hd (orders (one_order CONFIRMED)))"
    and s: "o_state (hd (orders (one_order CONFIRMED))) = CONFIRMED"
    and a: "active_payments (one_order CONFIRMED) ''o1'' ''t1'' = []"
    using payable_one_order by (simp_all add: payable_def)
  have r: "\<forall>n. ''pay_'' @ take 20 (uuid_hex (uuid_src (one_order CONFIRMED) n)) \<notin> set (map p_reference (payments (one_order CONFIRMED)))"
    by (simp add: one_order_def empty_world_def)
  from zero_amount_payment [OF wf_one_order o s a r] show ?thesis by blast
qed

text \<open>
  A late callback can leave an order paid twice. When an earlier attempt for the order is FAILED a new
  payment may be opened; if the provider then reports success for the new one and, late, for the old one, both
  payments are SUCCESS, although a new payment is refused while an active one exists.
\<close>

theorem late_webhook_double_payment:
  assumes wf: "wf_orders w" and wfp: "wf_payments w" and pay: "payable w oid tid x amount"
    and ref: "next_reference w \<notin> set (map p_reference (payments w))"
    and p1: "p1 \<in> set (payments w)" "p_order_id p1 = oid" "p_status p1 = PAY_FAILED"
  shows "\<exists>p2 w1. create_payment_for_order oid tid w = (Inr p2, w1) \<and> p_order_id p2 = oid \<and> p_id p2 \<noteq> p_id p1
     \<and> p1\<lparr>p_status := PAY_SUCCESS\<rparr> \<in> set (payments (fold webhook [(p_reference p2, True), (p_reference p1, True)] w1))
     \<and> p2\<lparr>p_status := PAY_SUCCESS\<rparr> \<in> set (payments (fold webhook [(p_reference p2, True), (p_reference p1, True)] w1))"
proof -
  define p2 where "p2 = new_payment w tid oid amount (o_currency x)"
  obtain w1 where run: "create_payment_for_order oid tid w = (Inr p2, w1)" and ps: "payments w1 = payments w @ [p2]"
    and l: "later w w1" "uuid_n w1 = uuid_n w + 3"
    unfolding p2_def by (rule create_payment_payable [OF wf pay ref])
  have wf1: "wf_payments w1"
    using l ps unfolding p2_def by (intro wf_payments_new [OF wfp ref]) (simp_all add: later_def)
  have r: "p_reference p1 \<noteq> p_reference p2"
    using ref imageI [OF p1(1), of p_reference] by (auto simp: p2_def new_payment_def)
  have id: "p_id p2 \<noteq> p_id p1"
  proof -
    have "uuid_src w (Suc (uuid_n w)) \<notin> p_id ` set (payments w)" using wfp by (simp add: wf_payments_def)
    with p1(1) show ?thesis by (force simp: p2_def new_payment_def)
  qed
  let ?w2 = "webhook (p_reference p2, True) w1"
  have s1: "wf_payments ?w2" "p1 \<in> set (payments ?w2)"
    using webhook_step [OF wf1, of p1 "(p_reference p2, True)"] p1(1) r ps by simp_all
  have s2: "p2\<lparr>p_status := PAY_SUCCESS\<rparr> \<in> set (payments ?w2)"
    using webhook_step [OF wf1, of p2 "(p_reference p2, True)"] ps by (simp add: p2_def new_payment_def)
  have "p1\<lparr>p_status := PAY_SUCCESS\<rparr> \<in> set (payments (webhook (p_reference p1, True) ?w2))"
    using webhook_step [OF s1, of "(p_reference p1, True)"] p1(3) by simp
  moreover have "p2\<lparr>p_status := PAY_SUCCESS\<rparr> \<in> set (payments (webhook (p_reference p1, True) ?w2))"
    using webhook_step [OF s1(1) s2, of "(p_reference p1, True)"] by simp
  ultimately show ?thesis using run id by (auto simp: p2_def new_payment_def)
qed

theorem late_webhook_double_payment_witness:
  "\<exists>p2 w1. create_payment_for_order ''o1'' ''t1'' (one_order CONFIRMED\<lparr>payments := [sample_payment ''p1'' ''r1'' PAY_FAILED]\<rparr>) = (Inr p2, w1)
     \<and> p2\<lparr>p_status := PAY_SUCCESS\<rparr> \<in> set (payments (fold webhook [(p_reference p2, True), (''r1'', True)] w1))"
proof -
  let ?w = "one_order CONFIRMED\<lparr>payments := [sample_payment ''p1'' ''r1'' PAY_FAILED]\<rparr>"
  have wf: "wf_orders ?w"
    by (rule wf_orders_example) (simp_all add: one_order_def create_order_row_def empty_world_def)
  have wfp: "wf_payments ?w"
    using replicate_neq_hd [of "''p1''" "CHR ''u''"]
    by (simp add: wf_payments_def one_order_def sample_payment_def empty_world_def inj_replicate)
  have pay: "payable ?w ''o1'' ''t1'' (hd (orders ?w)) 100"
    by (simp add: payable_def order_at_def one_order_def create_order_row_def scoped_def active_payments_def sample_payment_def
        ACTIVE_STATUSES_def)
  have ref: "next_reference ?w \<notin> set (map p_reference (payments ?w))"
    by (simp add: next_reference_def sample_payment_def)
  have p: "sample_payment ''p1'' ''r1'' PAY_FAILED \<in> set (payments ?w)" by simp
  from late_webhook_double_payment [OF wf wfp pay ref p] show ?thesis by (auto simp: sample_payment_def)
qed

section \<open>Redelivery\<close>

definition confirmed_order :: "event \<Rightarrow> string" where
  "confirmed_order e = payload_str (ev_payload e) ''order_id''"

definition confirmed_tenant :: "event \<Rightarrow> string" where
  "confirmed_tenant e = (let t = payload_str (ev_payload e) ''tenant_id'' in if t = [] then ev_tenant_id e else t)"

definition payment_settled :: "event \<Rightarrow> world \<Rightarrow> bool" where
  "payment_settled e w \<longleftrightarrow> confirmed_order e = [] \<or> confirmed_tenant e = [] \<or> not_awaiting (confirmed_order e) (confirmed_tenant e) w"

lemma on_payment_confirmed_exec:
  assumes "wf_orders w"
  shows "exec (on_payment_confirmed e) w = (if confirmed_order e = [] \<or> confirmed_tenant e = [] then w
     else pay_if_awaiting (confirmed_order e) (confirmed_tenant e) w)"
proof -
  have "exec (thenA m (ret ())) w = exec m w" for m :: "order option svc"
    by (auto simp: exec_def thenA_apply split: prod.splits sum.splits)
  then show ?thesis
    using handle_payment_confirmed_exec [OF assms, of "confirmed_order e" "confirmed_tenant e"]
    by (auto simp: on_payment_confirmed_def confirmed_order_def confirmed_tenant_def Let_def pay_if_awaiting_def exec_def [of "ret ()"])
qed

interpretation payment_delivery: settling_handler on_payment_confirmed wf_orders payment_settled
proof (unfold_locales, goal_cases)
  case (1 w e)
  then show ?case using pay_if_awaiting by (simp add: on_payment_confirmed_exec)
next
  case (2 w e)
  then show ?case using pay_if_awaiting by (simp add: on_payment_confirmed_exec payment_settled_def)
next
  case (3 w e e')
  then show ?case using pay_if_awaiting by (auto simp: on_payment_confirmed_exec payment_settled_def)
next
  case (4 w e)
  then show ?case by (auto simp: on_payment_confirmed_exec payment_settled_def pay_if_awaiting_def)
qed

end
