(* ===== verification/Replies.thy ===== *)
theory Replies
  imports Order_Service Notifications Followup
begin

text \<open>
  What the chat flows of \<open>src/app/modules/orders/service.py\<close> use to talk: the reply helpers, each in a transaction of
  its own with its errors swallowed, and the logging of interest. A template of \<open>whatsapp.py\<close> appears as its
  name with its arguments; button identifiers are kept as the code builds them, and symbols outside Latin-1
  are left out of the titles.
\<close>

section \<open>Reply helpers\<close>

definition reply :: "gateway \<Rightarrow> string \<Rightarrow> string \<Rightarrow> string \<Rightarrow> body \<Rightarrow> string option \<Rightarrow> unit svc" where
  "reply gw phone tid eid msg ctid = (if phone = [] then ret ()
     else tryA (session_begin (send_message gw tid eid phone msg ''whatsapp'' None ctid)) (\<lambda>_. ret ()))"

definition reply_interactive :: "gateway \<Rightarrow> string \<Rightarrow> string \<Rightarrow> string \<Rightarrow> body \<Rightarrow> (string \<times> string) list \<Rightarrow> string option
    \<Rightarrow> string option \<Rightarrow> unit svc" where
  "reply_interactive gw phone tid eid msg buttons ctid ctx = (if phone = [] then ret ()
     else tryA (session_begin (send_interactive gw tid eid phone msg buttons ''whatsapp'' None ctid ctx)) (\<lambda>_. ret ()))"

definition reply_with_cancel :: "gateway \<Rightarrow> string \<Rightarrow> string \<Rightarrow> string \<Rightarrow> body \<Rightarrow> string option \<Rightarrow> unit svc" where
  "reply_with_cancel gw phone tid eid msg ctid =
     reply_interactive gw phone tid eid msg [(''TRADER_CANCEL_SESSION'', ''Cancel'')] ctid None"

definition reply_list :: "gateway \<Rightarrow> string \<Rightarrow> string \<Rightarrow> string \<Rightarrow> body \<Rightarrow> string
    \<Rightarrow> (string \<times> (string \<times> string \<times> string) list) list \<Rightarrow> string option \<Rightarrow> unit svc" where
  "reply_list gw phone tid eid msg label sections ctid = (if phone = [] then ret ()
     else tryA (session_begin (send_list gw tid eid phone msg label sections ''whatsapp'' None ctid)) (\<lambda>_. ret ()))"

definition reply_image :: "gateway \<Rightarrow> string \<Rightarrow> string \<Rightarrow> string \<Rightarrow> string \<Rightarrow> body option \<Rightarrow> string option \<Rightarrow> string option svc" where
  "reply_image gw phone tid eid media caption ctid = (if phone = [] then ret None
     else tryA (session_begin (send_image gw tid eid phone media caption ''whatsapp'' None ctid)) (\<lambda>_. ret None))"

definition log_interest_event :: "string \<Rightarrow> string \<Rightarrow> string \<Rightarrow> string option \<Rightarrow> string \<Rightarrow> int option \<Rightarrow> interest_type \<Rightarrow> unit svc" where
  "log_interest_event tid tp cp cname product price ty =
     tryA (session_begin (thenA (log_interest tid tp cp cname product price ty) (ret ()))) (\<lambda>_. ret ())"

text \<open>
  The transaction of an event handler, whose replies and logged interest are written in sessions of their own and
  committed there: when the handler raises, these rows stay and its other writes are undone.
\<close>

definition handler_session :: "'a svc \<Rightarrow> 'a svc" where
  "handler_session m = (\<lambda>w. case m w of
     (Inl e, w') \<Rightarrow> (Inl e, (restore_db w w')\<lparr>notifications := notifications w', interest_events := interest_events w'\<rparr>)
   | (Inr x, w') \<Rightarrow> (Inr x, w'))"

section \<open>Arguments of templates\<close>

definition json_item :: "cart_item \<Rightarrow> jval" where
  "json_item it = JObj [(''name'', JStr (it_name it)), (''qty'', JInt (it_qty it)),
     (''unit_price'', case it_unit_price it of None \<Rightarrow> JNull | Some p \<Rightarrow> JInt p)]"

definition json_items :: "cart_item list \<Rightarrow> jval" where
  "json_items its = JList (map json_item its)"

definition json_opt :: "string option \<Rightarrow> jval" where
  "json_opt s = (case s of None \<Rightarrow> JNull | Some x \<Rightarrow> JStr x)"

text \<open>\<open>int(d)\<close> of a decimal truncates.\<close>

definition int_of_decimal :: "decimal \<Rightarrow> int" where
  "int_of_decimal d = (if d < 0 then \<lceil>d\<rceil> else \<lfloor>d\<rfloor>)"

lemma int_of_decimal_of_int [simp]: "int_of_decimal (of_int n) = n"
  by (simp add: int_of_decimal_def)

section \<open>What a reply changes\<close>

text \<open>The state without the messages, the logged interest and the position in the supply of identifiers.\<close>

definition core :: "world \<Rightarrow> world" where
  "core w = w\<lparr>notifications := [], dispatched := [], interest_events := [], uuid_n := 0\<rparr>"

text \<open>An action that never raises and only messages, logs and draws identifiers.\<close>

definition aside :: "world \<Rightarrow> world \<Rightarrow> bool" where
  "aside w w' \<longleftrightarrow> core w' = core w \<and> uuid_n w \<le> uuid_n w'"

definition quiet :: "'a svc \<Rightarrow> bool" where
  "quiet m \<longleftrightarrow> (\<forall>w. \<exists>x w'. m w = (Inr x, w') \<and> aside w w')"

lemma aside_refl [simp]: "aside w w"
  by (simp add: aside_def)

lemma aside_trans: "aside w w' \<Longrightarrow> aside w' w'' \<Longrightarrow> aside w w''"
  by (simp add: aside_def)

lemma core_updates [simp]:
  "core (w\<lparr>notifications := a\<rparr>) = core w" "core (w\<lparr>dispatched := b\<rparr>) = core w" "core (w\<lparr>uuid_n := n\<rparr>) = core w"
  "core (w\<lparr>interest_events := c\<rparr>) = core w"
  by (simp_all add: core_def)

lemma core_fields:
  assumes "core w' = core w"
  shows "orders w' = orders w" "order_items w' = order_items w" "payments w' = payments w" "credit_sales w' = credit_sales w"
    "customer_list w' = customer_list w" "referrals w' = referrals w" "published w' = published w" "redis w' = redis w"
    "clock w' = clock w" "uuid_src w' = uuid_src w" "messages w' = messages w" "conversations w' = conversations w"
proof -
  note eq = assms [unfolded core_def]
  show "orders w' = orders w" using arg_cong [OF eq, of orders] by simp
  show "order_items w' = order_items w" using arg_cong [OF eq, of order_items] by simp
  show "payments w' = payments w" using arg_cong [OF eq, of payments] by simp
  show "credit_sales w' = credit_sales w" using arg_cong [OF eq, of credit_sales] by simp
  show "customer_list w' = customer_list w" using arg_cong [OF eq, of customer_list] by simp
  show "referrals w' = referrals w" using arg_cong [OF eq, of referrals] by simp
  show "published w' = published w" using arg_cong [OF eq, of published] by simp
  show "redis w' = redis w" using arg_cong [OF eq, of redis] by simp
  show "clock w' = clock w" using arg_cong [OF eq, of clock] by simp
  show "uuid_src w' = uuid_src w" using arg_cong [OF eq, of uuid_src] by simp
  show "messages w' = messages w" using arg_cong [OF eq, of messages] by simp
  show "conversations w' = conversations w" using arg_cong [OF eq, of conversations] by simp
qed

lemma aside_fields:
  assumes "aside w w'"
  shows "orders w' = orders w" "order_items w' = order_items w" "credit_sales w' = credit_sales w" "redis w' = redis w"
    "published w' = published w" "clock w' = clock w" "uuid_src w' = uuid_src w" "later w w'"
  using core_fields [of w' w] assms by (simp_all add: aside_def later_def)

lemma quiet_ret [simp, intro]: "quiet (ret x)"
  by (simp add: quiet_def)

lemma quietE:
  assumes "quiet m" obtains x w' where "m w = (Inr x, w')" and "aside w w'"
  using assms unfolding quiet_def by blast

lemma quiet_thenA [intro]: "quiet m \<Longrightarrow> quiet k \<Longrightarrow> quiet (thenA m k)"
  unfolding quiet_def thenA_apply by (metis (no_types, lifting) aside_trans prod.case sum.case(2))

lemma quiet_bindA [intro]: "quiet m \<Longrightarrow> (\<And>x. quiet (f x)) \<Longrightarrow> quiet (bindA m f)"
  unfolding quiet_def bindA_apply by (metis (no_types, lifting) aside_trans prod.case sum.case(2))

lemma quiet_if [intro]: "quiet m \<Longrightarrow> quiet k \<Longrightarrow> quiet (if b then m else k)"
  by simp

lemma quiet_swallow:
  assumes "\<And>w. aside w (snd (m w))"
  shows "quiet (tryA (session_begin m) (\<lambda>_. ret x))"
  unfolding quiet_def
proof
  fix w
  have "aside w (restore_db w w')" if "m w = (Inl e, w')" for e w'
    using assms [of w] that core_fields [of w' w] by (simp add: aside_def core_def restore_db_def)
  with assms [of w] show "\<exists>y w'. tryA (session_begin m) (\<lambda>_. ret x) w = (Inr y, w') \<and> aside w w'"
    by (cases "m w") (auto simp: tryA_apply session_begin_def split: sum.splits)
qed

lemma get_by_event_id_pure: "\<exists>r. get_by_event_id eid w = (r, w)"
  by (simp add: get_by_event_id_def bindA_apply)

lemma send_once_aside:
  assumes "may_dispatch rcpt dispatch"
  shows "aside w (snd (send_once tid eid rcpt msg ch oid skipped dispatch raise w))"
proof -
  obtain r where g: "get_by_event_id eid w = (r, w)" using get_by_event_id_pure by blast
  obtain r1 w1 where c1: "notification_create tid eid rcpt msg ch oid w = (r1, w1)" by fastforce
  then have c2: "aside w w1"
    by (auto simp: notification_create_def bindA_apply Let_def aside_def split: if_splits)
  obtain r2 ds where d: "dispatch w1 = (r2, w1\<lparr>dispatched := dispatched w1 @ ds\<rparr>)"
    using assms unfolding may_dispatch_def by blast
  show ?thesis
    using c2 by (auto simp: send_once_def bindA_apply g c1 tryA_apply thenA_apply d update_status_def aside_def
        split: sum.splits option.splits)
qed

lemma reply_quiet [simp, intro]: "quiet (reply gw phone tid eid msg ctid)"
  by (auto simp: reply_def send_message_def dispatch_adapter_defs intro!: quiet_swallow send_once_aside only_may)

lemma reply_interactive_quiet [simp, intro]: "quiet (reply_interactive gw phone tid eid msg bs ctid ctx)"
  by (auto simp: reply_interactive_def send_interactive_def dispatch_adapter_defs intro!: quiet_swallow send_once_aside only_may)

lemma reply_with_cancel_quiet [simp, intro]: "quiet (reply_with_cancel gw phone tid eid msg ctid)"
  by (simp add: reply_with_cancel_def)

lemma reply_list_quiet [simp, intro]: "quiet (reply_list gw phone tid eid msg label ss ctid)"
  by (auto simp: reply_list_def send_list_def dispatch_adapter_defs intro!: quiet_swallow send_once_aside only_may)

lemma reply_image_quiet [simp, intro]: "quiet (reply_image gw phone tid eid media cap ctid)"
  by (auto simp: reply_image_def send_image_def intro!: quiet_swallow send_once_aside)

lemma log_interest_quiet [simp, intro]: "quiet (log_interest_event tid tp cp cname product price ty)"
  unfolding log_interest_event_def
  by (rule quiet_swallow) (auto simp: thenA_apply log_interest_eq aside_def split: list.splits)

section \<open>Flows\<close>

text \<open>
  A flow makes any number of steps of a relation on the order tables and nothing else there. The rules are proved
  once for every relation that keeps the tables well-formed and allows steps that leave orders alone.
\<close>

definition moves :: "(world \<Rightarrow> world \<Rightarrow> bool) \<Rightarrow> 'a svc \<Rightarrow> bool" where
  "moves R m \<longleftrightarrow> (\<forall>w. wf_orders w \<longrightarrow> R\<^sup>*\<^sup>* w (snd (m w)))"

lemma thenA_bindA: "thenA m k = bindA m (\<lambda>_. k)"
  by (rule ext) (simp add: thenA_apply bindA_apply)

lemma moves_mono: "moves R m \<Longrightarrow> (\<And>w w'. R w w' \<Longrightarrow> S w w') \<Longrightarrow> moves S m"
  unfolding moves_def by (metis mono_rtranclp)

locale order_relation =
  fixes R :: "world \<Rightarrow> world \<Rightarrow> bool"
  assumes step_wf: "R w w' \<Longrightarrow> wf_orders w \<Longrightarrow> wf_orders w'"
    and same_step: "orders w' = orders w \<Longrightarrow> order_items w' = order_items w \<Longrightarrow> later w w' \<Longrightarrow> R w w'"
    and step_later: "R w w' \<Longrightarrow> later w w'"
begin

lemma steps_wf: "R\<^sup>*\<^sup>* w w' \<Longrightarrow> wf_orders w \<Longrightarrow> wf_orders w'"
  by (induction rule: rtranclp_induct) (auto intro: step_wf)

lemma steps_later: "R\<^sup>*\<^sup>* w w' \<Longrightarrow> later w w'"
  by (induction rule: rtranclp_induct) (auto intro: step_later later_trans)

lemma movesI: "(\<And>w. wf_orders w \<Longrightarrow> R w (snd (m w))) \<Longrightarrow> moves R m"
  by (auto simp: moves_def)

lemma moves_same:
  "(\<And>w. orders (snd (m w)) = orders w \<and> order_items (snd (m w)) = order_items w \<and> later w (snd (m w))) \<Longrightarrow> moves R m"
  by (auto intro!: movesI same_step)

lemma moves_wf: "moves R m \<Longrightarrow> wf_orders w \<Longrightarrow> wf_orders (exec m w)"
  unfolding moves_def exec_def using steps_wf by blast

lemma moves_quiet: "quiet m \<Longrightarrow> moves R m"
proof (rule moves_same)
  fix w assume "quiet m"
  then obtain x w' where "m w = (Inr x, w')" "aside w w'" by (rule quietE)
  then show "orders (snd (m w)) = orders w \<and> order_items (snd (m w)) = order_items w \<and> later w (snd (m w))"
    by (simp add: aside_fields)
qed

lemma moves_ret: "moves R (ret x)" and moves_raise: "moves R (raise e)" and moves_getA: "moves R (getA f)" and moves_liftE: "moves R (liftE r)"
  by (simp_all add: moves_def)

text \<open>A step from one state: what a bind, a handler and a session add to it.\<close>

lemma bind_at: "R\<^sup>*\<^sup>* w (snd (m w)) \<Longrightarrow> wf_orders w \<Longrightarrow> (\<And>x. moves R (f x)) \<Longrightarrow> R\<^sup>*\<^sup>* w (snd (bindA m f w))"
  unfolding moves_def bindA_apply
  by (cases "m w") (auto split: sum.splits dest: steps_wf intro: rtranclp_trans)

lemma try_at: "R\<^sup>*\<^sup>* w (snd (m w)) \<Longrightarrow> wf_orders w \<Longrightarrow> (\<And>e. moves R (h e)) \<Longrightarrow> R\<^sup>*\<^sup>* w (snd (tryA m h w))"
  unfolding moves_def tryA_apply
  by (cases "m w") (auto split: sum.splits dest: steps_wf intro: rtranclp_trans)

lemma session_at: "R\<^sup>*\<^sup>* w (snd (m w)) \<Longrightarrow> R\<^sup>*\<^sup>* w (snd (session_begin m w))"
proof -
  assume r: "R\<^sup>*\<^sup>* w (snd (m w))"
  have "R w (restore_db w (snd (m w)))"
    using steps_later [OF r] by (intro same_step) (simp_all add: restore_db_def later_def)
  with r show ?thesis by (cases "m w") (auto simp: session_begin_def split: sum.splits)
qed

lemma moves_bindA: "moves R m \<Longrightarrow> (\<And>x. moves R (f x)) \<Longrightarrow> moves R (bindA m f)"
  using bind_at [of _ m f] by (simp add: moves_def [of R m] moves_def [of R "bindA m f"])

lemma moves_thenA: "moves R m \<Longrightarrow> moves R k \<Longrightarrow> moves R (thenA m k)"
  by (simp add: thenA_bindA moves_bindA)

lemma moves_tryA: "moves R m \<Longrightarrow> (\<And>e. moves R (h e)) \<Longrightarrow> moves R (tryA m h)"
  using try_at [of _ m h] by (simp add: moves_def [of R m] moves_def [of R "tryA m h"])

lemma moves_session: "moves R m \<Longrightarrow> moves R (session_begin m)"
  using session_at [of _ m] by (simp add: moves_def)

lemma moves_handler: "moves R m \<Longrightarrow> moves R (handler_session m)"
  unfolding moves_def
proof (intro allI impI)
  fix w assume "\<forall>w. wf_orders w \<longrightarrow> R\<^sup>*\<^sup>* w (snd (m w))" and "wf_orders w"
  then have r: "R\<^sup>*\<^sup>* w (snd (m w))" by blast
  have "R w ((restore_db w (snd (m w)))\<lparr>notifications := notifications (snd (m w)), interest_events := interest_events (snd (m w))\<rparr>)"
    using steps_later [OF r] by (intro same_step) (simp_all add: restore_db_def later_def)
  with r show "R\<^sup>*\<^sup>* w (snd (handler_session m w))" by (cases "m w") (auto simp: handler_session_def split: sum.splits)
qed

lemma moves_if: "moves R m \<Longrightarrow> moves R k \<Longrightarrow> moves R (if b then m else k)"
  by simp

lemma moves_case: "moves R m \<Longrightarrow> (\<And>x. moves R (f x)) \<Longrightarrow> moves R (case v of None \<Rightarrow> m | Some x \<Rightarrow> f x)"
  by (cases v) auto

lemma moves_list: "moves R m \<Longrightarrow> (\<And>j js. moves R (k j js)) \<Longrightarrow> moves R (case js of [] \<Rightarrow> m | j # js \<Rightarrow> k j js)"
  by (cases js) auto

lemma moves_replies:
  "moves R (reply gw p t e m c)" "moves R (reply_interactive gw p t e m bs c ctx)" "moves R (reply_with_cancel gw p t e m c)"
  "moves R (reply_list gw p t e m lab ss c)" "moves R (reply_image gw p t e md cap c)" "moves R (log_interest_event t tp cp n pr pc ty)"
  by (rule moves_quiet; simp)+

lemma moves_lookups:
  "moves R (get_by_id i t)" "moves R (get_open_order_by_customer_phone p u)" "moves R (get_by_ref_prefix ref t)"
  by (rule moves_same; simp add: get_by_id_def get_open_order_by_customer_phone_def get_by_ref_prefix_def bindA_apply)+

lemma moves_opt_out: "moves R (opt_out tp cp)"
  by (rule moves_same) (auto simp: opt_out_def find_entry_def bindA_apply later_def split: option.splits sum.splits)

lemmas moves_rules = moves_bindA moves_thenA moves_tryA moves_session moves_if moves_case moves_list moves_ret moves_raise moves_getA moves_liftE
  moves_replies moves_lookups moves_opt_out

end

text \<open>The changes made on behalf of one tenant.\<close>

lemma change_later: "order_change chk tid w w' \<Longrightarrow> later w w'"
  by (auto elim!: order_change.cases simp: later_def)

interpretation tenant_change: order_relation "order_change False (Some tid)" for tid
  by unfold_locales (auto intro: change_wf order_change.unchanged change_later)

abbreviation order_flow :: "string \<Rightarrow> 'a svc \<Rightarrow> bool" where
  "order_flow tid \<equiv> moves (order_change False (Some tid))"

end
