(* ===== verification/Order_Session.thy ===== *)
theory Order_Session
  imports World
begin

text \<open>
  The Redis-backed state of chats in progress (\<open>src/app/modules/orders/session.py\<close>): nine families of documents with
  their key schemas and times to live, the post-order quiet flag, and the image inquiries a trader has to
  answer, kept as documents with a set of customer phones as their index. The names of the functions are
  those of the module; \<open>json.loads(json.dumps(d))\<close> is \<open>d\<close>.
\<close>

section \<open>Keys\<close>

definition session_key :: "string \<Rightarrow> string \<Rightarrow> string" where
  "session_key tid phone = ''order:session:'' @ tid @ '':'' @ phone"

definition last_clarify_key :: "string \<Rightarrow> string \<Rightarrow> string" where
  "last_clarify_key tid phone = ''clarify:last:'' @ tid @ '':'' @ phone"

definition trader_phone_key :: "string \<Rightarrow> string" where
  "trader_phone_key phone = ''trader:phone:'' @ phone"

definition trader_tenant_key :: "string \<Rightarrow> string" where
  "trader_tenant_key tid = ''trader:tenant:'' @ tid"

definition trader_slug_key :: "string \<Rightarrow> string" where
  "trader_slug_key slug = ''trader:slug:'' @ slug"

definition customer_routing_key :: "string \<Rightarrow> string" where
  "customer_routing_key phone = ''customer:routing:'' @ phone"

definition image_inquiry_key :: "string \<Rightarrow> string \<Rightarrow> string" where
  "image_inquiry_key tp cp = ''image:inquiry:'' @ tp @ '':'' @ cp"

definition image_inquiry_index_key :: "string \<Rightarrow> string" where
  "image_inquiry_index_key tp = ''image:inquiries:'' @ tp"

definition quiet_key :: "string \<Rightarrow> string \<Rightarrow> string" where
  "quiet_key tid phone = ''quiet:'' @ tid @ '':'' @ phone"

definition negotiation_key :: "string \<Rightarrow> string \<Rightarrow> string" where
  "negotiation_key tp cp = ''negotiation:'' @ tp @ '':'' @ cp"

definition trader_session_key :: "string \<Rightarrow> string" where
  "trader_session_key phone = ''trader:session:'' @ phone"

section \<open>Commands\<close>

definition cache_get :: "string \<Rightarrow> doc option svc" where
  "cache_get k = getA (\<lambda>w. redis_get (clock w) k (redis w))"

definition cache_setex :: "string \<Rightarrow> int \<Rightarrow> doc \<Rightarrow> unit svc" where
  "cache_setex k ttl d = modA (\<lambda>w. w\<lparr>redis := redis_setex (clock w) k ttl d (redis w)\<rparr>)"

definition cache_delete :: "string \<Rightarrow> unit svc" where
  "cache_delete k = modA (\<lambda>w. w\<lparr>redis := redis_delete k (redis w)\<rparr>)"

definition SESSION_TTL :: int where "SESSION_TTL = 24 * 60 * 60"

definition LAST_CLARIFY_TTL :: int where "LAST_CLARIFY_TTL = 10 * 60"

definition TRADER_TTL :: int where "TRADER_TTL = 60 * 60"

definition CUSTOMER_ROUTING_TTL :: int where "CUSTOMER_ROUTING_TTL = 7 * 24 * 60 * 60"

definition IMAGE_INQUIRY_TTL :: int where "IMAGE_INQUIRY_TTL = 24 * 60 * 60"

definition QUIET_TTL :: int where "QUIET_TTL = 30 * 60"

definition NEGOTIATION_TTL :: int where "NEGOTIATION_TTL = 24 * 60 * 60"

definition TRADER_SESSION_TTL :: int where "TRADER_SESSION_TTL = 10 * 60"

lemmas ttl_defs = SESSION_TTL_def LAST_CLARIFY_TTL_def TRADER_TTL_def CUSTOMER_ROUTING_TTL_def IMAGE_INQUIRY_TTL_def
  QUIET_TTL_def NEGOTIATION_TTL_def TRADER_SESSION_TTL_def

section \<open>Documents\<close>

definition get_order_session :: "string \<Rightarrow> string \<Rightarrow> doc option svc" where
  "get_order_session tid phone = cache_get (session_key tid phone)"

definition set_order_session :: "string \<Rightarrow> string \<Rightarrow> doc \<Rightarrow> unit svc" where
  "set_order_session tid phone d = cache_setex (session_key tid phone) SESSION_TTL d"

definition clear_order_session :: "string \<Rightarrow> string \<Rightarrow> unit svc" where
  "clear_order_session tid phone = cache_delete (session_key tid phone)"

definition save_last_clarification :: "string \<Rightarrow> string \<Rightarrow> doc \<Rightarrow> unit svc" where
  "save_last_clarification tid phone d = cache_setex (last_clarify_key tid phone) LAST_CLARIFY_TTL d"

definition get_last_clarification :: "string \<Rightarrow> string \<Rightarrow> doc option svc" where
  "get_last_clarification tid phone = cache_get (last_clarify_key tid phone)"

definition clear_last_clarification :: "string \<Rightarrow> string \<Rightarrow> unit svc" where
  "clear_last_clarification tid phone = cache_delete (last_clarify_key tid phone)"

definition get_trader_by_phone_cache :: "string \<Rightarrow> doc option svc" where
  "get_trader_by_phone_cache phone = cache_get (trader_phone_key phone)"

definition cache_trader_by_phone :: "string \<Rightarrow> doc \<Rightarrow> unit svc" where
  "cache_trader_by_phone phone d = cache_setex (trader_phone_key phone) TRADER_TTL d"

definition get_trader_by_tenant_cache :: "string \<Rightarrow> doc option svc" where
  "get_trader_by_tenant_cache tid = cache_get (trader_tenant_key tid)"

definition cache_trader_by_tenant :: "string \<Rightarrow> doc \<Rightarrow> unit svc" where
  "cache_trader_by_tenant tid d = cache_setex (trader_tenant_key tid) TRADER_TTL d"

definition get_trader_by_slug_cache :: "string \<Rightarrow> doc option svc" where
  "get_trader_by_slug_cache slug = cache_get (trader_slug_key slug)"

definition cache_trader_by_slug :: "string \<Rightarrow> doc \<Rightarrow> unit svc" where
  "cache_trader_by_slug slug d = cache_setex (trader_slug_key slug) TRADER_TTL d"

definition get_customer_routing :: "string \<Rightarrow> doc option svc" where
  "get_customer_routing phone = cache_get (customer_routing_key phone)"

definition set_customer_routing :: "string \<Rightarrow> doc \<Rightarrow> unit svc" where
  "set_customer_routing phone d = cache_setex (customer_routing_key phone) CUSTOMER_ROUTING_TTL d"

definition clear_customer_routing :: "string \<Rightarrow> unit svc" where
  "clear_customer_routing phone = cache_delete (customer_routing_key phone)"

definition set_quiet_mode :: "string \<Rightarrow> string \<Rightarrow> unit svc" where
  "set_quiet_mode tid phone = cache_setex (quiet_key tid phone) QUIET_TTL FlagDoc"

definition is_quiet_mode :: "string \<Rightarrow> string \<Rightarrow> bool svc" where
  "is_quiet_mode tid phone = bindA (cache_get (quiet_key tid phone)) (\<lambda>d. ret (d \<noteq> None))"

definition get_pending_negotiation :: "string \<Rightarrow> string \<Rightarrow> doc option svc" where
  "get_pending_negotiation tp cp = cache_get (negotiation_key tp cp)"

definition set_pending_negotiation :: "string \<Rightarrow> string \<Rightarrow> doc \<Rightarrow> unit svc" where
  "set_pending_negotiation tp cp d = cache_setex (negotiation_key tp cp) NEGOTIATION_TTL d"

definition clear_pending_negotiation :: "string \<Rightarrow> string \<Rightarrow> unit svc" where
  "clear_pending_negotiation tp cp = cache_delete (negotiation_key tp cp)"

definition get_trader_session :: "string \<Rightarrow> doc option svc" where
  "get_trader_session phone = cache_get (trader_session_key phone)"

definition set_trader_session :: "string \<Rightarrow> doc \<Rightarrow> unit svc" where
  "set_trader_session phone d = cache_setex (trader_session_key phone) TRADER_SESSION_TTL d"

definition clear_trader_session :: "string \<Rightarrow> unit svc" where
  "clear_trader_session phone = cache_delete (trader_session_key phone)"

section \<open>Image inquiries\<close>

text \<open>The loop over the index in descending order: the first phone with a document, removing stale ones before it.\<close>

fun first_inquiry :: "string \<Rightarrow> string list \<Rightarrow> doc option svc" where
  "first_inquiry tp [] = ret None"
| "first_inquiry tp (cp # cps) = bindA (cache_get (image_inquiry_key tp cp)) (\<lambda>raw. case raw of
     Some d \<Rightarrow> ret (Some d)
   | None \<Rightarrow> thenA (modA (\<lambda>w. w\<lparr>redis := redis_srem (clock w) (image_inquiry_index_key tp) cp (redis w)\<rparr>)) (first_inquiry tp cps))"

definition inquiry_members :: "string \<Rightarrow> world \<Rightarrow> string list" where
  "inquiry_members tp w = redis_smembers (clock w) (image_inquiry_index_key tp) (redis w)"

definition get_pending_image_inquiry :: "string \<Rightarrow> doc option svc" where
  "get_pending_image_inquiry tp = bindA (getA (inquiry_members tp)) (\<lambda>members. first_inquiry tp (rev (sort members)))"

definition inquiry_customer :: "doc \<Rightarrow> string" where
  "inquiry_customer d = (case d of ImageInquiryDoc cp _ \<Rightarrow> cp | _ \<Rightarrow> [])"

definition set_pending_image_inquiry :: "string \<Rightarrow> doc \<Rightarrow> unit svc" where
  "set_pending_image_inquiry tp d = (let cp = inquiry_customer d; ix = image_inquiry_index_key tp in
     if cp = [] then ret ()
     else thenA (cache_setex (image_inquiry_key tp cp) IMAGE_INQUIRY_TTL d)
       (thenA (modA (\<lambda>w. w\<lparr>redis := redis_sadd (clock w) ix cp (redis w)\<rparr>))
         (modA (\<lambda>w. w\<lparr>redis := redis_expire_set (clock w) ix IMAGE_INQUIRY_TTL (redis w)\<rparr>))))"

definition drop_inquiry :: "string \<Rightarrow> string \<Rightarrow> unit svc" where
  "drop_inquiry tp cp = thenA (cache_delete (image_inquiry_key tp cp))
     (modA (\<lambda>w. w\<lparr>redis := redis_srem (clock w) (image_inquiry_index_key tp) cp (redis w)\<rparr>))"

definition clear_pending_image_inquiry :: "string \<Rightarrow> string option \<Rightarrow> unit svc" where
  "clear_pending_image_inquiry tp cp = (case cp of
     Some c \<Rightarrow> if c \<noteq> [] then drop_inquiry tp c
               else bindA (getA (inquiry_members tp)) (\<lambda>ms. if ms = [] then ret () else drop_inquiry tp (hd (rev (sort ms))))
   | None \<Rightarrow> bindA (getA (inquiry_members tp)) (\<lambda>ms. if ms = [] then ret () else drop_inquiry tp (hd (rev (sort ms)))))"

definition count_pending_image_inquiries :: "string \<Rightarrow> nat svc" where
  "count_pending_image_inquiries tp = getA (\<lambda>w. redis_scard (clock w) (image_inquiry_index_key tp) (redis w))"

lemmas session_defs = cache_get_def cache_setex_def cache_delete_def

section \<open>One cache\<close>

text \<open>
  All families together are one cache: the key schemas never collide, as long as the first part of a two-part key
  has no colon (tenant identifiers are UUIDs, trader phones are digits).
\<close>

datatype cache_key = KOrder string string | KClarify string string | KTraderPhone string | KTraderTenant string
  | KTraderSlug string | KRouting string | KNegotiation string string | KTraderSession string

fun render :: "cache_key \<Rightarrow> string" where
  "render (KOrder tid phone) = session_key tid phone"
| "render (KClarify tid phone) = last_clarify_key tid phone"
| "render (KTraderPhone phone) = trader_phone_key phone"
| "render (KTraderTenant tid) = trader_tenant_key tid"
| "render (KTraderSlug slug) = trader_slug_key slug"
| "render (KRouting phone) = customer_routing_key phone"
| "render (KNegotiation tp cp) = negotiation_key tp cp"
| "render (KTraderSession phone) = trader_session_key phone"

fun valid_key :: "cache_key \<Rightarrow> bool" where
  "valid_key (KOrder tid phone) = (CHR '':'' \<notin> set tid)"
| "valid_key (KClarify tid phone) = (CHR '':'' \<notin> set tid)"
| "valid_key (KNegotiation tp cp) = (CHR '':'' \<notin> set tp)"
| "valid_key _ = True"

fun clearable_key :: "cache_key \<Rightarrow> bool" where
  "clearable_key (KTraderPhone _) = False"
| "clearable_key (KTraderTenant _) = False"
| "clearable_key (KTraderSlug _) = False"
| "clearable_key _ = True"

fun ttl_of :: "cache_key \<Rightarrow> int" where
  "ttl_of (KOrder _ _) = SESSION_TTL * second"
| "ttl_of (KClarify _ _) = LAST_CLARIFY_TTL * second"
| "ttl_of (KTraderPhone _) = TRADER_TTL * second"
| "ttl_of (KTraderTenant _) = TRADER_TTL * second"
| "ttl_of (KTraderSlug _) = TRADER_TTL * second"
| "ttl_of (KRouting _) = CUSTOMER_ROUTING_TTL * second"
| "ttl_of (KNegotiation _ _) = NEGOTIATION_TTL * second"
| "ttl_of (KTraderSession _) = TRADER_SESSION_TTL * second"

text \<open>The getter, setter and remover of each family.\<close>

fun session_get :: "cache_key \<Rightarrow> doc option svc" where
  "session_get (KOrder tid phone) = get_order_session tid phone"
| "session_get (KClarify tid phone) = get_last_clarification tid phone"
| "session_get (KTraderPhone phone) = get_trader_by_phone_cache phone"
| "session_get (KTraderTenant tid) = get_trader_by_tenant_cache tid"
| "session_get (KTraderSlug slug) = get_trader_by_slug_cache slug"
| "session_get (KRouting phone) = get_customer_routing phone"
| "session_get (KNegotiation tp cp) = get_pending_negotiation tp cp"
| "session_get (KTraderSession phone) = get_trader_session phone"

fun session_put :: "cache_key \<Rightarrow> doc \<Rightarrow> unit svc" where
  "session_put (KOrder tid phone) d = set_order_session tid phone d"
| "session_put (KClarify tid phone) d = save_last_clarification tid phone d"
| "session_put (KTraderPhone phone) d = cache_trader_by_phone phone d"
| "session_put (KTraderTenant tid) d = cache_trader_by_tenant tid d"
| "session_put (KTraderSlug slug) d = cache_trader_by_slug slug d"
| "session_put (KRouting phone) d = set_customer_routing phone d"
| "session_put (KNegotiation tp cp) d = set_pending_negotiation tp cp d"
| "session_put (KTraderSession phone) d = set_trader_session phone d"

fun session_clear :: "cache_key \<Rightarrow> unit svc" where
  "session_clear (KOrder tid phone) = clear_order_session tid phone"
| "session_clear (KClarify tid phone) = clear_last_clarification tid phone"
| "session_clear (KRouting phone) = clear_customer_routing phone"
| "session_clear (KNegotiation tp cp) = clear_pending_negotiation tp cp"
| "session_clear (KTraderSession phone) = clear_trader_session phone"
| "session_clear _ = ret ()"

lemmas get_defs = get_order_session_def get_last_clarification_def get_trader_by_phone_cache_def get_trader_by_tenant_cache_def
  get_trader_by_slug_cache_def get_customer_routing_def get_pending_negotiation_def get_trader_session_def

lemmas put_defs = set_order_session_def save_last_clarification_def cache_trader_by_phone_def cache_trader_by_tenant_def
  cache_trader_by_slug_def set_customer_routing_def set_pending_negotiation_def set_trader_session_def

lemmas clear_defs = clear_order_session_def clear_last_clarification_def clear_customer_routing_def
  clear_pending_negotiation_def clear_trader_session_def

lemmas key_defs = session_key_def last_clarify_key_def trader_phone_key_def trader_tenant_key_def trader_slug_key_def
  customer_routing_key_def negotiation_key_def trader_session_key_def

lemma colon_split: "CHR '':'' \<notin> set a \<Longrightarrow> CHR '':'' \<notin> set c \<Longrightarrow> a @ CHR '':'' # b = c @ CHR '':'' # d \<longleftrightarrow> a = c \<and> b = d"
proof (induction a arbitrary: c)
  case Nil
  then show ?case by (cases c) auto
next
  case (Cons x a)
  then show ?case by (cases c) auto
qed

lemma render_inj: "valid_key i \<Longrightarrow> valid_key j \<Longrightarrow> render i = render j \<longleftrightarrow> i = j"
  by (cases i; cases j) (simp_all add: key_defs colon_split)

definition session_look :: "timestamp \<Rightarrow> cache_key \<Rightarrow> world \<Rightarrow> doc option" where
  "session_look t k w = redis_get t (render k) (redis w)"

lemma session_get_eq: "session_get k w = (Inr (session_look (clock w) k w), w)"
  by (cases k) (simp_all add: get_defs cache_get_def session_look_def)

lemma session_put_eq: "exec (session_put k d) w = w\<lparr>redis := redis_setex (clock w) (render k) (ttl_of k div second) d (redis w)\<rparr>"
  by (cases k) (simp_all add: put_defs cache_setex_def exec_def second_def)

lemma session_clear_eq: "clearable_key k \<Longrightarrow> exec (session_clear k) w = w\<lparr>redis := redis_delete (render k) (redis w)\<rparr>"
  by (cases k) (simp_all add: clear_defs cache_delete_def exec_def)

lemma ttl_of_seconds: "ttl_of k div second * second = ttl_of k"
  by (cases k) (simp_all add: second_def)

definition pass_time :: "int \<Rightarrow> world \<Rightarrow> world" where
  "pass_time s w = w\<lparr>clock := clock w + s\<rparr>"

interpretation session_cache: document_cache clock session_look "\<lambda>k d. exec (session_put k d)" "\<lambda>k. exec (session_clear k)" pass_time
  valid_key clearable_key ttl_of
proof (unfold_locales, goal_cases)
  case (1 i j t d w)
  then show ?case by (simp add: session_look_def session_put_eq redis_get_setex render_inj ttl_of_seconds)
next
  case (2 i j t w)
  then show ?case by (simp add: session_look_def session_clear_eq redis_get_delete render_inj)
next
  case (5 i w)
  then show ?case by (cases i) (simp_all add: exec_def clear_defs cache_delete_def)
qed (simp_all add: session_look_def pass_time_def session_put_eq)

section \<open>The index of image inquiries\<close>

definition inquiry_at :: "timestamp \<Rightarrow> string \<Rightarrow> string \<Rightarrow> world \<Rightarrow> doc option" where
  "inquiry_at t tp cp w = redis_get t (image_inquiry_key tp cp) (redis w)"

definition members_at :: "timestamp \<Rightarrow> string \<Rightarrow> world \<Rightarrow> string list" where
  "members_at t tp w = redis_smembers t (image_inquiry_index_key tp) (redis w)"

text \<open>Every document that is still alive at a later time is then in its trader's index, and no document outlives the TTL.\<close>

definition inquiries_indexed :: "world \<Rightarrow> bool" where
  "inquiries_indexed w \<longleftrightarrow> (\<forall>tp cp t. CHR '':'' \<notin> set tp \<longrightarrow> clock w \<le> t \<longrightarrow> inquiry_at t tp cp w \<noteq> None \<longrightarrow>
     t < clock w + IMAGE_INQUIRY_TTL * second \<and> cp \<in> set (members_at t tp w))"

datatype inquiry_op = SetInquiry string doc | GetInquiry string | ClearInquiry string "string option" | PassTime nat

fun inquiry_trader :: "inquiry_op \<Rightarrow> string" where
  "inquiry_trader (SetInquiry tp d) = tp"
| "inquiry_trader (GetInquiry tp) = tp"
| "inquiry_trader (ClearInquiry tp c) = tp"
| "inquiry_trader (PassTime n) = []"

fun inquiry_step :: "inquiry_op \<Rightarrow> world \<Rightarrow> world" where
  "inquiry_step (SetInquiry tp d) w = exec (set_pending_image_inquiry tp d) w"
| "inquiry_step (GetInquiry tp) w = exec (get_pending_image_inquiry tp) w"
| "inquiry_step (ClearInquiry tp c) w = exec (clear_pending_image_inquiry tp c) w"
| "inquiry_step (PassTime n) w = pass_time (int n) w"

lemma inquiry_key_inj:
  "CHR '':'' \<notin> set tp \<Longrightarrow> CHR '':'' \<notin> set tp' \<Longrightarrow> image_inquiry_key tp cp = image_inquiry_key tp' cp' \<longleftrightarrow> tp = tp' \<and> cp = cp'"
  by (simp add: image_inquiry_key_def colon_split)

lemma index_key_inj: "image_inquiry_index_key tp = image_inquiry_index_key tp' \<longleftrightarrow> tp = tp'"
  by (simp add: image_inquiry_index_key_def)

lemma set_entry_cases:
  obtains (gone) "sets r k = None" | (lasting) xs where "sets r k = Some (xs, None)" | (timed) xs e where "sets r k = Some (xs, Some e)"
  by (cases "sets r k") (auto, metis option.exhaust)

lemma smembers_later: "cp \<in> set (redis_smembers t k r) \<Longrightarrow> now \<le> t \<Longrightarrow> cp \<in> set (redis_smembers now k r)"
  by (cases r k rule: set_entry_cases) (auto simp: redis_smembers_def alive_def split: if_splits)

lemma smembers_srem_later:
  assumes "now \<le> t"
  shows "set (redis_smembers t k (redis_srem now s m r)) = set (redis_smembers t k r) - (if k = s then {m} else {})"
proof (cases "k = s")
  case True
  have "removeAll m xs = [] \<Longrightarrow> set xs - {m} = {}" for xs :: "string list"
    by (metis set_removeAll list.set(1))
  then show ?thesis using assms True
    by (cases r s rule: set_entry_cases) (auto simp: redis_defs Let_def)
qed (simp add: redis_smembers_def redis_srem_def Let_def)

lemma smembers_set_inquiry:
  assumes "now \<le> t" and "0 < ttl"
  shows "set (redis_smembers t k (redis_expire_set now s ttl (redis_sadd now s m r))) =
     (if k = s then if t < now + ttl * second then insert m (set (redis_smembers now s r)) else {} else set (redis_smembers t k r))"
proof -
  have "redis_smembers now s (redis_sadd now s m r) = List.insert m (redis_smembers now s r)" by (simp add: redis_smembers_sadd)
  moreover obtain x xs where "List.insert m (redis_smembers now s r) = x # xs"
    by (metis List.set_insert insert_not_empty list.exhaust list.set(1))
  moreover from this have "insert m (set (redis_smembers now s r)) = insert x (set xs)"
    by (metis List.set_insert list.simps(15))
  ultimately show ?thesis
    by (simp add: redis_expire_set_def) (auto simp: redis_smembers_def redis_sadd_def alive_def)
qed

text \<open>Removing an index entry is safe when its document is gone.\<close>

definition unindex :: "string \<Rightarrow> string \<Rightarrow> world \<Rightarrow> world" where
  "unindex tp cp w = w\<lparr>redis := redis_srem (clock w) (image_inquiry_index_key tp) cp (redis w)\<rparr>"

lemma inquiry_at_unindex [simp]: "inquiry_at t tp' cp' (unindex tp cp w) = inquiry_at t tp' cp' w" "clock (unindex tp cp w) = clock w"
  by (simp_all add: inquiry_at_def unindex_def)

lemma inquiry_at_earlier: "inquiry_at t tp cp w \<noteq> None \<Longrightarrow> now \<le> t \<Longrightarrow> inquiry_at now tp cp w \<noteq> None"
  by (auto simp: inquiry_at_def redis_get_def alive_def split: option.splits if_splits)

lemma unindex_keeps:
  assumes "inquiries_indexed w" and "inquiry_at (clock w) tp cp w = None"
  shows "inquiries_indexed (unindex tp cp w)"
proof -
  have "cp' \<in> set (members_at t tp' (unindex tp cp w))"
    if "CHR '':'' \<notin> set tp'" "clock w \<le> t" "inquiry_at t tp' cp' w \<noteq> None" for tp' cp' t
  proof -
    have "\<not> (tp' = tp \<and> cp' = cp)" using assms(2) inquiry_at_earlier [OF that(3,2)] by auto
    moreover have "cp' \<in> set (members_at t tp' w)" using assms(1) that by (simp add: inquiries_indexed_def)
    ultimately show ?thesis
      using that(2) by (auto simp: members_at_def unindex_def smembers_srem_later index_key_inj)
  qed
  with assms(1) show ?thesis by (auto simp: inquiries_indexed_def)
qed

lemma first_inquiry_spec:
  "\<exists>w'. first_inquiry tp cps w = (Inr (case find (\<lambda>cp. inquiry_at (clock w) tp cp w \<noteq> None) cps of
       None \<Rightarrow> None | Some cp \<Rightarrow> inquiry_at (clock w) tp cp w), w')
     \<and> (inquiries_indexed w \<longrightarrow> inquiries_indexed w')"
proof (induction cps arbitrary: w)
  case (Cons cp cps)
  show ?case
  proof (cases "inquiry_at (clock w) tp cp w")
    case None
    have "first_inquiry tp (cp # cps) w = first_inquiry tp cps (unindex tp cp w)"
      using None by (simp add: bindA_apply thenA_apply cache_get_def inquiry_at_def unindex_def)
    with Cons [of "unindex tp cp w"] None unindex_keeps [of w tp cp] show ?thesis by (auto simp del: first_inquiry.simps cong: option.case_cong)
  next
    case (Some d)
    then show ?thesis by (simp add: bindA_apply cache_get_def inquiry_at_def)
  qed
qed simp

lemma delete_keeps:
  assumes "inquiries_indexed w"
  shows "inquiries_indexed (w\<lparr>redis := redis_delete k (redis w)\<rparr>)"
  using assms by (auto simp: inquiries_indexed_def inquiry_at_def members_at_def redis_get_delete)

lemma drop_inquiry_keeps: "inquiries_indexed w \<Longrightarrow> inquiries_indexed (exec (drop_inquiry tp cp) w)"
proof -
  assume wf: "inquiries_indexed w"
  let ?w = "w\<lparr>redis := redis_delete (image_inquiry_key tp cp) (redis w)\<rparr>"
  have "exec (drop_inquiry tp cp) w = unindex tp cp ?w"
    by (simp add: exec_def drop_inquiry_def thenA_apply cache_delete_def unindex_def)
  moreover have "inquiry_at (clock ?w) tp cp ?w = None" by (simp add: inquiry_at_def redis_get_delete)
  ultimately show ?thesis using unindex_keeps [OF delete_keeps [OF wf]] by simp
qed

lemma set_inquiry_keeps:
  assumes "inquiries_indexed w" and "CHR '':'' \<notin> set tp"
  shows "inquiries_indexed (exec (set_pending_image_inquiry tp d) w)"
proof (cases "inquiry_customer d = []")
  case False
  let ?cp = "inquiry_customer d" and ?w = "exec (set_pending_image_inquiry tp d) w"
  have c: "clock ?w = clock w"
    using False by (simp add: exec_def set_pending_image_inquiry_def Let_def thenA_apply cache_setex_def)
  have look: "inquiry_at t tp' cp' ?w = (if tp' = tp \<and> cp' = ?cp then if t < clock w + IMAGE_INQUIRY_TTL * second then Some d else None
      else inquiry_at t tp' cp' w)" if "CHR '':'' \<notin> set tp'" for t tp' cp'
    using False assms(2) that
    by (simp add: exec_def set_pending_image_inquiry_def Let_def thenA_apply cache_setex_def inquiry_at_def redis_get_setex inquiry_key_inj)
  have mem: "set (members_at t tp' ?w) = (if tp' = tp then if t < clock w + IMAGE_INQUIRY_TTL * second
      then insert ?cp (set (members_at (clock w) tp w)) else {} else set (members_at t tp' w))" if "clock w \<le> t" for t tp'
    using False that
    by (simp add: exec_def set_pending_image_inquiry_def Let_def thenA_apply cache_setex_def members_at_def smembers_set_inquiry index_key_inj
        IMAGE_INQUIRY_TTL_def)
  have "t < clock w + IMAGE_INQUIRY_TTL * second \<and> cp' \<in> set (members_at t tp' ?w)"
    if "CHR '':'' \<notin> set tp'" "clock w \<le> t" "inquiry_at t tp' cp' ?w \<noteq> None" for tp' cp' t
  proof (cases "tp' = tp \<and> cp' = ?cp")
    case True
    with that show ?thesis by (auto simp: look mem split: if_splits)
  next
    case False
    then have "inquiry_at t tp' cp' w \<noteq> None" using that(1,3) look [OF that(1), of t cp'] by auto
    then have old: "t < clock w + IMAGE_INQUIRY_TTL * second" "cp' \<in> set (members_at t tp' w)"
      using assms(1) that by (simp_all add: inquiries_indexed_def)
    then have "cp' \<in> set (members_at (clock w) tp' w)"
      unfolding members_at_def using that(2) by (rule_tac smembers_later)
    with old that show ?thesis by (auto simp: mem)
  qed
  with c show ?thesis by (simp add: inquiries_indexed_def)
qed (simp add: set_pending_image_inquiry_def exec_def assms)

lemma inquiry_step_keeps:
  assumes "inquiries_indexed w" and "CHR '':'' \<notin> set (inquiry_trader x)"
  shows "inquiries_indexed (inquiry_step x w)"
proof (cases x)
  case (SetInquiry tp d)
  then show ?thesis using assms by (simp add: set_inquiry_keeps)
next
  case (GetInquiry tp)
  then show ?thesis
    using first_inquiry_spec [of tp "rev (sort (inquiry_members tp w))" w] assms(1)
    by (auto simp: exec_def get_pending_image_inquiry_def bindA_apply)
next
  case (ClearInquiry tp c)
  have "exec (clear_pending_image_inquiry tp c) w = w \<or> (\<exists>cp. exec (clear_pending_image_inquiry tp c) w = exec (drop_inquiry tp cp) w)"
    by (auto simp: clear_pending_image_inquiry_def exec_def bindA_apply split: option.splits)
  with ClearInquiry assms(1) drop_inquiry_keeps show ?thesis by auto
next
  case (PassTime n)
  show ?thesis
    unfolding PassTime inquiry_step.simps pass_time_def inquiries_indexed_def
  proof (intro allI impI)
    fix tp cp t
    assume *: "CHR '':'' \<notin> set tp" "clock (w\<lparr>clock := clock w + int n\<rparr>) \<le> t" "inquiry_at t tp cp (w\<lparr>clock := clock w + int n\<rparr>) \<noteq> None"
    then have "clock w \<le> t" "inquiry_at t tp cp w \<noteq> None" by (simp_all add: inquiry_at_def)
    with assms(1) *(1) have "t < clock w + IMAGE_INQUIRY_TTL * second \<and> cp \<in> set (members_at t tp w)"
      by (simp add: inquiries_indexed_def)
    then show "t < clock (w\<lparr>clock := clock w + int n\<rparr>) + IMAGE_INQUIRY_TTL * second
        \<and> cp \<in> set (members_at t tp (w\<lparr>clock := clock w + int n\<rparr>))"
      by (simp add: members_at_def)
  qed
qed

lemma find_greatest:
  fixes xs :: "'a :: linorder list"
  assumes "find P (rev (sort xs)) = Some x" and "y \<in> set xs" and "P y"
  shows "y \<le> x"
proof -
  have "sorted_wrt (\<ge>) (rev (sort xs))" by (simp add: sorted_wrt_rev)
  moreover have "find P zs = Some x \<Longrightarrow> sorted_wrt (\<ge>) zs \<Longrightarrow> y \<in> set zs \<Longrightarrow> y \<le> x" for zs
    using assms(3) by (induction zs) (auto split: if_splits)
  ultimately show ?thesis using assms by simp
qed

lemma pending_found:
  assumes "inquiries_indexed w" and "CHR '':'' \<notin> set tp"
  obtains r w' where "get_pending_image_inquiry tp w = (Inr r, w')"
    and "case r of None \<Rightarrow> \<forall>cp. inquiry_at (clock w) tp cp w = None
       | Some d \<Rightarrow> \<exists>cp. inquiry_at (clock w) tp cp w = Some d \<and> (\<forall>cp'. inquiry_at (clock w) tp cp' w \<noteq> None \<longrightarrow> cp' \<le> cp)"
proof -
  let ?alive = "\<lambda>cp. inquiry_at (clock w) tp cp w \<noteq> None"
  have mem: "?alive cp \<Longrightarrow> cp \<in> set (inquiry_members tp w)" for cp
    using assms by (simp add: inquiries_indexed_def members_at_def inquiry_members_def)
  obtain w' where run: "get_pending_image_inquiry tp w = (Inr (case find ?alive (rev (sort (inquiry_members tp w))) of
       None \<Rightarrow> None | Some cp \<Rightarrow> inquiry_at (clock w) tp cp w), w')"
    using first_inquiry_spec [of tp "rev (sort (inquiry_members tp w))" w]
    by (auto simp: get_pending_image_inquiry_def bindA_apply)
  show thesis
  proof (cases "find ?alive (rev (sort (inquiry_members tp w)))")
    case None
    then have "\<forall>cp. inquiry_at (clock w) tp cp w = None"
      using mem unfolding find_None_iff by (metis set_rev set_sort)
    with run None show thesis by (intro that) auto
  next
    case (Some cp)
    then obtain d where "inquiry_at (clock w) tp cp w = Some d" using find_Some_iff2 [OF Some] by auto
    moreover have "?alive cp' \<Longrightarrow> cp' \<le> cp" for cp' using find_greatest [OF Some mem] by blast
    ultimately show thesis using run Some by (intro that [of "Some d" w']) auto
  qed
qed

text \<open>
  No image inquiry is lost. After any sequence of photos, answers and waiting, asking for the trader's pending inquiry
  returns nothing only if no customer has one that is still alive, and otherwise the one of the customer
  whose phone number is greatest in string order.
\<close>

theorem image_inquiry_found:
  assumes "redis w = empty_redis" and "\<forall>x\<in>set xs. CHR '':'' \<notin> set (inquiry_trader x)" and "CHR '':'' \<notin> set tp"
  defines "w' \<equiv> fold inquiry_step xs w"
  shows "(\<exists>w''. get_pending_image_inquiry tp w' = (Inr None, w'') \<and> (\<forall>cp. inquiry_at (clock w') tp cp w' = None))
     \<or> (\<exists>d cp w''. get_pending_image_inquiry tp w' = (Inr (Some d), w'') \<and> inquiry_at (clock w') tp cp w' = Some d
          \<and> (\<forall>cp'. inquiry_at (clock w') tp cp' w' \<noteq> None \<longrightarrow> cp' \<le> cp))"
proof -
  have "inquiries_indexed w"
    using assms(1) by (simp add: inquiries_indexed_def inquiry_at_def redis_get_def empty_redis_def)
  then have inv: "inquiries_indexed w'"
    unfolding w'_def using assms(2) by (induction xs arbitrary: w) (simp_all add: inquiry_step_keeps)
  obtain r w'' where "get_pending_image_inquiry tp w' = (Inr r, w'')"
    and "case r of None \<Rightarrow> \<forall>cp. inquiry_at (clock w') tp cp w' = None
       | Some d \<Rightarrow> \<exists>cp. inquiry_at (clock w') tp cp w' = Some d \<and> (\<forall>cp'. inquiry_at (clock w') tp cp' w' \<noteq> None \<longrightarrow> cp' \<le> cp)"
    using pending_found [OF inv assms(3)] .
  then show ?thesis by (cases r) auto
qed

definition photo :: "string \<Rightarrow> doc" where
  "photo cp = ImageInquiryDoc cp []"

theorem image_inquiry_found_witness:
  "fst (get_pending_image_inquiry ''080'' (fold inquiry_step [SetInquiry ''080'' (photo ''2349''), PassTime 60, SetInquiry ''080'' (photo ''2341'')] empty_world))
     = Inr (Some (photo ''2349''))"
proof -
  let ?xs = "[SetInquiry ''080'' (photo ''2349''), PassTime 60, SetInquiry ''080'' (photo ''2341'')]"
  define w where "w = fold inquiry_step ?xs empty_world"
  have at: "inquiry_at (clock w) ''080'' cp w = (if cp = ''2349'' then Some (photo ''2349'') else if cp = ''2341'' then Some (photo ''2341'') else None)" for cp
    by (simp add: w_def inquiry_at_def exec_def set_pending_image_inquiry_def inquiry_customer_def photo_def Let_def thenA_apply cache_setex_def
        redis_get_setex inquiry_key_inj pass_time_def empty_world_def IMAGE_INQUIRY_TTL_def second_def)
      (simp add: redis_get_def empty_redis_def)
  have some: "inquiry_at (clock w) ''080'' ''2349'' w \<noteq> None" by (simp add: at)
  have "redis empty_world = empty_redis" by (simp add: empty_world_def)
  from image_inquiry_found [OF this, of ?xs "''080''", folded w_def]
  have "(\<exists>w''. get_pending_image_inquiry ''080'' w = (Inr None, w'') \<and> (\<forall>cp. inquiry_at (clock w) ''080'' cp w = None))
     \<or> (\<exists>d cp w''. get_pending_image_inquiry ''080'' w = (Inr (Some d), w'') \<and> inquiry_at (clock w) ''080'' cp w = Some d
          \<and> (\<forall>cp'. inquiry_at (clock w) ''080'' cp' w \<noteq> None \<longrightarrow> cp' \<le> cp))" by simp
  with some obtain d cp w'' where d: "get_pending_image_inquiry ''080'' w = (Inr (Some d), w'')" "inquiry_at (clock w) ''080'' cp w = Some d"
      "\<forall>cp'. inquiry_at (clock w) ''080'' cp' w \<noteq> None \<longrightarrow> cp' \<le> cp" by metis
  from d(3) some have "''2349'' \<le> cp" by blast
  moreover have "\<not> ''2349'' \<le> ''2341''" by simp
  ultimately have "cp \<noteq> ''2341''" by blast
  then have "d = photo ''2349''" using d(2) unfolding at by (simp split: if_splits)
  with d(1) show ?thesis by (simp add: w_def)
qed

section \<open>The whole store\<close>

text \<open>
  Everything the module keeps under a key of its own: the eight families of documents, the quiet flag and the image
  inquiries. The index set of the inquiries is not part of the abstract state.
\<close>

datatype slot = SCell cache_key | SQuiet string string | SInquiry string string

fun slot_key :: "slot \<Rightarrow> string" where
  "slot_key (SCell k) = render k"
| "slot_key (SQuiet tid phone) = quiet_key tid phone"
| "slot_key (SInquiry tp cp) = image_inquiry_key tp cp"

fun valid_slot :: "slot \<Rightarrow> bool" where
  "valid_slot (SCell k) = valid_key k"
| "valid_slot (SQuiet tid phone) = (CHR '':'' \<notin> set tid)"
| "valid_slot (SInquiry tp cp) = (CHR '':'' \<notin> set tp)"

fun slot_ttl :: "slot \<Rightarrow> int" where
  "slot_ttl (SCell k) = ttl_of k"
| "slot_ttl (SQuiet tid phone) = QUIET_TTL * second"
| "slot_ttl (SInquiry tp cp) = IMAGE_INQUIRY_TTL * second"

lemma cell_keys: "render k \<noteq> quiet_key a b" "render k \<noteq> image_inquiry_key a b" "quiet_key a b \<noteq> image_inquiry_key c d"
  by (cases k; simp add: key_defs quiet_key_def image_inquiry_key_def)+

lemma quiet_key_inj: "CHR '':'' \<notin> set a \<Longrightarrow> CHR '':'' \<notin> set c \<Longrightarrow> quiet_key a b = quiet_key c d \<longleftrightarrow> a = c \<and> b = d"
  by (simp add: quiet_key_def colon_split)

lemma slot_key_inj: "valid_slot i \<Longrightarrow> valid_slot j \<Longrightarrow> slot_key i = slot_key j \<longleftrightarrow> i = j"
  by (cases i; cases j)
    (simp_all add: render_inj cell_keys cell_keys [symmetric] inquiry_key_inj quiet_key_inj)

definition slot_look :: "timestamp \<Rightarrow> slot \<Rightarrow> world \<Rightarrow> doc option" where
  "slot_look t s w = redis_get t (slot_key s) (redis w)"

definition slot_put :: "slot \<Rightarrow> doc \<Rightarrow> world \<Rightarrow> world" where
  "slot_put s d w = w\<lparr>redis := redis_setex (clock w) (slot_key s) (slot_ttl s div second) d (redis w)\<rparr>"

definition slot_clear :: "slot \<Rightarrow> world \<Rightarrow> world" where
  "slot_clear s w = w\<lparr>redis := redis_delete (slot_key s) (redis w)\<rparr>"

lemma slot_seconds: "slot_ttl s div second * second = slot_ttl s"
proof (cases s)
  case (SCell k)
  then show ?thesis by (simp add: ttl_of_seconds)
qed (simp_all add: second_def)

interpretation slot_cache: document_cache clock slot_look slot_put slot_clear pass_time valid_slot "\<lambda>_. True" slot_ttl
proof (unfold_locales, goal_cases)
  case (1 i j t d w)
  then show ?case by (simp add: slot_look_def slot_put_def redis_get_setex slot_key_inj slot_seconds)
next
  case (2 i j t w)
  then show ?case by (simp add: slot_look_def slot_clear_def redis_get_delete slot_key_inj)
qed (simp_all add: slot_look_def slot_put_def slot_clear_def pass_time_def)

datatype session_op = Write cache_key doc | Remove cache_key | Quiet string string | Photo string doc | AskPhoto string
  | AnswerPhoto string string | Pass nat

fun session_step :: "session_op \<Rightarrow> world \<Rightarrow> world" where
  "session_step (Write k d) w = exec (session_put k d) w"
| "session_step (Remove k) w = exec (session_clear k) w"
| "session_step (Quiet tid phone) w = exec (set_quiet_mode tid phone) w"
| "session_step (Photo tp d) w = exec (set_pending_image_inquiry tp d) w"
| "session_step (AskPhoto tp) w = exec (get_pending_image_inquiry tp) w"
| "session_step (AnswerPhoto tp cp) w = exec (clear_pending_image_inquiry tp (Some cp)) w"
| "session_step (Pass n) w = pass_time (int n) w"

text \<open>What each operation is on the abstract map; a photo without a customer is not stored.\<close>

fun abstract_ops :: "session_op \<Rightarrow> (slot, doc) cache_op list" where
  "abstract_ops (Write k d) = [Put (SCell k) d]"
| "abstract_ops (Remove k) = [Clear (SCell k)]"
| "abstract_ops (Quiet tid phone) = [Put (SQuiet tid phone) FlagDoc]"
| "abstract_ops (Photo tp d) = (if inquiry_customer d = [] then [] else [Put (SInquiry tp (inquiry_customer d)) d])"
| "abstract_ops (AskPhoto tp) = []"
| "abstract_ops (AnswerPhoto tp cp) = [Clear (SInquiry tp cp)]"
| "abstract_ops (Pass n) = [Wait (int n)]"

fun allowed :: "session_op \<Rightarrow> bool" where
  "allowed (Write k d) = valid_key k"
| "allowed (Remove k) = (valid_key k \<and> clearable_key k)"
| "allowed (Quiet tid phone) = (CHR '':'' \<notin> set tid)"
| "allowed (Photo tp d) = (CHR '':'' \<notin> set tp)"
| "allowed (AskPhoto tp) = (CHR '':'' \<notin> set tp)"
| "allowed (AnswerPhoto tp cp) = (CHR '':'' \<notin> set tp \<and> cp \<noteq> [])"
| "allowed (Pass n) = True"

text \<open>The index changes beside the documents do not show in the map.\<close>

lemma agrees_docs: "clock w' = clock w \<Longrightarrow> kv (redis w') = kv (redis w) \<Longrightarrow> slot_cache.agrees c w' = slot_cache.agrees c w"
  by (simp add: slot_cache.agrees_def slot_look_def redis_get_def)

lemma first_inquiry_docs: "kv (redis (snd (first_inquiry tp cps w))) = kv (redis w) \<and> clock (snd (first_inquiry tp cps w)) = clock w"
proof (induction cps arbitrary: w)
  case (Cons cp cps)
  then show ?case
    by (cases "redis_get (clock w) (image_inquiry_key tp cp) (redis w)")
      (simp_all add: bindA_apply thenA_apply cache_get_def redis_srem_def Let_def)
qed simp

lemma session_step_refines:
  assumes "slot_cache.agrees c w" and "allowed x"
  shows "slot_cache.agrees (fold (cell_step slot_ttl) (abstract_ops x) c) (session_step x w)"
proof -
  note refines = slot_cache.step_refines [OF assms(1)]
  have put: "slot_cache.agrees (cell_step slot_ttl (Put s d) c) (slot_put s d w)" if "valid_slot s" for s d
    using refines [of "Put s d"] that by simp
  have clear: "slot_cache.agrees (cell_step slot_ttl (Clear s) c) (slot_clear s w)" if "valid_slot s" for s
    using refines [of "Clear s"] that by simp
  show ?thesis
  proof (cases x)
    case (Write k d)
    with put [of "SCell k" d] assms(2) show ?thesis by (simp add: session_put_eq slot_put_def)
  next
    case (Remove k)
    with clear [of "SCell k"] assms(2) show ?thesis by (simp add: session_clear_eq slot_clear_def)
  next
    case (Quiet tid phone)
    with put [of "SQuiet tid phone" FlagDoc] assms(2) show ?thesis
      by (simp add: set_quiet_mode_def cache_setex_def exec_def slot_put_def second_def)
  next
    case (Photo tp d)
    show ?thesis
    proof (cases "inquiry_customer d = []")
      case True
      with Photo assms(1) show ?thesis by (simp add: set_pending_image_inquiry_def exec_def)
    next
      case False
      have "slot_cache.agrees (cell_step slot_ttl (Put (SInquiry tp (inquiry_customer d)) d) c) (session_step x w)"
        using put [of "SInquiry tp (inquiry_customer d)" d] assms(2) False Photo
        by (subst agrees_docs [of _ "slot_put (SInquiry tp (inquiry_customer d)) d w"])
          (simp_all add: set_pending_image_inquiry_def exec_def Let_def thenA_apply cache_setex_def slot_put_def second_def
            redis_expire_set_def redis_sadd_def split: list.split)
      with False Photo show ?thesis by simp
    qed
  next
    case (AskPhoto tp)
    have "slot_cache.agrees c (session_step x w) = slot_cache.agrees c w"
      using first_inquiry_docs AskPhoto by (intro agrees_docs) (simp_all add: exec_def get_pending_image_inquiry_def bindA_apply)
    with assms(1) AskPhoto show ?thesis by simp
  next
    case (AnswerPhoto tp cp)
    then have "slot_cache.agrees (cell_step slot_ttl (Clear (SInquiry tp cp)) c) (session_step x w)"
      using clear [of "SInquiry tp cp"] assms(2)
      by (subst agrees_docs [of _ "slot_clear (SInquiry tp cp) w"])
        (simp_all add: clear_pending_image_inquiry_def drop_inquiry_def exec_def thenA_apply cache_delete_def slot_clear_def redis_srem_def Let_def)
    with AnswerPhoto show ?thesis by simp
  next
    case (Pass n)
    with refines [of "Wait (int n)"] show ?thesis by simp
  qed
qed

lemma setex_indexed:
  assumes "inquiries_indexed w" and "\<And>tp cp. k \<noteq> image_inquiry_key tp cp"
  shows "inquiries_indexed (w\<lparr>redis := redis_setex (clock w) k n d (redis w)\<rparr>)"
proof -
  have "image_inquiry_key tp cp \<noteq> k" for tp cp using assms(2) [of tp cp] by simp
  with assms(1) show ?thesis by (simp add: inquiries_indexed_def inquiry_at_def members_at_def redis_get_setex)
qed

lemma session_step_indexed:
  assumes "inquiries_indexed w" and "allowed x"
  shows "inquiries_indexed (session_step x w)"
proof (cases x)
  case (Write k d)
  then show ?thesis using assms(1) by (simp add: session_put_eq setex_indexed cell_keys)
next
  case (Remove k)
  with assms(2) show ?thesis by (simp add: session_clear_eq delete_keeps assms(1))
next
  case (Quiet tid phone)
  then show ?thesis using assms(1) by (simp add: set_quiet_mode_def cache_setex_def exec_def setex_indexed cell_keys)
next
  case (Photo tp d)
  with inquiry_step_keeps [of w "SetInquiry tp d"] assms show ?thesis by simp
next
  case (AskPhoto tp)
  with inquiry_step_keeps [of w "GetInquiry tp"] assms show ?thesis by simp
next
  case (AnswerPhoto tp cp)
  with inquiry_step_keeps [of w "ClearInquiry tp (Some cp)"] assms show ?thesis by simp
next
  case (Pass n)
  with inquiry_step_keeps [of w "PassTime n"] assms show ?thesis by simp
qed

lemma session_steps:
  assumes "redis w = empty_redis" and "\<forall>x\<in>set xs. allowed x"
  shows "slot_cache.agrees (fold (cell_step slot_ttl) (concat (map abstract_ops xs)) (clock w, Map.empty)) (fold session_step xs w)
     \<and> inquiries_indexed (fold session_step xs w)"
proof -
  have "slot_cache.agrees c v \<Longrightarrow> inquiries_indexed v \<Longrightarrow>
      slot_cache.agrees (fold (cell_step slot_ttl) (concat (map abstract_ops xs)) c) (fold session_step xs v) \<and> inquiries_indexed (fold session_step xs v)" for c v
    using assms(2)
  proof (induction xs arbitrary: c v)
    case (Cons x xs)
    with Cons.IH [OF session_step_refines [of c v x] session_step_indexed [of v x]] show ?case by simp
  qed simp
  moreover have "slot_cache.agrees (clock w, Map.empty) w"
    using assms(1) by (simp add: slot_cache.agrees_def slot_look_def empty_redis_def redis_get_def)
  moreover have "inquiries_indexed w"
    using assms(1) by (simp add: inquiries_indexed_def inquiry_at_def redis_get_def empty_redis_def)
  ultimately show ?thesis by blast
qed

text \<open>
  C39: the session store is an expiring map. Whatever sequence of writes and removals of documents, quiet modes, photos
  stored, asked for and answered (for a named customer) and waiting runs on it, across all families of keys, every
  read of the module is the read of one abstract map in which an entry lives from its last write for exactly its time to live (no
  read refreshes it): a document getter returns what its own key holds; a customer is in quiet mode while the flag
  lives; asking for a trader's pending image inquiry finds nothing only if none lives, and otherwise the living one of the
  customer whose number is greatest in string order; and the count is never below the number of living inquiries.
\<close>

theorem session_store_refines:
  assumes "redis w = empty_redis" and "\<forall>x\<in>set xs. allowed x"
  defines "w' \<equiv> fold session_step xs w"
  shows "\<exists>now m. fold (cell_step slot_ttl) (concat (map abstract_ops xs)) (clock w, Map.empty) = (now, m)
     \<and> (\<forall>k. valid_key k \<longrightarrow> session_get k w' = (Inr (live now (m (SCell k))), w'))
     \<and> (\<forall>tid phone. CHR '':'' \<notin> set tid \<longrightarrow> is_quiet_mode tid phone w' = (Inr (live now (m (SQuiet tid phone)) \<noteq> None), w'))
     \<and> (\<forall>tp. CHR '':'' \<notin> set tp \<longrightarrow>
          (\<exists>r. fst (get_pending_image_inquiry tp w') = Inr r \<and> (case r of
             None \<Rightarrow> \<forall>cp. live now (m (SInquiry tp cp)) = None
           | Some d \<Rightarrow> \<exists>cp. live now (m (SInquiry tp cp)) = Some d \<and> (\<forall>cp'. live now (m (SInquiry tp cp')) \<noteq> None \<longrightarrow> cp' \<le> cp)))
        \<and> (\<exists>n. count_pending_image_inquiries tp w' = (Inr n, w') \<and> card {cp. live now (m (SInquiry tp cp)) \<noteq> None} \<le> n))"
proof -
  obtain now m where f: "fold (cell_step slot_ttl) (concat (map abstract_ops xs)) (clock w, Map.empty) = (now, m)" by fastforce
  from session_steps [OF assms(1,2)] have ag: "clock w' = now" "\<And>t s. valid_slot s \<Longrightarrow> slot_look t s w' = live t (m s)"
    and ix: "inquiries_indexed w'" unfolding w'_def f by (simp_all add: slot_cache.agrees_def)
  have docs: "session_get k w' = (Inr (live now (m (SCell k))), w')" if "valid_key k" for k
    using ag(2) [of "SCell k" now] that by (simp add: session_get_eq session_look_def slot_look_def ag(1))
  have quiet: "is_quiet_mode tid phone w' = (Inr (live now (m (SQuiet tid phone)) \<noteq> None), w')" if "CHR '':'' \<notin> set tid" for tid phone
    using ag(2) [of "SQuiet tid phone" now] that by (simp add: is_quiet_mode_def bindA_apply cache_get_def slot_look_def ag(1))
  have inq: "inquiry_at now tp cp w' = live now (m (SInquiry tp cp))" if "CHR '':'' \<notin> set tp" for tp cp
    using ag(2) [of "SInquiry tp cp" now] that by (simp add: slot_look_def inquiry_at_def)
  have "(\<exists>r. fst (get_pending_image_inquiry tp w') = Inr r \<and> (case r of None \<Rightarrow> \<forall>cp. live now (m (SInquiry tp cp)) = None
       | Some d \<Rightarrow> \<exists>cp. live now (m (SInquiry tp cp)) = Some d \<and> (\<forall>cp'. live now (m (SInquiry tp cp')) \<noteq> None \<longrightarrow> cp' \<le> cp)))
     \<and> (\<exists>n. count_pending_image_inquiries tp w' = (Inr n, w') \<and> card {cp. live now (m (SInquiry tp cp)) \<noteq> None} \<le> n)"
    if tp: "CHR '':'' \<notin> set tp" for tp
  proof
    obtain r v where "get_pending_image_inquiry tp w' = (Inr r, v)"
      and "case r of None \<Rightarrow> \<forall>cp. inquiry_at (clock w') tp cp w' = None
       | Some d \<Rightarrow> \<exists>cp. inquiry_at (clock w') tp cp w' = Some d \<and> (\<forall>cp'. inquiry_at (clock w') tp cp' w' \<noteq> None \<longrightarrow> cp' \<le> cp)"
      using pending_found [OF ix tp] .
    then show "\<exists>r. fst (get_pending_image_inquiry tp w') = Inr r \<and> (case r of None \<Rightarrow> \<forall>cp. live now (m (SInquiry tp cp)) = None
       | Some d \<Rightarrow> \<exists>cp. live now (m (SInquiry tp cp)) = Some d \<and> (\<forall>cp'. live now (m (SInquiry tp cp')) \<noteq> None \<longrightarrow> cp' \<le> cp))"
      by (intro exI [of _ r]) (cases r; simp add: ag(1) inq [OF tp])
  next
    have "{cp. live now (m (SInquiry tp cp)) \<noteq> None} \<subseteq> set (inquiry_members tp w')"
      using ix tp by (auto simp: inquiries_indexed_def inquiry_members_def members_at_def ag(1) inq [OF tp, symmetric])
    then have "card {cp. live now (m (SInquiry tp cp)) \<noteq> None} \<le> card (set (inquiry_members tp w'))" by (intro card_mono) simp_all
    also have "\<dots> \<le> length (inquiry_members tp w')" by (rule card_length)
    finally show "\<exists>n. count_pending_image_inquiries tp w' = (Inr n, w') \<and> card {cp. live now (m (SInquiry tp cp)) \<noteq> None} \<le> n"
      by (simp add: count_pending_image_inquiries_def redis_scard_def inquiry_members_def)
  qed
  with f docs quiet show ?thesis by blast
qed

theorem session_store_refines_witness:
  "fst (session_get (KOrder ''t1'' ''234'') (fold session_step [Write (KOrder ''t1'' ''234'') FlagDoc, Remove (KOrder ''t2'' ''234''),
      Quiet ''t1'' ''234'', Photo ''080'' (photo ''2349''), Pass (nat (3600 * second))] empty_world)) = Inr (Some FlagDoc)
   \<and> fst (is_quiet_mode ''t1'' ''234'' (fold session_step [Write (KOrder ''t1'' ''234'') FlagDoc, Remove (KOrder ''t2'' ''234''),
      Quiet ''t1'' ''234'', Photo ''080'' (photo ''2349''), Pass (nat (3600 * second))] empty_world)) = Inr False"
proof -
  define xs where "xs = [Write (KOrder ''t1'' ''234'') FlagDoc, Remove (KOrder ''t2'' ''234''),
      Quiet ''t1'' ''234'', Photo ''080'' (photo ''2349''), Pass (nat (3600 * second))]"
  have h: "redis empty_world = empty_redis" "\<forall>x\<in>set xs. allowed x" by (simp_all add: empty_world_def xs_def)
  have c: "clock empty_world = 0" by (simp add: empty_world_def)
  obtain now m where m: "fold (cell_step slot_ttl) (concat (map abstract_ops xs)) (clock empty_world, Map.empty) = (now, m)"
    "\<And>k. valid_key k \<Longrightarrow> session_get k (fold session_step xs empty_world) = (Inr (live now (m (SCell k))), fold session_step xs empty_world)"
    "\<And>tid phone. CHR '':'' \<notin> set tid \<Longrightarrow>
       is_quiet_mode tid phone (fold session_step xs empty_world) = (Inr (live now (m (SQuiet tid phone)) \<noteq> None), fold session_step xs empty_world)"
    using session_store_refines [OF h] by blast
  from m(1) have "now = 3600 * second" "m (SCell (KOrder ''t1'' ''234'')) = Some (FlagDoc, SESSION_TTL * second)"
    "m (SQuiet ''t1'' ''234'') = Some (FlagDoc, QUIET_TTL * second)"
    by (auto simp: xs_def c photo_def inquiry_customer_def second_def)
  with m(2) [of "KOrder ''t1'' ''234''"] m(3) [of "''t1''" "''234''"] show ?thesis
    unfolding xs_def [symmetric] by (simp add: SESSION_TTL_def QUIET_TTL_def second_def)
qed

end
