(* ===== verification/Regex.thy ===== *)
theory Regex
  imports Pystring
begin

text \<open>
  Python's \<open>re\<close> as the sources use it: backtracking matching with ordered alternatives, greedy and lazy
  repetition, captured groups, anchors and word boundaries. A state is the previous character, the rest of
  the subject and the groups captured so far; an expression yields the states it can reach in the order the
  engine tries them, so the match is the first one. Literals compare without case (\<open>re.IGNORECASE\<close>).
\<close>

type_synonym rstate = "char option \<times> string \<times> (nat \<times> string) list"

datatype rx =
    Cls "char \<Rightarrow> bool"
  | Eps
  | Seq rx rx
  | Alt rx rx
  | Star bool rx
  | Grp nat rx
  | Bos
  | Eos
  | Bow

text \<open>Repetition: each round has to consume something; greedy tries more rounds first, lazy fewer.\<close>

fun star_runs :: "bool \<Rightarrow> (rstate \<Rightarrow> rstate list) \<Rightarrow> nat \<Rightarrow> rstate \<Rightarrow> rstate list" where
  "star_runs greedy f 0 st = [st]"
| "star_runs greedy f (Suc n) st =
     (let more = concat (map (star_runs greedy f n) (filter (\<lambda>st'. length (fst (snd st')) < length (fst (snd st))) (f st)))
      in if greedy then more @ [st] else st # more)"

fun boundary :: "char option \<Rightarrow> string \<Rightarrow> bool" where
  "boundary p s = ((case p of None \<Rightarrow> False | Some c \<Rightarrow> is_word c) \<noteq> (case s of [] \<Rightarrow> False | c # _ \<Rightarrow> is_word c))"

fun cls_runs :: "(char \<Rightarrow> bool) \<Rightarrow> rstate \<Rightarrow> rstate list" where
  "cls_runs p (pr, [], g) = []"
| "cls_runs p (pr, c # cs, g) = (if p c then [(Some c, cs, g)] else [])"

definition grp_runs :: "nat \<Rightarrow> (rstate \<Rightarrow> rstate list) \<Rightarrow> rstate \<Rightarrow> rstate list" where
  "grp_runs n f st = map (\<lambda>(p, s, g). (p, s, (n, take (length (fst (snd st)) - length s) (fst (snd st))) # g)) (f st)"

primrec runs :: "rx \<Rightarrow> rstate \<Rightarrow> rstate list" where
  "runs (Cls p) = cls_runs p"
| "runs Eps = (\<lambda>st. [st])"
| "runs (Seq r s) = (\<lambda>st. concat (map (runs s) (runs r st)))"
| "runs (Alt r s) = (\<lambda>st. runs r st @ runs s st)"
| "runs (Star b r) = (\<lambda>st. star_runs b (runs r) (length (fst (snd st))) st)"
| "runs (Grp n r) = grp_runs n (runs r)"
| "runs Bos = (\<lambda>st. if fst st = None then [st] else [])"
| "runs Eos = (\<lambda>st. if fst (snd st) = [] \<or> fst (snd st) = [CHR 0x0A] then [st] else [])"
| "runs Bow = (\<lambda>st. if boundary (fst st) (fst (snd st)) then [st] else [])"

text \<open>\<open>re.match\<close>, \<open>re.search\<close>, \<open>m.group(n)\<close> and \<open>m.end()\<close> as what follows the match.\<close>

definition re_match :: "rx \<Rightarrow> string \<Rightarrow> rstate option" where
  "re_match r s = (case runs r (None, s, []) of [] \<Rightarrow> None | st # _ \<Rightarrow> Some st)"

fun search_from :: "rx \<Rightarrow> char option \<Rightarrow> string \<Rightarrow> rstate option" where
  "search_from r p s = (case runs r (p, s, []) of st # _ \<Rightarrow> Some st
     | [] \<Rightarrow> (case s of [] \<Rightarrow> None | c # cs \<Rightarrow> search_from r (Some c) cs))"

declare search_from.simps [simp del]

definition re_search :: "rx \<Rightarrow> string \<Rightarrow> rstate option" where
  "re_search r s = search_from r None s"

definition group :: "nat \<Rightarrow> rstate \<Rightarrow> string" where
  "group n st = (case map_of (snd (snd st)) n of None \<Rightarrow> [] | Some s \<Rightarrow> s)"

definition after :: "rstate \<Rightarrow> string" where
  "after st = fst (snd st)"

text \<open>\<open>re.finditer\<close>: the search goes on after each match.\<close>

function finditer_from :: "rx \<Rightarrow> char option \<Rightarrow> string \<Rightarrow> rstate list" where
  "finditer_from r p s = (case runs r (p, s, []) of
     st # _ \<Rightarrow> if length (after st) < length s then st # finditer_from r (fst st) (after st)
       else (case s of [] \<Rightarrow> [st] | c # cs \<Rightarrow> st # finditer_from r (Some c) cs)
   | [] \<Rightarrow> (case s of [] \<Rightarrow> [] | c # cs \<Rightarrow> finditer_from r (Some c) cs))"
  by pat_completeness auto
termination
  by (relation "measure (\<lambda>(r, p, s). length s)") auto

declare finditer_from.simps [simp del]

definition re_finditer :: "rx \<Rightarrow> string \<Rightarrow> rstate list" where
  "re_finditer r s = finditer_from r None s"

section \<open>Building expressions\<close>

definition chr :: "char \<Rightarrow> rx" where
  "chr c = Cls (\<lambda>d. lower_char d = lower_char c)"

fun lit :: "string \<Rightarrow> rx" where
  "lit [] = Eps"
| "lit [c] = chr c"
| "lit (c # cs) = Seq (chr c) (lit cs)"

fun seq :: "rx list \<Rightarrow> rx" where
  "seq [] = Eps"
| "seq [r] = r"
| "seq (r # rs) = Seq r (seq rs)"

fun alt :: "rx list \<Rightarrow> rx" where
  "alt [] = Cls (\<lambda>_. False)"
| "alt [r] = r"
| "alt (r # rs) = Alt r (alt rs)"

definition lits :: "string list \<Rightarrow> rx" where
  "lits ws = alt (map lit ws)"

definition opt :: "rx \<Rightarrow> rx" where
  "opt r = Alt r Eps"

definition plus :: "rx \<Rightarrow> rx" where
  "plus r = Seq r (Star True r)"

definition plus_lazy :: "rx \<Rightarrow> rx" where
  "plus_lazy r = Seq r (Star False r)"

fun times :: "nat \<Rightarrow> rx \<Rightarrow> rx" where
  "times 0 r = Eps"
| "times (Suc n) r = Seq r (times n r)"

fun at_most :: "nat \<Rightarrow> rx \<Rightarrow> rx" where
  "at_most 0 r = Eps"
| "at_most (Suc n) r = opt (Seq r (at_most n r))"

definition dot :: rx where "dot = Cls (\<lambda>c. c \<noteq> CHR 0x0A)"

definition space :: rx where "space = Cls is_space"

definition digit :: rx where "digit = Cls is_digit"

definition digit_or_comma :: rx where "digit_or_comma = Cls (\<lambda>c. is_digit c \<or> c = CHR '','')"

definition spaces0 :: rx where "spaces0 = Star True space"

definition spaces1 :: rx where "spaces1 = plus space"

text \<open>\<open>(\<backslash>d[\<backslash>d,]*)\<close>.\<close>

definition number :: rx where "number = Seq digit (Star True digit_or_comma)"

section \<open>Lemmas\<close>

text \<open>What a run leaves is a suffix of what it got.\<close>

lemma star_runs_suffix:
  assumes "\<And>st st'. st' \<in> set (f st) \<Longrightarrow> \<exists>u. fst (snd st) = u @ fst (snd st')"
    and "st' \<in> set (star_runs b f n st)"
  shows "\<exists>u. fst (snd st) = u @ fst (snd st')"
  using assms(2)
proof (induction n arbitrary: st)
  case (Suc n)
  then consider "st' = st" | st1 where "st1 \<in> set (f st)" "st' \<in> set (star_runs b f n st1)"
    by (auto simp: Let_def split: if_splits)
  then show ?case
  proof cases
    case 2
    with assms(1) [OF 2(1)] Suc.IH [OF 2(2)] show ?thesis by (metis append.assoc)
  qed simp
qed simp

lemma runs_suffix: "st' \<in> set (runs r st) \<Longrightarrow> \<exists>u. fst (snd st) = u @ fst (snd st')"
proof (induction r arbitrary: st st')
  case (Cls p)
  then show ?case by (cases "(p, st)" rule: cls_runs.cases) (auto split: if_splits)
next
  case (Seq r s)
  then obtain st1 where "st1 \<in> set (runs r st)" "st' \<in> set (runs s st1)" by auto
  with Seq.IH(1) [OF this(1)] Seq.IH(2) [OF this(2)] show ?case by (metis append.assoc)
next
  case (Star b r)
  then show ?case using star_runs_suffix [of "runs r" st' b] by auto
next
  case (Grp n r)
  then obtain st1 where "st1 \<in> set (runs r st)" "fst (snd st') = fst (snd st1)" by (auto simp: grp_runs_def)
  with Grp.IH [OF this(1)] show ?case by simp
qed (auto split: if_splits)

text \<open>A repeated character class: lazy reaches every split of the run of matching characters, shortest first.\<close>

lemma star_cls_split:
  "st' \<in> set (star_runs b (cls_runs p) n (pr, s, g)) \<Longrightarrow>
     \<exists>u v. s = u @ v \<and> list_all p u \<and> snd st' = (v, g) \<and> fst st' = (if u = [] then pr else Some (last u))"
proof (induction n arbitrary: pr s)
  case (Suc n)
  then consider "st' = (pr, s, g)" | c cs where "s = c # cs" "p c" "st' \<in> set (star_runs b (cls_runs p) n (Some c, cs, g))"
    by (cases s) (auto simp: Let_def split: if_splits)
  then show ?case
  proof cases
    case 2
    from Suc.IH [OF 2(3)] obtain u v where "cs = u @ v" "list_all p u" "snd st' = (v, g)"
      "fst st' = (if u = [] then Some c else Some (last u))" by blast
    with 2 show ?thesis by (intro exI [of _ "c # u"] exI [of _ v]) auto
  qed (auto intro: exI [of _ "[]"])
qed (auto intro: exI [of _ "[]"])

lemma star_cls_greedy:
  assumes "list_all p u" and "v = [] \<or> \<not> p (hd v)" and "length u \<le> n"
  shows "\<exists>rest. star_runs True (cls_runs p) n (pr, u @ v, g) = (if u = [] then pr else Some (last u), v, g) # rest"
  using assms
proof (induction u arbitrary: pr n)
  case Nil
  then show ?case by (cases n; cases v) (auto simp: Let_def)
next
  case (Cons c u)
  then obtain m where m: "n = Suc m" by (cases n) auto
  from Cons.IH [of m "Some c"] Cons.prems m obtain rest where
    "star_runs True (cls_runs p) m (Some c, u @ v, g) = (if u = [] then Some c else Some (last u), v, g) # rest" by auto
  with Cons.prems m show ?case by (auto simp: Let_def)
qed

end
