(* ===== verification/Nlp.thy ===== *)
theory Nlp
  imports World Regex
begin

text \<open>
  Parsing of customer and trader messages (\<open>src/app/modules/orders/nlp.py\<close>): the rule-based first layer with its
  regular expressions, the treatment of the language model's structured answer, and the two entry points.
  The language model is a parameter: what its client returns for a message, already decoded from JSON with
  its numbers converted, or nothing when the call or the decoding fails. The answer is a JSON object, as the
  prompts demand.
\<close>

section \<open>Intents and results\<close>

datatype intent = ORDER | CONFIRM | CANCEL | TRADER_CONFIRM | TRADER_CANCEL | TRADER_PAID | TRADER_CREDIT | TRADER_ADD
  | TRADER_REMOVE | TRADER_PRICE | TRADER_CATALOGUE | TRADER_CATEGORY | TRADER_PRICELIST | TRADER_DEBT | TRADER_PAID_DEBT
  | TRADER_WHO_OWES_ME | TRADER_ORDERS | NEGOTIATION | IGNORE | CHITCHAT | PAYMENT_SENT | TRADER_BANK | TRADER_MENU
  | TRADER_BROADCAST | TRADER_WHO_IS | TRADER_REFER | UNKNOWN | OTHER string

record parse_result =
  pr_intent :: intent
  pr_items :: "cart_item list"
  pr_order_ref :: "string option"
  pr_clarification_needed :: bool
  pr_clarification_question :: "string option"
  pr_confidence :: rat

definition result :: "intent \<Rightarrow> cart_item list \<Rightarrow> rat \<Rightarrow> parse_result" where
  "result i its c = \<lparr>pr_intent = i, pr_items = its, pr_order_ref = None, pr_clarification_needed = False,
     pr_clarification_question = None, pr_confidence = c\<rparr>"

definition item :: "string \<Rightarrow> int \<Rightarrow> int option \<Rightarrow> cart_item" where
  "item n q p = \<lparr>it_name = n, it_qty = q, it_unit_price = p\<rparr>"

section \<open>Tables and patterns\<close>

definition WORD_TO_NUM :: "(string \<times> int) list" where
  "WORD_TO_NUM = [(''meji'', 2), (''meta'', 3), (''merin'', 4), (''marun'', 5), (''mefa'', 6), (''meje'', 7), (''mejo'', 8),
     (''mesan'', 9), (''mewa'', 10), (''ogun'', 20), (''ogoji'', 40), (''one'', 1), (''two'', 2), (''three'', 3), (''four'', 4),
     (''five'', 5), (''six'', 6), (''seven'', 7), (''eight'', 8), (''nine'', 9), (''ten'', 10)]"

definition hex_digit :: rx where
  "hex_digit = Cls (\<lambda>c. is_digit c \<or> lower_char c \<in> set ''abcdef'')"

definition TRADER_CMD_RE :: rx where
  "TRADER_CMD_RE = seq [Bos, Grp 1 (lits [''confirm'', ''cancel'', ''paid'', ''credit'']), spaces1,
     Grp 2 (Seq (times 6 hex_digit) (at_most 10 hex_digit)), Bow]"

definition apostrophe :: rx where
  "apostrophe = opt (chr (CHR 0x27))"

definition YES_RE :: rx where
  "YES_RE = seq [Bos, alt (map lit [''yes'', ''yep'', ''yh'', ''yeah'', ''ok'', ''okay'', ''oya'', ''correct'', ''sure'', ''go ahead'',
       ''no problem'', ''e correct'', ''na correct'']
     @ [seq [lit ''that'', apostrophe, lit ''s '', lits [''right'', ''correct'', ''fine'']], lit ''confirm'', lit ''affirm'']), Eos]"

definition NO_RE :: rx where
  "NO_RE = seq [Bos, alt (map lit [''no'', ''nope'', ''nah'', ''cancel'', ''stop'', ''na'']
     @ [seq [lit ''forget'', opt (lits ['' am'', '' it''])], seq [lit ''don'', apostrophe, lit ''t'', opt (lit '' bother'')]]
     @ map lit [''abeg cancel'', ''na lie'', ''wrong'']), Eos]"

definition NEGOTIATE_PRICE_RE :: rx where
  "NEGOTIATE_PRICE_RE = seq [alt (map lit [''can you do'', ''how about'', ''make it'', ''do it for'', ''accept'', ''take it for'']
       @ [seq [lit ''i'', apostrophe, lit ''ll pay'']] @ map lit [''last price is'', ''final price'', ''what about'']
       @ [seq [lit ''i'', apostrophe, lit ''ll give you''], seq [lit ''sell '', opt (lits [''it '', ''am '']), lit ''for'']]),
     spaces0, opt (chr (CHR ''N'')), spaces0, Grp 1 number]"

definition NEGOTIATE_GENERAL_RE :: rx where
  "NEGOTIATE_GENERAL_RE = seq [Bow, lits [''too expensive'', ''too much'', ''too costly'', ''any discount'', ''reduce'', ''cheaper'',
     ''best price'', ''last price'', ''final price'', ''lower the price'', ''bring down'', ''come down'', ''na better price'',
     ''e too cost'', ''e too dear'', ''too dear'', ''discount'', ''bargain'', ''negotiate'', ''overpriced'', ''not affordable''], Bow]"

definition PAYMENT_SENT_RE :: rx where
  "PAYMENT_SENT_RE = seq [Alt Bos Bow,
     alt [seq [lit ''i'', apostrophe, lit ''v'', opt (lit ''e''), lit '' '', lits [''paid'', ''sent'', ''transferred'', ''done'']],
       lit ''paid'', seq [lit ''payment '', lits [''sent'', ''done'', ''made'', ''completed'']],
       seq [lit ''sent '', opt (lit ''the ''), lits [''money'', ''payment'', ''transfer'']],
       lit ''transferred'', seq [lit ''i '', opt (lit ''don ''), lit ''pay''],
       seq [lit ''done '', opt (lit ''the ''), lits [''payment'', ''transfer'']],
       seq [lit ''already '', lits [''paid'', ''sent'', ''transferred'']],
       seq [lit ''money '', lits [''sent'', ''transferred'', ''done'']],
       lit ''e don pay'', lit ''don pay'', lit ''i pay am'',
       seq [lit ''check '', opt (lit ''your ''), lits [''account'', ''bank'']],
       lit ''receipt'', lit ''proof of payment''],
     Alt Bow Eos]"

definition ORDER_TRIGGER_RE :: rx where
  "ORDER_TRIGGER_RE = seq [Bow, lits [''order'', ''buy'', ''want'', ''need'', ''send'', ''give'', ''get'', ''bring'', ''abeg'', ''oya'',
     ''i go take'', ''make it'', ''i dey look for'', ''add''], Bow]"

definition NAME_STOP :: "string list" where
  "NAME_STOP = [''and'', ''with'', ''plus'', ''abeg'', ''oya'', ''for'', ''please'']"

fun TRADER_VERB_MAP :: "string \<Rightarrow> intent" where
  "TRADER_VERB_MAP v = (if v = ''confirm'' then TRADER_CONFIRM else if v = ''cancel'' then TRADER_CANCEL
     else if v = ''paid'' then TRADER_PAID else TRADER_CREDIT)"

definition ADD_PREFIX_RE :: rx where
  "ADD_PREFIX_RE = seq [Bos, lit ''add'', space]"

definition PRICE_PREFIX_RE :: rx where
  "PRICE_PREFIX_RE = seq [Bos, lit ''price'', space]"

definition ADD_ITEM_RE :: rx where
  "ADD_ITEM_RE = seq [Bos, Grp 1 (plus_lazy dot), spaces1, Grp 2 number, spaces0, Eos]"

definition REMOVE_RE :: rx where
  "REMOVE_RE = seq [Bos, lits [''remove'', ''delete''], spaces1, Grp 1 (plus dot), Eos]"

text \<open>A pattern of fixed words with optional spaces between them.\<close>

fun words :: "string list \<Rightarrow> rx" where
  "words [] = Eps"
| "words [w] = lit w"
| "words (w # ws) = Seq (lit w) (Seq spaces0 (words ws))"

definition phrases :: "string list list \<Rightarrow> rx" where
  "phrases ps = seq [Bos, alt (map words ps), Eos]"

definition CATALOGUE_RE :: rx where
  "CATALOGUE_RE = phrases [[''catalogue''], [''catalog''], [''my products''], [''products''], [''my catalogue''], [''my catalog'']]"

definition CATEGORY_RE :: rx where
  "CATEGORY_RE = phrases [[''category''], [''change'', ''category''], [''switch'', ''category''], [''my'', ''category'']]"

definition PRICELIST_RE :: rx where
  "PRICELIST_RE = phrases [[''price'', ''list''], [''upload'', ''price'', ''list''], [''new'', ''price'', ''list''], [''update'', ''price'', ''list'']]"

definition DEBT_RE :: rx where
  "DEBT_RE = seq [Bos, lit ''debt'', spaces1, Grp 1 (plus_lazy dot), spaces1, Grp 2 number, spaces0, Eos]"

definition PAID_DEBT_RE :: rx where
  "PAID_DEBT_RE = seq [Bos, lit ''paid'', spaces1, Grp 1 (Seq (Cls is_ascii_alpha) (plus_lazy dot)), spaces1, Grp 2 number, spaces0, Eos]"

definition WHO_OWES_ME_RE :: rx where
  "WHO_OWES_ME_RE = seq [Bos, alt [seq [lit ''who'', spaces0, lit ''owe'', opt (lit ''s''), spaces0, lit ''me''], seq [lit ''debt'', opt (lit ''s'')],
     seq [lit ''my'', spaces0, lit ''debt'', opt (lit ''s'')], words [''debt'', ''book''], words [''owe'', ''me'']], Eos]"

definition ORDERS_RE :: rx where
  "ORDERS_RE = seq [Bos, alt (map (\<lambda>p. Seq p (seq [lit ''order'', opt (lit ''s'')]))
     [Eps, Seq (lit ''my'') spaces0, Seq (lit ''pending'') spaces0, Seq (lit ''unpaid'') spaces0]), Eos]"

definition BANK_RE :: rx where
  "BANK_RE = seq [Bos, alt [lit ''bank'', words [''my'', ''bank''], seq [lit ''bank'', spaces0, lit ''detail'', opt (lit ''s'')],
     words [''set'', ''bank''], words [''update'', ''bank''], words [''change'', ''bank'']], Eos]"

definition MENU_RE :: rx where
  "MENU_RE = phrases [[''menu''], [''help''], [''commands''], [''options'']]"

definition BROADCAST_RE :: rx where
  "BROADCAST_RE = phrases [[''broadcast''], [''send'', ''broadcast''], [''message'', ''all''], [''message'', ''customers''], [''blast'']]"

definition WHO_IS_RE :: rx where
  "WHO_IS_RE = seq [Bos, lit ''who'', spaces0, lits [''is'', ''are''], spaces1, Grp 1 (plus dot), Eos]"

definition REFER_RE :: rx where
  "REFER_RE = seq [Bos, alt [lit ''refer'', lit ''referral'', seq [lit ''my'', spaces0, lit ''referral'', opt (lit ''s'')],
     words [''referral'', ''code''], words [''share'', ''link''], lit ''invite''], Eos]"

section \<open>Helpers of the first layer\<close>

definition parse_qty :: "string \<Rightarrow> int option" where
  "parse_qty token = (case map_of WORD_TO_NUM (lower token) of Some n \<Rightarrow> Some n | None \<Rightarrow> py_int token)"

definition name_word :: "string \<Rightarrow> bool" where
  "name_word t \<longleftrightarrow> parse_qty t = None \<and> lower t \<notin> set NAME_STOP"

text \<open>Drop a leading "of" and the spaces after it.\<close>

definition drop_of :: "string \<Rightarrow> string" where
  "drop_of s = (case re_match (seq [Bos, lit ''of'', spaces1]) s of None \<Rightarrow> s | Some st \<Rightarrow> after st)"

function extract_items :: "string list \<Rightarrow> cart_item list" where
  "extract_items [] = []"
| "extract_items (t # ts) = (case parse_qty t of
     None \<Rightarrow> extract_items ts
   | Some qty \<Rightarrow> (let name_parts = takeWhile name_word ts in
       if name_parts = [] then extract_items ts
       else (let raw_name = strip (drop_of (join '' '' name_parts)) in
         (if raw_name \<noteq> [] then [item raw_name qty None] else []) @ extract_items (dropWhile name_word ts))))"
  by pat_completeness auto
termination
  by (relation "measure length") (auto simp: less_Suc_eq_le length_dropWhile_le)

text \<open>Remove a comma between two digits; the search goes on after the second digit.\<close>

fun strip_number_commas :: "string \<Rightarrow> string" where
  "strip_number_commas (a # c # b # s) = (if is_digit a \<and> c = CHR '','' \<and> is_digit b then a # b # strip_number_commas s
     else a # strip_number_commas (c # b # s))"
| "strip_number_commas s = s"

definition drop_prefix :: "string \<Rightarrow> string \<Rightarrow> string" where
  "drop_prefix w s = (case re_match (seq [Bos, lit w, spaces0]) s of None \<Rightarrow> s | Some st \<Rightarrow> after st)"

definition add_item_of :: "string \<Rightarrow> cart_item list" where
  "add_item_of part = (let p = strip part in if p = [] then [] else
     case re_match ADD_ITEM_RE p of
       None \<Rightarrow> []
     | Some m \<Rightarrow> (let name = strip (group 1 m) in case py_int (group 2 m) of
         Some price \<Rightarrow> if name \<noteq> [] \<and> price > 0 then [item name 1 (Some price)] else []
       | None \<Rightarrow> []))"

definition parse_add_items :: "string \<Rightarrow> cart_item list" where
  "parse_add_items message = (let body = drop_prefix ''add'' (strip message) in
     if body = [] then []
     else concat (map add_item_of (split_on (\<lambda>c. c = CHR '','' \<or> c = CHR 0x0A) (strip_number_commas body))))"

definition amount_of :: "string \<Rightarrow> int" where
  "amount_of s = digits_val (filter (\<lambda>c. c \<noteq> CHR '','') s)"

text \<open>\<open>re.sub(r"^price", "ADD", s)\<close>.\<close>

definition price_as_add :: "string \<Rightarrow> string" where
  "price_as_add s = (case re_match (seq [Bos, lit ''price'']) s of None \<Rightarrow> s | Some st \<Rightarrow> ''ADD'' @ after st)"

definition removed_items :: "string \<Rightarrow> cart_item list" where
  "removed_items body = map (\<lambda>n. item n 1 None) (filter (\<lambda>p. p \<noteq> []) (map strip (split_on (\<lambda>c. c = CHR '','') body)))"

section \<open>The first layer\<close>

text \<open>The checks run in order; each either decides or passes on.\<close>

definition found :: "rx \<Rightarrow> string \<Rightarrow> bool" where
  "found r s \<longleftrightarrow> re_match r s \<noteq> None"

definition trader_cmd :: "string \<Rightarrow> parse_result option" where
  "trader_cmd s = map_option (\<lambda>m. (result (TRADER_VERB_MAP (lower (group 1 m))) [] 1)\<lparr>pr_order_ref := Some (lower (group 2 m))\<rparr>)
     (re_match TRADER_CMD_RE s)"

definition add_cmd :: "string \<Rightarrow> parse_result option" where
  "add_cmd s = (if found ADD_PREFIX_RE s \<and> parse_add_items s \<noteq> [] then Some (result TRADER_ADD (parse_add_items s) 1) else None)"

definition price_cmd :: "string \<Rightarrow> parse_result option" where
  "price_cmd s = (if found PRICE_PREFIX_RE s \<and> parse_add_items (price_as_add s) \<noteq> []
     then Some (result TRADER_PRICE (parse_add_items (price_as_add s)) 1) else None)"

definition remove_cmd :: "string \<Rightarrow> parse_result option" where
  "remove_cmd s = (case re_match REMOVE_RE s of None \<Rightarrow> None
     | Some m \<Rightarrow> (let its = removed_items (strip (group 1 m)) in if its \<noteq> [] then Some (result TRADER_REMOVE its 1) else None))"

definition named_amount :: "intent \<Rightarrow> rx \<Rightarrow> string \<Rightarrow> parse_result option" where
  "named_amount i r s = map_option (\<lambda>m. result i [item (strip (group 1 m)) 1 (Some (amount_of (group 2 m)))] 1) (re_match r s)"

definition keyword :: "intent \<Rightarrow> rx \<Rightarrow> string \<Rightarrow> parse_result option" where
  "keyword i r s = (if found r s then Some (result i [] 1) else None)"

definition who_is_cmd :: "string \<Rightarrow> parse_result option" where
  "who_is_cmd s = map_option (\<lambda>m. result TRADER_WHO_IS [item (strip (group 1 m)) 1 None] 1) (re_match WHO_IS_RE s)"

definition payment_sent_msg :: "string \<Rightarrow> parse_result option" where
  "payment_sent_msg s = (if re_search PAYMENT_SENT_RE s \<noteq> None then Some (result PAYMENT_SENT [] 1) else None)"

definition price_offer_msg :: "string \<Rightarrow> parse_result option" where
  "price_offer_msg s = (case re_search NEGOTIATE_PRICE_RE s of None \<Rightarrow> None
     | Some m \<Rightarrow> if amount_of (group 1 m) > 0 then Some (result NEGOTIATION [item [] 1 (Some (amount_of (group 1 m)))] 1) else None)"

definition haggling_msg :: "string \<Rightarrow> parse_result option" where
  "haggling_msg s = (if re_search NEGOTIATE_GENERAL_RE s \<noteq> None then Some (result NEGOTIATION [] 1) else None)"

definition order_msg :: "string \<Rightarrow> parse_result" where
  "order_msg s = (if re_search ORDER_TRIGGER_RE s = None then result UNKNOWN [] 0
     else let its = extract_items (split_ws s) in if its \<noteq> [] then result ORDER its (7 / 10) else result ORDER [] (3 / 10))"

definition rules :: "(string \<Rightarrow> parse_result option) list" where
  "rules = [trader_cmd, add_cmd, price_cmd, remove_cmd, keyword TRADER_CATALOGUE CATALOGUE_RE, keyword TRADER_CATEGORY CATEGORY_RE,
     keyword TRADER_PRICELIST PRICELIST_RE, named_amount TRADER_DEBT DEBT_RE, named_amount TRADER_PAID_DEBT PAID_DEBT_RE,
     keyword TRADER_WHO_OWES_ME WHO_OWES_ME_RE, keyword TRADER_ORDERS ORDERS_RE, keyword TRADER_BANK BANK_RE, keyword TRADER_MENU MENU_RE,
     keyword TRADER_REFER REFER_RE, keyword TRADER_BROADCAST BROADCAST_RE, who_is_cmd, keyword CONFIRM YES_RE, keyword CANCEL NO_RE,
     payment_sent_msg, price_offer_msg, haggling_msg]"

fun first_rule :: "(string \<Rightarrow> parse_result option) list \<Rightarrow> string \<Rightarrow> parse_result" where
  "first_rule [] s = order_msg s"
| "first_rule (r # rs) s = (case r s of Some x \<Rightarrow> x | None \<Rightarrow> first_rule rs s)"

definition layer1 :: "string \<Rightarrow> parse_result" where
  "layer1 message = first_rule rules (strip message)"

section \<open>The language model\<close>

type_synonym catalogue = "(string \<times> int) list"
type_synonym chat_history = "(string \<times> string) list"

text \<open>
  A decoded answer: the intent or action, per item its name, its quantity and price (\<open>None\<close> when they do not
  convert to a number), the offered price, and the question or reply.
\<close>

record llm_data =
  ld_action :: string
  ld_items :: "(string \<times> int option \<times> int option) list"
  ld_offered :: "int option"
  ld_clarification_needed :: bool
  ld_reply :: "string option"

record llm =
  llm_api_key :: bool
  llm_parse :: "string \<Rightarrow> string \<Rightarrow> catalogue \<Rightarrow> llm_data option"
  llm_smart :: "string \<Rightarrow> string \<Rightarrow> catalogue \<Rightarrow> chat_history \<Rightarrow> llm_data option"

definition llm_items :: "llm_data \<Rightarrow> cart_item list" where
  "llm_items d = concat (map (\<lambda>(n, q, p). let name = strip n in if name = [] then []
     else [item name (case q of Some k \<Rightarrow> max 1 k | None \<Rightarrow> 1) p]) (ld_items d))"

definition with_offer :: "intent \<Rightarrow> llm_data \<Rightarrow> cart_item list" where
  "with_offer i d = (case ld_offered d of
     Some p \<Rightarrow> if i = NEGOTIATION \<and> p > 0 then [item [] 1 (Some p)] else llm_items d
   | None \<Rightarrow> llm_items d)"

text \<open>The values of the intent constants; an intent is any string the answer carries.\<close>

definition INTENTS :: "(string \<times> intent) list" where
  "INTENTS = [(''order'', ORDER), (''confirm'', CONFIRM), (''cancel'', CANCEL), (''trader_confirm'', TRADER_CONFIRM),
     (''trader_cancel'', TRADER_CANCEL), (''trader_paid'', TRADER_PAID), (''trader_add'', TRADER_ADD),
     (''trader_remove'', TRADER_REMOVE), (''trader_price'', TRADER_PRICE),
     (''trader_catalogue'', TRADER_CATALOGUE), (''trader_category'', TRADER_CATEGORY),
     (''trader_pricelist'', TRADER_PRICELIST), (''trader_debt'', TRADER_DEBT),
     (''trader_paid_debt'', TRADER_PAID_DEBT), (''trader_who_owes_me'', TRADER_WHO_OWES_ME),
     (''trader_orders'', TRADER_ORDERS), (''negotiation'', NEGOTIATION), (''ignore'', IGNORE),
     (''chitchat'', CHITCHAT), (''trader_bank'', TRADER_BANK), (''trader_menu'', TRADER_MENU),
     (''trader_broadcast'', TRADER_BROADCAST), (''trader_who_is'', TRADER_WHO_IS),
     (''trader_refer'', TRADER_REFER), (''unknown'', UNKNOWN), (''trader_credit'', TRADER_CREDIT),
     (''payment_sent'', PAYMENT_SENT)]"

definition intent_of :: "string \<Rightarrow> intent" where
  "intent_of s = (case map_of INTENTS s of Some i \<Rightarrow> i | None \<Rightarrow> OTHER s)"

definition layer2_claude :: "llm \<Rightarrow> string \<Rightarrow> string \<Rightarrow> catalogue \<Rightarrow> parse_result" where
  "layer2_claude l message category cat = (if \<not> llm_api_key l then result UNKNOWN [] 0
     else case llm_parse l message category cat of
       None \<Rightarrow> result UNKNOWN [] 0
     | Some d \<Rightarrow> (let i = intent_of (ld_action d) in
         \<lparr>pr_intent = i, pr_items = with_offer i d, pr_order_ref = None, pr_clarification_needed = ld_clarification_needed d,
          pr_clarification_question = ld_reply d, pr_confidence = 1 / 2\<rparr>))"

definition parse_message :: "llm \<Rightarrow> string \<Rightarrow> string \<Rightarrow> catalogue \<Rightarrow> parse_result" where
  "parse_message l message category cat = (let r = layer1 message in
     if pr_confidence r < 1 / 2 \<and> (pr_intent r = ORDER \<or> pr_intent r = UNKNOWN) then layer2_claude l message category cat else r)"

definition intent_map :: "string \<Rightarrow> intent" where
  "intent_map a = (if a = ''order'' then ORDER else if a = ''negotiation'' then NEGOTIATION else if a = ''payment_sent'' then PAYMENT_SENT
     else if a = ''greeting'' \<or> a = ''chitchat'' then CHITCHAT else if a = ''ignore'' then IGNORE else UNKNOWN)"

text \<open>The history the prompt shows: the last five entries, without empty ones.\<close>

definition history_lines :: "chat_history \<Rightarrow> chat_history" where
  "history_lines h = filter (\<lambda>(role, content). content \<noteq> []) (drop (length h - 5) h)"

definition smart_parse_customer_message :: "llm \<Rightarrow> string \<Rightarrow> string \<Rightarrow> catalogue \<Rightarrow> chat_history \<Rightarrow> parse_result" where
  "smart_parse_customer_message l message category cat history = (let l1 = layer1 message in
     if (pr_intent l1 = CONFIRM \<or> pr_intent l1 = CANCEL \<or> pr_intent l1 = NEGOTIATION \<or> pr_intent l1 = PAYMENT_SENT) \<and> pr_confidence l1 = 1
     then l1
     else if \<not> llm_api_key l then l1
     else case llm_smart l message category cat (history_lines history) of
       None \<Rightarrow> l1
     | Some d \<Rightarrow> (let i = intent_map (ld_action d); ask = (ld_action d = ''clarify'' \<or> ld_action d = ''unknown'') in
         \<lparr>pr_intent = i, pr_items = with_offer i d, pr_order_ref = None, pr_clarification_needed = ask,
          pr_clarification_question = (if ask then ld_reply d else None), pr_confidence = 4 / 5\<rparr>))"

section \<open>Catalogue commands\<close>

lemma star_cls_lazy:
  assumes "list_all p u" and "length u \<le> n"
  shows "\<exists>pr' sts. star_runs False (cls_runs p) n (pr, u @ v, g) = sts @ star_runs False (cls_runs p) (n - length u) (pr', v, g)
     \<and> (\<forall>st\<in>set sts. \<exists>k pr''. k < length u \<and> st = (pr'', drop k u @ v, g))"
  using assms
proof (induction u arbitrary: pr n)
  case Nil
  then show ?case by (intro exI [of _ pr] exI [of _ "[]"]) simp
next
  case (Cons c u)
  then obtain m where m: "n = Suc m" by (cases n) auto
  from Cons.IH [of m "Some c"] Cons.prems m obtain pr' sts where
    *: "star_runs False (cls_runs p) m (Some c, u @ v, g) = sts @ star_runs False (cls_runs p) (m - length u) (pr', v, g)"
    "\<forall>st\<in>set sts. \<exists>k pr''. k < length u \<and> st = (pr'', drop k u @ v, g)" by auto
  have "star_runs False (cls_runs p) n (pr, (c # u) @ v, g) = ((pr, (c # u) @ v, g) # sts) @ star_runs False (cls_runs p) (n - length (c # u)) (pr', v, g)"
    using *(1) Cons.prems(1) m by (simp add: Let_def)
  moreover have "\<forall>st\<in>set ((pr, (c # u) @ v, g) # sts). \<exists>k pr''. k < length (c # u) \<and> st = (pr'', drop k (c # u) @ v, g)"
    using *(2) by (fastforce intro: exI [of _ "Suc k" for k] exI [of _ 0])
  ultimately show ?case by blast
qed

lemma plus_cls_split:
  assumes "st' \<in> set (runs (plus (Cls p)) (pr, s, g))"
  shows "\<exists>u v. s = u @ v \<and> u \<noteq> [] \<and> list_all p u \<and> snd st' = (v, g)"
proof -
  from assms obtain c cs where "s = c # cs" "p c" "st' \<in> set (star_runs True (cls_runs p) (length cs) (Some c, cs, g))"
    by (cases s) (auto simp: plus_def split: if_splits)
  with star_cls_split [OF this(3)] show ?thesis by (metis append_Cons list.pred_inject(2) list.distinct(1))
qed

definition price_tail :: rx where
  "price_tail = seq [spaces1, Grp 2 number, spaces0, Eos]"

text \<open>What the tail of the item pattern accepts: spaces, digits and commas, and spaces to the end.\<close>

lemma price_tail_form:
  assumes "st' \<in> set (runs price_tail (pr, s, g))"
  shows "\<exists>u d v. s = u @ d @ v \<and> list_all is_space u \<and> list_all (\<lambda>c. \<not> is_space c) d \<and> list_all is_space v"
proof -
  have nl: "is_space (CHR 0x0A)" by (simp add: is_space_def)
  have dg: "is_digit c \<Longrightarrow> \<not> is_space c" for c by (auto simp: is_digit_def is_space_def Let_def)
  have cm: "\<not> is_space (CHR '','')" by (simp add: is_space_def)
  from assms obtain st1 st2 st3 where st1: "st1 \<in> set (runs (plus (Cls is_space)) (pr, s, g))"
    and st2: "st2 \<in> set (grp_runs 2 (runs number) st1)" and st3: "st3 \<in> set (runs spaces0 st2)" and st': "st' \<in> set (runs Eos st3)"
    by (auto simp: price_tail_def spaces1_def space_def)
  from plus_cls_split [OF st1] obtain u v where u: "s = u @ v" "list_all is_space u" "snd st1 = (v, g)" by blast
  from st2 obtain st2' where st2': "st2' \<in> set (runs number st1)" "fst (snd st2) = fst (snd st2')" by (auto simp: grp_runs_def)
  then obtain c cs where c: "v = c # cs" "is_digit c" "st2' \<in> set (star_runs True (cls_runs (\<lambda>c. is_digit c \<or> c = CHR '','')) (length cs) (Some c, cs, g))"
    using u(3) by (cases st1; cases v) (auto simp: number_def digit_def digit_or_comma_def split: if_splits)
  from star_cls_split [OF c(3)] obtain d x where d: "cs = d @ x" "list_all (\<lambda>c. is_digit c \<or> c = CHR '','') d" "fst (snd st2') = x" by auto
  from st3 have "st3 \<in> set (star_runs True (cls_runs is_space) (length (fst (snd st2))) (fst st2, fst (snd st2), snd (snd st2)))"
    by (simp add: spaces0_def space_def)
  from star_cls_split [OF this] obtain y z where y: "fst (snd st2) = y @ z" "list_all is_space y" "fst (snd st3) = z" by auto
  have "z = [] \<or> z = [CHR 0x0A]" using st' y(3) by (auto split: if_splits)
  then have "list_all is_space (y @ z)" using y(2) nl by auto
  moreover have "list_all (\<lambda>c. \<not> is_space c) (c # d)" using c(2) d(2) dg cm by (auto simp: list_all_iff)
  ultimately show ?thesis using u c(1) d(1,3) st2'(2) y(1) by (rule_tac exI [of _ u], rule_tac exI [of _ "c # d"], rule_tac exI [of _ "y @ z"]) auto
qed

lemma dropWhile_append_nonspace: "x \<noteq> [] \<Longrightarrow> \<not> p (last x) \<Longrightarrow> \<exists>y. y \<noteq> [] \<and> dropWhile p (x @ z) = y @ z"
  by (induction x) (auto split: if_splits)

lemma spaced_form_unique:
  assumes "x \<noteq> []" and "\<not> is_space (last x)" and "ds \<noteq> []" and ls: "\<not> is_space (last ds)"
    and form: "x @ CHR '' '' # ds = u @ d @ v" "list_all is_space u" "list_all (\<lambda>c. \<not> is_space c) d" "list_all is_space v"
  shows False
proof -
  have 1: "dropWhile is_space (u @ w) = dropWhile is_space w" for w
    using form(2) by (induction u) auto
  have 2: "dropWhile (\<lambda>c. \<not> is_space c) (d @ w) = dropWhile (\<lambda>c. \<not> is_space c) w" for w
    using form(3) by (induction d) auto
  from dropWhile_append_nonspace [where p = is_space, OF assms(1,2), of "CHR '' '' # ds"]
  obtain y where y: "dropWhile is_space (x @ CHR '' '' # ds) = y @ CHR '' '' # ds" by blast
  have "last (dropWhile (\<lambda>c. \<not> is_space c) (y @ CHR '' '' # ds)) = last ds \<and> dropWhile (\<lambda>c. \<not> is_space c) (y @ CHR '' '' # ds) \<noteq> []"
    using assms(3) by (induction y) (auto simp: is_space_def)
  moreover have "dropWhile (\<lambda>c. \<not> is_space c) (dropWhile is_space (d @ v)) = [] \<or> list_all is_space (dropWhile (\<lambda>c. \<not> is_space c) (dropWhile is_space (d @ v)))"
  proof (cases d)
    case Nil
    moreover have "dropWhile is_space v = []" using form(4) by (simp add: dropWhile_eq_Nil_conv list_all_iff)
    ultimately show ?thesis by (simp only: append.simps dropWhile.simps) simp
  next
    case (Cons a l)
    then have "dropWhile is_space (d @ v) = d @ v" using form(3) by simp
    then show ?thesis using form(4) by (simp add: 2 list_all_iff)
  qed
  ultimately show False
    using ls form(1) 1 [of "d @ v"] y by (metis last_in_set list_all_iff)
qed

lemma price_tail_no_name:
  assumes "x \<noteq> []" and "\<not> is_space (last x)" and "list_all is_digit ds" and "ds \<noteq> []"
  shows "runs price_tail (pr, x @ CHR '' '' # ds, g) = []"
proof (rule ccontr)
  assume "runs price_tail (pr, x @ CHR '' '' # ds, g) \<noteq> []"
  then obtain st' where st': "st' \<in> set (runs price_tail (pr, x @ CHR '' '' # ds, g))" by (meson list.set_sel(1))
  have ls: "\<not> is_space (last ds)" using assms(3,4) by (auto simp: list_all_iff is_digit_def is_space_def Let_def dest!: last_in_set)
  from price_tail_form [OF st'] spaced_form_unique [OF assms(1,2,4) ls] show False by blast
qed

lemma price_tail_number:
  assumes "list_all is_digit ds" and "ds \<noteq> []"
  shows "\<exists>p rest. runs price_tail (pr, CHR '' '' # ds, g) = (p, [], (2, ds) # g) # rest"
proof -
  obtain d es where ds: "ds = d # es" "is_digit d" "list_all is_digit es" using assms by (cases ds) auto
  have sp: "runs spaces1 (pr, CHR '' '' # ds, g) = [(Some (CHR '' ''), ds, g)]"
  proof -
    have "is_space (CHR '' '')" "\<not> is_space d" using ds(2) by (auto simp: is_space_def is_digit_def Let_def)
    then show ?thesis by (cases es) (simp_all add: spaces1_def plus_def space_def ds(1) Let_def)
  qed
  obtain rest where "star_runs True (cls_runs (\<lambda>c. is_digit c \<or> c = CHR '','')) (length es) (Some d, es @ [], g)
      = (if es = [] then Some d else Some (last es), [], g) # rest"
    using star_cls_greedy [of "\<lambda>c. is_digit c \<or> c = CHR '',''" es "[]" "length es" "Some d" g] ds(3) by (auto simp: list_all_iff)
  then obtain p rest' where "grp_runs 2 (runs number) (Some (CHR '' ''), ds, g) = (p, [], (2, ds) # g) # rest'"
    using ds(1,2) by (auto simp: grp_runs_def number_def digit_def digit_or_comma_def)
  then show ?thesis by (auto simp: price_tail_def sp spaces0_def)
qed

text \<open>A product name the commands can carry: one line, no comma, no space at either end.\<close>

definition product_name :: "string \<Rightarrow> bool" where
  "product_name n \<longleftrightarrow> n \<noteq> [] \<and> \<not> is_space (hd n) \<and> \<not> is_space (last n) \<and> CHR '','' \<notin> set n \<and> CHR 0x0A \<notin> set n"

text \<open>A name matched lazily before a tail that matches no text beginning inside the name.\<close>

lemma lazy_name_match:
  assumes n: "n \<noteq> []" "CHR 0x0A \<notin> set n"
    and inside: "\<And>x y p g. n = x @ y \<Longrightarrow> x \<noteq> [] \<Longrightarrow> y \<noteq> [] \<Longrightarrow> runs tail (p, y @ t, g) = []"
    and there: "\<And>p. \<exists>q rest. runs tail (p, t, [(1, n)]) = (q, [], [(2, ds), (1, n)]) # rest"
  shows "\<exists>q rest. runs (Seq (Grp 1 (plus_lazy dot)) tail) (None, n @ t, []) = (q, [], [(2, ds), (1, n)]) # rest"
proof -
  obtain c n' where c: "n = c # n'" using n by (cases n) auto
  let ?dot = "\<lambda>c. c \<noteq> CHR 0x0A"
  have dots: "list_all ?dot n'" "c \<noteq> CHR 0x0A" using n c by (auto simp: list_all_iff)
  from star_cls_lazy [OF dots(1), of "length (n' @ t)" "Some c" t "[]"] obtain pr' sts where
    *: "star_runs False (cls_runs ?dot) (length (n' @ t)) (Some c, n' @ t, []) = sts @ star_runs False (cls_runs ?dot) (length t) (pr', t, [])"
    "\<forall>st\<in>set sts. \<exists>k pr''. k < length n' \<and> st = (pr'', drop k n' @ t, [])" by auto
  obtain more where more: "star_runs False (cls_runs ?dot) (length t) (pr', t, []) = (pr', t, []) # more" by (cases t) (simp_all add: Let_def)
  let ?g = "\<lambda>(p, s, g). (p, s, (1::nat, take (length (n @ t) - length s) (n @ t)) # g)"
  have lazy: "grp_runs 1 (runs (plus_lazy dot)) (None, n @ t, []) = map ?g sts @ ?g (pr', t, []) # map ?g more"
    using *(1) more dots(2) by (simp add: grp_runs_def plus_lazy_def dot_def c)
  have "runs tail (?g st) = []" if "st \<in> set sts" for st
  proof -
    from that *(2) obtain k pr'' where k: "k < length n'" "st = (pr'', drop k n' @ t, [])" by blast
    have "n = (c # take k n') @ drop k n'" by (simp add: c)
    from inside [OF this] k show ?thesis by simp
  qed
  then have none: "concat (map (runs tail) (map ?g sts)) = []" by auto
  from there [of pr'] obtain q rest where r: "runs tail (?g (pr', t, [])) = (q, [], [(2, ds), (1, n)]) # rest" by auto
  have "runs (Seq (Grp 1 (plus_lazy dot)) tail) (None, n @ t, []) = concat (map (runs tail) (grp_runs 1 (runs (plus_lazy dot)) (None, n @ t, [])))"
    by simp
  also have "\<dots> = (q, [], [(2, ds), (1, n)]) # (rest @ concat (map (runs tail) (map ?g more)))"
    unfolding lazy map_append list.map concat_append concat.simps none r by simp
  finally show ?thesis by blast
qed

lemma add_item_match:
  assumes n: "product_name n" and ds: "list_all is_digit ds" "ds \<noteq> []"
  shows "\<exists>st. re_match ADD_ITEM_RE (n @ CHR '' '' # ds) = Some st \<and> group 1 st = n \<and> group 2 st = ds"
proof -
  have "runs price_tail (p, y @ CHR '' '' # ds, g) = []" if "n = x @ y" "y \<noteq> []" for x y p g
    using that n price_tail_no_name [of y ds] ds by (simp add: product_name_def)
  moreover have "\<exists>q rest. runs price_tail (p, CHR '' '' # ds, [(1, n)]) = (q, [], [(2, ds), (1, n)]) # rest" for p
    using price_tail_number [OF ds] by blast
  ultimately have "\<exists>q rest. runs (Seq (Grp 1 (plus_lazy dot)) price_tail) (None, n @ CHR '' '' # ds, []) = (q, [], [(2, ds), (1, n)]) # rest"
    using n by (intro lazy_name_match) (auto simp: product_name_def)
  then show ?thesis by (auto simp: re_match_def group_def ADD_ITEM_RE_def price_tail_def)
qed

lemma strip_id: "s \<noteq> [] \<Longrightarrow> \<not> is_space (hd s) \<Longrightarrow> \<not> is_space (last s) \<Longrightarrow> strip s = s"
proof -
  assume s: "s \<noteq> []" "\<not> is_space (hd s)" "\<not> is_space (last s)"
  have keep: "\<not> p (hd x) \<Longrightarrow> dropWhile p x = x" for p :: "char \<Rightarrow> bool" and x by (cases x) auto
  from s have "lstrip s = s" "\<not> is_space (hd (rev s))" by (simp_all add: lstrip_def keep hd_rev)
  then show ?thesis by (simp add: strip_def rstrip_def keep)
qed

lemma strip_space: "s \<noteq> [] \<Longrightarrow> \<not> is_space (hd s) \<Longrightarrow> \<not> is_space (last s) \<Longrightarrow> strip (CHR '' '' # s) = s"
  using strip_id [of s] by (simp add: strip_def lstrip_def is_space_def [of "CHR '' ''"])

definition show_entry :: "string \<times> nat \<Rightarrow> string" where
  "show_entry e = fst e @ CHR '' '' # show_nat (snd e)"

definition entry_item :: "string \<times> nat \<Rightarrow> cart_item" where
  "entry_item e = item (fst e) 1 (Some (int (snd e)))"

definition good_entry :: "string \<times> nat \<Rightarrow> bool" where
  "good_entry e \<longleftrightarrow> product_name (fst e) \<and> 0 < snd e"

lemma last_show_nat: "\<not> is_space (last (show_nat k))"
  using show_nat_digits [of k] by (auto simp: list_all_iff digit_not_space)

lemma show_entry_ends:
  "good_entry e \<Longrightarrow> show_entry e \<noteq> [] \<and> \<not> is_space (hd (show_entry e)) \<and> \<not> is_space (last (show_entry e))
     \<and> CHR '','' \<notin> set (show_entry e) \<and> CHR 0x0A \<notin> set (show_entry e)"
proof -
  assume e: "good_entry e"
  have "is_digit c" if "c \<in> set (show_nat k)" for c k using show_nat_digits [of k] that by (simp add: list_all_iff)
  then have "CHR '','' \<notin> set (show_nat k)" "CHR 0x0A \<notin> set (show_nat k)" for k by (force simp: is_digit_def)+
  with e last_show_nat show ?thesis by (cases "fst e") (auto simp: good_entry_def product_name_def show_entry_def)
qed

lemma add_item_of_entry:
  assumes "good_entry e"
  shows "add_item_of (show_entry e) = [entry_item e]" and "add_item_of (CHR '' '' # show_entry e) = [entry_item e]"
proof -
  note ends = show_entry_ends [OF assms]
  have n: "product_name (fst e)" using assms by (simp add: good_entry_def)
  then have sn: "strip (fst e) = fst e" "fst e \<noteq> []" by (auto simp: product_name_def strip_id)
  obtain st where "re_match ADD_ITEM_RE (show_entry e) = Some st" "group 1 st = fst e" "group 2 st = show_nat (snd e)"
    using add_item_match [OF n show_nat_digits show_nat_nonempty] unfolding show_entry_def by blast
  then show "add_item_of (show_entry e) = [entry_item e]" "add_item_of (CHR '' '' # show_entry e) = [entry_item e]"
    using assms ends sn by (simp_all add: add_item_of_def strip_id strip_space py_int_show_nat good_entry_def entry_item_def)
qed

lemma split_acc_plain: "\<forall>c\<in>set s. \<not> p c \<Longrightarrow> split_acc p acc (s @ rest) = split_acc p (acc @ s) rest"
  by (induction s arbitrary: acc) auto

lemma split_join:
  assumes "\<forall>x\<in>set (y # ys). \<forall>c\<in>set x. \<not> p c" and "p (CHR '','')" and "\<not> p (CHR '' '')"
  shows "split_acc p [] (join '', '' (y # ys)) = y # map (\<lambda>x. CHR '' '' # x) ys"
proof -
  have "split_acc p acc (join '', '' (y # ys)) = (acc @ y) # map (\<lambda>x. CHR '' '' # x) ys" for acc
    using assms(1)
  proof (induction ys arbitrary: y acc)
    case Nil
    then show ?case using split_acc_plain [of y p acc "[]"] by simp
  next
    case (Cons z zs)
    then show ?case using split_acc_plain [of y p acc "'', '' @ join '', '' (z # zs)"] assms(2,3) Cons.IH [of z "'' ''"] by simp
  qed
  then show ?thesis by simp
qed

fun spaced_commas :: "string \<Rightarrow> bool" where
  "spaced_commas (c # d # s) = ((c = CHR '','' \<longrightarrow> d = CHR '' '') \<and> spaced_commas (d # s))"
| "spaced_commas _ = True"

lemma strip_number_commas_id: "spaced_commas s \<Longrightarrow> strip_number_commas s = s"
  by (induction s rule: strip_number_commas.induct) (auto simp: is_digit_def)

lemma spaced_commas_join: "\<forall>x\<in>set xs. CHR '','' \<notin> set x \<Longrightarrow> spaced_commas (join '', '' xs)"
proof (induction xs rule: induct_list012)
  case (2 x)
  then have "CHR '','' \<notin> set x" by simp
  then show ?case by (simp, induction x rule: spaced_commas.induct) auto
next
  case (3 x y xs)
  then have "spaced_commas (join '', '' (y # xs))" "CHR '','' \<notin> set x" by auto
  moreover have "spaced_commas ('' '' @ s) \<longleftrightarrow> spaced_commas s" for s by (cases s) auto
  moreover have "CHR '','' \<notin> set x \<Longrightarrow> spaced_commas (x @ CHR '','' # CHR '' '' # s) \<longleftrightarrow> spaced_commas (CHR '' '' # s)" for x s
    by (induction x rule: spaced_commas.induct) auto
  ultimately show ?case by auto
qed simp

lemma drop_prefix_add:
  assumes "\<not> is_space (hd s)" and "s \<noteq> []"
  shows "drop_prefix ''add'' (''ADD '' @ s) = s"
proof -
  obtain rest where "star_runs True (cls_runs is_space) (Suc (length s)) (Some (CHR ''D''), '' '' @ s, []) = (Some (CHR '' ''), s, []) # rest"
    using star_cls_greedy [of is_space "'' ''" s "Suc (length s)" "Some (CHR ''D'')" "[]"] assms by (auto simp: is_space_def)
  moreover have "lower_char (CHR ''A'') = CHR ''a''" "lower_char (CHR ''D'') = CHR ''d''" "lower_char (CHR ''a'') = CHR ''a''"
    "lower_char (CHR ''d'') = CHR ''d''" by code_simp+
  ultimately show ?thesis
    by (simp add: drop_prefix_def re_match_def chr_def spaces0_def space_def after_def del: star_runs.simps)
qed

text \<open>
  Catalogue commands read back what was written. For any list of products with positive prices, the message
  "ADD name price, name price, ..." parses to exactly those products and prices in order, and so does PRICE.
\<close>

theorem add_command_roundtrip:
  assumes "\<forall>e\<in>set es. good_entry e" and "es \<noteq> []"
  shows "parse_add_items (''ADD '' @ join '', '' (map show_entry es)) = map entry_item es"
proof -
  obtain e rest where es: "es = e # rest" using assms(2) by (cases es) auto
  let ?t = "join '', '' (map show_entry es)"
  have parts: "\<forall>x\<in>set (map show_entry es). x \<noteq> [] \<and> \<not> is_space (hd x) \<and> \<not> is_space (last x) \<and> CHR '','' \<notin> set x \<and> CHR 0x0A \<notin> set x"
    using assms(1) show_entry_ends by auto
  have join_last: "\<forall>x\<in>set (y # ys). x \<noteq> [] \<and> \<not> is_space (last x) \<Longrightarrow> join '', '' (y # ys) \<noteq> [] \<and> \<not> is_space (last (join '', '' (y # ys)))" for y ys
    by (induction ys arbitrary: y) auto
  have t: "?t \<noteq> []" "\<not> is_space (last ?t)" using join_last [of "show_entry e" "map show_entry rest"] parts es by auto
  have th: "\<not> is_space (hd ?t)"
  proof -
    have "show_entry e \<noteq> []" "\<not> is_space (hd (show_entry e))" using parts es by auto
    then show ?thesis by (cases rest) (simp_all add: es)
  qed
  have "strip (''ADD '' @ ?t) = ''ADD '' @ ?t" using t by (intro strip_id) (auto simp: is_space_def)
  then have body: "drop_prefix ''add'' (strip (''ADD '' @ ?t)) = ?t" using drop_prefix_add [OF th t(1)] by simp
  have "strip_number_commas ?t = ?t" using parts by (intro strip_number_commas_id spaced_commas_join) auto
  moreover have "split_on (\<lambda>c. c = CHR '','' \<or> c = CHR 0x0A) ?t = show_entry e # map (\<lambda>x. CHR '' '' # x) (map show_entry rest)"
    unfolding split_on_def es list.map(2) using parts es by (intro split_join) auto
  moreover have "\<forall>e\<in>set xs. good_entry e \<Longrightarrow> concat (map (\<lambda>e. add_item_of (CHR '' '' # show_entry e)) xs) = map entry_item xs" for xs
    by (induction xs) (simp_all add: add_item_of_entry(2))
  ultimately have "concat (map add_item_of (split_on (\<lambda>c. c = CHR '','' \<or> c = CHR 0x0A) (strip_number_commas ?t))) = map entry_item es"
    using assms(1) add_item_of_entry(1) [of e] by (simp add: comp_def es)
  then show ?thesis using t(1) unfolding parse_add_items_def body Let_def by simp
qed

theorem add_command_roundtrip_witness:
  "parse_add_items ''ADD Peak Milk 12, Milo 35'' = [item ''Peak Milk'' 1 (Some 12), item ''Milo'' 1 (Some 35)]"
proof -
  have "\<forall>e\<in>set [(''Peak Milk'', 12), (''Milo'', 35)]. good_entry e"
    by (simp add: good_entry_def product_name_def is_space_def)
  moreover have "show_nat 12 = ''12''" "show_nat 35 = ''35''" by code_simp+
  ultimately show ?thesis
    using add_command_roundtrip [of "[(''Peak Milk'', 12), (''Milo'', 35)]"] by (simp add: show_entry_def entry_item_def)
qed

section \<open>What the first layer returns\<close>

lemma times_cls_split:
  "st' \<in> set (runs (times n (Cls p)) (pr, s, g)) \<Longrightarrow> \<exists>u v. s = u @ v \<and> length u = n \<and> list_all p u \<and> snd st' = (v, g)"
proof (induction n arbitrary: pr s)
  case (Suc n)
  then obtain c cs where c: "s = c # cs" "p c" "st' \<in> set (runs (times n (Cls p)) (Some c, cs, g))"
    by (cases s) (auto split: if_splits)
  from Suc.IH [OF c(3)] obtain u v where "cs = u @ v" "length u = n" "list_all p u" "snd st' = (v, g)" by blast
  with c show ?case by (intro exI [of _ "c # u"] exI [of _ v]) simp
qed auto

lemma at_most_cls_split:
  "st' \<in> set (runs (at_most n (Cls p)) (pr, s, g)) \<Longrightarrow> \<exists>u v. s = u @ v \<and> length u \<le> n \<and> list_all p u \<and> snd st' = (v, g)"
proof (induction n arbitrary: pr s)
  case (Suc n)
  then consider "snd st' = (s, g)" | c cs where "s = c # cs" "p c" "st' \<in> set (runs (at_most n (Cls p)) (Some c, cs, g))"
    by (cases s) (auto simp: opt_def split: if_splits)
  then show ?case
  proof cases
    case 2
    from Suc.IH [OF 2(3)] obtain u v where "cs = u @ v" "length u \<le> n" "list_all p u" "snd st' = (v, g)" by blast
    with 2 show ?thesis by (intro exI [of _ "c # u"] exI [of _ v]) simp
  qed auto
qed auto

definition order_ref :: "string \<Rightarrow> bool" where
  "order_ref r \<longleftrightarrow> 6 \<le> length r \<and> length r \<le> 16 \<and> list_all (\<lambda>c. is_digit c \<or> c \<in> set ''abcdef'') r"

lemma re_match_in: "re_match r s = Some st \<Longrightarrow> st \<in> set (runs r (None, s, []))"
  by (auto simp: re_match_def split: list.splits)

lemma lower_hex: "list_all (\<lambda>c. is_digit c \<or> lower_char c \<in> set ''abcdef'') u \<Longrightarrow> list_all (\<lambda>c. is_digit c \<or> c \<in> set ''abcdef'') (lower u)"
proof -
  have "is_digit c \<Longrightarrow> lower_char c = c" for c by (auto simp: is_digit_def lower_char_def Let_def)
  then show "list_all (\<lambda>c. is_digit c \<or> lower_char c \<in> set ''abcdef'') u \<Longrightarrow> ?thesis"
    by (fastforce simp: list_all_iff lower_def)
qed

lemma last_group:
  assumes "st \<in> set (runs (seq [Bos, a, b, Grp n r, Bow]) st0)"
  shows "\<exists>st1. st \<in> set (grp_runs n (runs r) st1)"
proof -
  from assms obtain st2 st1 where "st2 \<in> set (runs (Grp n r) st1)" "st \<in> set (runs Bow st2)"
    by (auto split: if_splits)
  moreover from this(2) have "st = st2" by (auto split: if_splits)
  ultimately show ?thesis by (intro exI [of _ st1]) simp
qed

lemma seq_group:
  assumes "st \<in> set (grp_runs n (runs (Seq a b)) (pr, x, g))"
  shows "\<exists>st3 st4. st3 \<in> set (runs a (pr, x, g)) \<and> st4 \<in> set (runs b st3) \<and> group n st = take (length x - length (fst (snd st4))) x"
  using assms by (fastforce simp: grp_runs_def group_def)

lemma trader_cmd_ref:
  assumes "re_match TRADER_CMD_RE s = Some st"
  shows "order_ref (lower (group 2 st))"
proof -
  define p where "p = (\<lambda>c. is_digit c \<or> lower_char c \<in> set ''abcdef'')"
  have hex: "hex_digit = Cls p" by (simp add: hex_digit_def p_def)
  from last_group [OF re_match_in [OF assms, unfolded TRADER_CMD_RE_def]]
  obtain st1 where st2: "st \<in> set (grp_runs 2 (runs (Seq (times 6 (Cls p)) (at_most 10 (Cls p)))) st1)"
    unfolding hex by blast
  obtain pr x g where st1: "st1 = (pr, x, g)" by (cases st1)
  from seq_group [OF st2 [unfolded st1]] obtain st3 st4 where st3: "st3 \<in> set (runs (times 6 (Cls p)) (pr, x, g))"
    and st4: "st4 \<in> set (runs (at_most 10 (Cls p)) st3)" and grp: "group 2 st = take (length x - length (fst (snd st4))) x" by blast
  from times_cls_split [OF st3] obtain u v where u: "x = u @ v" "length u = 6" "list_all p u" "snd st3 = (v, g)" by blast
  with st4 have "st4 \<in> set (runs (at_most 10 (Cls p)) (fst st3, v, g))" by (metis prod.collapse)
  from at_most_cls_split [OF this] obtain u' v' where u': "v = u' @ v'" "length u' \<le> 10" "list_all p u'" "snd st4 = (v', g)" by blast
  have "group 2 st = u @ u'" using grp u(1) u'(1,4) by simp
  moreover have "list_all (\<lambda>c. is_digit c \<or> c \<in> set ''abcdef'') (lower (u @ u'))" by (rule lower_hex) (use u(3) u'(3) in \<open>simp add: p_def\<close>)
  ultimately show ?thesis using u(2) u'(2) by (simp add: order_ref_def)
qed

lemma extract_items_schema: "i \<in> set (extract_items ts) \<Longrightarrow> it_name i \<noteq> [] \<and> it_unit_price i = None"
proof (induction ts rule: extract_items.induct)
  case (2 t ts)
  then show ?case by (auto simp: item_def Let_def split: option.splits if_splits)
qed simp

lemma parse_add_items_schema:
  "i \<in> set (parse_add_items s) \<Longrightarrow> it_name i \<noteq> [] \<and> it_qty i = 1 \<and> (\<exists>p>0. it_unit_price i = Some p)"
  by (auto simp: parse_add_items_def add_item_of_def item_def Let_def split: if_splits option.splits)

definition ref_intents :: "intent list" where
  "ref_intents = [TRADER_CONFIRM, TRADER_CANCEL, TRADER_PAID, TRADER_CREDIT]"

text \<open>The shape of a result of the first layer.\<close>

definition layer1_shape :: "parse_result \<Rightarrow> bool" where
  "layer1_shape r \<longleftrightarrow> \<not> pr_clarification_needed r \<and> pr_intent r \<notin> {IGNORE, CHITCHAT}
     \<and> (pr_order_ref r \<noteq> None \<longleftrightarrow> pr_intent r \<in> set ref_intents) \<and> (\<forall>x. pr_order_ref r = Some x \<longrightarrow> order_ref x)
     \<and> (pr_intent r = TRADER_ADD \<or> pr_intent r = TRADER_PRICE \<longrightarrow> pr_items r \<noteq> []
          \<and> (\<forall>i\<in>set (pr_items r). it_name i \<noteq> [] \<and> it_qty i = 1 \<and> (\<exists>p>0. it_unit_price i = Some p)))
     \<and> (pr_intent r = ORDER \<longrightarrow> pr_confidence r = (if pr_items r = [] then 3 / 10 else 7 / 10)
          \<and> (\<forall>i\<in>set (pr_items r). it_name i \<noteq> [] \<and> it_unit_price i = None))
     \<and> (pr_intent r = UNKNOWN \<longrightarrow> pr_confidence r = 0) \<and> (pr_intent r \<noteq> ORDER \<and> pr_intent r \<noteq> UNKNOWN \<longrightarrow> pr_confidence r = 1)"

lemma shape_keyword: "keyword i r s = Some x \<Longrightarrow> i \<notin> {ORDER, UNKNOWN, IGNORE, CHITCHAT, TRADER_ADD, TRADER_PRICE} \<union> set ref_intents \<Longrightarrow> layer1_shape x"
  by (auto simp: keyword_def layer1_shape_def result_def split: if_splits)

lemma shape_named: "named_amount i r s = Some x \<Longrightarrow> i \<notin> {ORDER, UNKNOWN, IGNORE, CHITCHAT, TRADER_ADD, TRADER_PRICE} \<union> set ref_intents \<Longrightarrow> layer1_shape x"
  by (auto simp: named_amount_def layer1_shape_def result_def)

lemma verb_intent: "TRADER_VERB_MAP v \<in> set ref_intents"
  by (simp add: ref_intents_def)

declare TRADER_VERB_MAP.simps [simp del]

lemma shape_ref: "i \<in> set ref_intents \<Longrightarrow> order_ref x \<Longrightarrow> layer1_shape ((result i [] 1)\<lparr>pr_order_ref := Some x\<rparr>)"
  by (auto simp: layer1_shape_def result_def ref_intents_def)

lemma shape_trader_cmd: "trader_cmd s = Some x \<Longrightarrow> layer1_shape x"
  using shape_ref [OF verb_intent trader_cmd_ref] by (auto simp: trader_cmd_def)

lemma shape_catalogue_cmds: "add_cmd s = Some x \<Longrightarrow> layer1_shape x" "price_cmd s = Some x \<Longrightarrow> layer1_shape x"
  using parse_add_items_schema by (auto simp: add_cmd_def price_cmd_def layer1_shape_def result_def ref_intents_def split: if_splits)

lemma shape_others: "remove_cmd s = Some x \<Longrightarrow> layer1_shape x" "who_is_cmd s = Some x \<Longrightarrow> layer1_shape x"
    "payment_sent_msg s = Some x \<Longrightarrow> layer1_shape x" "price_offer_msg s = Some x \<Longrightarrow> layer1_shape x" "haggling_msg s = Some x \<Longrightarrow> layer1_shape x"
  by (auto simp: remove_cmd_def who_is_cmd_def payment_sent_msg_def price_offer_msg_def haggling_msg_def layer1_shape_def result_def
      ref_intents_def Let_def split: if_splits option.splits)

lemma shape_order: "layer1_shape (order_msg s)"
  using extract_items_schema by (auto simp: order_msg_def layer1_shape_def result_def ref_intents_def Let_def)

lemma shape_rules: "f \<in> set rules \<Longrightarrow> f s = Some x \<Longrightarrow> layer1_shape x"
  unfolding rules_def
  by (auto simp: ref_intents_def intro: shape_keyword shape_named shape_trader_cmd shape_catalogue_cmds shape_others)

lemma first_rule_cases: "first_rule fs s = order_msg s \<or> (\<exists>f\<in>set fs. f s = Some (first_rule fs s))"
  by (induction fs) (auto split: option.splits)

lemma layer1_shape_holds: "layer1_shape (layer1 message)"
  using first_rule_cases [of rules "strip message"] shape_rules shape_order by (metis layer1_def)

text \<open>
  C40: every message gets a well-formed result from the rules. The confidence is 1 unless the message is an order (0.7
  with items, 0.3 without) or unknown (0); an order reference comes with exactly the four order commands and
  is 6 to 16 lower-case hexadecimal digits; added and repriced products have a name, a positive price and
  quantity one; order items have a name and no price yet.
\<close>

theorem layer1_schema: "layer1_shape (layer1 message)"
  by (rule layer1_shape_holds)

end
