(* ===== verification/Customer_Flow.thy ===== *)
theory Customer_Flow
  imports Replies Order_Session Nlp
begin

text \<open>
  The conversation with a customer (\<open>src/app/modules/orders/service.py\<close>): an inbound message opts out, answers an order
  summary, answers a clarification, or is parsed afresh into an order, an offer, a payment notice or a
  question; the store cart and the image match place orders the same way.
\<close>

section \<open>The arguments of a handler\<close>

record inbound =
  ib_tenant_id :: string
  ib_conversation_id :: string
  ib_customer_phone :: string
  ib_message :: string
  ib_message_id :: string
  ib_trader :: trader
  ib_channel_tenant_id :: "string option"
  ib_customer_name :: "string option"

abbreviation to_customer :: "gateway \<Rightarrow> inbound \<Rightarrow> string \<Rightarrow> body \<Rightarrow> unit svc" where
  "to_customer gw ib eid msg \<equiv> reply gw (ib_customer_phone ib) (ib_tenant_id ib) eid msg (ib_channel_tenant_id ib)"

definition event_of :: "string \<Rightarrow> inbound \<Rightarrow> string" where
  "event_of name ib = name @ ''.'' @ ib_message_id ib"

section \<open>Parsing with the conversation as context\<close>

text \<open>The last five messages of the conversation, oldest first, after what a clarification adds.\<close>

definition recent_history :: "string \<Rightarrow> world \<Rightarrow> chat_history" where
  "recent_history conv w = map (\<lambda>m. (if m_sender_role m = ''assistant'' then ''assistant'' else ''user'', m_content m))
     (rev (take 5 (order_by_desc m_created_at (filter (\<lambda>m. m_conversation_id m = conv) (messages w)))))"

definition smart_parse :: "llm \<Rightarrow> string \<Rightarrow> string \<Rightarrow> catalogue \<Rightarrow> string \<Rightarrow> chat_history \<Rightarrow> parse_result svc" where
  "smart_parse l message category cat conv extra = bindA (getA (recent_history conv)) (\<lambda>history.
     ret (smart_parse_customer_message l message category cat (extra @ history)))"

definition parse_or_unknown :: "llm \<Rightarrow> inbound \<Rightarrow> chat_history \<Rightarrow> parse_result svc" where
  "parse_or_unknown l ib extra = tryA (smart_parse l (ib_message ib) (tr_business_category (ib_trader ib))
     (tr_catalogue (ib_trader ib)) (ib_conversation_id ib) extra) (\<lambda>_. ret (result UNKNOWN [] 0))"

section \<open>Placing an order\<close>

definition price_of :: "cart_item \<Rightarrow> int" where
  "price_of it = (case it_unit_price it of None \<Rightarrow> 0 | Some p \<Rightarrow> p)"

definition cart_total :: "cart_item list \<Rightarrow> int" where
  "cart_total its = (\<Sum>it\<leftarrow>its. it_qty it * price_of it)"

text \<open>The case-insensitive catalogue lookup: the first entry one of whose names contains the other.\<close>

definition matched_price :: "catalogue \<Rightarrow> string \<Rightarrow> int option" where
  "matched_price cat name = map_option snd (find (\<lambda>(n, p). contains (lower n) (lower name) \<or> contains (lower name) (lower n)) cat)"

definition unpriced :: "cart_item \<Rightarrow> bool" where
  "unpriced it \<longleftrightarrow> it_unit_price it = None \<or> it_unit_price it = Some 0"

definition fill_price :: "catalogue \<Rightarrow> cart_item \<Rightarrow> cart_item" where
  "fill_price cat it = (if unpriced it then (case matched_price cat (it_name it) of
      Some p \<Rightarrow> it\<lparr>it_unit_price := Some p\<rparr> | None \<Rightarrow> it) else it)"

definition missing_prices :: "catalogue \<Rightarrow> cart_item list \<Rightarrow> string list" where
  "missing_prices cat its = map it_name (filter (\<lambda>it. unpriced it \<and> matched_price cat (it_name it) = None) its)"

text \<open>Create the order and its line items and commit.\<close>

definition as_request :: "cart_item \<Rightarrow> order_item_create" where
  "as_request it = \<lparr>ic_name = it_name it, ic_quantity = it_qty it, ic_unit_price = of_int (price_of it)\<rparr>"

definition place_order :: "inbound \<Rightarrow> cart_item list \<Rightarrow> int \<Rightarrow> order svc" where
  "place_order ib its tot = bindA (repo_create_order (ib_tenant_id ib) (ib_conversation_id ib) None
      (Some (ib_customer_phone ib)) (ib_customer_name ib) (Some (tr_phone_number (ib_trader ib))) (Some (of_int tot)) ''NGN'') (\<lambda>x.
     thenA (add_all_items (o_id x) (map as_request its)) (ret x))"

definition summary_buttons :: "(string \<times> string) list" where
  "summary_buttons = [(''YES'', ''Confirm''), (''NO'', ''Cancel'')]"

text \<open>Place the order, remember that the customer has to confirm it, and show the summary.\<close>

definition order_with_summary :: "gateway \<Rightarrow> inbound \<Rightarrow> string \<Rightarrow> cart_item list \<Rightarrow> unit svc" where
  "order_with_summary gw ib name its = (let tot = cart_total its in
     bindA (place_order ib its tot) (\<lambda>x.
     thenA (set_order_session (ib_tenant_id ib) (ib_customer_phone ib) (ConfirmSession (Some (o_id x)) its tot None))
       (reply_interactive gw (ib_customer_phone ib) (ib_tenant_id ib) (name @ ''.'' @ o_id x)
          (Template ''order_summary_interactive'' [json_items its, JInt tot, JStr (tr_business_name (ib_trader ib))])
          summary_buttons (ib_channel_tenant_id ib) None)))"

definition price_missing :: "gateway \<Rightarrow> inbound \<Rightarrow> string \<Rightarrow> string list \<Rightarrow> unit svc" where
  "price_missing gw ib name ns = to_customer gw ib (event_of name ib) (Template ''price_missing_prompt'' [JList (map JStr ns)])"

definition order_items_named :: "gateway \<Rightarrow> inbound \<Rightarrow> cart_item list \<Rightarrow> unit svc" where
  "order_items_named gw ib its = (let cat = tr_catalogue (ib_trader ib); ns = missing_prices cat its in
     if ns \<noteq> [] then price_missing gw ib ''order.price_missing'' ns
     else order_with_summary gw ib ''order.summary'' (map (fill_price cat) its))"

section \<open>The store cart and the image match\<close>

definition handle_cart_order :: "gateway \<Rightarrow> inbound \<Rightarrow> (string \<times> int) list \<Rightarrow> unit svc" where
  "handle_cart_order gw ib cart = (let cat = tr_catalogue (ib_trader ib);
       its = concat (map (\<lambda>(name, qty). case matched_price cat name of Some p \<Rightarrow> [item name qty (Some p)] | None \<Rightarrow> []) cart);
       ns = map fst (filter (\<lambda>(name, qty). matched_price cat name = None) cart) in
     if ns \<noteq> [] then price_missing gw ib ''order.cart_price_missing'' ns
     else order_with_summary gw ib ''order.cart_summary'' its)"

definition quantity_rows :: "string \<Rightarrow> int \<Rightarrow> (string \<times> (string \<times> string \<times> string) list) list" where
  "quantity_rows name price = [(''Quantity'', map (\<lambda>q. (''QTY_'' @ show_nat q, ''Buy '' @ show_nat q,
       if q = 1 then ''N'' @ commas price else show_nat q @ '' '' @ [CHR 0xD7] @ '' N'' @ commas price @ '' = N'' @ commas (price * int q))) [1..<6]
     @ [(''NO'', ''Cancel order'', ''Not what I'' @ [CHR 0x27] @ ''m looking for'')])]"

definition create_image_order :: "gateway \<Rightarrow> inbound \<Rightarrow> string \<Rightarrow> int \<Rightarrow> string option \<Rightarrow> unit svc" where
  "create_image_order gw ib product price media = bindA (place_order ib [item product 1 (Some price)] price) (\<lambda>x.
     thenA (set_order_session (ib_tenant_id ib) (ib_customer_phone ib)
         (ConfirmSession (Some (o_id x)) [item product 1 (Some price)] price (if truthy_str media then media else None)))
       (reply_list gw (ib_customer_phone ib) (ib_tenant_id ib) (''order.image_matched.'' @ o_id x)
          (Template ''image_inquiry_matched_list'' [JStr product, JInt price, JStr (tr_business_name (ib_trader ib))])
          ''Select quantity'' (quantity_rows product price) (ib_channel_tenant_id ib)))"

section \<open>Negotiation\<close>

definition negotiation_buttons :: "string \<Rightarrow> (string \<times> string) list" where
  "negotiation_buttons cp = [(''NEGACCEPT_'' @ cp, ''Accept''), (''NEGCOUNTER_'' @ cp, ''Counter-offer''), (''NEGDECLINE_'' @ cp, ''Decline'')]"

definition first_name :: "cart_item list \<Rightarrow> string" where
  "first_name its = (case its of [] \<Rightarrow> ''the item'' | it # _ \<Rightarrow> it_name it)"

text \<open>Put the offer to the trader and remember it until it is answered.\<close>

definition escalate_offer :: "gateway \<Rightarrow> inbound \<Rightarrow> string \<Rightarrow> int \<Rightarrow> int \<Rightarrow> cart_item list \<Rightarrow> string option \<Rightarrow> unit svc" where
  "escalate_offer gw ib name offered original its oid = (let tp = tr_phone_number (ib_trader ib); cp = ib_customer_phone ib in
     thenA (reply_interactive gw tp (ib_tenant_id ib) (event_of name ib)
         (Template ''negotiation_to_trader_with_price'' [JStr cp, json_opt (ib_customer_name ib), JStr (first_name its), JInt original, JInt offered])
         (negotiation_buttons cp) (ib_channel_tenant_id ib) None)
       (set_pending_negotiation tp cp (NegotiationDoc offered original (first_name its) its oid (ib_tenant_id ib)
          (str_or_empty (ib_channel_tenant_id ib)))))"

definition offered_price :: "parse_result \<Rightarrow> int option" where
  "offered_price r = (case pr_items r of [] \<Rightarrow> None | it # _ \<Rightarrow> it_unit_price it)"

definition truthy_int :: "int option \<Rightarrow> bool" where
  "truthy_int p \<longleftrightarrow> p \<noteq> None \<and> p \<noteq> Some 0"

definition hold_customer :: "gateway \<Rightarrow> inbound \<Rightarrow> unit svc" where
  "hold_customer gw ib = to_customer gw ib (event_of ''order.neg_hold'' ib) (Template ''negotiation_hold_customer'' [])"

text \<open>A new round while a summary is waiting: the session gives way to the pending offer.\<close>

definition counter_round :: "gateway \<Rightarrow> inbound \<Rightarrow> int option \<Rightarrow> string option \<Rightarrow> cart_item list \<Rightarrow> int \<Rightarrow> unit svc" where
  "counter_round gw ib offered oid its tot =
     thenA (clear_order_session (ib_tenant_id ib) (ib_customer_phone ib))
     (thenA (hold_customer gw ib)
       (if truthy_int offered \<and> tot \<noteq> 0 \<and> tr_phone_number (ib_trader ib) \<noteq> []
        then escalate_offer gw ib ''order.neg_round'' (the offered) tot its oid else ret ()))"

text \<open>The items and the order a session knows of; only a summary waiting for its answer has any.\<close>

fun session_items :: "doc option \<Rightarrow> cart_item list" where
  "session_items (Some (ConfirmSession oid its tot media)) = its"
| "session_items _ = []"

fun session_order_id :: "doc option \<Rightarrow> string option" where
  "session_order_id (Some (ConfirmSession oid its tot media)) = oid"
| "session_order_id _ = None"

definition start_negotiation :: "gateway \<Rightarrow> inbound \<Rightarrow> doc option \<Rightarrow> parse_result \<Rightarrow> unit svc" where
  "start_negotiation gw ib session r = (let its = session_items session; tp = tr_phone_number (ib_trader ib); offered = offered_price r;
       original = (case its of [] \<Rightarrow> Some 0 | it # _ \<Rightarrow> it_unit_price it) in
     thenA (hold_customer gw ib)
     (thenA (if truthy_int offered \<and> truthy_int original \<and> tp \<noteq> []
         then escalate_offer gw ib ''order.neg_escalate'' (the offered) (the original) its (session_order_id session)
         else if tp \<noteq> [] then reply gw tp (ib_tenant_id ib) (event_of ''order.neg_general'' ib)
           (Template ''negotiation_to_trader_general'' [JStr (ib_customer_phone ib), json_opt (ib_customer_name ib), JStr (first_name its),
              (case original of Some p \<Rightarrow> JInt p | None \<Rightarrow> JNull)]) (ib_channel_tenant_id ib)
         else ret ())
       (if session \<noteq> None then clear_order_session (ib_tenant_id ib) (ib_customer_phone ib) else ret ())))"

text \<open>The trader accepts or declines the offer: the customer gets a summary to confirm at the agreed price.\<close>

definition with_price :: "int \<Rightarrow> cart_item list \<Rightarrow> cart_item list" where
  "with_price p its = (case its of [] \<Rightarrow> [] | it # r \<Rightarrow> if p \<noteq> 0 then it\<lparr>it_unit_price := Some p\<rparr> # r else its)"

definition naira_amount :: "int \<Rightarrow> string" where
  "naira_amount n = ''N'' @ commas n"

definition handle_negotiation_response :: "gateway \<Rightarrow> bool \<Rightarrow> string \<Rightarrow> string \<Rightarrow> trader \<Rightarrow> string \<Rightarrow> string \<Rightarrow> string option \<Rightarrow> unit svc" where
  "handle_negotiation_response gw accept cp tp tr mid tid ctid = bindA (get_pending_negotiation tp cp) (\<lambda>neg.
     case neg of
       Some (NegotiationDoc offered original product its oid ntid nctid) \<Rightarrow>
         (let ctid' = (if nctid \<noteq> [] then Some nctid else ctid); tot = (if accept \<and> offered \<noteq> 0 then offered else original) in
          thenA (clear_pending_negotiation tp cp)
          (thenA (set_order_session ntid cp (ConfirmSession oid (if accept then with_price offered its else its) tot None))
          (if accept then
             thenA (reply gw cp ntid (''order.neg_accepted.'' @ mid)
                 (Template ''negotiation_accepted_to_customer'' [JStr (tr_business_name tr), JInt tot]) ctid')
               (reply gw tp tid (''order.neg_accepted_trader.'' @ mid)
                 (Plain (''You accepted '' @ naira_amount offered @ ''. Waiting for customer to confirm.'')) ctid)
           else
             thenA (reply gw cp ntid (''order.neg_declined.'' @ mid)
                 (Template ''negotiation_declined_to_customer'' [JStr (tr_business_name tr), JInt original]) ctid')
               (reply gw tp tid (''order.neg_declined_trader.'' @ mid)
                 (Plain (''Offer declined. Customer has been offered the original price of '' @ naira_amount original @ ''.'')) ctid))))
     | _ \<Rightarrow> reply gw tp tid (''order.neg_expired.'' @ mid)
              (Plain ''This negotiation has expired or already been resolved.'') ctid)"

section \<open>Payment notices\<close>

definition handle_payment_sent :: "gateway \<Rightarrow> inbound \<Rightarrow> bool \<Rightarrow> unit svc" where
  "handle_payment_sent gw ib has_screenshot = (let tp = tr_phone_number (ib_trader ib) in
     bindA (get_open_order_by_customer_phone (ib_customer_phone ib) (ib_tenant_id ib)) (\<lambda>ord.
       case ord of
         Some x \<Rightarrow> if o_state x = CONFIRMED then
             thenA (if tp \<noteq> [] then reply_interactive gw tp (ib_tenant_id ib) (''order.payment_notify_trader.'' @ o_id x)
                 (Template ''payment_receipt_to_trader'' [JStr (ib_customer_phone ib),
                    json_opt (if truthy_str (ib_customer_name ib) then ib_customer_name ib else o_customer_name x),
                    JInt (int_of_decimal (amount_or_0 (o_amount x))), JStr (take 8 (o_id x)), JInt (if has_screenshot then 1 else 0)])
                 [(''PAYRCVD '' @ take 8 (o_id x), ''Payment Received''), (''PAYNOTRCVD '' @ take 8 (o_id x), ''Not Received'')]
                 (ib_channel_tenant_id ib) None else ret ())
               (to_customer gw ib (''order.payment_ack.'' @ o_id x)
                 (Template ''payment_receipt_ack_to_customer'' [JStr (tr_business_name (ib_trader ib))]))
           else to_customer gw ib (event_of ''order.payment_no_order'' ib)
             (Template ''no_confirmed_order_for_payment'' [JStr (tr_business_name (ib_trader ib))])
       | None \<Rightarrow> to_customer gw ib (event_of ''order.payment_no_order'' ib)
             (Template ''no_confirmed_order_for_payment'' [JStr (tr_business_name (ib_trader ib))])))"

section \<open>Answers to an order summary\<close>

text \<open>\<open>re.search(r"\<backslash>b(\<backslash>d+)\<backslash>b", \<dots>)\<close>.\<close>

definition QTY_RE :: rx where
  "QTY_RE = seq [Bow, Grp 1 (plus digit), Bow]"

text \<open>A quantity from a tapped row or a typed message.\<close>

definition chosen_quantity :: "string \<Rightarrow> int option" where
  "chosen_quantity message = (let q = upper (strip message) in
     if startswith q ''QTY_'' then (case split_on (\<lambda>c. c = CHR ''_'') q of
         _ # x # _ \<Rightarrow> (case py_int x of Some n \<Rightarrow> Some n | None \<Rightarrow> Some 1)
       | _ \<Rightarrow> Some 1)
     else case re_search QTY_RE (strip message) of
         Some m \<Rightarrow> (let n = digits_val (group 1 m) in if 1 \<le> n \<and> n \<le> 1000 then Some n else None)
       | None \<Rightarrow> (case find (\<lambda>x. map_of WORD_TO_NUM x \<noteq> None) (split_ws (lower (strip message))) of
           Some x \<Rightarrow> map_of WORD_TO_NUM x | None \<Rightarrow> None))"

text \<open>The order a session refers to; a session without one finds none.\<close>

definition session_order :: "string option \<Rightarrow> string \<Rightarrow> order option svc" where
  "session_order oid tid = (case oid of None \<Rightarrow> ret None | Some i \<Rightarrow> get_by_id i (Some tid))"

definition with_quantity :: "int \<Rightarrow> cart_item list \<Rightarrow> cart_item list" where
  "with_quantity q its = (case its of [] \<Rightarrow> [] | it # r \<Rightarrow> it\<lparr>it_qty := q\<rparr> # r)"

text \<open>Write the quantity to the first line item and its price times the quantity to the order.\<close>

definition set_quantity :: "inbound \<Rightarrow> string option \<Rightarrow> int \<Rightarrow> cart_item list \<Rightarrow> int \<Rightarrow> (cart_item list \<times> int) svc" where
  "set_quantity ib oid qty its tot = bindA (session_order oid (ib_tenant_id ib)) (\<lambda>ord. case ord of
     None \<Rightarrow> ret (its, tot)
   | Some x \<Rightarrow> bindA (getA (\<lambda>w. items_of w (o_id x))) (\<lambda>rows. case rows of
       [] \<Rightarrow> ret (its, tot)
     | row # _ \<Rightarrow> if o_state x \<noteq> INQUIRY then ret (its, tot)
         else (let a = int_of_decimal (oi_unit_price row) * qty in
           thenA (modA (\<lambda>w. w\<lparr>order_items := update_where (\<lambda>i. i = row) (\<lambda>i. i\<lparr>oi_quantity := qty\<rparr>) (order_items w)\<rparr>))
           (thenA (set_order (o_id x) (\<lambda>x. x\<lparr>o_amount := Some (of_int a)\<rparr>))
             (ret (with_quantity qty its, a))))))"

definition customer_confirms :: "gateway \<Rightarrow> inbound \<Rightarrow> string option \<Rightarrow> cart_item list \<Rightarrow> int \<Rightarrow> string option \<Rightarrow> unit svc" where
  "customer_confirms gw ib oid its tot media = (let tid = ib_tenant_id ib; cp = ib_customer_phone ib; tp = tr_phone_number (ib_trader ib);
       ctid = ib_channel_tenant_id ib in
     bindA (session_order oid tid) (\<lambda>ord. case ord of
       Some x \<Rightarrow> if o_state x = INQUIRY then
           bindA (if truthy_str media \<and> tp \<noteq> [] then reply_image gw tp tid (''order.image_notify_trader.'' @ o_id x) (the media)
               (Some (Plain (''Customer +'' @ cp @ '' wants to buy this item:''))) ctid else ret None) (\<lambda>wamid.
           thenA (reply_interactive gw tp tid (''order.trader_notify.'' @ o_id x)
               (Template ''order_received_interactive'' [json_items its, JInt tot, JStr cp, JStr (take 8 (o_id x)), json_opt (ib_customer_name ib)])
               [(''CONFIRM '' @ take 8 (o_id x), ''Confirm''), (''CANCEL '' @ take 8 (o_id x), ''Decline'')] ctid wamid)
           (thenA (clear_order_session tid cp)
           (thenA (to_customer gw ib (''order.customer_pending.'' @ o_id x)
               (Template ''order_pending_to_customer'' [JStr (tr_business_name (ib_trader ib))]))
             (set_quiet_mode tid cp))))
         else thenA (clear_order_session tid cp)
           (to_customer gw ib (event_of ''order.customer_confirm_missing'' ib) (Plain ''Something went wrong with your order. Abeg place it again.''))
     | None \<Rightarrow> thenA (clear_order_session tid cp)
           (to_customer gw ib (event_of ''order.customer_confirm_missing'' ib) (Plain ''Something went wrong with your order. Abeg place it again.''))))"

text \<open>\<open>except ConflictError: pass\<close>.\<close>

definition fail_inquiry :: "string option \<Rightarrow> string \<Rightarrow> unit svc" where
  "fail_inquiry oid tid = (if \<not> truthy_str oid then ret ()
     else bindA (session_order oid tid) (\<lambda>ord. case ord of
       Some x \<Rightarrow> if o_state x = INQUIRY
         then thenA (none_on_conflict (transition_order x FAILED)) (ret ()) else ret ()
     | None \<Rightarrow> ret ()))"

definition customer_cancels :: "gateway \<Rightarrow> inbound \<Rightarrow> string option \<Rightarrow> cart_item list \<Rightarrow> unit svc" where
  "customer_cancels gw ib oid its = (let tid = ib_tenant_id ib; cp = ib_customer_phone ib in
     thenA (fail_inquiry oid tid)
     (thenA (bindA (get_last_clarification tid cp) (\<lambda>last.
         let start_over = thenA (clear_order_session tid cp)
             (to_customer gw ib (event_of ''order.customer_cancel'' ib) (Template ''order_cancelled_to_customer'' [JStr (tr_business_name (ib_trader ib))]))
         in case last of
           Some (ClarifyContext original asked numbered) \<Rightarrow> if numbered \<noteq> []
             then thenA (set_order_session tid cp (ClarifySession original asked numbered))
               (to_customer gw ib (event_of ''order.cancel_repick'' ib) (Plain (''No problem, that order has been cancelled.'' @ [CHR 0x0A, CHR 0x0A]
                  @ ''You can pick a different option from the list above, or tell me what else you'' @ [CHR 0x27] @ ''d like to order.'')))
             else start_over
         | _ \<Rightarrow> start_over))
       (case its of [] \<Rightarrow> ret ()
        | it # _ \<Rightarrow> log_interest_event tid (tr_phone_number (ib_trader ib)) cp (ib_customer_name ib) (it_name it) (it_unit_price it) ORDER_CANCELLED)))"

definition answer_summary :: "gateway \<Rightarrow> llm \<Rightarrow> inbound \<Rightarrow> string option \<Rightarrow> cart_item list \<Rightarrow> int \<Rightarrow> string option \<Rightarrow> unit svc" where
  "answer_summary gw l ib oid its tot media = (let qty = chosen_quantity (ib_message ib); category = tr_business_category (ib_trader ib);
       cat = tr_catalogue (ib_trader ib); message = (if qty \<noteq> None then ''YES'' else ib_message ib) in
     bindA (case qty of Some q \<Rightarrow> set_quantity ib oid (if q < 1 then 1 else q) its tot | None \<Rightarrow> ret (its, tot)) (\<lambda>(its, tot).
     let r = parse_message l message category cat in
     if pr_intent r = CONFIRM then customer_confirms gw ib oid its tot media
     else if pr_intent r = CANCEL then customer_cancels gw ib oid its
     else let c = smart_parse_customer_message l message category cat [] in
       if pr_intent c = NEGOTIATION then counter_round gw ib (offered_price c) oid its tot
       else to_customer gw ib (event_of ''order.re_summary'' ib)
         (Template ''order_summary_to_customer'' [json_items its, JInt tot, JStr (tr_business_name (ib_trader ib))])))"

section \<open>Clarification\<close>

text \<open>\<open>(\<backslash>d+)\<backslash>.\<backslash>s+(.+?)\<backslash>s*[-:]\<backslash>s*N?\<backslash>s*([\<backslash>d,]+(?:\<backslash>.\<backslash>d+)?)\<close>.\<close>

definition one_of :: "string \<Rightarrow> rx" where
  "one_of cs = Cls (\<lambda>c. c \<in> set cs)"

definition NUMBERED_RE :: rx where
  "NUMBERED_RE = seq [Grp 1 (plus digit), one_of ''.'', spaces1, Grp 2 (plus_lazy dot), spaces0, one_of ''-:'', spaces0, opt (one_of ''N''),
     spaces0, Grp 3 (seq [plus digit_or_comma, opt (seq [one_of ''.'', plus digit])])]"

definition numbered_items :: "string \<Rightarrow> numbered_item list" where
  "numbered_items reply_text = concat (map (\<lambda>m.
     let price = takeWhile (\<lambda>c. c \<noteq> CHR ''.'') (filter (\<lambda>c. c \<noteq> CHR '','') (group 3 m)) in
     if price \<noteq> [] \<and> list_all is_digit price
     then [\<lparr>ni_index = digits_val (group 1 m), ni_name = strip (group 2 m), ni_price = digits_val price\<rparr>] else [])
     (re_finditer NUMBERED_RE reply_text))"

definition PICK_RE :: rx where
  "PICK_RE = seq [Bos, spaces0, Grp 1 (Seq digit (at_most 2 digit)), spaces0, Eos]"

definition clarification_history :: "string \<Rightarrow> string \<Rightarrow> chat_history" where
  "clarification_history original asked = (if original \<noteq> [] then [(''user'', original)] else [])
     @ (if asked \<noteq> [] then [(''assistant'', asked)] else [])"

definition answer_clarification :: "llm \<Rightarrow> inbound \<Rightarrow> string \<Rightarrow> string \<Rightarrow> numbered_item list \<Rightarrow> parse_result svc" where
  "answer_clarification l ib original asked numbered = (let clear = clear_order_session (ib_tenant_id ib) (ib_customer_phone ib);
       reparse = bindA (parse_or_unknown l ib (clarification_history original asked)) (\<lambda>r. thenA clear (ret r)) in
     case re_match PICK_RE (strip (ib_message ib)) of
       Some m \<Rightarrow> (case find (\<lambda>ni. ni_index ni = digits_val (group 1 m)) numbered of
           Some ni \<Rightarrow> thenA clear (ret (result ORDER [item (ni_name ni) 1 (Some (ni_price ni))] 1))
         | None \<Rightarrow> reparse)
     | None \<Rightarrow> reparse)"

definition ask_back :: "gateway \<Rightarrow> inbound \<Rightarrow> parse_result \<Rightarrow> unit svc" where
  "ask_back gw ib r = (let tid = ib_tenant_id ib; cp = ib_customer_phone ib; q = str_or_empty (pr_clarification_question r) in
     if pr_clarification_needed r \<and> q \<noteq> [] then
       thenA (set_order_session tid cp (ClarifySession (ib_message ib) q (numbered_items q)))
       (thenA (save_last_clarification tid cp (ClarifyContext (ib_message ib) q (numbered_items q)))
         (to_customer gw ib (event_of ''order.clarify'' ib) (Plain q)))
     else to_customer gw ib (event_of ''order.unknown'' ib) (Template ''unknown_order_prompt'' []))"

section \<open>A fresh message\<close>

definition act_on :: "gateway \<Rightarrow> inbound \<Rightarrow> doc option \<Rightarrow> parse_result \<Rightarrow> unit svc" where
  "act_on gw ib session r =
     (if pr_intent r = CONFIRM \<and> session = None
        then to_customer gw ib (event_of ''order.stale_confirm'' ib) (Template ''no_active_session'' [])
      else if pr_intent r = CANCEL \<and> session = None
        then to_customer gw ib (event_of ''order.stale_cancel'' ib) (Template ''no_active_session'' [])
      else if pr_intent r = IGNORE then ret ()
      else if pr_intent r = CHITCHAT then (let q = str_or_empty (pr_clarification_question r) in
        to_customer gw ib (event_of ''order.chitchat'' ib) (Plain (if q \<noteq> [] then q else ''Hi! What would you like to order?'')))
      else if pr_intent r = PAYMENT_SENT then handle_payment_sent gw ib False
      else if pr_intent r = NEGOTIATION then start_negotiation gw ib session r
      else if pr_intent r = UNKNOWN \<or> (pr_intent r = ORDER \<and> pr_items r = []) then ask_back gw ib r
      else order_items_named gw ib (pr_items r))"

text \<open>STOP: the opt-out has a session of its own; \<open>True\<close> when the message is dealt with.\<close>

definition stop_reply :: "gateway \<Rightarrow> inbound \<Rightarrow> bool svc" where
  "stop_reply gw ib = (if upper (strip (ib_message ib)) = ''STOP''
     then tryA (bindA (session_begin (opt_out (tr_phone_number (ib_trader ib)) (ib_customer_phone ib))) (\<lambda>opted.
         if opted then thenA (to_customer gw ib (event_of ''customer.opted_out'' ib)
             (Plain ''You have been unsubscribed from marketing messages. You will no longer receive broadcasts.'')) (ret True)
         else ret False)) (\<lambda>_. ret False)
     else ret False)"

text \<open>In quiet mode only messages the first layer recognises get through.\<close>

definition muted :: "inbound \<Rightarrow> bool svc" where
  "muted ib = bindA (is_quiet_mode (ib_tenant_id ib) (ib_customer_phone ib)) (\<lambda>q.
     ret (q \<and> pr_intent (layer1 (ib_message ib)) = UNKNOWN \<and> pr_confidence (layer1 (ib_message ib)) = 0))"

definition handle_inbound_customer_message :: "gateway \<Rightarrow> llm \<Rightarrow> inbound \<Rightarrow> unit svc" where
  "handle_inbound_customer_message gw l ib = bindA (stop_reply gw ib) (\<lambda>stopped. if stopped then ret () else
     bindA (muted ib) (\<lambda>drop. if drop then ret () else
     bindA (get_order_session (ib_tenant_id ib) (ib_customer_phone ib)) (\<lambda>session. case session of
       Some (ConfirmSession oid its tot media) \<Rightarrow> answer_summary gw l ib oid its tot media
     | Some (ClarifySession original asked numbered) \<Rightarrow>
         bindA (answer_clarification l ib original asked numbered) (act_on gw ib session)
     | _ \<Rightarrow> bindA (parse_or_unknown l ib []) (act_on gw ib session))))"

section \<open>What the flows change\<close>

text \<open>The session commands: what they read and write.\<close>

lemma cache_apply [act_simps]:
  "cache_get k w = (Inr (redis_get (clock w) k (redis w)), w)"
  "cache_setex k ttl d w = (Inr (), w\<lparr>redis := redis_setex (clock w) k ttl d (redis w)\<rparr>)"
  "cache_delete k w = (Inr (), w\<lparr>redis := redis_delete k (redis w)\<rparr>)"
  by (simp_all add: session_defs)

context order_relation
begin

lemma moves_cache: "moves R (cache_get k)" "moves R (cache_setex k ttl d)" "moves R (cache_delete k)"
  by (rule moves_same; simp add: cache_apply later_def)+

lemma moves_store:
  "moves R (get_order_session a b)" "moves R (set_order_session a b d)" "moves R (clear_order_session a b)"
  "moves R (get_last_clarification a b)" "moves R (save_last_clarification a b d)"
  "moves R (set_quiet_mode a b)" "moves R (is_quiet_mode a b)" "moves R (set_pending_negotiation a b d)"
  "moves R (get_pending_negotiation a b)" "moves R (clear_pending_negotiation a b)"
  "moves R (get_trader_session a)" "moves R (set_trader_session a d)" "moves R (clear_trader_session a)"
  unfolding get_defs put_defs clear_defs set_quiet_mode_def is_quiet_mode_def by (intro moves_cache moves_bindA moves_ret)+

lemma moves_session_order: "moves R (session_order oid u)"
  unfolding session_order_def by (intro moves_rules)

lemma moves_parse: "moves R (parse_or_unknown l ib ex)"
  by (rule moves_same) (simp add: parse_or_unknown_def smart_parse_def tryA_apply bindA_apply)

lemma moves_docs:
  "moves R m \<Longrightarrow> (\<And>a b c e f g h. moves R (n a b c e f g h)) \<Longrightarrow>
     moves R (case d of NegotiationDoc a b c e f g h \<Rightarrow> n a b c e f g h | _ \<Rightarrow> m)"
  "moves R m \<Longrightarrow> (\<And>a b c. moves R (k a b c)) \<Longrightarrow> moves R (case d of ClarifyContext a b c \<Rightarrow> k a b c | _ \<Rightarrow> m)"
  "moves R m \<Longrightarrow> (\<And>a b c e. moves R (f a b c e)) \<Longrightarrow> (\<And>a b c. moves R (k a b c)) \<Longrightarrow>
     moves R (case d of ConfirmSession a b c e \<Rightarrow> f a b c e | ClarifySession a b c \<Rightarrow> k a b c | _ \<Rightarrow> m)"
  by (cases d; simp)+

lemmas flow_rules = moves_rules moves_store moves_session_order moves_parse moves_docs

end

lemma place_order_eq:
  obtains rows where "place_order ib its tot w = (Inr (create_order_row (uuid_src w (uuid_n w)) (ib_tenant_id ib) (ib_conversation_id ib) None
        (Some (ib_customer_phone ib)) (ib_customer_name ib) (Some (tr_phone_number (ib_trader ib))) (Some (of_int tot)) ''NGN'' (clock w)),
      w\<lparr>uuid_n := Suc (uuid_n w) + length its,
        orders := orders w @ [create_order_row (uuid_src w (uuid_n w)) (ib_tenant_id ib) (ib_conversation_id ib) None
          (Some (ib_customer_phone ib)) (ib_customer_name ib) (Some (tr_phone_number (ib_trader ib))) (Some (of_int tot)) ''NGN'' (clock w)],
        order_items := order_items w @ rows\<rparr>)"
    and "\<forall>i\<in>set rows. oi_order_id i = uuid_src w (uuid_n w)" and "map item_data rows = map (create_data \<circ> as_request) its"
proof -
  let ?x = "create_order_row (uuid_src w (uuid_n w)) (ib_tenant_id ib) (ib_conversation_id ib) None
        (Some (ib_customer_phone ib)) (ib_customer_name ib) (Some (tr_phone_number (ib_trader ib))) (Some (of_int tot)) ''NGN'' (clock w)"
  let ?w = "w\<lparr>uuid_n := Suc (uuid_n w), orders := orders w @ [?x]\<rparr>"
  have id: "o_id ?x = uuid_src w (uuid_n w)" by (simp add: create_order_row_def)
  obtain rows where rows: "add_all_items (o_id ?x) (map as_request its) ?w =
      (Inr (), ?w\<lparr>uuid_n := uuid_n ?w + length (map as_request its), order_items := order_items ?w @ rows\<rparr>)"
    "\<forall>i\<in>set rows. oi_order_id i = o_id ?x" "map item_data rows = map create_data (map as_request its)"
    by (rule add_all_items_eq)
  have "repo_create_order (ib_tenant_id ib) (ib_conversation_id ib) None (Some (ib_customer_phone ib)) (ib_customer_name ib)
      (Some (tr_phone_number (ib_trader ib))) (Some (of_int tot)) ''NGN'' w = (Inr ?x, ?w)"
    by (simp add: repo_create_order_def bindA_apply Let_def)
  with rows show thesis
    by (intro that [of rows]) (simp_all add: place_order_def bindA_apply thenA_apply id)
qed

lemma place_order_flow: "order_flow (ib_tenant_id ib) (place_order ib its tot)"
proof (rule tenant_change.movesI)
  fix w assume "wf_orders w"
  let ?x = "create_order_row (uuid_src w (uuid_n w)) (ib_tenant_id ib) (ib_conversation_id ib) None
        (Some (ib_customer_phone ib)) (ib_customer_name ib) (Some (tr_phone_number (ib_trader ib))) (Some (of_int tot)) ''NGN'' (clock w)"
  show "order_change False (Some (ib_tenant_id ib)) w (snd (place_order ib its tot w))"
  proof (rule place_order_eq [of ib its tot w])
    fix rows assume p: "place_order ib its tot w = (Inr ?x, w\<lparr>uuid_n := Suc (uuid_n w) + length its, orders := orders w @ [?x],
        order_items := order_items w @ rows\<rparr>)" and r: "\<forall>i\<in>set rows. oi_order_id i = uuid_src w (uuid_n w)"
    show ?thesis
      by (rule order_change.created [of _ ?x _ _ _ rows]) (use r in \<open>simp_all add: p create_order_row_def scoped_def\<close>)
  qed
qed

lemma order_at_scope: "order_at w i (Some tid) = Some x \<Longrightarrow> x \<in> set (orders w) \<and> scoped (Some tid) (o_tenant_id x) \<and> o_id x = i"
  by (drule order_at_Some) simp

lemma fail_inquiry_flow: "order_flow tid (fail_inquiry oid tid)"
proof (rule tenant_change.movesI)
  fix w assume wf: "wf_orders w"
  show "order_change False (Some tid) w (snd (fail_inquiry oid tid w))"
  proof (cases oid)
    case (Some i)
    have "snd (thenA m (ret ()) w) = snd (m w)" for m :: "order option svc"
      by (auto simp: thenA_apply split: prod.splits sum.splits)
    then show ?thesis
      by (cases "order_at w i (Some tid)")
        (auto simp: fail_inquiry_def session_order_def Some bindA_apply get_by_id_eq [OF wf]
          intro: change_none_on_conflict change_transition)
  qed (simp add: fail_inquiry_def truthy_str_def)
qed

lemma set_quantity_eq:
  fixes q :: int
  assumes "wf_orders w" and "order_at w i (Some (ib_tenant_id ib)) = Some x" and "o_state x = INQUIRY" and "items_of w i = row # rows"
  defines "a \<equiv> int_of_decimal (oi_unit_price row) * q"
  shows "set_quantity ib (Some i) q its tot w = (Inr (with_quantity q its, a),
     w\<lparr>order_items := update_where (\<lambda>i. i = row) (\<lambda>i. i\<lparr>oi_quantity := q\<rparr>) (order_items w),
       orders := update_where (\<lambda>y. o_id y = i) (\<lambda>x. x\<lparr>o_amount := Some (of_int a)\<rparr>) (orders w)\<rparr>)"
  using order_at_scope [OF assms(2)] assms(2-4)
  by (simp add: set_quantity_def session_order_def bindA_apply get_by_id_eq [OF assms(1)] thenA_apply set_order_def Let_def a_def)

lemma set_quantity_flow: "order_flow (ib_tenant_id ib) (set_quantity ib oid q its tot)"
proof (rule tenant_change.movesI)
  fix w assume wf: "wf_orders w"
  show "order_change False (Some (ib_tenant_id ib)) w (snd (set_quantity ib oid q its tot w))"
  proof (cases "\<exists>i x row rows. oid = Some i \<and> order_at w i (Some (ib_tenant_id ib)) = Some x \<and> o_state x = INQUIRY
      \<and> items_of w i = row # rows")
    case True
    then obtain i x row rows where oid: "oid = Some i" and at: "order_at w i (Some (ib_tenant_id ib)) = Some x"
      and st: "o_state x = INQUIRY" and its: "items_of w i = row # rows" by blast
    have row: "oi_order_id row = i" using its by (metis (mono_tags, lifting) items_of_def filter_eq_ConsD mem_Collect_eq)
    have "filter (\<lambda>j. oi_order_id j \<noteq> i) (update_where (\<lambda>j. j = row) (\<lambda>j. j\<lparr>oi_quantity := q\<rparr>) js)
        = filter (\<lambda>j. oi_order_id j \<noteq> i) js" for js
      using row by (induction js) auto
    with order_at_scope [OF at] st show ?thesis
      unfolding oid set_quantity_eq [OF wf at st its]
      by (intro order_change.edited [where x = x and f = "\<lambda>x. x\<lparr>o_amount := Some (of_int (int_of_decimal (oi_unit_price row) * q))\<rparr>"])
        (simp_all add: keeps_identity_def later_def terminal_def)
  next
    case False
    have "snd (set_quantity ib oid q its tot w) = w"
    proof (cases oid)
      case (Some i)
      with False show ?thesis
        using order_at_scope [of w i "ib_tenant_id ib"]
        by (cases "order_at w i (Some (ib_tenant_id ib))"; cases "items_of w i")
          (auto simp: set_quantity_def session_order_def bindA_apply get_by_id_eq [OF wf])
    qed (simp add: set_quantity_def session_order_def bindA_apply)
    then show ?thesis by simp
  qed
qed


lemma smart_parse_apply: "smart_parse l m c cat conv ex w = (Inr (smart_parse_customer_message l m c cat (ex @ recent_history conv w)), w)"
  by (simp add: smart_parse_def bindA_apply)

lemma parse_or_unknown_apply [act_simps]:
  "parse_or_unknown l ib ex w = (Inr (smart_parse_customer_message l (ib_message ib) (tr_business_category (ib_trader ib))
     (tr_catalogue (ib_trader ib)) (ex @ recent_history (ib_conversation_id ib) w)), w)"
  by (simp add: parse_or_unknown_def tryA_apply smart_parse_apply)

lemmas flow_intros = tenant_change.flow_rules place_order_flow fail_inquiry_flow set_quantity_flow

lemma summary_flow: "order_flow (ib_tenant_id ib) (order_with_summary gw ib n its)"
  unfolding order_with_summary_def Let_def by (intro flow_intros)

lemma cart_flow: "order_flow (ib_tenant_id ib) (handle_cart_order gw ib cart)"
  unfolding handle_cart_order_def Let_def price_missing_def by (intro flow_intros summary_flow)

lemma image_flow: "order_flow (ib_tenant_id ib) (create_image_order gw ib product price media)"
  unfolding create_image_order_def by (intro flow_intros)

lemma negotiation_flow:
  "order_flow tid (counter_round gw ib off oid its tot)" "order_flow tid (start_negotiation gw ib session r)"
  unfolding counter_round_def start_negotiation_def Let_def escalate_offer_def hold_customer_def by (intro flow_intros)+

lemma response_flow: "order_flow t (handle_negotiation_response gw accept cp tp tr mid tid ctid)"
  unfolding handle_negotiation_response_def Let_def by (intro flow_intros)

lemma payment_sent_flow: "order_flow tid (handle_payment_sent gw ib scr)"
  unfolding handle_payment_sent_def Let_def by (intro flow_intros)

lemma confirms_flow: "order_flow tid (customer_confirms gw ib oid its tot media)"
  unfolding customer_confirms_def Let_def by (intro flow_intros)

lemma cancels_flow: "order_flow (ib_tenant_id ib) (customer_cancels gw ib oid its)"
  unfolding customer_cancels_def Let_def by (intro flow_intros)

lemma answer_summary_flow: "order_flow (ib_tenant_id ib) (answer_summary gw l ib oid its tot media)"
  unfolding answer_summary_def Let_def case_prod_beta
  by (intro flow_intros confirms_flow cancels_flow negotiation_flow)

lemma act_on_flow: "order_flow (ib_tenant_id ib) (act_on gw ib session r)"
  unfolding act_on_def ask_back_def order_items_named_def Let_def price_missing_def
  by (intro flow_intros negotiation_flow payment_sent_flow summary_flow)

lemma inbound_flow: "order_flow (ib_tenant_id ib) (handle_inbound_customer_message gw l ib)"
  unfolding handle_inbound_customer_message_def stop_reply_def muted_def answer_clarification_def Let_def
  by (intro flow_intros answer_summary_flow act_on_flow)

section \<open>Placing orders\<close>

text \<open>The row a placed order gets.\<close>

definition new_order :: "inbound \<Rightarrow> int \<Rightarrow> world \<Rightarrow> order" where
  "new_order ib tot w = create_order_row (uuid_src w (uuid_n w)) (ib_tenant_id ib) (ib_conversation_id ib) None
     (Some (ib_customer_phone ib)) (ib_customer_name ib) (Some (tr_phone_number (ib_trader ib))) (Some (of_int tot)) ''NGN'' (clock w)"

lemma new_order_fields [simp]:
  "o_id (new_order ib tot w) = uuid_src w (uuid_n w)" "o_tenant_id (new_order ib tot w) = ib_tenant_id ib"
  "o_state (new_order ib tot w) = INQUIRY" "o_amount (new_order ib tot w) = Some (of_int tot)"
  "o_customer_phone (new_order ib tot w) = Some (ib_customer_phone ib)" "o_trader_phone (new_order ib tot w) = Some (tr_phone_number (ib_trader ib))"
  "o_conversation_id (new_order ib tot w) = ib_conversation_id ib" "o_customer_name (new_order ib tot w) = ib_customer_name ib"
  by (simp_all add: new_order_def create_order_row_def)

text \<open>The database and the session store after an order is placed and its summary shown.\<close>

definition after_order :: "inbound \<Rightarrow> cart_item list \<Rightarrow> order_item list \<Rightarrow> world \<Rightarrow> world" where
  "after_order ib its rows w = (let tot = cart_total its; i = uuid_src w (uuid_n w) in
     w\<lparr>orders := orders w @ [new_order ib tot w], order_items := order_items w @ rows,
       redis := redis_setex (clock w) (session_key (ib_tenant_id ib) (ib_customer_phone ib)) SESSION_TTL
          (ConfirmSession (Some i) its tot None) (redis w)\<rparr>)"

lemma core_redis: "core (w\<lparr>redis := r\<rparr>) = (core w)\<lparr>redis := r\<rparr>"
  by (cases w) (simp add: core_def)

lemma core_tables: "core (w\<lparr>orders := a\<rparr>) = (core w)\<lparr>orders := a\<rparr>" "core (w\<lparr>order_items := b\<rparr>) = (core w)\<lparr>order_items := b\<rparr>"
  "core (w\<lparr>published := c\<rparr>) = (core w)\<lparr>published := c\<rparr>"
  by (cases w; simp add: core_def)+

lemma of_int_sum_list: "of_int (sum_list xs) = sum_list (map of_int xs)"
  by (induction xs) simp_all

lemma items_data_total: "map item_data rows = map (create_data \<circ> as_request) its \<Longrightarrow> rows_sum rows = of_int (cart_total its)"
proof -
  assume "map item_data rows = map (create_data \<circ> as_request) its"
  then have "rows_sum rows = items_sum (map as_request its)" by (intro rows_sum_items) simp
  also have "\<dots> = of_int (cart_total its)"
    by (simp add: items_sum_def cart_total_def as_request_def comp_def of_int_sum_list mult.commute)
  finally show ?thesis .
qed

lemma order_with_summary_spec:
  obtains w' rows where "order_with_summary gw ib name its w = (Inr (), w')" and "core w' = core (after_order ib its rows w)"
    and "\<forall>i\<in>set rows. oi_order_id i = uuid_src w (uuid_n w)" and "map item_data rows = map (create_data \<circ> as_request) its"
    and "uuid_n w < uuid_n w'"
proof (rule place_order_eq [of ib its "cart_total its" w], fold new_order_def)
  fix rows
  let ?x = "new_order ib (cart_total its) w"
  let ?w1 = "w\<lparr>uuid_n := Suc (uuid_n w) + length its, orders := orders w @ [?x], order_items := order_items w @ rows\<rparr>"
  let ?w2 = "?w1\<lparr>redis := redis_setex (clock w) (session_key (ib_tenant_id ib) (ib_customer_phone ib)) SESSION_TTL
      (ConfirmSession (Some (o_id ?x)) its (cart_total its) None) (redis w)\<rparr>"
  assume p: "place_order ib its (cart_total its) w = (Inr ?x, ?w1)"
    and rows: "\<forall>i\<in>set rows. oi_order_id i = uuid_src w (uuid_n w)" "map item_data rows = map (create_data \<circ> as_request) its"
  obtain u w' where r: "reply_interactive gw (ib_customer_phone ib) (ib_tenant_id ib) (name @ ''.'' @ o_id ?x)
          (Template ''order_summary_interactive'' [json_items its, JInt (cart_total its), JStr (tr_business_name (ib_trader ib))])
          summary_buttons (ib_channel_tenant_id ib) None ?w2 = (Inr u, w')" "aside ?w2 w'"
    by (rule quietE [OF reply_interactive_quiet])
  have "order_with_summary gw ib name its w = (Inr (), w')"
    using r(1) by (simp add: order_with_summary_def Let_def bindA_apply thenA_apply p set_order_session_def cache_apply)
  moreover have "core w' = core (after_order ib its rows w)"
    using r(2) by (simp add: aside_def after_order_def Let_def core_redis core_tables)
  moreover have "uuid_n w < uuid_n w'" using r(2) by (simp add: aside_def)
  ultimately show thesis using rows that by blast
qed

text \<open>The line items of a store cart.\<close>

definition cart_items :: "catalogue \<Rightarrow> (string \<times> int) list \<Rightarrow> cart_item list" where
  "cart_items cat cart = map (\<lambda>(n, q). item n q (matched_price cat n)) cart"

lemma cart_items_matched:
  assumes "\<forall>x\<in>set cart. matched_price cat (fst x) \<noteq> None"
  shows "concat (map (\<lambda>(name, qty). case matched_price cat name of Some p \<Rightarrow> [item name qty (Some p)] | None \<Rightarrow> []) cart) = cart_items cat cart"
    and "filter (\<lambda>(name, qty). matched_price cat name = None) cart = []"
  using assms by (induction cart) (auto simp: cart_items_def split: option.splits)

section \<open>Reading a message\<close>

definition listening :: "inbound \<Rightarrow> world \<Rightarrow> bool" where
  "listening ib w \<longleftrightarrow> upper (strip (ib_message ib)) \<noteq> ''STOP''
     \<and> \<not> (redis_get (clock w) (quiet_key (ib_tenant_id ib) (ib_customer_phone ib)) (redis w) \<noteq> None
          \<and> pr_intent (layer1 (ib_message ib)) = UNKNOWN \<and> pr_confidence (layer1 (ib_message ib)) = 0)"

definition session_of :: "inbound \<Rightarrow> world \<Rightarrow> doc option" where
  "session_of ib w = redis_get (clock w) (session_key (ib_tenant_id ib) (ib_customer_phone ib)) (redis w)"

definition understood :: "llm \<Rightarrow> inbound \<Rightarrow> chat_history \<Rightarrow> world \<Rightarrow> parse_result" where
  "understood l ib extra w = smart_parse_customer_message l (ib_message ib) (tr_business_category (ib_trader ib))
     (tr_catalogue (ib_trader ib)) (extra @ recent_history (ib_conversation_id ib) w)"

lemma inbound_listening:
  assumes "listening ib w"
  shows "handle_inbound_customer_message gw l ib w = (case session_of ib w of
       Some (ConfirmSession oid its tot media) \<Rightarrow> answer_summary gw l ib oid its tot media w
     | Some (ClarifySession original asked numbered) \<Rightarrow>
         bindA (answer_clarification l ib original asked numbered) (act_on gw ib (session_of ib w)) w
     | s \<Rightarrow> act_on gw ib s (understood l ib [] w) w)"
proof -
  have s: "stop_reply gw ib w = (Inr False, w)" using assms by (simp add: stop_reply_def listening_def)
  have m: "muted ib w = (Inr False, w)"
    using assms by (auto simp: muted_def listening_def bindA_apply is_quiet_mode_def cache_apply)
  show ?thesis
    unfolding handle_inbound_customer_message_def
    by (simp add: bindA_apply [of "stop_reply gw ib"] s bindA_apply [of "muted ib"] m bindA_apply [of "cache_get k" for k]
        get_order_session_def cache_apply session_of_def understood_def bindA_apply [of "parse_or_unknown l ib x" for x]
        parse_or_unknown_apply split: option.splits doc.splits)
qed

text \<open>A muted message leaves everything as it was.\<close>

lemma inbound_muted:
  assumes "redis_get (clock w) (quiet_key (ib_tenant_id ib) (ib_customer_phone ib)) (redis w) \<noteq> None"
    and "pr_intent (layer1 (ib_message ib)) = UNKNOWN" and "upper (strip (ib_message ib)) \<noteq> ''STOP''"
  shows "handle_inbound_customer_message gw l ib w = (Inr (), w)"
proof -
  have "pr_confidence (layer1 (ib_message ib)) = 0"
    using layer1_shape_holds [of "ib_message ib"] assms(2) by (simp add: layer1_shape_def)
  then show ?thesis
    using assms by (auto simp: handle_inbound_customer_message_def stop_reply_def muted_def bindA_apply is_quiet_mode_def cache_apply)
qed

lemma customer_confirms_spec:
  assumes "wf_orders w" and "order_at w i (Some (ib_tenant_id ib)) = Some x" and "o_state x = INQUIRY"
  obtains w' where "customer_confirms gw ib (Some i) its tot media w = (Inr (), w')"
    and "core w' = core (w\<lparr>redis := redis_setex (clock w) (quiet_key (ib_tenant_id ib) (ib_customer_phone ib)) QUIET_TTL FlagDoc
        (redis_delete (session_key (ib_tenant_id ib) (ib_customer_phone ib)) (redis w))\<rparr>)" and "uuid_n w \<le> uuid_n w'"
proof -
  let ?tid = "ib_tenant_id ib" let ?cp = "ib_customer_phone ib" let ?tp = "tr_phone_number (ib_trader ib)"
  let ?img = "if truthy_str media \<and> ?tp \<noteq> [] then reply_image gw ?tp ?tid (''order.image_notify_trader.'' @ o_id x) (the media)
               (Some (Plain (''Customer +'' @ ?cp @ '' wants to buy this item:''))) (ib_channel_tenant_id ib) else ret None"
  have "quiet ?img" by simp
  then obtain wamid w1 where w1: "?img w = (Inr wamid, w1)" "aside w w1" by (rule quietE)
  let ?note = "reply_interactive gw ?tp ?tid (''order.trader_notify.'' @ o_id x)
               (Template ''order_received_interactive'' [json_items its, JInt tot, JStr ?cp, JStr (take 8 (o_id x)), json_opt (ib_customer_name ib)])
               [(''CONFIRM '' @ take 8 (o_id x), ''Confirm''), (''CANCEL '' @ take 8 (o_id x), ''Decline'')] (ib_channel_tenant_id ib) wamid"
  obtain u w2 where w2: "?note w1 = (Inr u, w2)" "aside w1 w2" by (rule quietE [OF reply_interactive_quiet])
  let ?w3 = "w2\<lparr>redis := redis_delete (session_key ?tid ?cp) (redis w2)\<rparr>"
  let ?ack = "to_customer gw ib (''order.customer_pending.'' @ o_id x) (Template ''order_pending_to_customer'' [JStr (tr_business_name (ib_trader ib))])"
  obtain v w4 where w4: "?ack ?w3 = (Inr v, w4)" "aside ?w3 w4" by (rule quietE [OF reply_quiet])
  let ?w5 = "w4\<lparr>redis := redis_setex (clock w4) (quiet_key ?tid ?cp) QUIET_TTL FlagDoc (redis w4)\<rparr>"
  have r: "redis w2 = redis w" "clock w4 = clock w" "redis w4 = redis_delete (session_key ?tid ?cp) (redis w)"
    using aside_fields [OF aside_trans [OF w1(2) w2(2)]] aside_fields [OF w4(2)] by simp_all
  have run: "customer_confirms gw ib (Some i) its tot media w = (Inr (), ?w5)"
    unfolding customer_confirms_def Let_def session_order_def bindA_apply [of "case Some i of None \<Rightarrow> a | Some i \<Rightarrow> b i" for a b]
    using assms(2,3) w1(1) w2(1) w4(1)
    by (simp add: get_by_id_eq [OF assms(1)] bindA_apply [of ?img] thenA_apply clear_order_session_def set_quiet_mode_def cache_apply)
  have "core w4 = core ?w3" "core w2 = core w" using w1(2) w2(2) w4(2) by (simp_all add: aside_def)
  then have "core ?w5 = core (w\<lparr>redis := redis_setex (clock w) (quiet_key ?tid ?cp) QUIET_TTL FlagDoc (redis_delete (session_key ?tid ?cp) (redis w))\<rparr>)"
    by (simp add: core_redis r)
  moreover have "uuid_n w \<le> uuid_n ?w5" using w1(2) w2(2) w4(2) by (simp add: aside_def)
  ultimately show thesis using run that by blast
qed

end
