(* ===== verification/Customer_Properties.thy ===== *)
theory Customer_Properties
  imports Customer_Flow
begin

text \<open>
  What the conversation with a customer achieves (\<open>src/app/modules/orders/service.py\<close>): answers to an order summary, clarification,
  cancelling and negotiation, each as what it does to the orders and to the session.
\<close>

lemma quiet_session_keys: "quiet_key a b \<noteq> session_key c d"
  by (simp add: quiet_key_def session_key_def)

lemma layer1_YES: "layer1 ''YES'' = result CONFIRM [] 1"
  by code_simp

lemma layer1_NO: "layer1 ''NO'' = result CANCEL [] 1"
  by code_simp

lemma parse_YES: "parse_message l ''YES'' category cat = result CONFIRM [] 1"
  by (simp add: parse_message_def layer1_YES Let_def) (simp add: result_def)

section \<open>Placing an order\<close>

text \<open>
  C7: the store cart. When every product of a cart is in the catalogue, exactly one order is placed: it waits for
  confirmation, its line items are the cart at catalogue prices, and the amount of the order, the sum of its
  line items and the total the customer is asked to confirm agree; apart from messages nothing else changes.
\<close>

theorem cart_order_placed:
  fixes w :: world
  assumes "\<forall>x\<in>set cart. matched_price (tr_catalogue (ib_trader ib)) (fst x) \<noteq> None"
  defines "its \<equiv> cart_items (tr_catalogue (ib_trader ib)) cart"
  defines "tot \<equiv> \<Sum>(n, q)\<leftarrow>cart. q * the (matched_price (tr_catalogue (ib_trader ib)) n)"
  shows "\<exists>rows w'. handle_cart_order gw ib cart w = (Inr (), w')
     \<and> core w' = core (w\<lparr>orders := orders w @ [new_order ib tot w], order_items := order_items w @ rows,
         redis := redis_setex (clock w) (session_key (ib_tenant_id ib) (ib_customer_phone ib)) SESSION_TTL
           (ConfirmSession (Some (uuid_src w (uuid_n w))) its tot None) (redis w)\<rparr>)
     \<and> map item_data rows = map (\<lambda>(n, q). (n, q, of_int (the (matched_price (tr_catalogue (ib_trader ib)) n)))) cart
     \<and> rows_sum rows = of_int tot \<and> (\<forall>r\<in>set rows. oi_order_id r = uuid_src w (uuid_n w))"
proof -
  let ?cat = "tr_catalogue (ib_trader ib)"
  have price: "price_of (item n q (matched_price ?cat n)) = the (matched_price ?cat n)" if "(n, q) \<in> set cart" for n q
    using assms(1) that by (fastforce simp: price_of_def item_def)
  then have tot: "cart_total its = tot" 
    unfolding cart_total_def its_def tot_def cart_items_def
    by (auto simp: comp_def item_def intro!: arg_cong [where f = sum_list] map_cong)
  have data: "map (create_data \<circ> as_request) its = map (\<lambda>(n, q). (n, q, of_int (the (matched_price ?cat n)))) cart"
    using price by (auto simp: its_def cart_items_def create_data_def as_request_def) (simp_all add: item_def)
  have run: "handle_cart_order gw ib cart w = order_with_summary gw ib ''order.cart_summary'' its w"
    by (simp add: handle_cart_order_def Let_def cart_items_matched [OF assms(1)] its_def)
  obtain w' rows where *: "order_with_summary gw ib ''order.cart_summary'' its w = (Inr (), w')" "core w' = core (after_order ib its rows w)"
    "\<forall>i\<in>set rows. oi_order_id i = uuid_src w (uuid_n w)" "map item_data rows = map (create_data \<circ> as_request) its"
    by (rule order_with_summary_spec)
  show ?thesis
    by (intro exI [of _ rows] exI [of _ w'])
      (use * run data items_data_total [OF *(4)] in \<open>simp add: tot after_order_def Let_def\<close>)
qed

lemma fresh_run:
  assumes "listening ib w" and "session_of ib w = None"
    and "pr_intent (understood l ib [] w) = ORDER" and "pr_items (understood l ib [] w) \<noteq> []"
    and "missing_prices (tr_catalogue (ib_trader ib)) (pr_items (understood l ib [] w)) = []"
  shows "handle_inbound_customer_message gw l ib w
     = order_with_summary gw ib ''order.summary'' (map (fill_price (tr_catalogue (ib_trader ib))) (pr_items (understood l ib [] w))) w"
proof -
  have "handle_inbound_customer_message gw l ib w = order_items_named gw ib (pr_items (understood l ib [] w)) w"
    unfolding inbound_listening [OF assms(1)] using assms(2-4) by (simp add: act_on_def)
  with assms(5) show ?thesis by (simp add: order_items_named_def Let_def)
qed

text \<open>
  C6: a fresh order. For a customer without a session whose message is understood as an order of products that
  all have a price, of their own or in the catalogue, exactly one order is placed, with the amount of its line items,
  and the customer is asked to confirm exactly these items and this total.
\<close>

theorem fresh_order_placed:
  fixes w :: world
  assumes "listening ib w" and "session_of ib w = None"
    and "pr_intent (understood l ib [] w) = ORDER" and "pr_items (understood l ib [] w) \<noteq> []"
    and "missing_prices (tr_catalogue (ib_trader ib)) (pr_items (understood l ib [] w)) = []"
  defines "its \<equiv> map (fill_price (tr_catalogue (ib_trader ib))) (pr_items (understood l ib [] w))"
  shows "\<exists>rows w'. handle_inbound_customer_message gw l ib w = (Inr (), w')
     \<and> core w' = core (w\<lparr>orders := orders w @ [new_order ib (cart_total its) w], order_items := order_items w @ rows,
         redis := redis_setex (clock w) (session_key (ib_tenant_id ib) (ib_customer_phone ib)) SESSION_TTL
           (ConfirmSession (Some (uuid_src w (uuid_n w))) its (cart_total its) None) (redis w)\<rparr>)
     \<and> rows_sum rows = of_int (cart_total its) \<and> map oi_product_name rows = map it_name (pr_items (understood l ib [] w))
     \<and> (\<forall>it\<in>set its. it_unit_price it \<noteq> None)"
proof -
  let ?r = "understood l ib [] w"
  have run: "handle_inbound_customer_message gw l ib w = order_with_summary gw ib ''order.summary'' its w"
    unfolding its_def by (rule fresh_run [OF assms(1-5)])
  obtain w' rows where *: "order_with_summary gw ib ''order.summary'' its w = (Inr (), w')" "core w' = core (after_order ib its rows w)"
    "map item_data rows = map (create_data \<circ> as_request) its"
    by (rule order_with_summary_spec)
  have "map oi_product_name rows = map fst (map item_data rows)" by (simp add: item_data_def comp_def)
  also have "\<dots> = map it_name its" unfolding *(3) by (simp add: create_data_def as_request_def)
  also have "\<dots> = map it_name (pr_items ?r)" by (simp add: its_def fill_price_def split: option.splits)
  finally have names: "map oi_product_name rows = map it_name (pr_items ?r)" .
  have "\<forall>it\<in>set its. it_unit_price it \<noteq> None"
    using assms(5) by (auto simp: its_def missing_prices_def fill_price_def unpriced_def filter_empty_conv split: option.splits)
  with * run names items_data_total [OF *(3)] show ?thesis
    by (intro exI [of _ rows] exI [of _ w']) (simp add: after_order_def Let_def)
qed

section \<open>Answering a summary\<close>

lemma session_after_yes:
  assumes "core w' = core (w\<lparr>redis := redis_setex (clock w) (quiet_key (ib_tenant_id ib) (ib_customer_phone ib)) QUIET_TTL FlagDoc
        (redis_delete (session_key (ib_tenant_id ib) (ib_customer_phone ib)) (redis w))\<rparr>)"
  shows "session_of ib w' = None"
  using core_fields [OF assms]
  by (simp add: session_of_def redis_get_setex redis_get_delete quiet_session_keys [symmetric] QUIET_TTL_def second_def)

lemma yes_run:
  fixes w :: world
  assumes "wf_orders w" and "listening ib w" and "session_of ib w = Some (ConfirmSession (Some i) its tot media)"
    and "order_at w i (Some (ib_tenant_id ib)) = Some x" and "o_state x = INQUIRY" and "chosen_quantity (ib_message ib) = None"
    and "pr_intent (parse_message l (ib_message ib) (tr_business_category (ib_trader ib)) (tr_catalogue (ib_trader ib))) = CONFIRM"
  obtains w' where "handle_inbound_customer_message gw l ib w = (Inr (), w')"
    and "core w' = core (w\<lparr>redis := redis_setex (clock w) (quiet_key (ib_tenant_id ib) (ib_customer_phone ib)) QUIET_TTL FlagDoc
        (redis_delete (session_key (ib_tenant_id ib) (ib_customer_phone ib)) (redis w))\<rparr>)"
proof (rule customer_confirms_spec [OF assms(1,4,5)])
  fix w' assume "customer_confirms gw ib (Some i) its tot media w = (Inr (), w')"
    and "core w' = core (w\<lparr>redis := redis_setex (clock w) (quiet_key (ib_tenant_id ib) (ib_customer_phone ib)) QUIET_TTL FlagDoc
        (redis_delete (session_key (ib_tenant_id ib) (ib_customer_phone ib)) (redis w))\<rparr>)"
  moreover have "handle_inbound_customer_message gw l ib w = customer_confirms gw ib (Some i) its tot media w"
    unfolding inbound_listening [OF assms(2)] using assms(3,6,7) by (simp add: answer_summary_def Let_def bindA_apply)
  ultimately show thesis using that by simp
qed

text \<open>
  Confirming. A customer who answers YES to a summary leaves the order an inquiry, to be confirmed by the trader:
  the database keeps every order and line item, the session ends and quiet mode begins.
\<close>

theorem yes_leaves_inquiry:
  fixes w :: world
  assumes "wf_orders w" and "listening ib w" and "session_of ib w = Some (ConfirmSession (Some i) its tot media)"
    and "order_at w i (Some (ib_tenant_id ib)) = Some x" and "o_state x = INQUIRY" and "chosen_quantity (ib_message ib) = None"
    and "pr_intent (parse_message l (ib_message ib) (tr_business_category (ib_trader ib)) (tr_catalogue (ib_trader ib))) = CONFIRM"
  shows "\<exists>w'. handle_inbound_customer_message gw l ib w = (Inr (), w') \<and> orders w' = orders w \<and> order_items w' = order_items w
     \<and> published w' = published w \<and> session_of ib w' = None
     \<and> redis_get (clock w') (quiet_key (ib_tenant_id ib) (ib_customer_phone ib)) (redis w') \<noteq> None"
proof -
  obtain w' where w': "handle_inbound_customer_message gw l ib w = (Inr (), w')"
    "core w' = core (w\<lparr>redis := redis_setex (clock w) (quiet_key (ib_tenant_id ib) (ib_customer_phone ib)) QUIET_TTL FlagDoc
        (redis_delete (session_key (ib_tenant_id ib) (ib_customer_phone ib)) (redis w))\<rparr>)"
    by (rule yes_run [OF assms])
  then show ?thesis
    using core_fields [OF w'(2)] session_after_yes [OF w'(2)]
    by (intro exI [of _ w']) (simp add: redis_get_setex QUIET_TTL_def second_def)
qed

lemma rows_sum_Cons: "rows_sum (r # rs) = oi_unit_price r * of_int (oi_quantity r) + rows_sum rs"
  by (simp add: rows_sum_def)

lemma update_where_id: "x \<notin> set xs \<Longrightarrow> update_where (\<lambda>i. i = x) f xs = xs"
  by (rule update_where_none) auto

lemma items_of_update_quantity:
  assumes "items_of w i = row # rows" and "distinct (items_of w i)"
  shows "items_of (w\<lparr>order_items := update_where (\<lambda>j. j = row) (\<lambda>j. j\<lparr>oi_quantity := q\<rparr>) (order_items w), orders := os\<rparr>) i
     = row\<lparr>oi_quantity := q\<rparr> # rows"
proof -
  have "filter (\<lambda>it. oi_order_id it = i) (update_where (\<lambda>j. j = row) (\<lambda>j. j\<lparr>oi_quantity := q\<rparr>) js)
      = update_where (\<lambda>j. j = row) (\<lambda>j. j\<lparr>oi_quantity := q\<rparr>) (filter (\<lambda>it. oi_order_id it = i) js)" for js
    by (induction js) auto
  then show ?thesis using assms by (simp add: items_of_def update_where_id)
qed

text \<open>
  Choosing a quantity. The amount of the order becomes the price of its first line item times the quantity, while
  the other line items stay: the line items add up to more than the amount by exactly what the others cost.
\<close>

theorem quantity_drops_other_items:
  fixes w :: world and q :: int
  assumes "wf_orders w" and "listening ib w" and "session_of ib w = Some (ConfirmSession (Some i) its tot media)"
    and "order_at w i (Some (ib_tenant_id ib)) = Some x" and "o_state x = INQUIRY" and "chosen_quantity (ib_message ib) = Some q"
    and "items_of w i = row # rows" and "distinct (items_of w i)" and "oi_unit_price row = of_int p"
  shows "\<exists>w'. handle_inbound_customer_message gw l ib w = (Inr (), w')
     \<and> order_at w' i (Some (ib_tenant_id ib)) = Some (x\<lparr>o_amount := Some (of_int (p * max 1 q))\<rparr>)
     \<and> items_of w' i = row\<lparr>oi_quantity := max 1 q\<rparr> # rows
     \<and> rows_sum (items_of w' i) = of_int (p * max 1 q) + rows_sum rows"
proof -
  let ?q = "max 1 q" let ?f = "\<lambda>y. y\<lparr>o_amount := Some (of_int (p * ?q))\<rparr>"
  let ?w1 = "w\<lparr>order_items := update_where (\<lambda>j. j = row) (\<lambda>j. j\<lparr>oi_quantity := ?q\<rparr>) (order_items w),
     orders := update_where (\<lambda>y. o_id y = i) ?f (orders w)\<rparr>"
  have q: "(if q < 1 then 1 else q) = ?q" by simp
  have sq: "set_quantity ib (Some i) ?q its tot w = (Inr (with_quantity ?q its, p * ?q), ?w1)"
    using set_quantity_eq [OF assms(1,4,5,7)] by (simp add: assms(9))
  have "(order_change False (Some (ib_tenant_id ib)))\<^sup>*\<^sup>* w ?w1"
    using set_quantity_flow [of ib "Some i" ?q its tot] assms(1) sq unfolding moves_def by (metis snd_conv)
  then have wf1: "wf_orders ?w1" using assms(1) by (rule tenant_change.steps_wf)
  have at1: "order_at ?w1 i (Some (ib_tenant_id ib)) = Some (?f x)"
    unfolding order_at_iff [OF wf1] using order_at_Some [OF assms(4)] by (auto simp: set_update_where image_iff)
  have run: "handle_inbound_customer_message gw l ib w = customer_confirms gw ib (Some i) (with_quantity ?q its) (p * ?q) media ?w1"
    unfolding inbound_listening [OF assms(2)] using assms(3,6)
    by (simp add: answer_summary_def Let_def bindA_apply q sq parse_YES) (simp add: result_def)
  obtain w' where w': "customer_confirms gw ib (Some i) (with_quantity ?q its) (p * ?q) media ?w1 = (Inr (), w')"
    "core w' = core (?w1\<lparr>redis := redis_setex (clock ?w1) (quiet_key (ib_tenant_id ib) (ib_customer_phone ib)) QUIET_TTL FlagDoc
        (redis_delete (session_key (ib_tenant_id ib) (ib_customer_phone ib)) (redis ?w1))\<rparr>)"
    by (rule customer_confirms_spec [OF wf1 at1]) (use assms(5) in simp)
  have tables: "orders w' = orders ?w1" "order_items w' = order_items ?w1" using core_fields [OF w'(2)] by simp_all
  have items: "items_of w' i = row\<lparr>oi_quantity := ?q\<rparr> # rows"
    using items_of_update_quantity [OF assms(7,8), where q = ?q] by (simp add: items_of_def tables)
  moreover have "order_at w' i (Some (ib_tenant_id ib)) = Some (?f x)" using at1 by (simp add: order_at_def tables)
  ultimately show ?thesis
    using run w'(1) by (intro exI [of _ w']) (simp add: rows_sum_Cons assms(9))
qed

section \<open>Clarification\<close>

text \<open>
  A refusal during a clarification. A customer who was asked a question and answers NO (or YES) gets an order:
  without line items, with amount zero, and a summary of it to confirm.
\<close>

theorem refusal_places_empty_order:
  fixes w :: world
  assumes "listening ib w" and "session_of ib w = Some (ClarifySession original asked numbered)"
    and "layer1 (ib_message ib) = result CANCEL [] 1 \<or> layer1 (ib_message ib) = result CONFIRM [] 1"
    and "re_match PICK_RE (strip (ib_message ib)) = None"
  shows "\<exists>w'. handle_inbound_customer_message gw l ib w = (Inr (), w') \<and> orders w' = orders w @ [new_order ib 0 w]
     \<and> items_of w' (uuid_src w (uuid_n w)) = items_of w (uuid_src w (uuid_n w))
     \<and> session_of ib w' = Some (ConfirmSession (Some (uuid_src w (uuid_n w))) [] 0 None)"
proof -
  let ?w1 = "w\<lparr>redis := redis_delete (session_key (ib_tenant_id ib) (ib_customer_phone ib)) (redis w)\<rparr>"
  obtain c where l1: "layer1 (ib_message ib) = result c [] 1" and c: "c = CANCEL \<or> c = CONFIRM" using assms(3) by blast
  have r: "smart_parse_customer_message l (ib_message ib) a b h = result c [] 1" for a b h
    using c by (auto simp: smart_parse_customer_message_def l1 Let_def) (simp_all add: result_def)
  have ans: "answer_clarification l ib original asked numbered w = (Inr (result c [] 1), ?w1)"
    by (simp add: answer_clarification_def Let_def assms(4) bindA_apply thenA_apply parse_or_unknown_apply r clear_order_session_def cache_apply)
  have "handle_inbound_customer_message gw l ib w = act_on gw ib (session_of ib w) (result c [] 1) ?w1"
    unfolding inbound_listening [OF assms(1)] by (simp add: assms(2) bindA_apply ans)
  also have "\<dots> = order_with_summary gw ib ''order.summary'' [] ?w1"
    using c assms(2) by (auto simp: act_on_def result_def order_items_named_def Let_def missing_prices_def)
  finally have run: "handle_inbound_customer_message gw l ib w = order_with_summary gw ib ''order.summary'' [] ?w1" .
  obtain w' rows where *: "order_with_summary gw ib ''order.summary'' [] ?w1 = (Inr (), w')" "core w' = core (after_order ib [] rows ?w1)"
    "map item_data rows = map (create_data \<circ> as_request) []"
    by (rule order_with_summary_spec)
  then have w': "core w' = core (?w1\<lparr>orders := orders w @ [new_order ib 0 w], order_items := order_items w @ [],
      redis := redis_setex (clock w) (session_key (ib_tenant_id ib) (ib_customer_phone ib)) SESSION_TTL
          (ConfirmSession (Some (uuid_src w (uuid_n w))) [] 0 None) (redis ?w1)\<rparr>)"
    by (simp add: after_order_def Let_def cart_total_def new_order_def)
  show ?thesis
    using run * core_fields [OF w'] by (intro exI [of _ w']) (simp add: items_of_def session_of_def redis_get_setex SESSION_TTL_def second_def)
qed

lemma negotiation_session_keys: "negotiation_key a b \<noteq> session_key c d" "session_key c d \<noteq> negotiation_key a b"
  by (simp_all add: negotiation_key_def session_key_def)

lemma accept_spec:
  assumes "redis_get (clock w) (negotiation_key tp cp) (redis w) = Some (NegotiationDoc offered original product its oid ntid nctid)"
    and "offered \<noteq> 0"
  obtains w' where "handle_negotiation_response gw True cp tp tr mid tid ctid w = (Inr (), w')"
    and "core w' = core (w\<lparr>redis := redis_setex (clock w) (session_key ntid cp) SESSION_TTL
        (ConfirmSession oid (with_price offered its) offered None) (redis_delete (negotiation_key tp cp) (redis w))\<rparr>)"
    and "uuid_n w \<le> uuid_n w'"
proof -
  let ?ctid = "if nctid \<noteq> [] then Some nctid else ctid"
  let ?w1 = "w\<lparr>redis := redis_setex (clock w) (session_key ntid cp) SESSION_TTL
        (ConfirmSession oid (with_price offered its) offered None) (redis_delete (negotiation_key tp cp) (redis w))\<rparr>"
  let ?m = "thenA (reply gw cp ntid (''order.neg_accepted.'' @ mid)
                 (Template ''negotiation_accepted_to_customer'' [JStr (tr_business_name tr), JInt offered]) ?ctid)
               (reply gw tp tid (''order.neg_accepted_trader.'' @ mid)
                 (Plain (''You accepted '' @ naira_amount offered @ ''. Waiting for customer to confirm.'')) ctid)"
  have "quiet ?m" by (rule quiet_thenA) simp_all
  then obtain u w' where w': "?m ?w1 = (Inr u, w')" "aside ?w1 w'" by (rule quietE)
  have "handle_negotiation_response gw True cp tp tr mid tid ctid w = (Inr (), w')"
    unfolding handle_negotiation_response_def using assms w'(1)
    by (simp add: bindA_apply [of "get_pending_negotiation a b" for a b] get_pending_negotiation_def bindA_apply [of "cache_get k" for k]
        cache_apply Let_def thenA_apply [of "clear_pending_negotiation a b" for a b] thenA_apply [of "set_order_session a b c" for a b c]
        clear_pending_negotiation_def set_order_session_def thenA_apply [of "cache_delete k" for k] thenA_apply [of "cache_setex k a b" for k a b])
  with w'(2) show thesis using that by (simp add: aside_def)
qed

lemma layer1_not_unknown: "layer1 m = result i xs c \<Longrightarrow> i \<noteq> UNKNOWN \<Longrightarrow> upper (strip m) \<noteq> ''STOP'' \<Longrightarrow> ib_message ib = m \<Longrightarrow> listening ib w"
  by (simp add: listening_def result_def)

lemma listening_YES: "ib_message ib = ''YES'' \<Longrightarrow> listening ib w"
  by (rule layer1_not_unknown [OF layer1_YES]) (simp_all, code_simp)

lemma chosen_YES: "chosen_quantity ''YES'' = None"
  by code_simp

text \<open>
  An accepted offer never reaches the order. When the trader accepts the customer's price, the customer is asked to
  confirm that price; after YES the order is exactly what it was, its amount included, and the session with the
  agreed price is gone.
\<close>

theorem negotiated_price_not_charged:
  fixes w :: world and gw :: gateway and l :: llm and ib :: inbound and tr :: trader and mid :: string and ctid :: "string option"
  defines "tp \<equiv> tr_phone_number (ib_trader ib)"
  assumes "wf_orders w" and "redis_get (clock w) (negotiation_key tp (ib_customer_phone ib)) (redis w)
       = Some (NegotiationDoc offered original product its (Some i) (ib_tenant_id ib) nctid)"
    and "offered \<noteq> 0" and "order_at w i (Some (ib_tenant_id ib)) = Some x" and "o_state x = INQUIRY" and "ib_message ib = ''YES''"
  defines "w1 \<equiv> exec (handle_negotiation_response gw True (ib_customer_phone ib) tp tr mid (ib_tenant_id ib) ctid) w"
  defines "w2 \<equiv> exec (handle_inbound_customer_message gw l ib) w1"
  shows "session_of ib w1 = Some (ConfirmSession (Some i) (with_price offered its) offered None)
     \<and> session_of ib w2 = None \<and> order_at w2 i (Some (ib_tenant_id ib)) = Some x"
proof -
  obtain v where v: "handle_negotiation_response gw True (ib_customer_phone ib) tp tr mid (ib_tenant_id ib) ctid w = (Inr (), v)"
    "core v = core (w\<lparr>redis := redis_setex (clock w) (session_key (ib_tenant_id ib) (ib_customer_phone ib)) SESSION_TTL
        (ConfirmSession (Some i) (with_price offered its) offered None) (redis_delete (negotiation_key tp (ib_customer_phone ib)) (redis w))\<rparr>)"
    by (rule accept_spec [OF assms(3,4)])
  then have w1: "w1 = v" by (simp add: w1_def exec_def)
  have s1: "session_of ib w1 = Some (ConfirmSession (Some i) (with_price offered its) offered None)"
    using core_fields [OF v(2)] by (simp add: session_of_def w1 redis_get_setex SESSION_TTL_def second_def)
  have wf1: "wf_orders w1" unfolding w1_def by (rule tenant_change.moves_wf [OF response_flow assms(2)])
  have at1: "order_at w1 i (Some (ib_tenant_id ib)) = Some x"
    using core_fields [OF v(2)] assms(5) by (simp add: order_at_def w1)
  have c: "pr_intent (parse_message l (ib_message ib) (tr_business_category (ib_trader ib)) (tr_catalogue (ib_trader ib))) = CONFIRM"
    by (simp add: assms(7) parse_YES) (simp add: result_def)
  have q: "chosen_quantity (ib_message ib) = None" by (simp add: assms(7) chosen_YES)
  obtain w' where w': "handle_inbound_customer_message gw l ib w1 = (Inr (), w')"
    "core w' = core (w1\<lparr>redis := redis_setex (clock w1) (quiet_key (ib_tenant_id ib) (ib_customer_phone ib)) QUIET_TTL FlagDoc
        (redis_delete (session_key (ib_tenant_id ib) (ib_customer_phone ib)) (redis w1))\<rparr>)"
    by (rule yes_run [OF wf1 listening_YES [OF assms(7)] s1 at1 assms(6) q c])
  then have "w2 = w'" by (simp add: w2_def exec_def)
  with core_fields(1) [OF w'(2)] session_after_yes [OF w'(2)] s1 at1 show ?thesis by (simp add: order_at_def)
qed

lemma recent_history_length: "length (recent_history conv w) = min 5 (length (filter (\<lambda>m. m_conversation_id m = conv) (messages w)))"
  by (simp add: recent_history_def min.commute)

text \<open>
  The question is forgotten. When the conversation already has five stored messages, the answer to a clarification
  is understood exactly as if nothing had been asked: the question never reaches the language model.
\<close>

theorem clarification_context_lost:
  fixes w :: world
  assumes "5 \<le> length (filter (\<lambda>m. m_conversation_id m = ib_conversation_id ib) (messages w))"
  shows "parse_or_unknown l ib (clarification_history original asked) w = parse_or_unknown l ib [] w"
proof -
  have "length (recent_history (ib_conversation_id ib) w) = 5" using assms by (simp add: recent_history_length)
  then have "history_lines (h @ recent_history (ib_conversation_id ib) w) = history_lines (recent_history (ib_conversation_id ib) w)" for h
    by (simp add: history_lines_def)
  then show ?thesis by (simp add: parse_or_unknown_apply smart_parse_customer_message_def Let_def)
qed

section \<open>Cancelling\<close>

lemma fail_inquiry_eq:
  assumes "wf_orders w" and "order_at w i (Some tid) = Some x" and "o_state x = INQUIRY" and "i \<noteq> []"
  shows "fail_inquiry (Some i) tid w = (Inr (), exec (transition_order x FAILED) w)"
  using assms(2-4)
  by (simp add: fail_inquiry_def truthy_str_def session_order_def bindA_apply get_by_id_eq [OF assms(1)] thenA_apply none_on_conflict_def
      tryA_apply transition_order_eq exec_def transition_iffs)

fun repick :: "doc option \<Rightarrow> doc option" where
  "repick (Some (ClarifyContext original asked numbered)) = (if numbered \<noteq> [] then Some (ClarifySession original asked numbered) else None)"
| "repick _ = None"

definition set_session :: "inbound \<Rightarrow> doc option \<Rightarrow> world \<Rightarrow> world" where
  "set_session ib d w = w\<lparr>redis := (case d of None \<Rightarrow> redis_delete (session_key (ib_tenant_id ib) (ib_customer_phone ib)) (redis w)
     | Some s \<Rightarrow> redis_setex (clock w) (session_key (ib_tenant_id ib) (ib_customer_phone ib)) SESSION_TTL s (redis w))\<rparr>"

lemma session_of_set [simp]: "session_of ib (set_session ib d w) = d"
  by (simp add: session_of_def set_session_def redis_get_setex redis_get_delete SESSION_TTL_def second_def split: option.splits)

lemma customer_cancels_spec:
  assumes "fail_inquiry oid (ib_tenant_id ib) w = (Inr (), w1)"
  obtains w' where "customer_cancels gw ib oid its w = (Inr (), w')"
    and "core w' = core (set_session ib (repick (redis_get (clock w1) (last_clarify_key (ib_tenant_id ib) (ib_customer_phone ib)) (redis w1))) w1)"
    and "uuid_n w1 \<le> uuid_n w'"
proof -
  let ?last = "redis_get (clock w1) (last_clarify_key (ib_tenant_id ib) (ib_customer_phone ib)) (redis w1)"
  let ?w2 = "set_session ib (repick ?last) w1"
  define eid where "eid = (if repick ?last = None then event_of ''order.customer_cancel'' ib else event_of ''order.cancel_repick'' ib)"
  define msg where "msg = (if repick ?last = None then Template ''order_cancelled_to_customer'' [JStr (tr_business_name (ib_trader ib))]
    else Plain (''No problem, that order has been cancelled.'' @ [CHR 0x0A, CHR 0x0A]
                  @ ''You can pick a different option from the list above, or tell me what else you'' @ [CHR 0x27] @ ''d like to order.''))"
  define log where "log = (case its of [] \<Rightarrow> ret ()
        | it # _ \<Rightarrow> log_interest_event (ib_tenant_id ib) (tr_phone_number (ib_trader ib)) (ib_customer_phone ib) (ib_customer_name ib)
            (it_name it) (it_unit_price it) ORDER_CANCELLED)"
  have "quiet (thenA (to_customer gw ib eid msg) log)" by (rule quiet_thenA) (simp_all add: log_def split: list.splits)
  then obtain u w' where w': "thenA (to_customer gw ib eid msg) log ?w2 = (Inr u, w')" "aside ?w2 w'" by (rule quietE)
  have "customer_cancels gw ib oid its w = thenA (to_customer gw ib eid msg) log ?w2"
    unfolding customer_cancels_def Let_def thenA_apply [of "fail_inquiry oid (ib_tenant_id ib)"] assms prod.case sum.case log_def [symmetric]
    by (cases ?last rule: repick.cases)
      (simp_all add: thenA_apply bindA_apply get_last_clarification_def cache_apply set_order_session_def clear_order_session_def
        set_session_def eid_def msg_def)
  moreover have "uuid_n ?w2 = uuid_n w1" by (simp add: set_session_def)
  ultimately show thesis using w' that by (simp add: aside_def)
qed

text \<open>
  Cancelling. A customer who answers NO to a summary of an inquiry fails the order, with one event for the change
  of state, and no other order changes. The session goes back to the last clarification that offered a list, if there
  is one, and ends otherwise.
\<close>

theorem no_fails_order:
  fixes w :: world
  assumes "wf_orders w" and "listening ib w" and "session_of ib w = Some (ConfirmSession (Some i) its tot media)" and "i \<noteq> []"
    and "order_at w i (Some (ib_tenant_id ib)) = Some x" and "o_state x = INQUIRY" and "chosen_quantity (ib_message ib) = None"
    and "pr_intent (parse_message l (ib_message ib) (tr_business_category (ib_trader ib)) (tr_catalogue (ib_trader ib))) = CANCEL"
  shows "\<exists>w' e. handle_inbound_customer_message gw l ib w = (Inr (), w')
     \<and> orders w' = update_where (\<lambda>y. o_id y = i) (\<lambda>y. y\<lparr>o_state := FAILED\<rparr>) (orders w) \<and> order_items w' = order_items w
     \<and> published w' = published w @ [e] \<and> ev_event_name e = ''order.state_changed'' \<and> ev_payload e = state_changed_payload x FAILED
     \<and> session_of ib w' = repick (redis_get (clock w) (last_clarify_key (ib_tenant_id ib) (ib_customer_phone ib)) (redis w))"
proof -
  let ?w1 = "exec (transition_order x FAILED) w"
  let ?e = "\<lparr>ev_event_name = ''order.state_changed'', ev_tenant_id = o_tenant_id x, ev_payload = state_changed_payload x FAILED,
        ev_event_id = uuid_src w (uuid_n w), ev_timestamp = clock w\<rparr>"
  have id: "o_id x = i" using order_at_Some [OF assms(5)] by simp
  have w1: "orders ?w1 = update_where (\<lambda>y. o_id y = i) (\<lambda>y. y\<lparr>o_state := FAILED\<rparr>) (orders w)" "order_items ?w1 = order_items w"
    "redis ?w1 = redis w" "clock ?w1 = clock w"
    "published ?w1 = published w @ [?e]"
    using assms(6) id by (simp_all add: exec_def transition_order_eq transition_iffs)
  have run: "handle_inbound_customer_message gw l ib w = customer_cancels gw ib (Some i) its w"
    unfolding inbound_listening [OF assms(2)] using assms(3,7,8) by (simp add: answer_summary_def Let_def bindA_apply)
  obtain w' where w': "customer_cancels gw ib (Some i) its w = (Inr (), w')"
    "core w' = core (set_session ib (repick (redis_get (clock ?w1) (last_clarify_key (ib_tenant_id ib) (ib_customer_phone ib)) (redis ?w1))) ?w1)"
    by (rule customer_cancels_spec [OF fail_inquiry_eq [OF assms(1,5,6,4)]])
  note f = core_fields [OF w'(2)]
  have "session_of ib w' = repick (redis_get (clock w) (last_clarify_key (ib_tenant_id ib) (ib_customer_phone ib)) (redis w))"
    using session_of_set [of ib "repick (redis_get (clock ?w1) (last_clarify_key (ib_tenant_id ib) (ib_customer_phone ib)) (redis ?w1))" ?w1]
    by (simp only: session_of_def f w1)
  with run w'(1) f w1 show ?thesis by (intro exI [of _ w'] exI [of _ ?e]) (simp add: set_session_def)
qed

section \<open>Examples\<close>

definition shop_trader :: trader where
  "shop_trader = \<lparr>tr_business_name = ''Ade'', tr_business_category = ''provisions'', tr_catalogue = [(''Milo'', 3500), (''Rice'', 63000)],
     tr_phone_number = ''080'', tr_tenant_id = ''t1'', tr_store_slug = ''ade'', tr_bank_name = [], tr_bank_account_number = [], tr_bank_account_name = []\<rparr>"

definition chat :: "string \<Rightarrow> inbound" where
  "chat msg = \<lparr>ib_tenant_id = ''t1'', ib_conversation_id = ''c1'', ib_customer_phone = ''234'', ib_message = msg, ib_message_id = ''m1'',
     ib_trader = shop_trader, ib_channel_tenant_id = None, ib_customer_name = None\<rparr>"

lemma chat_fields [simp]: "ib_tenant_id (chat m) = ''t1''" "ib_conversation_id (chat m) = ''c1''" "ib_customer_phone (chat m) = ''234''"
  "ib_message (chat m) = m" "ib_message_id (chat m) = ''m1''" "ib_trader (chat m) = shop_trader" "ib_channel_tenant_id (chat m) = None"
  "ib_customer_name (chat m) = None"
  by (simp_all add: chat_def)

definition no_llm :: llm where
  "no_llm = \<lparr>llm_api_key = False, llm_parse = (\<lambda>_ _ _. None), llm_smart = (\<lambda>_ _ _ _. None)\<rparr>"

text \<open>An order of two products in a state, and a session of its customer.\<close>

definition shop_rows :: "order_item list" where
  "shop_rows = [\<lparr>oi_id = ''i1'', oi_order_id = ''o1'', oi_product_name = ''Milo'', oi_quantity = 1, oi_unit_price = 3500\<rparr>,
     \<lparr>oi_id = ''i2'', oi_order_id = ''o1'', oi_product_name = ''Rice'', oi_quantity = 2, oi_unit_price = 63000\<rparr>]"

definition shop_cart :: "cart_item list" where
  "shop_cart = [item ''Milo'' 1 (Some 3500), item ''Rice'' 2 (Some 63000)]"

definition shop :: "doc \<Rightarrow> world" where
  "shop d = (one_order INQUIRY)\<lparr>order_items := shop_rows,
     redis := redis_setex 0 (session_key ''t1'' ''234'') SESSION_TTL d empty_redis\<rparr>"

definition pending_summary :: doc where
  "pending_summary = ConfirmSession (Some ''o1'') shop_cart 129500 None"

lemma shop_wf: "wf_orders (shop d)"
  by (rule wf_orders_example) (simp_all add: shop_def one_order_def create_order_row_def empty_world_def shop_rows_def)

lemma shop_session: "session_of (chat m) (shop d) = Some d"
  by (simp add: session_of_def shop_def one_order_def empty_world_def redis_get_setex SESSION_TTL_def second_def)

lemma pending_session: "session_of (chat m) (shop pending_summary) = Some (ConfirmSession (Some ''o1'') shop_cart 129500 None)"
  using shop_session [of m pending_summary] by (simp add: pending_summary_def)

lemma shop_order: "order_at (shop d) ''o1'' (Some (ib_tenant_id (chat m))) = Some (orders (shop d) ! 0)" "o_state (orders (shop d) ! 0) = INQUIRY"
  by (simp_all add: order_at_def shop_def one_order_def create_order_row_def scoped_def)

theorem cart_order_placed_witness:
  "\<exists>rows w'. handle_cart_order open_gateway (chat []) [(''milo'', 2), (''Rice'', 1)] empty_world = (Inr (), w') \<and> rows_sum rows = 70000
     \<and> order_items w' = rows"
proof -
  have m: "matched_price (tr_catalogue shop_trader) ''milo'' = Some 3500" "matched_price (tr_catalogue shop_trader) ''Rice'' = Some 63000"
    by code_simp+
  have "\<forall>x\<in>set [(''milo'', 2), (''Rice'', 1 :: int)]. matched_price (tr_catalogue (ib_trader (chat []))) (fst x) \<noteq> None"
    by (simp add: m)
  from cart_order_placed [OF this, of open_gateway empty_world] obtain rows w' where
    *: "handle_cart_order open_gateway (chat []) [(''milo'', 2), (''Rice'', 1)] empty_world = (Inr (), w')" "rows_sum rows = 70000"
    and c: "core w' = core (empty_world\<lparr>orders := orders empty_world @ [new_order (chat []) 70000 empty_world], order_items := order_items empty_world @ rows,
         redis := redis_setex (clock empty_world) (session_key ''t1'' ''234'') SESSION_TTL
           (ConfirmSession (Some (uuid_src empty_world (uuid_n empty_world))) (cart_items (tr_catalogue shop_trader) [(''milo'', 2), (''Rice'', 1)]) 70000 None) (redis empty_world)\<rparr>)"
    by (auto simp: m)
  have "order_items w' = rows" using core_fields(2) [OF c] by (simp add: empty_world_def)
  with * show ?thesis by blast
qed

lemma order_milo: "layer1 ''abeg I want 2 milo'' = result ORDER [item ''milo'' 2 None] (7 / 10)"
  by code_simp

theorem fresh_order_placed_witness:
  "\<exists>w'. handle_inbound_customer_message open_gateway no_llm (chat ''abeg I want 2 milo'') empty_world = (Inr (), w')
     \<and> o_amount (orders w' ! 0) = Some 7000 \<and> length (orders w') = 1"
proof -
  let ?m = "''abeg I want 2 milo''"
  have l: "listening (chat ?m) empty_world" unfolding listening_def chat_fields order_milo by (simp add: result_def) code_simp
  have s: "session_of (chat ?m) empty_world = None" by (simp add: session_of_def empty_world_def redis_get_def empty_redis_def)
  have u: "understood no_llm (chat ?m) [] empty_world = result ORDER [item ''milo'' 2 None] (7 / 10)"
    unfolding understood_def chat_fields smart_parse_customer_message_def Let_def order_milo by (simp add: result_def no_llm_def)
  have p: "matched_price (tr_catalogue shop_trader) ''milo'' = Some 3500" by code_simp
  have o: "pr_intent (understood no_llm (chat ?m) [] empty_world) = ORDER" "pr_items (understood no_llm (chat ?m) [] empty_world) \<noteq> []"
    "missing_prices (tr_catalogue (ib_trader (chat ?m))) (pr_items (understood no_llm (chat ?m) [] empty_world)) = []"
    unfolding u by (simp_all add: result_def missing_prices_def p) (simp add: item_def p)
  define its where "its = map (fill_price (tr_catalogue (ib_trader (chat ?m)))) (pr_items (understood no_llm (chat ?m) [] empty_world))"
  have t: "cart_total its = 7000"
    unfolding its_def u chat_fields using p by (simp add: cart_total_def price_of_def fill_price_def unpriced_def item_def result_def)
  from fresh_order_placed [OF l s o, of open_gateway] obtain w' rows r where
    w': "handle_inbound_customer_message open_gateway no_llm (chat ?m) empty_world = (Inr (), w')"
    and c: "core w' = core (empty_world\<lparr>orders := orders empty_world @ [new_order (chat ?m) (cart_total its) empty_world],
       order_items := order_items empty_world @ rows, redis := r\<rparr>)"
    unfolding its_def by blast
  have "orders w' = [new_order (chat ?m) 7000 empty_world]" using core_fields(1) [OF c] by (simp add: empty_world_def t)
  with w' show ?thesis by simp
qed

theorem yes_leaves_inquiry_witness:
  "\<exists>w'. handle_inbound_customer_message open_gateway no_llm (chat ''YES'') (shop pending_summary) = (Inr (), w')
     \<and> o_state (orders w' ! 0) = INQUIRY \<and> session_of (chat ''YES'') w' = None"
proof -
  have m: "ib_message (chat ''YES'') = ''YES''" by simp
  have q: "chosen_quantity (ib_message (chat ''YES'')) = None" by (simp add: chosen_YES)
  have c: "pr_intent (parse_message no_llm (ib_message (chat ''YES'')) (tr_business_category (ib_trader (chat ''YES''))) (tr_catalogue (ib_trader (chat ''YES'')))) = CONFIRM"
    by (simp add: parse_YES) (simp add: result_def)
  from yes_leaves_inquiry [OF shop_wf listening_YES [OF m] pending_session shop_order q c, of open_gateway] show ?thesis
    using shop_order(2) [of pending_summary] by auto
qed

lemma listening_shop: "upper (strip m) \<noteq> ''STOP'' \<Longrightarrow> listening (chat m) (shop d)"
  by (simp add: listening_def shop_def redis_get_setex quiet_session_keys) (simp add: redis_get_def empty_redis_def)

theorem quantity_drops_other_items_witness:
  "\<exists>w'. handle_inbound_customer_message open_gateway no_llm (chat ''QTY_3'') (shop pending_summary) = (Inr (), w')
     \<and> map_option o_amount (order_at w' ''o1'' (Some ''t1'')) = Some (Some 10500) \<and> rows_sum (items_of w' ''o1'') = 136500"
proof -
  have l: "listening (chat ''QTY_3'') (shop pending_summary)" by (rule listening_shop) code_simp
  have q: "chosen_quantity (ib_message (chat ''QTY_3'')) = Some 3" unfolding chat_fields by code_simp
  have i: "items_of (shop pending_summary) ''o1'' = hd shop_rows # tl shop_rows" "distinct (items_of (shop pending_summary) ''o1'')"
    by (simp_all add: items_of_def shop_def shop_rows_def)
  have p: "oi_unit_price (hd shop_rows) = of_int 3500" by (simp add: shop_rows_def)
  from quantity_drops_other_items [OF shop_wf l pending_session shop_order q i p, of open_gateway no_llm] show ?thesis
    by (auto simp: shop_rows_def rows_sum_def)
qed

theorem refusal_places_empty_order_witness:
  "\<exists>w'. handle_inbound_customer_message open_gateway no_llm (chat ''NO'') (shop (ClarifySession ''milo'' ''Which size?'' [])) = (Inr (), w')
     \<and> length (orders w') = 2 \<and> o_amount (orders w' ! 1) = Some 0"
proof -
  have l: "listening (chat ''NO'') (shop (ClarifySession ''milo'' ''Which size?'' []))" by (rule listening_shop) code_simp
  have n: "layer1 (ib_message (chat ''NO'')) = result CANCEL [] 1 \<or> layer1 (ib_message (chat ''NO'')) = result CONFIRM [] 1" by (simp add: layer1_NO)
  have p: "re_match PICK_RE (strip (ib_message (chat ''NO''))) = None" unfolding chat_fields by code_simp
  from refusal_places_empty_order [OF l shop_session n p, of open_gateway no_llm] show ?thesis
    by (auto simp: shop_def one_order_def)
qed

theorem no_fails_order_witness:
  "\<exists>w'. handle_inbound_customer_message open_gateway no_llm (chat ''NO'') (shop pending_summary) = (Inr (), w')
     \<and> o_state (orders w' ! 0) = FAILED \<and> length (published w') = 1"
proof -
  have l: "listening (chat ''NO'') (shop pending_summary)" by (rule listening_shop) code_simp
  have q: "chosen_quantity (ib_message (chat ''NO'')) = None" unfolding chat_fields by code_simp
  have c: "pr_intent (parse_message no_llm (ib_message (chat ''NO'')) (tr_business_category (ib_trader (chat ''NO''))) (tr_catalogue (ib_trader (chat ''NO'')))) = CANCEL"
    by (simp add: parse_message_def layer1_NO Let_def) (simp add: result_def)
  from no_fails_order [OF shop_wf l pending_session _ shop_order q c, of open_gateway] show ?thesis
    by (auto simp: shop_def one_order_def create_order_row_def empty_world_def)
qed

theorem negotiated_price_not_charged_witness:
  "let w = (shop pending_summary)\<lparr>redis := redis_setex 0 (negotiation_key ''080'' ''234'') NEGOTIATION_TTL
         (NegotiationDoc 100000 129500 ''Milo'' shop_cart (Some ''o1'') ''t1'' []) empty_redis\<rparr>;
       w1 = exec (handle_negotiation_response open_gateway True ''234'' ''080'' shop_trader ''m0'' ''t1'' None) w;
       w2 = exec (handle_inbound_customer_message open_gateway no_llm (chat ''YES'')) w1
   in session_of (chat ''YES'') w1 = Some (ConfirmSession (Some ''o1'') (with_price 100000 shop_cart) 100000 None)
     \<and> map_option o_amount (order_at w2 ''o1'' (Some ''t1'')) = Some (Some 100)"
proof -
  let ?w = "(shop pending_summary)\<lparr>redis := redis_setex 0 (negotiation_key ''080'' ''234'') NEGOTIATION_TTL
         (NegotiationDoc 100000 129500 ''Milo'' shop_cart (Some ''o1'') ''t1'' []) empty_redis\<rparr>"
  have wf: "wf_orders ?w" using shop_wf [of pending_summary] by (simp add: wf_orders_def order_ids_def)
  have n: "redis_get (clock ?w) (negotiation_key (tr_phone_number (ib_trader (chat ''YES''))) (ib_customer_phone (chat ''YES''))) (redis ?w)
      = Some (NegotiationDoc 100000 129500 ''Milo'' shop_cart (Some ''o1'') (ib_tenant_id (chat ''YES'')) [])"
    by (simp add: shop_def one_order_def empty_world_def shop_trader_def redis_get_setex NEGOTIATION_TTL_def second_def)
  have at: "order_at ?w ''o1'' (Some (ib_tenant_id (chat ''YES''))) = Some (orders (shop pending_summary) ! 0)"
    using shop_order(1) [of pending_summary] by (simp add: order_at_def)
  have m: "ib_message (chat ''YES'') = ''YES''" by simp
  from negotiated_price_not_charged [OF wf n _ at shop_order(2) m, where gw = open_gateway and l = no_llm and tr = shop_trader and mid = "''m0''" and ctid = None] show ?thesis
    by (simp add: Let_def shop_trader_def) (simp add: shop_def one_order_def create_order_row_def)
qed

theorem clarification_context_lost_witness:
  "parse_or_unknown no_llm (chat ''2'') (clarification_history ''milo'' ''Which size?'')
      (empty_world\<lparr>messages := replicate 5 \<lparr>m_id = ''a'', m_tenant_id = ''t1'', m_conversation_id = ''c1'', m_sender_role = ''customer'',
         m_sender_identifier = None, m_content = ''hi'', m_external_id = None, m_created_at = 0\<rparr>\<rparr>)
   = parse_or_unknown no_llm (chat ''2'') []
      (empty_world\<lparr>messages := replicate 5 \<lparr>m_id = ''a'', m_tenant_id = ''t1'', m_conversation_id = ''c1'', m_sender_role = ''customer'',
         m_sender_identifier = None, m_content = ''hi'', m_external_id = None, m_created_at = 0\<rparr>\<rparr>)"
  by (rule clarification_context_lost) simp

end
