(* ===== verification/Paging.thy ===== *)
theory Paging
  imports Prelude
begin

text \<open>
  Cursor pagination as an interface: a query that returns the rows after a cursor in a strict order, at
  most \<open>limit\<close> of them, and the cursor of the last one when more remain. Following the cursors from the start visits
  every row once and in order.
\<close>

text \<open>Following the cursors, at most \<open>n\<close> requests.\<close>

fun walk :: "(nat \<Rightarrow> 'k option \<Rightarrow> 's \<Rightarrow> 'a list \<times> 'k option) \<Rightarrow> nat \<Rightarrow> nat \<Rightarrow> 'k option \<Rightarrow> 's \<Rightarrow> 'a list" where
  "walk fetch 0 limit cur s = []"
| "walk fetch (Suc n) limit cur s = (case fetch limit cur s of (xs, next) \<Rightarrow>
     xs @ (case next of None \<Rightarrow> [] | Some k \<Rightarrow> walk fetch n limit (Some k) s))"

locale cursor_pages =
  fixes lt :: "'k \<Rightarrow> 'k \<Rightarrow> bool"
    and rows :: "'s \<Rightarrow> 'a list"
    and valid :: "'s \<Rightarrow> bool"
    and key :: "'a \<Rightarrow> 'k"
    and fetch :: "nat \<Rightarrow> 'k option \<Rightarrow> 's \<Rightarrow> 'a list \<times> 'k option"
  assumes lt_trans: "lt a b \<Longrightarrow> lt b c \<Longrightarrow> lt a c"
    and lt_irrefl: "\<not> lt a a"
    and rows_sorted: "valid s \<Longrightarrow> sorted_wrt (\<lambda>x y. lt (key x) (key y)) (rows s)"
    and fetch_law: "valid s \<Longrightarrow> fetch limit cur s =
      (let ys = filter (\<lambda>x. case cur of None \<Rightarrow> True | Some k \<Rightarrow> lt k (key x)) (rows s)
       in (take limit ys, if limit < length ys \<and> limit \<noteq> 0 then Some (key (last (take limit ys))) else None))"
begin

lemma after_last_taken:
  assumes "sorted_wrt (\<lambda>x y. lt (key x) (key y)) ys" and "0 < l" and "l < length ys"
  shows "filter (\<lambda>x. lt (key (last (take l ys))) (key x)) ys = drop l ys"
proof -
  let ?m = "last (take l ys)"
  have ne: "take l ys \<noteq> []" using assms(2,3) by auto
  have split: "sorted_wrt (\<lambda>x y. lt (key x) (key y)) (take l ys @ drop l ys)" using assms(1) by simp
  have "\<not> lt (key ?m) (key x)" if "x \<in> set (take l ys)" for x
  proof (cases "x = ?m")
    case False
    have "x \<in> set (butlast (take l ys))"
      using that ne False by (metis append_butlast_last_id in_set_butlast_appendI Un_iff set_append
          empty_iff empty_set insert_iff list.simps(15))
    moreover have "sorted_wrt (\<lambda>x y. lt (key x) (key y)) (butlast (take l ys) @ [?m])"
      using split ne by (simp add: sorted_wrt_append)
    ultimately have "lt (key x) (key ?m)" by (simp add: sorted_wrt_append)
    then show ?thesis using lt_trans lt_irrefl by blast
  qed (simp add: lt_irrefl)
  then have "filter (\<lambda>x. lt (key ?m) (key x)) (take l ys) = []"
    by (simp add: filter_empty_conv)
  moreover have "filter (\<lambda>x. lt (key ?m) (key x)) (drop l ys) = drop l ys"
    using split last_in_set [OF ne] unfolding sorted_wrt_append filter_id_conv by blast
  ultimately show ?thesis
    by (metis append_take_drop_id filter_append append_Nil)
qed

lemma walk_after:
  assumes "valid s" and "0 < limit"
  shows "length (filter (\<lambda>x. case cur of None \<Rightarrow> True | Some k \<Rightarrow> lt k (key x)) (rows s)) < n \<Longrightarrow>
     walk fetch n limit cur s = filter (\<lambda>x. case cur of None \<Rightarrow> True | Some k \<Rightarrow> lt k (key x)) (rows s)"
proof (induction n arbitrary: cur)
  case (Suc n)
  let ?ys = "filter (\<lambda>x. case cur of None \<Rightarrow> True | Some k \<Rightarrow> lt k (key x)) (rows s)"
  have f: "fetch limit cur s = (take limit ?ys, if limit < length ?ys \<and> limit \<noteq> 0 then Some (key (last (take limit ?ys))) else None)"
    using fetch_law [OF assms(1)] by (simp add: Let_def)
  show ?case
  proof (cases "limit < length ?ys")
    case False
    then show ?thesis using f by simp
  next
    case True
    let ?k = "key (last (take limit ?ys))"
    have ne: "take limit ?ys \<noteq> []" using True assms(2) by auto
    have srt: "sorted_wrt (\<lambda>x y. lt (key x) (key y)) ?ys"
      using rows_sorted [OF assms(1)] by (rule sorted_wrt_filter)
    have lst: "case cur of None \<Rightarrow> True | Some k \<Rightarrow> lt k ?k"
      using last_in_set [OF ne] by (auto dest!: in_set_takeD split: option.splits)
    have "filter (\<lambda>x. lt ?k (key x)) (rows s) = filter (\<lambda>x. lt ?k (key x)) ?ys"
      unfolding filter_filter using lst by (intro filter_cong) (auto split: option.splits intro: lt_trans)
    then have rest: "filter (\<lambda>x. lt ?k (key x)) (rows s) = drop limit ?ys"
      using after_last_taken [OF srt assms(2) True] by simp
    have "length (drop limit ?ys) < n" using Suc.prems assms(2) True by simp
    then have "walk fetch n limit (Some ?k) s = drop limit ?ys"
      using Suc.IH [of "Some ?k"] rest by simp
    then show ?thesis using f True assms(2) by simp
  qed
qed simp

lemma walk_all:
  assumes "valid s" and "0 < limit" and "length (rows s) < n"
  shows "walk fetch n limit None s = rows s"
  using walk_after [OF assms(1,2), of None n] assms(3) by simp

end

end
