(* ===== verification/Conversations.thy ===== *)
theory Conversations
  imports Order_Repository Event_Bus Notifications Paging
begin

text \<open>
  Conversations and messages (\<open>src/app/modules/conversation/repository.py\<close>, \<open>service.py\<close>, \<open>handlers.py\<close>): an inbound
  message is stored once in the sender's active conversation, staff reply, react, assign and schedule messages,
  and both lists are paged with cursors. A cursor is the (timestamp, id) pair its encoding carries.
\<close>

section \<open>Repository: conversations\<close>

definition create_conversation :: "string \<Rightarrow> string \<Rightarrow> string \<Rightarrow> string option \<Rightarrow> string option \<Rightarrow> conversation svc" where
  "create_conversation tid ch ident cname cid = bindA uuid4 (\<lambda>i w.
     let c = \<lparr>cv_id = i, cv_tenant_id = tid, cv_channel = ch, cv_customer_id = cid, cv_customer_identifier = ident,
              cv_customer_name = cname, cv_status = CV_ACTIVE, cv_assigned_to_user_id = None,
              cv_created_at = clock w, cv_updated_at = clock w\<rparr>
     in (Inr c, w\<lparr>conversations := conversations w @ [c]\<rparr>))"

definition get_conversation_by_sender :: "string \<Rightarrow> string \<Rightarrow> string \<Rightarrow> conversation option svc" where
  "get_conversation_by_sender tid ident ch = bindA (getA conversations) (\<lambda>cs.
     liftE (scalar_one_or_none (take 1 (order_by_desc cv_created_at (filter (\<lambda>c. cv_tenant_id c = tid
        \<and> cv_customer_identifier c = ident \<and> cv_channel c = ch \<and> cv_status c = CV_ACTIVE) cs)))))"

definition get_or_create_conversation :: "string \<Rightarrow> string \<Rightarrow> string \<Rightarrow> string option \<Rightarrow> string option
    \<Rightarrow> (conversation \<times> bool) svc" where
  "get_or_create_conversation tid ident ch cname cid = bindA (get_conversation_by_sender tid ident ch) (\<lambda>c. case c of
     Some c \<Rightarrow> ret (c, False)
   | None \<Rightarrow> bindA (create_conversation tid ch ident cname cid) (\<lambda>c. ret (c, True)))"

definition get_conversation_by_id :: "string \<Rightarrow> string option \<Rightarrow> conversation option svc" where
  "get_conversation_by_id cid tid = bindA (getA conversations) (\<lambda>cs.
     liftE (scalar_one_or_none (filter (\<lambda>c. cv_id c = cid \<and> scoped tid (cv_tenant_id c)) cs)))"

text \<open>A change of a loaded row: an \<open>UPDATE\<close>, and a new \<open>updated_at\<close>, only if it changes something.\<close>

definition set_conversation :: "conversation \<Rightarrow> (conversation \<Rightarrow> conversation) \<Rightarrow> conversation svc" where
  "set_conversation c f = (\<lambda>w. let c' = f c in if c' = c then (Inr c, w)
     else (Inr (c'\<lparr>cv_updated_at := clock w\<rparr>), w\<lparr>conversations := update_where (\<lambda>x. cv_id x = cv_id c)
        (\<lambda>x. (f x)\<lparr>cv_updated_at := clock w\<rparr>) (conversations w)\<rparr>))"

definition repo_assign_conversation :: "string \<Rightarrow> string \<Rightarrow> string option \<Rightarrow> conversation option svc" where
  "repo_assign_conversation cid tid uid = bindA (get_conversation_by_id cid (Some tid)) (\<lambda>c. case c of
     None \<Rightarrow> ret None
   | Some c \<Rightarrow> bindA (set_conversation c (\<lambda>c. c\<lparr>cv_assigned_to_user_id := uid\<rparr>)) (\<lambda>c. ret (Some c)))"

section \<open>Repository: messages\<close>

definition get_message_by_external_id :: "string \<Rightarrow> string \<Rightarrow> message option svc" where
  "get_message_by_external_id cid ext = bindA (getA messages) (\<lambda>ms.
     liftE (scalar_one_or_none (filter (\<lambda>m. m_conversation_id m = cid \<and> m_external_id m = Some ext) ms)))"

definition insert_message :: "string \<Rightarrow> string \<Rightarrow> string \<Rightarrow> string \<Rightarrow> string option \<Rightarrow> string option \<Rightarrow> message svc" where
  "insert_message cid tid role content ext ident = bindA uuid4 (\<lambda>i w.
     let m = \<lparr>m_id = i, m_tenant_id = tid, m_conversation_id = cid, m_sender_role = role, m_sender_identifier = ident,
              m_content = content, m_external_id = ext, m_created_at = clock w\<rparr>
     in (Inr m, w\<lparr>messages := messages w @ [m]\<rparr>))"

definition save_message :: "string \<Rightarrow> string \<Rightarrow> string \<Rightarrow> string \<Rightarrow> string option \<Rightarrow> string option \<Rightarrow> message option svc" where
  "save_message cid tid role content ext ident =
     bindA (case ext of None \<Rightarrow> ret None | Some e \<Rightarrow> get_message_by_external_id cid e) (\<lambda>existing. case existing of
       Some _ \<Rightarrow> ret None
     | None \<Rightarrow> bindA (insert_message cid tid role content ext ident) (\<lambda>m. ret (Some m)))"

definition get_message_by_id :: "string \<Rightarrow> string \<Rightarrow> message option svc" where
  "get_message_by_id mid cid = bindA (getA messages) (\<lambda>ms.
     liftE (scalar_one_or_none (filter (\<lambda>m. m_id m = mid \<and> m_conversation_id m = cid) ms)))"

section \<open>Repository: reactions and scheduled messages\<close>

definition mr_key :: "message_reaction \<Rightarrow> string \<times> string" where
  "mr_key r = (mr_message_id r, mr_user_id r)"

definition get_reaction :: "string \<Rightarrow> string \<Rightarrow> message_reaction option svc" where
  "get_reaction mid uid = bindA (getA message_reactions) (\<lambda>rs.
     liftE (scalar_one_or_none (filter (\<lambda>r. mr_key r = (mid, uid) \<and> True) rs)))"

definition upsert_reaction :: "string \<Rightarrow> string \<Rightarrow> string \<Rightarrow> string \<Rightarrow> message_reaction svc" where
  "upsert_reaction mid tid uid emoji = bindA (get_reaction mid uid) (\<lambda>r. case r of
     Some r \<Rightarrow> thenA (modA (\<lambda>w. w\<lparr>message_reactions := update_where (\<lambda>x. mr_id x = mr_id r)
                 (\<lambda>x. x\<lparr>mr_emoji := emoji\<rparr>) (message_reactions w)\<rparr>)) (ret (r\<lparr>mr_emoji := emoji\<rparr>))
   | None \<Rightarrow> bindA uuid4 (\<lambda>i w.
       let r = \<lparr>mr_id = i, mr_message_id = mid, mr_tenant_id = tid, mr_user_id = uid, mr_emoji = emoji, mr_created_at = clock w\<rparr>
       in (Inr r, w\<lparr>message_reactions := message_reactions w @ [r]\<rparr>)))"

definition delete_reaction :: "string \<Rightarrow> string \<Rightarrow> bool svc" where
  "delete_reaction mid uid = bindA (get_reaction mid uid) (\<lambda>r. case r of
     None \<Rightarrow> ret False
   | Some r \<Rightarrow> thenA (modA (\<lambda>w. w\<lparr>message_reactions := filter (\<lambda>x. mr_id x \<noteq> mr_id r) (message_reactions w)\<rparr>)) (ret True))"

definition repo_create_scheduled_message :: "string \<Rightarrow> string \<Rightarrow> string \<Rightarrow> timestamp \<Rightarrow> scheduled_message svc" where
  "repo_create_scheduled_message tid cid content due = bindA uuid4 (\<lambda>i w.
     let m = \<lparr>sm_id = i, sm_tenant_id = tid, sm_conversation_id = cid, sm_content = content, sm_scheduled_for = due,
              sm_status = ''pending''\<rparr>
     in (Inr m, w\<lparr>scheduled_messages := scheduled_messages w @ [m]\<rparr>))"

definition repo_list_scheduled_messages :: "string \<Rightarrow> string \<Rightarrow> world \<Rightarrow> scheduled_message list" where
  "repo_list_scheduled_messages cid tid w = order_by_asc sm_scheduled_for
     (filter (\<lambda>m. sm_conversation_id m = cid \<and> sm_tenant_id m = tid) (scheduled_messages w))"

definition get_scheduled_message_by_id :: "string \<Rightarrow> string \<Rightarrow> string \<Rightarrow> scheduled_message option svc" where
  "get_scheduled_message_by_id mid cid tid = bindA (getA scheduled_messages) (\<lambda>ms.
     liftE (scalar_one_or_none (filter (\<lambda>m. sm_id m = mid \<and> (sm_conversation_id m = cid \<and> sm_tenant_id m = tid)) ms)))"

definition repo_cancel_scheduled_message :: "string \<Rightarrow> string \<Rightarrow> string \<Rightarrow> bool svc" where
  "repo_cancel_scheduled_message mid cid tid = bindA (get_scheduled_message_by_id mid cid tid) (\<lambda>m. case m of
     None \<Rightarrow> ret False
   | Some m \<Rightarrow> if sm_status m \<noteq> ''pending'' then ret False
       else thenA (modA (\<lambda>w. w\<lparr>scheduled_messages := filter (\<lambda>x. sm_id x \<noteq> sm_id m) (scheduled_messages w)\<rparr>)) (ret True))"

definition get_pending_scheduled_messages :: "timestamp \<Rightarrow> world \<Rightarrow> scheduled_message list" where
  "get_pending_scheduled_messages now w =
     filter (\<lambda>m. sm_status m = ''pending'' \<and> sm_scheduled_for m \<le> now) (scheduled_messages w)"

section \<open>Repository: lists\<close>

type_synonym cursor = "timestamp \<times> string"

definition cv_cursor :: "conversation \<Rightarrow> cursor" where
  "cv_cursor c = (cv_updated_at c, cv_id c)"

definition m_cursor :: "message \<Rightarrow> cursor" where
  "m_cursor m = (m_created_at m, m_id m)"

text \<open>\<open>ORDER BY updated_at DESC, id DESC\<close>.\<close>

definition tenant_conversations :: "string option \<Rightarrow> world \<Rightarrow> conversation list" where
  "tenant_conversations tid w = rev (sort_key cv_cursor
     (filter (\<lambda>c. case tid of None \<Rightarrow> True | Some t \<Rightarrow> cv_tenant_id c = t) (conversations w)))"

definition repo_list_conversations :: "string option \<Rightarrow> nat \<Rightarrow> cursor option \<Rightarrow> world \<Rightarrow> conversation list" where
  "repo_list_conversations tid limit cur w = take limit (filter (\<lambda>c. case cur of None \<Rightarrow> True | Some (dt, i) \<Rightarrow>
     cv_updated_at c < dt \<or> (cv_updated_at c = dt \<and> cv_id c < i)) (tenant_conversations tid w))"

text \<open>The most recent message of each listed conversation.\<close>

definition last_message :: "string \<Rightarrow> world \<Rightarrow> message option" where
  "last_message cid w = (case order_by_desc m_created_at (filter (\<lambda>m. m_conversation_id m = cid) (messages w)) of
     [] \<Rightarrow> None | m # _ \<Rightarrow> Some m)"

definition conversation_messages :: "string \<Rightarrow> world \<Rightarrow> message list" where
  "conversation_messages cid w = sort_key m_cursor (filter (\<lambda>m. m_conversation_id m = cid) (messages w))"

definition repo_list_messages :: "string \<Rightarrow> nat \<Rightarrow> cursor option \<Rightarrow> world \<Rightarrow> message list" where
  "repo_list_messages cid limit cur w = take limit (filter (\<lambda>m. case cur of None \<Rightarrow> True | Some (dt, i) \<Rightarrow>
     m_created_at m > dt \<or> (m_created_at m = dt \<and> m_id m > i)) (conversation_messages cid w))"

section \<open>Service\<close>

definition handle_inbound :: "string \<Rightarrow> string \<Rightarrow> string \<Rightarrow> string \<Rightarrow> string option \<Rightarrow> string option \<Rightarrow> string option
    \<Rightarrow> (conversation \<times> message option) svc" where
  "handle_inbound tid ch sender content ext cid sender_name =
     bindA (get_or_create_conversation tid sender ch None cid) (\<lambda>(c, created).
     bindA (case sender_name of
              Some n \<Rightarrow> if n \<noteq> [] \<and> cv_customer_name c \<noteq> Some n
                then set_conversation c (\<lambda>c. c\<lparr>cv_customer_name := Some n\<rparr>) else ret c
            | None \<Rightarrow> ret c) (\<lambda>c.
     bindA (save_message (cv_id c) tid ''user'' content ext (Some sender)) (\<lambda>m. ret (c, m))))"

definition get_or_create :: "string \<Rightarrow> string \<Rightarrow> string \<Rightarrow> string option \<Rightarrow> conversation svc" where
  "get_or_create ident ch tid cname = bindA (get_or_create_conversation tid ident ch cname None) (\<lambda>(c, created). ret c)"

definition conv_get_by_id :: "string \<Rightarrow> string option \<Rightarrow> conversation svc" where
  "conv_get_by_id cid tid = bindA (get_conversation_by_id cid tid) (\<lambda>c. case c of
     None \<Rightarrow> raise (NotFoundError ''Conversation'' cid) | Some c \<Rightarrow> ret c)"

definition find_user :: "string \<Rightarrow> world \<Rightarrow> user option" where
  "find_user uid w = find (\<lambda>u. u_id u = uid) (users w)"

definition user_json :: "user option \<Rightarrow> jval" where
  "user_json u = (case u of None \<Rightarrow> JNull
     | Some u \<Rightarrow> JObj [(''id'', JStr (u_id u)), (''display_name'', case u_display_name u of None \<Rightarrow> JNull | Some n \<Rightarrow> JStr n),
                 (''email'', JStr (u_email u))])"

definition opt_json :: "string option \<Rightarrow> jval" where
  "opt_json s = (case s of None \<Rightarrow> JNull | Some s \<Rightarrow> JStr s)"

definition assign_conversation :: "string \<Rightarrow> string \<Rightarrow> string option \<Rightarrow> string option \<Rightarrow> (string \<times> user option) svc" where
  "assign_conversation cid tid uid assigned_by =
     bindA (getA user_tenants) (\<lambda>uts.
       if (case uid of Some u \<Rightarrow> \<not> list_ex (\<lambda>m. ut_user_id m = u \<and> ut_tenant_id m = tid) uts | None \<Rightarrow> False)
       then raise (NotFoundError ''StaffMember'' (case uid of Some u \<Rightarrow> u | None \<Rightarrow> []))
       else bindA (repo_assign_conversation cid tid uid) (\<lambda>c. case c of
         None \<Rightarrow> raise (NotFoundError ''Conversation'' cid)
       | Some _ \<Rightarrow> bindA (getA (\<lambda>w. case uid of Some u \<Rightarrow> find_user u w | None \<Rightarrow> None)) (\<lambda>u.
           thenA (emit ''conversation.assigned'' tid [(''conversation_id'', JStr cid), (''assigned_to'', user_json u),
                    (''assigned_by_user_id'', opt_json assigned_by)])
             (ret (cid, u)))))"

text \<open>A failed delivery is logged and never reaches the caller.\<close>

definition dispatch_reply :: "gateway \<Rightarrow> string \<Rightarrow> string \<Rightarrow> string \<Rightarrow> string \<Rightarrow> unit svc" where
  "dispatch_reply gw tid rcpt content mid =
     tryA (session_begin (send_message gw tid (''reply.'' @ mid) rcpt (Plain content) ''whatsapp'' None None)) (\<lambda>_. ret ())"

definition add_message :: "gateway \<Rightarrow> string \<Rightarrow> string \<Rightarrow> string \<Rightarrow> string option \<Rightarrow> message option svc" where
  "add_message gw cid role content ext = bindA (conv_get_by_id cid None) (\<lambda>c.
     bindA (save_message (cv_id c) (cv_tenant_id c) role content ext
              (if role = ''user'' then Some (cv_customer_identifier c) else None)) (\<lambda>m. case m of
       None \<Rightarrow> (case ext of Some e \<Rightarrow> get_message_by_external_id cid e | None \<Rightarrow> ret None)
     | Some m \<Rightarrow> thenA (if role = ''assistant'' \<and> cv_channel c = ''whatsapp''
                 then dispatch_reply gw (cv_tenant_id c) (cv_customer_identifier c) content (m_id m) else ret ())
           (ret (Some m))))"

definition reactions_json :: "string \<Rightarrow> world \<Rightarrow> jval" where
  "reactions_json mid w = JList (map (\<lambda>r. JObj [(''id'', JStr (mr_id r)), (''user_id'', JStr (mr_user_id r)),
     (''emoji'', JStr (mr_emoji r)), (''created_at'', JInt (mr_created_at r))])
     (filter (\<lambda>r. mr_message_id r = mid) (message_reactions w)))"

definition react_to_message :: "string \<Rightarrow> string \<Rightarrow> string \<Rightarrow> string \<Rightarrow> message svc" where
  "react_to_message cid mid uid emoji = bindA (conv_get_by_id cid None) (\<lambda>c.
     bindA (get_message_by_id mid cid) (\<lambda>m. case m of
       None \<Rightarrow> raise (NotFoundError ''Message'' mid)
     | Some m \<Rightarrow> bindA (get_reaction mid uid) (\<lambda>r.
         thenA (case r of
                  Some r \<Rightarrow> if mr_emoji r = emoji then thenA (delete_reaction mid uid) (ret ())
                            else thenA (upsert_reaction mid (cv_tenant_id c) uid emoji) (ret ())
                | None \<Rightarrow> thenA (upsert_reaction mid (cv_tenant_id c) uid emoji) (ret ()))
         (bindA (getA (reactions_json mid)) (\<lambda>rj.
          thenA (emit ''message.reaction_updated'' (cv_tenant_id c) [(''conversation_id'', JStr cid), (''message_id'', JStr mid),
                   (''reactions'', rj)])
            (ret m))))))"

definition create_scheduled_message :: "string \<Rightarrow> string \<Rightarrow> string \<Rightarrow> timestamp \<Rightarrow> scheduled_message svc" where
  "create_scheduled_message cid tid content due =
     thenA (conv_get_by_id cid (Some tid)) (repo_create_scheduled_message tid cid content due)"

definition list_scheduled_messages :: "string \<Rightarrow> string \<Rightarrow> scheduled_message list svc" where
  "list_scheduled_messages cid tid =
     thenA (conv_get_by_id cid (Some tid)) (getA (repo_list_scheduled_messages cid tid))"

definition cancel_scheduled_message :: "string \<Rightarrow> string \<Rightarrow> string \<Rightarrow> unit svc" where
  "cancel_scheduled_message cid mid tid = thenA (conv_get_by_id cid (Some tid))
     (bindA (repo_cancel_scheduled_message mid cid tid) (\<lambda>deleted.
        if deleted then ret () else raise (NotFoundError ''ScheduledMessage'' mid)))"

text \<open>One more row than asked for tells whether there are more.\<close>

definition cut_page :: "('a \<Rightarrow> cursor) \<Rightarrow> nat \<Rightarrow> 'a list \<Rightarrow> 'a list \<times> cursor option" where
  "cut_page k limit xs = (let more = limit < length xs; ys = (if more then take limit xs else xs)
     in (ys, if more \<and> ys \<noteq> [] then Some (k (last ys)) else None))"

definition conversation_item :: "world \<Rightarrow> conversation \<Rightarrow> conversation \<times> message option \<times> user option" where
  "conversation_item w c = (c, last_message (cv_id c) w,
     case cv_assigned_to_user_id c of None \<Rightarrow> None | Some u \<Rightarrow> find_user u w)"

definition list_conversations :: "string option \<Rightarrow> nat \<Rightarrow> cursor option \<Rightarrow> world
    \<Rightarrow> (conversation \<times> message option \<times> user option) list \<times> cursor option" where
  "list_conversations tid limit cur w =
     (let (cs, next) = cut_page cv_cursor limit (repo_list_conversations tid (limit + 1) cur w)
      in (map (conversation_item w) cs, next))"

definition page_messages :: "string \<Rightarrow> nat \<Rightarrow> cursor option \<Rightarrow> world \<Rightarrow> message list \<times> cursor option" where
  "page_messages cid limit cur w = cut_page m_cursor limit (repo_list_messages cid (limit + 1) cur w)"

definition list_messages :: "string \<Rightarrow> string option \<Rightarrow> nat \<Rightarrow> cursor option \<Rightarrow> (message list \<times> cursor option) svc" where
  "list_messages cid tid limit cur = thenA (conv_get_by_id cid tid) (getA (page_messages cid limit cur))"

section \<open>Event handler\<close>

definition saved_payload :: "conversation \<Rightarrow> message \<Rightarrow> event \<Rightarrow> string \<Rightarrow> string \<Rightarrow> string \<Rightarrow> payload" where
  "saved_payload c m e sender content ch = [(''id'', JStr (m_id m)), (''conversation_id'', JStr (cv_id c)),
     (''sender_role'', JStr (m_sender_role m)), (''sender_identifier'', JStr sender), (''content'', JStr content),
     (''created_at'', JInt (m_created_at m)), (''tenant_id'', JStr (ev_tenant_id e)), (''channel'', JStr ch),
     (''customer_identifier'', JStr sender), (''media_id'', payload_get (ev_payload e) ''media_id'' JNull),
     (''media_type'', payload_get (ev_payload e) ''media_type'' JNull), (''sender_name'', payload_get (ev_payload e) ''sender_name'' JNull)]"

definition external_id_of :: "payload \<Rightarrow> string option" where
  "external_id_of p = (if payload_str p ''message_id'' \<noteq> [] then Some (payload_str p ''message_id'') else payload_opt p ''external_id'')"

definition sender_of :: "payload \<Rightarrow> string" where
  "sender_of p = (if payload_str p ''sender_identifier'' \<noteq> [] then payload_str p ''sender_identifier'' else payload_str p ''sender'')"

definition handle_message_received :: "event \<Rightarrow> unit svc" where
  "handle_message_received e =
     (let p = ev_payload e; tid = ev_tenant_id e; ch = payload_str p ''channel''; sender = sender_of p;
          content = payload_str p ''message''
      in if tid = [] \<or> ch = [] \<or> sender = [] \<or> content = [] then ret ()
         else bindA (session_begin (handle_inbound tid ch sender content (external_id_of p) None (payload_opt p ''sender_name'')))
           (\<lambda>(c, m). case m of
              None \<Rightarrow> ret ()
            | Some m \<Rightarrow> emit ''conversation.message_saved'' tid (saved_payload c m e sender content ch)))"

definition register_message_received_handler :: "event list \<Rightarrow> world \<Rightarrow> world" where
  "register_message_received_handler = create_global_listener_task ''message.received'' handle_message_received"

section \<open>Paging\<close>

lemma sorted_rev_strict:
  assumes "distinct (map k xs)"
  shows "sorted_wrt (\<lambda>x y. k y < (k x :: 'b :: linorder)) (rev (sort_key k xs))"
proof -
  have "sorted (map k (sort_key k xs))" by simp
  moreover have "distinct (map k (sort_key k xs))"
    using assms by (simp add: distinct_map)
  ultimately have "sorted_wrt (<) (map k (sort_key k xs))"
    by (metis strict_sorted_iff)
  then show ?thesis by (simp add: sorted_wrt_rev sorted_wrt_map)
qed

lemma sorted_key_strict:
  assumes "distinct (map k xs)"
  shows "sorted_wrt (\<lambda>x y. k x < (k y :: 'b :: linorder)) (sort_key k xs)"
proof -
  have "sorted (map k (sort_key k xs))" by simp
  moreover have "distinct (map k (sort_key k xs))"
    using assms by (simp add: distinct_map)
  ultimately have "sorted_wrt (<) (map k (sort_key k xs))"
    by (metis strict_sorted_iff)
  then show ?thesis by (simp add: sorted_wrt_map)
qed

lemma cut_page_eq:
  "cut_page k limit (take (Suc limit) ys) =
     (take limit ys, if limit < length ys \<and> limit \<noteq> 0 then Some (k (last (take limit ys))) else None)"
  by (auto simp: cut_page_def Let_def min_def)

definition wf_conversations :: "world \<Rightarrow> bool" where
  "wf_conversations w \<longleftrightarrow> distinct (map cv_id (conversations w)) \<and> distinct (map m_id (messages w))"

lemma distinct_cursor: "distinct (map i xs) \<Longrightarrow> distinct (map (\<lambda>x. (t x, i x)) (filter p xs))"
  by (induction xs) auto

lemma cursor_less: "(p :: cursor) < q \<longleftrightarrow> fst p < fst q \<or> (fst p = fst q \<and> snd p < snd q)"
  by (cases p; cases q) (auto simp: less_prod_simp)

lemma fst_conversation_item [simp]: "fst (conversation_item w c) = c"
  by (simp add: conversation_item_def)

lemma last_conversation_item:
  "0 < l \<Longrightarrow> l < length ys \<Longrightarrow> fst (last (map (conversation_item w) (take l ys))) = last (take l ys)"
  by (subst last_map) auto

interpretation conversation_pages: cursor_pages
  "\<lambda>a b. b < (a :: cursor)" "\<lambda>w. map (conversation_item w) (tenant_conversations tid w)" wf_conversations
  "\<lambda>x. cv_cursor (fst x)" "list_conversations tid" for tid
proof (unfold_locales, goal_cases)
  case (3 w)
  then have "sorted_wrt (\<lambda>x y. cv_cursor y < cv_cursor x) (tenant_conversations tid w)"
    unfolding tenant_conversations_def wf_conversations_def
    by (intro sorted_rev_strict) (simp add: cv_cursor_def distinct_cursor)
  then show ?case by (simp add: sorted_wrt_map)
next
  case (4 w limit cur)
  have f: "repo_list_conversations tid (Suc limit) cur w = take (Suc limit)
      (filter (\<lambda>c. case cur of None \<Rightarrow> True | Some k \<Rightarrow> cv_cursor c < k) (tenant_conversations tid w))"
    by (cases cur) (simp_all only: repo_list_conversations_def cursor_less cv_cursor_def split_beta option.case fst_conv snd_conv)
  let ?ys = "filter (\<lambda>c. case cur of None \<Rightarrow> True | Some k \<Rightarrow> cv_cursor c < k) (tenant_conversations tid w)"
  have "list_conversations tid limit cur w = (map (conversation_item w) (take limit ?ys),
      if limit < length ?ys \<and> limit \<noteq> 0 then Some (cv_cursor (last (take limit ?ys))) else None)"
    by (simp add: list_conversations_def f cut_page_eq)
  moreover have "filter (\<lambda>x. case cur of None \<Rightarrow> True | Some k \<Rightarrow> cv_cursor (fst x) < k)
      (map (conversation_item w) (tenant_conversations tid w)) = map (conversation_item w) ?ys"
    by (cases cur) (simp_all add: filter_map comp_def)
  ultimately show ?case by (auto simp: Let_def take_map last_conversation_item)
qed auto

interpretation message_pages: cursor_pages
  "\<lambda>a b. (a :: cursor) < b" "conversation_messages cid" wf_conversations m_cursor "page_messages cid" for cid
proof (unfold_locales, goal_cases)
  case (3 w)
  then show ?case
    unfolding conversation_messages_def wf_conversations_def
    by (intro sorted_key_strict) (simp add: m_cursor_def distinct_cursor)
next
  case (4 w limit cur)
  have f: "repo_list_messages cid (Suc limit) cur w = take (Suc limit)
      (filter (\<lambda>m. case cur of None \<Rightarrow> True | Some k \<Rightarrow> k < m_cursor m) (conversation_messages cid w))"
    by (cases cur) (auto simp only: repo_list_messages_def cursor_less m_cursor_def split_beta option.case fst_conv snd_conv
        eq_commute [of "fst x" for x])
  show ?case by (simp add: page_messages_def f cut_page_eq Let_def)
qed auto

section \<open>Inbound messages\<close>

text \<open>The conversation an inbound message goes to.\<close>

definition sender_key :: "conversation \<Rightarrow> string \<times> string \<times> string" where
  "sender_key c = (cv_tenant_id c, cv_customer_identifier c, cv_channel c)"

definition picked :: "world \<Rightarrow> string \<times> string \<times> string \<Rightarrow> conversation option" where
  "picked w k = (case order_by_desc cv_created_at (filter (\<lambda>c. sender_key c = k \<and> cv_status c = CV_ACTIVE) (conversations w)) of
     [] \<Rightarrow> None | c # _ \<Rightarrow> Some c)"

lemma get_by_sender_eq: "get_conversation_by_sender tid ident ch w = (Inr (picked w (tid, ident, ch)), w)"
  unfolding get_conversation_by_sender_def bindA_apply getA_apply picked_def sender_key_def
  by (simp only: prod.case sum.case liftE_apply scalar_take1 prod.inject conj_assoc)

lemma insort_key_map: "(\<And>x. k (g x) = k x) \<Longrightarrow> insort_key k (g x) (map g xs) = map g (insort_key k x xs)"
  by (induction xs) auto

lemma order_by_desc_map:
  assumes "\<And>x. k (g x) = k x"
  shows "order_by_desc k (map g xs) = map g (order_by_desc k xs)"
  unfolding order_by_desc_def
  by (induction xs) (auto simp: insort_key_map [of "\<lambda>x. - k x" g] assms)

definition wf_inbound :: "world \<Rightarrow> bool" where
  "wf_inbound w \<longleftrightarrow> distinct (map cv_id (conversations w)) \<and> inj (uuid_src w)
     \<and> (\<forall>n\<ge>uuid_n w. uuid_src w n \<notin> cv_id ` set (conversations w))
     \<and> (\<forall>cid ext. length (filter (\<lambda>m. m_conversation_id m = cid \<and> m_external_id m = Some ext) (messages w)) \<le> 1)"

lemma scalar_le1: "length xs \<le> 1 \<Longrightarrow> scalar_one_or_none xs = Inr (case xs of [] \<Rightarrow> None | x # _ \<Rightarrow> Some x)"
  by (cases xs rule: scalar_one_or_none.cases) auto

definition stored :: "world \<Rightarrow> string \<Rightarrow> string \<Rightarrow> bool" where
  "stored w cid ext \<longleftrightarrow> (\<exists>m\<in>set (messages w). m_conversation_id m = cid \<and> m_external_id m = Some ext)"

lemma save_message_eq:
  assumes "wf_inbound w"
  shows "save_message cid tid role content (Some ext) ident w =
     (if stored w cid ext then (Inr None, w)
      else let m = \<lparr>m_id = uuid_src w (uuid_n w), m_tenant_id = tid, m_conversation_id = cid, m_sender_role = role,
               m_sender_identifier = ident, m_content = content, m_external_id = Some ext, m_created_at = clock w\<rparr>
           in (Inr (Some m), w\<lparr>uuid_n := Suc (uuid_n w), messages := messages w @ [m]\<rparr>))"
proof -
  let ?f = "filter (\<lambda>m. m_conversation_id m = cid \<and> m_external_id m = Some ext) (messages w)"
  have "length ?f \<le> 1" using assms by (simp add: wf_inbound_def)
  note s = scalar_le1 [OF this]
  show ?thesis
  proof (cases "stored w cid ext")
    case True
    then have "?f \<noteq> []" by (auto simp: stored_def filter_empty_conv)
    then obtain m ms where "?f = m # ms" by (cases ?f) auto
    with True s show ?thesis by (simp add: save_message_def get_message_by_external_id_def bindA_apply)
  next
    case False
    then have "?f = []" by (auto simp: stored_def filter_empty_conv)
    with False s show ?thesis
      by (simp add: save_message_def get_message_by_external_id_def bindA_apply insert_message_def Let_def)
  qed
qed

text \<open>The state after the conversation was found or created and its name brought up to date.\<close>

definition rename_to :: "string option \<Rightarrow> conversation \<Rightarrow> world \<Rightarrow> conversation \<times> world" where
  "rename_to sname c w = (case sname of
     Some n \<Rightarrow> if n \<noteq> [] \<and> cv_customer_name c \<noteq> Some n
       then (c\<lparr>cv_customer_name := Some n, cv_updated_at := clock w\<rparr>, w\<lparr>conversations := update_where (\<lambda>x. cv_id x = cv_id c)
               (\<lambda>x. x\<lparr>cv_customer_name := Some n, cv_updated_at := clock w\<rparr>) (conversations w)\<rparr>)
       else (c, w)
   | None \<Rightarrow> (c, w))"

definition new_conversation :: "world \<Rightarrow> string \<times> string \<times> string \<Rightarrow> conversation" where
  "new_conversation w k = (case k of (tid, ident, ch) \<Rightarrow> \<lparr>cv_id = uuid_src w (uuid_n w), cv_tenant_id = tid, cv_channel = ch, cv_customer_id = None,
     cv_customer_identifier = ident, cv_customer_name = None, cv_status = CV_ACTIVE, cv_assigned_to_user_id = None,
     cv_created_at = clock w, cv_updated_at = clock w\<rparr>)"

definition settle_conversation :: "string \<times> string \<times> string \<Rightarrow> string option \<Rightarrow> world \<Rightarrow> conversation \<times> world" where
  "settle_conversation k sname w = (case picked w k of
     Some c \<Rightarrow> rename_to sname c w
   | None \<Rightarrow> rename_to sname (new_conversation w k)
       (w\<lparr>uuid_n := Suc (uuid_n w), conversations := conversations w @ [new_conversation w k]\<rparr>))"

lemma handle_inbound_eq:
  "handle_inbound tid ch sender content ext None sname w =
     (case settle_conversation (tid, sender, ch) sname w of (c, w1) \<Rightarrow>
       bindA (save_message (cv_id c) tid ''user'' content ext (Some sender)) (\<lambda>m. ret (c, m)) w1)"
proof -
  have rn: "(case sname of
              Some n \<Rightarrow> if n \<noteq> [] \<and> cv_customer_name c \<noteq> Some n
                then set_conversation c (\<lambda>c. c\<lparr>cv_customer_name := Some n\<rparr>) else ret c
            | None \<Rightarrow> ret c) w = (Inr (fst (rename_to sname c w)), snd (rename_to sname c w))" for c w
  proof (cases sname)
    case (Some n)
    have "c\<lparr>cv_customer_name := Some n\<rparr> \<noteq> c" if "cv_customer_name c \<noteq> Some n" using that by (cases c) auto
    with Some show ?thesis by (simp add: rename_to_def set_conversation_def Let_def)
  qed (simp add: rename_to_def)
  show ?thesis
    unfolding handle_inbound_def settle_conversation_def get_or_create_conversation_def
    by (cases "picked w (tid, sender, ch)")
      (simp_all add: bindA_apply get_by_sender_eq rn create_conversation_def new_conversation_def Let_def split_beta)
qed

lemma rename_fields:
  "messages (snd (rename_to sname c w)) = messages w" "published (snd (rename_to sname c w)) = published w"
  "uuid_n (snd (rename_to sname c w)) = uuid_n w" "uuid_src (snd (rename_to sname c w)) = uuid_src w"
  "clock (snd (rename_to sname c w)) = clock w"
  "cv_id (fst (rename_to sname c w)) = cv_id c"
  by (auto simp: rename_to_def split: option.splits)

lemma rename_conversations:
  "\<exists>g. conversations (snd (rename_to sname c w)) = map g (conversations w)
     \<and> (\<forall>x. cv_id (g x) = cv_id x \<and> sender_key (g x) = sender_key x \<and> cv_status (g x) = cv_status x \<and> cv_created_at (g x) = cv_created_at x)"
proof (cases "snd (rename_to sname c w) = w")
  case True
  then show ?thesis by (intro exI [of _ "\<lambda>x. x"]) simp
next
  case False
  then obtain n where "snd (rename_to sname c w) = w\<lparr>conversations := update_where (\<lambda>x. cv_id x = cv_id c)
               (\<lambda>x. x\<lparr>cv_customer_name := Some n, cv_updated_at := clock w\<rparr>) (conversations w)\<rparr>"
    by (auto simp: rename_to_def split: option.splits if_splits)
  then show ?thesis
    by (intro exI [of _ "\<lambda>x. if cv_id x = cv_id c then x\<lparr>cv_customer_name := Some n, cv_updated_at := clock w\<rparr> else x"])
      (simp add: update_where_def sender_key_def)
qed

lemma picked_map:
  assumes "conversations w' = map g (conversations w)"
    and "\<forall>x. cv_id (g x) = cv_id x \<and> sender_key (g x) = sender_key x \<and> cv_status (g x) = cv_status x \<and> cv_created_at (g x) = cv_created_at x"
  shows "picked w' k = map_option g (picked w k)"
proof -
  have "filter (\<lambda>c. sender_key c = k \<and> cv_status c = CV_ACTIVE) (conversations w') =
      map g (filter (\<lambda>c. sender_key c = k \<and> cv_status c = CV_ACTIVE) (conversations w))"
    using assms by (simp add: filter_map comp_def)
  then show ?thesis
    using assms(2) by (simp add: picked_def order_by_desc_map split: list.splits)
qed

lemma picked_Some: "picked w k = Some c \<Longrightarrow> c \<in> set (conversations w) \<and> sender_key c = k \<and> cv_status c = CV_ACTIVE"
proof -
  assume "picked w k = Some c"
  then obtain ys where eq: "order_by_desc cv_created_at (filter (\<lambda>c. sender_key c = k \<and> cv_status c = CV_ACTIVE) (conversations w)) = c # ys"
    by (auto simp: picked_def split: list.splits)
  have "c \<in> set (order_by_desc cv_created_at (filter (\<lambda>c. sender_key c = k \<and> cv_status c = CV_ACTIVE) (conversations w)))"
    unfolding eq by simp
  then show ?thesis by simp
qed

lemma wf_inbound_map:
  assumes "wf_inbound w" and "conversations w' = map g (conversations w)" and "\<forall>x. cv_id (g x) = cv_id x"
    and "messages w' = messages w" and "uuid_src w' = uuid_src w" and "uuid_n w' = uuid_n w"
  shows "wf_inbound w'"
  using assms by (simp add: wf_inbound_def comp_def image_image)

definition same_pick :: "world \<Rightarrow> world \<Rightarrow> bool" where
  "same_pick w w' \<longleftrightarrow> (\<forall>k c. picked w k = Some c \<longrightarrow> (\<exists>c'. picked w' k = Some c' \<and> cv_id c' = cv_id c))"

lemma same_pick_refl [simp]: "same_pick w w"
  by (simp add: same_pick_def)

lemma same_pick_trans: "same_pick w w1 \<Longrightarrow> same_pick w1 w2 \<Longrightarrow> same_pick w w2"
  unfolding same_pick_def by metis

lemma same_pick_conversations: "conversations w' = conversations w \<Longrightarrow> same_pick w w'"
  by (simp add: same_pick_def picked_def)

lemma same_pickD: "same_pick w w' \<Longrightarrow> picked w k = Some c \<Longrightarrow> \<exists>c'. picked w' k = Some c' \<and> cv_id c' = cv_id c"
  unfolding same_pick_def by blast

lemma rename_ok:
  assumes "wf_inbound w"
  shows "wf_inbound (snd (rename_to sname c w)) \<and> same_pick w (snd (rename_to sname c w))"
proof -
  obtain g where g: "conversations (snd (rename_to sname c w)) = map g (conversations w)"
    "\<forall>x. cv_id (g x) = cv_id x \<and> sender_key (g x) = sender_key x \<and> cv_status (g x) = cv_status x \<and> cv_created_at (g x) = cv_created_at x"
    using rename_conversations by blast
  have "same_pick w (snd (rename_to sname c w))"
    using picked_map [OF g] g(2) by (simp add: same_pick_def)
  moreover have "wf_inbound (snd (rename_to sname c w))"
    by (rule wf_inbound_map [OF assms g(1)]) (use g(2) in \<open>simp_all add: rename_fields\<close>)
  ultimately show ?thesis by blast
qed

lemma append_new_ok:
  assumes wf: "wf_inbound w" and none: "picked w k = None"
  defines "w' \<equiv> w\<lparr>uuid_n := Suc (uuid_n w), conversations := conversations w @ [new_conversation w k]\<rparr>"
  shows "wf_inbound w' \<and> same_pick w w' \<and> picked w' k = Some (new_conversation w k)"
proof -
  obtain tid ident ch where k: "k = (tid, ident, ch)" by (cases k) auto
  have key: "sender_key (new_conversation w k) = k" "cv_status (new_conversation w k) = CV_ACTIVE"
    "cv_id (new_conversation w k) = uuid_src w (uuid_n w)"
    by (simp_all add: k new_conversation_def sender_key_def)
  have nil: "filter (\<lambda>c. sender_key c = k \<and> cv_status c = CV_ACTIVE) (conversations w) = []"
    using none unfolding picked_def by (auto split: list.splits)
  then have "picked w' k = Some (new_conversation w k)"
    using key by (simp add: picked_def w'_def order_by_desc_def)
  moreover have "picked w' k' = picked w k'" if "k' \<noteq> k" for k'
    using that key by (simp add: picked_def w'_def)
  moreover have "\<forall>n\<ge>Suc (uuid_n w). uuid_src w n \<noteq> uuid_src w (uuid_n w)"
    using wf by (auto simp: wf_inbound_def dest: injD)
  then have "wf_inbound w'"
    using wf key(3) by (auto simp: wf_inbound_def w'_def)
  ultimately show ?thesis using none by (auto simp: same_pick_def) (metis option.distinct(1))
qed

lemma settle_ok:
  assumes wf: "wf_inbound w" and st: "settle_conversation k sname w = (c, w1)"
  shows "wf_inbound w1 \<and> same_pick w w1 \<and> (\<exists>c'. picked w1 k = Some c' \<and> cv_id c' = cv_id c)
     \<and> messages w1 = messages w \<and> published w1 = published w"
proof (cases "picked w k")
  case None
  define w0 where "w0 = w\<lparr>uuid_n := Suc (uuid_n w), conversations := conversations w @ [new_conversation w k]\<rparr>"
  note new = append_new_ok [OF wf None, folded w0_def]
  have c: "c = fst (rename_to sname (new_conversation w k) w0)" "w1 = snd (rename_to sname (new_conversation w k) w0)"
    using st None by (simp_all add: settle_conversation_def w0_def)
  have rn: "wf_inbound w1" "same_pick w0 w1" using rename_ok new c(2) by blast+
  have "\<exists>c'. picked w1 k = Some c' \<and> cv_id c' = cv_id c"
    using same_pickD [OF rn(2)] new c(1) by (simp add: rename_fields)
  moreover have "messages w1 = messages w" "published w1 = published w"
    by (simp_all add: c(2) rename_fields w0_def)
  ultimately show ?thesis using rn new same_pick_trans by blast
next
  case (Some x)
  have c: "c = fst (rename_to sname x w)" "w1 = snd (rename_to sname x w)"
    using st Some by (simp_all add: settle_conversation_def)
  have rn: "wf_inbound w1" "same_pick w w1" using rename_ok [OF wf] c(2) by blast+
  have "\<exists>c'. picked w1 k = Some c' \<and> cv_id c' = cv_id c"
    using same_pickD [OF rn(2) Some] c(1) by (simp add: rename_fields)
  moreover have "messages w1 = messages w" "published w1 = published w"
    by (simp_all add: c(2) rename_fields)
  ultimately show ?thesis using rn by blast
qed

lemma save_message_none_eq:
  "save_message cid tid role content None ident w =
     (let m = \<lparr>m_id = uuid_src w (uuid_n w), m_tenant_id = tid, m_conversation_id = cid, m_sender_role = role,
               m_sender_identifier = ident, m_content = content, m_external_id = None, m_created_at = clock w\<rparr>
      in (Inr (Some m), w\<lparr>uuid_n := Suc (uuid_n w), messages := messages w @ [m]\<rparr>))"
  by (simp add: save_message_def bindA_apply insert_message_def Let_def)

lemma wf_inbound_message:
  assumes wf: "wf_inbound w" and new: "\<And>x. m_external_id m = Some x \<Longrightarrow> \<not> stored w (m_conversation_id m) x"
  shows "wf_inbound (w\<lparr>uuid_n := Suc (uuid_n w), messages := messages w @ [m]\<rparr>)"
proof -
  have "length (filter (\<lambda>m. m_conversation_id m = cid \<and> m_external_id m = Some ext) (messages w @ [m])) \<le> 1" for cid ext
  proof (cases "m_conversation_id m = cid \<and> m_external_id m = Some ext")
    case True
    with new have "filter (\<lambda>m. m_conversation_id m = cid \<and> m_external_id m = Some ext) (messages w) = []"
      by (auto simp: stored_def filter_empty_conv)
    then show ?thesis by simp
  next
    case False
    moreover have "length (filter (\<lambda>m. m_conversation_id m = cid \<and> m_external_id m = Some ext) (messages w)) \<le> 1"
      using wf by (simp add: wf_inbound_def)
    ultimately show ?thesis by auto
  qed
  with wf show ?thesis by (simp add: wf_inbound_def)
qed

lemma save_message_ok:
  assumes wf: "wf_inbound w" and run: "save_message cid tid role content ext ident w = (r, w')"
  shows "(\<exists>m. r = Inr m \<and> (m = None \<longleftrightarrow> (\<exists>x. ext = Some x \<and> stored w cid x)) \<and> (m = None \<longrightarrow> w' = w)) \<and> wf_inbound w'
     \<and> conversations w' = conversations w \<and> published w' = published w
     \<and> (\<forall>c x. stored w c x \<longrightarrow> stored w' c x) \<and> (\<forall>x. ext = Some x \<longrightarrow> stored w' cid x)"
proof (cases "\<exists>x. ext = Some x \<and> stored w cid x")
  case True
  with run wf show ?thesis by (auto simp: save_message_eq)
next
  case False
  define m where "m = \<lparr>m_id = uuid_src w (uuid_n w), m_tenant_id = tid, m_conversation_id = cid, m_sender_role = role,
      m_sender_identifier = ident, m_content = content, m_external_id = ext, m_created_at = clock w\<rparr>"
  have "save_message cid tid role content ext ident w = (Inr (Some m), w\<lparr>uuid_n := Suc (uuid_n w), messages := messages w @ [m]\<rparr>)"
    using False by (cases ext) (simp_all add: save_message_none_eq save_message_eq [OF wf] Let_def m_def)
  moreover have "wf_inbound (w\<lparr>uuid_n := Suc (uuid_n w), messages := messages w @ [m]\<rparr>)"
    by (rule wf_inbound_message [OF wf]) (use False in \<open>simp add: m_def\<close>)
  ultimately show ?thesis using run False by (auto simp: stored_def m_def)
qed

definition event_key :: "event \<Rightarrow> string \<times> string \<times> string" where
  "event_key e = (ev_tenant_id e, sender_of (ev_payload e), payload_str (ev_payload e) ''channel'')"

definition complete_event :: "event \<Rightarrow> bool" where
  "complete_event e \<longleftrightarrow> ev_tenant_id e \<noteq> [] \<and> payload_str (ev_payload e) ''channel'' \<noteq> [] \<and> sender_of (ev_payload e) \<noteq> []
     \<and> payload_str (ev_payload e) ''message'' \<noteq> []"

lemma received_cases:
  assumes wf: "wf_inbound w" and ce: "complete_event e"
  obtains c w1 where "wf_inbound w1" and "same_pick w w1" and "picked w1 (event_key e) \<noteq> None"
      and "cv_id c = cv_id (the (picked w1 (event_key e)))" and "messages w1 = messages w" and "published w1 = published w"
      and "\<exists>m w2. save_message (cv_id c) (ev_tenant_id e) ''user'' (payload_str (ev_payload e) ''message'') (external_id_of (ev_payload e))
             (Some (sender_of (ev_payload e))) w1 = (Inr m, w2)
           \<and> exec (handle_message_received e) w = (case m of None \<Rightarrow> w2
               | Some m \<Rightarrow> exec (emit ''conversation.message_saved'' (ev_tenant_id e) (saved_payload c m e (sender_of (ev_payload e))
                   (payload_str (ev_payload e) ''message'') (payload_str (ev_payload e) ''channel''))) w2)"
proof -
  obtain c w1 where st: "settle_conversation (event_key e) (payload_opt (ev_payload e) ''sender_name'') w = (c, w1)" by force
  note ok = settle_ok [OF wf st]
  obtain r w2 where sv: "save_message (cv_id c) (ev_tenant_id e) ''user'' (payload_str (ev_payload e) ''message'')
      (external_id_of (ev_payload e)) (Some (sender_of (ev_payload e))) w1 = (r, w2)" by force
  with save_message_ok ok obtain m where m: "r = Inr m" by blast
  have "exec (handle_message_received e) w = (case m of None \<Rightarrow> w2
               | Some m \<Rightarrow> exec (emit ''conversation.message_saved'' (ev_tenant_id e) (saved_payload c m e (sender_of (ev_payload e))
                   (payload_str (ev_payload e) ''message'') (payload_str (ev_payload e) ''channel''))) w2)"
    using ce st sv m by (simp add: handle_message_received_def complete_event_def Let_def exec_def bindA_apply session_begin_def
        handle_inbound_eq event_key_def split: option.splits)
  with ok sv m show thesis by (intro that [of w1 c]) auto
qed

definition receive :: "event \<Rightarrow> world \<Rightarrow> world" where
  "receive e w = exec (handle_message_received e) w"

lemma receive_ok:
  assumes wf: "wf_inbound w"
  shows "wf_inbound (receive e w) \<and> same_pick w (receive e w) \<and> (\<forall>c x. stored w c x \<longrightarrow> stored (receive e w) c x)
     \<and> (complete_event e \<longrightarrow> (\<forall>x. external_id_of (ev_payload e) = Some x \<longrightarrow>
          (\<exists>c. picked (receive e w) (event_key e) = Some c \<and> stored (receive e w) (cv_id c) x)))"
proof (cases "complete_event e")
  case False
  then have "receive e w = w"
    by (auto simp: receive_def handle_message_received_def complete_event_def exec_def Let_def)
  with wf False show ?thesis by simp
next
  case True
  obtain c w1 where w1: "wf_inbound w1" "same_pick w w1" "picked w1 (event_key e) \<noteq> None"
      "cv_id c = cv_id (the (picked w1 (event_key e)))" "messages w1 = messages w" "published w1 = published w"
      "\<exists>m w2. save_message (cv_id c) (ev_tenant_id e) ''user'' (payload_str (ev_payload e) ''message'') (external_id_of (ev_payload e))
             (Some (sender_of (ev_payload e))) w1 = (Inr m, w2)
           \<and> exec (handle_message_received e) w = (case m of None \<Rightarrow> w2
               | Some m \<Rightarrow> exec (emit ''conversation.message_saved'' (ev_tenant_id e) (saved_payload c m e (sender_of (ev_payload e))
                   (payload_str (ev_payload e) ''message'') (payload_str (ev_payload e) ''channel''))) w2)"
    by (rule received_cases [OF wf True])
  then obtain m w2 where sv: "save_message (cv_id c) (ev_tenant_id e) ''user'' (payload_str (ev_payload e) ''message'') (external_id_of (ev_payload e))
             (Some (sender_of (ev_payload e))) w1 = (Inr m, w2)"
    and rc: "messages (receive e w) = messages w2" "conversations (receive e w) = conversations w2" "uuid_src (receive e w) = uuid_src w2"
      "uuid_n w2 \<le> uuid_n (receive e w)"
    by (auto simp: receive_def exec_def split: option.splits)
  note ok = save_message_ok [OF w1(1) sv]
  have "wf_inbound w2" using ok by blast
  with rc have wf': "wf_inbound (receive e w)" by (simp add: wf_inbound_def)
  have sp: "same_pick w1 (receive e w)" using ok rc by (intro same_pick_conversations) simp
  have st: "stored (receive e w) = stored w2" by (simp add: stored_def rc(1) fun_eq_iff)
  have st1: "stored w1 = stored w" by (simp add: stored_def w1(5) fun_eq_iff)
  obtain c1 where c1: "picked w1 (event_key e) = Some c1" "cv_id c = cv_id c1" using w1(3,4) by auto
  from same_pickD [OF sp c1(1)] obtain c2 where "picked (receive e w) (event_key e) = Some c2" "cv_id c2 = cv_id c" using c1 by auto
  with wf' sp st st1 ok same_pick_trans [OF w1(2) sp] show ?thesis by auto
qed

lemma receive_stored:
  assumes wf: "wf_inbound w" and "complete_event e" and "external_id_of (ev_payload e) = Some x"
    and "picked w (event_key e) = Some c" and "stored w (cv_id c) x"
  shows "messages (receive e w) = messages w \<and> published (receive e w) = published w"
proof -
  obtain c' w1 where w1: "wf_inbound w1" "same_pick w w1" "picked w1 (event_key e) \<noteq> None"
      "cv_id c' = cv_id (the (picked w1 (event_key e)))" "messages w1 = messages w" "published w1 = published w"
      "\<exists>m w2. save_message (cv_id c') (ev_tenant_id e) ''user'' (payload_str (ev_payload e) ''message'') (external_id_of (ev_payload e))
             (Some (sender_of (ev_payload e))) w1 = (Inr m, w2)
           \<and> exec (handle_message_received e) w = (case m of None \<Rightarrow> w2
               | Some m \<Rightarrow> exec (emit ''conversation.message_saved'' (ev_tenant_id e) (saved_payload c' m e (sender_of (ev_payload e))
                   (payload_str (ev_payload e) ''message'') (payload_str (ev_payload e) ''channel''))) w2)"
    by (rule received_cases [OF wf assms(2)])
  have "cv_id c' = cv_id c" using same_pickD [OF w1(2) assms(4)] w1(4) by auto
  moreover have "stored w1 (cv_id c) x" using assms(5) w1(5) by (simp add: stored_def)
  ultimately show ?thesis
    using w1 save_message_eq [OF w1(1)] assms(3) by (auto simp: receive_def)
qed

lemma receives_ok:
  assumes "wf_inbound w"
  shows "wf_inbound (fold receive es w) \<and> same_pick w (fold receive es w) \<and> (\<forall>c x. stored w c x \<longrightarrow> stored (fold receive es w) c x)"
  using assms
proof (induction es arbitrary: w)
  case (Cons e es)
  note r = receive_ok [OF Cons.prems, of e]
  from Cons.IH [of "receive e w"] r show ?case using same_pick_trans by auto
qed simp

lemma receive_again:
  assumes "wf_inbound w" and "complete_event e" and "external_id_of (ev_payload e) = Some x"
    and "w2 = fold receive es (receive e w)"
  shows "messages (receive e w2) = messages w2 \<and> published (receive e w2) = published w2 \<and> wf_inbound w2"
proof -
  note r = receive_ok [OF assms(1), of e]
  obtain c where c: "picked (receive e w) (event_key e) = Some c" "stored (receive e w) (cv_id c) x" using r assms(2,3) by blast
  note rs = receives_ok [of "receive e w" es, folded assms(4)]
  have wf2: "wf_inbound w2" using rs r by blast
  obtain c2 where "picked w2 (event_key e) = Some c2" "cv_id c2 = cv_id c" using same_pickD [OF _ c(1)] rs r by blast
  with receive_stored [OF wf2 assms(2,3)] c rs r wf2 show ?thesis by auto
qed

section \<open>Properties\<close>

text \<open>
  An inbound message is stored once, whatever the webhook repeats. If a complete \<open>message.received\<close> event with a channel
  id has been handled, handling it again later, after any other events, stores no message and publishes
  nothing.
\<close>

theorem inbound_stored_once:
  assumes "wf_inbound w" and "complete_event e" and "external_id_of (ev_payload e) = Some x"
    and "w2 = fold receive es (receive e w)"
  shows "messages (receive e w2) = messages w2 \<and> published (receive e w2) = published w2 \<and> wf_inbound w2"
  using assms by (rule receive_again)

definition sample_received :: event where
  "sample_received = \<lparr>ev_event_name = ''message.received'', ev_tenant_id = ''t1'', ev_payload = [(''channel'', JStr ''whatsapp''),
     (''sender_identifier'', JStr ''234''), (''message'', JStr ''hi''), (''message_id'', JStr ''wamid1'')], ev_event_id = ''e1'', ev_timestamp = 0\<rparr>"

lemma wf_inbound_empty: "wf_inbound empty_world"
  by (simp add: wf_inbound_def empty_world_def inj_replicate)

theorem inbound_stored_once_witness:
  "messages (receive sample_received (fold receive [sample_received] (receive sample_received empty_world)))
     = messages (fold receive [sample_received] (receive sample_received empty_world))"
proof -
  have c: "complete_event sample_received"
    by (simp add: complete_event_def sample_received_def payload_str_def payload_get_def sender_of_def)
  have x: "external_id_of (ev_payload sample_received) = Some ''wamid1''"
    by (simp add: sample_received_def external_id_of_def payload_str_def payload_get_def)
  from inbound_stored_once [OF wf_inbound_empty c x refl, of "[sample_received]"] show ?thesis by blast
qed

text \<open>
  C22: following the cursors shows everything once. Asking page after page, with any positive page size, for the
  messages of a conversation or the conversations of a tenant returns exactly those rows, oldest message
  first and most recently updated conversation first, with none missing or repeated.
\<close>

theorem cursor_walk_complete:
  assumes "wf_conversations w" and "0 < limit" and "length (messages w) < n" and "length (conversations w) < n"
  shows "walk (page_messages cid) n limit None w = conversation_messages cid w
     \<and> mset (conversation_messages cid w) = mset (filter (\<lambda>m. m_conversation_id m = cid) (messages w))
     \<and> map fst (walk (list_conversations (Some tid)) n limit None w) = tenant_conversations (Some tid) w
     \<and> mset (tenant_conversations (Some tid) w) = mset (filter (\<lambda>c. cv_tenant_id c = tid) (conversations w))"
proof -
  have "length (conversation_messages cid w) < n"
    using le_less_trans [OF length_filter_le assms(3)] by (simp add: conversation_messages_def)
  then have "walk (page_messages cid) n limit None w = conversation_messages cid w"
    by (rule message_pages.walk_all [OF assms(1,2)])
  moreover have "length (map (conversation_item w) (tenant_conversations (Some tid) w)) < n"
    using le_less_trans [OF length_filter_le assms(4)] by (simp add: tenant_conversations_def)
  then have "walk (list_conversations (Some tid)) n limit None w = map (conversation_item w) (tenant_conversations (Some tid) w)"
    by (rule conversation_pages.walk_all [OF assms(1,2)])
  ultimately show ?thesis
    by (simp add: comp_def conversation_messages_def tenant_conversations_def)
qed

theorem cursor_walk_complete_witness:
  "walk (page_messages ''c1'') 5 1 None (receive sample_received empty_world) = conversation_messages ''c1'' (receive sample_received empty_world)"
proof -
  let ?w = "receive sample_received empty_world"
  have w: "length (messages ?w) = 1" "length (conversations ?w) = 1"
    by (simp_all add: receive_def exec_def handle_message_received_def sample_received_def payload_str_def payload_get_def payload_opt_def
        sender_of_def external_id_of_def session_begin_def handle_inbound_def get_or_create_conversation_def act_simps
        get_conversation_by_sender_def create_conversation_def save_message_def get_message_by_external_id_def insert_message_def
        empty_world_def Let_def)
  have "wf_conversations ?w"
  proof -
    from w obtain c m where "conversations ?w = [c]" "messages ?w = [m]"
      by (metis One_nat_def length_0_conv length_Suc_conv)
    then show ?thesis by (simp add: wf_conversations_def)
  qed
  from cursor_walk_complete [OF this, of 1 5 "''c1''"] w show ?thesis by simp
qed

section \<open>Reactions\<close>

text \<open>The abstract view: at most one emoji per message and user.\<close>

definition wf_reactions :: "world \<Rightarrow> bool" where
  "wf_reactions w \<longleftrightarrow> distinct (map mr_id (message_reactions w)) \<and> distinct (map mr_key (message_reactions w)) \<and> inj (uuid_src w)
     \<and> (\<forall>n\<ge>uuid_n w. uuid_src w n \<notin> mr_id ` set (message_reactions w))"

definition reaction_row :: "world \<Rightarrow> string \<times> string \<Rightarrow> message_reaction option" where
  "reaction_row w k = find (\<lambda>r. mr_key r = k \<and> True) (message_reactions w)"

definition reactions :: "world \<Rightarrow> string \<times> string \<rightharpoonup> string" where
  "reactions w k = map_option mr_emoji (reaction_row w k)"

lemma get_reaction_eq: "wf_reactions w \<Longrightarrow> get_reaction mid uid w = (Inr (reaction_row w (mid, uid)), w)"
  using scalar_key [of mr_key "message_reactions w" "(mid, uid)" "\<lambda>_. True"]
  by (simp add: get_reaction_def bindA_apply reaction_row_def wf_reactions_def)

lemma reaction_row_Some: "reaction_row w k = Some r \<Longrightarrow> r \<in> set (message_reactions w) \<and> mr_key r = k"
  unfolding reaction_row_def by (drule find_Some_iff2) simp

lemma find_filter_id:
  assumes "distinct (map i xs)" and "distinct (map k xs)" and "x \<in> set xs"
  shows "find (\<lambda>y. k y = a \<and> True) (filter (\<lambda>y. i y \<noteq> i x) xs) = (if k x = a then None else find (\<lambda>y. k y = a \<and> True) xs)"
  using assms
proof (induction xs)
  case (Cons y ys)
  show ?case
  proof (cases "y = x")
    case True
    have "\<forall>z\<in>set ys. i z \<noteq> i x" "\<forall>z\<in>set ys. k z \<noteq> k x"
      using distinct_map_Cons_neq [OF Cons.prems(1)] distinct_map_Cons_neq [OF Cons.prems(2)] True by simp_all
    with True show ?thesis by (auto simp: filter_True find_None_iff)
  next
    case False
    with Cons.prems have "i y \<noteq> i x" "k y \<noteq> k x" by (auto simp: distinct_map inj_on_def)
    with False Cons show ?thesis by auto
  qed
qed simp

lemma delete_reaction_refines:
  assumes wf: "wf_reactions w" and r: "reaction_row w (mid, uid) = Some r"
  shows "\<exists>w'. delete_reaction mid uid w = (Inr True, w') \<and> wf_reactions w' \<and> reactions w' = (reactions w)((mid, uid) := None)"
proof -
  note mem = reaction_row_Some [OF r]
  let ?w = "w\<lparr>message_reactions := filter (\<lambda>x. mr_id x \<noteq> mr_id r) (message_reactions w)\<rparr>"
  have "wf_reactions ?w"
    using wf by (auto simp: wf_reactions_def distinct_map_filter)
  moreover have "reactions ?w = (reactions w)((mid, uid) := None)"
  proof
    fix k
    show "reactions ?w k = ((reactions w)((mid, uid) := None)) k"
      using find_filter_id [of mr_id "message_reactions w" mr_key r k] wf mem
      by (auto simp: reactions_def reaction_row_def wf_reactions_def)
  qed
  ultimately show ?thesis
    by (simp add: delete_reaction_def bindA_apply thenA_apply get_reaction_eq [OF wf] r)
qed

lemma upsert_reaction_refines:
  assumes wf: "wf_reactions w"
  shows "\<exists>x w'. upsert_reaction mid tid uid emoji w = (Inr x, w') \<and> wf_reactions w' \<and> reactions w' = (reactions w)((mid, uid) \<mapsto> emoji)"
proof (cases "reaction_row w (mid, uid)")
  case (Some r)
  note mem = reaction_row_Some [OF Some]
  let ?f = "\<lambda>x::message_reaction. x\<lparr>mr_emoji := emoji\<rparr>"
  let ?w = "w\<lparr>message_reactions := update_where (\<lambda>x. mr_id x = mr_id r) ?f (message_reactions w)\<rparr>"
  have "wf_reactions ?w"
    using wf by (simp add: wf_reactions_def map_update_where_same image_update_where_same mr_key_def)
  moreover have "reactions ?w = (reactions w)((mid, uid) \<mapsto> emoji)"
  proof
    fix k
    have "reaction_row ?w k = (if mr_key r = k \<and> reaction_row w k = Some r then Some (?f r) else reaction_row w k)"
      using find_update_key [of mr_id "message_reactions w" r mr_key ?f k] wf mem
      by (simp add: reaction_row_def wf_reactions_def mr_key_def)
    then show "reactions ?w k = ((reactions w)((mid, uid) \<mapsto> emoji)) k"
      using Some mem by (auto simp: reactions_def)
  qed
  ultimately show ?thesis
    by (simp add: upsert_reaction_def bindA_apply thenA_apply get_reaction_eq [OF wf] Some)
next
  case None
  define r where "r = \<lparr>mr_id = uuid_src w (uuid_n w), mr_message_id = mid, mr_tenant_id = tid, mr_user_id = uid, mr_emoji = emoji,
    mr_created_at = clock w\<rparr>"
  let ?w = "w\<lparr>uuid_n := Suc (uuid_n w), message_reactions := message_reactions w @ [r]\<rparr>"
  have key: "mr_key r = (mid, uid)" "mr_id r = uuid_src w (uuid_n w)" by (simp_all add: r_def mr_key_def)
  have "(mid, uid) \<notin> mr_key ` set (message_reactions w)"
    using None by (auto simp: reaction_row_def find_None_iff)
  moreover have "\<forall>n\<ge>Suc (uuid_n w). uuid_src w n \<noteq> uuid_src w (uuid_n w)"
    using wf by (auto simp: wf_reactions_def dest: injD)
  ultimately have "wf_reactions ?w"
    using wf key by (simp add: wf_reactions_def)
  moreover have "reactions ?w = (reactions w)((mid, uid) \<mapsto> emoji)"
    using None key by (auto simp: reactions_def reaction_row_def find_append_option r_def fun_eq_iff split: option.splits)
  ultimately show ?thesis
    using None by (simp add: upsert_reaction_def bindA_apply get_reaction_eq [OF wf] r_def Let_def)
qed

text \<open>
  Reactions toggle. Whenever a reaction is accepted (the conversation and the message exist), the user's emoji on
  that message is removed if it was the same one and set to the new one otherwise, every other user's and
  message's reaction stays, and there is still at most one per user and message.
\<close>

theorem reaction_toggles:
  assumes "wf_reactions w" and "react_to_message cid mid uid emoji w = (Inr m, w')"
  shows "reactions w' = (reactions w)((mid, uid) := (if reactions w (mid, uid) = Some emoji then None else Some emoji))
     \<and> wf_reactions w'"
proof -
  from assms(2) obtain c w0 where c0: "conv_get_by_id cid None w = (Inr c, w0)"
    unfolding react_to_message_def by (elim bindA_InrE) blast
  moreover from this have "w0 = w"
    by (auto simp: conv_get_by_id_def get_conversation_by_id_def act_simps split: prod.splits sum.splits option.splits)
  ultimately have c: "conv_get_by_id cid None w = (Inr c, w)" by simp
  obtain mr where mr: "get_message_by_id mid cid w = (mr, w)"
    by (auto simp: get_message_by_id_def act_simps split: sum.splits)
  from assms(2) obtain m' where "mr = Inr (Some m')"
    by (cases mr) (auto simp: react_to_message_def bindA_apply raise_apply c mr split: option.splits)
  with mr have m: "get_message_by_id mid cid w = (Inr (Some m'), w)" by simp
  define change where "change = (case reaction_row w (mid, uid) of
                  Some r \<Rightarrow> if mr_emoji r = emoji then thenA (delete_reaction mid uid) (ret ())
                            else thenA (upsert_reaction mid (cv_tenant_id c) uid emoji) (ret ())
                | None \<Rightarrow> thenA (upsert_reaction mid (cv_tenant_id c) uid emoji) (ret ()))"
  have "\<exists>w1. change w = (Inr (), w1) \<and> wf_reactions w1
      \<and> reactions w1 = (reactions w)((mid, uid) := (if reactions w (mid, uid) = Some emoji then None else Some emoji))"
  proof (cases "reactions w (mid, uid) = Some emoji")
    case True
    then obtain r where r: "reaction_row w (mid, uid) = Some r" "mr_emoji r = emoji" by (auto simp: reactions_def)
    with delete_reaction_refines [OF assms(1) r(1)] True show ?thesis by (auto simp: change_def thenA_apply)
  next
    case False
    then have "change = thenA (upsert_reaction mid (cv_tenant_id c) uid emoji) (ret ())"
      by (auto simp: change_def reactions_def split: option.splits)
    with upsert_reaction_refines [OF assms(1), of mid "cv_tenant_id c" uid emoji] False show ?thesis by (auto simp: thenA_apply)
  qed
  then obtain w1 where w1: "change w = (Inr (), w1)" "wf_reactions w1"
    "reactions w1 = (reactions w)((mid, uid) := (if reactions w (mid, uid) = Some emoji then None else Some emoji))" by blast
  have run: "react_to_message cid mid uid emoji w = (Inr m', exec (emit ''message.reaction_updated'' (cv_tenant_id c)
      [(''conversation_id'', JStr cid), (''message_id'', JStr mid), (''reactions'', reactions_json mid w1)]) w1)"
    using w1(1) by (simp add: react_to_message_def bindA_apply thenA_apply c m get_reaction_eq [OF assms(1)] change_def [symmetric] exec_def)
  from run assms(2) w1(2,3) show ?thesis
    by (auto simp: exec_def reactions_def reaction_row_def wf_reactions_def fun_eq_iff)
qed

definition talked_world :: world where
  "talked_world = empty_world\<lparr>
     conversations := [\<lparr>cv_id = ''c1'', cv_tenant_id = ''t1'', cv_channel = ''whatsapp'', cv_customer_id = None,
       cv_customer_identifier = ''234'', cv_customer_name = None, cv_status = CV_ACTIVE, cv_assigned_to_user_id = None,
       cv_created_at = 0, cv_updated_at = 0\<rparr>],
     messages := [\<lparr>m_id = ''m1'', m_tenant_id = ''t1'', m_conversation_id = ''c1'', m_sender_role = ''user'',
       m_sender_identifier = Some ''234'', m_content = ''hi'', m_external_id = None, m_created_at = 0\<rparr>]\<rparr>"

lemma wf_reactions_talked: "wf_reactions talked_world"
  by (simp add: wf_reactions_def talked_world_def empty_world_def inj_replicate)

theorem reaction_toggles_witness:
  "reactions (exec (react_to_message ''c1'' ''m1'' ''u1'' ''ok'') talked_world) (''m1'', ''u1'') = Some ''ok''"
proof -
  have "fst (react_to_message ''c1'' ''m1'' ''u1'' ''ok'' talked_world) = Inr (hd (messages talked_world))"
    by (simp add: react_to_message_def conv_get_by_id_def get_conversation_by_id_def get_message_by_id_def get_reaction_def
        upsert_reaction_def scoped_def talked_world_def empty_world_def act_simps Let_def)
  then have "react_to_message ''c1'' ''m1'' ''u1'' ''ok'' talked_world
      = (Inr (hd (messages talked_world)), exec (react_to_message ''c1'' ''m1'' ''u1'' ''ok'') talked_world)"
    by (simp add: exec_def prod_eq_iff)
  from reaction_toggles [OF wf_reactions_talked this] show ?thesis
    by (simp add: reactions_def reaction_row_def talked_world_def empty_world_def)
qed

end
