(* ===== verification/Credit_Sales.thy ===== *)
theory Credit_Sales
  imports Conversations Order_Service Pystring Delivery
begin

text \<open>
  Credit sales (\<open>src/app/modules/credit_sales/service.py\<close>, \<open>repository.py\<close>, \<open>models.py\<close>, \<open>schemas.py\<close>, and the
  status handler of \<open>src/app/modules/orders/handlers.py\<close>): an order fulfilled on credit is tracked until it is
  settled, disputed or written off; reminders are bounded; settling publishes an event that pays the order.
  Each status change commits before it publishes, so its effects stay even when the response cannot be
  built. The \<open>updated_at\<close> column is left out.
\<close>

section \<open>Schemas\<close>

record credit_sale_create =
  csc_order_id :: string
  csc_conversation_id :: "string option"
  csc_customer_name :: string
  csc_amount :: decimal
  csc_currency :: string
  csc_due_date :: "timestamp option"
  csc_reminder_interval_days :: int
  csc_max_reminders :: int
  csc_notes :: "string option"

definition valid_credit_sale_create :: "credit_sale_create \<Rightarrow> bool" where
  "valid_credit_sale_create b \<longleftrightarrow> 0 < csc_amount b \<and> 1 \<le> csc_reminder_interval_days b \<and> csc_reminder_interval_days b \<le> 30
     \<and> 1 \<le> csc_max_reminders b \<and> csc_max_reminders b \<le> 20"

text \<open>\<open>CreditSaleOut.model_validate\<close>: the response needs an order.\<close>

definition credit_sale_out :: "credit_sale \<Rightarrow> error + credit_sale" where
  "credit_sale_out c = (case cs_order_id c of None \<Rightarrow> Inl (ValueError ''order_id'') | Some _ \<Rightarrow> Inr c)"

section \<open>Repository\<close>

text \<open>An insert needs an existing order, and conversation if it names one, and an order no other sale has.\<close>

definition cs_create :: "credit_sale \<Rightarrow> credit_sale svc" where
  "cs_create c = bindA uuid4 (\<lambda>i w. let c' = c\<lparr>cs_id := i, cs_created_at := clock w\<rparr> in
     if cs_order_id c \<noteq> None \<and> cs_order_id c \<in> set (map cs_order_id (credit_sales w))
     then (Inl (IntegrityError ''uq_credit_sales_order_id''), w)
     else if (\<exists>oid. cs_order_id c = Some oid \<and> oid \<notin> set (map o_id (orders w)))
     then (Inl (IntegrityError ''credit_sales_order_id_fkey''), w)
     else if (\<exists>cid. cs_conversation_id c = Some cid \<and> cid \<notin> set (map cv_id (conversations w)))
     then (Inl (IntegrityError ''credit_sales_conversation_id_fkey''), w)
     else (Inr c', w\<lparr>credit_sales := credit_sales w @ [c']\<rparr>))"

definition cs_get_by_id :: "string \<Rightarrow> string \<Rightarrow> credit_sale option svc" where
  "cs_get_by_id cid tid = bindA (getA credit_sales) (\<lambda>cs.
     liftE (scalar_one_or_none (filter (\<lambda>c. cs_id c = cid \<and> cs_tenant_id c = tid) cs)))"

definition cs_get_by_order_id :: "string \<Rightarrow> string \<Rightarrow> credit_sale option svc" where
  "cs_get_by_order_id oid tid = bindA (getA credit_sales) (\<lambda>cs.
     liftE (scalar_one_or_none (filter (\<lambda>c. cs_order_id c = Some oid \<and> cs_tenant_id c = tid) cs)))"

definition cs_list :: "string \<Rightarrow> credit_sale_status option \<Rightarrow> world \<Rightarrow> credit_sale list" where
  "cs_list tid st w = order_by_desc cs_created_at (filter (\<lambda>c. cs_tenant_id c = tid
     \<and> (case st of None \<Rightarrow> True | Some s \<Rightarrow> cs_status c = s)) (credit_sales w))"

definition set_credit_sale :: "credit_sale \<Rightarrow> (credit_sale \<Rightarrow> credit_sale) \<Rightarrow> credit_sale svc" where
  "set_credit_sale c f = thenA (modA (\<lambda>w. w\<lparr>credit_sales := update_where (\<lambda>x. cs_id x = cs_id c) f (credit_sales w)\<rparr>)) (ret (f c))"

definition cs_update_status :: "credit_sale \<Rightarrow> credit_sale_status \<Rightarrow> credit_sale svc" where
  "cs_update_status c st = set_credit_sale c (\<lambda>c. c\<lparr>cs_status := st\<rparr>)"

definition increment_reminder :: "credit_sale \<Rightarrow> credit_sale svc" where
  "increment_reminder c = bindA (getA clock) (\<lambda>now.
     set_credit_sale c (\<lambda>c. c\<lparr>cs_reminders_sent := cs_reminders_sent c + 1, cs_last_reminded_at := Some now\<rparr>))"

section \<open>Service\<close>

definition new_credit_sale :: "string \<Rightarrow> credit_sale_create \<Rightarrow> credit_sale" where
  "new_credit_sale tid b = \<lparr>cs_id = [], cs_tenant_id = tid, cs_order_id = Some (csc_order_id b),
     cs_conversation_id = csc_conversation_id b, cs_customer_name = csc_customer_name b, cs_amount = csc_amount b,
     cs_currency = csc_currency b, cs_due_date = csc_due_date b, cs_status = CS_ACTIVE, cs_notes = csc_notes b,
     cs_reminder_interval_days = csc_reminder_interval_days b, cs_max_reminders = csc_max_reminders b,
     cs_reminders_sent = 0, cs_last_reminded_at = None, cs_created_at = 0\<rparr>"

definition create_credit_sale :: "string \<Rightarrow> credit_sale_create \<Rightarrow> credit_sale svc" where
  "create_credit_sale tid b = bindA (cs_get_by_order_id (csc_order_id b) tid) (\<lambda>existing. case existing of
     Some c \<Rightarrow> liftE (credit_sale_out c)
   | None \<Rightarrow> bindA (cs_create (new_credit_sale tid b)) (\<lambda>c. liftE (credit_sale_out c)))"

text \<open>The items and their number; one row the response type rejects fails the whole list.\<close>

fun validate_all :: "credit_sale list \<Rightarrow> error + credit_sale list" where
  "validate_all [] = Inr []"
| "validate_all (c # cs) = (case credit_sale_out c of Inl e \<Rightarrow> Inl e | Inr x \<Rightarrow>
     (case validate_all cs of Inl e \<Rightarrow> Inl e | Inr xs \<Rightarrow> Inr (x # xs)))"

definition list_credit_sales :: "string \<Rightarrow> credit_sale_status option \<Rightarrow> (credit_sale list \<times> nat) svc" where
  "list_credit_sales tid st = bindA (getA (cs_list tid st)) (\<lambda>items.
     bindA (liftE (validate_all items)) (\<lambda>xs. ret (xs, length items)))"

definition credit_sale_or_404 :: "string \<Rightarrow> string \<Rightarrow> credit_sale svc" where
  "credit_sale_or_404 cid tid = bindA (cs_get_by_id cid tid) (\<lambda>c. case c of
     None \<Rightarrow> raise (NotFoundError ''CreditSale'' cid) | Some c \<Rightarrow> ret c)"

definition get_credit_sale :: "string \<Rightarrow> string \<Rightarrow> credit_sale svc" where
  "get_credit_sale cid tid = bindA (credit_sale_or_404 cid tid) (\<lambda>c. liftE (credit_sale_out c))"

definition publish_status_changed :: "credit_sale \<Rightarrow> string \<Rightarrow> string \<Rightarrow> unit svc" where
  "publish_status_changed c new_status tid = emit ''credit_sale.status_changed'' tid
     [(''credit_sale_id'', JStr (cs_id c)), (''order_id'', opt_json (cs_order_id c)), (''new_status'', JStr new_status)]"

definition change_status :: "credit_sale_status \<Rightarrow> string \<Rightarrow> string \<Rightarrow> string \<Rightarrow> credit_sale svc" where
  "change_status st name cid tid = bindA (credit_sale_or_404 cid tid) (\<lambda>c.
     bindA (cs_update_status c st) (\<lambda>c'.
     thenA (publish_status_changed c' name tid) (liftE (credit_sale_out c'))))"

definition settle :: "string \<Rightarrow> string \<Rightarrow> credit_sale svc" where
  "settle = change_status CS_SETTLED ''settled''"

definition dispute :: "string \<Rightarrow> string \<Rightarrow> credit_sale svc" where
  "dispute = change_status CS_DISPUTED ''disputed''"

definition write_off :: "string \<Rightarrow> string \<Rightarrow> credit_sale svc" where
  "write_off = change_status CS_WRITTEN_OFF ''written_off''"

text \<open>The naira sign, the dash and the folded hands as their UTF-8 bytes.\<close>

definition naira :: string where
  "naira = [CHR 0xE2, CHR 0x82, CHR 0xA6]"

definition em_dash :: string where
  "em_dash = [CHR 0xE2, CHR 0x80, CHR 0x94]"

definition folded_hands :: string where
  "folded_hands = [CHR 0xF0, CHR 0x9F, CHR 0x99, CHR 0x8F]"

definition reminder_text :: "credit_sale \<Rightarrow> string" where
  "reminder_text c = (let amount_str = (if cs_currency c = ''NGN'' then naira else cs_currency c @ '' '') @ format_amount (cs_amount c)
     in ''Hi '' @ cs_customer_name c @ '', just a friendly reminder '' @ em_dash @ '' '' @ amount_str
        @ '' is still outstanding. Please let us know when you're able to settle. Thank you! '' @ folded_hands)"

definition send_reminder :: "string \<Rightarrow> string \<Rightarrow> (string \<times> int \<times> string) svc" where
  "send_reminder cid tid = bindA (credit_sale_or_404 cid tid) (\<lambda>c.
     if cs_status c \<noteq> CS_ACTIVE then raise (ValueError (''CreditSale '' @ cid @ '' is not active''))
     else case cs_conversation_id c of
       None \<Rightarrow> raise (ValueError (''CreditSale '' @ cid @ '' has no linked conversation''))
     | Some conv \<Rightarrow>
         if cs_max_reminders c \<le> cs_reminders_sent c
         then raise (ValueError (''Maximum reminders ('' @ show_int (cs_max_reminders c) @ '') already sent''))
         else thenA (save_message conv tid ''assistant'' (reminder_text c) None None)
           (bindA (increment_reminder c) (\<lambda>c'. ret (cid, cs_reminders_sent c', reminder_text c))))"

section \<open>Event handler\<close>

definition RESOLVING_STATUSES :: "string list" where
  "RESOLVING_STATUSES = [''settled'', ''written_off'']"

definition handle_credit_sale_status_changed :: "event \<Rightarrow> unit svc" where
  "handle_credit_sale_status_changed e =
     (let oid = payload_str (ev_payload e) ''order_id''; tid = ev_tenant_id e; st = payload_str (ev_payload e) ''new_status''
      in if oid = [] \<or> tid = [] \<or> st = [] then ret ()
         else if st \<notin> set RESOLVING_STATUSES then ret ()
         else thenA (session_begin (handle_credit_sale_resolved oid tid)) (ret ()))"

definition register_credit_sale_status_handler :: "event list \<Rightarrow> world \<Rightarrow> world" where
  "register_credit_sale_status_handler = create_global_listener_task ''credit_sale.status_changed'' handle_credit_sale_status_changed"

section \<open>What the operations change\<close>

definition linked_orders :: "world \<Rightarrow> string list" where
  "linked_orders w = List.map_filter cs_order_id (credit_sales w)"

definition wf_credit_sales :: "world \<Rightarrow> bool" where
  "wf_credit_sales w \<longleftrightarrow> distinct (map cs_id (credit_sales w)) \<and> distinct (linked_orders w) \<and> inj (uuid_src w)
     \<and> (\<forall>n\<ge>uuid_n w. uuid_src w n \<notin> cs_id ` set (credit_sales w))
     \<and> (\<forall>c\<in>set (credit_sales w). 0 \<le> cs_reminders_sent c \<and> cs_reminders_sent c \<le> cs_max_reminders c)"

inductive sale_change :: "world \<Rightarrow> world \<Rightarrow> bool" for w where
  nothing: "credit_sales w' = credit_sales w \<Longrightarrow> messages w' = messages w \<Longrightarrow> later w w' \<Longrightarrow> sale_change w w'"
| filed: "cs_id c = uuid_src w (uuid_n w) \<Longrightarrow> set_option (cs_order_id c) \<inter> set (linked_orders w) = {} \<Longrightarrow>
    cs_reminders_sent c = 0 \<Longrightarrow> 1 \<le> cs_max_reminders c \<Longrightarrow>
    credit_sales w' = credit_sales w @ [c] \<Longrightarrow> messages w' = messages w \<Longrightarrow>
    uuid_src w' = uuid_src w \<Longrightarrow> uuid_n w < uuid_n w' \<Longrightarrow> sale_change w w'"
| marked: "c \<in> set (credit_sales w) \<Longrightarrow> st \<noteq> CS_ACTIVE \<Longrightarrow>
    credit_sales w' = update_where (\<lambda>x. cs_id x = cs_id c) (\<lambda>x. x\<lparr>cs_status := st\<rparr>) (credit_sales w) \<Longrightarrow>
    messages w' = messages w \<Longrightarrow> later w w' \<Longrightarrow> sale_change w w'"
| reminded: "c \<in> set (credit_sales w) \<Longrightarrow> cs_status c = CS_ACTIVE \<Longrightarrow> cs_reminders_sent c < cs_max_reminders c \<Longrightarrow>
    credit_sales w' = update_where (\<lambda>x. cs_id x = cs_id c)
      (\<lambda>x. x\<lparr>cs_reminders_sent := cs_reminders_sent x + 1, cs_last_reminded_at := Some now\<rparr>) (credit_sales w) \<Longrightarrow>
    messages w' = messages w @ [m] \<Longrightarrow> later w w' \<Longrightarrow> sale_change w w'"

datatype credit_op = CreateSale string credit_sale_create | Settle string string | Dispute string string
  | WriteOff string string | SendReminder string string

text \<open>A request body the schema rejects does not reach the service.\<close>

fun credit_step :: "credit_op \<Rightarrow> world \<Rightarrow> world" where
  "credit_step (CreateSale tid b) w = (if valid_credit_sale_create b then exec (create_credit_sale tid b) w else w)"
| "credit_step (Settle cid tid) w = exec (settle cid tid) w"
| "credit_step (Dispute cid tid) w = exec (dispute cid tid) w"
| "credit_step (WriteOff cid tid) w = exec (write_off cid tid) w"
| "credit_step (SendReminder cid tid) w = exec (send_reminder cid tid) w"

lemma map_filter_mem: "y \<in> set (List.map_filter f xs) \<longleftrightarrow> Some y \<in> f ` set xs"
  by (induction xs) (auto simp: List.map_filter_simps split: option.splits)

lemma map_filter_append: "List.map_filter f (xs @ ys) = List.map_filter f xs @ List.map_filter f ys"
  by (induction xs) (auto simp: List.map_filter_simps split: option.splits)

lemma map_filter_update:
  "(\<And>x. f (g x) = f x) \<Longrightarrow> List.map_filter f (update_where p g xs) = List.map_filter f xs"
  by (induction xs) (auto simp: List.map_filter_simps split: option.splits)

lemma linked_orders_iff: "oid \<in> set (linked_orders w) \<longleftrightarrow> Some oid \<in> cs_order_id ` set (credit_sales w)"
  by (simp add: linked_orders_def map_filter_mem)

lemma sale_found:
  "(\<exists>e. credit_sale_or_404 cid tid w = (Inl e, w))
     \<or> (\<exists>c\<in>set (credit_sales w). cs_id c = cid \<and> cs_tenant_id c = tid \<and> credit_sale_or_404 cid tid w = (Inr c, w))"
proof (cases "scalar_one_or_none (filter (\<lambda>c. cs_id c = cid \<and> cs_tenant_id c = tid) (credit_sales w))")
  case (Inr r)
  have "r = Some c \<Longrightarrow> c \<in> set (credit_sales w) \<and> cs_id c = cid \<and> cs_tenant_id c = tid" for c
    using Inr by (cases "filter (\<lambda>c. cs_id c = cid \<and> cs_tenant_id c = tid) (credit_sales w)" rule: scalar_one_or_none.cases)
      (auto simp: filter_eq_Cons_iff)
  with Inr show ?thesis
    by (cases r) (auto simp: credit_sale_or_404_def cs_get_by_id_def act_simps)
qed (simp add: credit_sale_or_404_def cs_get_by_id_def act_simps)

lemma change_status_change:
  assumes "st \<noteq> CS_ACTIVE"
  shows "sale_change w (exec (change_status st name cid tid) w)"
  using sale_found [of cid tid w]
proof (elim disjE bexE conjE exE)
  fix e assume "credit_sale_or_404 cid tid w = (Inl e, w)"
  then show ?thesis by (simp add: exec_def change_status_def bindA_apply sale_change.nothing)
next
  fix c assume "c \<in> set (credit_sales w)" "credit_sale_or_404 cid tid w = (Inr c, w)"
  with assms show ?thesis
    by (intro sale_change.marked [of c w st])
      (simp_all add: exec_def change_status_def act_simps cs_update_status_def set_credit_sale_def publish_status_changed_def later_def)
qed

lemma send_reminder_change: "sale_change w (exec (send_reminder cid tid) w)"
  using sale_found [of cid tid w]
proof (elim disjE bexE conjE exE)
  fix e assume "credit_sale_or_404 cid tid w = (Inl e, w)"
  then show ?thesis by (simp add: exec_def send_reminder_def bindA_apply sale_change.nothing)
next
  fix c assume c: "c \<in> set (credit_sales w)" "credit_sale_or_404 cid tid w = (Inr c, w)"
  show ?thesis
  proof (cases "cs_status c = CS_ACTIVE \<and> cs_conversation_id c \<noteq> None \<and> cs_reminders_sent c < cs_max_reminders c")
    case True
    then obtain conv where conv: "cs_conversation_id c = Some conv" by blast
    show ?thesis
      using True c conv
      by (intro sale_change.reminded [of c w _ "clock w"])
        (simp_all add: exec_def send_reminder_def act_simps save_message_def insert_message_def increment_reminder_def
           set_credit_sale_def later_def Let_def)
  next
    case False
    then have "exec (send_reminder cid tid) w = w"
      using c by (cases "cs_conversation_id c") (auto simp: exec_def send_reminder_def act_simps)
    then show ?thesis by (simp add: sale_change.nothing)
  qed
qed

lemma create_change:
  assumes "valid_credit_sale_create b"
  shows "sale_change w (exec (create_credit_sale tid b) w)"
proof -
  let ?r = "fst (cs_get_by_order_id (csc_order_id b) tid w)"
  have look: "cs_get_by_order_id (csc_order_id b) tid w = (?r, w)" by (simp add: cs_get_by_order_id_def act_simps)
  show ?thesis
  proof (cases "?r = Inr None")
    case False
    then have "exec (create_credit_sale tid b) w = w"
      using look by (cases ?r) (auto simp: exec_def create_credit_sale_def act_simps split: option.splits)
    then show ?thesis by (simp add: sale_change.nothing)
  next
    case True
    with look have run: "create_credit_sale tid b w = bindA (cs_create (new_credit_sale tid b)) (\<lambda>c. liftE (credit_sale_out c)) w"
      by (simp add: create_credit_sale_def bindA_apply)
    let ?c = "(new_credit_sale tid b)\<lparr>cs_id := uuid_src w (uuid_n w), cs_created_at := clock w\<rparr>"
    show ?thesis
    proof (cases "fst (cs_create (new_credit_sale tid b) w)")
      case (Inl e)
      then show ?thesis
        by (intro sale_change.nothing) (auto simp: exec_def run act_simps cs_create_def Let_def later_def split: if_splits)
    next
      case (Inr c)
      then have "csc_order_id b \<notin> set (linked_orders w)"
        "cs_create (new_credit_sale tid b) w = (Inr ?c, w\<lparr>uuid_n := Suc (uuid_n w), credit_sales := credit_sales w @ [?c]\<rparr>)"
        by (auto simp: cs_create_def act_simps Let_def new_credit_sale_def linked_orders_iff split: if_splits)
      with assms show ?thesis
        by (intro sale_change.filed [of ?c])
          (simp_all add: exec_def run act_simps new_credit_sale_def valid_credit_sale_create_def)
    qed
  qed
qed

lemma credit_step_change: "sale_change w (credit_step o1 w)"
  by (cases o1) (simp_all add: create_change change_status_change send_reminder_change settle_def dispute_def write_off_def
      sale_change.nothing)

lemma wf_fresh_later:
  assumes "wf_credit_sales w" and "later w w'" and "cs_id ` set (credit_sales w') = cs_id ` set (credit_sales w)"
  shows "inj (uuid_src w') \<and> (\<forall>n\<ge>uuid_n w'. uuid_src w' n \<notin> cs_id ` set (credit_sales w'))"
  using assms by (simp add: wf_credit_sales_def later_def)

lemma sale_change_wf: "sale_change w w' \<Longrightarrow> wf_credit_sales w \<Longrightarrow> wf_credit_sales w'"
proof (induction rule: sale_change.cases)
  case (nothing w')
  then show ?case by (simp add: wf_credit_sales_def later_def linked_orders_def)
next
  case (filed c w')
  have "\<forall>n\<ge>uuid_n w'. uuid_src w n \<noteq> uuid_src w (uuid_n w)"
    using filed by (auto simp: wf_credit_sales_def dest: injD)
  moreover have "distinct (linked_orders w')"
    using filed by (auto simp: wf_credit_sales_def linked_orders_def map_filter_append List.map_filter_simps split: option.splits)
  ultimately show ?case using filed by (simp add: wf_credit_sales_def)
next
  case (marked c st w')
  let ?f = "\<lambda>x :: credit_sale. x\<lparr>cs_status := st\<rparr>"
  have "map cs_id (credit_sales w') = map cs_id (credit_sales w)" "linked_orders w' = linked_orders w"
    using marked by (simp_all add: map_update_where_same linked_orders_def map_filter_update)
  moreover from this(1) have "cs_id ` set (credit_sales w') = cs_id ` set (credit_sales w)" by (metis list.set_map)
  ultimately show ?case
    using marked wf_fresh_later [of w w'] by (simp add: wf_credit_sales_def ball_update_where)
next
  case (reminded c w' now m)
  have "map cs_id (credit_sales w') = map cs_id (credit_sales w)" "linked_orders w' = linked_orders w"
    using reminded by (simp_all add: map_update_where_same linked_orders_def map_filter_update)
  moreover from this(1) have "cs_id ` set (credit_sales w') = cs_id ` set (credit_sales w)" by (metis list.set_map)
  moreover have "\<forall>x\<in>set (credit_sales w). cs_id x = cs_id c \<longrightarrow> x = c"
    using reminded by (auto simp: wf_credit_sales_def distinct_map inj_on_def)
  ultimately show ?case
    using reminded wf_fresh_later [of w w'] by (auto simp: wf_credit_sales_def ball_update_where)
qed

definition reminders_total :: "world \<Rightarrow> int" where
  "reminders_total w = sum_list (map cs_reminders_sent (credit_sales w))"

lemma sum_update_one:
  fixes g :: "'a \<Rightarrow> int"
  assumes "distinct (map i xs)" and "c \<in> set xs" and "\<And>x. g (f x) = g x + 1"
  shows "sum_list (map g (update_where (\<lambda>x. i x = i c) f xs)) = sum_list (map g xs) + 1"
  using assms
proof (induction xs)
  case (Cons x xs)
  show ?case
  proof (cases "x = c")
    case True
    with Cons.prems have "update_where (\<lambda>x. i x = i c) f xs = xs"
      using distinct_map_Cons_neq [OF Cons.prems(1)] by (intro update_where_none) auto
    with True Cons.prems show ?thesis by simp
  next
    case False
    with Cons.prems have "i x \<noteq> i c" by auto
    with False Cons show ?thesis by simp
  qed
qed simp

lemma sale_change_messages:
  "sale_change w w' \<Longrightarrow> wf_credit_sales w \<Longrightarrow>
     int (length (messages w')) - reminders_total w' = int (length (messages w)) - reminders_total w"
proof (induction rule: sale_change.cases)
  case (reminded c w' now m)
  then have "reminders_total w' = reminders_total w + 1"
    unfolding reminders_total_def reminded(5) by (intro sum_update_one) (simp_all add: wf_credit_sales_def)
  with reminded show ?case by simp
qed (simp_all add: reminders_total_def map_update_where_same)

text \<open>A sale seen later: it keeps its terms and, once it is not active, its status group and its reminders.\<close>

definition follows :: "credit_sale \<Rightarrow> credit_sale \<Rightarrow> bool" where
  "follows c c' \<longleftrightarrow> cs_id c' = cs_id c \<and> cs_order_id c' = cs_order_id c \<and> cs_amount c' = cs_amount c
     \<and> cs_max_reminders c' = cs_max_reminders c \<and> cs_reminders_sent c \<le> cs_reminders_sent c'
     \<and> (cs_status c \<noteq> CS_ACTIVE \<longrightarrow> cs_status c' \<noteq> CS_ACTIVE \<and> cs_reminders_sent c' = cs_reminders_sent c)"

lemma follows_refl [simp]: "follows c c"
  by (simp add: follows_def)

lemma follows_trans: "follows a b \<Longrightarrow> follows b c \<Longrightarrow> follows a c"
  by (auto simp: follows_def)

lemma sale_change_follows:
  "sale_change w w' \<Longrightarrow> wf_credit_sales w \<Longrightarrow> c \<in> set (credit_sales w) \<Longrightarrow> \<exists>c'\<in>set (credit_sales w'). follows c c'"
proof (induction rule: sale_change.cases)
  case (nothing w')
  then show ?case by (auto intro: bexI [of _ c])
next
  case (filed d w')
  then show ?case by (auto intro: bexI [of _ c])
next
  case (marked d st w')
  then have "(if cs_id c = cs_id d then c\<lparr>cs_status := st\<rparr> else c) \<in> set (credit_sales w')"
    by (simp add: set_update_where image_iff) blast
  with marked show ?case by (rule_tac bexI, rotate_tac -1) (auto simp: follows_def)
next
  case (reminded d w' now m)
  then have "cs_id c = cs_id d \<Longrightarrow> c = d" by (auto simp: wf_credit_sales_def distinct_map inj_on_def)
  moreover have "(if cs_id c = cs_id d then c\<lparr>cs_reminders_sent := cs_reminders_sent c + 1, cs_last_reminded_at := Some now\<rparr> else c)
      \<in> set (credit_sales w')"
    using reminded by (simp add: set_update_where image_iff) blast
  ultimately show ?case using reminded by (rule_tac bexI, rotate_tac -1) (auto simp: follows_def)
qed

section \<open>Properties\<close>

lemma credit_steps:
  assumes "wf_credit_sales w"
  shows "wf_credit_sales (fold credit_step ops w)
     \<and> int (length (messages (fold credit_step ops w))) - reminders_total (fold credit_step ops w)
         = int (length (messages w)) - reminders_total w
     \<and> (\<forall>c\<in>set (credit_sales w). \<exists>c'\<in>set (credit_sales (fold credit_step ops w)). follows c c')"
  using assms
proof (induction ops arbitrary: w)
  case (Cons x ops)
  note ch = credit_step_change [of w x]
  from sale_change_wf [OF ch Cons.prems] have wf: "wf_credit_sales (credit_step x w)" .
  have "\<forall>c\<in>set (credit_sales w). \<exists>c'\<in>set (credit_sales (credit_step x w)). follows c c'"
    using sale_change_follows [OF ch Cons.prems] by blast
  with Cons.IH [OF wf] sale_change_messages [OF ch Cons.prems] show ?case
    using follows_trans by (fastforce simp: fold_simps)
next
  case Nil
  then show ?case by simp (blast intro: follows_refl)
qed

text \<open>
  Reminders are bounded and stop. Under any sequence of credit-sale requests, every sale keeps its order, amount
  and limit, never has more reminders than its limit, and once it is settled, disputed or written off it never
  becomes active again and no further reminder is counted; each reminder counted is one message stored in a
  conversation, and no two sales are ever linked to one order.
\<close>

theorem reminders_bounded:
  fixes ops :: "credit_op list"
  assumes "wf_credit_sales w" and "c \<in> set (credit_sales w)"
  defines "w' \<equiv> fold credit_step ops w"
  shows "(\<exists>c'\<in>set (credit_sales w'). follows c c' \<and> cs_reminders_sent c' \<le> cs_max_reminders c)
     \<and> int (length (messages w')) - int (length (messages w)) = reminders_total w' - reminders_total w
     \<and> distinct (linked_orders w')"
proof -
  note s = credit_steps [OF assms(1), of ops, folded w'_def]
  from s assms(2) obtain c' where c': "c' \<in> set (credit_sales w')" "follows c c'" by blast
  moreover from s c' have "cs_reminders_sent c' \<le> cs_max_reminders c"
    by (auto simp: wf_credit_sales_def follows_def)
  ultimately show ?thesis using s by (auto simp: wf_credit_sales_def)
qed

definition owed :: "string option \<Rightarrow> credit_sale" where
  "owed oid = \<lparr>cs_id = ''s1'', cs_tenant_id = ''t1'', cs_order_id = oid, cs_conversation_id = Some ''c1'',
     cs_customer_name = ''Ada'', cs_amount = 12500, cs_currency = ''NGN'', cs_due_date = None, cs_status = CS_ACTIVE,
     cs_notes = None, cs_reminder_interval_days = 3, cs_max_reminders = 1, cs_reminders_sent = 0,
     cs_last_reminded_at = None, cs_created_at = 0\<rparr>"

definition owing_world :: "string option \<Rightarrow> world" where
  "owing_world oid = (one_order CONFIRMED)\<lparr>credit_sales := [owed oid]\<rparr>"

lemma wf_owing: "wf_credit_sales (owing_world oid)"
  using replicate_neq_hd [of "''s1''" "CHR ''u''"]
  by (cases oid) (simp_all add: wf_credit_sales_def owing_world_def owed_def linked_orders_def List.map_filter_simps one_order_def empty_world_def
      inj_replicate)

theorem reminders_bounded_witness:
  "\<exists>c'\<in>set (credit_sales (fold credit_step [SendReminder ''s1'' ''t1'', SendReminder ''s1'' ''t1''] (owing_world (Some ''o1'')))).
     cs_reminders_sent c' \<le> 1"
proof -
  have "owed (Some ''o1'') \<in> set (credit_sales (owing_world (Some ''o1'')))" by (simp add: owing_world_def)
  from reminders_bounded [OF wf_owing this, where ops = "[SendReminder ''s1'' ''t1'', SendReminder ''s1'' ''t1'']"]
  show ?thesis by (auto simp: owed_def)
qed

text \<open>
  A sale without an order cannot be read back. The column is nullable and the DEBT command stores such sales, but
  the response type requires an order: for a tenant with one, listing the sales fails, and settling it fails
  after the new status was committed and published.
\<close>

theorem unlinked_sale_unreadable:
  assumes "wf_credit_sales w" and "c \<in> set (credit_sales w)" and "cs_order_id c = None"
  shows "list_credit_sales (cs_tenant_id c) None w = (Inl (ValueError ''order_id''), w)
     \<and> (\<exists>w'. settle (cs_id c) (cs_tenant_id c) w = (Inl (ValueError ''order_id''), w')
          \<and> c\<lparr>cs_status := CS_SETTLED\<rparr> \<in> set (credit_sales w') \<and> length (published w') = Suc (length (published w)))"
proof -
  have fails: "c \<in> set cs \<Longrightarrow> validate_all cs = Inl (ValueError ''order_id'')" for cs
    by (induction cs) (auto simp: credit_sale_out_def assms(3) split: option.splits)
  have "c \<in> set (cs_list (cs_tenant_id c) None w)" using assms(2) by (simp add: cs_list_def)
  note fails [OF this]
  moreover have "credit_sale_or_404 (cs_id c) (cs_tenant_id c) w = (Inr c, w)"
    using find_distinct_key [of cs_id "credit_sales w" c "\<lambda>x. cs_tenant_id x = cs_tenant_id c"]
      scalar_key [of cs_id "credit_sales w" "cs_id c" "\<lambda>x. cs_tenant_id x = cs_tenant_id c"] assms(1,2)
    by (simp add: credit_sale_or_404_def cs_get_by_id_def act_simps wf_credit_sales_def)
  ultimately show ?thesis
    using assms(2,3) by (simp add: list_credit_sales_def settle_def change_status_def act_simps cs_update_status_def set_credit_sale_def
        publish_status_changed_def credit_sale_out_def set_update_where image_iff) blast
qed

theorem unlinked_sale_unreadable_witness:
  "list_credit_sales ''t1'' None (owing_world None) = (Inl (ValueError ''order_id''), owing_world None)"
proof -
  have "owed None \<in> set (credit_sales (owing_world None))" "cs_order_id (owed None) = None" by (simp_all add: owing_world_def owed_def)
  from unlinked_sale_unreadable [OF wf_owing this] show ?thesis by (simp add: owed_def)
qed

section \<open>Redelivery\<close>

definition resolving :: "event \<Rightarrow> bool" where
  "resolving e \<longleftrightarrow> payload_str (ev_payload e) ''order_id'' \<noteq> [] \<and> ev_tenant_id e \<noteq> []
     \<and> payload_str (ev_payload e) ''new_status'' \<in> set RESOLVING_STATUSES"

definition sale_settled :: "event \<Rightarrow> world \<Rightarrow> bool" where
  "sale_settled e w \<longleftrightarrow> (resolving e \<longrightarrow> not_awaiting (payload_str (ev_payload e) ''order_id'') (ev_tenant_id e) w)"

lemma credit_handler_exec:
  assumes "wf_orders w"
  shows "exec (handle_credit_sale_status_changed e) w =
     (if resolving e then pay_if_awaiting (payload_str (ev_payload e) ''order_id'') (ev_tenant_id e) w else w)"
proof -
  have "exec (thenA m (ret ())) w = exec m w" for m :: "order option svc"
    by (auto simp: exec_def thenA_apply split: prod.splits sum.splits)
  then show ?thesis
    using handle_credit_sale_resolved_exec [OF assms, of "payload_str (ev_payload e) ''order_id''" "ev_tenant_id e"]
    by (auto simp: handle_credit_sale_status_changed_def resolving_def Let_def pay_if_awaiting_def exec_def [of "ret ()"]
        RESOLVING_STATUSES_def)
qed

interpretation credit_delivery: settling_handler handle_credit_sale_status_changed wf_orders sale_settled
proof (unfold_locales, goal_cases)
  case (1 w e)
  then show ?case using pay_if_awaiting by (simp add: credit_handler_exec)
next
  case (2 w e)
  then show ?case using pay_if_awaiting by (simp add: credit_handler_exec sale_settled_def)
next
  case (3 w e e')
  then show ?case using pay_if_awaiting by (auto simp: credit_handler_exec sale_settled_def)
next
  case (4 w e)
  then show ?case by (auto simp: credit_handler_exec sale_settled_def pay_if_awaiting_def)
qed

definition status_event :: "credit_sale \<Rightarrow> string \<Rightarrow> world \<Rightarrow> event" where
  "status_event c name w = \<lparr>ev_event_name = ''credit_sale.status_changed'', ev_tenant_id = cs_tenant_id c,
     ev_payload = [(''credit_sale_id'', JStr (cs_id c)), (''order_id'', opt_json (cs_order_id c)), (''new_status'', JStr name)],
     ev_event_id = uuid_src w (uuid_n w), ev_timestamp = clock w\<rparr>"

lemma change_status_run:
  assumes "wf_credit_sales w" and "c \<in> set (credit_sales w)"
  shows "exec (change_status st name (cs_id c) (cs_tenant_id c)) w = w\<lparr>
     credit_sales := update_where (\<lambda>x. cs_id x = cs_id c) (\<lambda>x. x\<lparr>cs_status := st\<rparr>) (credit_sales w),
     uuid_n := Suc (uuid_n w), published := published w @ [status_event c name w]\<rparr>"
proof -
  have "credit_sale_or_404 (cs_id c) (cs_tenant_id c) w = (Inr c, w)"
    using find_distinct_key [of cs_id "credit_sales w" c "\<lambda>x. cs_tenant_id x = cs_tenant_id c"]
      scalar_key [of cs_id "credit_sales w" "cs_id c" "\<lambda>x. cs_tenant_id x = cs_tenant_id c"] assms
    by (simp add: credit_sale_or_404_def cs_get_by_id_def act_simps wf_credit_sales_def)
  then show ?thesis
    by (simp add: exec_def change_status_def act_simps cs_update_status_def set_credit_sale_def publish_status_changed_def status_event_def)
qed

text \<open>The listener run on what a request published, delivered \<open>n + 1\<close> times.\<close>

definition delivered :: "nat \<Rightarrow> world \<Rightarrow> world \<Rightarrow> world" where
  "delivered n w w1 = register_credit_sale_status_handler (concat (replicate (Suc n) (drop (length (published w)) (published w1)))) w1"

lemma delivered_eq:
  fixes st :: credit_sale_status and name :: string
  assumes wf: "wf_orders w" and cs: "wf_credit_sales w" "c \<in> set (credit_sales w)"
  defines "w1 \<equiv> exec (change_status st name (cs_id c) (cs_tenant_id c)) w"
  shows "wf_orders w1 \<and> delivered n w w1 = exec (handle_credit_sale_status_changed (status_event c name w)) w1"
proof -
  have w1: "orders w1 = orders w" "order_items w1 = order_items w" "later w w1"
    and es: "drop (length (published w)) (published w1) = [status_event c name w]"
    unfolding w1_def by (simp_all add: change_status_run [OF cs] later_def)
  have "order_change True None w w1" using w1 by (intro order_change.unchanged)
  then have wf1: "wf_orders w1" by (rule change_wf [OF _ wf])
  define es where "es = concat (replicate (Suc n) [status_event c name w])"
  have set: "set es = {status_event c name w}" by (auto simp: es_def)
  have "subscribe_all_tenants_event ''credit_sale.status_changed'' es = es"
    using own_channel [of "''credit_sale.status_changed''" "status_event c name w"] set
    by (auto simp: subscribe_all_tenants_event_def filter_id_conv plain_def status_event_def)
  then have "delivered n w w1 = listener_loop handle_credit_sale_status_changed es w1"
    by (simp only: delivered_def es register_credit_sale_status_handler_def create_global_listener_task_def es_def)
  with credit_delivery.repeated_delivery [OF wf1 set] wf1 show ?thesis by simp
qed

lemma change_status_row:
  assumes "wf_credit_sales w" and "c \<in> set (credit_sales w)"
  shows "c\<lparr>cs_status := st\<rparr> \<in> set (credit_sales (exec (change_status st name (cs_id c) (cs_tenant_id c)) w))
     \<and> orders (exec (change_status st name (cs_id c) (cs_tenant_id c)) w) = orders w"
  using assms(2) by (auto simp: change_status_run [OF assms] set_update_where image_iff)

lemma resolving_pays:
  fixes st :: credit_sale_status and name :: string
  assumes "wf_orders w" and "wf_credit_sales w" and "c \<in> set (credit_sales w)" and "cs_order_id c = Some (o_id x)"
    and "x \<in> set (orders w)" and "o_tenant_id x = cs_tenant_id c" and "o_state x = CONFIRMED"
    and "o_id x \<noteq> []" and "cs_tenant_id c \<noteq> []" and "name \<in> set RESOLVING_STATUSES"
  defines "w1 \<equiv> exec (change_status st name (cs_id c) (cs_tenant_id c)) w"
  shows "delivered n w w1 = after_paid x w1 \<and> x\<lparr>o_state := PAID\<rparr> \<in> set (orders (after_paid x w1))
     \<and> c\<lparr>cs_status := st\<rparr> \<in> set (credit_sales w1)"
proof -
  note d = delivered_eq [OF assms(1-3), where st = st and name = name and n = n, folded w1_def]
  note row = change_status_row [OF assms(2,3), where st = st and name = name, folded w1_def]
  have "order_at w1 (o_id x) (Some (cs_tenant_id c)) = Some x"
    using assms row d by (simp add: order_at_iff scoped_def)
  moreover from this d have "\<not> not_awaiting (o_id x) (cs_tenant_id c) w1" using assms(7) by (simp add: order_at_awaiting)
  moreover have "resolving (status_event c name w)" "payload_str (ev_payload (status_event c name w)) ''order_id'' = o_id x"
    "ev_tenant_id (status_event c name w) = cs_tenant_id c"
    using assms(4,8,9,10) by (simp_all add: resolving_def status_event_def payload_str_def payload_get_def opt_json_def)
  ultimately have "delivered n w w1 = after_paid x w1"
    using d by (simp add: credit_handler_exec pay_if_awaiting_def)
  moreover have "x\<lparr>o_state := PAID\<rparr> \<in> set (orders (after_paid x w1))"
    using after_paid_orders [OF assms(7), of w1] assms(5) row by (auto simp: set_update_where image_iff)
  ultimately show ?thesis using row by simp
qed

text \<open>
  C18: settling or writing off a credit sale pays its order, once. When the sale's order is CONFIRMED, what the status
  change publishes, delivered any positive number of times, pays the order exactly once; marking the sale
  disputed leaves the orders alone; and in every case the sale has its new status.
\<close>

theorem settlement_pays_order:
  assumes "wf_orders w" and "wf_credit_sales w" and "c \<in> set (credit_sales w)" and "cs_order_id c = Some (o_id x)"
    and "x \<in> set (orders w)" and "o_tenant_id x = cs_tenant_id c" and "o_state x = CONFIRMED"
    and "o_id x \<noteq> []" and "cs_tenant_id c \<noteq> []"
  defines "s \<equiv> exec (settle (cs_id c) (cs_tenant_id c)) w"
    and "v \<equiv> exec (write_off (cs_id c) (cs_tenant_id c)) w"
    and "d \<equiv> exec (dispute (cs_id c) (cs_tenant_id c)) w"
  shows "delivered n w s = after_paid x s \<and> x\<lparr>o_state := PAID\<rparr> \<in> set (orders (after_paid x s)) \<and> c\<lparr>cs_status := CS_SETTLED\<rparr> \<in> set (credit_sales s)
     \<and> delivered n w v = after_paid x v \<and> x\<lparr>o_state := PAID\<rparr> \<in> set (orders (after_paid x v)) \<and> c\<lparr>cs_status := CS_WRITTEN_OFF\<rparr> \<in> set (credit_sales v)
     \<and> delivered n w d = d \<and> orders d = orders w \<and> c\<lparr>cs_status := CS_DISPUTED\<rparr> \<in> set (credit_sales d)"
proof -
  have "\<not> resolving (status_event c ''disputed'' w)"
    by (simp add: resolving_def status_event_def payload_str_def payload_get_def RESOLVING_STATUSES_def)
  then have "delivered n w d = d"
    using delivered_eq [OF assms(1-3), where st = CS_DISPUTED and name = "''disputed''" and n = n]
    by (simp add: d_def dispute_def credit_handler_exec)
  with change_status_row [OF assms(2,3), where st = CS_DISPUTED and name = "''disputed''"]
    resolving_pays [OF assms(1-9), where st = CS_SETTLED and name = "''settled''"]
    resolving_pays [OF assms(1-9), where st = CS_WRITTEN_OFF and name = "''written_off''"]
  show ?thesis by (simp add: s_def v_def d_def settle_def write_off_def dispute_def RESOLVING_STATUSES_def)
qed

theorem settlement_pays_order_witness:
  "\<exists>x\<in>set (orders (delivered 1 (owing_world (Some ''o1'')) (exec (settle ''s1'' ''t1'') (owing_world (Some ''o1''))))). o_state x = PAID"
proof -
  let ?w = "owing_world (Some ''o1'')" and ?x = "hd (orders (one_order CONFIRMED))"
  have wf: "wf_orders ?w"
    by (rule wf_orders_example) (simp_all add: owing_world_def one_order_def create_order_row_def empty_world_def)
  have "owed (Some ''o1'') \<in> set (credit_sales ?w)" "cs_order_id (owed (Some ''o1'')) = Some (o_id ?x)" "?x \<in> set (orders ?w)"
    "o_tenant_id ?x = cs_tenant_id (owed (Some ''o1''))" "o_state ?x = CONFIRMED" "o_id ?x \<noteq> []" "cs_tenant_id (owed (Some ''o1'')) \<noteq> []"
    by (simp_all add: owing_world_def owed_def one_order_def create_order_row_def)
  from settlement_pays_order [OF wf wf_owing this, of 1]
  have "delivered 1 ?w (exec (settle ''s1'' ''t1'') ?w) = after_paid ?x (exec (settle ''s1'' ''t1'') ?w)"
    "?x\<lparr>o_state := PAID\<rparr> \<in> set (orders (after_paid ?x (exec (settle ''s1'' ''t1'') ?w)))"
    by (simp_all add: owed_def)
  moreover have "o_state (?x\<lparr>o_state := PAID\<rparr>) = PAID" by simp
  ultimately show ?thesis by metis
qed

end
