(* ===== verification/Trader_Orders.thy ===== *)
theory Trader_Orders
  imports Customer_Properties Credit_Sales
begin

text \<open>
  What a store owner does with orders and debts over WhatsApp (\<open>src/app/modules/orders/service.py\<close>): the commands
  CONFIRM, CANCEL, PAID and CREDIT, the taps on payment and credit notices, counter-offers, and the debt book.
  An em dash in a row is written as a hyphen.
\<close>

section \<open>The arguments of a command\<close>

record command =
  cm_tenant_id :: string
  cm_trader_phone :: string
  cm_message :: string
  cm_message_id :: string
  cm_trader :: trader
  cm_channel_tenant_id :: "string option"

abbreviation to_trader :: "gateway \<Rightarrow> command \<Rightarrow> string \<Rightarrow> body \<Rightarrow> unit svc" where
  "to_trader gw cm eid msg \<equiv> reply gw (cm_trader_phone cm) (cm_tenant_id cm) eid msg (cm_channel_tenant_id cm)"

definition to_buyer :: "gateway \<Rightarrow> command \<Rightarrow> string option \<Rightarrow> string \<Rightarrow> body \<Rightarrow> unit svc" where
  "to_buyer gw cm phone eid msg = (if truthy_str phone then reply gw (str_or_empty phone) (cm_tenant_id cm) eid msg (cm_channel_tenant_id cm) else ret ())"

definition cm_event :: "string \<Rightarrow> command \<Rightarrow> string" where
  "cm_event name cm = name @ ''.'' @ cm_message_id cm"

text \<open>\<open>try: \<dots>; commit; except ConflictError as exc: \<dots>; return\<close>: the rest runs only when there is no conflict.\<close>

definition attempt :: "order svc \<Rightarrow> unit svc \<Rightarrow> (conflict \<Rightarrow> unit svc) \<Rightarrow> unit svc" where
  "attempt m ok refused = bindA (tryA (thenA m (ret None)) (\<lambda>e. case e of ConflictError c \<Rightarrow> ret (Some c) | _ \<Rightarrow> raise e))
     (\<lambda>r. case r of None \<Rightarrow> ok | Some c \<Rightarrow> refused c)"

definition json_conflict :: "conflict \<Rightarrow> jval" where
  "json_conflict c = (case c of RefusedTransition oid a b \<Rightarrow> JList [JStr oid, JStr a, JStr b] | ConflictMsg m \<Rightarrow> JStr m)"

definition refused_text :: "string \<Rightarrow> string \<Rightarrow> conflict \<Rightarrow> body" where
  "refused_text what ref c = Template ''cannot'' [JStr what, JStr ref, json_conflict c]"

definition short_ref :: "order \<Rightarrow> string" where
  "short_ref x = take 8 (o_id x)"

text \<open>\<open>order.customer_name or None\<close>.\<close>

definition named :: "order \<Rightarrow> string option" where
  "named x = (if truthy_str (o_customer_name x) then o_customer_name x else None)"

section \<open>Order commands\<close>

definition confirmed_body :: "trader \<Rightarrow> int \<Rightarrow> string \<Rightarrow> body" where
  "confirmed_body tr tot ref = (if tr_bank_name tr \<noteq> [] \<and> tr_bank_account_number tr \<noteq> []
     then Template ''payment_details_to_customer'' [JStr (tr_business_name tr), JInt tot, JStr (tr_bank_name tr),
       JStr (tr_bank_account_number tr), JStr (tr_bank_account_name tr), JStr ref]
     else Template ''order_confirmed_to_customer'' [JStr (tr_business_name tr), JInt tot])"

definition order_total :: "order \<Rightarrow> int" where
  "order_total x = int_of_decimal (amount_or_0 (o_amount x))"

definition trader_confirms :: "gateway \<Rightarrow> command \<Rightarrow> string \<Rightarrow> order \<Rightarrow> unit svc" where
  "trader_confirms gw cm ref x = attempt (transition_order x CONFIRMED)
     (thenA (reply_interactive gw (cm_trader_phone cm) (cm_tenant_id cm) (''order.confirmed_trader.'' @ o_id x)
         (Template ''order_confirmed_to_trader'' [JStr ref, json_opt (named x), JStr (str_or_empty (o_customer_phone x))])
         [(''PAID '' @ ref, ''Paid''), (''CREDIT '' @ ref, ''Credit'')] (cm_channel_tenant_id cm) None)
       (to_buyer gw cm (o_customer_phone x) (''order.confirmed_customer.'' @ o_id x) (confirmed_body (cm_trader cm) (order_total x) ref)))
     (\<lambda>c. to_trader gw cm (cm_event ''order.confirm_err'' cm) (refused_text ''confirm'' ref c))"

definition trader_cancels :: "gateway \<Rightarrow> command \<Rightarrow> string \<Rightarrow> order \<Rightarrow> unit svc" where
  "trader_cancels gw cm ref x = attempt (transition_order x FAILED)
     (thenA (clear_order_session (cm_tenant_id cm) (str_or_empty (o_customer_phone x)))
     (thenA (to_trader gw cm (''order.cancelled_trader.'' @ o_id x) (Template ''order_cancelled_to_trader'' [JStr ref, json_opt (named x)]))
       (to_buyer gw cm (o_customer_phone x) (''order.cancelled_customer.'' @ o_id x)
         (Template ''order_cancelled_to_customer'' [JStr (tr_business_name (cm_trader cm))]))))
     (\<lambda>c. to_trader gw cm (cm_event ''order.cancel_err'' cm) (refused_text ''cancel'' ref c))"

definition trader_marks_paid :: "gateway \<Rightarrow> command \<Rightarrow> string \<Rightarrow> order \<Rightarrow> unit svc" where
  "trader_marks_paid gw cm ref x = attempt (do_paid_transition x)
     (to_trader gw cm (''order.paid_trader.'' @ o_id x) (Template ''order_paid_to_trader'' [JStr ref, json_opt (named x)]))
     (\<lambda>c. to_trader gw cm (cm_event ''order.paid_err'' cm) (refused_text ''mark as paid'' ref c))"

text \<open>The name a debt is kept under: the customer's, or the phone number.\<close>

definition debtor_name :: "order \<Rightarrow> string" where
  "debtor_name x = (if truthy_str (o_customer_name x) then str_or_empty (o_customer_name x)
     else if truthy_str (o_customer_phone x) then ''+'' @ str_or_empty (o_customer_phone x) else ''Unknown'')"

definition new_debt :: "string \<Rightarrow> string option \<Rightarrow> string option \<Rightarrow> string \<Rightarrow> decimal \<Rightarrow> string \<Rightarrow> credit_sale" where
  "new_debt tid oid conv name amt cur = \<lparr>cs_id = [], cs_tenant_id = tid, cs_order_id = oid, cs_conversation_id = conv,
     cs_customer_name = name, cs_amount = amt, cs_currency = cur, cs_due_date = None, cs_status = CS_ACTIVE, cs_notes = None,
     cs_reminder_interval_days = 3, cs_max_reminders = 5, cs_reminders_sent = 0, cs_last_reminded_at = None, cs_created_at = 0\<rparr>"

text \<open>The credit sale is committed in a session of its own before the order is flagged.\<close>

definition trader_gives_credit :: "gateway \<Rightarrow> command \<Rightarrow> string \<Rightarrow> order \<Rightarrow> unit svc" where
  "trader_gives_credit gw cm ref x =
     (if o_is_credit x then to_trader gw cm (cm_event ''order.credit_dup'' cm) (Template ''order_already_on_credit'' [JStr ref, json_opt (named x)])
      else bindA (tryA (thenA (session_begin (thenA (cs_create (new_debt (o_tenant_id x) (Some (o_id x)) (Some (o_conversation_id x)) (debtor_name x)
              (of_int (order_total x)) (if o_currency x \<noteq> [] then o_currency x else ''NGN''))) (ret ())))
            (thenA (set_order (o_id x) (\<lambda>y. y\<lparr>o_is_credit := True\<rparr>)) (ret True))) (\<lambda>_. ret False)) (\<lambda>ok.
        if ok then to_trader gw cm (''order.credit_trader.'' @ o_id x) (Template ''order_credit_to_trader'' [JStr ref, JStr (debtor_name x), JInt (order_total x)])
        else to_trader gw cm (cm_event ''order.credit_err'' cm) (Template ''credit_err'' [JStr ref])))"

definition order_command :: "gateway \<Rightarrow> command \<Rightarrow> intent \<Rightarrow> string \<Rightarrow> unit svc" where
  "order_command gw cm i ref = bindA (get_by_ref_prefix ref None) (\<lambda>ord. case ord of
     None \<Rightarrow> to_trader gw cm (cm_event ''order.not_found'' cm) (Template ''order_not_found_to_trader'' [JStr ref])
   | Some x \<Rightarrow> if i = TRADER_CONFIRM then trader_confirms gw cm ref x
       else if i = TRADER_CANCEL then trader_cancels gw cm ref x
       else if i = TRADER_PAID then trader_marks_paid gw cm ref x
       else if i = TRADER_CREDIT then trader_gives_credit gw cm ref x
       else ret ())"

section \<open>Taps\<close>

text \<open>\<open>message.strip().split(" ", 1)[1].strip().lower()\<close>.\<close>

definition tap_ref :: "string \<Rightarrow> string" where
  "tap_ref m = lower (strip (tl (dropWhile (\<lambda>c. c \<noteq> CHR '' '') (strip m))))"

definition payment_received :: "gateway \<Rightarrow> command \<Rightarrow> order \<Rightarrow> unit svc" where
  "payment_received gw cm x = attempt (do_paid_transition x)
     (thenA (to_trader gw cm (''order.payrcvd_trader.'' @ o_id x) (Template ''order_paid_to_trader'' [JStr (short_ref x), json_opt (o_customer_name x)]))
       (to_buyer gw cm (o_customer_phone x) (''order.payrcvd_customer.'' @ o_id x)
         (Template ''payment_confirmed_to_customer'' [JStr (tr_business_name (cm_trader cm)), JStr (short_ref x)])))
     (\<lambda>c. to_trader gw cm (cm_event ''order.payrcvd_err'' cm) (refused_text ''mark as paid'' (short_ref x) c))"

definition payment_not_received :: "gateway \<Rightarrow> command \<Rightarrow> order \<Rightarrow> unit svc" where
  "payment_not_received gw cm x =
     thenA (to_buyer gw cm (o_customer_phone x) (''order.paynotrcvd_customer.'' @ o_id x)
         (Template ''payment_not_received_to_customer'' [JStr (tr_business_name (cm_trader cm)), JStr (short_ref x)]))
       (to_trader gw cm (''order.paynotrcvd_trader.'' @ o_id x)
         (Plain (''Noted. Customer has been notified that payment for order '' @ short_ref x @ '' was not received.'')))"

definition payment_receipt_tap :: "gateway \<Rightarrow> command \<Rightarrow> unit svc" where
  "payment_receipt_tap gw cm = (let received = startswith (upper (strip (cm_message cm))) ''PAYRCVD ''; ref = tap_ref (cm_message cm) in
     if ref = [] then ret () else bindA (get_by_ref_prefix ref None) (\<lambda>ord.
       let unknown = to_trader gw cm (cm_event ''order.payrcvd_notfound'' cm) (Template ''order_not_found_to_trader'' [JStr ref]) in
       case ord of None \<Rightarrow> unknown
       | Some x \<Rightarrow> if o_state x \<noteq> CONFIRMED then unknown
           else if received then payment_received gw cm x else payment_not_received gw cm x))"

text \<open>The active credit sale of an order.\<close>

definition active_sale :: "string \<Rightarrow> credit_sale option svc" where
  "active_sale oid = bindA (getA credit_sales) (\<lambda>cs. liftE (scalar_one_or_none (filter (\<lambda>c. cs_order_id c = Some oid \<and> cs_status c = CS_ACTIVE) cs)))"

definition settle_sales_of :: "string \<Rightarrow> unit svc" where
  "settle_sales_of oid = modA (\<lambda>w. w\<lparr>credit_sales := update_where (\<lambda>c. cs_order_id c = Some oid \<and> cs_status c = CS_ACTIVE)
     (\<lambda>c. c\<lparr>cs_status := CS_SETTLED\<rparr>) (credit_sales w)\<rparr>)"

definition outstanding :: "credit_sale option \<Rightarrow> order \<Rightarrow> int" where
  "outstanding c x = (case c of Some s \<Rightarrow> if cs_amount s \<noteq> 0 then int_of_decimal (cs_amount s) else order_total x | None \<Rightarrow> order_total x)"

definition credit_paid_full :: "gateway \<Rightarrow> command \<Rightarrow> order \<Rightarrow> int \<Rightarrow> unit svc" where
  "credit_paid_full gw cm x tot = attempt (do_paid_transition x)
     (thenA (session_begin (settle_sales_of (o_id x)))
     (thenA (to_trader gw cm (''order.creditpaid_trader.'' @ o_id x)
         (Template ''credit_paid_in_full'' [JStr (short_ref x), JInt tot, json_opt (o_customer_name x)]))
       (to_buyer gw cm (o_customer_phone x) (''order.creditpaid_customer.'' @ o_id x)
         (Template ''payment_confirmed_to_customer'' [JStr (tr_business_name (cm_trader cm)), JStr (short_ref x)]))))
     (\<lambda>c. to_trader gw cm (cm_event ''order.creditpaid_err'' cm) (refused_text ''mark as paid'' (short_ref x) c))"

definition ask_credit_part :: "gateway \<Rightarrow> command \<Rightarrow> order \<Rightarrow> int \<Rightarrow> unit svc" where
  "ask_credit_part gw cm x tot =
     thenA (set_trader_session (cm_trader_phone cm) (TraderSessionDoc ''awaiting_credit_partial''
         [(''order_id'', JStr (o_id x)), (''order_ref'', JStr (short_ref x)), (''customer_name'', JStr (str_or_empty (o_customer_name x)))]))
       (reply_with_cancel gw (cm_trader_phone cm) (cm_tenant_id cm) (cm_event ''order.creditpart_prompt'' cm)
         (Template ''credit_partial_prompt'' [JStr (short_ref x), JInt tot, json_opt (o_customer_name x)]) (cm_channel_tenant_id cm))"

text \<open>
  An import in a later branch of \<open>handle_trader_command\<close> makes \<open>select\<close> a local name of the whole function,
  so reading it before that branch raises.
\<close>

definition local_select :: "unit svc" where
  "local_select = raise (UnboundLocalError ''select'')"

definition credit_payment_tap :: "gateway \<Rightarrow> command \<Rightarrow> unit svc" where
  "credit_payment_tap gw cm = (let full = startswith (upper (strip (cm_message cm))) ''CREDITPAID ''; ref = tap_ref (cm_message cm) in
     if ref = [] then ret () else bindA (get_by_ref_prefix ref None) (\<lambda>ord.
       let unknown = to_trader gw cm (cm_event ''order.creditpaid_notfound'' cm) (Template ''order_not_found_to_trader'' [JStr ref]) in
       case ord of None \<Rightarrow> unknown
       | Some x \<Rightarrow> if o_state x \<noteq> CONFIRMED \<or> \<not> o_is_credit x then unknown
           else thenA local_select (bindA (active_sale (o_id x)) (\<lambda>sale.
             if full then credit_paid_full gw cm x (outstanding sale x) else ask_credit_part gw cm x (outstanding sale x)))))"

text \<open>The buttons of an order in the list of active orders.\<close>

definition customer_display :: "order \<Rightarrow> string" where
  "customer_display x = debtor_name x"

definition credit_buttons :: "string \<Rightarrow> (string \<times> string) list" where
  "credit_buttons ref = [(''CREDITPAID '' @ ref, ''Paid in Full''), (''CREDITPART '' @ ref, ''Partial Payment'')]"

definition order_action_buttons :: "string \<Rightarrow> order_state \<Rightarrow> bool \<Rightarrow> (string \<times> string) list" where
  "order_action_buttons ref st credit = (if st = INQUIRY then [(''CONFIRM '' @ ref, ''Confirm''), (''CANCEL '' @ ref, ''Cancel'')]
     else if st = CONFIRMED \<and> credit then credit_buttons ref else [])"

definition pending_order_actions :: "string \<Rightarrow> bool \<Rightarrow> (string \<times> string) list" where
  "pending_order_actions ref credit = (if credit then credit_buttons ref else [(''PAID '' @ ref, ''Paid''), (''CREDIT '' @ ref, ''Credit'')])"

definition order_action_tap :: "gateway \<Rightarrow> command \<Rightarrow> unit svc" where
  "order_action_tap gw cm = (let ref = drop 7 (strip (cm_message cm)) in bindA (get_by_ref_prefix (lower ref) None) (\<lambda>ord. case ord of
     None \<Rightarrow> to_trader gw cm (cm_event ''trader.ordact_notfound'' cm) (Template ''order_not_found_to_trader'' [JStr ref])
   | Some x \<Rightarrow> bindA (if o_is_credit x then thenA local_select (bindA (active_sale (o_id x)) (\<lambda>sale.
           ret (case sale of Some c \<Rightarrow> int_of_decimal (cs_amount c) | None \<Rightarrow> order_total x))) else ret (order_total x)) (\<lambda>tot.
       let buttons = (\<lambda>name bs. reply_interactive gw (cm_trader_phone cm) (cm_tenant_id cm) (cm_event ''trader.ordact'' cm)
             (Template name [JStr (lower ref), JStr (customer_display x), JInt tot]) bs (cm_channel_tenant_id cm) None) in
       if o_state x = INQUIRY then buttons ''order_action_buttons'' (order_action_buttons (lower ref) (o_state x) (o_is_credit x))
       else if o_state x = CONFIRMED then buttons ''pending_order_actions'' (pending_order_actions (lower ref) (o_is_credit x))
       else to_trader gw cm (cm_event ''trader.ordact_done'' cm) (Plain (''Order '' @ ref @ '' is already '' @ order_state_value (o_state x) @ ''.'')))))"

text \<open>The active orders of a trader, newest first; an order on credit shows what is still owed.\<close>

definition active_orders :: "string \<Rightarrow> world \<Rightarrow> order list" where
  "active_orders tp w = order_by_desc o_created_at (filter (\<lambda>x. o_trader_phone x = Some tp \<and> o_state x \<in> {INQUIRY, CONFIRMED}) (orders w))"

definition outstanding_map :: "string list \<Rightarrow> world \<Rightarrow> (string \<times> int) list" where
  "outstanding_map ids w = map (\<lambda>c. (str_or_empty (cs_order_id c), int_of_decimal (cs_amount c)))
     (filter (\<lambda>c. cs_order_id c \<in> Some ` set ids \<and> cs_status c = CS_ACTIVE) (credit_sales w))"

definition listed_amount :: "(string \<times> int) list \<Rightarrow> order \<Rightarrow> int" where
  "listed_amount m x = (if o_is_credit x then (case map_of (rev m) (o_id x) of Some a \<Rightarrow> a | None \<Rightarrow> order_total x) else order_total x)"

fun STATE_LABELS :: "order_state \<Rightarrow> string" where
  "STATE_LABELS INQUIRY = ''New''"
| "STATE_LABELS CONFIRMED = ''Confirmed''"
| "STATE_LABELS PAID = ''Paid''"
| "STATE_LABELS FAILED = ''Cancelled''"

definition listed_customer :: "order \<Rightarrow> string" where
  "listed_customer x = (if truthy_str (o_customer_name x) then str_or_empty (o_customer_name x)
     else if truthy_str (o_customer_phone x) then ''+'' @ str_or_empty (o_customer_phone x) else short_ref x)"

definition pending_order_rows :: "(timestamp \<Rightarrow> string) \<Rightarrow> (string \<times> int) list \<Rightarrow> order list \<Rightarrow> (string \<times> (string \<times> string \<times> string) list) list" where
  "pending_order_rows month_day m xs = [(''Active orders'', map (\<lambda>x. (''ORDACT_'' @ short_ref x, take 24 (listed_customer x),
     take 72 (naira_amount (listed_amount m x) @ '' - '' @ STATE_LABELS (o_state x) @ (if o_is_credit x then '' | Credit'' else []) @ '' - ''
       @ month_day (o_created_at x)))) (take 10 xs))]"

definition do_list_pending_orders :: "(timestamp \<Rightarrow> string) \<Rightarrow> gateway \<Rightarrow> command \<Rightarrow> unit svc" where
  "do_list_pending_orders month_day gw cm = bindA (getA (active_orders (cm_trader_phone cm))) (\<lambda>xs.
     if xs = [] then to_trader gw cm (cm_event ''trader.orders_empty'' cm) (Template ''no_pending_orders'' [])
     else bindA (getA (outstanding_map (map o_id (filter o_is_credit xs)))) (\<lambda>m.
       reply_list gw (cm_trader_phone cm) (cm_tenant_id cm) (cm_event ''trader.orders_list'' cm)
         (Template ''pending_orders_list'' [JInt (int (length xs)), JList (map (\<lambda>x. JInt (listed_amount m x)) xs)])
         ''View orders'' (pending_order_rows month_day m xs) (cm_channel_tenant_id cm)))"

section \<open>Answers in a trader session\<close>

text \<open>The first number of a reply, commas between digits removed.\<close>

definition first_number :: "string \<Rightarrow> int option" where
  "first_number m = (let d = takeWhile is_digit (dropWhile (\<lambda>c. \<not> is_digit c) (strip_number_commas (strip m)))
     in if d = [] then None else Some (digits_val d))"

text \<open>An amount received against the credit of an order: all of it settles the sale and pays the order.\<close>

definition pay_if_confirmed :: "string \<Rightarrow> unit svc" where
  "pay_if_confirmed oid = bindA (get_by_id oid None) (\<lambda>ord. case ord of
     Some x \<Rightarrow> if o_state x = CONFIRMED then thenA (none_on_conflict (do_paid_transition x)) (ret ()) else ret ()
   | None \<Rightarrow> ret ())"

definition receive_credit_part :: "gateway \<Rightarrow> command \<Rightarrow> string \<Rightarrow> string \<Rightarrow> string option \<Rightarrow> int \<Rightarrow> credit_sale \<Rightarrow> unit svc" where
  "receive_credit_part gw cm oid ref name paid c = (let due = int_of_decimal (cs_amount c) in
     if due \<le> paid then
       thenA (set_credit_sale c (\<lambda>c. c\<lparr>cs_status := CS_SETTLED, cs_amount := 0\<rparr>))
       (thenA (pay_if_confirmed oid)
         (to_trader gw cm (cm_event ''order.creditpart_full'' cm) (Template ''credit_paid_in_full'' [JStr ref, JInt due, json_opt name])))
     else
       thenA (set_credit_sale c (\<lambda>c. c\<lparr>cs_amount := of_int (due - paid)\<rparr>))
         (to_trader gw cm (cm_event ''order.creditpart_partial'' cm)
           (Template ''credit_partial_received'' [JStr ref, JInt paid, JInt (due - paid), json_opt name])))"

definition credit_partial_answer :: "gateway \<Rightarrow> command \<Rightarrow> payload \<Rightarrow> unit svc" where
  "credit_partial_answer gw cm ts = (let oid = payload_str ts ''order_id''; ref = payload_str ts ''order_ref'';
       name = (if payload_str ts ''customer_name'' \<noteq> [] then Some (payload_str ts ''customer_name'') else None) in
     thenA (clear_trader_session (cm_trader_phone cm)) (case first_number (cm_message cm) of
       None \<Rightarrow> to_trader gw cm (cm_event ''trader.creditpart_invalid'' cm)
                (Plain (''I didn'' @ [CHR 0x27] @ ''t understand that. Just type the amount received (e.g. _5000_):''))
     | Some paid \<Rightarrow> if paid \<le> 0 then to_trader gw cm (cm_event ''trader.creditpart_zero'' cm) (Plain ''Amount must be greater than zero.'')
         else session_begin (bindA (active_sale oid) (\<lambda>sale. case sale of
             None \<Rightarrow> to_trader gw cm (cm_event ''order.creditpart_notfound'' cm) (Plain (''Could not find an active credit for order '' @ ref @ ''.''))
           | Some c \<Rightarrow> receive_credit_part gw cm oid ref name paid c))))"

text \<open>The price a trader counters with: the customer is asked to confirm it.\<close>

definition counter_price_answer :: "gateway \<Rightarrow> command \<Rightarrow> payload \<Rightarrow> unit svc" where
  "counter_price_answer gw cm ts = (let tp = cm_trader_phone cm; cp = payload_str ts ''customer_phone'' in
     thenA (clear_trader_session tp) (case first_number (cm_message cm) of
       None \<Rightarrow> to_trader gw cm (cm_event ''trader.neg_counter_invalid'' cm)
                (Plain (''I didn'' @ [CHR 0x27] @ ''t understand that. Just type the price (e.g. _7500_):''))
     | Some p \<Rightarrow> if p \<le> 0 then to_trader gw cm (cm_event ''trader.neg_counter_invalid'' cm)
                (Plain ''Price must be greater than 0. Type the price (e.g. _7500_):'')
         else if cp = [] then ret ()
         else bindA (get_pending_negotiation tp cp) (\<lambda>neg.
           let (its, oid, tid, ctid) = (case neg of
               Some (NegotiationDoc offered original product its oid ntid nctid) \<Rightarrow>
                 (its, oid, ntid, if nctid \<noteq> [] then Some nctid else cm_channel_tenant_id cm)
             | _ \<Rightarrow> ([], None, cm_tenant_id cm, cm_channel_tenant_id cm)) in
           thenA (clear_pending_negotiation tp cp)
           (thenA (set_order_session tid cp (ConfirmSession oid (with_price p its) p None))
           (thenA (reply gw cp tid (cm_event ''order.neg_counter'' cm)
               (Template ''negotiation_counter_to_customer'' [JStr (tr_business_name (cm_trader cm)), JInt p]) ctid)
             (to_trader gw cm (cm_event ''order.neg_counter_sent'' cm)
               (Plain (''Counter-offer of '' @ naira_amount p @ '' sent. Waiting for customer to respond.''))))))))"

text \<open>Asking for the counter price.\<close>

definition counter_tap :: "gateway \<Rightarrow> command \<Rightarrow> string \<Rightarrow> unit svc" where
  "counter_tap gw cm cp = bindA (get_pending_negotiation (cm_trader_phone cm) cp) (\<lambda>neg.
     let (original, offered) = (case neg of Some (NegotiationDoc f g product its oid ntid nctid) \<Rightarrow> (g, f) | _ \<Rightarrow> (0, 0)) in
     thenA (set_trader_session (cm_trader_phone cm) (TraderSessionDoc ''awaiting_counter_price'' [(''customer_phone'', JStr cp)]))
       (reply_with_cancel gw (cm_trader_phone cm) (cm_tenant_id cm) (cm_event ''trader.neg_counter_prompt'' cm)
         (Template ''negotiation_counter_prompt'' [JInt original, JInt offered]) (cm_channel_tenant_id cm)))"

section \<open>The debt book\<close>

definition do_create_debt :: "gateway \<Rightarrow> command \<Rightarrow> string \<Rightarrow> int \<Rightarrow> unit svc" where
  "do_create_debt gw cm name amt = thenA (session_begin (thenA (cs_create (new_debt (cm_tenant_id cm) None None name (of_int amt) ''NGN'')) (ret ())))
     (to_trader gw cm (cm_event ''trader.debt_created'' cm) (Template ''debt_created'' [JStr name, JInt amt]))"

definition active_debts :: "string \<Rightarrow> string \<Rightarrow> world \<Rightarrow> credit_sale list" where
  "active_debts tid name w = filter (\<lambda>c. cs_tenant_id c = tid \<and> cs_status c = CS_ACTIVE \<and> lower (cs_customer_name c) = lower name) (credit_sales w)"

definition do_settle_debt :: "gateway \<Rightarrow> command \<Rightarrow> string \<Rightarrow> int \<Rightarrow> unit svc" where
  "do_settle_debt gw cm name amt = bindA (session_begin (bindA (getA (active_debts (cm_tenant_id cm) name)) (\<lambda>debts. case debts of
       [] \<Rightarrow> thenA (to_trader gw cm (cm_event ''trader.debt_notfound'' cm) (Template ''debt_not_found'' [JStr name])) (ret None)
     | [d] \<Rightarrow> (let due = int_of_decimal (cs_amount d) in
         if amt \<le> 0 then ret None
         else if due \<le> amt then thenA (cs_update_status d CS_SETTLED) (ret (Some (cs_customer_name d, due, False)))
         else thenA (set_credit_sale d (\<lambda>d. d\<lparr>cs_amount := of_int (due - amt)\<rparr>)) (ret (Some (cs_customer_name d, due, True))))
     | _ \<Rightarrow> thenA (to_trader gw cm (cm_event ''trader.debt_ambiguous'' cm) (Template ''debt_ambiguous'' [JInt (int (length debts)), JStr name])) (ret None))))
     (\<lambda>r. case r of None \<Rightarrow> ret ()
      | Some (who, due, part) \<Rightarrow> if part
          then to_trader gw cm (cm_event ''trader.debt_partial'' cm) (Template ''debt_partial_payment'' [JStr who, JInt amt, JInt (due - amt)])
          else to_trader gw cm (cm_event ''trader.debt_settled'' cm) (Template ''debt_settled'' [JStr who, JInt due]))"

definition days_since :: "timestamp \<Rightarrow> timestamp \<Rightarrow> int" where
  "days_since now t = max 1 ((now - t) div (86400 * second))"

definition debt_rows :: "timestamp \<Rightarrow> credit_sale list \<Rightarrow> (string \<times> (string \<times> string \<times> string) list) list" where
  "debt_rows now ds = [(''Outstanding debts'', map (\<lambda>d. (take 72 (''DEBTACT_'' @ cs_id d), take 24 (cs_customer_name d),
     take 72 (naira_amount (int_of_decimal (cs_amount d)) @ '' - '' @ show_int (days_since now (cs_created_at d)) @ ''d ago''))) (take 10 ds))]"

definition do_list_debts :: "gateway \<Rightarrow> command \<Rightarrow> unit svc" where
  "do_list_debts gw cm = bindA (getA (cs_list (cm_tenant_id cm) (Some CS_ACTIVE))) (\<lambda>ds. bindA (getA clock) (\<lambda>now.
     if ds = [] then to_trader gw cm (cm_event ''trader.debt_list'' cm) (Template ''debt_list_empty'' [])
     else reply_list gw (cm_trader_phone cm) (cm_tenant_id cm) (cm_event ''trader.debt_list'' cm)
       (Template ''debt_list_picker'' [JInt (int (length ds)), JInt (\<Sum>d\<leftarrow>ds. int_of_decimal (cs_amount d))])
       ''View debtors'' (debt_rows now ds) (cm_channel_tenant_id cm)))"

definition already_settled :: "gateway \<Rightarrow> command \<Rightarrow> string \<Rightarrow> unit svc" where
  "already_settled gw cm name = to_trader gw cm (cm_event name cm) (Plain ''This debt has already been settled or could not be found.'')"

definition handle_debt_action :: "gateway \<Rightarrow> command \<Rightarrow> string \<Rightarrow> unit svc" where
  "handle_debt_action gw cm cid = bindA (cs_get_by_id cid (cm_tenant_id cm)) (\<lambda>r. bindA (getA clock) (\<lambda>now. case r of
     Some c \<Rightarrow> if cs_status c \<noteq> CS_ACTIVE then already_settled gw cm ''trader.debtact_notfound''
       else reply_interactive gw (cm_trader_phone cm) (cm_tenant_id cm) (cm_event ''trader.debtact'' cm)
         (Template ''debt_action_buttons'' [JStr (cs_customer_name c), JInt (int_of_decimal (cs_amount c)), JInt (days_since now (cs_created_at c))])
         [(''SETTLE_'' @ cs_id c, ''Settled''), (''REMIND_'' @ cs_id c, ''Remind'')] (cm_channel_tenant_id cm) None
   | None \<Rightarrow> already_settled gw cm ''trader.debtact_notfound''))"

definition handle_debt_settle :: "gateway \<Rightarrow> command \<Rightarrow> string \<Rightarrow> unit svc" where
  "handle_debt_settle gw cm cid = bindA (session_begin (bindA (cs_get_by_id cid (cm_tenant_id cm)) (\<lambda>r. case r of
       Some c \<Rightarrow> if cs_status c \<noteq> CS_ACTIVE then thenA (already_settled gw cm ''trader.settle_notfound'') (ret None)
         else thenA (cs_update_status c CS_SETTLED) (ret (Some c))
     | None \<Rightarrow> thenA (already_settled gw cm ''trader.settle_notfound'') (ret None))))
     (\<lambda>r. case r of None \<Rightarrow> ret ()
      | Some c \<Rightarrow> thenA (emit ''credit_sale.status_changed'' (cm_tenant_id cm) [(''credit_sale_id'', JStr cid),
            (''order_id'', json_opt (cs_order_id c)), (''new_status'', JStr ''settled'')])
          (to_trader gw cm (cm_event ''trader.debt_settled'' cm) (Template ''debt_settled'' [JStr (cs_customer_name c), JInt (int_of_decimal (cs_amount c))])))"

text \<open>\<open>except ValueError\<close>: no conversation or no reminder left.\<close>

definition handle_debt_remind :: "gateway \<Rightarrow> command \<Rightarrow> string \<Rightarrow> unit svc" where
  "handle_debt_remind gw cm cid = tryA (bindA (session_begin (send_reminder cid (cm_tenant_id cm))) (\<lambda>(i, n, sent).
       to_trader gw cm (cm_event ''trader.debt_remind'' cm) (Template ''debt_remind_sent''
         [JStr (if CHR '','' \<in> set sent then takeWhile (\<lambda>c. c \<noteq> CHR '','') sent else ''the customer'')])))
     (\<lambda>e. case e of ValueError _ \<Rightarrow> bindA (getA credit_sales) (\<lambda>cs.
         bindA (liftE (scalar_one_or_none (filter (\<lambda>c. cs_id c = cid) cs))) (\<lambda>r.
           to_trader gw cm (cm_event ''trader.debt_remind_fail'' cm) (Template ''debt_remind_failed''
             [JStr (case r of Some c \<Rightarrow> cs_customer_name c | None \<Rightarrow> ''this customer'')])))
       | _ \<Rightarrow> raise e)"

section \<open>What the commands change\<close>

text \<open>Besides the changes of the API, a command may put an order on credit, in any state.\<close>

definition order_touch :: "world \<Rightarrow> world \<Rightarrow> bool" where
  "order_touch w w' \<longleftrightarrow> order_change False None w w'
     \<or> (\<exists>i. orders w' = update_where (\<lambda>y. o_id y = i) (\<lambda>y. y\<lparr>o_is_credit := True\<rparr>) (orders w) \<and> order_items w' = order_items w \<and> later w w')"

lemma change_unscoped:
  assumes "order_change chk tid w w'"
  shows "order_change chk None w w'"
  using assms
proof cases
  case unchanged
  then show ?thesis by (intro order_change.unchanged)
next
  case (moved x t)
  then show ?thesis by (intro order_change.moved [of x w None t]) (simp_all add: scoped_def)
next
  case (created row its)
  then show ?thesis by (intro order_change.created [of None row]) (simp_all add: scoped_def)
next
  case (edited x f)
  then show ?thesis by (intro order_change.edited [of x w None w' f]) (simp_all add: scoped_def)
qed

interpretation trader_change: order_relation order_touch
proof
  fix w w' assume t: "order_touch w w'" and wf: "wf_orders w"
  from t show "wf_orders w'" unfolding order_touch_def
  proof (elim disjE exE conjE)
    fix i assume o: "orders w' = update_where (\<lambda>y. o_id y = i) (\<lambda>y. y\<lparr>o_is_credit := True\<rparr>) (orders w)"
      and "order_items w' = order_items w" "later w w'"
    then show ?thesis by (intro wf_orders_update [OF wf o]) auto
  qed (rule change_wf [OF _ wf])
next
  fix w w' :: world assume "orders w' = orders w" "order_items w' = order_items w" "later w w'"
  then show "order_touch w w'" unfolding order_touch_def by (intro disjI1 order_change.unchanged)
next
  fix w w' assume "order_touch w w'"
  then show "later w w'" unfolding order_touch_def using change_later by blast
qed

lemma flow_touch: "order_flow tid m \<Longrightarrow> moves order_touch m"
  by (erule moves_mono) (auto simp: order_touch_def intro: change_unscoped)

text \<open>Looking up a reference changes nothing and finds an order of the table.\<close>

lemma ref_pure:
  obtains r where "get_by_ref_prefix ref tid w = (Inr r, w)" and "\<forall>x. r = Some x \<longrightarrow> x \<in> set (orders w)"
proof -
  let ?xs = "filter (\<lambda>x. sql_like (ref @ ''%'') (o_id x) \<and> scoped tid (o_tenant_id x)) (orders w)"
  have "get_by_ref_prefix ref tid w = (Inr (case ?xs of [] \<Rightarrow> None | x # _ \<Rightarrow> Some x), w)"
    unfolding get_by_ref_prefix_def bindA_apply getA_apply by (simp only: prod.case sum.case liftE_apply scalar_take1)
  moreover have "x \<in> set (orders w)" if "(case ?xs of [] \<Rightarrow> None | x # _ \<Rightarrow> Some x) = Some x" for x
  proof -
    from that have "x \<in> set ?xs" by (cases ?xs) simp_all
    then show ?thesis by simp
  qed
  ultimately show thesis using that by blast
qed

context order_relation
begin

lemma moves_sales:
  "moves R (active_sale oid)" "moves R (settle_sales_of oid)" "moves R (cs_create c)" "moves R (set_credit_sale c f)"
  "moves R (cs_update_status c st)" "moves R (cs_get_by_id cid tid)" "moves R (emit n t p)"
  by (rule moves_same; auto simp: active_sale_def settle_sales_of_def cs_create_def set_credit_sale_def cs_update_status_def cs_get_by_id_def
      act_simps later_def Let_def split: sum.splits)+

lemma moves_send_reminder: "moves R (send_reminder cid tid)"
  unfolding send_reminder_def credit_sale_or_404_def increment_reminder_def save_message_def insert_message_def
  by (intro moves_rules moves_sales moves_same) (auto simp: act_simps later_def Let_def)

lemma moves_buyer: "moves R (to_buyer gw cm p e m)"
  unfolding to_buyer_def by (intro moves_rules)

text \<open>An attempt from a state: the attempted action, then either continuation.\<close>

lemma attempt_at:
  assumes "R\<^sup>*\<^sup>* w (snd (m w))" and "wf_orders w" and "moves R ok" and "\<And>c. moves R (bad c)"
  shows "R\<^sup>*\<^sup>* w (snd (attempt m ok bad w))"
proof -
  have "R\<^sup>*\<^sup>* w (snd (thenA m (ret (None :: conflict option)) w))"
    unfolding thenA_bindA using assms(1,2) by (intro bind_at moves_ret)
  moreover have "moves R (case e of ConflictError c \<Rightarrow> ret (Some c) | _ \<Rightarrow> raise e)" for e :: error
    by (cases e) (simp_all add: moves_ret moves_raise)
  ultimately show ?thesis
    unfolding attempt_def using assms(2-4) by (intro bind_at try_at moves_case)
qed

text \<open>A command acts on the order its reference names.\<close>

lemma moves_ref:
  assumes "moves R (f None)" and "\<And>x w. wf_orders w \<Longrightarrow> x \<in> set (orders w) \<Longrightarrow> R\<^sup>*\<^sup>* w (snd (f (Some x) w))"
  shows "moves R (bindA (get_by_ref_prefix ref tid) f)"
  unfolding moves_def
proof (intro allI impI)
  fix w assume wf: "wf_orders w"
  obtain r where r: "get_by_ref_prefix ref tid w = (Inr r, w)" "\<And>x. r = Some x \<Longrightarrow> x \<in> set (orders w)"
    by (rule ref_pure) blast
  show "R\<^sup>*\<^sup>* w (snd (bindA (get_by_ref_prefix ref tid) f w))"
  proof (cases r)
    case None
    with r(1) assms(1) wf show ?thesis by (simp add: bindA_apply moves_def)
  next
    case (Some x)
    with r assms(2) [OF wf] show ?thesis by (simp add: bindA_apply)
  qed
qed

end

lemma transition_any: "x \<in> set (orders w) \<Longrightarrow> order_change False None w (snd (transition_order x t w))"
proof (cases "transition (o_state x) t")
  case True
  assume "x \<in> set (orders w)"
  with True show ?thesis
    by (intro order_change.moved [of x w None t]) (simp_all add: transition_order_eq later_def scoped_def)
qed (simp add: transition_order_eq)

lemma paid_any: "x \<in> set (orders w) \<Longrightarrow> order_change False None w (snd (do_paid_transition x w))"
proof (cases "o_state x = CONFIRMED")
  case True
  assume "x \<in> set (orders w)"
  with True show ?thesis
    using after_paid_orders [OF True, of w] transition.pay
    by (intro order_change.moved [of x w None PAID]) (simp_all add: do_paid_transition_eq scoped_def)
qed (simp add: do_paid_transition_eq)

lemma touch_transition: "x \<in> set (orders w) \<Longrightarrow> order_touch\<^sup>*\<^sup>* w (snd (transition_order x t w))"
  and touch_paid: "x \<in> set (orders w) \<Longrightarrow> order_touch\<^sup>*\<^sup>* w (snd (do_paid_transition x w))"
  using transition_any paid_any by (auto simp: order_touch_def)

lemma credit_flag_moves: "moves order_touch (set_order i (\<lambda>y. y\<lparr>o_is_credit := True\<rparr>))"
  by (rule trader_change.movesI) (auto simp: set_order_def order_touch_def later_def)

lemmas touch_rules = trader_change.flow_rules trader_change.moves_sales trader_change.moves_send_reminder trader_change.moves_buyer credit_flag_moves

lemma order_command_moves: "moves order_touch (order_command gw cm i ref)"
  unfolding order_command_def
proof (rule trader_change.moves_ref, goal_cases)
  case (2 x w)
  have "order_touch\<^sup>*\<^sup>* w (snd (trader_confirms gw cm ref x w))" "order_touch\<^sup>*\<^sup>* w (snd (trader_cancels gw cm ref x w))"
    "order_touch\<^sup>*\<^sup>* w (snd (trader_marks_paid gw cm ref x w))"
    unfolding trader_confirms_def trader_cancels_def trader_marks_paid_def
    by (intro trader_change.attempt_at touch_transition touch_paid 2 touch_rules)+
  moreover have "moves order_touch (trader_gives_credit gw cm ref x)"
    unfolding trader_gives_credit_def by (intro touch_rules)
  ultimately show ?case using 2(1) by (simp add: moves_def)
qed (simp add: trader_change.moves_replies)

lemma payment_tap_moves: "moves order_touch (payment_receipt_tap gw cm)"
  unfolding payment_receipt_tap_def Let_def
proof (intro trader_change.moves_if trader_change.moves_ret trader_change.moves_ref, goal_cases)
  case (2 x w)
  have "order_touch\<^sup>*\<^sup>* w (snd (payment_received gw cm x w))"
    unfolding payment_received_def by (intro trader_change.attempt_at touch_paid 2 touch_rules)
  moreover have "moves order_touch (payment_not_received gw cm x)"
    unfolding payment_not_received_def by (intro touch_rules)
  moreover have "moves order_touch (to_trader gw cm (cm_event ''order.payrcvd_notfound'' cm) m)" for m
    by (intro touch_rules)
  ultimately show ?case using 2(1) by (simp add: moves_def)
qed (simp add: trader_change.moves_replies)

lemma active_sale_pure: "\<exists>r. active_sale oid w = (r, w)"
  by (simp add: active_sale_def act_simps)

lemma local_select_moves: "moves order_touch local_select"
  unfolding local_select_def by (rule trader_change.moves_raise)

lemma credit_tap_moves: "moves order_touch (credit_payment_tap gw cm)"
  unfolding credit_payment_tap_def Let_def
proof (intro trader_change.moves_if trader_change.moves_ret trader_change.moves_ref, goal_cases)
  case (2 x w)
  have full: "order_touch\<^sup>*\<^sup>* w (snd (credit_paid_full gw cm x tot w))" for tot
    unfolding credit_paid_full_def by (intro trader_change.attempt_at touch_paid 2 touch_rules)
  have "moves order_touch (to_trader gw cm (cm_event ''order.creditpaid_notfound'' cm) m)" for m
    by (intro touch_rules)
  with 2(1) show ?case by (simp add: moves_def thenA_apply local_select_def)
qed (simp add: trader_change.moves_replies)

lemma order_list_moves: "moves order_touch (order_action_tap gw cm)" "moves order_touch (do_list_pending_orders f gw cm)"
  unfolding order_action_tap_def do_list_pending_orders_def Let_def by (intro touch_rules local_select_moves)+

lemma pay_if_confirmed_moves: "moves order_touch (pay_if_confirmed oid)"
  unfolding moves_def pay_if_confirmed_def
proof (intro allI impI)
  fix w assume wf: "wf_orders w"
  have "snd (thenA m (ret ()) w) = snd (m w)" for m :: "order option svc" by (auto simp: thenA_apply split: prod.splits sum.splits)
  moreover have "snd (none_on_conflict m w) = snd (m w)" for m :: "order svc"
    by (auto simp: none_on_conflict_def tryA_apply bindA_apply split: prod.splits sum.splits error.splits)
  ultimately show "order_touch\<^sup>*\<^sup>* w (snd (bindA (get_by_id oid None) (\<lambda>ord. case ord of
      Some x \<Rightarrow> if o_state x = CONFIRMED then thenA (none_on_conflict (do_paid_transition x)) (ret ()) else ret () | None \<Rightarrow> ret ()) w))"
    using touch_paid [of _ w] order_at_Some [of w oid None]
    by (cases "order_at w oid None") (auto simp: bindA_apply get_by_id_eq [OF wf])
qed

lemma credit_partial_moves: "moves order_touch (credit_partial_answer gw cm ts)"
  unfolding credit_partial_answer_def receive_credit_part_def Let_def by (intro touch_rules pay_if_confirmed_moves)

lemma counter_moves: "moves order_touch (counter_price_answer gw cm ts)" "moves order_touch (counter_tap gw cm cp)"
  unfolding counter_price_answer_def counter_tap_def Let_def case_prod_beta by (intro touch_rules)+

lemma debt_moves: "moves order_touch (do_create_debt gw cm name amt)" "moves order_touch (do_settle_debt gw cm name amt)"
  "moves order_touch (handle_debt_settle gw cm cid)"
  unfolding do_create_debt_def do_settle_debt_def handle_debt_settle_def already_settled_def Let_def case_prod_beta by (intro touch_rules)+

lemma remind_moves: "moves order_touch (handle_debt_remind gw cm cid)"
proof -
  have v: "moves order_touch (case e of ValueError v \<Rightarrow> m | _ \<Rightarrow> raise e)" if "moves order_touch m" for e and m :: "unit svc"
    using that by (cases e) (simp_all add: trader_change.moves_raise)
  show ?thesis unfolding handle_debt_remind_def case_prod_beta by (intro touch_rules v)
qed

section \<open>Histories of conversations\<close>

datatype chat_op =
    CustomerSays inbound
  | CartOrder inbound "(string \<times> int) list"
  | ImageOrder inbound string int "string option"
  | OrderCommand command intent string
  | ReceiptTap command
  | CreditTap command
  | CreditPart command payload
  | CounterPrice command payload
  | CounterTap command string
  | OfferAnswer command bool string
  | CreateDebt command string int
  | SettleDebt command string int
  | SettleTap command string
  | RemindTap command string
  | OrderTap command
  | OrderList "timestamp \<Rightarrow> string" command

fun chat_act :: "gateway \<Rightarrow> llm \<Rightarrow> chat_op \<Rightarrow> unit svc" where
  "chat_act gw l (CustomerSays ib) = handle_inbound_customer_message gw l ib"
| "chat_act gw l (CartOrder ib cart) = handle_cart_order gw ib cart"
| "chat_act gw l (ImageOrder ib product price media) = create_image_order gw ib product price media"
| "chat_act gw l (OrderCommand cm i ref) = order_command gw cm i ref"
| "chat_act gw l (ReceiptTap cm) = payment_receipt_tap gw cm"
| "chat_act gw l (CreditTap cm) = credit_payment_tap gw cm"
| "chat_act gw l (CreditPart cm ts) = credit_partial_answer gw cm ts"
| "chat_act gw l (CounterPrice cm ts) = counter_price_answer gw cm ts"
| "chat_act gw l (CounterTap cm cp) = counter_tap gw cm cp"
| "chat_act gw l (OfferAnswer cm accept cp) = handle_negotiation_response gw accept cp (cm_trader_phone cm) (cm_trader cm)
     (cm_message_id cm) (cm_tenant_id cm) (cm_channel_tenant_id cm)"
| "chat_act gw l (CreateDebt cm name amt) = do_create_debt gw cm name amt"
| "chat_act gw l (SettleDebt cm name amt) = do_settle_debt gw cm name amt"
| "chat_act gw l (SettleTap cm cid) = handle_debt_settle gw cm cid"
| "chat_act gw l (RemindTap cm cid) = handle_debt_remind gw cm cid"
| "chat_act gw l (OrderTap cm) = order_action_tap gw cm"
| "chat_act gw l (OrderList f cm) = do_list_pending_orders f gw cm"

text \<open>Each message in the transaction of its event handler.\<close>

definition chat_step :: "gateway \<Rightarrow> llm \<Rightarrow> chat_op \<Rightarrow> world \<Rightarrow> world" where
  "chat_step gw l x w = exec (handler_session (chat_act gw l x)) w"

lemma chat_act_moves: "moves order_touch (chat_act gw l x)"
  by (cases x) (auto intro: flow_touch [OF inbound_flow] flow_touch [OF cart_flow] flow_touch [OF image_flow] flow_touch [OF response_flow]
      order_command_moves payment_tap_moves credit_tap_moves credit_partial_moves counter_moves debt_moves remind_moves order_list_moves)

lemma chat_step_touch: "wf_orders w \<Longrightarrow> order_touch\<^sup>*\<^sup>* w (chat_step gw l x w)"
  using trader_change.moves_handler [OF chat_act_moves, of gw l x] by (simp add: chat_step_def exec_def moves_def)

lemma touch_nth:
  assumes "order_touch w w'" and "wf_orders w" and "i < length (orders w)"
  shows "i < length (orders w') \<and> o_id (orders w' ! i) = o_id (orders w ! i) \<and> o_tenant_id (orders w' ! i) = o_tenant_id (orders w ! i)
     \<and> transition\<^sup>*\<^sup>* (o_state (orders w ! i)) (o_state (orders w' ! i))"
  using assms(1) unfolding order_touch_def
proof (elim disjE exE conjE)
  assume "order_change False None w w'"
  from change_nth [OF this assms(2,3)] show ?thesis by auto
next
  fix j assume "orders w' = update_where (\<lambda>y. o_id y = j) (\<lambda>y. y\<lparr>o_is_credit := True\<rparr>) (orders w)"
  with assms(3) show ?thesis by (simp add: update_where_def)
qed

lemma touches_nth:
  assumes "order_touch\<^sup>*\<^sup>* w w'" and "wf_orders w" and "i < length (orders w)"
  shows "i < length (orders w') \<and> o_id (orders w' ! i) = o_id (orders w ! i) \<and> o_tenant_id (orders w' ! i) = o_tenant_id (orders w ! i)
     \<and> transition\<^sup>*\<^sup>* (o_state (orders w ! i)) (o_state (orders w' ! i))"
  using assms(1)
proof induction
  case (step v w')
  from trader_change.steps_wf [OF step.hyps(1) assms(2)] step.IH touch_nth [OF step.hyps(2)]
  show ?case by (metis rtranclp_trans)
qed (use assms(3) in simp)

lemma chat_steps_touch: "wf_orders w \<Longrightarrow> order_touch\<^sup>*\<^sup>* w (fold (chat_step gw l) xs w)"
proof (induction xs arbitrary: w)
  case (Cons x xs)
  have 1: "order_touch\<^sup>*\<^sup>* w (chat_step gw l x w)" by (rule chat_step_touch [OF Cons.prems])
  from rtranclp_trans [OF 1 Cons.IH [OF trader_change.steps_wf [OF 1 Cons.prems]]] show ?case by simp
qed simp

end
