(* ===== verification/Order_Moves.thy ===== *)
theory Order_Moves
  imports Trader_Orders
begin

text \<open>
  One message, one transition: handling a message of a conversation (\<open>handlers.py\<close>, the chat half of
  \<open>OrderService\<close>) changes the state of an order at most once. Most actions change no state at all; the others contain one
  attempted transition between such actions.
\<close>

section \<open>Steps that change no state\<close>

definition order_still :: "world \<Rightarrow> world \<Rightarrow> bool" where
  "order_still w w' \<longleftrightarrow> (wf_orders w \<longrightarrow> wf_orders w') \<and> later w w' \<and> length (orders w) \<le> length (orders w')
     \<and> (\<forall>i<length (orders w). o_id (orders w' ! i) = o_id (orders w ! i) \<and> o_tenant_id (orders w' ! i) = o_tenant_id (orders w ! i)
          \<and> o_state (orders w' ! i) = o_state (orders w ! i))"

lemma still_trans:
  assumes "order_still w v" and "order_still v w'"
  shows "order_still w w'"
proof -
  have "i < length (orders v)" if "i < length (orders w)" for i using assms(1) that by (simp add: order_still_def)
  with assms later_trans [of w v w'] show ?thesis by (simp add: order_still_def)
qed

interpretation still: order_relation order_still
proof
  fix w w' assume "order_still w w'" "wf_orders w"
  then show "wf_orders w'" by (simp add: order_still_def)
next
  fix w w' :: world assume s: "orders w' = orders w" "order_items w' = order_items w" "later w w'"
  have "wf_orders w \<Longrightarrow> wf_orders w'" by (rule change_wf [OF order_change.unchanged [OF s]])
  with s show "order_still w w'" by (simp add: order_still_def)
next
  fix w w' assume "order_still w w'"
  then show "later w w'" by (simp add: order_still_def)
qed

lemma still_steps: "order_still\<^sup>*\<^sup>* w w' \<Longrightarrow> order_still w w'"
  by (induction rule: rtranclp_induct) (auto intro: still_trans still.same_step)

lemma moves_still: "moves order_still m \<Longrightarrow> wf_orders w \<Longrightarrow> order_still w (snd (m w))"
  unfolding moves_def using still_steps by blast

lemma still_update:
  assumes "moves R m" and "order_relation R"
    and "\<And>w. \<exists>P f. (orders (snd (m w)) = update_where P f (orders w) \<or> orders (snd (m w)) = orders w) \<and> later w (snd (m w))
          \<and> (\<forall>y. o_id (f y) = o_id y \<and> o_tenant_id (f y) = o_tenant_id y \<and> o_state (f y) = o_state y)"
  shows "moves order_still m"
proof (rule still.movesI)
  fix w assume wf: "wf_orders w"
  from order_relation.moves_wf [OF assms(2,1) wf] have "wf_orders (snd (m w))" by (simp add: exec_def)
  with assms(3) [of w] show "order_still w (snd (m w))" by (auto simp: order_still_def update_where_def)
qed

lemma place_order_still: "moves order_still (place_order ib its tot)"
proof (rule still.movesI)
  fix w assume wf: "wf_orders w"
  from tenant_change.moves_wf [OF place_order_flow wf] have "wf_orders (snd (place_order ib its tot w))" by (simp add: exec_def)
  moreover have "\<exists>x. orders (snd (place_order ib its tot w)) = orders w @ [x] \<and> later w (snd (place_order ib its tot w))"
    by (rule place_order_eq [of ib its tot w]) (simp add: later_def)
  ultimately show "order_still w (snd (place_order ib its tot w))" by (auto simp: order_still_def nth_append)
qed

lemma set_quantity_still: "moves order_still (set_quantity ib oid q its tot)"
proof (rule still_update [OF set_quantity_flow tenant_change.order_relation_axioms])
  fix w
  let ?v = "snd (set_quantity ib oid q its tot w)"
  have "(\<exists>P a. orders ?v = update_where P (\<lambda>x. x\<lparr>o_amount := a\<rparr>) (orders w) \<or> orders ?v = orders w) \<and> later w ?v"
    by (auto simp: set_quantity_def session_order_def get_by_id_def bindA_apply thenA_apply set_order_def Let_def later_def
        split: option.splits sum.splits list.splits)
  then obtain P a where "orders ?v = update_where P (\<lambda>x. x\<lparr>o_amount := a\<rparr>) (orders w) \<or> orders ?v = orders w" "later w ?v" by blast
  then show "\<exists>P f. (orders ?v = update_where P f (orders w) \<or> orders ?v = orders w) \<and> later w ?v
      \<and> (\<forall>y. o_id (f y) = o_id y \<and> o_tenant_id (f y) = o_tenant_id y \<and> o_state (f y) = o_state y)"
    by (intro exI [of _ P] exI [of _ "\<lambda>x. x\<lparr>o_amount := a\<rparr>"]) simp
qed

lemma credit_flag_still: "moves order_still (set_order i (\<lambda>y. y\<lparr>o_is_credit := True\<rparr>))"
proof (rule still_update [OF credit_flag_moves trader_change.order_relation_axioms], intro exI conjI)
  fix w
  show "orders (snd (set_order i (\<lambda>y. y\<lparr>o_is_credit := True\<rparr>) w)) = update_where (\<lambda>y. o_id y = i) (\<lambda>y. y\<lparr>o_is_credit := True\<rparr>) (orders w)
      \<or> orders (snd (set_order i (\<lambda>y. y\<lparr>o_is_credit := True\<rparr>) w)) = orders w"
    and "later w (snd (set_order i (\<lambda>y. y\<lparr>o_is_credit := True\<rparr>) w))"
    by (simp_all add: set_order_def later_def)
qed simp

lemmas still_rules = still.flow_rules still.moves_sales still.moves_send_reminder still.moves_buyer place_order_still set_quantity_still
  credit_flag_still

section \<open>Actions that change no state\<close>

lemma summary_still: "moves order_still (order_with_summary gw ib n its)"
  unfolding order_with_summary_def Let_def by (intro still_rules)

lemma placing_still:
  "moves order_still (handle_cart_order gw ib cart)" "moves order_still (create_image_order gw ib product price media)"
  unfolding handle_cart_order_def create_image_order_def Let_def price_missing_def by (intro still_rules summary_still)+

lemma negotiation_still:
  "moves order_still (counter_round gw ib off oid its tot)" "moves order_still (start_negotiation gw ib session r)"
  "moves order_still (handle_negotiation_response gw accept cp tp tr mid tid ctid)"
  unfolding counter_round_def start_negotiation_def handle_negotiation_response_def Let_def escalate_offer_def hold_customer_def
  by (intro still_rules)+

lemma payment_sent_still: "moves order_still (handle_payment_sent gw ib scr)"
  unfolding handle_payment_sent_def Let_def by (intro still_rules)

lemma confirms_still: "moves order_still (customer_confirms gw ib oid its tot media)"
  unfolding customer_confirms_def Let_def by (intro still_rules)

lemma act_on_still: "moves order_still (act_on gw ib session r)"
  unfolding act_on_def ask_back_def order_items_named_def Let_def price_missing_def
  by (intro still_rules negotiation_still payment_sent_still summary_still)

lemma select_still: "moves order_still local_select"
  unfolding local_select_def by (rule still.moves_raise)

lemma gives_credit_still: "moves order_still (trader_gives_credit gw cm ref x)"
  unfolding trader_gives_credit_def by (intro still_rules)

lemma order_list_still: "moves order_still (order_action_tap gw cm)" "moves order_still (do_list_pending_orders f gw cm)"
  unfolding order_action_tap_def do_list_pending_orders_def Let_def by (intro still_rules select_still)+

lemma counter_still: "moves order_still (counter_price_answer gw cm ts)" "moves order_still (counter_tap gw cm cp)"
  unfolding counter_price_answer_def counter_tap_def Let_def case_prod_beta by (intro still_rules)+

lemma debt_still: "moves order_still (do_create_debt gw cm name amt)" "moves order_still (do_settle_debt gw cm name amt)"
  "moves order_still (handle_debt_settle gw cm cid)"
  unfolding do_create_debt_def do_settle_debt_def handle_debt_settle_def already_settled_def Let_def case_prod_beta by (intro still_rules)+

lemma remind_still: "moves order_still (handle_debt_remind gw cm cid)"
proof -
  have v: "moves order_still (case e of ValueError v \<Rightarrow> m | _ \<Rightarrow> raise e)" if "moves order_still m" for e and m :: "unit svc"
    using that by (cases e) (simp_all add: still.moves_raise)
  show ?thesis unfolding handle_debt_remind_def case_prod_beta by (intro still_rules v)
qed

section \<open>At most one transition\<close>

definition order_once :: "world \<Rightarrow> world \<Rightarrow> bool" where
  "order_once w w' \<longleftrightarrow> (wf_orders w \<longrightarrow> wf_orders w') \<and> later w w' \<and> length (orders w) \<le> length (orders w')
     \<and> (\<forall>i<length (orders w). o_id (orders w' ! i) = o_id (orders w ! i) \<and> o_tenant_id (orders w' ! i) = o_tenant_id (orders w ! i)
          \<and> (o_state (orders w' ! i) = o_state (orders w ! i) \<or> transition (o_state (orders w ! i)) (o_state (orders w' ! i))))"

definition once :: "'a svc \<Rightarrow> bool" where
  "once m \<longleftrightarrow> (\<forall>w. wf_orders w \<longrightarrow> order_once w (snd (m w)))"

lemma still_once: "order_still w w' \<Longrightarrow> order_once w w'"
  by (auto simp: order_still_def order_once_def)

lemma still_then_once:
  assumes "order_still w v" and "order_once v w'"
  shows "order_once w w'"
proof -
  have i: "i < length (orders v)" if "i < length (orders w)" for i using assms(1) that by (simp add: order_still_def)
  have "o_state (orders w' ! i) = o_state (orders w ! i) \<or> transition (o_state (orders w ! i)) (o_state (orders w' ! i))"
    if "i < length (orders w)" for i
  proof -
    have "o_state (orders v ! i) = o_state (orders w ! i)" using assms(1) that by (simp add: order_still_def)
    moreover have "o_state (orders w' ! i) = o_state (orders v ! i) \<or> transition (o_state (orders v ! i)) (o_state (orders w' ! i))"
      using assms(2) i [OF that] by (simp add: order_once_def)
    ultimately show ?thesis by simp
  qed
  with i assms later_trans [of w v w'] show ?thesis by (simp add: order_still_def order_once_def)
qed

lemma once_then_still:
  assumes "order_once w v" and "order_still v w'"
  shows "order_once w w'"
proof -
  have i: "i < length (orders v)" if "i < length (orders w)" for i using assms(1) that by (simp add: order_once_def)
  with assms later_trans [of w v w'] show ?thesis by (simp add: order_still_def order_once_def)
qed

lemma once_moves: "moves order_still m \<Longrightarrow> once m"
  unfolding once_def using moves_still still_once by blast

lemma once_wf: "order_once w w' \<Longrightarrow> wf_orders w \<Longrightarrow> wf_orders w'"
  by (simp add: order_once_def)

lemma change_once: "order_change chk tid w w' \<Longrightarrow> wf_orders w \<Longrightarrow> order_once w w'"
  unfolding order_once_def using change_nth [of chk tid w w'] change_wf [of chk tid w w'] change_later [of chk tid w w']
  by (metis less_imp_le_nat linorder_not_less length_0_conv list.size(3) not_less_zero order_refl)

text \<open>A transition first, then anything that changes no state.\<close>

lemma once_bind_at: "order_once w (snd (m w)) \<Longrightarrow> wf_orders w \<Longrightarrow> (\<And>x. moves order_still (f x)) \<Longrightarrow> order_once w (snd (bindA m f w))"
  unfolding bindA_apply by (cases "m w") (auto split: sum.splits intro: once_then_still moves_still once_wf)

lemma once_try_at: "order_once w (snd (m w)) \<Longrightarrow> wf_orders w \<Longrightarrow> (\<And>e. moves order_still (h e)) \<Longrightarrow> order_once w (snd (tryA m h w))"
  unfolding tryA_apply by (cases "m w") (auto split: sum.splits intro: once_then_still moves_still once_wf)

lemma once_attempt_at:
  assumes "order_once w (snd (m w))" and "wf_orders w" and "moves order_still ok" and "\<And>c. moves order_still (bad c)"
  shows "order_once w (snd (attempt m ok bad w))"
proof -
  have "order_once w (snd (thenA m (ret (None :: conflict option)) w))"
    unfolding thenA_bindA using assms(1,2) by (intro once_bind_at still.moves_ret)
  moreover have "moves order_still (case e of ConflictError c \<Rightarrow> ret (Some c) | _ \<Rightarrow> raise e)" for e :: error
    by (cases e) (simp_all add: still.moves_ret still.moves_raise)
  ultimately show ?thesis
    unfolding attempt_def using assms(2-4) by (intro once_bind_at once_try_at still.moves_case)
qed

lemma once_transition: "x \<in> set (orders w) \<Longrightarrow> wf_orders w \<Longrightarrow> order_once w (snd (transition_order x t w))"
  by (rule change_once [OF transition_any])

lemma once_paid: "x \<in> set (orders w) \<Longrightarrow> wf_orders w \<Longrightarrow> order_once w (snd (do_paid_transition x w))"
  by (rule change_once [OF paid_any])

text \<open>Anything that changes no state first, then a transition.\<close>

lemma once_bindA: "moves order_still m \<Longrightarrow> (\<And>x. once (f x)) \<Longrightarrow> once (bindA m f)"
proof -
  assume m: "moves order_still m" and f: "\<And>x. once (f x)"
  show ?thesis
    unfolding once_def
  proof (intro allI impI)
    fix w assume wf: "wf_orders w"
    obtain r v where r: "m w = (r, v)" by force
    with moves_still [OF m wf] have s: "order_still w v" by simp
    with wf have "wf_orders v" by (simp add: order_still_def)
    with f s have "order_once w (snd (f x v))" for x by (auto simp: once_def intro: still_then_once)
    with s show "order_once w (snd (bindA m f w))" by (cases r) (simp_all add: bindA_apply r still_once)
  qed
qed

lemma once_thenA: "moves order_still m \<Longrightarrow> once k \<Longrightarrow> once (thenA m k)"
  by (simp add: thenA_bindA once_bindA)

lemma once_then: "once m \<Longrightarrow> moves order_still k \<Longrightarrow> once (thenA m k)"
  unfolding once_def thenA_bindA by (intro allI impI once_bind_at) auto

lemma once_if: "once m \<Longrightarrow> once k \<Longrightarrow> once (if b then m else k)"
  by simp

lemma once_case: "once m \<Longrightarrow> (\<And>x. once (f x)) \<Longrightarrow> once (case v of None \<Rightarrow> m | Some x \<Rightarrow> f x)"
  by (cases v) auto

lemma once_docs:
  "once m \<Longrightarrow> (\<And>a b c e. once (f a b c e)) \<Longrightarrow> (\<And>a b c. once (k a b c)) \<Longrightarrow>
     once (case d of ConfirmSession a b c e \<Rightarrow> f a b c e | ClarifySession a b c \<Rightarrow> k a b c | _ \<Rightarrow> m)"
  by (cases d; simp)

lemma once_session: "once m \<Longrightarrow> once (session_begin m)"
proof -
  assume m: "once m"
  show ?thesis
    unfolding once_def
  proof (intro allI impI)
    fix w assume wf: "wf_orders w"
    then have o: "order_once w (snd (m w))" using m by (simp add: once_def)
    then have "order_still w (restore_db w (snd (m w)))"
      by (intro still.same_step) (simp_all add: restore_db_def later_def order_once_def)
    with o show "order_once w (snd (session_begin m w))" by (cases "m w") (auto simp: session_begin_def still_once split: sum.splits)
  qed
qed

lemma once_handler: "once m \<Longrightarrow> once (handler_session m)"
proof -
  assume m: "once m"
  show ?thesis
    unfolding once_def
  proof (intro allI impI)
    fix w assume wf: "wf_orders w"
    then have o: "order_once w (snd (m w))" using m by (simp add: once_def)
    then have "order_still w ((restore_db w (snd (m w)))\<lparr>notifications := notifications (snd (m w)), interest_events := interest_events (snd (m w))\<rparr>)"
      by (intro still.same_step) (simp_all add: restore_db_def later_def order_once_def)
    with o show "order_once w (snd (handler_session m w))" by (cases "m w") (auto simp: handler_session_def still_once split: sum.splits)
  qed
qed

lemma once_ref:
  assumes "once (f None)" and "\<And>x w. wf_orders w \<Longrightarrow> x \<in> set (orders w) \<Longrightarrow> order_once w (snd (f (Some x) w))"
  shows "once (bindA (get_by_ref_prefix ref tid) f)"
  unfolding once_def
proof (intro allI impI)
  fix w assume wf: "wf_orders w"
  obtain r where r: "get_by_ref_prefix ref tid w = (Inr r, w)" "\<forall>x. r = Some x \<longrightarrow> x \<in> set (orders w)"
    by (rule ref_pure) blast
  with assms wf show "order_once w (snd (bindA (get_by_ref_prefix ref tid) f w))"
    by (cases r) (simp_all add: bindA_apply once_def)
qed

section \<open>The actions of a conversation\<close>

lemma fail_inquiry_once: "once (fail_inquiry oid tid)"
  unfolding once_def
proof (intro allI impI)
  fix w assume wf: "wf_orders w"
  show "order_once w (snd (fail_inquiry oid tid w))"
  proof (cases oid)
    case (Some i)
    have "snd (thenA m (ret ()) w) = snd (m w)" for m :: "order option svc"
      by (auto simp: thenA_apply split: prod.splits sum.splits)
    moreover have "order_change False (Some tid) w (snd (fail_inquiry oid tid w))"
      by (cases "order_at w i (Some tid)")
        (auto simp: fail_inquiry_def session_order_def Some bindA_apply get_by_id_eq [OF wf] calculation
          intro: change_none_on_conflict change_transition)
    ultimately show ?thesis using change_once wf by blast
  qed (simp add: fail_inquiry_def truthy_str_def still_once still.same_step)
qed

lemma cancels_once: "once (customer_cancels gw ib oid its)"
  unfolding customer_cancels_def Let_def by (intro once_then fail_inquiry_once) (intro still_rules)

lemma answer_summary_once: "once (answer_summary gw l ib oid its tot media)"
proof -
  have still: "moves order_still (customer_confirms gw ib oid its tot media)" "moves order_still (counter_round gw ib off oid its tot)"
    "moves order_still (to_customer gw ib e m)" for gw ib oid its tot media off e m
    by (intro confirms_still negotiation_still still_rules)+
  show ?thesis
    unfolding answer_summary_def Let_def case_prod_beta
    by (intro once_bindA once_if cancels_once still [THEN once_moves]) (intro still_rules)
qed

lemma inbound_once: "once (handle_inbound_customer_message gw l ib)"
proof -
  have stop: "moves order_still (stop_reply gw ib)" unfolding stop_reply_def by (intro still_rules)
  have mute: "moves order_still (muted ib)" unfolding muted_def by (intro still_rules)
  have clar: "moves order_still (bindA (answer_clarification l ib a b c) (act_on gw ib s))" for a b c s
    unfolding answer_clarification_def Let_def by (intro still_rules act_on_still)
  have fresh: "moves order_still (bindA (parse_or_unknown l ib []) (act_on gw ib s))" for s by (intro still_rules act_on_still)
  have ret: "moves order_still (ret ())" by (rule still.moves_ret)
  show ?thesis
    unfolding handle_inbound_customer_message_def
    by (intro once_bindA once_if once_case once_docs answer_summary_once stop mute still.moves_store once_moves [OF clar] once_moves [OF fresh] once_moves [OF ret])
qed

lemma order_command_once: "once (order_command gw cm i ref)"
  unfolding order_command_def
proof (rule once_ref, goal_cases)
  case 1
  show ?case by (simp add: once_moves still.moves_replies)
next
  case (2 x w)
  have "order_once w (snd (trader_confirms gw cm ref x w))" "order_once w (snd (trader_cancels gw cm ref x w))"
    "order_once w (snd (trader_marks_paid gw cm ref x w))"
    unfolding trader_confirms_def trader_cancels_def trader_marks_paid_def
    by (intro once_attempt_at once_transition once_paid 2 still_rules)+
  moreover have "order_once w (snd (trader_gives_credit gw cm ref x w))"
    by (intro still_once moves_still gives_credit_still 2)
  ultimately show ?case by (simp add: still_once still.same_step)
qed

lemma receipt_once: "once (payment_receipt_tap gw cm)"
  unfolding payment_receipt_tap_def Let_def
proof (intro once_if once_ref, goal_cases)
  case 1
  show ?case by (intro once_moves still.moves_ret)
next
  case 2
  show ?case by (simp add: once_moves still.moves_replies)
next
  case (3 x w)
  have "order_once w (snd (payment_received gw cm x w))"
    unfolding payment_received_def by (intro once_attempt_at once_paid 3 still_rules)
  moreover have "moves order_still (payment_not_received gw cm x)"
    unfolding payment_not_received_def by (intro still_rules)
  moreover have "moves order_still (to_trader gw cm (cm_event ''order.payrcvd_notfound'' cm) m)" for m
    by (intro still_rules)
  ultimately show ?case using 3(1) by (simp add: still_once moves_still)
qed

lemma credit_tap_once: "once (credit_payment_tap gw cm)"
  unfolding credit_payment_tap_def Let_def
proof (intro once_if once_ref, goal_cases)
  case 1
  show ?case by (intro once_moves still.moves_ret)
next
  case 2
  show ?case by (simp add: once_moves still.moves_replies)
next
  case (3 x w)
  have "moves order_still (to_trader gw cm (cm_event ''order.creditpaid_notfound'' cm) m)" for m
    by (intro still_rules)
  with 3(1) show ?case by (simp add: still_once moves_still thenA_apply local_select_def still.same_step)
qed

lemma pay_if_confirmed_once: "once (pay_if_confirmed oid)"
  unfolding once_def pay_if_confirmed_def
proof (intro allI impI)
  fix w assume wf: "wf_orders w"
  have "snd (thenA m (ret ()) w) = snd (m w)" for m :: "order option svc" by (auto simp: thenA_apply split: prod.splits sum.splits)
  moreover have "snd (none_on_conflict m w) = snd (m w)" for m :: "order svc"
    by (auto simp: none_on_conflict_def tryA_apply bindA_apply split: prod.splits sum.splits error.splits)
  moreover have "order_once w w" by (simp add: still_once still.same_step)
  ultimately show "order_once w (snd (bindA (get_by_id oid None) (\<lambda>ord. case ord of
      Some x \<Rightarrow> if o_state x = CONFIRMED then thenA (none_on_conflict (do_paid_transition x)) (ret ()) else ret () | None \<Rightarrow> ret ()) w))"
    using once_paid [OF _ wf] order_at_Some [of w oid None]
    by (cases "order_at w oid None") (auto simp: bindA_apply get_by_id_eq [OF wf])
qed

lemma credit_partial_once: "once (credit_partial_answer gw cm ts)"
proof -
  have "once (thenA (pay_if_confirmed oid) (to_trader gw cm e m))" for oid e m
    by (intro once_then pay_if_confirmed_once still_rules)
  then have full: "once (thenA (set_credit_sale c f) (thenA (pay_if_confirmed oid) (to_trader gw cm e m)))" for c f oid e m
    by (rule once_thenA [OF still.moves_sales(4)])
  have some: "once (thenA (set_credit_sale c f) (to_trader gw cm e m))" for c f e m
    by (rule once_moves) (intro still_rules)
  have part: "once (receive_credit_part gw cm oid ref name paid c)" for oid ref name paid c
    unfolding receive_credit_part_def Let_def by (intro once_if full some)
  show ?thesis
    unfolding credit_partial_answer_def Let_def
    by (intro once_thenA once_case once_if once_session once_bindA part still.moves_store still.moves_sales)
      (simp_all add: once_moves still.moves_replies)
qed

lemma chat_act_once: "once (chat_act gw l x)"
  by (cases x) (auto intro: inbound_once order_command_once receipt_once credit_tap_once credit_partial_once
      once_moves [OF placing_still(1)] once_moves [OF placing_still(2)] once_moves [OF counter_still(1)] once_moves [OF counter_still(2)]
      once_moves [OF negotiation_still(3)] once_moves [OF debt_still(1)] once_moves [OF debt_still(2)] once_moves [OF debt_still(3)]
      once_moves [OF remind_still] once_moves [OF order_list_still(1)] once_moves [OF order_list_still(2)])

lemma chat_step_once: "wf_orders w \<Longrightarrow> order_once w (chat_step gw l x w)"
  using once_handler [OF chat_act_once, of gw l x] by (simp add: once_def chat_step_def exec_def)

lemma chat_steps_wf: "wf_orders w \<Longrightarrow> wf_orders (fold (chat_step gw l) xs w)"
  by (induction xs arbitrary: w) (auto intro: once_wf [OF chat_step_once])

end
