(* ===== verification/Trader_Properties.thy ===== *)
theory Trader_Properties
  imports Order_Moves
begin

text \<open>
  What the commands of a store owner achieve (\<open>src/app/modules/orders/service.py\<close>): order commands by reference, payment notices, credit
  and debts, and a sale from the first message to the payment.
\<close>

section \<open>References\<close>

text \<open>The order a reference names: the first row that matches, of whatever tenant.\<close>

definition ref_order :: "string \<Rightarrow> world \<Rightarrow> order option" where
  "ref_order ref w = find (\<lambda>x. sql_like (ref @ ''%'') (o_id x)) (orders w)"

lemma get_by_ref_eq: "get_by_ref_prefix ref None w = (Inr (ref_order ref w), w)"
proof -
  have "(case filter p xs of [] \<Rightarrow> None | x # _ \<Rightarrow> Some x) = find p xs" for p and xs :: "order list"
    by (induction xs) auto
  then show ?thesis
    unfolding get_by_ref_prefix_def bindA_apply getA_apply prod.case sum.case liftE_apply scalar_take1 ref_order_def scoped_def by simp
qed

lemma ref_order_Some: "ref_order ref w = Some x \<Longrightarrow> x \<in> set (orders w)"
  unfolding ref_order_def by (drule find_Some_iff2) simp

text \<open>A reference without wildcards names the first order whose identifier it starts.\<close>

lemma ref_order_prefix:
  assumes "CHR ''%'' \<notin> set ref" and "CHR ''_'' \<notin> set ref"
  shows "ref_order ref w = find (\<lambda>x. take (length ref) (o_id x) = ref) (orders w)"
proof -
  have "sql_like (ref @ ''%'') s \<longleftrightarrow> take (length ref) s = ref" for s
    using wild_match_prefix [OF assms, of s] by (auto simp: sql_like_def) (metis append_take_drop_id)
  then show ?thesis by (simp add: ref_order_def)
qed

section \<open>Order commands\<close>

lemma attempt_done: "m w = (Inr y, w1) \<Longrightarrow> attempt m ok bad w = ok w1"
  by (simp add: attempt_def bindA_apply tryA_apply thenA_apply)

lemma attempt_refused: "m w = (Inl (ConflictError c), w) \<Longrightarrow> attempt m ok bad w = bad c w"
  by (simp add: attempt_def bindA_apply tryA_apply thenA_apply)

lemma quiet_case_option [intro]: "quiet m \<Longrightarrow> (\<And>x. quiet (f x)) \<Longrightarrow> quiet (case v of None \<Rightarrow> m | Some x \<Rightarrow> f x)"
  by (cases v) auto

lemma to_buyer_quiet [simp, intro]: "quiet (to_buyer gw cm p e m)"
  by (auto simp: to_buyer_def)

lemma quiet_core: "quiet m \<Longrightarrow> \<exists>x w'. m w = (Inr x, w') \<and> core w' = core w"
  unfolding quiet_def aside_def by blast

lemma quiet_unitE:
  fixes m :: "unit svc"
  assumes "quiet m" obtains w' where "m w = (Inr (), w')" and "core w' = core w"
  using quiet_core [OF assms, of w] by auto

text \<open>The state a command asks for.\<close>

fun command_target :: "intent \<Rightarrow> order_state option" where
  "command_target TRADER_CONFIRM = Some CONFIRMED"
| "command_target TRADER_CANCEL = Some FAILED"
| "command_target TRADER_PAID = Some PAID"
| "command_target _ = None"

lemma after_paid_redis:
  assumes "o_state x = CONFIRMED"
  shows "redis (after_paid x w) = redis w" "clock (after_paid x w) = clock w" "credit_sales (after_paid x w) = credit_sales w"
proof -
  have t: "transition CONFIRMED PAID" by (rule transition.pay)
  let ?w1 = "exec (transition_order x PAID) w"
  obtain r n cl where u: "upsert_customer (str_or_empty (o_trader_phone x)) (o_tenant_id x) (str_or_empty (o_customer_phone x))
      (o_customer_name x) (amount_or_0 (o_amount x)) ?w1 = (r, ?w1\<lparr>uuid_n := n, customer_list := cl\<rparr>)"
    using upsert_frame by blast
  have "after_paid x w = (let w3 = exec (advance_referral_to_first_order (str_or_empty (o_trader_phone x)))
       (?w1\<lparr>uuid_n := n, customer_list := cl\<rparr>) in w3\<lparr>uuid_n := Suc (uuid_n w3), published := published w3 @ [paid_event x w3]\<rparr>)"
    unfolding after_paid_def by (simp add: exec_def [of "upsert_customer a b c d e" for a b c d e] u(1) Let_def)
  then show "redis (after_paid x w) = redis w" "clock (after_paid x w) = clock w" "credit_sales (after_paid x w) = credit_sales w"
    using t assms by (simp_all add: advance_referral_to_first_order_def exec_def [of "modA f" for f] Let_def)
      (simp_all add: exec_def transition_order_eq)
qed

text \<open>The tables and events after an order has reached a state.\<close>

definition reached :: "order \<Rightarrow> order_state \<Rightarrow> world \<Rightarrow> world \<Rightarrow> bool" where
  "reached x t w w' \<longleftrightarrow> orders w' = update_where (\<lambda>y. o_id y = o_id x) (\<lambda>y. y\<lparr>o_state := t\<rparr>) (orders w)
     \<and> order_items w' = order_items w \<and> credit_sales w' = credit_sales w \<and> (t \<noteq> PAID \<longrightarrow> customer_list w' = customer_list w)
     \<and> (\<exists>e es. published w' = published w @ e # es \<and> ev_event_name e = ''order.state_changed'' \<and> ev_tenant_id e = o_tenant_id x
          \<and> ev_payload e = state_changed_payload x t \<and> map ev_event_name es = (if t = PAID then [''order.paid''] else []))"

lemma reached_core: "reached x t w v \<Longrightarrow> core w' = core v \<Longrightarrow> reached x t w w'"
  using core_fields [of w' v] unfolding reached_def by simp

lemma reached_transition:
  assumes "transition (o_state x) t" and "t \<noteq> PAID"
  shows "reached x t w (exec (transition_order x t) w)"
  using assms by (simp add: reached_def exec_def transition_order_eq)

lemma reached_paid:
  assumes "o_state x = CONFIRMED"
  shows "reached x PAID w (after_paid x w)"
proof -
  have t: "transition (o_state x) PAID" using assms transition.pay by simp
  define w1 where "w1 = exec (transition_order x PAID) w"
  obtain r n cl where u: "upsert_customer (str_or_empty (o_trader_phone x)) (o_tenant_id x) (str_or_empty (o_customer_phone x))
      (o_customer_name x) (amount_or_0 (o_amount x)) w1 = (r, w1\<lparr>uuid_n := n, customer_list := cl\<rparr>)"
    using upsert_frame by blast
  have "\<exists>w3. published (after_paid x w) = published w1 @ [paid_event x w3]"
    unfolding after_paid_def
    by (simp add: w1_def [symmetric] exec_def [of "upsert_customer a b c d e" for a b c d e] u Let_def advance_referral_to_first_order_def
        exec_def [of "modA f" for f]) blast
  moreover obtain e where "published w1 = published w @ [e]" "ev_event_name e = ''order.state_changed''" "ev_tenant_id e = o_tenant_id x"
      "ev_payload e = state_changed_payload x PAID"
    using transition_exec [OF t, of w] by (auto simp: w1_def)
  ultimately have "\<exists>e es. published (after_paid x w) = published w @ e # es \<and> ev_event_name e = ''order.state_changed''
      \<and> ev_tenant_id e = o_tenant_id x \<and> ev_payload e = state_changed_payload x PAID \<and> map ev_event_name es = [''order.paid'']"
    by (auto simp: paid_event_def)
  then show ?thesis using after_paid_orders [OF assms, of w] after_paid_redis [OF assms, of w] by (simp add: reached_def)
qed

definition to_state :: "order_state \<Rightarrow> order \<Rightarrow> order svc" where
  "to_state t = (if t = PAID then do_paid_transition else (\<lambda>x. transition_order x t))"

lemma to_state_run:
  "if transition (o_state x) t then \<exists>y w1. to_state t x w = (Inr y, w1) \<and> reached x t w w1 \<and> redis w1 = redis w \<and> clock w1 = clock w
         \<and> (t = PAID \<longrightarrow> w1 = after_paid x w)
     else \<exists>c. to_state t x w = (Inl (ConflictError c), w)"
proof (cases "t = PAID")
  case True
  then show ?thesis using reached_paid [of x w] after_paid_redis [of x w]
    by (cases "o_state x") (auto simp: to_state_def do_paid_transition_eq transition_iffs)
next
  case False
  then show ?thesis using reached_transition [of x t w] by (auto simp: to_state_def exec_def transition_order_eq)
qed

lemma attempt_run:
  assumes "quiet ok" and "\<And>c. quiet (bad c)"
  obtains w' where "attempt (to_state t x) ok bad w = (Inr (), w')"
    and "if transition (o_state x) t then reached x t w w' \<and> redis w' = redis w \<and> (t = PAID \<longrightarrow> core w' = core (after_paid x w)) else core w' = core w"
proof (cases "transition (o_state x) t")
  case True
  with to_state_run [of x t w] obtain y w1 where w1: "to_state t x w = (Inr y, w1)" "reached x t w w1" "redis w1 = redis w"
    "t = PAID \<longrightarrow> w1 = after_paid x w" by auto
  from quiet_core [OF assms(1), of w1] obtain w' where w': "ok w1 = (Inr (), w')" "core w' = core w1" by auto
  show thesis
    using that [of w'] True w1 w' reached_core [OF w1(2) w'(2)] core_fields [OF w'(2)] by (simp add: attempt_done [of "to_state t x", OF w1(1)])
next
  case False
  with to_state_run [of x t w] obtain c where c: "to_state t x w = (Inl (ConflictError c), w)" by auto
  from quiet_core [OF assms(2), of c w] obtain w' where "bad c w = (Inr (), w')" "core w' = core w" by auto
  with that [of w'] False c show thesis by (simp add: attempt_refused)
qed

lemma confirm_run:
  "\<exists>w'. trader_confirms gw cm ref x w = (Inr (), w') \<and> (if transition (o_state x) CONFIRMED then reached x CONFIRMED w w' \<and> redis w' = redis w
     else core w' = core w)"
  unfolding trader_confirms_def
  by (rule attempt_run [where t = CONFIRMED and x = x, unfolded to_state_def, simplified, OF quiet_thenA [OF reply_interactive_quiet to_buyer_quiet] reply_quiet])
    (auto split: if_splits)

lemma cancel_run:
  "\<exists>w'. trader_cancels gw cm ref x w = (Inr (), w') \<and> (if transition (o_state x) FAILED
     then reached x FAILED w w' \<and> redis w' = redis_delete (session_key (cm_tenant_id cm) (str_or_empty (o_customer_phone x))) (redis w)
     else core w' = core w)"
proof (cases "transition (o_state x) FAILED")
  case True
  with to_state_run [of x FAILED w] obtain y w1 where w1: "transition_order x FAILED w = (Inr y, w1)" "reached x FAILED w w1" "redis w1 = redis w"
    by (auto simp: to_state_def)
  define m where "m = thenA (to_trader gw cm (''order.cancelled_trader.'' @ o_id x) (Template ''order_cancelled_to_trader'' [JStr ref, json_opt (named x)]))
       (to_buyer gw cm (o_customer_phone x) (''order.cancelled_customer.'' @ o_id x)
         (Template ''order_cancelled_to_customer'' [JStr (tr_business_name (cm_trader cm))]))"
  define w2 where "w2 = w1\<lparr>redis := redis_delete (session_key (cm_tenant_id cm) (str_or_empty (o_customer_phone x))) (redis w)\<rparr>"
  have "quiet m" unfolding m_def by (rule quiet_thenA [OF reply_quiet to_buyer_quiet])
  from quiet_core [OF this, of w2] obtain w' where w': "m w2 = (Inr (), w')" "core w' = core w2" by auto
  have "reached x FAILED w w2" using w1(2) by (simp add: reached_def w2_def)
  moreover have "trader_cancels gw cm ref x w = m w2"
    unfolding trader_cancels_def m_def [symmetric] attempt_done [of "transition_order x FAILED", OF w1(1)]
    by (simp add: thenA_apply clear_order_session_def cache_apply w2_def w1(3))
  ultimately show ?thesis using True w' reached_core [OF _ w'(2)] core_fields [OF w'(2)] by (simp add: w2_def)
next
  case False
  with to_state_run [of x FAILED w] obtain c where c: "transition_order x FAILED w = (Inl (ConflictError c), w)" by (auto simp: to_state_def)
  have "trader_cancels gw cm ref x w = to_trader gw cm (cm_event ''order.cancel_err'' cm) (refused_text ''cancel'' ref c) w"
    unfolding trader_cancels_def by (rule attempt_refused [of "transition_order x FAILED", OF c])
  with False quiet_core [OF reply_quiet] show ?thesis by auto
qed

text \<open>
  C5: the order commands. CONFIRM, CANCEL and PAID with the reference of an order move it to CONFIRMED, FAILED and PAID
  exactly when the state machine allows that: then this order and no other changes, the change is published (and for PAID the
  payment), and CANCEL ends the customer's session. Otherwise, and for an unknown reference, no order, line item, credit sale, event
  or session changes; in every case the command succeeds and its reply is only a message.
\<close>

theorem order_command_effects:
  assumes "command_target i = Some t"
  shows "\<exists>w'. order_command gw cm i ref w = (Inr (), w') \<and> (case ref_order ref w of
       Some x \<Rightarrow> if transition (o_state x) t
         then reached x t w w' \<and> redis w' = (if t = FAILED then redis_delete (session_key (cm_tenant_id cm) (str_or_empty (o_customer_phone x))) (redis w)
            else redis w)
         else core w' = core w
     | None \<Rightarrow> core w' = core w)"
proof (cases "ref_order ref w")
  case None
  then have run: "order_command gw cm i ref w = to_trader gw cm (cm_event ''order.not_found'' cm) (Template ''order_not_found_to_trader'' [JStr ref]) w"
    by (simp add: order_command_def bindA_apply get_by_ref_eq)
  show ?thesis unfolding None run using quiet_core [OF reply_quiet] by simp
next
  case (Some x)
  then have run: "order_command gw cm i ref w = (if t = CONFIRMED then trader_confirms gw cm ref x w else if t = FAILED then trader_cancels gw cm ref x w
      else trader_marks_paid gw cm ref x w)"
    using assms by (cases rule: command_target.cases [of i]) (auto simp: order_command_def bindA_apply get_by_ref_eq)
  consider (CONFIRMED) "t = CONFIRMED" | (FAILED) "t = FAILED" | (PAID) "t = PAID"
    using assms by (cases rule: command_target.cases [of i]) auto
  then show ?thesis
  proof cases
    case CONFIRMED
    show ?thesis
      unfolding run Some CONFIRMED by (simp add: confirm_run)
  next
    case PAID
    show ?thesis
      unfolding run Some trader_marks_paid_def PAID
      by (rule attempt_run [where t = PAID and x = x, unfolded to_state_def, simplified, OF reply_quiet reply_quiet]) (auto split: if_splits)
  next
    case FAILED
    show ?thesis unfolding run Some FAILED by (simp add: cancel_run)
  qed
qed

section \<open>Payment notices\<close>

lemma payment_tap_run:
  assumes "startswith (upper (strip (cm_message cm))) ''PAYRCVD ''" and "tap_ref (cm_message cm) \<noteq> []"
    and "ref_order (tap_ref (cm_message cm)) w = Some x" and "o_state x = CONFIRMED"
  obtains w' where "payment_receipt_tap gw cm w = (Inr (), w')" and "core w' = core (after_paid x w)"
proof -
  have q: "quiet (thenA (to_trader gw cm (''order.payrcvd_trader.'' @ o_id x) (Template ''order_paid_to_trader'' [JStr (short_ref x), json_opt (o_customer_name x)]))
       (to_buyer gw cm (o_customer_phone x) (''order.payrcvd_customer.'' @ o_id x)
         (Template ''payment_confirmed_to_customer'' [JStr (tr_business_name (cm_trader cm)), JStr (short_ref x)])))"
    by (rule quiet_thenA [OF reply_quiet to_buyer_quiet])
  have run: "payment_receipt_tap gw cm w = payment_received gw cm x w"
    using assms by (simp add: payment_receipt_tap_def Let_def bindA_apply get_by_ref_eq)
  obtain w' where w': "payment_received gw cm x w = (Inr (), w')"
    and c: "if transition (o_state x) PAID then reached x PAID w w' \<and> redis w' = redis w \<and> (PAID = PAID \<longrightarrow> core w' = core (after_paid x w)) else core w' = core w"
    unfolding payment_received_def
    by (rule attempt_run [where t = PAID and x = x and w = w, OF q reply_quiet]) (auto simp: to_state_def)
  from c assms(4) transition.pay have "core w' = core (after_paid x w)" by (auto split: if_splits)
  with w' run show thesis using that by simp
qed

text \<open>The orders a reference may mean: it is matched as an SQL pattern over the orders of all tenants.\<close>

definition matching :: "string \<Rightarrow> world \<Rightarrow> order list" where
  "matching ref w = filter (\<lambda>x. sql_like (ref @ ''%'') (o_id x)) (orders w)"

lemma ref_order_matching: "ref_order ref w = (case matching ref w of [] \<Rightarrow> None | x # _ \<Rightarrow> Some x)"
proof -
  have "find p xs = (case filter p xs of [] \<Rightarrow> None | x # _ \<Rightarrow> Some x)" for p and xs :: "order list"
    by (induction xs) auto
  then show ?thesis by (simp add: ref_order_def matching_def)
qed

lemma matching_any: "matching ''%'' w = orders w"
proof -
  have "sql_like (''%'' @ ''%'') i" for i by (simp add: sql_like_def wild_match_many) (metis append_Nil)
  then show ?thesis by (simp add: matching_def)
qed

text \<open>
  C21: a payment notice is not checked against its sender. When \<open>PAYRCVD\<close> carries a reference at most one order matches, then that order,
  whatever tenant or trader it belongs to and whoever sends the notice, becomes PAID if it is CONFIRMED, and nothing
  but messages happens otherwise. The reference is a pattern, and \<open>PAYRCVD %\<close> matches every order there is.
\<close>

theorem any_trader_pays_any_order:
  fixes w :: world and cm :: command
  defines "ref \<equiv> tap_ref (cm_message cm)"
  assumes "startswith (upper (strip (cm_message cm))) ''PAYRCVD ''" and "ref \<noteq> []" and "length (matching ref w) \<le> 1"
  shows "(\<exists>w'. payment_receipt_tap gw cm w = (Inr (), w') \<and> (case matching ref w of
        [] \<Rightarrow> core w' = core w
      | x # _ \<Rightarrow> if o_state x = CONFIRMED then reached x PAID w w' else core w' = core w))
    \<and> tap_ref ''PAYRCVD %'' = ''%'' \<and> matching ''%'' w = orders w"
proof (intro conjI)
  show "tap_ref ''PAYRCVD %'' = ''%''" by code_simp
  show "matching ''%'' w = orders w" by (rule matching_any)
  show "\<exists>w'. payment_receipt_tap gw cm w = (Inr (), w') \<and> (case matching ref w of
      [] \<Rightarrow> core w' = core w | x # _ \<Rightarrow> if o_state x = CONFIRMED then reached x PAID w w' else core w' = core w)"
  proof (cases "\<exists>x xs. matching ref w = x # xs \<and> o_state x = CONFIRMED")
    case True
    then obtain x xs where x: "matching ref w = x # xs" "o_state x = CONFIRMED" by blast
    then have "ref_order ref w = Some x" by (simp add: ref_order_matching)
    with assms x(2) obtain w' where "payment_receipt_tap gw cm w = (Inr (), w')" "core w' = core (after_paid x w)"
      using payment_tap_run [of cm w x gw] by blast
    with x reached_core [OF reached_paid [OF x(2), of w]] show ?thesis by auto
  next
    case False
    then have "payment_receipt_tap gw cm w
        = to_trader gw cm (cm_event ''order.payrcvd_notfound'' cm) (Template ''order_not_found_to_trader'' [JStr ref]) w"
      using assms by (cases "matching ref w") (simp_all add: payment_receipt_tap_def Let_def bindA_apply get_by_ref_eq ref_order_matching)
    with False quiet_core [OF reply_quiet] show ?thesis by (cases "matching ref w") auto
  qed
qed

section \<open>Credit\<close>

definition credit_row :: "order \<Rightarrow> world \<Rightarrow> credit_sale" where
  "credit_row x w = (new_debt (o_tenant_id x) (Some (o_id x)) (Some (o_conversation_id x)) (debtor_name x) (of_int (order_total x))
     (if o_currency x \<noteq> [] then o_currency x else ''NGN''))\<lparr>cs_id := uuid_src w (uuid_n w), cs_created_at := clock w\<rparr>"

text \<open>
  The CREDIT command. For an order not yet on credit it records one active credit sale of the order's amount, owed by its
  customer, and flags the order. It does so in every state of the order: a PAID or FAILED order goes on credit too, and its state stays.
\<close>

theorem credit_command_effects:
  fixes w :: world
  assumes "ref_order ref w = Some x" and "\<not> o_is_credit x" and "o_conversation_id x \<in> set (map cv_id (conversations w))"
    and "Some (o_id x) \<notin> set (map cs_order_id (credit_sales w))"
  shows "\<exists>w'. order_command gw cm TRADER_CREDIT ref w = (Inr (), w') \<and> credit_sales w' = credit_sales w @ [credit_row x w]
     \<and> cs_status (credit_row x w) = CS_ACTIVE \<and> cs_amount (credit_row x w) = of_int (order_total x)
     \<and> orders w' = update_where (\<lambda>y. o_id y = o_id x) (\<lambda>y. y\<lparr>o_is_credit := True\<rparr>) (orders w)
     \<and> order_items w' = order_items w \<and> published w' = published w \<and> redis w' = redis w"
proof -
  let ?w1 = "w\<lparr>uuid_n := Suc (uuid_n w), credit_sales := credit_sales w @ [credit_row x w],
     orders := update_where (\<lambda>y. o_id y = o_id x) (\<lambda>y. y\<lparr>o_is_credit := True\<rparr>) (orders w)\<rparr>"
  let ?c = "new_debt (o_tenant_id x) (Some (o_id x)) (Some (o_conversation_id x)) (debtor_name x)
              (of_int (order_total x)) (if o_currency x \<noteq> [] then o_currency x else ''NGN'')"
  have mem: "o_id x \<in> set (map o_id (orders w))" using ref_order_Some [OF assms(1)] by simp
  have c: "cs_order_id ?c = Some (o_id x)" "cs_conversation_id ?c = Some (o_conversation_id x)" by (simp_all add: new_debt_def)
  have create: "session_begin (thenA (cs_create ?c) (ret ())) w = (Inr (), w\<lparr>uuid_n := Suc (uuid_n w), credit_sales := credit_sales w @ [credit_row x w]\<rparr>)"
    using assms(3,4) mem by (simp add: session_begin_def thenA_apply cs_create_def bindA_apply c Let_def credit_row_def)
  have run: "order_command gw cm TRADER_CREDIT ref w = to_trader gw cm (''order.credit_trader.'' @ o_id x)
      (Template ''order_credit_to_trader'' [JStr ref, JStr (debtor_name x), JInt (order_total x)]) ?w1"
    using assms(1,2) create
    by (simp add: order_command_def bindA_apply get_by_ref_eq trader_gives_credit_def tryA_apply thenA_apply [of "session_begin m" for m]
        thenA_apply [of "modA f" for f] set_order_def)
  obtain w' where w': "order_command gw cm TRADER_CREDIT ref w = (Inr (), w')" "core w' = core ?w1"
    unfolding run by (rule quiet_unitE [OF reply_quiet])
  show ?thesis using w'(1) core_fields [OF w'(2)] by (intro exI [of _ w']) (simp add: credit_row_def new_debt_def)
qed


text \<open>
  The taps on an order on credit. "Paid in full" and "Partial payment" on an order on credit that is CONFIRMED, and opening any order on
  credit from the list of active orders, raise on the unbound local name and change nothing; on an order in another state the first two only
  answer that no such order is found.
\<close>

theorem credit_taps_raise:
  fixes w :: world
  assumes "ref_order ref w = Some x" and "o_is_credit x" and "ref \<noteq> []"
  shows "(tap_ref (cm_message cm) = ref \<longrightarrow> o_state x = CONFIRMED \<longrightarrow> credit_payment_tap gw cm w = (Inl (UnboundLocalError ''select''), w))
     \<and> (lower (drop 7 (strip (cm_message cm))) = ref \<longrightarrow> order_action_tap gw cm w = (Inl (UnboundLocalError ''select''), w))"
  using assms by (simp add: credit_payment_tap_def order_action_tap_def Let_def bindA_apply get_by_ref_eq thenA_apply local_select_def)

section \<open>Instalments\<close>

text \<open>An answer with the amount received, on the sale of an order.\<close>

definition pay_part :: "gateway \<Rightarrow> command \<Rightarrow> payload \<Rightarrow> string \<Rightarrow> world \<Rightarrow> world" where
  "pay_part gw cm ts m w = exec (credit_partial_answer gw (cm\<lparr>cm_message := m\<rparr>) ts) w"

text \<open>The active sales of an order.\<close>

definition open_sales :: "string \<Rightarrow> world \<Rightarrow> credit_sale list" where
  "open_sales oid w = filter (\<lambda>c. cs_order_id c = Some oid \<and> cs_status c = CS_ACTIVE) (credit_sales w)"

lemma active_sale_eq: "open_sales oid w = [c] \<Longrightarrow> active_sale oid w = (Inr (Some c), w)"
  by (simp add: active_sale_def bindA_apply open_sales_def)

lemma filter_update_single:
  assumes "distinct (map k xs)" and "filter p xs = [c]" and "\<And>x. p (f x) = p x"
  shows "filter p (update_where (\<lambda>x. k x = k c) f xs) = [f c]"
proof -
  have "filter p (update_where q f xs) = update_where q f (filter p xs)" for q
    using assms(3) by (induction xs) (auto simp: update_where_def)
  with assms(2) show ?thesis by (simp add: update_where_def)
qed

lemma pay_if_confirmed_run:
  assumes "wf_orders w" and "order_at w oid None = Some x" and "o_state x = CONFIRMED"
  shows "pay_if_confirmed oid w = (Inr (), after_paid x w)"
  using assms by (simp add: pay_if_confirmed_def bindA_apply get_by_id_eq thenA_apply none_on_conflict_def tryA_apply do_paid_transition_eq)

lemma part_run:
  fixes due :: int and w :: world and ts :: payload and cm :: command
  assumes "first_number m = Some p" and "0 < p" and "open_sales (payload_str ts ''order_id'') w = [c]" and "cs_amount c = of_int due"
  defines "w1 \<equiv> w\<lparr>redis := redis_delete (trader_session_key (cm_trader_phone cm)) (redis w)\<rparr>"
  defines "w2 \<equiv> (\<lambda>f. w1\<lparr>credit_sales := update_where (\<lambda>x. cs_id x = cs_id c) f (credit_sales w)\<rparr>)"
  shows "p < due \<Longrightarrow> core (pay_part gw cm ts m w) = core (w2 (\<lambda>x. x\<lparr>cs_amount := of_int (due - p)\<rparr>))"
    and "due \<le> p \<Longrightarrow> wf_orders w \<Longrightarrow> order_at w (payload_str ts ''order_id'') None = Some x \<Longrightarrow> o_state x = CONFIRMED \<Longrightarrow>
       core (pay_part gw cm ts m w) = core (after_paid x (w2 (\<lambda>x. x\<lparr>cs_status := CS_SETTLED, cs_amount := 0\<rparr>)))"
proof -
  let ?oid = "payload_str ts ''order_id''" and ?cm = "cm\<lparr>cm_message := m\<rparr>"
  have sale: "active_sale ?oid w1 = (Inr (Some c), w1)"
    by (rule active_sale_eq) (use assms(3) in \<open>simp add: open_sales_def w1_def\<close>)
  have put: "set_credit_sale c f w1 = (Inr (f c), w2 f)" for f
    by (simp add: set_credit_sale_def thenA_apply w1_def w2_def)
  obtain ref name where run: "pay_part gw cm ts m w = exec (session_begin (receive_credit_part gw ?cm ?oid ref name p c)) w1"
    using assms(1,2) sale by (simp add: pay_part_def exec_def credit_partial_answer_def Let_def thenA_apply clear_trader_session_def cache_apply
        bindA_apply session_begin_def w1_def split: prod.splits sum.splits) 
  have fin: "core (pay_part gw cm ts m w) = core v"
    if "receive_credit_part gw ?cm ?oid ref name p c w1 = to_trader gw ?cm e b v" for e b v
  proof (rule quiet_unitE [OF reply_quiet])
    fix w' assume "to_trader gw ?cm e b v = (Inr (), w')" "core w' = core v"
    with that show ?thesis by (simp add: run exec_def session_begin_def)
  qed
  show "core (pay_part gw cm ts m w) = core (w2 (\<lambda>x. x\<lparr>cs_amount := of_int (due - p)\<rparr>))" if "p < due"
    by (rule fin) (use that assms(4) in \<open>simp add: receive_credit_part_def Let_def thenA_apply put\<close>)
  show "core (pay_part gw cm ts m w) = core (after_paid x (w2 (\<lambda>x. x\<lparr>cs_status := CS_SETTLED, cs_amount := 0\<rparr>)))"
    if "due \<le> p" "wf_orders w" "order_at w ?oid None = Some x" "o_state x = CONFIRMED"
  proof -
    have "wf_orders (w2 f)" for f using that(2) by (simp add: wf_orders_def order_ids_def w1_def w2_def)
    moreover have "order_at (w2 f) ?oid None = Some x" for f using that(3) by (simp add: order_at_def w1_def w2_def)
    ultimately have "pay_if_confirmed ?oid (w2 f) = (Inr (), after_paid x (w2 f))" for f using that(4) by (intro pay_if_confirmed_run)
    then show ?thesis
      by (intro fin) (use that(1) assms(4) in \<open>simp add: receive_credit_part_def Let_def thenA_apply [of "set_credit_sale a f" for a f]
        thenA_apply [of "pay_if_confirmed i" for i] put\<close>)
  qed
qed

lemma open_sales_core: "core w' = core w \<Longrightarrow> open_sales oid w' = open_sales oid w"
  using core_fields [of w' w] by (simp add: open_sales_def)

lemma parts_run:
  fixes due :: int and w :: world and ts :: payload and cm :: command and gw :: gateway and ms :: "string list"
  defines "oid \<equiv> payload_str ts ''order_id''"
  assumes "\<forall>m\<in>set ms. \<exists>p>0. first_number m = Some p" and "(\<Sum>m\<leftarrow>ms. the (first_number m)) < due"
    and "distinct (map cs_id (credit_sales w))" and "open_sales oid w = [c]" and "cs_amount c = of_int due"
  defines "w' \<equiv> fold (pay_part gw cm ts) ms w"
  shows "orders w' = orders w \<and> distinct (map cs_id (credit_sales w'))
     \<and> open_sales oid w' = [c\<lparr>cs_amount := of_int (due - (\<Sum>m\<leftarrow>ms. the (first_number m)))\<rparr>]"
  using assms(2-6) unfolding w'_def
proof (induction ms arbitrary: w c due)
  case Nil
  then show ?case by simp
next
  case (Cons m ms)
  from Cons.prems(1) obtain p where p: "0 < p" "first_number m = Some p" by auto
  have "0 \<le> (\<Sum>m\<leftarrow>ms. the (first_number m))" using Cons.prems(1) by (intro sum_list_nonneg) fastforce
  with Cons.prems(2) p(2) have lt: "p < due" by simp
  let ?f = "\<lambda>x :: credit_sale. x\<lparr>cs_amount := of_int (due - p)\<rparr>" and ?w1 = "pay_part gw cm ts m w"
  note c1 = part_run(1) [where gw = gw and cm = cm and ts = ts and m = m, OF p(2,1) Cons.prems(4) [unfolded oid_def] Cons.prems(5) lt]
  note f1 = core_fields [OF c1]
  have ids: "distinct (map cs_id (credit_sales ?w1))"
    using Cons.prems(3) f1(4) by (simp add: map_update_where_same)
  have "open_sales oid ?w1 = [?f c]"
    using filter_update_single [OF Cons.prems(3) Cons.prems(4) [unfolded open_sales_def], of ?f] f1(4) by (simp add: open_sales_def)
  from Cons.IH [where due = "due - p", OF _ _ ids this] Cons.prems(1,2) p(2) f1(1) show ?case by (simp add: algebra_simps)
qed

lemma parts_wf: "wf_orders w \<Longrightarrow> wf_orders (fold (pay_part gw cm ts) ms w)"
proof (induction ms arbitrary: w)
  case (Cons m ms)
  from Cons.IH [OF trader_change.moves_wf [OF credit_partial_moves Cons.prems]] show ?case by (simp add: pay_part_def)
qed simp

lemma filter_update_none:
  assumes "filter p xs = [c]" and "k c" and "\<And>x. \<not> p (f x)"
  shows "filter p (update_where k f xs) = []"
proof -
  have "\<not> p y" if "y \<in> set (update_where k f xs)" for y
  proof -
    from that obtain x where x: "x \<in> set xs" "y = (if k x then f x else x)" by (auto simp: update_where_def)
    show ?thesis
    proof (cases "k x")
      case False
      with assms(1,2) x have "x \<notin> set (filter p xs)" by auto
      with x False show ?thesis by simp
    qed (use x assms(3) in simp)
  qed
  then show ?thesis by (simp add: filter_empty_conv)
qed

text \<open>
  C20: a credit paid in parts. Amounts received against the credit of a CONFIRMED order are taken off what is owed, one after the other,
  with the sale active and the orders untouched while something is left; the amount that brings the sum of all parts to the debt settles
  the sale and marks the order PAID.
\<close>

theorem credit_paid_in_parts:
  fixes due :: int and w :: world and ts :: payload and cm :: command and gw :: gateway and ms :: "string list" and m :: string
  defines "oid \<equiv> payload_str ts ''order_id''" and "paid \<equiv> \<Sum>m\<leftarrow>ms. the (first_number m)"
  assumes "wf_orders w" and "distinct (map cs_id (credit_sales w))" and "open_sales oid w = [c]" and "cs_amount c = of_int due"
    and "\<forall>m\<in>set ms. \<exists>p>0. first_number m = Some p" and "paid < due" and "first_number m = Some p" and "due \<le> paid + p"
    and "order_at w oid None = Some x" and "o_state x = CONFIRMED"
  defines "w1 \<equiv> fold (pay_part gw cm ts) ms w"
  defines "w2 \<equiv> pay_part gw cm ts m w1"
  shows "orders w1 = orders w \<and> open_sales oid w1 = [c\<lparr>cs_amount := of_int (due - paid)\<rparr>]
     \<and> open_sales oid w2 = [] \<and> c\<lparr>cs_status := CS_SETTLED, cs_amount := 0\<rparr> \<in> set (credit_sales w2)
     \<and> orders w2 = update_where (\<lambda>y. o_id y = oid) (\<lambda>y. y\<lparr>o_state := PAID\<rparr>) (orders w)"
proof -
  let ?c = "c\<lparr>cs_amount := of_int (due - paid)\<rparr>" and ?f = "\<lambda>x :: credit_sale. x\<lparr>cs_status := CS_SETTLED, cs_amount := 0\<rparr>"
  note p1 = parts_run [where gw = gw and cm = cm, OF assms(7) assms(8) [unfolded paid_def] assms(4) assms(5) [unfolded oid_def] assms(6), folded oid_def w1_def paid_def]
  have wf1: "wf_orders w1" unfolding w1_def by (rule parts_wf [OF assms(3)])
  have at1: "order_at w1 oid None = Some x" using p1 assms(11) by (simp add: order_at_def)
  have "0 < p" "due - paid \<le> p" using assms(8,10) by simp_all
  note c2 = part_run(2) [where gw = gw and cm = cm, OF assms(9) \<open>0 < p\<close>, of ts w1 ?c "due - paid", folded oid_def w2_def, OF _ _ \<open>due - paid \<le> p\<close> wf1 at1 assms(12)]
  have "\<not> (cs_order_id (?f y) = Some oid \<and> cs_status (?f y) = CS_ACTIVE)" for y by simp
  have c: "?c \<in> set (credit_sales w1)" using p1 by (metis filter_set list.set_intros(1) open_sales_def filter_is_subset subsetD)
  have "cs_id ?c = cs_id c" by simp
  note f2 = core_fields [OF c2] after_paid_redis [OF assms(12)]
  have sales: "credit_sales w2 = update_where (\<lambda>y. cs_id y = cs_id c) ?f (credit_sales w1)" using f2 p1 by simp
  have "open_sales oid w2 = []"
    unfolding open_sales_def sales
    by (rule filter_update_none [where c = ?c]) (use p1 in \<open>simp_all add: open_sales_def\<close>)
  moreover have "?f ?c \<in> set (credit_sales w2)" unfolding sales set_update_where by (rule image_eqI [OF _ c]) simp
  moreover have "orders w2 = update_where (\<lambda>y. o_id y = oid) (\<lambda>y. y\<lparr>o_state := PAID\<rparr>) (orders w)"
    using f2(1) p1 after_paid_orders [OF assms(12)] order_at_Some [OF assms(11)] by simp
  ultimately show ?thesis using p1 by simp
qed

section \<open>The debt book\<close>

lemma settle_by_name_run:
  assumes "active_debts (cm_tenant_id cm) name w = [d]" and "0 < amt"
  obtains w' where "do_settle_debt gw cm name amt w = (Inr (), w')"
    and "core w' = core (w\<lparr>credit_sales := update_where (\<lambda>y. cs_id y = cs_id d)
      (if int_of_decimal (cs_amount d) \<le> amt then (\<lambda>y. y\<lparr>cs_status := CS_SETTLED\<rparr>)
       else (\<lambda>y. y\<lparr>cs_amount := of_int (int_of_decimal (cs_amount d) - amt)\<rparr>)) (credit_sales w)\<rparr>)"
proof -
  let ?w1 = "w\<lparr>credit_sales := update_where (\<lambda>y. cs_id y = cs_id d)
      (if int_of_decimal (cs_amount d) \<le> amt then (\<lambda>y. y\<lparr>cs_status := CS_SETTLED\<rparr>)
       else (\<lambda>y. y\<lparr>cs_amount := of_int (int_of_decimal (cs_amount d) - amt)\<rparr>)) (credit_sales w)\<rparr>"
  have "\<exists>e b. do_settle_debt gw cm name amt w = to_trader gw cm e b ?w1"
    using assms by (auto simp: do_settle_debt_def bindA_apply session_begin_def Let_def thenA_apply cs_update_status_def set_credit_sale_def)
  then show thesis using that quiet_unitE [OF reply_quiet] by metis
qed

lemma settle_tap_run:
  assumes "wf_credit_sales w" and "d \<in> set (credit_sales w)" and "cs_tenant_id d = cm_tenant_id cm" and "cs_status d = CS_ACTIVE"
  obtains w' where "handle_debt_settle gw cm (cs_id d) w = (Inr (), w')"
    and "core w' = core (w\<lparr>credit_sales := update_where (\<lambda>y. cs_id y = cs_id d) (\<lambda>y. y\<lparr>cs_status := CS_SETTLED\<rparr>) (credit_sales w),
      published := published w @ [status_event d ''settled'' w]\<rparr>)"
    and "later w w'"
proof -
  let ?w1 = "w\<lparr>credit_sales := update_where (\<lambda>y. cs_id y = cs_id d) (\<lambda>y. y\<lparr>cs_status := CS_SETTLED\<rparr>) (credit_sales w),
      uuid_n := Suc (uuid_n w), published := published w @ [status_event d ''settled'' w]\<rparr>"
  have found: "cs_get_by_id (cs_id d) (cm_tenant_id cm) w = (Inr (Some d), w)"
    using find_distinct_key [of cs_id "credit_sales w" d "\<lambda>x. cs_tenant_id x = cs_tenant_id d"]
      scalar_key [of cs_id "credit_sales w" "cs_id d" "\<lambda>x. cs_tenant_id x = cs_tenant_id d"] assms
    by (simp add: cs_get_by_id_def act_simps wf_credit_sales_def)
  have "\<exists>e b. handle_debt_settle gw cm (cs_id d) w = to_trader gw cm e b ?w1"
    using assms(3,4)
    by (auto simp: handle_debt_settle_def bindA_apply session_begin_def found thenA_apply cs_update_status_def set_credit_sale_def
        emit_apply status_event_def json_opt_def opt_json_def)
  then obtain e b where run: "handle_debt_settle gw cm (cs_id d) w = to_trader gw cm e b ?w1" by blast
  obtain u w' where w': "to_trader gw cm e b ?w1 = (Inr u, w')" "aside ?w1 w'" by (rule quietE [OF reply_quiet])
  show thesis
  proof (rule that [of w'])
    show "handle_debt_settle gw cm (cs_id d) w = (Inr (), w')" using run w'(1) by simp
    show "later w w'" using aside_fields(7,8) [OF w'(2)] by (simp add: later_def)
    show "core w' = core (w\<lparr>credit_sales := update_where (\<lambda>y. cs_id y = cs_id d) (\<lambda>y. y\<lparr>cs_status := CS_SETTLED\<rparr>) (credit_sales w),
      published := published w @ [status_event d ''settled'' w]\<rparr>)"
      using w'(2) by (simp add: aside_def) (simp add: core_def)
  qed
qed

lemma deliver_pays:
  assumes "wf_orders w1" and "drop (length (published w)) (published w1) = [e]" and "ev_event_name e = ''credit_sale.status_changed''"
    and "resolving e" and "order_at w1 (payload_str (ev_payload e) ''order_id'') (Some (ev_tenant_id e)) = Some x" and "o_state x = CONFIRMED"
  shows "delivered n w w1 = after_paid x w1"
proof -
  define es where "es = concat (replicate (Suc n) [e])"
  have set: "set es = {e}" by (auto simp: es_def)
  have "subscribe_all_tenants_event ''credit_sale.status_changed'' es = es"
    using own_channel [of "''credit_sale.status_changed''" e] set assms(3)
    by (auto simp: subscribe_all_tenants_event_def filter_id_conv plain_def)
  then have "delivered n w w1 = listener_loop handle_credit_sale_status_changed es w1"
    by (simp only: delivered_def assms(2) register_credit_sale_status_handler_def create_global_listener_task_def es_def)
  then have "delivered n w w1 = exec (handle_credit_sale_status_changed e) w1"
    using credit_delivery.repeated_delivery [OF assms(1) set] by simp
  moreover have "\<not> not_awaiting (payload_str (ev_payload e) ''order_id'') (ev_tenant_id e) w1"
    using assms(5,6) by (simp add: order_at_awaiting [OF assms(1)])
  ultimately show ?thesis using assms(4,5) by (simp add: credit_handler_exec [OF assms(1)] pay_if_awaiting_def)
qed

text \<open>
  Settling a debt by name and by tap. When a debt belongs to a CONFIRMED order, both ways mark the sale settled. The SETTLE tap
  publishes the change, and its listener, however often the event is delivered, pays the order. Naming the debtor with the amount publishes
  nothing: the sale is settled and the order stays CONFIRMED.
\<close>

theorem settle_by_name_or_tap:
  fixes w :: world and gw :: gateway and cm :: command and name :: string and amt :: int
  assumes "wf_orders w" and "wf_credit_sales w" and "active_debts (cm_tenant_id cm) name w = [d]" and "0 < amt" and "int_of_decimal (cs_amount d) \<le> amt"
    and "cs_order_id d = Some (o_id x)" and "x \<in> set (orders w)" and "o_tenant_id x = cm_tenant_id cm" and "o_state x = CONFIRMED"
    and "o_id x \<noteq> []" and "cm_tenant_id cm \<noteq> []"
  defines "w1 \<equiv> exec (do_settle_debt gw cm name amt) w" and "w2 \<equiv> exec (handle_debt_settle gw cm (cs_id d)) w"
  shows "credit_sales w1 = update_where (\<lambda>y. cs_id y = cs_id d) (\<lambda>y. y\<lparr>cs_status := CS_SETTLED\<rparr>) (credit_sales w) \<and> credit_sales w2 = credit_sales w1
     \<and> delivered n w w1 = w1 \<and> orders w1 = orders w
     \<and> delivered n w w2 = after_paid x w2 \<and> x\<lparr>o_state := PAID\<rparr> \<in> set (orders (delivered n w w2))"
proof -
  have "d \<in> set (active_debts (cm_tenant_id cm) name w)" by (simp add: assms(3))
  then have d: "d \<in> set (credit_sales w)" "cs_tenant_id d = cm_tenant_id cm" "cs_status d = CS_ACTIVE" by (simp_all add: active_debts_def)
  obtain v1 where v1: "do_settle_debt gw cm name amt w = (Inr (), v1)"
    "core v1 = core (w\<lparr>credit_sales := update_where (\<lambda>y. cs_id y = cs_id d) (\<lambda>y. y\<lparr>cs_status := CS_SETTLED\<rparr>) (credit_sales w)\<rparr>)"
    by (rule settle_by_name_run [OF assms(3,4)]) (use assms(5) in simp)
  obtain v2 where v2: "handle_debt_settle gw cm (cs_id d) w = (Inr (), v2)"
    "core v2 = core (w\<lparr>credit_sales := update_where (\<lambda>y. cs_id y = cs_id d) (\<lambda>y. y\<lparr>cs_status := CS_SETTLED\<rparr>) (credit_sales w),
      published := published w @ [status_event d ''settled'' w]\<rparr>)" "later w v2"
    by (rule settle_tap_run [OF assms(2) d])
  have w12: "w1 = v1" "w2 = v2" using v1(1) v2(1) by (simp_all add: w1_def w2_def exec_def)
  note f1 = core_fields [OF v1(2)] and f2 = core_fields [OF v2(2)]
  have "delivered n w w1 = w1"
    using f1(7) by (simp add: w12 delivered_def register_credit_sale_status_handler_def create_global_listener_task_def subscribe_all_tenants_event_def)
  moreover have "order_change True None w v2" using f2(1,2) v2(3) by (intro order_change.unchanged) simp_all
  then have wf2: "wf_orders v2" by (rule change_wf [OF _ assms(1)])
  have at: "order_at v2 (o_id x) (Some (cm_tenant_id cm)) = Some x" using assms(7,8) f2(1) by (simp add: order_at_iff [OF wf2] scoped_def)
  have e: "resolving (status_event d ''settled'' w)" "payload_str (ev_payload (status_event d ''settled'' w)) ''order_id'' = o_id x"
    "ev_tenant_id (status_event d ''settled'' w) = cm_tenant_id cm" "ev_event_name (status_event d ''settled'' w) = ''credit_sale.status_changed''"
    using assms(6,10,11) d(2) by (simp_all add: resolving_def status_event_def payload_str_def payload_get_def opt_json_def RESOLVING_STATUSES_def)
  have "delivered n w w2 = after_paid x w2"
    unfolding w12 by (rule deliver_pays [OF wf2 _ e(4,1) _ assms(9)]) (use f2(7) e at in simp_all)
  moreover have "x\<lparr>o_state := PAID\<rparr> \<in> set (orders (after_paid x w2))"
    using after_paid_orders [OF assms(9), of w2] assms(7) f2(1) by (auto simp: set_update_where image_iff w12)
  ultimately show ?thesis using f1 f2 by (simp add: w12)
qed

section \<open>A sale over chat\<close>

definition hex_ref :: "string \<Rightarrow> bool" where
  "hex_ref ref \<longleftrightarrow> ref \<noteq> [] \<and> list_all (\<lambda>c. c \<in> set ''0123456789abcdef'') ref"

lemma hex_char: "c \<in> set ''0123456789abcdef'' \<Longrightarrow> lower_char c = c \<and> \<not> is_space c \<and> c \<noteq> CHR ''%'' \<and> c \<noteq> CHR ''_'' \<and> c \<noteq> CHR '' ''"
proof -
  have "list_all (\<lambda>c. lower_char c = c \<and> \<not> is_space c \<and> c \<noteq> CHR ''%'' \<and> c \<noteq> CHR ''_'' \<and> c \<noteq> CHR '' '') ''0123456789abcdef''" by code_simp
  then show "c \<in> set ''0123456789abcdef'' \<Longrightarrow> ?thesis" unfolding list_all_iff by blast
qed

lemma hex_ref_chars: "hex_ref ref \<Longrightarrow> lower ref = ref \<and> (\<forall>c\<in>set ref. \<not> is_space c) \<and> CHR ''%'' \<notin> set ref \<and> CHR ''_'' \<notin> set ref"
  unfolding hex_ref_def lower_def list_all_iff using hex_char by (metis map_idI)

lemma tap_hex:
  assumes "hex_ref ref"
  shows "startswith (upper (strip (''PAYRCVD '' @ ref))) ''PAYRCVD ''" "tap_ref (''PAYRCVD '' @ ref) = ref"
proof -
  note c = hex_ref_chars [OF assms]
  have ne: "ref \<noteq> []" using assms by (simp add: hex_ref_def)
  have P: "\<not> is_space CHR ''P''" "upper ''PAYRCVD '' = ''PAYRCVD ''" by code_simp+
  have "\<not> is_space (last ref)" using c ne by simp
  then have "rstrip (''PAYRCVD '' @ ref) = ''PAYRCVD '' @ ref"
    using ne by (cases ref rule: rev_cases) (simp_all add: rstrip_def)
  then have st: "strip (''PAYRCVD '' @ ref) = ''PAYRCVD '' @ ref" using P(1) by (simp add: strip_def lstrip_def)
  have "upper (''PAYRCVD '' @ ref) = ''PAYRCVD '' @ upper ref" using P(2) by (simp add: upper_def)
  then show "startswith (upper (strip (''PAYRCVD '' @ ref))) ''PAYRCVD ''" unfolding st startswith_append by blast
  show "tap_ref (''PAYRCVD '' @ ref) = ref" unfolding tap_ref_def st using c by (simp add: strip_nospace)
qed

lemma customers_stay_wf: "wf_customers w \<Longrightarrow> later w w' \<Longrightarrow> customer_list w' = customer_list w \<Longrightarrow> wf_customers w'"
  by (auto simp: wf_customers_def later_def)

lemma ledger_customers: "customer_list w' = customer_list w \<Longrightarrow> ledger_of w' = ledger_of w"
  by (simp add: ledger_of_def entry_at_def)

lemma find_last: "\<forall>y\<in>set xs. \<not> p y \<Longrightarrow> p x \<Longrightarrow> find p (xs @ [x]) = Some x"
  by (induction xs) auto

text \<open>The order is taken: the message and the YES add exactly this order.\<close>

lemma chat_order_taken:
  fixes w :: world and gw :: gateway and l :: llm and ib :: inbound
  defines "its \<equiv> map (fill_price (tr_catalogue (ib_trader ib))) (pr_items (understood l ib [] w))"
  assumes "wf_orders w" and "listening ib w" and "session_of ib w = None"
    and "pr_intent (understood l ib [] w) = ORDER" and "pr_items (understood l ib [] w) \<noteq> []"
    and "missing_prices (tr_catalogue (ib_trader ib)) (pr_items (understood l ib [] w)) = []"
  defines "w1 \<equiv> exec (handle_inbound_customer_message gw l ib) w"
  defines "w2 \<equiv> exec (handle_inbound_customer_message gw l (ib\<lparr>ib_message := ''YES''\<rparr>)) w1"
  shows "orders w2 = orders w @ [new_order ib (cart_total its) w] \<and> customer_list w2 = customer_list w \<and> published w2 = published w
     \<and> later w w2 \<and> wf_orders w2"
proof -
  let ?x = "new_order ib (cart_total its) w" and ?ib = "ib\<lparr>ib_message := ''YES''\<rparr>" and ?i = "uuid_src w (uuid_n w)"
  obtain v1 rows where v1: "order_with_summary gw ib ''order.summary'' its w = (Inr (), v1)" "core v1 = core (after_order ib its rows w)"
    by (rule order_with_summary_spec)
  have w1: "w1 = v1" using v1(1) fresh_run [OF assms(3-7), of gw] by (simp add: w1_def its_def exec_def)
  note f1 = core_fields [OF v1(2), folded w1]
  have l1: "later w w1" "wf_orders w1"
    using inbound_flow [of ib gw l] assms(2) tenant_change.moves_wf [OF inbound_flow assms(2)]
    by (auto simp: w1_def exec_def moves_def intro: tenant_change.steps_later)
  have o1: "orders w1 = orders w @ [?x]" using f1(1) by (simp add: after_order_def Let_def)
  then have at1: "order_at w1 ?i (Some (ib_tenant_id ?ib)) = Some ?x" by (simp add: order_at_iff [OF l1(2)] scoped_def)
  have s1: "session_of ?ib w1 = Some (ConfirmSession (Some ?i) its (cart_total its) None)"
    using f1 by (simp add: session_of_def after_order_def Let_def redis_get_setex SESSION_TTL_def second_def)
  have yes: "ib_message ?ib = ''YES''" by simp
  obtain v2 where v2: "handle_inbound_customer_message gw l ?ib w1 = (Inr (), v2)"
    "core v2 = core (w1\<lparr>redis := redis_setex (clock w1) (quiet_key (ib_tenant_id ?ib) (ib_customer_phone ?ib)) QUIET_TTL FlagDoc
        (redis_delete (session_key (ib_tenant_id ?ib) (ib_customer_phone ?ib)) (redis w1))\<rparr>)"
    by (rule yes_run [OF l1(2) listening_YES [OF yes] s1 at1, where l = l and gw = gw])
      (simp_all add: chosen_YES parse_YES, simp add: result_def)
  have w2: "w2 = v2" using v2(1) by (simp add: w2_def exec_def)
  note f2 = core_fields [OF v2(2), folded w2]
  have l2: "later w1 w2" "wf_orders w2"
    using inbound_flow [of ?ib gw l] l1(2) tenant_change.moves_wf [OF inbound_flow l1(2)]
    by (auto simp: w2_def exec_def moves_def intro: tenant_change.steps_later)
  have o2: "orders w2 = orders w @ [?x]" using f2(1) o1 by simp
  have "later w w2" by (rule later_trans [OF l1(1) l2(1)])
  with o2 l2(2) f1(5,7) f2(5,7) show ?thesis by (simp add: after_order_def Let_def)
qed

text \<open>The order is confirmed and paid by its reference.\<close>

lemma chat_order_paid:
  fixes w w2 :: world and gw :: gateway and cm :: command and x :: order
  defines "ref \<equiv> take 8 (o_id x)"
  assumes "wf_orders w2" and "wf_customers w2" and o2: "orders w2 = orders w @ [x]" and "o_state x = INQUIRY"
    and "hex_ref ref" and "\<forall>y\<in>set (orders w). take (length ref) (o_id y) \<noteq> ref"
  defines "w3 \<equiv> exec (order_command gw cm TRADER_CONFIRM ref) w2"
  defines "w4 \<equiv> exec (payment_receipt_tap gw (cm\<lparr>cm_message := ''PAYRCVD '' @ ref\<rparr>)) w3"
  shows "orders w4 = orders w @ [x\<lparr>o_state := PAID\<rparr>]
     \<and> ledger_of w4 = record_purchase (str_or_empty (o_trader_phone x)) (str_or_empty (o_customer_phone x)) (amount_or_0 (o_amount x)) (ledger_of w2)
     \<and> map ev_event_name (drop (length (published w2)) (published w4)) = [''order.state_changed'', ''order.state_changed'', ''order.paid'']"
proof -
  let ?p = "\<lambda>y. take (length ref) (o_id y) = ref"
  have pref: "?p x" by (simp add: ref_def min_def)
  have r2: "ref_order ref w2 = Some x"
    using hex_ref_chars [OF assms(6)] find_last [of "orders w" ?p x] assms(7) pref by (simp add: ref_order_prefix o2)
  have "order_command gw cm TRADER_CONFIRM ref w2 = trader_confirms gw cm ref x w2"
    by (simp add: order_command_def bindA_apply get_by_ref_eq r2)
  then have re: "reached x CONFIRMED w2 w3"
    using confirm_run [of gw cm ref x w2] transition.confirm assms(5) by (auto simp: w3_def exec_def)
  let ?y = "x\<lparr>o_state := CONFIRMED\<rparr>"
  have fresh: "\<forall>y\<in>set (orders w). o_id y \<noteq> o_id x" using assms(7) pref by metis
  then have o3: "orders w3 = orders w @ [?y]" using re by (simp add: reached_def o2 update_where_none)
  have l3: "later w2 w3"
    using order_command_moves [of gw cm TRADER_CONFIRM ref] assms(2) by (auto simp: w3_def exec_def moves_def intro: trader_change.steps_later)
  have c3: "customer_list w3 = customer_list w2" using re by (simp add: reached_def)
  have wc3: "wf_customers w3" by (rule customers_stay_wf [OF assms(3) l3 c3])
  have r3: "ref_order ref w3 = Some ?y"
    using hex_ref_chars [OF assms(6)] find_last [of "orders w" ?p ?y] assms(7) pref by (simp add: ref_order_prefix o3)
  have ne: "ref \<noteq> []" using assms(6) by (simp add: hex_ref_def)
  obtain v4 where v4: "payment_receipt_tap gw (cm\<lparr>cm_message := ''PAYRCVD '' @ ref\<rparr>) w3 = (Inr (), v4)" "core v4 = core (after_paid ?y w3)"
    by (rule payment_tap_run [of "cm\<lparr>cm_message := ''PAYRCVD '' @ ref\<rparr>" w3 ?y gw]) (use tap_hex [OF assms(6)] r3 ne in simp_all)
  have w4: "w4 = v4" using v4(1) by (simp add: w4_def exec_def)
  note f4 = core_fields [OF v4(2), folded w4]
  have y: "o_state ?y = CONFIRMED" by simp
  note p = after_paid_effects [OF y wc3]
  have "orders w4 = orders w @ [x\<lparr>o_state := PAID\<rparr>]"
    using f4(1) after_paid_orders [OF y, of w3] o3 fresh by (simp add: update_where_none)
  moreover have "ledger_of w4 = record_purchase (str_or_empty (o_trader_phone x)) (str_or_empty (o_customer_phone x)) (amount_or_0 (o_amount x)) (ledger_of w2)"
    using ledger_customers [OF f4(5)] p ledger_customers [OF c3] by simp
  moreover have "map ev_event_name (drop (length (published w2)) (published w4)) = [''order.state_changed'', ''order.state_changed'', ''order.paid'']"
    using re reached_paid [OF y, of w3] f4(7) by (auto simp: reached_def)
  ultimately show ?thesis by simp
qed

text \<open>
  C1: a sale over chat, from the first message to the payment. A customer without a session orders products that all have a price and
  answers YES to the summary; the trader confirms the order with its reference and reports the payment received. Whatever the gateway does with the
  messages, the sale completes: exactly one order is added, of the amount of its items, and it is PAID; the trader's ledger has one more purchase
  of this amount by this customer; and the two state changes and the payment are published, in this order.
\<close>

theorem chat_sale_completes:
  fixes w :: world and gw :: gateway and l :: llm and ib :: inbound and cm :: command
  defines "its \<equiv> map (fill_price (tr_catalogue (ib_trader ib))) (pr_items (understood l ib [] w))" and "ref \<equiv> take 8 (uuid_src w (uuid_n w))"
  assumes "wf_orders w" and "wf_customers w" and "listening ib w" and "session_of ib w = None"
    and "pr_intent (understood l ib [] w) = ORDER" and "pr_items (understood l ib [] w) \<noteq> []"
    and "missing_prices (tr_catalogue (ib_trader ib)) (pr_items (understood l ib [] w)) = []"
    and "hex_ref ref" and "\<forall>y\<in>set (orders w). take (length ref) (o_id y) \<noteq> ref"
  defines "w1 \<equiv> exec (handle_inbound_customer_message gw l ib) w"
  defines "w2 \<equiv> exec (handle_inbound_customer_message gw l (ib\<lparr>ib_message := ''YES''\<rparr>)) w1"
  defines "w3 \<equiv> exec (order_command gw cm TRADER_CONFIRM ref) w2"
  defines "w4 \<equiv> exec (payment_receipt_tap gw (cm\<lparr>cm_message := ''PAYRCVD '' @ ref\<rparr>)) w3"
  shows "orders w4 = orders w @ [(new_order ib (cart_total its) w)\<lparr>o_state := PAID\<rparr>]
     \<and> ledger_of w4 = record_purchase (tr_phone_number (ib_trader ib)) (ib_customer_phone ib) (of_int (cart_total its)) (ledger_of w)
     \<and> map ev_event_name (drop (length (published w)) (published w4)) = [''order.state_changed'', ''order.state_changed'', ''order.paid'']"
proof -
  have taken: "orders w2 = orders w @ [new_order ib (cart_total its) w] \<and> customer_list w2 = customer_list w \<and> published w2 = published w
     \<and> later w w2 \<and> wf_orders w2"
    unfolding w2_def w1_def its_def by (rule chat_order_taken [OF assms(3,5-9)])
  then have wc: "wf_customers w2" using customers_stay_wf [OF assms(4)] by blast
  have paid: "orders w4 = orders w @ [(new_order ib (cart_total its) w)\<lparr>o_state := PAID\<rparr>]
     \<and> ledger_of w4 = record_purchase (tr_phone_number (ib_trader ib)) (ib_customer_phone ib) (of_int (cart_total its)) (ledger_of w2)
     \<and> map ev_event_name (drop (length (published w2)) (published w4)) = [''order.state_changed'', ''order.state_changed'', ''order.paid'']"
  proof -
    let ?x = "new_order ib (cart_total its) w"
    have r: "take 8 (o_id ?x) = ref" by (simp add: ref_def)
    have o: "orders w2 = orders w @ [?x]" "wf_orders w2" "o_state ?x = INQUIRY" using taken by simp_all
    have v: "str_or_empty (o_trader_phone ?x) = tr_phone_number (ib_trader ib)" "str_or_empty (o_customer_phone ?x) = ib_customer_phone ib"
      "amount_or_0 (o_amount ?x) = of_int (cart_total its)" by (simp_all add: str_or_empty_def amount_or_0_def)
    show ?thesis
      using chat_order_paid [OF o(2) wc o(1,3), unfolded r, OF assms(10,11), of gw cm] unfolding v w3_def [symmetric] w4_def [symmetric] .
  qed
  with taken ledger_customers [of w2 w] show ?thesis by simp
qed

section \<open>Histories of conversations\<close>

text \<open>
  C2: the life cycle of an order in conversation. Whatever customers and traders send, in any order, with any
  answers of the language model and any failures of the gateway, every single message leaves the state of each order that exists as it
  is or moves it along one allowed transition, and no message changes an order's identifier or tenant or loses an order; so a
  PAID or FAILED order stays so.
\<close>

theorem chat_lifecycle:
  assumes "wf_orders w" and "i < length (orders w)"
  shows "(\<forall>n<length xs. let v = fold (chat_step gw l) (take n xs) w; v' = chat_step gw l (xs ! n) v in
          \<forall>j<length (orders v). j < length (orders v') \<and> o_id (orders v' ! j) = o_id (orders v ! j) \<and> o_tenant_id (orders v' ! j) = o_tenant_id (orders v ! j)
            \<and> (o_state (orders v' ! j) = o_state (orders v ! j) \<or> transition (o_state (orders v ! j)) (o_state (orders v' ! j))))
     \<and> i < length (orders (fold (chat_step gw l) xs w))
     \<and> o_id (orders (fold (chat_step gw l) xs w) ! i) = o_id (orders w ! i)
     \<and> o_tenant_id (orders (fold (chat_step gw l) xs w) ! i) = o_tenant_id (orders w ! i)
     \<and> transition\<^sup>*\<^sup>* (o_state (orders w ! i)) (o_state (orders (fold (chat_step gw l) xs w) ! i))
     \<and> (terminal (o_state (orders w ! i)) \<longrightarrow> o_state (orders (fold (chat_step gw l) xs w) ! i) = o_state (orders w ! i))"
proof (rule conjI)
  show "\<forall>n<length xs. let v = fold (chat_step gw l) (take n xs) w; v' = chat_step gw l (xs ! n) v in
      \<forall>j<length (orders v). j < length (orders v') \<and> o_id (orders v' ! j) = o_id (orders v ! j) \<and> o_tenant_id (orders v' ! j) = o_tenant_id (orders v ! j)
        \<and> (o_state (orders v' ! j) = o_state (orders v ! j) \<or> transition (o_state (orders v ! j)) (o_state (orders v' ! j)))"
    unfolding Let_def
  proof (intro allI impI, goal_cases)
    case (1 n j)
    have "order_once (fold (chat_step gw l) (take n xs) w) (chat_step gw l (xs ! n) (fold (chat_step gw l) (take n xs) w))"
      by (intro chat_step_once chat_steps_wf assms(1))
    with 1(2) show ?case
      unfolding order_once_def by (meson less_le_trans)
  qed
  note t = touches_nth [OF chat_steps_touch [OF assms(1), of gw l xs] assms]
  have "terminal s \<Longrightarrow> transition\<^sup>*\<^sup>* s s' \<Longrightarrow> s' = s" for s s'
    using terminal_iff_stuck by (metis converse_rtranclpE)
  with t show "i < length (orders (fold (chat_step gw l) xs w))
     \<and> o_id (orders (fold (chat_step gw l) xs w) ! i) = o_id (orders w ! i)
     \<and> o_tenant_id (orders (fold (chat_step gw l) xs w) ! i) = o_tenant_id (orders w ! i)
     \<and> transition\<^sup>*\<^sup>* (o_state (orders w ! i)) (o_state (orders (fold (chat_step gw l) xs w) ! i))
     \<and> (terminal (o_state (orders w ! i)) \<longrightarrow> o_state (orders (fold (chat_step gw l) xs w) ! i) = o_state (orders w ! i))"
    by blast
qed

section \<open>Examples\<close>

definition ade :: "string \<Rightarrow> command" where
  "ade msg = \<lparr>cm_tenant_id = ''t1'', cm_trader_phone = ''080'', cm_message = msg, cm_message_id = ''m9'', cm_trader = shop_trader, cm_channel_tenant_id = None\<rparr>"

lemma ade_fields [simp]: "cm_tenant_id (ade m) = ''t1''" "cm_trader_phone (ade m) = ''080''" "cm_message (ade m) = m"
  "(ade m)\<lparr>cm_message := m'\<rparr> = ade m'"
  by (simp_all add: ade_def)

lemma one_order_ref: "ref_order ''o1'' (one_order s) = Some (orders (one_order s) ! 0)"
proof -
  have "sql_like (''o1'' @ ''%'') ''o1''" by code_simp
  then show ?thesis by (simp add: ref_order_def one_order_def create_order_row_def)
qed

theorem chat_lifecycle_witness:
  "transition\<^sup>*\<^sup>* INQUIRY (o_state (orders (fold (chat_step open_gateway no_llm)
     [CustomerSays (chat ''NO''), OrderCommand (ade ''CONFIRM o1'') TRADER_CONFIRM ''o1''] (shop pending_summary)) ! 0))"
proof -
  have "0 < length (orders (shop pending_summary))" by (simp add: shop_def one_order_def)
  from chat_lifecycle [OF shop_wf this, where gw = open_gateway and l = no_llm and xs = "[CustomerSays (chat ''NO''), OrderCommand (ade ''CONFIRM o1'') TRADER_CONFIRM ''o1'']"]
  show ?thesis using shop_order(2) [of pending_summary] by simp
qed

theorem order_command_effects_witness:
  "(\<exists>w'. order_command open_gateway (ade []) TRADER_CONFIRM ''o1'' (one_order INQUIRY) = (Inr (), w') \<and> o_state (orders w' ! 0) = CONFIRMED)
   \<and> (\<exists>w'. order_command open_gateway (ade []) TRADER_PAID ''o1'' (one_order INQUIRY) = (Inr (), w') \<and> core w' = core (one_order INQUIRY))"
proof
  have s: "o_state (orders (one_order INQUIRY) ! 0) = INQUIRY" by (simp add: one_order_def)
  have "command_target TRADER_CONFIRM = Some CONFIRMED" by simp
  from order_command_effects [OF this, of open_gateway "ade []" "''o1''" "one_order INQUIRY"] transition.confirm
  show "\<exists>w'. order_command open_gateway (ade []) TRADER_CONFIRM ''o1'' (one_order INQUIRY) = (Inr (), w') \<and> o_state (orders w' ! 0) = CONFIRMED"
    by (auto simp: one_order_ref s reached_def) (auto simp: one_order_def)
  have "command_target TRADER_PAID = Some PAID" by simp
  from order_command_effects [OF this, of open_gateway "ade []" "''o1''" "one_order INQUIRY"]
  show "\<exists>w'. order_command open_gateway (ade []) TRADER_PAID ''o1'' (one_order INQUIRY) = (Inr (), w') \<and> core w' = core (one_order INQUIRY)"
    by (auto simp: one_order_ref s transition_iffs)
qed

theorem any_trader_pays_any_order_witness:
  "\<exists>w'. payment_receipt_tap open_gateway ((ade ''PAYRCVD %'')\<lparr>cm_tenant_id := ''t2''\<rparr>) (one_order CONFIRMED) = (Inr (), w')
     \<and> o_tenant_id (orders w' ! 0) = ''t1'' \<and> o_state (orders w' ! 0) = PAID"
proof -
  let ?cm = "(ade ''PAYRCVD %'')\<lparr>cm_tenant_id := ''t2''\<rparr>"
  have m: "cm_message ?cm = ''PAYRCVD %''" by simp
  have t: "startswith (upper (strip ''PAYRCVD %'')) ''PAYRCVD ''" "tap_ref ''PAYRCVD %'' = ''%''" by code_simp+
  have x: "orders (one_order CONFIRMED) = [hd (orders (one_order CONFIRMED))]" "o_state (hd (orders (one_order CONFIRMED))) = CONFIRMED"
    by (simp_all add: one_order_def)
  have "length (matching (tap_ref (cm_message ?cm)) (one_order CONFIRMED)) \<le> 1"
    unfolding m t(2) matching_any by (simp add: one_order_def)
  from any_trader_pays_any_order [OF _ _ this, of open_gateway, unfolded m t(2) matching_any, OF t(1)]
  show ?thesis by (auto simp: reached_def one_order_def create_order_row_def)
qed

theorem credit_command_effects_witness:
  "\<exists>w'. order_command open_gateway (ade []) TRADER_CREDIT ''o1'' ((one_order FAILED)\<lparr>conversations :=
        [\<lparr>cv_id = ''c1'', cv_tenant_id = ''t1'', cv_channel = ''whatsapp'', cv_customer_id = None, cv_customer_identifier = ''234'', cv_customer_name = None,
          cv_status = CV_ACTIVE, cv_assigned_to_user_id = None, cv_created_at = 0, cv_updated_at = 0\<rparr>]\<rparr>) = (Inr (), w')
     \<and> map cs_status (credit_sales w') = [CS_ACTIVE] \<and> o_state (orders w' ! 0) = FAILED"
proof -
  let ?w = "(one_order FAILED)\<lparr>conversations :=
        [\<lparr>cv_id = ''c1'', cv_tenant_id = ''t1'', cv_channel = ''whatsapp'', cv_customer_id = None, cv_customer_identifier = ''234'', cv_customer_name = None,
          cv_status = CV_ACTIVE, cv_assigned_to_user_id = None, cv_created_at = 0, cv_updated_at = 0\<rparr>]\<rparr>"
  let ?x = "orders (one_order FAILED) ! 0"
  have r: "ref_order ''o1'' ?w = Some ?x" using one_order_ref [of FAILED] by (simp add: ref_order_def)
  have x: "\<not> o_is_credit ?x" "o_conversation_id ?x \<in> set (map cv_id (conversations ?w))" "Some (o_id ?x) \<notin> set (map cs_order_id (credit_sales ?w))"
    by (simp_all add: one_order_def create_order_row_def empty_world_def)
  from credit_command_effects [OF r x, of open_gateway "ade []"] show ?thesis
    by (auto simp: one_order_def empty_world_def)
qed

theorem credit_taps_raise_witness:
  "let w = (one_order CONFIRMED)\<lparr>orders := map (\<lambda>x. x\<lparr>o_is_credit := True\<rparr>) (orders (one_order CONFIRMED))\<rparr>
   in credit_payment_tap open_gateway (ade ''CREDITPAID o1'') w = (Inl (UnboundLocalError ''select''), w)
     \<and> order_action_tap open_gateway (ade ''ORDACT_o1'') w = (Inl (UnboundLocalError ''select''), w)"
proof -
  let ?w = "(one_order CONFIRMED)\<lparr>orders := map (\<lambda>x. x\<lparr>o_is_credit := True\<rparr>) (orders (one_order CONFIRMED))\<rparr>"
  have "sql_like (''o1'' @ ''%'') ''o1''" by code_simp
  then have x: "ref_order ''o1'' ?w = Some (orders ?w ! 0)" "o_is_credit (orders ?w ! 0)" "''o1'' \<noteq> []"
    by (simp_all add: ref_order_def one_order_def create_order_row_def)
  have t: "tap_ref ''CREDITPAID o1'' = ''o1''" "lower (drop 7 (strip ''ORDACT_o1'')) = ''o1''" by code_simp+
  have c: "o_state (orders ?w ! 0) = CONFIRMED" by (simp add: one_order_def)
  from credit_taps_raise [OF x, of "ade ''CREDITPAID o1''" open_gateway] credit_taps_raise [OF x, of "ade ''ORDACT_o1''" open_gateway] t c show ?thesis
    by (simp add: Let_def)
qed

theorem credit_paid_in_parts_witness:
  "let w = owing_world (Some ''o1''); ts = [(''order_id'', JStr ''o1'')];
       w1 = fold (pay_part open_gateway (ade []) ts) [''5000'', ''I got 2,000''] w; w2 = pay_part open_gateway (ade []) ts ''6000'' w1
   in open_sales ''o1'' w1 = [(owed (Some ''o1''))\<lparr>cs_amount := 5500\<rparr>] \<and> open_sales ''o1'' w2 = [] \<and> o_state (orders w2 ! 0) = PAID"
proof -
  let ?w = "owing_world (Some ''o1'')" and ?ts = "[(''order_id'', JStr ''o1'')]"
  have n: "first_number ''5000'' = Some 5000" "first_number ''I got 2,000'' = Some 2000" "first_number ''6000'' = Some 6000" by code_simp+
  have i: "payload_str ?ts ''order_id'' = ''o1''" by (simp add: payload_str_def payload_get_def)
  have wf: "wf_orders ?w" by (rule wf_orders_example) (simp_all add: owing_world_def one_order_def create_order_row_def empty_world_def)
  have sale: "distinct (map cs_id (credit_sales ?w))" "open_sales (payload_str ?ts ''order_id'') ?w = [owed (Some ''o1'')]"
    "cs_amount (owed (Some ''o1'')) = of_int 12500"
    unfolding i by (simp_all add: owing_world_def open_sales_def owed_def)
  have ms: "\<forall>m\<in>set [''5000'', ''I got 2,000'']. \<exists>p>0. first_number m = Some p" "(\<Sum>m\<leftarrow>[''5000'', ''I got 2,000'']. the (first_number m)) < 12500"
    "12500 \<le> (\<Sum>m\<leftarrow>[''5000'', ''I got 2,000'']. the (first_number m)) + 6000"
    by (simp_all add: n)
  have x: "order_at ?w (payload_str ?ts ''order_id'') None = Some (orders ?w ! 0)" "o_state (orders ?w ! 0) = CONFIRMED"
    unfolding i by (simp_all add: owing_world_def one_order_def create_order_row_def order_at_def scoped_def)
  from credit_paid_in_parts [OF wf sale ms(1,2) n(3) ms(3) x, of open_gateway "ade []"] show ?thesis
    by (simp add: Let_def n i) (simp add: owing_world_def one_order_def create_order_row_def)
qed

theorem settle_by_name_or_tap_witness:
  "let w = owing_world (Some ''o1''); w1 = exec (do_settle_debt open_gateway (ade []) ''ada'' 12500) w;
       w2 = exec (handle_debt_settle open_gateway (ade []) ''s1'') w
   in delivered 2 w w1 = w1 \<and> o_state (orders w1 ! 0) = CONFIRMED \<and> (\<exists>x\<in>set (orders (delivered 2 w w2)). o_state x = PAID)"
proof -
  let ?w = "owing_world (Some ''o1'')" and ?x = "orders (owing_world (Some ''o1'')) ! 0" and ?d = "owed (Some ''o1'')"
  have wf: "wf_orders ?w" by (rule wf_orders_example) (simp_all add: owing_world_def one_order_def create_order_row_def empty_world_def)
  have l: "lower ''Ada'' = lower ''ada''" by code_simp
  have d: "active_debts (cm_tenant_id (ade [])) ''ada'' ?w = [?d]" using l by (simp add: active_debts_def owing_world_def owed_def)
  have a: "int_of_decimal (cs_amount ?d) \<le> 12500" using int_of_decimal_of_int [of 12500] by (simp add: owed_def)
  have x: "cs_order_id ?d = Some (o_id ?x)" "?x \<in> set (orders ?w)" "o_tenant_id ?x = cm_tenant_id (ade [])" "o_state ?x = CONFIRMED" "o_id ?x \<noteq> []"
    "cm_tenant_id (ade []) \<noteq> []"
    by (simp_all add: owing_world_def one_order_def create_order_row_def owed_def)
  have id: "cs_id ?d = ''s1''" by (simp add: owed_def)
  from settle_by_name_or_tap [OF wf wf_owing d _ a x, of open_gateway 2] show ?thesis
    unfolding id by (auto simp: Let_def x(4) intro!: bexI [of _ "?x\<lparr>o_state := PAID\<rparr>"])
qed

definition hex_world :: world where
  "hex_world = empty_world\<lparr>uuid_src := (\<lambda>n. ''a1b2c3d4'' @ replicate n CHR ''e'')\<rparr>"

theorem chat_sale_completes_witness:
  "let w = hex_world; ref = ''a1b2c3d4'';
       w1 = exec (handle_inbound_customer_message open_gateway no_llm (chat ''abeg I want 2 milo'')) w;
       w2 = exec (handle_inbound_customer_message open_gateway no_llm (chat ''YES'')) w1;
       w3 = exec (order_command open_gateway (ade []) TRADER_CONFIRM ref) w2;
       w4 = exec (payment_receipt_tap open_gateway (ade (''PAYRCVD '' @ ref))) w3
   in length (orders w4) = 1 \<and> o_state (orders w4 ! 0) = PAID \<and> ledger_of w4 (''080'', ''234'') = (1, 7000)"
proof -
  let ?w = hex_world and ?m = "''abeg I want 2 milo''"
  have inj: "inj (\<lambda>n. ''a1b2c3d4'' @ replicate n CHR ''e'')" by (rule injI) (simp add: replicate_eq_replicate)
  have wf: "wf_orders ?w" "wf_customers ?w" using inj by (simp_all add: wf_orders_def order_ids_def wf_customers_def hex_world_def empty_world_def)
  have l: "listening (chat ?m) ?w" unfolding listening_def chat_fields order_milo by (simp add: result_def) code_simp
  have s: "session_of (chat ?m) ?w = None" by (simp add: session_of_def hex_world_def empty_world_def redis_get_def empty_redis_def)
  have u: "understood no_llm (chat ?m) [] ?w = result ORDER [item ''milo'' 2 None] (7 / 10)"
    unfolding understood_def chat_fields smart_parse_customer_message_def Let_def order_milo by (simp add: result_def no_llm_def)
  have p: "matched_price (tr_catalogue shop_trader) ''milo'' = Some 3500" by code_simp
  have o: "pr_intent (understood no_llm (chat ?m) [] ?w) = ORDER" "pr_items (understood no_llm (chat ?m) [] ?w) \<noteq> []"
    "missing_prices (tr_catalogue (ib_trader (chat ?m))) (pr_items (understood no_llm (chat ?m) [] ?w)) = []"
    unfolding u by (simp_all add: result_def missing_prices_def p) (simp add: item_def p)
  have r: "take 8 (uuid_src ?w (uuid_n ?w)) = ''a1b2c3d4''" by (simp add: hex_world_def empty_world_def)
  have h: "hex_ref (take 8 (uuid_src ?w (uuid_n ?w)))" unfolding r by (simp add: hex_ref_def)
  have n: "\<forall>y\<in>set (orders ?w). take (length (take 8 (uuid_src ?w (uuid_n ?w)))) (o_id y) \<noteq> take 8 (uuid_src ?w (uuid_n ?w))"
    by (simp add: hex_world_def empty_world_def)
  have t: "cart_total (map (fill_price (tr_catalogue shop_trader)) (pr_items (understood no_llm (chat ?m) [] ?w))) = 7000"
    unfolding u chat_fields using p by (simp add: cart_total_def price_of_def fill_price_def unpriced_def item_def result_def)
  have y: "(chat ?m)\<lparr>ib_message := ''YES''\<rparr> = chat ''YES''" by (simp add: chat_def)
  have led: "ledger_of ?w (''080'', ''234'') = (0, 0)" by (simp add: ledger_of_def entry_at_def hex_world_def empty_world_def)
  have os: "orders ?w = []" by (simp add: hex_world_def empty_world_def)
  from chat_sale_completes [OF wf l s o h n, of open_gateway "ade []", unfolded chat_fields r y os ade_fields, unfolded t] show ?thesis
    by (simp add: Let_def record_purchase_def led shop_trader_def)
qed

end
