(* ===== verification/Traders.thy ===== *)
theory Traders
  imports Order_Session Referrals "HOL-Library.AList"
begin

text \<open>
  Who the traders are: the repository of \<open>onboarding/repository.py\<close>, the routing table of
  \<open>orders/customer_routing.py\<close>, the store slugs of \<open>onboarding/service.py\<close> and the cached look-ups of
  \<open>orders/handlers.py\<close>, which keep a trader's data in Redis for an hour and remember there too that a phone,
  tenant or slug belongs to nobody. A Python dict is an association list in insertion order.
\<close>

section \<open>Catalogues\<close>

text \<open>\<open>{k: v for k, v in items}\<close>: a later value replaces an earlier one in its place.\<close>

definition dict_of :: "('k \<times> 'v) list \<Rightarrow> ('k \<times> 'v) list" where
  "dict_of items = fold (\<lambda>(k, v) d. AList.update k v d) items []"

fun parse_catalogue :: "catalogue_json option \<Rightarrow> (string \<times> int) list" where
  "parse_catalogue None = []"
| "parse_catalogue (Some (CatDict d)) = filter (\<lambda>(k, v). v \<noteq> 0) d"
| "parse_catalogue (Some (CatList ps)) = dict_of (filter (\<lambda>(n, p). n \<noteq> [] \<and> p \<noteq> 0) ps)"

fun normalize_catalogue :: "catalogue_json option \<Rightarrow> (string \<times> int) list" where
  "normalize_catalogue None = []"
| "normalize_catalogue (Some (CatList ps)) = ps"
| "normalize_catalogue (Some (CatDict d)) = d"

section \<open>Repository\<close>

definition trader_get_by_phone :: "string \<Rightarrow> trader_row option svc" where
  "trader_get_by_phone phone = bindA (getA traders) (\<lambda>ts.
     liftE (scalar_one_or_none (filter (\<lambda>t. td_phone_number t = phone \<and> True) ts)))"

definition trader_get_by_tenant :: "string \<Rightarrow> trader_row option svc" where
  "trader_get_by_tenant tid = bindA (getA traders) (\<lambda>ts.
     liftE (scalar_one_or_none (filter (\<lambda>t. td_tenant_id t = Some tid \<and> td_onboarding_status t = COMPLETE) ts)))"

definition list_completed :: "nat \<Rightarrow> world \<Rightarrow> trader_row list" where
  "list_completed limit w = take limit (order_by_desc td_created_at
     (filter (\<lambda>t. td_onboarding_status t = COMPLETE \<and> td_store_slug t \<noteq> None) (traders w)))"

definition trader_get_by_slug :: "string \<Rightarrow> trader_row option svc" where
  "trader_get_by_slug slug = bindA (getA traders) (\<lambda>ts.
     liftE (scalar_one_or_none (filter (\<lambda>t. td_store_slug t = Some slug \<and> True) ts)))"

definition slugs :: "world \<Rightarrow> string list" where
  "slugs w = List.map_filter td_store_slug (traders w)"

definition update_trader :: "string \<Rightarrow> (trader_row \<Rightarrow> trader_row) \<Rightarrow> unit svc" where
  "update_trader phone f = modA (\<lambda>w. w\<lparr>traders := update_where (\<lambda>t. td_phone_number t = phone) f (traders w)\<rparr>)"

definition update_tenant_id :: "string \<Rightarrow> string \<Rightarrow> unit svc" where
  "update_tenant_id phone tid = update_trader phone (\<lambda>t. t\<lparr>td_tenant_id := Some tid\<rparr>)"

definition get_catalogue :: "string \<Rightarrow> (string \<times> int) list svc" where
  "get_catalogue phone = bindA (trader_get_by_phone phone) (\<lambda>t. case t of
     None \<Rightarrow> ret [] | Some t \<Rightarrow> ret (parse_catalogue (td_onboarding_catalogue t)))"

definition update_bank_details :: "string \<Rightarrow> string \<Rightarrow> string \<Rightarrow> string \<Rightarrow> unit svc" where
  "update_bank_details phone bank number holder = update_trader phone
     (\<lambda>t. t\<lparr>td_bank_name := Some bank, td_bank_account_number := Some number, td_bank_account_name := Some holder\<rparr>)"

definition update_category :: "string \<Rightarrow> string \<Rightarrow> unit svc" where
  "update_category phone cat = update_trader phone (\<lambda>t. t\<lparr>td_business_category := Some cat\<rparr>)"

definition update_catalogue :: "string \<Rightarrow> (string \<times> int) list \<Rightarrow> unit svc" where
  "update_catalogue phone d = update_trader phone (\<lambda>t. t\<lparr>td_onboarding_catalogue := Some (CatDict d)\<rparr>)"

text \<open>\<open>create\<close>; phone numbers, slugs and referral codes are unique columns.\<close>

definition trader_create :: "string \<Rightarrow> string \<Rightarrow> string \<Rightarrow> string \<Rightarrow> string option \<Rightarrow> catalogue_json option
    \<Rightarrow> string option \<Rightarrow> string option \<Rightarrow> string option \<Rightarrow> trader_row svc" where
  "trader_create phone name cat slug tid catalogue code attr_type attr_code = bindA uuid4 (\<lambda>i w.
     if phone \<in> td_phone_number ` set (traders w) then (Inl (IntegrityError ''uq_traders_phone_number''), w)
     else if slug \<in> set (slugs w) then (Inl (IntegrityError ''uq_traders_store_slug''), w)
     else if (case code of None \<Rightarrow> False | Some c \<Rightarrow> c \<in> set (referral_codes w)) then (Inl (IntegrityError ''referral_code''), w)
     else let t = \<lparr>td_id = i, td_tenant_id = tid, td_phone_number = phone, td_business_name = Some name,
                   td_business_category = Some cat, td_store_slug = Some slug, td_onboarding_status = COMPLETE, td_tier = ''ofe'',
                   td_bank_name = None, td_bank_account_number = None, td_bank_account_name = None, td_referral_code = code,
                   td_attribution_type = attr_type, td_attribution_code = attr_code, td_onboarding_catalogue = catalogue,
                   td_created_at = clock w\<rparr>
          in (Inr t, w\<lparr>traders := traders w @ [t]\<rparr>))"

section \<open>Store slugs\<close>

text \<open>\<open>re.sub(r"\s+", "-", s)\<close>: a run of white space becomes one dash.\<close>

fun dash_spaces :: "bool \<Rightarrow> string \<Rightarrow> string" where
  "dash_spaces run [] = []"
| "dash_spaces run (c # cs) = (if is_space c then (if run then dash_spaces True cs else CHR ''-'' # dash_spaces True cs)
     else c # dash_spaces False cs)"

definition is_slug_char :: "char \<Rightarrow> bool" where
  "is_slug_char c \<longleftrightarrow> (CHR ''a'' \<le> c \<and> c \<le> CHR ''z'') \<or> (CHR ''0'' \<le> c \<and> c \<le> CHR ''9'') \<or> c = CHR ''-''"

definition strip_dashes :: "string \<Rightarrow> string" where
  "strip_dashes s = rev (dropWhile (\<lambda>c. c = CHR ''-'') (rev (dropWhile (\<lambda>c. c = CHR ''-'') s)))"

definition slug_base :: "string \<Rightarrow> string" where
  "slug_base name = (let b = strip_dashes (filter is_slug_char (dash_spaces False (lower name)))
     in if b = [] then ''trader'' else b)"

definition generate_unique_slug :: "string \<Rightarrow> string svc" where
  "generate_unique_slug name = bindA (getA slugs) (\<lambda>used. liftE (unique_loop used (slug_base name) (slug_base name) 2))"

section \<open>Routing of customers\<close>

definition route_upsert :: "string \<Rightarrow> string \<Rightarrow> string \<Rightarrow> string \<Rightarrow> unit svc" where
  "route_upsert customer trader slug tid = bindA (getA customer_routes) (\<lambda>rs.
     bindA (liftE (scalar_one_or_none (filter (\<lambda>r. cr_customer_phone r = customer \<and> True) rs))) (\<lambda>existing. case existing of
       Some _ \<Rightarrow> modA (\<lambda>w. w\<lparr>customer_routes := update_where (\<lambda>r. cr_customer_phone r = customer)
           (\<lambda>r. r\<lparr>cr_trader_phone := trader, cr_store_slug := slug, cr_tenant_id := tid\<rparr>) (customer_routes w)\<rparr>)
     | None \<Rightarrow> modA (\<lambda>w. w\<lparr>customer_routes := customer_routes w @
           [\<lparr>cr_customer_phone = customer, cr_trader_phone = trader, cr_store_slug = slug, cr_tenant_id = tid\<rparr>]\<rparr>)))"

definition route_get_by_customer :: "string \<Rightarrow> customer_route option svc" where
  "route_get_by_customer customer = bindA (getA customer_routes) (\<lambda>rs.
     liftE (scalar_one_or_none (filter (\<lambda>r. cr_customer_phone r = customer \<and> True) rs)))"

section \<open>Cached look-ups\<close>

definition or_empty :: "string option \<Rightarrow> string" where
  "or_empty s = (case s of None \<Rightarrow> [] | Some x \<Rightarrow> x)"

definition trader_dict :: "trader_row \<Rightarrow> trader" where
  "trader_dict t = \<lparr>tr_business_name = or_empty (td_business_name t), tr_business_category = or_empty (td_business_category t),
     tr_catalogue = parse_catalogue (td_onboarding_catalogue t), tr_phone_number = td_phone_number t,
     tr_tenant_id = or_empty (td_tenant_id t), tr_store_slug = or_empty (td_store_slug t), tr_bank_name = or_empty (td_bank_name t),
     tr_bank_account_number = or_empty (td_bank_account_number t), tr_bank_account_name = or_empty (td_bank_account_name t)\<rparr>"

text \<open>\<open>cached or None\<close>: the empty dict stands for nobody.\<close>

fun cached_trader :: "doc \<Rightarrow> trader option" where
  "cached_trader (TraderDoc t) = Some t"
| "cached_trader d = None"

definition completed :: "trader_row option \<Rightarrow> trader option" where
  "completed r = (case r of None \<Rightarrow> None
     | Some t \<Rightarrow> if td_onboarding_status t \<noteq> COMPLETE then None else Some (trader_dict t))"

definition remember :: "(doc \<Rightarrow> unit svc) \<Rightarrow> trader option \<Rightarrow> trader option svc" where
  "remember cache t = thenA (cache (case t of None \<Rightarrow> NoTraderDoc | Some d \<Rightarrow> TraderDoc d)) (ret t)"

definition get_trader_by_phone :: "string \<Rightarrow> trader option svc" where
  "get_trader_by_phone phone = bindA (get_trader_by_phone_cache phone) (\<lambda>c. case c of
     Some d \<Rightarrow> ret (cached_trader d)
   | None \<Rightarrow> bindA (trader_get_by_phone phone) (\<lambda>r. remember (cache_trader_by_phone phone) (completed r)))"

definition get_trader_by_tenant :: "string \<Rightarrow> trader option svc" where
  "get_trader_by_tenant tid = bindA (get_trader_by_tenant_cache tid) (\<lambda>c. case c of
     Some d \<Rightarrow> ret (cached_trader d)
   | None \<Rightarrow> bindA (trader_get_by_tenant tid) (\<lambda>r. remember (cache_trader_by_tenant tid) (map_option trader_dict r)))"

definition get_trader_by_slug :: "string \<Rightarrow> trader option svc" where
  "get_trader_by_slug slug = bindA (get_trader_by_slug_cache slug) (\<lambda>c. case c of
     Some d \<Rightarrow> ret (cached_trader d)
   | None \<Rightarrow> bindA (trader_get_by_slug slug) (\<lambda>r. remember (cache_trader_by_slug slug) (completed r)))"

section \<open>Properties\<close>

lemma slug_base_chars: "slug_base name \<noteq> [] \<and> list_all is_slug_char (slug_base name)"
proof -
  let ?b = "strip_dashes (filter is_slug_char (dash_spaces False (lower name)))"
  have "set (strip_dashes s) \<subseteq> set s" for s
    by (auto simp: strip_dashes_def dest!: set_dropWhileD)
  then have "set ?b \<subseteq> set (filter is_slug_char (dash_spaces False (lower name)))" .
  then have "list_all is_slug_char ?b" by (auto simp: list_all_iff)
  moreover have "list_all is_slug_char ''trader''" by code_simp
  ultimately show ?thesis by (simp add: slug_base_def Let_def)
qed

lemma suffixed_chars: "list_all is_slug_char base \<Longrightarrow> list_all is_slug_char (suffixed base k)"
  using show_nat_digits [of k] by (auto simp: suffixed_def list_all_iff is_slug_char_def is_digit_def less_eq_char_def Let_def)

text \<open>
  C37: every store gets an address of its own. For any business name, even one without a single letter or digit, the search for a slug
  ends with a slug no other store has, made only of the characters a-z, 0-9 and the dash, so that it can stand in a
  link and in a cart message; it is the name's own form if that is free and otherwise that form with the least free number from 2 on.
\<close>

theorem unique_store_slug:
  assumes "distinct (slugs w)"
  shows "\<exists>slug. generate_unique_slug name w = (Inr slug, w) \<and> slug \<notin> set (slugs w) \<and> slug \<noteq> [] \<and> list_all is_slug_char slug
     \<and> (slug = slug_base name \<or> (\<exists>k\<ge>2. slug = suffixed (slug_base name) k
           \<and> (\<forall>j. 2 \<le> j \<and> j < k \<longrightarrow> suffixed (slug_base name) j \<in> set (slugs w))))"
proof -
  from unique_loop_spec [OF assms, of "slug_base name" "slug_base name" 2] obtain j where
    j: "unique_loop (slugs w) (slug_base name) (slug_base name) 2 = Inr (if j = 0 then slug_base name else suffixed (slug_base name) (2 + j - 1))"
    "(if j = 0 then slug_base name else suffixed (slug_base name) (2 + j - 1)) \<notin> set (slugs w)"
    "\<forall>k. 2 \<le> k \<and> k < 2 + j - 1 \<longrightarrow> suffixed (slug_base name) k \<in> set (slugs w)" by blast
  let ?s = "if j = 0 then slug_base name else suffixed (slug_base name) (2 + j - 1)"
  have "?s \<noteq> [] \<and> list_all is_slug_char ?s" using slug_base_chars [of name] suffixed_chars [of "slug_base name"] by (auto simp: suffixed_def)
  moreover have "generate_unique_slug name w = (Inr ?s, w)" using j(1) by (simp add: generate_unique_slug_def bindA_apply)
  moreover have "?s = slug_base name \<or> (\<exists>k\<ge>2. ?s = suffixed (slug_base name) k \<and> (\<forall>j. 2 \<le> j \<and> j < k \<longrightarrow> suffixed (slug_base name) j \<in> set (slugs w)))"
    using j(3) by (cases "j = 0") (auto intro!: exI [of _ "Suc j"])
  ultimately show ?thesis using j(2) by blast
qed

theorem unique_store_slug_witness:
  "\<exists>slug. generate_unique_slug ''Mama Caro'' (empty_world\<lparr>traders := [example_trader ''080'' ''mama-caro'']\<rparr>) =
     (Inr slug, empty_world\<lparr>traders := [example_trader ''080'' ''mama-caro'']\<rparr>) \<and> slug \<noteq> ''mama-caro'' \<and> list_all is_slug_char slug"
proof -
  have s: "slugs (empty_world\<lparr>traders := [example_trader ''080'' ''mama-caro'']\<rparr>) = [''mama-caro'']"
    by (simp add: slugs_def map_filter_simps example_trader_def)
  then have "distinct (slugs (empty_world\<lparr>traders := [example_trader ''080'' ''mama-caro'']\<rparr>))" by simp
  from unique_store_slug [OF this, of "''Mama Caro''"] show ?thesis by (auto simp: s)
qed

end
