(* ===== verification/Catalogue.thy ===== *)
theory Catalogue
  imports Traders Trader_Orders
begin

text \<open>
  How a trader keeps the store over WhatsApp (\<open>orders/service.py\<close>): adding and removing products, changing
  prices, confirming a price list that was read from a photo, the bank details (with the bank table and account
  look-up of \<open>infra/paystack.py\<close>) and the business category. Each change is written to the database and then to
  the copy of the trader's data that Redis holds under the phone number.
\<close>

section \<open>Writing the catalogue\<close>

text \<open>\<open>if cached and isinstance(cached, dict) and cached\<close>: only a cached trader is changed.\<close>

definition recache :: "string \<Rightarrow> (trader \<Rightarrow> trader) \<Rightarrow> unit svc" where
  "recache phone f = bindA (get_trader_by_phone_cache phone) (\<lambda>c. case c of
     Some (TraderDoc t) \<Rightarrow> cache_trader_by_phone phone (TraderDoc (f t)) | _ \<Rightarrow> ret ())"

definition persist_catalogue :: "string \<Rightarrow> (string \<times> int) list \<Rightarrow> unit svc" where
  "persist_catalogue phone d = thenA (session_begin (update_catalogue phone d)) (recache phone (\<lambda>t. t\<lparr>tr_catalogue := d\<rparr>))"

text \<open>The first key equal to the name up to case, with its price.\<close>

definition matched_key :: "string \<Rightarrow> (string \<times> int) list \<Rightarrow> (string \<times> int) option" where
  "matched_key name d = find (\<lambda>(k, v). lower k = lower name) d"

definition json_pairs :: "(string \<times> int) list \<Rightarrow> jval" where
  "json_pairs ps = JList (map (\<lambda>(n, p). JList [JStr n, JInt p]) ps)"

definition price_or_0 :: "cart_item \<Rightarrow> int" where
  "price_or_0 it = (case it_unit_price it of None \<Rightarrow> 0 | Some p \<Rightarrow> p)"

text \<open>The \<open>name\<close> and \<open>unit_price\<close> of parsed items.\<close>

definition priced_names :: "cart_item list \<Rightarrow> (string \<times> int) list" where
  "priced_names its = map (\<lambda>it. (it_name it, price_or_0 it)) its"

definition add_all :: "(string \<times> int) list \<Rightarrow> (string \<times> int) list \<Rightarrow> (string \<times> int) list" where
  "add_all ps d = fold (\<lambda>(n, p) d. AList.update n p d) ps d"

definition do_add_products :: "gateway \<Rightarrow> command \<Rightarrow> cart_item list \<Rightarrow> unit svc" where
  "do_add_products gw cm its = (let added = priced_names its in
     thenA (persist_catalogue (cm_trader_phone cm) (add_all added (tr_catalogue (cm_trader cm))))
       (to_trader gw cm (cm_event ''trader.added'' cm) (case added of
          [(n, p)] \<Rightarrow> Template ''product_added'' [JStr n, JInt p]
        | _ \<Rightarrow> Template ''products_added_batch'' [json_pairs added])))"

definition do_remove_product :: "gateway \<Rightarrow> command \<Rightarrow> string \<Rightarrow> unit svc" where
  "do_remove_product gw cm name = (let d = tr_catalogue (cm_trader cm) in case matched_key name d of
     None \<Rightarrow> to_trader gw cm (cm_event ''trader.remove_notfound'' cm) (Template ''product_not_found'' [JStr name])
   | Some (k, v) \<Rightarrow> thenA (persist_catalogue (cm_trader_phone cm) (AList.delete k d))
       (to_trader gw cm (cm_event ''trader.removed'' cm) (Template ''product_removed'' [JStr k])))"

text \<open>The loops over several products; an empty key counts as not found. What was changed and what was not found is collected.\<close>

fun remove_each :: "string list \<Rightarrow> (string \<times> int) list \<Rightarrow> (string \<times> int) list \<times> string list \<times> string list" where
  "remove_each [] d = (d, [], [])"
| "remove_each (n # ns) d = (case matched_key n d of
     Some (k, v) \<Rightarrow> if k \<noteq> [] then (let (d', removed, nf) = remove_each ns (AList.delete k d) in (d', k # removed, nf))
                   else (let (d', removed, nf) = remove_each ns d in (d', removed, n # nf))
   | None \<Rightarrow> (let (d', removed, nf) = remove_each ns d in (d', removed, n # nf)))"

fun update_each :: "(string \<times> int) list \<Rightarrow> (string \<times> int) list
    \<Rightarrow> (string \<times> int) list \<times> (string \<times> int \<times> int) list \<times> string list" where
  "update_each [] d = (d, [], [])"
| "update_each ((n, p) # ps) d = (case matched_key n d of
     Some (k, v) \<Rightarrow> if k \<noteq> [] then (let (d', updated, nf) = update_each ps (AList.update k p d) in (d', (k, v, p) # updated, nf))
                   else (let (d', updated, nf) = update_each ps d in (d', updated, n # nf))
   | None \<Rightarrow> (let (d', updated, nf) = update_each ps d in (d', updated, n # nf)))"

text \<open>The line a caller appends to a template is its last argument.\<close>

definition could_not_find :: "string list \<Rightarrow> jval list" where
  "could_not_find nf = (if nf = [] then [] else [JStr (''Could not find: '' @ join '', '' nf)])"

definition do_remove_products :: "gateway \<Rightarrow> command \<Rightarrow> string list \<Rightarrow> unit svc" where
  "do_remove_products gw cm names = (case remove_each names (tr_catalogue (cm_trader cm)) of (d, removed, nf) \<Rightarrow>
     if removed \<noteq> [] then thenA (persist_catalogue (cm_trader_phone cm) d)
       (to_trader gw cm (cm_event ''trader.removed'' cm) (case removed of
          [k] \<Rightarrow> Template ''product_removed'' (JStr k # could_not_find nf)
        | _ \<Rightarrow> Template ''products_removed_batch'' (JList (map JStr removed) # could_not_find nf)))
     else to_trader gw cm (cm_event ''trader.remove_notfound'' cm) (Template ''product_not_found'' [JStr (join '', '' nf)]))"

definition do_update_price :: "gateway \<Rightarrow> command \<Rightarrow> string \<Rightarrow> int \<Rightarrow> unit svc" where
  "do_update_price gw cm name price = (let d = tr_catalogue (cm_trader cm) in case matched_key name d of
     None \<Rightarrow> to_trader gw cm (cm_event ''trader.price_notfound'' cm) (Template ''product_not_found'' [JStr name])
   | Some (k, v) \<Rightarrow> thenA (persist_catalogue (cm_trader_phone cm) (AList.update k price d))
       (to_trader gw cm (cm_event ''trader.price_updated'' cm) (Template ''product_price_updated'' [JStr k, JInt v, JInt price])))"

definition do_update_prices :: "gateway \<Rightarrow> command \<Rightarrow> cart_item list \<Rightarrow> unit svc" where
  "do_update_prices gw cm its = (case update_each (priced_names its) (tr_catalogue (cm_trader cm)) of (d, updated, nf) \<Rightarrow>
     if updated \<noteq> [] then thenA (persist_catalogue (cm_trader_phone cm) d)
       (to_trader gw cm (cm_event ''trader.price_updated'' cm) (case updated of
          [(k, v, p)] \<Rightarrow> Template ''product_price_updated'' ([JStr k, JInt v, JInt p] @ could_not_find nf)
        | _ \<Rightarrow> Template ''prices_updated_batch'' (JList (map (\<lambda>(k, v, p). JList [JStr k, JInt v, JInt p]) updated) # could_not_find nf)))
     else to_trader gw cm (cm_event ''trader.price_notfound'' cm) (Template ''product_not_found'' [JStr (join '', '' nf)]))"

section \<open>Answers in a dialogue\<close>

definition add_answer :: "gateway \<Rightarrow> command \<Rightarrow> unit svc" where
  "add_answer gw cm = thenA (clear_trader_session (cm_trader_phone cm))
     (let its = parse_add_items (''ADD '' @ cm_message cm) in if its \<noteq> [] then do_add_products gw cm its
      else to_trader gw cm (cm_event ''trader.add_invalid'' cm) (Template ''add_invalid'' []))"

definition price_answer :: "gateway \<Rightarrow> command \<Rightarrow> payload \<Rightarrow> unit svc" where
  "price_answer gw cm ts = thenA (clear_trader_session (cm_trader_phone cm))
     (let product = payload_str ts ''product_name'';
          invalid = to_trader gw cm (cm_event ''trader.price_invalid'' cm) (Template ''price_invalid'' []) in
      case first_number (cm_message cm) of
        Some p \<Rightarrow> if 0 < p \<and> product \<noteq> [] then do_update_price gw cm product p else invalid
      | None \<Rightarrow> invalid)"

text \<open>The items of a price list: an entry of the same name up to case is repriced under the name it has, others are added.\<close>

definition merge_price :: "string \<times> int \<Rightarrow> (string \<times> int) list \<Rightarrow> (string \<times> int) list" where
  "merge_price np d = (case matched_key (fst np) d of
     Some (k, v) \<Rightarrow> if k \<noteq> [] then AList.update k (snd np) d else AList.update (fst np) (snd np) d
   | None \<Rightarrow> AList.update (fst np) (snd np) d)"

definition session_items :: "payload \<Rightarrow> (string \<times> int) list" where
  "session_items ts = (case payload_get ts ''items'' (JList []) of
     JList xs \<Rightarrow> map (\<lambda>x. case x of JObj kvs \<Rightarrow> (payload_str kvs ''name'', case payload_get kvs ''price'' (JInt 0) of JInt p \<Rightarrow> p | _ \<Rightarrow> 0)
       | _ \<Rightarrow> ([], 0)) xs
   | _ \<Rightarrow> [])"

definition pricelist_answer :: "gateway \<Rightarrow> command \<Rightarrow> payload \<Rightarrow> unit svc" where
  "pricelist_answer gw cm ts = thenA (clear_trader_session (cm_trader_phone cm))
     (if upper (strip (cm_message cm)) \<in> {''YES'', ''PRICELIST_YES''} then
        (let d = fold merge_price (session_items ts) (tr_catalogue (cm_trader cm)) in
         thenA (persist_catalogue (cm_trader_phone cm) d)
           (to_trader gw cm (cm_event ''trader.pricelist_confirmed'' cm) (Template ''pricelist_confirmed''
              [payload_get ts ''new_count'' (JInt 0), payload_get ts ''updated_count'' (JInt 0), JInt (int (length d))])))
      else to_trader gw cm (cm_event ''trader.pricelist_cancelled'' cm) (Template ''pricelist_cancelled'' []))"

text \<open>The typed commands ADD, REMOVE and PRICE, and the tap on a product to remove.\<close>

definition catalogue_command :: "gateway \<Rightarrow> command \<Rightarrow> parse_result \<Rightarrow> unit svc" where
  "catalogue_command gw cm r = (if pr_intent r = TRADER_ADD then do_add_products gw cm (pr_items r)
     else if pr_intent r = TRADER_REMOVE then do_remove_products gw cm (map it_name (pr_items r))
     else if pr_intent r = TRADER_PRICE then do_update_prices gw cm (pr_items r)
     else ret ())"

section \<open>Bank details and category\<close>

definition BANK_CODES :: "(string \<times> string) list" where
  "BANK_CODES = [(''access'', ''044''), (''access bank'', ''044''), (''access diamond'', ''044''), (''citibank'', ''023''), (''ecobank'', ''050''),
     (''fidelity'', ''070''), (''fidelity bank'', ''070''), (''first bank'', ''011''), (''firstbank'', ''011''),
     (''first city monument bank'', ''214''), (''fcmb'', ''214''), (''globus'', ''00103''), (''globus bank'', ''00103''),
     (''gtbank'', ''058''), (''gtb'', ''058''), (''guaranty trust bank'', ''058''), (''gt bank'', ''058''), (''heritage'', ''030''),
     (''heritage bank'', ''030''), (''jaiz'', ''301''), (''jaiz bank'', ''301''), (''keystone'', ''082''), (''keystone bank'', ''082''),
     (''kuda'', ''50211''), (''kuda bank'', ''50211''), (''lotus'', ''303''), (''lotus bank'', ''303''), (''moniepoint'', ''50515''),
     (''moniepoint mfb'', ''50515''), (''opay'', ''999992''), (''palmpay'', ''999991''), (''parallex'', ''104''), (''parallex bank'', ''104''),
     (''polaris'', ''076''), (''polaris bank'', ''076''), (''providus'', ''101''), (''providus bank'', ''101''), (''stanbic'', ''221''),
     (''stanbic ibtc'', ''221''), (''stanbic ibtc bank'', ''221''), (''standard chartered'', ''068''), (''standard chartered bank'', ''068''),
     (''sterling'', ''232''), (''sterling bank'', ''232''), (''suntrust'', ''100''), (''suntrust bank'', ''100''), (''taj'', ''302''),
     (''taj bank'', ''302''), (''titan trust'', ''102''), (''titan trust bank'', ''102''), (''uba'', ''033''), (''united bank for africa'', ''033''),
     (''union'', ''032''), (''union bank'', ''032''), (''unity'', ''215''), (''unity bank'', ''215''), (''wema'', ''035''), (''wema bank'', ''035''),
     (''alat'', ''035''), (''zenith'', ''057''), (''zenith bank'', ''057'')]"

definition resolve_bank_code :: "string \<Rightarrow> string option" where
  "resolve_bank_code bank = map_of BANK_CODES (lower (strip bank))"

text \<open>
  Paystack: the secret key of the settings and what the request for a bank code and an account number gives, an
  error of the client or the status code, the \<open>status\<close> of the answer and the account name (empty when it has none).
\<close>

record paystack =
  ps_secret_key :: string
  ps_get :: "string \<Rightarrow> string \<Rightarrow> error + nat \<times> bool \<times> string"

definition resolve_account_name :: "paystack \<Rightarrow> string \<Rightarrow> string \<Rightarrow> string option" where
  "resolve_account_name ps code acct = (if ps_secret_key ps = [] then None else case ps_get ps code acct of
     Inl _ \<Rightarrow> None
   | Inr (status, ok, name) \<Rightarrow> if status = 200 \<and> ok \<and> name \<noteq> [] then Some name else None)"

definition save_bank_details :: "string \<Rightarrow> string \<Rightarrow> string \<Rightarrow> string \<Rightarrow> unit svc" where
  "save_bank_details phone bank acct holder = thenA (session_begin (update_bank_details phone bank acct holder))
     (recache phone (\<lambda>t. t\<lparr>tr_bank_name := bank, tr_bank_account_number := acct, tr_bank_account_name := holder\<rparr>))"

definition BANK_RE :: rx where
  "BANK_RE = seq [Grp 1 (plus_lazy dot), spaces1, Grp 2 (times 10 digit), spaces0, Eos]"

definition bank_details_answer :: "gateway \<Rightarrow> paystack \<Rightarrow> command \<Rightarrow> unit svc" where
  "bank_details_answer gw ps cm = thenA (clear_trader_session (cm_trader_phone cm)) (case re_match BANK_RE (strip (cm_message cm)) of
     None \<Rightarrow> to_trader gw cm (cm_event ''trader.bank_invalid'' cm) (Template ''bank_invalid'' [])
   | Some m \<Rightarrow> (let bank = strip (group 1 m); acct = group 2 m in case resolve_bank_code bank of
       None \<Rightarrow> to_trader gw cm (cm_event ''trader.bank_unknown'' cm) (Template ''bank_unknown_bank'' [JStr bank])
     | Some code \<Rightarrow> (case resolve_account_name ps code acct of
         Some holder \<Rightarrow> thenA (set_trader_session (cm_trader_phone cm) (TraderSessionDoc ''awaiting_bank_confirm''
               [(''bank_name'', JStr bank), (''account_number'', JStr acct), (''account_name'', JStr holder)]))
             (reply_interactive gw (cm_trader_phone cm) (cm_tenant_id cm) (cm_event ''trader.bank_verify'' cm)
               (Template ''bank_verify_confirm'' [JStr bank, JStr acct, JStr holder])
               [(''BANK_YES'', ''Yes, save it''), (''BANK_NO'', ''No, re-enter'')] (cm_channel_tenant_id cm) None)
       | None \<Rightarrow> thenA (save_bank_details (cm_trader_phone cm) bank acct (tr_business_name (cm_trader cm)))
             (to_trader gw cm (cm_event ''trader.bank_noverify'' cm) (Template ''bank_verify_failed'' [JStr bank])))))"

definition bank_confirm_answer :: "gateway \<Rightarrow> command \<Rightarrow> payload \<Rightarrow> unit svc" where
  "bank_confirm_answer gw cm ts = thenA (clear_trader_session (cm_trader_phone cm))
     (if upper (strip (cm_message cm)) \<in> {''YES'', ''BANK_YES''} then
        (let bank = payload_str ts ''bank_name''; acct = payload_str ts ''account_number''; holder = payload_str ts ''account_name'' in
         thenA (save_bank_details (cm_trader_phone cm) bank acct holder)
           (to_trader gw cm (cm_event ''trader.bank_confirmed'' cm) (Template ''bank_details_saved'' [JStr bank, JStr acct, JStr holder])))
      else thenA (set_trader_session (cm_trader_phone cm) (TraderSessionDoc ''awaiting_bank_details'' []))
           (to_trader gw cm (cm_event ''trader.bank_retry'' cm) (Template ''bank_retry'' [])))"

definition CATEGORY_DISPLAY_NAMES :: "(string \<times> string) list" where
  "CATEGORY_DISPLAY_NAMES = [(''provisions'', ''Provisions and groceries''), (''fabric'', ''Fabric and clothing''),
     (''food'', ''Food and cooked meals''), (''electronics'', ''Electronics and phones''), (''cosmetics'', ''Cosmetics and beauty''),
     (''building'', ''Building materials''), (''other'', ''Something else'')]"

definition do_change_category :: "gateway \<Rightarrow> command \<Rightarrow> string \<Rightarrow> unit svc" where
  "do_change_category gw cm cat = thenA (session_begin (update_category (cm_trader_phone cm) cat))
     (thenA (recache (cm_trader_phone cm) (\<lambda>t. t\<lparr>tr_business_category := cat\<rparr>))
       (to_trader gw cm (cm_event ''trader.category_changed'' cm)
         (Template ''category_changed'' [JStr (case map_of CATEGORY_DISPLAY_NAMES cat of Some d \<Rightarrow> d | None \<Rightarrow> cat)])))"

section \<open>What the database says of a phone number\<close>

definition trader_at :: "world \<Rightarrow> string \<Rightarrow> trader option" where
  "trader_at w phone = completed (find (\<lambda>t. td_phone_number t = phone \<and> True) (traders w))"

definition trader_doc :: "trader option \<Rightarrow> doc" where
  "trader_doc t = (case t of None \<Rightarrow> NoTraderDoc | Some d \<Rightarrow> TraderDoc d)"

definition wf_traders :: "world \<Rightarrow> bool" where
  "wf_traders w \<longleftrightarrow> distinct (map td_phone_number (traders w))"

text \<open>A cached document is what the database says.\<close>

definition coherent :: "world \<Rightarrow> bool" where
  "coherent w \<longleftrightarrow> wf_traders w
     \<and> (\<forall>phone d. redis_get (clock w) (trader_phone_key phone) (redis w) = Some d \<longrightarrow> d = trader_doc (trader_at w phone))"

lemma cached_trader_doc [simp]: "cached_trader (trader_doc t) = t"
  by (cases t) (simp_all add: trader_doc_def)

lemma trader_get_by_phone_eq:
  "wf_traders w \<Longrightarrow> trader_get_by_phone phone w = (Inr (find (\<lambda>t. td_phone_number t = phone \<and> True) (traders w)), w)"
  using scalar_key [of td_phone_number "traders w" phone "\<lambda>_. True"]
  by (simp add: trader_get_by_phone_def bindA_apply wf_traders_def)

lemma phone_key_inj [simp]: "trader_phone_key a = trader_phone_key b \<longleftrightarrow> a = b"
  by (simp add: trader_phone_key_def)

lemma other_keys [simp]:
  "trader_phone_key a \<noteq> trader_slug_key b" "trader_phone_key a \<noteq> trader_tenant_key b" "trader_phone_key a \<noteq> trader_session_key b"
  "trader_slug_key a \<noteq> trader_phone_key b" "trader_tenant_key a \<noteq> trader_phone_key b" "trader_session_key a \<noteq> trader_phone_key b"
  "trader_slug_key a \<noteq> trader_session_key b" "trader_slug_key a \<noteq> trader_tenant_key b"
  "trader_session_key a \<noteq> trader_slug_key b" "trader_tenant_key a \<noteq> trader_slug_key b"
  by (simp_all add: key_defs)

lemma cache_read: "get_trader_by_phone_cache phone w = (Inr (redis_get (clock w) (trader_phone_key phone) (redis w)), w)"
  by (simp add: get_trader_by_phone_cache_def cache_get_def)

lemma trader_at_redis: "trader_at (w\<lparr>redis := r\<rparr>) = trader_at w"
  by (simp add: fun_eq_iff trader_at_def)

lemma coherent_read:
  assumes "coherent w" and "redis_get (clock w) (trader_phone_key phone) (redis w) = Some d"
  shows "d = trader_doc (trader_at w phone)"
  using assms by (simp add: coherent_def)

lemma coherent_same:
  "coherent w \<Longrightarrow> traders w' = traders w \<Longrightarrow> clock w' = clock w \<Longrightarrow>
     (\<And>p. redis_get (clock w) (trader_phone_key p) (redis w') = redis_get (clock w) (trader_phone_key p) (redis w)) \<Longrightarrow> coherent w'"
  by (simp add: coherent_def wf_traders_def trader_at_def)

lemma coherent_put:
  "coherent w \<Longrightarrow> coherent (w\<lparr>redis := redis_setex now (trader_phone_key p) ttl (trader_doc (trader_at w p)) (redis w)\<rparr>)"
  by (auto simp: coherent_def wf_traders_def trader_at_def redis_get_setex split: if_splits)

text \<open>In a coherent state the cached look-up is the look-up in the database.\<close>

lemma get_trader_by_phone_eq:
  assumes "coherent w"
  shows "\<exists>r. get_trader_by_phone phone w = (Inr (trader_at w phone), w\<lparr>redis := r\<rparr>) \<and> coherent (w\<lparr>redis := r\<rparr>)"
proof (cases "redis_get (clock w) (trader_phone_key phone) (redis w)")
  case None
  have "wf_traders w" using assms by (simp add: coherent_def)
  then have "get_trader_by_phone phone w = (Inr (trader_at w phone),
      w\<lparr>redis := redis_setex (clock w) (trader_phone_key phone) TRADER_TTL (trader_doc (trader_at w phone)) (redis w)\<rparr>)"
    using None by (simp add: get_trader_by_phone_def bindA_apply cache_read trader_get_by_phone_eq remember_def thenA_apply
        cache_trader_by_phone_def cache_setex_def trader_at_def trader_doc_def split: option.splits)
  with coherent_put [OF assms] show ?thesis by blast
next
  case (Some d)
  with coherent_read [OF assms Some] assms show ?thesis
    by (intro exI [of _ "redis w"]) (simp add: get_trader_by_phone_def bindA_apply cache_read)
qed

lemma coherent_lookup: "keeps (get_trader_by_phone phone) coherent"
proof (rule keepsI)
  fix w assume "coherent w"
  from get_trader_by_phone_eq [OF this, of phone] show "coherent (snd (get_trader_by_phone phone w))" by auto
qed

section \<open>What the other actions leave alone\<close>

lemma core_traders: "core w' = core w \<Longrightarrow> traders w' = traders w"
  by (drule arg_cong [of _ _ traders]) (simp add: core_def)

lemma coherent_quiet: "quiet m \<Longrightarrow> keeps m coherent"
proof (rule keepsI)
  fix w assume "quiet m" and c: "coherent w"
  then obtain x w' where "m w = (Inr x, w')" "aside w w'" using quietE by blast
  then show "coherent (snd (m w))" using coherent_same [OF c, of w'] core_traders [of w' w] core_fields(8,9) [of w' w]
    by (simp add: aside_def)
qed

lemma coherent_cache:
  "(\<And>p. k \<noteq> trader_phone_key p) \<Longrightarrow> keeps (cache_setex k ttl d) coherent"
  "(\<And>p. k \<noteq> trader_phone_key p) \<Longrightarrow> keeps (cache_delete k) coherent"
  by (auto intro!: keepsI elim!: coherent_same simp: cache_setex_def cache_delete_def redis_get_setex redis_get_delete)
    (metis)+

lemma coherent_sessions: "keeps (clear_trader_session p) coherent" "keeps (set_trader_session p d) coherent"
  unfolding clear_trader_session_def set_trader_session_def by (rule coherent_cache; simp add: other_keys [symmetric])+

section \<open>A change and its copy in the cache\<close>

definition edit :: "string \<Rightarrow> (trader_row \<Rightarrow> trader_row) \<Rightarrow> (trader \<Rightarrow> trader) \<Rightarrow> unit svc" where
  "edit phone g f = thenA (session_begin (update_trader phone g)) (recache phone f)"

definition mirrors :: "(trader_row \<Rightarrow> trader_row) \<Rightarrow> (trader \<Rightarrow> trader) \<Rightarrow> bool" where
  "mirrors g f \<longleftrightarrow> (\<forall>t. td_phone_number (g t) = td_phone_number t \<and> td_onboarding_status (g t) = td_onboarding_status t
     \<and> trader_dict (g t) = f (trader_dict t))"

lemma completed_mirror: "mirrors g f \<Longrightarrow> completed (map_option g r) = map_option f (completed r)"
  by (cases r) (simp_all add: completed_def mirrors_def)

lemma find_update_where:
  assumes "\<And>t. k (g t) = k t"
  shows "find (\<lambda>t. k t = q \<and> True) (update_where (\<lambda>t. k t = p) g ts) =
     (if q = p then map_option g (find (\<lambda>t. k t = p \<and> True) ts) else find (\<lambda>t. k t = q \<and> True) ts)"
  by (induction ts) (auto simp: assms)

lemma trader_at_update:
  assumes "mirrors g f"
  shows "trader_at (w\<lparr>traders := update_where (\<lambda>t. td_phone_number t = p) g (traders w), redis := r\<rparr>) q =
     (if q = p then map_option f (trader_at w p) else trader_at w q)"
  using assms find_update_where [of td_phone_number g q p "traders w"] completed_mirror [OF assms]
  by (simp add: trader_at_def mirrors_def)

lemma edit_eq:
  assumes "coherent w" and "mirrors g f"
  shows "\<exists>r. edit p g f w = (Inr (), w\<lparr>traders := update_where (\<lambda>t. td_phone_number t = p) g (traders w), redis := r\<rparr>)
     \<and> coherent (w\<lparr>traders := update_where (\<lambda>t. td_phone_number t = p) g (traders w), redis := r\<rparr>)"
proof -
  let ?w = "\<lambda>r. w\<lparr>traders := update_where (\<lambda>t. td_phone_number t = p) g (traders w), redis := r\<rparr>"
  let ?c = "redis_get (clock w) (trader_phone_key p) (redis w)"
  have wf: "wf_traders (?w r)" for r
    using assms by (auto simp: coherent_def wf_traders_def mirrors_def map_update_where_same)
  have run: "edit p g f w = (Inr (), ?w (case ?c of Some (TraderDoc t) \<Rightarrow>
      redis_setex (clock w) (trader_phone_key p) TRADER_TTL (TraderDoc (f t)) (redis w) | _ \<Rightarrow> redis w))"
    by (simp add: edit_def thenA_apply session_begin_def update_trader_def recache_def bindA_apply cache_read
        cache_trader_by_phone_def cache_setex_def split: option.splits doc.splits)
  have at: "trader_at (?w r) q = (if q = p then map_option f (trader_at w p) else trader_at w q)" for r q
    by (rule trader_at_update [OF assms(2)])
  show ?thesis
  proof (cases "\<exists>t. ?c = Some (TraderDoc t)")
    case True
    then obtain t where t: "?c = Some (TraderDoc t)" by blast
    with coherent_read [OF assms(1)] have "trader_at w p = Some t" by (force simp: trader_doc_def split: option.splits)
    then have "coherent (?w (redis_setex (clock w) (trader_phone_key p) TRADER_TTL (TraderDoc (f t)) (redis w)))"
      using assms(1) wf by (auto simp: coherent_def at redis_get_setex trader_doc_def split: if_splits)
    with run t show ?thesis by auto
  next
    case False
    then have "trader_at w p = None" if "?c = Some d" for d
      using coherent_read [OF assms(1) that] that by (auto simp: trader_doc_def split: option.splits)
    then have "coherent (?w r)" if "r = redis w" for r
      unfolding coherent_def at using wf [of r] coherent_read [OF assms(1)] that by (auto, metis)
    moreover have "edit p g f w = (Inr (), ?w (redis w))" using run False by (auto split: option.splits doc.splits)
    ultimately show ?thesis by blast
  qed
qed

lemma edit_coherent: "mirrors g f \<Longrightarrow> keeps (edit p g f) coherent"
  using edit_eq by (metis keepsI snd_conv)

text \<open>The changes of the program are mirrored: a catalogue without zero prices, the bank details, the category.\<close>

definition priced :: "(string \<times> int) list \<Rightarrow> bool" where
  "priced d \<longleftrightarrow> (\<forall>(n, p)\<in>set d. p \<noteq> 0)"

lemma mirrors_catalogue: "priced d \<Longrightarrow> mirrors (\<lambda>t. t\<lparr>td_onboarding_catalogue := Some (CatDict d)\<rparr>) (\<lambda>t. t\<lparr>tr_catalogue := d\<rparr>)"
  by (auto simp: mirrors_def trader_dict_def priced_def intro!: filter_True)

lemma mirrors_bank: "mirrors (\<lambda>t. t\<lparr>td_bank_name := Some a, td_bank_account_number := Some b, td_bank_account_name := Some c\<rparr>)
     (\<lambda>t. t\<lparr>tr_bank_name := a, tr_bank_account_number := b, tr_bank_account_name := c\<rparr>)"
  by (simp add: mirrors_def trader_dict_def or_empty_def)

lemma mirrors_category: "mirrors (\<lambda>t. t\<lparr>td_business_category := Some c\<rparr>) (\<lambda>t. t\<lparr>tr_business_category := c\<rparr>)"
  by (simp add: mirrors_def trader_dict_def or_empty_def)

lemma edits:
  "persist_catalogue p d = edit p (\<lambda>t. t\<lparr>td_onboarding_catalogue := Some (CatDict d)\<rparr>) (\<lambda>t. t\<lparr>tr_catalogue := d\<rparr>)"
  "save_bank_details p a b c = edit p (\<lambda>t. t\<lparr>td_bank_name := Some a, td_bank_account_number := Some b, td_bank_account_name := Some c\<rparr>)
     (\<lambda>t. t\<lparr>tr_bank_name := a, tr_bank_account_number := b, tr_bank_account_name := c\<rparr>)"
  by (simp_all add: edit_def persist_catalogue_def update_catalogue_def save_bank_details_def update_bank_details_def)

section \<open>Catalogues keep their form\<close>

lemma priced_simps [simp]: "priced []" "priced ((n, p) # d) \<longleftrightarrow> p \<noteq> 0 \<and> priced d"
  by (auto simp: priced_def)

lemma set_alist_update: "set (AList.update n p d) \<subseteq> insert (n, p) (set d)"
  by (induction d) auto

lemma priced_update: "priced d \<Longrightarrow> p \<noteq> 0 \<Longrightarrow> priced (AList.update n p d)"
  using set_alist_update [of n p d] by (auto simp: priced_def)

lemma priced_delete: "priced d \<Longrightarrow> priced (AList.delete n d)"
  by (auto simp: priced_def AList.delete_eq)

lemma priced_dict_of: "priced ps \<Longrightarrow> priced d \<Longrightarrow> priced (add_all ps d)"
  unfolding add_all_def by (induction ps arbitrary: d) (auto simp: priced_update)

lemma dict_of_add_all: "dict_of ps = add_all ps []"
  by (simp add: dict_of_def add_all_def)

lemma priced_parse: "priced (parse_catalogue c)"
proof (cases c rule: parse_catalogue.cases)
  case (3 ps)
  have "priced (filter (\<lambda>(n, p). n \<noteq> [] \<and> p \<noteq> 0) ps)" "priced []" by (auto simp: priced_def)
  with 3 show ?thesis by (simp add: dict_of_add_all priced_dict_of)
qed (auto simp: priced_def)

lemma priced_remove_each: "priced d \<Longrightarrow> priced (fst (remove_each ns d))"
  by (induction ns arbitrary: d) (auto simp: priced_delete Let_def case_prod_beta split: option.splits)

lemma priced_update_each: "priced ps \<Longrightarrow> priced d \<Longrightarrow> priced (fst (update_each ps d))"
  by (induction ps arbitrary: d) (auto simp: priced_update Let_def case_prod_beta split: option.splits)

lemma priced_merge: "priced ps \<Longrightarrow> priced d \<Longrightarrow> priced (fold merge_price ps d)"
  by (induction ps arbitrary: d) (auto simp: priced_update merge_price_def split: option.splits)

section \<open>Parsed items\<close>

definition positive :: "cart_item list \<Rightarrow> bool" where
  "positive its \<longleftrightarrow> (\<forall>it\<in>set its. \<exists>p>0. it_unit_price it = Some p)"

lemma positive_priced: "positive its \<Longrightarrow> priced (priced_names its)"
  by (auto simp: positive_def priced_def priced_names_def price_or_0_def split: option.splits)

lemma parsed_positive: "r = layer1 m \<Longrightarrow> pr_intent r = TRADER_ADD \<or> pr_intent r = TRADER_PRICE \<Longrightarrow> positive (pr_items r)"
  using layer1_shape_holds [of m] by (auto simp: layer1_shape_def positive_def)

lemma keeps_pair: "(\<And>a b. keeps (f a b) P) \<Longrightarrow> keeps (case x of (a, b) \<Rightarrow> f a b) P"
  by (cases x) simp

section \<open>Sequences of changes and look-ups\<close>

definition as_trader :: "command \<Rightarrow> (command \<Rightarrow> unit svc) \<Rightarrow> unit svc" where
  "as_trader cm act = bindA (get_trader_by_phone (cm_trader_phone cm)) (\<lambda>t. case t of
     None \<Rightarrow> ret () | Some t \<Rightarrow> act (cm\<lparr>cm_trader := t\<rparr>))"

datatype store_op = TypedCommand command | RemoveTap command string | AddAnswer command | PriceAnswer command payload
  | PricelistAnswer command payload | BankAnswer paystack command | BankConfirm command payload | CategoryTap command string
  | LookUp string | LookUpSlug string | LookUpTenant string | Elapse int

fun store_act :: "gateway \<Rightarrow> store_op \<Rightarrow> unit svc" where
  "store_act gw (TypedCommand cm) = as_trader cm (\<lambda>cm. catalogue_command gw cm (layer1 (cm_message cm)))"
| "store_act gw (RemoveTap cm name) = as_trader cm (\<lambda>cm. do_remove_product gw cm name)"
| "store_act gw (AddAnswer cm) = as_trader cm (add_answer gw)"
| "store_act gw (PriceAnswer cm ts) = as_trader cm (\<lambda>cm. price_answer gw cm ts)"
| "store_act gw (PricelistAnswer cm ts) = as_trader cm (\<lambda>cm. pricelist_answer gw cm ts)"
| "store_act gw (BankAnswer ps cm) = as_trader cm (bank_details_answer gw ps)"
| "store_act gw (BankConfirm cm ts) = as_trader cm (\<lambda>cm. bank_confirm_answer gw cm ts)"
| "store_act gw (CategoryTap cm cat) = as_trader cm (\<lambda>cm. do_change_category gw cm cat)"
| "store_act gw (LookUp phone) = thenA (get_trader_by_phone phone) (ret ())"
| "store_act gw (LookUpSlug slug) = thenA (get_trader_by_slug slug) (ret ())"
| "store_act gw (LookUpTenant tid) = thenA (get_trader_by_tenant tid) (ret ())"
| "store_act gw (Elapse s) = modA (pass_time s)"

text \<open>A price list read from a photo has positive prices, and time does not run backwards.\<close>

fun store_op_ok :: "store_op \<Rightarrow> bool" where
  "store_op_ok (PricelistAnswer cm ts) = priced (session_items ts)"
| "store_op_ok (Elapse s) = (0 \<le> s)"
| "store_op_ok _ = True"

section \<open>Invariants of the store\<close>

text \<open>
  What a predicate of the state has to satisfy to survive every change a trader makes to the store and every look-up: replies,
  dialogue sessions, a change mirrored in the cache, the look-ups and the passing of time keep it, and a trader that is
  looked up has a catalogue without zero prices.
\<close>

locale store_invariant =
  fixes P :: "world \<Rightarrow> bool"
  assumes quiet_keeps: "quiet m \<Longrightarrow> keeps (m :: unit svc) P"
    and session_keeps: "keeps (clear_trader_session p) P" "keeps (set_trader_session p d) P"
    and edit_keeps: "mirrors g f \<Longrightarrow> keeps (edit p g f) P"
    and phone_lookup: "P w \<Longrightarrow> \<exists>t w'. get_trader_by_phone p w = (Inr t, w') \<and> P w' \<and> (\<forall>x. t = Some x \<longrightarrow> priced (tr_catalogue x))"
    and lookup_keeps: "keeps (get_trader_by_slug s) P" "keeps (get_trader_by_tenant tid) P"
    and elapse_keeps: "0 \<le> sec \<Longrightarrow> keeps (modA (pass_time sec)) P"
begin

lemma reply_keeps: "keeps (reply gw ph t e m c) P" "keeps (reply_interactive gw ph t e m bs c ctx) P"
  by (rule quiet_keeps; simp)+

lemma persist_keeps: "priced d \<Longrightarrow> keeps (persist_catalogue p d) P"
  by (simp add: edits edit_keeps mirrors_catalogue)

lemma bank_keeps: "keeps (save_bank_details p a b c) P"
  by (simp add: edits edit_keeps mirrors_bank)

lemmas store_rules = keeps_thenA keeps_bindA keeps_if keeps_option keeps_pair session_keeps reply_keeps persist_keeps bank_keeps

lemma add_keeps: "positive its \<Longrightarrow> priced (tr_catalogue (cm_trader cm)) \<Longrightarrow> keeps (do_add_products gw cm its) P"
  unfolding do_add_products_def Let_def by (intro store_rules priced_dict_of positive_priced)

lemma remove_keeps: "priced (tr_catalogue (cm_trader cm)) \<Longrightarrow> keeps (do_remove_product gw cm name) P"
  unfolding do_remove_product_def Let_def by (intro store_rules priced_delete)

lemma removes_keeps: "priced (tr_catalogue (cm_trader cm)) \<Longrightarrow> keeps (do_remove_products gw cm names) P"
  using priced_remove_each [of "tr_catalogue (cm_trader cm)" names]
  unfolding do_remove_products_def by (cases "remove_each names (tr_catalogue (cm_trader cm))") (auto intro!: store_rules)

lemma price_keeps: "p \<noteq> 0 \<Longrightarrow> priced (tr_catalogue (cm_trader cm)) \<Longrightarrow> keeps (do_update_price gw cm name p) P"
  unfolding do_update_price_def Let_def by (intro store_rules priced_update)

lemma prices_keeps: "positive its \<Longrightarrow> priced (tr_catalogue (cm_trader cm)) \<Longrightarrow> keeps (do_update_prices gw cm its) P"
  using priced_update_each [OF positive_priced, of its "tr_catalogue (cm_trader cm)"]
  unfolding do_update_prices_def by (cases "update_each (priced_names its) (tr_catalogue (cm_trader cm))") (auto intro!: store_rules)

lemma command_keeps:
  "priced (tr_catalogue (cm_trader cm)) \<Longrightarrow> keeps (catalogue_command gw cm (layer1 m)) P"
  unfolding catalogue_command_def
  by (auto intro!: add_keeps prices_keeps removes_keeps parsed_positive [OF refl])

lemma answers_keeps:
  assumes "priced (tr_catalogue (cm_trader cm))"
  shows "keeps (add_answer gw cm) P" "keeps (price_answer gw cm ts) P"
    "priced (session_items ts) \<Longrightarrow> keeps (pricelist_answer gw cm ts) P"
    "keeps (bank_details_answer gw ps cm) P" "keeps (bank_confirm_answer gw cm ts) P" "keeps (do_change_category gw cm cat) P"
proof -
  have "positive (parse_add_items m)" for m using parse_add_items_schema by (fastforce simp: positive_def)
  then show "keeps (add_answer gw cm) P"
    unfolding add_answer_def Let_def by (intro store_rules add_keeps assms)
  show "keeps (price_answer gw cm ts) P"
    unfolding price_answer_def Let_def by (cases "first_number (cm_message cm)") (auto intro!: keeps_thenA session_keeps reply_keeps price_keeps assms split: if_split)
  show "priced (session_items ts) \<Longrightarrow> keeps (pricelist_answer gw cm ts) P"
    unfolding pricelist_answer_def Let_def by (intro store_rules priced_merge assms)
  show "keeps (bank_details_answer gw ps cm) P"
    unfolding bank_details_answer_def Let_def by (intro store_rules)
  show "keeps (bank_confirm_answer gw cm ts) P"
    unfolding bank_confirm_answer_def Let_def by (intro store_rules)
  have "do_change_category gw cm cat = thenA (edit (cm_trader_phone cm) (\<lambda>t. t\<lparr>td_business_category := Some cat\<rparr>) (\<lambda>t. t\<lparr>tr_business_category := cat\<rparr>))
      (to_trader gw cm (cm_event ''trader.category_changed'' cm)
         (Template ''category_changed'' [JStr (case map_of CATEGORY_DISPLAY_NAMES cat of Some d \<Rightarrow> d | None \<Rightarrow> cat)]))"
    by (rule ext) (simp add: do_change_category_def edit_def update_category_def thenA_apply split: prod.splits sum.splits)
  then show "keeps (do_change_category gw cm cat) P"
    by (simp add: keeps_thenA edit_keeps mirrors_category reply_keeps)
qed

lemma as_trader_keeps:
  assumes "\<And>cm. priced (tr_catalogue (cm_trader cm)) \<Longrightarrow> keeps (act cm) P"
  shows "keeps (as_trader cm act) P"
proof (rule keepsI)
  fix w assume "P w"
  from phone_lookup [OF this, of "cm_trader_phone cm"] obtain t w' where
    r: "get_trader_by_phone (cm_trader_phone cm) w = (Inr t, w')" "P w'" "\<forall>x. t = Some x \<longrightarrow> priced (tr_catalogue x)" by blast
  show "P (snd (as_trader cm act w))"
  proof (cases t)
    case (Some x)
    from keepsD [OF assms r(2), of "cm\<lparr>cm_trader := x\<rparr>"] r Some show ?thesis by (simp add: as_trader_def bindA_apply)
  qed (use r in \<open>simp add: as_trader_def bindA_apply\<close>)
qed

lemma lookup_keeps_phone: "keeps (get_trader_by_phone p) P"
  using phone_lookup [of _ p] by (metis keepsI snd_conv)

lemma store_act_keeps: "store_op_ok op \<Longrightarrow> keeps (store_act gw op) P"
  by (cases op) (auto intro!: as_trader_keeps command_keeps remove_keeps answers_keeps keeps_thenA lookup_keeps_phone lookup_keeps elapse_keeps)

lemma store_acts_keep: "P w \<Longrightarrow> list_all store_op_ok ops \<Longrightarrow> P (fold (\<lambda>op. exec (store_act gw op)) ops w)"
  by (induction ops arbitrary: w) (auto simp: exec_def dest: keepsD [OF store_act_keeps])

end

text \<open>The coherence of the cache is one.\<close>

lemma trader_at_priced: "trader_at w p = Some t \<Longrightarrow> priced (tr_catalogue t)"
  by (auto simp: trader_at_def completed_def trader_dict_def priced_parse split: option.splits if_splits)

lemma other_lookups_coherent: "keeps (get_trader_by_slug s) coherent" "keeps (get_trader_by_tenant tid) coherent"
  unfolding get_trader_by_slug_def get_trader_by_tenant_def remember_def get_trader_by_slug_cache_def get_trader_by_tenant_cache_def
    cache_trader_by_slug_def cache_trader_by_tenant_def cache_get_def trader_get_by_slug_def trader_get_by_tenant_def
  by (intro keeps_thenA keeps_bindA keeps_option keeps_getA keeps_liftE keeps_ret coherent_cache; simp)+

lemma redis_get_later: "t \<le> t' \<Longrightarrow> redis_get t' k r = Some d \<Longrightarrow> redis_get t k r = Some d"
  by (auto simp: redis_get_def alive_def split: option.splits if_splits)

lemma elapse_coherent: "0 \<le> s \<Longrightarrow> keeps (modA (pass_time s)) coherent"
proof (rule keeps_modA)
  fix w assume s: "0 \<le> s" and c: "coherent w"
  have at: "trader_at (pass_time s w) = trader_at w" by (simp add: fun_eq_iff trader_at_def pass_time_def)
  have "d = trader_doc (trader_at w phone)" if "redis_get (clock w + s) (trader_phone_key phone) (redis w) = Some d" for phone d
    by (rule coherent_read [OF c]) (rule redis_get_later [OF _ that], simp add: s)
  with c show "coherent (pass_time s w)" by (simp add: coherent_def at) (simp add: pass_time_def wf_traders_def)
qed

lemma phone_lookup_coherent:
  "coherent w \<Longrightarrow> \<exists>t w'. get_trader_by_phone p w = (Inr t, w') \<and> coherent w' \<and> (\<forall>x. t = Some x \<longrightarrow> priced (tr_catalogue x))"
  using get_trader_by_phone_eq [of w p] trader_at_priced [of w p] by blast

interpretation phone_cache: store_invariant coherent
  by unfold_locales (rule coherent_quiet coherent_sessions edit_coherent phone_lookup_coherent other_lookups_coherent elapse_coherent; assumption?)+

section \<open>What a command does to the catalogue\<close>

fun edited :: "intent \<Rightarrow> cart_item list \<Rightarrow> (string \<times> int) list \<Rightarrow> (string \<times> int) list" where
  "edited TRADER_ADD its d = add_all (priced_names its) d"
| "edited TRADER_REMOVE its d = fst (remove_each (map it_name its) d)"
| "edited TRADER_PRICE its d = fst (update_each (priced_names its) d)"
| "edited _ its d = d"

lemma update_none: "mirrors g f \<Longrightarrow> trader_at (w\<lparr>traders := update_where (\<lambda>t. td_phone_number t = p) g (traders w), redis := r\<rparr>) = (trader_at w)(p := map_option f (trader_at w p))"
  by (rule ext) (simp add: trader_at_update)

lemma trader_at_aside: "aside w w' \<Longrightarrow> trader_at w' = trader_at w"
  using core_traders [of w' w] by (simp add: aside_def trader_at_def fun_eq_iff)

lemma persist_then_reply:
  assumes "coherent w" and "priced d" and "quiet m"
  shows "\<exists>w'. thenA (persist_catalogue p d) m w = (Inr (), w') \<and> clock w' = clock w
     \<and> trader_at w' = (trader_at w)(p := map_option (\<lambda>t. t\<lparr>tr_catalogue := d\<rparr>) (trader_at w p))"
proof -
  from edit_eq [OF assms(1) mirrors_catalogue [OF assms(2)], of p] obtain r where
    r: "persist_catalogue p d w = (Inr (), w\<lparr>traders := update_where (\<lambda>t. td_phone_number t = p)
        (\<lambda>t. t\<lparr>td_onboarding_catalogue := Some (CatDict d)\<rparr>) (traders w), redis := r\<rparr>)" (is "_ = (_, ?w)")
    by (auto simp: edits)
  obtain x w' where w': "m ?w = (Inr x, w')" "aside ?w w'" using assms(3) by (rule quietE)
  have "trader_at w' = (trader_at w)(p := map_option (\<lambda>t. t\<lparr>tr_catalogue := d\<rparr>) (trader_at w p))"
    using trader_at_aside [OF w'(2)] by (simp add: update_none [OF mirrors_catalogue [OF assms(2)]])
  with r w' aside_fields(6) [OF w'(2)] show ?thesis by (simp add: thenA_apply)
qed

lemma remove_each_none: "fst (snd (remove_each ns d)) = [] \<Longrightarrow> fst (remove_each ns d) = d"
  by (induction ns arbitrary: d) (auto simp: Let_def case_prod_beta split: option.splits if_splits)

lemma update_each_none: "fst (snd (update_each ps d)) = [] \<Longrightarrow> fst (update_each ps d) = d"
  by (induction ps d rule: update_each.induct) (auto simp: Let_def case_prod_beta split: option.splits if_splits)

lemma quiet_same:
  assumes "quiet m" and "trader_at w p = Some t"
  shows "\<exists>w'. m w = (Inr (), w') \<and> clock w' = clock w \<and> trader_at w' = (trader_at w)(p := Some (t\<lparr>tr_catalogue := tr_catalogue t\<rparr>))"
proof -
  obtain x w' where "m w = (Inr x, w')" "aside w w'" using assms(1) by (rule quietE)
  with assms(2) trader_at_aside aside_fields(6) show ?thesis by (cases t) auto
qed

lemma catalogue_command_run:
  fixes cm :: command
  defines "d \<equiv> tr_catalogue (cm_trader cm)"
  assumes "coherent w" and t: "trader_at w (cm_trader_phone cm) = Some (cm_trader cm)"
    and pos: "pr_intent r = TRADER_ADD \<or> pr_intent r = TRADER_PRICE \<longrightarrow> positive (pr_items r)"
    and i: "pr_intent r \<in> {TRADER_ADD, TRADER_REMOVE, TRADER_PRICE}"
  shows "\<exists>w'. catalogue_command gw cm r w = (Inr (), w') \<and> clock w' = clock w
     \<and> trader_at w' = (trader_at w)(cm_trader_phone cm \<mapsto> (cm_trader cm)\<lparr>tr_catalogue := edited (pr_intent r) (pr_items r) d\<rparr>)"
proof -
  have d: "priced d" using trader_at_priced [OF t] by (simp add: d_def)
  note run = persist_then_reply [OF assms(2), where p = "cm_trader_phone cm"]
  from i consider (add) "pr_intent r = TRADER_ADD" | (remove) "pr_intent r = TRADER_REMOVE" | (price) "pr_intent r = TRADER_PRICE" by auto
  then show ?thesis
  proof cases
    case add
    with pos have "priced (add_all (priced_names (pr_items r)) d)" by (simp add: priced_dict_of positive_priced d)
    from run [OF this reply_quiet] add show ?thesis by (simp add: catalogue_command_def do_add_products_def Let_def t d_def)
  next
    case remove
    let ?x = "remove_each (map it_name (pr_items r)) d"
    have p: "priced (fst ?x)" by (rule priced_remove_each [OF d])
    show ?thesis
    proof (cases "fst (snd ?x) = []")
      case True
      with remove_each_none [OF this] quiet_same [OF reply_quiet t] remove show ?thesis
        by (simp add: catalogue_command_def do_remove_products_def case_prod_beta d_def)
    next
      case False
      with run [OF p reply_quiet] remove show ?thesis
        by (simp add: catalogue_command_def do_remove_products_def case_prod_beta t d_def)
    qed
  next
    case price
    let ?x = "update_each (priced_names (pr_items r)) d"
    have p: "priced (fst ?x)" using pos price by (intro priced_update_each positive_priced d) simp
    show ?thesis
    proof (cases "fst (snd ?x) = []")
      case True
      with update_each_none [OF this] quiet_same [OF reply_quiet t] price show ?thesis
        by (simp add: catalogue_command_def do_update_prices_def case_prod_beta d_def)
    next
      case False
      with run [OF p reply_quiet] price show ?thesis
        by (simp add: catalogue_command_def do_update_prices_def case_prod_beta t d_def)
    qed
  qed
qed




















section \<open>Properties\<close>

text \<open>
  C23: the cached identity of a trader is transparent. Whatever traders do to their catalogues, bank details and categories,
  whatever is looked up in between and however much time passes, looking a phone number up through the cache
  returns what the database holds for it: the entry is rewritten with every change, and an expired one is read anew.
\<close>

theorem phone_cache_transparent:
  fixes gw :: gateway
  assumes "coherent w" and "list_all store_op_ok ops"
  defines "w' \<equiv> fold (\<lambda>op. exec (store_act gw op)) ops w"
  shows "\<exists>r. get_trader_by_phone phone w' = (Inr (trader_at w' phone), w'\<lparr>redis := r\<rparr>)"
  using get_trader_by_phone_eq [OF phone_cache.store_acts_keep [OF assms(1,2)], of phone gw] by (auto simp: w'_def)


text \<open>
  A new product can be shadowed by an older one. Orders are priced by the first entry one of whose names contains the
  other, and ADD appends: when the catalogue already prices the new name in that way, ADD stores the new
  price, and yet an order for exactly that name is still charged the price of the older product.
\<close>

theorem added_product_shadowed:
  assumes "coherent w" and "trader_at w (cm_trader_phone cm) = Some (cm_trader cm)"
    and "layer1 m = result TRADER_ADD [item n 1 (Some p)] c"
    and "map_of (tr_catalogue (cm_trader cm)) n = None" and "matched_price (tr_catalogue (cm_trader cm)) n = Some q"
  shows "\<exists>w' t'. catalogue_command gw cm (layer1 m) w = (Inr (), w') \<and> trader_at w' (cm_trader_phone cm) = Some t'
     \<and> map_of (tr_catalogue t') n = Some p \<and> matched_price (tr_catalogue t') n = Some q"
proof -
  let ?d = "tr_catalogue (cm_trader cm)"
  have r: "pr_intent (layer1 m) = TRADER_ADD" "pr_items (layer1 m) = [item n 1 (Some p)]" by (simp_all add: assms(3) result_def)
  have pos: "positive (pr_items (layer1 m))" using parsed_positive [OF refl] r(1) by blast
  have "AList.update n p d = d @ [(n, p)]" if "map_of d n = None" for d :: "(string \<times> int) list"
    using that by (induction d) (auto split: if_splits)
  note u = this [OF assms(4)]
  have "find P (xs @ ys) = Some x" if "find P xs = Some x" for P x and xs ys :: "(string \<times> int) list"
    using that by (induction xs) (auto split: if_splits)
  then have "matched_price (AList.update n p ?d) n = Some q"
    using assms(5) unfolding u matched_price_def by fastforce
  moreover have "edited TRADER_ADD [item n 1 (Some p)] ?d = AList.update n p ?d"
    by (simp add: add_all_def priced_names_def item_def price_or_0_def)
  moreover have "\<exists>w'. catalogue_command gw cm (layer1 m) w = (Inr (), w')
     \<and> trader_at w' = (trader_at w)(cm_trader_phone cm \<mapsto> (cm_trader cm)\<lparr>tr_catalogue := edited TRADER_ADD [item n 1 (Some p)] ?d\<rparr>)"
    using catalogue_command_run [OF assms(1,2), of "layer1 m" gw] pos r by auto
  ultimately show ?thesis by (auto simp: AList.update_conv)
qed

section \<open>Examples\<close>

definition mama_caro :: "(string \<times> int) list \<Rightarrow> world" where
  "mama_caro d = empty_world\<lparr>traders := [(example_trader ''080'' ''mama-caro'')\<lparr>td_onboarding_catalogue := Some (CatDict d)\<rparr>]\<rparr>"

definition says :: "(string \<times> int) list \<Rightarrow> string \<Rightarrow> command" where
  "says d msg = \<lparr>cm_tenant_id = ''t1'', cm_trader_phone = ''080'', cm_message = msg, cm_message_id = ''m1'',
     cm_trader = trader_dict ((example_trader ''080'' ''mama-caro'')\<lparr>td_onboarding_catalogue := Some (CatDict d)\<rparr>), cm_channel_tenant_id = None\<rparr>"

lemma mama_caro_coherent: "coherent (mama_caro d)"
  by (simp add: coherent_def mama_caro_def wf_traders_def empty_world_def redis_get_def empty_redis_def)

lemma mama_caro_at: "trader_at (mama_caro d) ''080'' = Some (cm_trader (says d m))" "cm_trader_phone (says d m) = ''080''"
  by (simp_all add: trader_at_def mama_caro_def example_trader_def completed_def says_def)

lemma says_catalogue: "tr_catalogue (cm_trader (says [(''Milo 400g'', 3500)] m)) = [(''Milo 400g'', 3500)]"
  by (simp add: says_def trader_dict_def)

theorem phone_cache_transparent_witness:
  "let ops = [LookUp ''080'', TypedCommand (says [] ''ADD Milo 3500''), Elapse 5, CategoryTap (says [] []) ''food'', LookUpSlug ''mama-caro''];
       w' = fold (\<lambda>op. exec (store_act open_gateway op)) ops (mama_caro [])
   in \<exists>r. get_trader_by_phone ''080'' w' = (Inr (trader_at w' ''080''), w'\<lparr>redis := r\<rparr>)"
  using phone_cache_transparent [OF mama_caro_coherent, of "[LookUp ''080'', TypedCommand (says [] ''ADD Milo 3500''), Elapse 5,
      CategoryTap (says [] []) ''food'', LookUpSlug ''mama-caro'']" "''080''" open_gateway "[]"] by (simp add: Let_def)


theorem added_product_shadowed_witness:
  "\<exists>w' t'. catalogue_command open_gateway (says [(''Milo 400g'', 3500)] []) (layer1 ''ADD Milo 200'') (mama_caro [(''Milo 400g'', 3500)]) = (Inr (), w')
     \<and> trader_at w' ''080'' = Some t' \<and> map_of (tr_catalogue t') ''Milo'' = Some 200 \<and> matched_price (tr_catalogue t') ''Milo'' = Some 3500"
proof -
  let ?d = "[(''Milo 400g'', 3500)]"
  have r: "layer1 ''ADD Milo 200'' = result TRADER_ADD [item ''Milo'' 1 (Some 200)] 1" by code_simp
  have q: "matched_price ?d ''Milo'' = Some 3500" by code_simp
  have at: "trader_at (mama_caro ?d) (cm_trader_phone (says ?d [])) = Some (cm_trader (says ?d []))"
    by (simp add: mama_caro_at(1) [of _ "[]"] mama_caro_at(2))
  have "map_of (tr_catalogue (cm_trader (says ?d []))) ''Milo'' = None" "matched_price (tr_catalogue (cm_trader (says ?d []))) ''Milo'' = Some 3500"
    by (simp_all add: says_catalogue q)
  from added_product_shadowed [OF mama_caro_coherent at r this, of open_gateway] show ?thesis by (simp add: mama_caro_at(2))
qed

end
