(* ===== verification/Order_Routing.thy ===== *)
theory Order_Routing
  imports Catalogue
begin

text \<open>
  How a customer's message finds its trader (\<open>orders/handlers.py\<close>): the cart message a store page composes, the
  routing session it leaves in Redis and in the database, the trader of a tenant with its own WhatsApp number, and
  the way back to a trader after the session has expired. Messages of store owners, voice notes and pictures take
  other routes, which end before this one begins.
\<close>

section \<open>The cart message\<close>

text \<open>\<open>str.splitlines\<close> on the characters of Latin-1 that end a line.\<close>

definition is_line_end :: "char \<Rightarrow> bool" where
  "is_line_end c \<longleftrightarrow> c \<in> {CHR 0x0A, CHR 0x0B, CHR 0x0C, CHR 0x0D, CHR 0x1C, CHR 0x1D, CHR 0x1E, CHR 0x85}"

definition ORDER_PREFIX_RE :: rx where
  "ORDER_PREFIX_RE = Seq (lit ''ORDER:'') (Grp 1 (plus (Cls (\<lambda>c. is_ascii_alpha c \<or> is_digit c \<or> c = CHR ''_'' \<or> c = CHR ''-''))))"

definition CART_ITEM_RE :: rx where
  "CART_ITEM_RE = seq [Grp 1 (plus_lazy dot), spaces1, Cls (\<lambda>c. c = CHR ''x'' \<or> c = CHR ''X''), Grp 2 (plus digit), spaces0, Eos]"

definition cart_line :: "string \<Rightarrow> (string \<times> int) list" where
  "cart_line line = (case re_match CART_ITEM_RE line of None \<Rightarrow> []
     | Some m \<Rightarrow> (let name = strip (group 1 m); qty = digits_val (group 2 m) in if name \<noteq> [] \<and> 0 < qty then [(name, qty)] else []))"

definition parse_cart_message :: "string \<Rightarrow> string option \<times> (string \<times> int) list" where
  "parse_cart_message message = (case filter (\<lambda>l. l \<noteq> []) (map strip (split_on is_line_end (strip message))) of
     [] \<Rightarrow> (None, [])
   | l # ls \<Rightarrow> (case re_match ORDER_PREFIX_RE l of None \<Rightarrow> (None, [])
       | Some m \<Rightarrow> (Some (lower (group 1 m)), concat (map cart_line ls))))"

section \<open>The routes\<close>

record envelope =
  en_platform_tenant :: string
  en_sender :: string
  en_sender_name :: "string option"
  en_message :: string
  en_message_id :: string
  en_conversation_id :: string

definition inbound_for :: "envelope \<Rightarrow> string \<Rightarrow> trader \<Rightarrow> string option \<Rightarrow> inbound" where
  "inbound_for en tid t ctid = \<lparr>ib_tenant_id = tid, ib_conversation_id = en_conversation_id en, ib_customer_phone = en_sender en,
     ib_message = en_message en, ib_message_id = en_message_id en, ib_trader = t, ib_channel_tenant_id = ctid,
     ib_customer_name = en_sender_name en\<rparr>"

definition routing_doc :: "string \<Rightarrow> trader \<Rightarrow> doc" where
  "routing_doc slug t = RoutingDoc slug (tr_tenant_id t) (tr_phone_number t) (tr_business_name t) (tr_catalogue t)"

definition cart_route :: "gateway \<Rightarrow> envelope \<Rightarrow> string \<Rightarrow> (string \<times> int) list \<Rightarrow> unit svc" where
  "cart_route gw en slug cart = bindA (get_trader_by_slug slug) (\<lambda>t. case t of None \<Rightarrow> ret ()
     | Some t \<Rightarrow> if tr_tenant_id t = [] then ret () else
         thenA (set_customer_routing (en_sender en) (routing_doc slug t))
         (thenA (tryA (session_begin (route_upsert (en_sender en) (tr_phone_number t) slug (tr_tenant_id t))) (\<lambda>_. ret ()))
         (if cart = [] then handler_session (reply gw (en_sender en) (tr_tenant_id t) (''order.cart_empty.'' @ en_message_id en)
              (Template ''unknown_order_prompt'' []) (Some (en_platform_tenant en)))
          else handler_session (handle_cart_order gw (inbound_for en (tr_tenant_id t) t (Some (en_platform_tenant en))) cart))))"

text \<open>The trader a routing session describes: without category, slug and bank details.\<close>

definition routed_trader :: "string \<Rightarrow> string \<Rightarrow> string \<Rightarrow> (string \<times> int) list \<Rightarrow> trader" where
  "routed_trader tid phone name cat = \<lparr>tr_business_name = name, tr_business_category = [], tr_catalogue = cat, tr_phone_number = phone,
     tr_tenant_id = tid, tr_store_slug = [], tr_bank_name = [], tr_bank_account_number = [], tr_bank_account_name = []\<rparr>"

definition no_context :: "gateway \<Rightarrow> envelope \<Rightarrow> unit svc" where
  "no_context gw en = handler_session (reply gw (en_sender en) (en_platform_tenant en) (''order.no_context.'' @ en_message_id en)
     (Template ''store_order_prompt'' []) None)"

definition hear :: "gateway \<Rightarrow> llm \<Rightarrow> envelope \<Rightarrow> string \<Rightarrow> trader \<Rightarrow> string option \<Rightarrow> unit svc" where
  "hear gw l en tid t ctid = handler_session (handle_inbound_customer_message gw l (inbound_for en tid t ctid))"

text \<open>The way back through the database; it answers whether the message was handled, and an exception counts as not.\<close>

definition restore_route :: "gateway \<Rightarrow> llm \<Rightarrow> envelope \<Rightarrow> bool svc" where
  "restore_route gw l en = tryA (bindA (route_get_by_customer (en_sender en)) (\<lambda>r. case r of None \<Rightarrow> ret False
     | Some r \<Rightarrow> bindA (get_trader_by_slug (cr_store_slug r)) (\<lambda>t. case t of None \<Rightarrow> ret False
         | Some t \<Rightarrow> if tr_tenant_id t = [] then ret False else
             thenA (set_customer_routing (en_sender en) (routing_doc (cr_store_slug r) t))
             (thenA (hear gw l en (tr_tenant_id t) t (Some (en_platform_tenant en))) (ret True)))))
     (\<lambda>_. ret False)"

definition route_customer :: "gateway \<Rightarrow> llm \<Rightarrow> envelope \<Rightarrow> unit svc" where
  "route_customer gw l en = (case parse_cart_message (en_message en) of
     (Some slug, cart) \<Rightarrow> cart_route gw en slug cart
   | (None, _) \<Rightarrow> bindA (get_customer_routing (en_sender en)) (\<lambda>routing. case routing of
       Some (RoutingDoc slug tid phone name cat) \<Rightarrow> hear gw l en tid (routed_trader tid phone name cat) (Some (en_platform_tenant en))
     | _ \<Rightarrow> bindA (get_trader_by_tenant (en_platform_tenant en)) (\<lambda>t. case t of
         Some t \<Rightarrow> hear gw l en (en_platform_tenant en) t None
       | None \<Rightarrow> bindA (restore_route gw l en) (\<lambda>handled. if handled then ret () else no_context gw en))))"

section \<open>The copy of a store under its slug\<close>

definition slug_copy :: "string \<Rightarrow> doc \<Rightarrow> timestamp \<Rightarrow> world \<Rightarrow> bool" where
  "slug_copy slug d ex w \<longleftrightarrow> ex \<le> clock w \<or> kv (redis w) (trader_slug_key slug) = Some (d, Some ex)"

lemma slug_key_inj [simp]: "trader_slug_key a = trader_slug_key b \<longleftrightarrow> a = b"
  by (simp add: trader_slug_key_def)

lemma keeps_conj: "keeps m P \<Longrightarrow> keeps m Q \<Longrightarrow> keeps m (\<lambda>w. P w \<and> Q w)"
  by (simp add: keeps_def)

lemma copy_quiet: "quiet m \<Longrightarrow> keeps m (slug_copy slug d ex)"
proof (rule keepsI)
  fix w assume "quiet m" and c: "slug_copy slug d ex w"
  then obtain x w' where "m w = (Inr x, w')" "aside w w'" using quietE by blast
  with c show "slug_copy slug d ex (snd (m w))" by (simp add: slug_copy_def aside_fields)
qed

lemma copy_cache:
  "k \<noteq> trader_slug_key slug \<Longrightarrow> keeps (cache_setex k ttl v) (slug_copy slug d ex)"
  "k \<noteq> trader_slug_key slug \<Longrightarrow> keeps (cache_delete k) (slug_copy slug d ex)"
  by (auto intro!: keepsI simp: slug_copy_def cache_setex_def cache_delete_def redis_setex_def redis_delete_def)

lemma copy_edit: "keeps (edit p g f) (slug_copy slug d ex)"
proof -
  have "keeps (session_begin (update_trader p g)) (slug_copy slug d ex)"
    by (rule keepsI) (simp add: session_begin_def update_trader_def slug_copy_def)
  moreover have "keeps (case c of Some (TraderDoc t) \<Rightarrow> cache_trader_by_phone p (TraderDoc (f t)) | _ \<Rightarrow> ret ()) (slug_copy slug d ex)" for c
    by (auto simp: cache_trader_by_phone_def intro!: copy_cache split: option.splits doc.splits)
  ultimately show ?thesis unfolding edit_def recache_def get_trader_by_phone_cache_def cache_get_def
    by (intro keeps_thenA keeps_bindA keeps_getA)
qed

lemma copy_phone: "keeps (get_trader_by_phone p) (slug_copy slug d ex)"
  unfolding get_trader_by_phone_def get_trader_by_phone_cache_def cache_get_def trader_get_by_phone_def remember_def cache_trader_by_phone_def
  by (intro keeps_bindA keeps_option keeps_thenA copy_cache keeps_getA keeps_ret keeps_liftE other_keys)

lemma copy_tenant: "keeps (get_trader_by_tenant tid) (slug_copy slug d ex)"
  unfolding get_trader_by_tenant_def get_trader_by_tenant_cache_def cache_get_def trader_get_by_tenant_def remember_def cache_trader_by_tenant_def
  by (intro keeps_bindA keeps_option keeps_thenA copy_cache keeps_getA keeps_ret keeps_liftE other_keys)

lemma slug_hit:
  assumes "redis_get (clock w) (trader_slug_key slug) (redis w) = Some v"
  shows "get_trader_by_slug slug w = (Inr (cached_trader v), w)"
  using assms by (simp add: get_trader_by_slug_def get_trader_by_slug_cache_def cache_get_def bindA_apply)

lemma copy_slug: "keeps (get_trader_by_slug s) (slug_copy slug d ex)"
proof (cases "s = slug")
  case False
  then show ?thesis
    unfolding get_trader_by_slug_def get_trader_by_slug_cache_def cache_get_def trader_get_by_slug_def remember_def cache_trader_by_slug_def
    by (intro keeps_bindA keeps_option keeps_thenA copy_cache keeps_getA keeps_ret keeps_liftE) simp_all
next
  case True
  show ?thesis
  proof (rule keepsI)
    fix w assume c: "slug_copy slug d ex w"
    show "slug_copy slug d ex (snd (get_trader_by_slug s w))"
    proof (cases "ex \<le> clock w")
      case True
      have "clock (snd (get_trader_by_slug s w)) = clock w"
        by (auto simp: get_trader_by_slug_def get_trader_by_slug_cache_def cache_get_def trader_get_by_slug_def remember_def
            cache_trader_by_slug_def cache_setex_def bindA_apply thenA_apply split: option.splits sum.splits)
      with True show ?thesis by (simp add: slug_copy_def)
    next
      case False
      with c have "redis_get (clock w) (trader_slug_key slug) (redis w) = Some d" by (simp add: slug_copy_def redis_get_def alive_def)
      with c show ?thesis by (simp add: \<open>s = slug\<close> slug_hit)
    qed
  qed
qed

lemma copy_elapse: "0 \<le> sec \<Longrightarrow> keeps (modA (pass_time sec)) (slug_copy slug d ex)"
  by (rule keeps_modA) (auto simp: slug_copy_def pass_time_def)

lemma copy_sessions: "keeps (clear_trader_session p) (slug_copy slug d ex)" "keeps (set_trader_session p v) (slug_copy slug d ex)"
  unfolding clear_trader_session_def set_trader_session_def by (rule copy_cache, simp)+

interpretation slug_cache: store_invariant "\<lambda>w. coherent w \<and> slug_copy slug d ex w" for slug d ex
proof (unfold_locales, goal_cases)
  case (5 w p)
  then obtain t w' where "get_trader_by_phone p w = (Inr t, w')" "coherent w'" "\<forall>x. t = Some x \<longrightarrow> priced (tr_catalogue x)"
    using phone_lookup_coherent by blast
  with 5 keepsD [OF copy_phone, of slug d ex w p] show ?case by auto
qed (rule keeps_conj; (rule coherent_sessions copy_sessions other_lookups_coherent copy_slug copy_tenant copy_edit edit_coherent
      elapse_coherent copy_elapse coherent_quiet copy_quiet; assumption?))+

section \<open>Reading a cart back\<close>

definition cart_tail :: rx where
  "cart_tail = seq [spaces1, Cls (\<lambda>c. c = CHR ''x'' \<or> c = CHR ''X''), Grp 2 (plus digit), spaces0, Eos]"

lemma cart_tail_form:
  assumes "st' \<in> set (runs cart_tail (pr, s, g))"
  shows "\<exists>u d v. s = u @ d @ v \<and> list_all is_space u \<and> list_all (\<lambda>c. \<not> is_space c) d \<and> list_all is_space v"
proof -
  have nl: "is_space (CHR 0x0A)" by (simp add: is_space_def)
  have x: "\<not> is_space (CHR ''x'')" "\<not> is_space (CHR ''X'')" by (simp_all add: is_space_def)
  from assms obtain st1 st2 st3 st4 where st1: "st1 \<in> set (runs (plus (Cls is_space)) (pr, s, g))"
    and st2: "st2 \<in> set (cls_runs (\<lambda>c. c = CHR ''x'' \<or> c = CHR ''X'') st1)"
    and st3: "st3 \<in> set (grp_runs 2 (runs (plus digit)) st2)" and st4: "st4 \<in> set (runs spaces0 st3)" and st': "st' \<in> set (runs Eos st4)"
    by (auto simp: cart_tail_def spaces1_def space_def)
  from plus_cls_split [OF st1] obtain u v where u: "s = u @ v" "list_all is_space u" "snd st1 = (v, g)" by blast
  with st2 obtain c cs where c: "v = c # cs" "\<not> is_space c" "st2 = (Some c, cs, g)"
    using x by (cases st1; cases v) (auto split: if_splits)
  from st3 obtain st3' where st3': "st3' \<in> set (runs (plus (Cls is_digit)) st2)" "fst (snd st3) = fst (snd st3')" by (auto simp: grp_runs_def digit_def)
  from plus_cls_split [OF st3'(1) [unfolded c(3)]] obtain d y where d: "cs = d @ y" "list_all is_digit d" "fst (snd st3') = y" by auto
  from st4 have "st4 \<in> set (star_runs True (cls_runs is_space) (length (fst (snd st3))) (fst st3, fst (snd st3), snd (snd st3)))"
    by (simp add: spaces0_def space_def)
  from star_cls_split [OF this] obtain a z where a: "fst (snd st3) = a @ z" "list_all is_space a" "fst (snd st4) = z" by auto
  have "z = [] \<or> z = [CHR 0x0A]" using st' a(3) by (auto split: if_splits)
  then have "list_all is_space (a @ z)" using a(2) nl by auto
  moreover have "list_all (\<lambda>c. \<not> is_space c) (c # d)" using c(2) d(2) digit_not_space by (auto simp: list_all_iff)
  moreover have "s = u @ (c # d) @ (a @ z)" using u c(1) d(1,3) st3'(2) a(1) by simp
  ultimately show ?thesis using u(2) by blast
qed

lemma cart_tail_number:
  assumes "list_all is_digit ds" and "ds \<noteq> []"
  shows "\<exists>p rest. runs cart_tail (pr, '' x'' @ ds, g) = (p, [], (2, ds) # g) # rest"
proof -
  obtain d es where ds: "ds = d # es" "is_digit d" "list_all is_digit es" using assms by (cases ds) auto
  have sp: "runs spaces1 (pr, CHR '' '' # CHR ''x'' # ds, g) = [(Some (CHR '' ''), CHR ''x'' # ds, g)]"
    by (simp add: spaces1_def plus_def space_def Let_def is_space_def)
  obtain rest where "star_runs True (cls_runs is_digit) (length es) (Some d, es @ [], g)
      = (if es = [] then Some d else Some (last es), [], g) # rest"
    using star_cls_greedy [of is_digit es "[]" "length es" "Some d" g] ds(3) by auto
  then obtain p rest' where "grp_runs 2 (runs (plus digit)) (Some (CHR ''x''), ds, g) = (p, [], (2, ds) # g) # rest'"
    using ds(1,2) by (auto simp: grp_runs_def plus_def digit_def)
  then show ?thesis by (auto simp: cart_tail_def sp spaces0_def)
qed

text \<open>A product name a cart can carry: one line, no space at either end.\<close>

definition cart_name :: "string \<Rightarrow> bool" where
  "cart_name n \<longleftrightarrow> n \<noteq> [] \<and> \<not> is_space (hd n) \<and> \<not> is_space (last n) \<and> (\<forall>c\<in>set n. \<not> is_line_end c)"

definition show_line :: "string \<times> nat \<Rightarrow> string" where
  "show_line e = fst e @ '' x'' @ show_nat (snd e)"

lemma cart_line_show:
  assumes "cart_name n" and "0 < q"
  shows "cart_line (show_line (n, q)) = [(n, int q)]"
proof -
  have n: "n \<noteq> []" "CHR 0x0A \<notin> set n" "strip n = n" using assms(1) by (auto simp: cart_name_def is_line_end_def strip_id)
  have last: "\<not> is_space (last (CHR ''x'' # show_nat q))" using last_show_nat [of q] by simp
  have "runs cart_tail (p, y @ '' x'' @ show_nat q, g) = []" if "n = x @ y" "y \<noteq> []" for x y p g
  proof (rule ccontr)
    assume "runs cart_tail (p, y @ '' x'' @ show_nat q, g) \<noteq> []"
    then obtain st' where "st' \<in> set (runs cart_tail (p, y @ '' x'' @ show_nat q, g))" by (meson list.set_sel(1))
    then have "st' \<in> set (runs cart_tail (p, y @ CHR '' '' # (CHR ''x'' # show_nat q), g))" by simp
    from cart_tail_form [OF this] spaced_form_unique [OF that(2) _ _ last] that assms(1) show False by (auto simp: cart_name_def)
  qed
  moreover have "\<exists>r rest. runs cart_tail (p, '' x'' @ show_nat q, [(1, n)]) = (r, [], [(2, show_nat q), (1, n)]) # rest" for p
    using cart_tail_number [OF show_nat_digits show_nat_nonempty] by blast
  ultimately have "\<exists>r rest. runs (Seq (Grp 1 (plus_lazy dot)) cart_tail) (None, n @ '' x'' @ show_nat q, []) = (r, [], [(2, show_nat q), (1, n)]) # rest"
    using n by (intro lazy_name_match) auto
  then have "\<exists>st. re_match CART_ITEM_RE (show_line (n, q)) = Some st \<and> group 1 st = n \<and> group 2 st = show_nat q"
    by (auto simp: re_match_def group_def CART_ITEM_RE_def cart_tail_def show_line_def)
  with n assms(2) show ?thesis by (auto simp: cart_line_def digits_val_show_nat)
qed

definition show_cart :: "string \<Rightarrow> (string \<times> nat) list \<Rightarrow> string" where
  "show_cart slug cart = ''ORDER:'' @ slug @ concat (map (\<lambda>e. CHR 0x0A # show_line e) cart)"

lemma split_lines:
  assumes "\<forall>s\<in>set (x # ys). \<forall>c\<in>set s. \<not> p c" and "p e"
  shows "split_acc p acc (x @ concat (map (\<lambda>y. e # y) ys)) = (acc @ x) # ys"
  using assms(1)
proof (induction ys arbitrary: x acc)
  case Nil
  then show ?case using split_acc_plain [of x p acc "[]"] by simp
next
  case (Cons y ys)
  then show ?case using split_acc_plain [of x p acc "e # y @ concat (map (\<lambda>y. e # y) ys)"] assms(2) Cons.IH [of y "[]"] by simp
qed

lemma slug_char:
  assumes "is_slug_char c"
  shows "lower_char c = c" "\<not> is_space c" "\<not> is_line_end c" "is_ascii_alpha c \<or> is_digit c \<or> c = CHR ''_'' \<or> c = CHR ''-''"
  using assms by (auto simp: is_slug_char_def lower_char_def is_space_def is_line_end_def is_ascii_alpha_def is_digit_def less_eq_char_def Let_def)

lemma prefix_match:
  assumes "slug \<noteq> []" and "list_all is_slug_char slug"
  shows "\<exists>st. re_match ORDER_PREFIX_RE (''ORDER:'' @ slug) = Some st \<and> group 1 st = slug"
proof -
  let ?p = "\<lambda>c. is_ascii_alpha c \<or> is_digit c \<or> c = CHR ''_'' \<or> c = CHR ''-''"
  obtain c cs where c: "slug = c # cs" using assms(1) by (cases slug) auto
  have p: "list_all ?p slug" using assms(2) slug_char(4) by (auto simp: list_all_iff)
  obtain rest where "star_runs True (cls_runs ?p) (length cs) (Some c, cs @ [], []) = (if cs = [] then Some c else Some (last cs), [], []) # rest"
    using star_cls_greedy [of ?p cs "[]" "length cs" "Some c" "[]"] p c by auto
  then obtain q rest' where "grp_runs 1 (runs (plus (Cls ?p))) (Some (CHR '':''), slug, []) = (q, [], [(1, slug)]) # rest'"
    using p c by (auto simp: grp_runs_def plus_def)
  then show ?thesis by (auto simp: re_match_def ORDER_PREFIX_RE_def chr_def group_def)
qed

lemma line_ends:
  assumes "cart_name n"
  shows "show_line (n, q) \<noteq> []" "strip (show_line (n, q)) = show_line (n, q)" "\<forall>c\<in>set (show_line (n, q)). \<not> is_line_end c"
    "\<not> is_space (last (show_line (n, q)))"
proof -
  have n: "n \<noteq> []" "\<not> is_space (hd n)" "\<forall>c\<in>set n. \<not> is_line_end c" using assms by (auto simp: cart_name_def)
  have "\<not> is_line_end c" if "c \<in> set (show_nat q)" for c
    using show_nat_digits [of q] that by (force simp: list_all_iff is_digit_def is_line_end_def)
  then show "\<forall>c\<in>set (show_line (n, q)). \<not> is_line_end c" using n by (auto simp: show_line_def is_line_end_def)
  show l: "\<not> is_space (last (show_line (n, q)))" using last_show_nat [of q] by (simp add: show_line_def)
  show "show_line (n, q) \<noteq> []" by (simp add: show_line_def)
  show "strip (show_line (n, q)) = show_line (n, q)" using n l by (intro strip_id) (auto simp: show_line_def)
qed

text \<open>
  C26: a cart survives the message. For any store slug and any list of product names (on one line, without spaces at the ends)
  with positive quantities, reading the message a store page composes, "ORDER:slug" and one line "name xquantity" for each product,
  gives back the slug and exactly those products and quantities in order.
\<close>

theorem cart_message_roundtrip:
  assumes "slug \<noteq> []" and "list_all is_slug_char slug" and "\<forall>(n, q)\<in>set cart. cart_name n \<and> 0 < q"
  shows "parse_cart_message (show_cart slug cart) = (Some slug, map (\<lambda>(n, q). (n, int q)) cart)"
proof -
  let ?h = "''ORDER:'' @ slug" and ?ls = "map show_line cart"
  have sc: "\<forall>c\<in>set slug. \<not> is_space c \<and> \<not> is_line_end c \<and> lower_char c = c" using assms(2) slug_char by (auto simp: list_all_iff)
  have head: "\<forall>c\<in>set ?h. \<not> is_line_end c" "?h \<noteq> []" "\<not> is_space (hd ?h)" "\<not> is_space (last ?h)"
    using sc assms(1) by (auto simp: is_line_end_def is_space_def)
  have lines: "\<forall>l\<in>set ?ls. l \<noteq> [] \<and> strip l = l \<and> (\<forall>c\<in>set l. \<not> is_line_end c) \<and> \<not> is_space (last l)"
  proof
    fix l assume "l \<in> set ?ls"
    then obtain n q where l: "(n, q) \<in> set cart" "l = show_line (n, q)" by auto
    then have "cart_name n" using assms(3) by auto
    from line_ends [OF this, of q] show "l \<noteq> [] \<and> strip l = l \<and> (\<forall>c\<in>set l. \<not> is_line_end c) \<and> \<not> is_space (last l)" by (simp only: l) simp
  qed
  have msg: "show_cart slug cart = ?h @ concat (map (\<lambda>y. CHR 0x0A # y) ?ls)" by (simp add: show_cart_def comp_def)
  have "\<not> is_space (last (?h @ concat (map (\<lambda>y. CHR 0x0A # y) ls)))" if "\<forall>l\<in>set ls. l \<noteq> [] \<and> \<not> is_space (last l)" for ls
    using that head(4) by (induction ls rule: rev_induct) auto
  from this [of ?ls] lines have "\<not> is_space (last (show_cart slug cart))" unfolding msg by blast
  moreover have "show_cart slug cart \<noteq> []" "\<not> is_space (hd (show_cart slug cart))" by (simp_all add: show_cart_def is_space_def)
  ultimately have "strip (show_cart slug cart) = show_cart slug cart" by (intro strip_id)
  moreover have "split_on is_line_end (show_cart slug cart) = ?h # ?ls"
    unfolding msg split_on_def using split_lines [of ?h ?ls is_line_end "CHR 0x0A" "[]"] head(1) lines by (simp add: is_line_end_def)
  moreover have "strip ?h = ?h" using head by (intro strip_id)
  moreover have "filter (\<lambda>l. l \<noteq> []) (map strip ?ls) = ?ls" using lines by (induction cart) auto
  moreover obtain st where "re_match ORDER_PREFIX_RE ?h = Some st" "group 1 st = slug" using prefix_match [OF assms(1,2)] by blast
  moreover have "lower slug = slug" using sc by (simp add: lower_def map_idI)
  moreover have "concat (map cart_line ?ls) = map (\<lambda>(n, q). (n, int q)) cart"
    using assms(3) by (induction cart) (auto simp: cart_line_show)
  ultimately show ?thesis by (simp add: parse_cart_message_def)
qed

theorem cart_message_roundtrip_witness:
  "parse_cart_message (show_cart ''mama-caro'' [(''Milo x2 tin'', 3), (''Rice 50kg'', 1)]) = (Some ''mama-caro'', [(''Milo x2 tin'', 3), (''Rice 50kg'', 1)])"
proof -
  have s: "list_all is_slug_char ''mama-caro''" by code_simp
  have n: "cart_name ''Milo x2 tin''" "cart_name ''Rice 50kg''" by (simp_all add: cart_name_def is_space_def is_line_end_def)
  show ?thesis using cart_message_roundtrip [OF _ s, of "[(''Milo x2 tin'', 3), (''Rice 50kg'', 1)]"] n by simp
qed

section \<open>Prices out of date\<close>

lemma upsert_swallowed:
  "\<exists>rs. tryA (session_begin (route_upsert c t s tid)) (\<lambda>_. ret ()) w = (Inr (), w\<lparr>customer_routes := rs\<rparr>)"
proof -
  have same: "w = w\<lparr>customer_routes := customer_routes w\<rparr>" by simp
  show ?thesis
    by (cases "scalar_one_or_none (filter (\<lambda>r. cr_customer_phone r = c \<and> True) (customer_routes w))")
      (auto simp: route_upsert_def tryA_apply session_begin_def bindA_apply restore_db_def split: option.splits intro: exI [of _ "customer_routes w"])
qed

lemma handler_session_Inr: "m w = (Inr x, w') \<Longrightarrow> handler_session m w = (Inr x, w')"
  by (simp add: handler_session_def)

lemma cart_route_run:
  assumes "redis_get (clock w) (trader_slug_key slug) (redis w) = Some (TraderDoc t)" and "tr_tenant_id t \<noteq> []" and "cart \<noteq> []"
    and "\<forall>x\<in>set cart. matched_price (tr_catalogue t) (fst x) \<noteq> None"
  shows "\<exists>x w'. cart_route gw en slug cart w = (Inr (), w') \<and> orders w' = orders w @ [x]
     \<and> o_amount x = Some (of_int (cart_total (cart_items (tr_catalogue t) cart))) \<and> o_trader_phone x = Some (tr_phone_number t)"
proof -
  let ?ib = "inbound_for en (tr_tenant_id t) t (Some (en_platform_tenant en))"
  let ?w1 = "w\<lparr>redis := redis_setex (clock w) (customer_routing_key (en_sender en)) CUSTOMER_ROUTING_TTL (routing_doc slug t) (redis w)\<rparr>"
  obtain rs where u: "tryA (session_begin (route_upsert (en_sender en) (tr_phone_number t) slug (tr_tenant_id t))) (\<lambda>_. ret ()) ?w1
      = (Inr (), ?w1\<lparr>customer_routes := rs\<rparr>)" using upsert_swallowed by blast
  obtain w' rows where o: "order_with_summary gw ?ib ''order.cart_summary'' (cart_items (tr_catalogue t) cart) (?w1\<lparr>customer_routes := rs\<rparr>) = (Inr (), w')"
    "core w' = core (after_order ?ib (cart_items (tr_catalogue t) cart) rows (?w1\<lparr>customer_routes := rs\<rparr>))" by (rule order_with_summary_spec)
  have "handle_cart_order gw ?ib cart (?w1\<lparr>customer_routes := rs\<rparr>) = (Inr (), w')"
    using o(1) assms(4) by (simp add: handle_cart_order_def Let_def cart_items_matched [OF assms(4)] inbound_for_def)
  with assms(1-3) u have "cart_route gw en slug cart w = (Inr (), w')"
    by (simp add: cart_route_def bindA_apply thenA_apply slug_hit set_customer_routing_def cache_setex_def handler_session_Inr)
  moreover have "orders w' = orders w @ [new_order ?ib (cart_total (cart_items (tr_catalogue t) cart)) (?w1\<lparr>customer_routes := rs\<rparr>)]"
    using core_fields(1) [OF o(2)] by (simp add: after_order_def Let_def)
  ultimately show ?thesis by (auto simp: inbound_for_def)
qed

text \<open>
  C25: a store cart is charged at the prices of up to an hour ago. Only the copy under the trader's phone number is rewritten when
  prices change; the copy under the store's slug is not. As long as that copy has not expired, whatever the trader has
  done since, a cart message places an order at the old prices.
\<close>

theorem stale_price_charged:
  fixes gw :: gateway
  assumes "coherent w" and "kv (redis w) (trader_slug_key slug) = Some (TraderDoc t, Some ex)" and "list_all store_op_ok ops"
  defines "w' \<equiv> fold (\<lambda>op. exec (store_act gw op)) ops w"
  assumes "clock w' < ex" and "parse_cart_message (en_message en) = (Some slug, cart)" and "cart \<noteq> []"
    and "tr_tenant_id t \<noteq> []" and "\<forall>x\<in>set cart. matched_price (tr_catalogue t) (fst x) \<noteq> None"
  shows "\<exists>x w''. route_customer gw l en w' = (Inr (), w'') \<and> orders w'' = orders w' @ [x]
     \<and> o_amount x = Some (of_int (cart_total (cart_items (tr_catalogue t) cart)))"
proof -
  from slug_cache.store_acts_keep [of w slug "TraderDoc t" ex ops gw] assms(1-3) have "slug_copy slug (TraderDoc t) ex w'"
    by (simp add: w'_def slug_copy_def)
  with assms(5) have "redis_get (clock w') (trader_slug_key slug) (redis w') = Some (TraderDoc t)"
    by (simp add: slug_copy_def redis_get_def alive_def)
  from cart_route_run [OF this assms(8,7,9), of gw en] assms(6) show ?thesis by (auto simp: route_customer_def)
qed

definition milo_page :: world where
  "milo_page = (mama_caro [(''Milo 400g'', 3500)])\<lparr>redis := redis_setex 0 (trader_slug_key ''mama-caro'') TRADER_TTL
     (TraderDoc (cm_trader (says [(''Milo 400g'', 3500)] []))) empty_redis\<rparr>"

definition milo_cart :: envelope where
  "milo_cart = \<lparr>en_platform_tenant = ''platform'', en_sender = ''234'', en_sender_name = None,
     en_message = ''ORDER:mama-caro'' @ [CHR 0x0A] @ ''Milo 400g x2'', en_message_id = ''m2'', en_conversation_id = ''c1''\<rparr>"

lemma milo_repriced:
  "\<exists>w' t'. exec (store_act open_gateway (TypedCommand (says [] ''PRICE milo 400g 4000''))) milo_page = w' \<and> clock w' = 0
     \<and> trader_at w' ''080'' = Some t' \<and> matched_price (tr_catalogue t') ''Milo 400g'' = Some 4000"
proof -
  let ?d = "[(''Milo 400g'', 3500)]" and ?m = "''PRICE milo 400g 4000''"
  have c: "coherent milo_page" unfolding milo_page_def
    by (rule coherent_same [OF mama_caro_coherent [of ?d]]) (simp_all add: mama_caro_def empty_world_def redis_get_setex)
  have at: "trader_at milo_page ''080'' = Some (cm_trader (says ?d []))"
    using mama_caro_at(1) [of ?d "[]"] by (simp add: milo_page_def trader_at_def)
  obtain r where r: "get_trader_by_phone ''080'' milo_page = (Inr (Some (cm_trader (says ?d []))), milo_page\<lparr>redis := r\<rparr>)"
    "coherent (milo_page\<lparr>redis := r\<rparr>)" using get_trader_by_phone_eq [OF c, of "''080''"] at by auto
  let ?cm = "(says [] ?m)\<lparr>cm_trader := cm_trader (says ?d [])\<rparr>"
  have p: "layer1 ?m = result TRADER_PRICE [item ''milo 400g'' 1 (Some 4000)] 1" by code_simp
  have q: "matched_price (edited TRADER_PRICE [item ''milo 400g'' 1 (Some 4000)] ?d) ''Milo 400g'' = Some 4000" by code_simp
  have t: "trader_at (milo_page\<lparr>redis := r\<rparr>) (cm_trader_phone ?cm) = Some (cm_trader ?cm)"
    using at by (simp add: trader_at_def says_def)
  have "positive (pr_items (layer1 ?m))" "pr_intent (layer1 ?m) \<in> {TRADER_ADD, TRADER_REMOVE, TRADER_PRICE}"
    by (simp_all add: p result_def positive_def item_def)
  with catalogue_command_run [OF r(2) t, of "layer1 ?m" open_gateway] obtain w' where
    w': "catalogue_command open_gateway ?cm (layer1 ?m) (milo_page\<lparr>redis := r\<rparr>) = (Inr (), w')" "clock w' = clock milo_page"
    "trader_at w' = (trader_at milo_page)(''080'' \<mapsto> (cm_trader ?cm)\<lparr>tr_catalogue := edited TRADER_PRICE [item ''milo 400g'' 1 (Some 4000)] ?d\<rparr>)"
    by (auto simp: p result_def trader_at_redis says_catalogue mama_caro_at(2))
  have "exec (store_act open_gateway (TypedCommand (says [] ?m))) milo_page = w'"
    using r(1) w'(1) by (simp add: exec_def as_trader_def bindA_apply mama_caro_at(2)) (simp add: says_def)
  with w'(2,3) q show ?thesis by (simp add: milo_page_def mama_caro_def empty_world_def)
qed

theorem stale_price_charged_witness:
  "\<exists>x t' w' w''. w' = exec (store_act open_gateway (TypedCommand (says [] ''PRICE milo 400g 4000''))) milo_page
     \<and> trader_at w' ''080'' = Some t' \<and> matched_price (tr_catalogue t') ''Milo 400g'' = Some 4000
     \<and> route_customer open_gateway no_llm milo_cart w' = (Inr (), w'') \<and> orders w'' = orders w' @ [x] \<and> o_amount x = Some 7000"
proof -
  let ?d = "[(''Milo 400g'', 3500)]" and ?ops = "[TypedCommand (says [] ''PRICE milo 400g 4000'')]"
  obtain w' t' where w': "exec (store_act open_gateway (TypedCommand (says [] ''PRICE milo 400g 4000''))) milo_page = w'" "clock w' = 0"
    "trader_at w' ''080'' = Some t'" "matched_price (tr_catalogue t') ''Milo 400g'' = Some 4000" using milo_repriced by blast
  have c: "coherent milo_page" unfolding milo_page_def
    by (rule coherent_same [OF mama_caro_coherent [of ?d]]) (simp_all add: mama_caro_def empty_world_def redis_get_setex)
  have k: "kv (redis milo_page) (trader_slug_key ''mama-caro'') = Some (TraderDoc (cm_trader (says ?d [])), Some (TRADER_TTL * second))"
    by (simp add: milo_page_def redis_setex_def)
  have ok: "list_all store_op_ok ?ops" by simp
  have m: "parse_cart_message (en_message milo_cart) = (Some ''mama-caro'', [(''Milo 400g'', 2)])" unfolding milo_cart_def by code_simp
  have p: "matched_price ?d ''Milo 400g'' = Some 3500" by code_simp
  have tid: "tr_tenant_id (cm_trader (says ?d [])) \<noteq> []" by (simp add: says_def trader_dict_def example_trader_def or_empty_def)
  have "clock (fold (\<lambda>op. exec (store_act open_gateway op)) ?ops milo_page) < TRADER_TTL * second"
    using w'(1,2) by (simp add: TRADER_TTL_def second_def)
  from stale_price_charged [OF c k ok this m _ tid, of no_llm] w' p show ?thesis
    by (auto simp: says_catalogue cart_items_def cart_total_def item_def price_of_def)
qed

end
