(* ===== verification/Onboarding.thy ===== *)
theory Onboarding
  imports Traders Replies Regex Event_Bus "HOL-Library.Log_Nat"
begin

text \<open>
  The WhatsApp onboarding of traders (\<open>onboarding/service.py\<close>, \<open>session.py\<close>, \<open>handlers.py\<close>, \<open>analytics.py\<close>,
  \<open>catalogue_templates.py\<close>): a dialogue whose state Redis keeps for a week, one step per message. Prompts
  are named templates with their arguments. What reading a photo or a voice note gives (download, OCR, transcription and
  extraction of products, \<open>onboarding/media.py\<close>) is a parameter. A float is a rational rounded to a double.
\<close>

section \<open>Starter items\<close>

definition provisions_items :: "string list" where
  "provisions_items = [''Indomie Carton'', ''Rice 50kg (Mama Gold)'', ''Rice 25kg'', ''Peak Milk 400g'', ''Peak Milk 900g'', ''Milo 400g'',
     ''Milo 200g'', ''Bournvita 500g'', ''Nescafe 200g'', ''Golden Morn 1kg'', ''Omo Washing Powder 500g'',
     ''Ariel Washing Powder 500g'', ''Garri 10kg'', ''Semolina 1kg'', ''Semo 1kg'', ''Geisha Sardine (tin)'',
     ''Titus Sardine (tin)'', ''Cowbell Milk (tin)'', ''Gino Tomato Puree (tin)'', ''Nagiko Tomato Puree (tin)'',
     ''Vegetable Oil 5L'', ''Groundnut Oil 5L'', ''Sugar 1kg (Dangote)'', ''Salt (Dangote)'', ''Knorr Seasoning Cubes (carton)'',
     ''Maggi Seasoning Cubes (carton)'', ''Spaghetti (pack)'', ''Macaroni (pack)'', ''Dettol 250ml'', ''Vaseline 200ml'']"

definition fabric_items :: "string list" where
  "fabric_items = [''Plain Ankara (per yard)'', ''Printed Ankara (per yard)'', ''Lace fabric (per yard)'', ''Swiss lace (per yard)'',
     ''Cord lace (per yard)'', ''Adire (per yard)'', ''Tie-dye fabric (per yard)'', ''Sequence fabric (per yard)'',
     ''Guinea brocade (per yard)'', ''English fabric (per yard)'', ''Wool fabric (per yard)'', ''Aso-oke (per set)'',
     ''George fabric (per set)'', ''Atiku fabric (per yard)'', ''Hollandaise (per yard)'', ''Cotton fabric (per yard)'',
     ''Crepe fabric (per yard)'', ''Chiffon fabric (per yard)'', ''Ankara ready-made top'', ''Ankara ready-made skirt'',
     ''Ready-made gown'', ''Native agbada (per set)'', ''Kaftan (per piece)'', ''Plain white fabric (per yard)'',
     ''Net fabric (per yard)'', ''Velvet fabric (per yard)'', ''Denim fabric (per yard)'', ''Taffeta fabric (per yard)'',
     ''Ankara face cap'', ''Fabric bag'']"

definition food_items :: "string list" where
  "food_items = [''Jollof rice (per plate)'', ''Fried rice (per plate)'', ''White rice and stew (per plate)'', ''Eba (per plate)'',
     ''Amala (per plate)'', ''Pounded yam (per plate)'', ''Fufu (per plate)'', ''Egusi soup (per serving)'',
     ''Okra soup (per serving)'', ''Bitterleaf soup (per serving)'', ''Afang soup (per serving)'', ''Ogbono soup (per serving)'',
     ''Buka stew (per serving)'', ''Pepper soup (per serving)'', ''Ofe akwu (per serving)'', ''Efo riro (per serving)'',
     ''Beans (per plate)'', ''Akara (per piece)'', ''Moi moi (per wrap)'', ''Grilled fish (per piece)'',
     ''Fried fish (per piece)'', ''Ponmo (per wrap)'', ''Goat meat (per piece)'', ''Chicken (per piece)'', ''Turkey (per piece)'',
     ''Assorted meat (per wrap)'', ''Soft drink (per bottle)'', ''Water (per bottle)'', ''Zobo (per cup)'', ''Chapman (per cup)'']"

definition electronics_items :: "string list" where
  "electronics_items = [''Phone charger (generic)'', ''iPhone charger'', ''Samsung charger (Type-C)'', ''Budget earphones'', ''Wireless earbuds'',
     ''Power bank 10,000mAh'', ''Power bank 20,000mAh'', ''USB cable (Type-C)'', ''USB cable (Lightning)'', ''Screen protector'',
     ''Phone case'', ''Bluetooth speaker'', ''Torch / flashlight'', ''Extension box (4-way)'', ''Memory card 32GB'',
     ''Memory card 64GB'', ''USB flash drive 16GB'', ''USB flash drive 32GB'', ''Bluetooth earpiece'', ''Car charger'',
     ''Phone holder (car mount)'', ''Selfie stick'', ''Portable USB fan'', ''Budget smart watch'', ''Calculator'',
     ''Electric shaver'', ''Hair trimmer'', ''Pocket radio'', ''Rechargeable lamp'', ''USB hub (4-port)'']"

definition cosmetics_items :: "string list" where
  "cosmetics_items = [''Fair & White So White cream'', ''Carotone body cream'', ''Vaseline 400ml'', ''Nivea cream'', ''Raw shea butter'',
     ''Coconut oil'', ''Dark & Lovely relaxer kit'', ''Optimum relaxer kit'', ''Hair extensions (per pack)'', ''Hair attachment'',
     ''Brazilian hair (per bundle)'', ''Lipstick'', ''Lip gloss'', ''Foundation'', ''Face powder'', ''Eyebrow pencil'',
     ''Mascara'', ''Eyeliner'', ''Eye shadow palette'', ''Blush'', ''Highlighter'', ''Concealer'', ''Setting spray'',
     ''Body lotion (large)'', ''Nivea body spray'', ''Perfume (small)'', ''Deodorant'', ''Face wash'', ''Sunscreen'',
     ''Nail polish'']"

definition building_items :: "string list" where
  "building_items = [''Cement (per bag, Dangote)'', ''Cement (per bag, BUA)'', ''Iron rod 12mm (per length)'', ''Iron rod 16mm (per length)'',
     ''Roofing sheet (per piece)'', ''Dulux paint 5L'', ''Berger paint 5L'', ''Paint 20L'', ''Tiles 60x60 (per carton)'',
     ''Tiles 30x30 (per carton)'', ''Plywood (per sheet)'', ''MDF board (per sheet)'', ''Door handle (per set)'',
     ''PVC pipe 3/4 inch (per length)'', ''PVC pipe 1 inch (per length)'', ''Water tank 500L'', ''Galvanized pipe'',
     ''Electrical wire (per roll)'', ''Wall socket'', ''Light switch'', ''Window glass (per sheet)'', ''Padlock (medium)'',
     ''Padlock (large)'', ''Door hinge (per pair)'', ''Screws (per pack)'', ''Nails (per kg)'', ''Sand (per trip)'',
     ''Gravel (per trip)'', ''Block (per piece)'', ''Plank (per piece)'']"

definition get_items :: "string \<Rightarrow> string list" where
  "get_items category = (case map_of [(''provisions'', provisions_items), (''fabric'', fabric_items), (''food'', food_items),
     (''electronics'', electronics_items), (''cosmetics'', cosmetics_items), (''building'', building_items), (''other'', [])] category of
     Some xs \<Rightarrow> xs | None \<Rightarrow> [])"

definition CATEGORY_SHORT_NAMES :: "(string \<times> string) list" where
  "CATEGORY_SHORT_NAMES = [(''provisions'', ''Provisions''), (''fabric'', ''Fabric''), (''food'', ''Food''), (''electronics'', ''Electronics''),
     (''cosmetics'', ''Cosmetics''), (''building'', ''Building materials''), (''other'', ''Got it'')]"

section \<open>Prices\<close>

text \<open>The double nearest to a positive rational: 53 significant bits, ties to even.\<close>

definition pow2 :: "int \<Rightarrow> rat" where
  "pow2 n = (if 0 \<le> n then 2 ^ nat n else 1 / 2 ^ nat (- n))"

definition double :: "rat \<Rightarrow> rat" where
  "double x = (if x \<le> 0 then x else
     let (a, b) = quotient_of x; e = int (floorlog 2 (nat a)) - int (floorlog 2 (nat b));
         k = (if x < pow2 e then e - 1 else e); ulp = pow2 (k - 52)
     in of_int (round_half_even (x / ulp)) * ulp)"

text \<open>\<open>float(s)\<close> of digits with an optional fraction.\<close>

definition read_decimal :: "string \<Rightarrow> rat" where
  "read_decimal s = (let whole = takeWhile (\<lambda>c. c \<noteq> CHR ''.'') s; frac = drop (Suc (length whole)) s
     in double (of_int (digits_val whole) + of_int (digits_val frac) / 10 ^ length frac))"

definition K_RE :: rx where
  "K_RE = seq [Grp 1 (Seq (plus digit) (opt (Seq (chr CHR ''.'') (plus digit)))), spaces0, chr CHR ''k'', Bow]"

definition parse_price :: "string \<Rightarrow> int option" where
  "parse_price msg = (let cleaned = strip (filter (\<lambda>c. c \<noteq> CHR '','' \<and> c \<noteq> CHR ''N'') msg) in case re_search K_RE cleaned of
     Some m \<Rightarrow> Some \<lfloor>double (read_decimal (group 1 m) * 1000)\<rfloor>
   | None \<Rightarrow> (case re_search (Grp 1 (plus digit)) cleaned of Some m \<Rightarrow> Some (digits_val (group 1 m)) | None \<Rightarrow> None))"

section \<open>State\<close>

definition onboarding_key :: "string \<Rightarrow> string" where
  "onboarding_key phone = ''onboarding:state:'' @ phone"

definition ONBOARDING_TTL :: int where "ONBOARDING_TTL = 7 * 24 * 60 * 60"

definition get_state :: "string \<Rightarrow> (onboarding_step \<times> onboarding_data) option svc" where
  "get_state phone = bindA (cache_get (onboarding_key phone)) (\<lambda>d. case d of
     Some (OnboardingDoc step data) \<Rightarrow> ret (Some (step, data)) | _ \<Rightarrow> ret None)"

definition set_state :: "string \<Rightarrow> onboarding_step \<Rightarrow> onboarding_data \<Rightarrow> unit svc" where
  "set_state phone step data = cache_setex (onboarding_key phone) ONBOARDING_TTL (OnboardingDoc step data)"

definition clear_state :: "string \<Rightarrow> unit svc" where
  "clear_state phone = cache_delete (onboarding_key phone)"

definition no_data :: onboarding_data where
  "no_data = \<lparr>od_last_active = 0, od_attribution_type = None, od_attribution_code = None, od_name = None, od_category = None,
     od_awaiting_other_desc = False, od_category_desc = None, od_extracted_products = [], od_media_catalogue = None, od_qa_index = 0,
     od_qa_prices = [], od_pending_prompt = None\<rparr>"

section \<open>Helpers\<close>

definition track_onboarding_event :: "string \<Rightarrow> string \<Rightarrow> string option \<Rightarrow> string option \<Rightarrow> unit svc" where
  "track_onboarding_event phone ty step path = modA (\<lambda>w. w\<lparr>onboarding_events := onboarding_events w @
     [\<lparr>oe_phone_number = phone, oe_event_type = ty, oe_step_name = step, oe_path = path, oe_created_at = clock w\<rparr>]\<rparr>)"

text \<open>The arguments every step has: phone number, tenant, message id and the stripped message.\<close>

record talk =
  tk_phone :: string
  tk_tenant :: string
  tk_id :: string
  tk_msg :: string

text \<open>\<open>_reply\<close>: whether the message was sent.\<close>

definition say :: "gateway \<Rightarrow> talk \<Rightarrow> string \<Rightarrow> body \<Rightarrow> bool svc" where
  "say gw tk suffix msg = tryA (thenA (session_begin (send_message gw (tk_tenant tk) (''onboarding_reply.'' @ tk_id tk @ suffix) (tk_phone tk) msg
     ''whatsapp'' None None)) (ret True)) (\<lambda>_. ret False)"

definition tell :: "gateway \<Rightarrow> talk \<Rightarrow> string \<Rightarrow> body \<Rightarrow> unit svc" where
  "tell gw tk suffix msg = thenA (say gw tk suffix msg) (ret ())"

definition advance :: "gateway \<Rightarrow> talk \<Rightarrow> onboarding_step \<Rightarrow> onboarding_data \<Rightarrow> body \<Rightarrow> unit svc" where
  "advance gw tk step data prompt = thenA (set_state (tk_phone tk) step (data\<lparr>od_pending_prompt := Some prompt\<rparr>))
     (bindA (say gw tk [] prompt) (\<lambda>ok. if ok then set_state (tk_phone tk) step (data\<lparr>od_pending_prompt := None\<rparr>) else ret ()))"

section \<open>Completion\<close>

definition completion_path :: "onboarding_data \<Rightarrow> string" where
  "completion_path data = (if od_media_catalogue data \<noteq> None then ''photo'' else if od_qa_prices data \<noteq> [] then ''qa'' else ''skip'')"

definition business_category :: "onboarding_data \<Rightarrow> string" where
  "business_category data = (let cat = or_empty (od_category data); desc = or_empty (od_category_desc data)
     in if cat = ''other'' \<and> desc \<noteq> [] then desc else cat)"

definition collected :: "onboarding_data \<Rightarrow> (string \<times> int) list" where
  "collected data = (case od_media_catalogue data of
     Some ps \<Rightarrow> dict_of (filter (\<lambda>(n, p). n \<noteq> [] \<and> p \<noteq> 0) ps) | None \<Rightarrow> od_qa_prices data)"

text \<open>
  \<open>_complete\<close>. In the branch that creates the trader the attribution is read from a name \<open>state\<close> that the method does not
  have, after the slug and the referral code were chosen and before anything is written.
\<close>

definition create_or_find :: "talk \<Rightarrow> string \<Rightarrow> string svc" where
  "create_or_find tk name = session_begin (bindA (trader_get_by_phone (tk_phone tk)) (\<lambda>existing. case existing of
     None \<Rightarrow> bindA (generate_unique_slug name) (\<lambda>slug. bindA (generate_referral_code name) (\<lambda>code.
       bindA (ensure_unique_referral_code code) (\<lambda>code. raise (NameError ''state''))))
   | Some t \<Rightarrow> ret (or_empty (td_store_slug t))))"

definition complete :: "gateway \<Rightarrow> talk \<Rightarrow> string \<Rightarrow> onboarding_data \<Rightarrow> unit svc" where
  "complete gw tk suffix data = (let name = or_empty (od_name data) in
     thenA (track_onboarding_event (tk_phone tk) ''completed'' (Some ''completed'') (Some (completion_path data)))
     (bindA (create_or_find tk name) (\<lambda>slug.
       thenA (clear_state (tk_phone tk))
       (thenA (cache_trader_by_phone (tk_phone tk) (TraderDoc \<lparr>tr_business_name = name, tr_business_category = business_category data,
            tr_catalogue = collected data, tr_phone_number = tk_phone tk, tr_tenant_id = tk_tenant tk, tr_store_slug = slug,
            tr_bank_name = [], tr_bank_account_number = [], tr_bank_account_name = []\<rparr>))
       (thenA (emit ''trader.onboarded'' (tk_tenant tk) [(''business_name'', JStr name), (''store_slug'', JStr slug), (''phone_number'', JStr (tk_phone tk))])
       (thenA (tell gw tk (suffix @ ''_complete'') (Template ''COMPLETE_ADMIN'' [JStr name, JStr slug]))
         (tell gw tk (suffix @ ''_share'') (Template ''COMPLETE_SHARE'' [JStr name, JStr slug]))))))))"

section \<open>Steps\<close>

definition start :: "gateway \<Rightarrow> talk \<Rightarrow> string option \<Rightarrow> string option \<Rightarrow> unit svc" where
  "start gw tk ty code = thenA (track_onboarding_event (tk_phone tk) ''started'' (Some ''welcome'') None)
     (bindA (getA clock) (\<lambda>now. advance gw tk AWAITING_NAME
        (no_data\<lparr>od_last_active := now, od_attribution_type := ty, od_attribution_code := code\<rparr>) (Template ''WELCOME'' [])))"

definition handle_name :: "gateway \<Rightarrow> talk \<Rightarrow> onboarding_data \<Rightarrow> unit svc" where
  "handle_name gw tk data = (let name = strip (tk_msg tk) in
     if length name < 2 then tell gw tk [] (Template ''NAME_TOO_SHORT'' [])
     else thenA (track_onboarding_event (tk_phone tk) ''step'' (Some ''business_name'') None)
       (advance gw tk AWAITING_CATEGORY (data\<lparr>od_name := Some (take 60 name)\<rparr>) (Template ''CATEGORY_MENU'' [JStr (take 60 name)])))"

definition CATEGORY_OPTIONS :: "(string \<times> string) list" where
  "CATEGORY_OPTIONS = [(''1'', ''provisions''), (''2'', ''fabric''), (''3'', ''food''), (''4'', ''electronics''), (''5'', ''cosmetics''),
     (''6'', ''building''), (''7'', ''other'')]"

definition handle_category :: "gateway \<Rightarrow> talk \<Rightarrow> onboarding_data \<Rightarrow> unit svc" where
  "handle_category gw tk data = (if od_awaiting_other_desc data then
       advance gw tk AWAITING_CATALOGUE (data\<lparr>od_awaiting_other_desc := False, od_category_desc := Some (take 200 (tk_msg tk))\<rparr>)
         (Template ''CATALOGUE_MENU'' [JStr ''Noted! Your store is set up.''])
     else case map_of CATEGORY_OPTIONS (strip (tk_msg tk)) of
       None \<Rightarrow> tell gw tk [] (Plain ''Please reply with a number from 1 to 7.'')
     | Some cat \<Rightarrow> if cat = ''other'' then
           advance gw tk AWAITING_CATEGORY (data\<lparr>od_category := Some cat, od_awaiting_other_desc := True\<rparr>) (Template ''CATEGORY_OTHER_PROMPT'' [])
         else thenA (track_onboarding_event (tk_phone tk) ''step'' (Some ''category'') None)
           (advance gw tk AWAITING_CATALOGUE (data\<lparr>od_category := Some cat\<rparr>) (Template ''CATALOGUE_MENU''
              [JStr (case map_of CATEGORY_SHORT_NAMES cat of Some n \<Rightarrow> n | None \<Rightarrow> cat), JInt (int (length (get_items cat)))])))"

definition start_qa :: "gateway \<Rightarrow> talk \<Rightarrow> onboarding_data \<Rightarrow> unit svc" where
  "start_qa gw tk data = (case get_items (or_empty (od_category data)) of
     [] \<Rightarrow> complete gw tk [] data
   | it # _ \<Rightarrow> advance gw tk QA_IN_PROGRESS (data\<lparr>od_qa_index := 0, od_qa_prices := []\<rparr>) (Template ''QA_QUESTION'' [JStr it]))"

definition chosen_path :: "talk \<Rightarrow> string \<Rightarrow> unit svc" where
  "chosen_path tk path = track_onboarding_event (tk_phone tk) ''path_chosen'' (Some ''catalogue_path'') (Some path)"

definition handle_catalogue_choice :: "gateway \<Rightarrow> talk \<Rightarrow> onboarding_data \<Rightarrow> unit svc" where
  "handle_catalogue_choice gw tk data = (let m = strip (tk_msg tk) in
     if m = ''1'' then thenA (chosen_path tk ''photo'') (advance gw tk AWAITING_PHOTO data (Template ''AWAIT_PHOTO'' []))
     else if m = ''2'' then thenA (chosen_path tk ''voice'') (advance gw tk AWAITING_VOICE data (Template ''AWAIT_VOICE'' []))
     else if m = ''3'' then thenA (chosen_path tk ''qa'') (start_qa gw tk data)
     else if m = ''4'' then thenA (chosen_path tk ''skip'') (complete gw tk [] data)
     else if m = ''back'' then advance gw tk AWAITING_CATALOGUE data (Template ''choose_again'' [])
     else tell gw tk [] (Plain ''Please reply with 1, 2, 3, or 4.''))"

text \<open>What the media pipeline gives: the products found in an image or a voice note, or an exception.\<close>

record reader =
  rd_image :: "string \<Rightarrow> string \<Rightarrow> string \<Rightarrow> error + (string \<times> int) list"
  rd_audio :: "string \<Rightarrow> string \<Rightarrow> string \<Rightarrow> string \<Rightarrow> error + (string \<times> int) list"

definition none_found :: "error + (string \<times> int) list \<Rightarrow> (string \<times> int) list" where
  "none_found r = (case r of Inl _ \<Rightarrow> [] | Inr ps \<Rightarrow> ps)"

text \<open>\<open>_send_extracted_product_list\<close> begins with an import of \<open>save_state\<close>, which \<open>onboarding/session.py\<close> does not define.\<close>

definition send_extracted_product_list :: "(string \<times> int) list \<Rightarrow> unit svc" where
  "send_extracted_product_list products = raise (ImportError ''save_state'')"

definition switch_words :: "string list" where
  "switch_words = [''1'', ''2'', ''3'', ''4'', ''back'']"

definition handle_photo :: "gateway \<Rightarrow> reader \<Rightarrow> talk \<Rightarrow> onboarding_data \<Rightarrow> string option \<Rightarrow> unit svc" where
  "handle_photo gw rd tk data media = (if strip (tk_msg tk) \<in> set switch_words then handle_catalogue_choice gw tk data
     else if \<not> truthy_str media \<or> tk_msg tk \<noteq> ''[image]'' then tell gw tk [] (Template ''WRONG_MEDIA_TYPE'' [JStr ''photo''])
     else thenA (tell gw tk ''_ack'' (Template ''PROCESSING_PHOTO'' []))
       (case none_found (rd_image rd (or_empty media) (tk_tenant tk) (or_empty (od_category data))) of
          [] \<Rightarrow> advance gw tk AWAITING_CATALOGUE data (Template ''MEDIA_NOTHING_FOUND'' [JStr ''photo''])
        | ps \<Rightarrow> send_extracted_product_list ps))"

definition handle_voice :: "gateway \<Rightarrow> reader \<Rightarrow> talk \<Rightarrow> onboarding_data \<Rightarrow> string option \<Rightarrow> string option \<Rightarrow> unit svc" where
  "handle_voice gw rd tk data media mtype = (if strip (tk_msg tk) \<in> set switch_words then handle_catalogue_choice gw tk data
     else if \<not> truthy_str media \<or> tk_msg tk \<noteq> ''[audio]'' then tell gw tk [] (Template ''WRONG_MEDIA_TYPE'' [JStr ''voice note''])
     else thenA (tell gw tk ''_ack'' (Template ''PROCESSING_VOICE'' []))
       (case none_found (rd_audio rd (or_empty media) (tk_tenant tk) (if truthy_str mtype then or_empty mtype else ''audio/ogg'')
           (or_empty (od_category data))) of
          [] \<Rightarrow> advance gw tk AWAITING_CATALOGUE data (Template ''MEDIA_NOTHING_FOUND'' [JStr ''voice note''])
        | ps \<Rightarrow> send_extracted_product_list ps))"

section \<open>Corrections\<close>

definition ITEM_NUMBER_RE :: rx where
  "ITEM_NUMBER_RE = seq [Bow, opt (alt [lit ''number'', Seq (lit ''no'') (opt (chr CHR ''.'')), chr CHR ''#'']), spaces0, Grp 1 (plus digit), Bow]"

definition EQ_PRICE_RE :: rx where
  "EQ_PRICE_RE = seq [Cls (\<lambda>c. c = CHR ''='' \<or> c = CHR '':''), spaces0,
     Grp 1 (plus (Cls (\<lambda>c. is_digit c \<or> c \<in> set '',kKN.'')))]"

definition NA_NAME_RE :: rx where
  "NA_NAME_RE = seq [Bow, lit ''na'', spaces1, Grp 1 (plus_lazy dot),
     Alt (seq [spaces0, Cls (\<lambda>c. c = CHR ''='' \<or> c = CHR '':''), spaces0, digit]) Eos]"

definition drop_trailing_price :: "string \<Rightarrow> string" where
  "drop_trailing_price s = (case re_search (Grp 1 (seq [spaces0, digit, Star True digit_or_comma, Eos])) s of
     None \<Rightarrow> s | Some m \<Rightarrow> take (length s - length (group 1 m) - length (after m)) s @ after m)"

definition apply_correction :: "(string \<times> int) list \<Rightarrow> string \<Rightarrow> (string \<times> int) list" where
  "apply_correction ps msg = (case re_search ITEM_NUMBER_RE msg of None \<Rightarrow> ps
     | Some m \<Rightarrow> (let idx = digits_val (group 1 m) - 1 in
         if idx < 0 \<or> int (length ps) \<le> idx then ps
         else let i = nat idx;
              price = parse_price (case re_search EQ_PRICE_RE msg of Some e \<Rightarrow> group 1 e | None \<Rightarrow> msg);
              ps1 = (case price of None \<Rightarrow> ps | Some p \<Rightarrow> ps[i := (fst (ps ! i), p)])
            in (case re_search NA_NAME_RE msg of None \<Rightarrow> ps1
              | Some nm \<Rightarrow> (let new = strip (drop_trailing_price (strip (group 1 nm))) in
                  if new \<noteq> [] then ps1[i := (new, snd (ps1 ! i))] else ps1))))"

definition yes_words :: "string list" where
  "yes_words = [''yes'', ''yeah'', ''y'', ''yep'', ''correct'', ''ok'', ''okay'', ''fine'']"

text \<open>\<open>s.strip(" ,.-")\<close>.\<close>

definition strip_marks :: "string \<Rightarrow> string" where
  "strip_marks s = (let p = (\<lambda>c. c \<in> set '' ,.-'') in rev (dropWhile p (rev (dropWhile p s))))"

definition handle_media_confirmation :: "gateway \<Rightarrow> talk \<Rightarrow> onboarding_data \<Rightarrow> unit svc" where
  "handle_media_confirmation gw tk data = (let lo = lower (strip (tk_msg tk)); up = upper (strip (tk_msg tk)); ps = od_extracted_products data in
     if up = ''ONBOARD_YES'' \<or> lo \<in> set yes_words then
       thenA (tell gw tk ''_confirmed'' (Template ''MEDIA_CONFIRMED'' [JInt (int (length ps))]))
         (complete gw tk [] (data\<lparr>od_media_catalogue := Some ps\<rparr>))
     else if up = ''ONBOARD_NO'' then advance gw tk AWAITING_CATALOGUE data (Template ''choose_again'' [])
     else if startswith lo ''yes'' then
       (let ps' = apply_correction ps (strip_marks (drop 3 (tk_msg tk))) in
        thenA (tell gw tk ''_fixed'' (Template ''fixed'' [JInt (int (length ps'))]))
          (complete gw tk [] (data\<lparr>od_media_catalogue := Some ps'\<rparr>)))
     else tell gw tk [] (Template ''reply_yes_or_fix'' []))"

section \<open>Questions and answers\<close>

definition skip_words :: "string list" where
  "skip_words = [''0'', ''skip'', ''s'', ''done'', ''finish'']"

definition handle_qa :: "gateway \<Rightarrow> talk \<Rightarrow> onboarding_data \<Rightarrow> unit svc" where
  "handle_qa gw tk data = (let items = get_items (or_empty (od_category data)); i = od_qa_index data in
     if lower (strip (tk_msg tk)) \<in> set skip_words then
       thenA (tell gw tk [] (Template ''QA_DONE_EARLY'' [])) (complete gw tk ''_done'' data)
     else if length items \<le> i then raise (IndexError ''list index out of range'')
     else let prices = (case parse_price (tk_msg tk) of Some p \<Rightarrow> AList.update (items ! i) p (od_qa_prices data) | None \<Rightarrow> od_qa_prices data) in
       if length items \<le> Suc i then complete gw tk [] (data\<lparr>od_qa_prices := prices\<rparr>)
       else thenA (if Suc i mod 5 = 0 then tell gw tk ''_cp'' (Template ''QA_CHECKPOINT'' [JInt (int (Suc i)), JInt (int (length items))]) else ret ())
         (advance gw tk QA_IN_PROGRESS (data\<lparr>od_qa_index := Suc i, od_qa_prices := prices\<rparr>) (Template ''QA_QUESTION'' [JStr (items ! Suc i)])))"

section \<open>One message\<close>

definition REF_RE :: "string \<Rightarrow> rx" where
  "REF_RE p = seq [Bow, Grp 1 (Seq (lit p) (plus (Cls (\<lambda>c. (CHR ''A'' \<le> c \<and> c \<le> CHR ''Z'') \<or> is_digit c \<or> c = CHR ''-'')))), Bow]"

definition ONBOARDING_TRIGGERS :: "string list" where
  "ONBOARDING_TRIGGERS = [''start'', ''register'', ''join'', ''hi'', ''hello'', ''hey'']"

definition WELCOME_BACK_GAP :: int where "WELCOME_BACK_GAP = 6 * 3600 * second"

fun step_handler :: "gateway \<Rightarrow> reader \<Rightarrow> talk \<Rightarrow> onboarding_data \<Rightarrow> string option \<Rightarrow> string option \<Rightarrow> onboarding_step \<Rightarrow> unit svc" where
  "step_handler gw rd tk data media mtype AWAITING_NAME = handle_name gw tk data"
| "step_handler gw rd tk data media mtype AWAITING_CATEGORY = handle_category gw tk data"
| "step_handler gw rd tk data media mtype AWAITING_CATALOGUE = handle_catalogue_choice gw tk data"
| "step_handler gw rd tk data media mtype AWAITING_PHOTO = handle_photo gw rd tk data media"
| "step_handler gw rd tk data media mtype AWAITING_PHOTO_CONFIRMATION = handle_media_confirmation gw tk data"
| "step_handler gw rd tk data media mtype AWAITING_VOICE = handle_voice gw rd tk data media mtype"
| "step_handler gw rd tk data media mtype AWAITING_VOICE_CONFIRMATION = handle_media_confirmation gw tk data"
| "step_handler gw rd tk data media mtype QA_IN_PROGRESS = handle_qa gw tk data"

definition begin_or_ignore :: "gateway \<Rightarrow> talk \<Rightarrow> unit svc" where
  "begin_or_ignore gw tk = (case (re_search (REF_RE ''REF-'') (upper (tk_msg tk)), re_search (REF_RE ''AGT-'') (upper (tk_msg tk))) of
     (Some m, _) \<Rightarrow> start gw tk (Some ''referral'') (Some (group 1 m))
   | (None, Some m) \<Rightarrow> start gw tk (Some ''agent'') (Some (group 1 m))
   | (None, None) \<Rightarrow> if lower (tk_msg tk) \<in> set ONBOARDING_TRIGGERS then start gw tk None None else ret ())"

definition resume :: "gateway \<Rightarrow> reader \<Rightarrow> talk \<Rightarrow> string option \<Rightarrow> string option \<Rightarrow> onboarding_step \<Rightarrow> onboarding_data \<Rightarrow> unit svc" where
  "resume gw rd tk media mtype step data = bindA (getA clock) (\<lambda>now.
     thenA (if od_last_active data \<noteq> 0 \<and> WELCOME_BACK_GAP < now - od_last_active data then tell gw tk ''_wb'' (Template ''WELCOME_BACK'' []) else ret ())
     (let data = data\<lparr>od_last_active := now\<rparr> in thenA (set_state (tk_phone tk) step data)
       (case od_pending_prompt data of
          Some prompt \<Rightarrow> bindA (say gw tk ''_reprompt'' prompt) (\<lambda>ok.
            if ok then set_state (tk_phone tk) step (data\<lparr>od_pending_prompt := None\<rparr>) else ret ())
        | None \<Rightarrow> step_handler gw rd tk data media mtype step)))"

definition onboarding_handle :: "gateway \<Rightarrow> reader \<Rightarrow> string \<Rightarrow> string \<Rightarrow> string \<Rightarrow> string \<Rightarrow> string option \<Rightarrow> string option \<Rightarrow> unit svc" where
  "onboarding_handle gw rd phone message tid mid media mtype = bindA (trader_get_by_phone phone) (\<lambda>t. case t of
     Some _ \<Rightarrow> ret ()
   | None \<Rightarrow> bindA (get_state phone) (\<lambda>s. let tk = \<lparr>tk_phone = phone, tk_tenant = tid, tk_id = mid, tk_msg = strip message\<rparr> in
       case s of None \<Rightarrow> begin_or_ignore gw tk
       | Some (step, data) \<Rightarrow> resume gw rd tk media mtype step data))"

text \<open>
  The event handler. Its own session only reads, so there is nothing to undo when the service raises.
\<close>

definition handle_onboarding :: "gateway \<Rightarrow> reader \<Rightarrow> event \<Rightarrow> unit svc" where
  "handle_onboarding gw rd e = (let p = ev_payload e; tid = ev_tenant_id e;
       sender = payload_str p ''sender_identifier'';
       phone = (if sender \<noteq> [] then sender else payload_str p ''customer_identifier'');
       content = payload_str p ''content''; mid = payload_str p ''id'' in
     if payload_str p ''channel'' \<noteq> ''whatsapp'' then ret ()
     else if tid = [] \<or> phone = [] \<or> content = [] \<or> mid = [] then ret ()
     else onboarding_handle gw rd phone content tid mid (payload_opt p ''media_id'') (payload_opt p ''media_type''))"

definition register_onboarding_handler :: "gateway \<Rightarrow> reader \<Rightarrow> event list \<Rightarrow> world \<Rightarrow> world" where
  "register_onboarding_handler gw rd = create_global_listener_task ''conversation.message_saved'' (handle_onboarding gw rd)"

section \<open>What one message can do\<close>

text \<open>An action started where the predicate holds leaves it true and raises nothing but the listed errors.\<close>

definition outcome :: "(world \<Rightarrow> bool) \<Rightarrow> error set \<Rightarrow> 'a svc \<Rightarrow> bool" where
  "outcome P E m \<longleftrightarrow> (\<forall>w. P w \<longrightarrow> P (snd (m w)) \<and> (\<forall>e. fst (m w) = Inl e \<longrightarrow> e \<in> E))"

lemma outcomeD: "outcome P E m \<Longrightarrow> P w \<Longrightarrow> P (snd (m w)) \<and> (\<forall>e. fst (m w) = Inl e \<longrightarrow> e \<in> E)"
  by (simp add: outcome_def)

lemma outcome_keeps: "outcome P E m \<Longrightarrow> keeps m P"
  by (simp add: outcome_def keeps_def)

lemma outcome_ret: "outcome P E (ret x)" and outcome_getA: "outcome P E (getA f)"
  by (simp_all add: outcome_def)

lemma outcome_raise: "e \<in> E \<Longrightarrow> outcome P E (raise e)"
  by (simp add: outcome_def)

lemma outcome_modA: "(\<And>w. P w \<Longrightarrow> P (f w)) \<Longrightarrow> outcome P E (modA f)"
  by (simp add: outcome_def)

lemma outcome_bindA: "outcome P E m \<Longrightarrow> (\<And>x. outcome P E (f x)) \<Longrightarrow> outcome P E (bindA m f)"
  unfolding outcome_def bindA_apply by (fastforce split: prod.splits sum.splits)

lemma outcome_thenA: "outcome P E m \<Longrightarrow> outcome P E k \<Longrightarrow> outcome P E (thenA m k)"
  by (simp add: thenA_def outcome_bindA)

lemma outcome_if: "outcome P E m \<Longrightarrow> outcome P E k \<Longrightarrow> outcome P E (if b then m else k)"
  by simp

lemma outcome_option: "outcome P E m \<Longrightarrow> (\<And>x. outcome P E (f x)) \<Longrightarrow> outcome P E (case v of None \<Rightarrow> m | Some x \<Rightarrow> f x)"
  by (cases v) auto

lemma outcome_quiet: "quiet m \<Longrightarrow> (\<And>w w'. aside w w' \<Longrightarrow> P w \<Longrightarrow> P w') \<Longrightarrow> outcome P E m"
  unfolding outcome_def quiet_def by (metis fst_conv snd_conv sum.distinct(1))

lemma say_quiet [simp]: "quiet (say gw tk sfx msg)"
  unfolding say_def quiet_def
proof
  fix w
  let ?m = "session_begin (send_message gw (tk_tenant tk) (''onboarding_reply.'' @ tk_id tk @ sfx) (tk_phone tk) msg ''whatsapp'' None None)"
  have a: "aside v (snd (send_message gw (tk_tenant tk) (''onboarding_reply.'' @ tk_id tk @ sfx) (tk_phone tk) msg ''whatsapp'' None None v))" for v
    by (simp add: send_message_def dispatch_adapter_defs send_once_aside only_may)
  then have "quiet (tryA ?m (\<lambda>_. ret ()))" by (rule quiet_swallow)
  then obtain y w' where "tryA ?m (\<lambda>_. ret ()) w = (Inr y, w')" "aside w w'" by (rule quietE)
  then show "\<exists>y w'. tryA (thenA ?m (ret True)) (\<lambda>_. ret False) w = (Inr y, w') \<and> aside w w'"
    by (auto simp: tryA_apply thenA_apply split: prod.splits sum.splits)
qed

lemma tell_quiet [simp]: "quiet (tell gw tk sfx msg)"
  by (auto simp: tell_def)

text \<open>
  The unique columns of the traders table, and the stored dialogues: none waits for the confirmation of products read from media,
  and one in the questions has a question left.
\<close>

definition unique_traders :: "world \<Rightarrow> bool" where
  "unique_traders w \<longleftrightarrow> distinct (map td_phone_number (traders w)) \<and> distinct (slugs w) \<and> distinct (referral_codes w)"

fun proper :: "onboarding_step \<Rightarrow> onboarding_data \<Rightarrow> bool" where
  "proper AWAITING_PHOTO_CONFIRMATION data = False"
| "proper AWAITING_VOICE_CONFIRMATION data = False"
| "proper QA_IN_PROGRESS data = (od_qa_index data < length (get_items (or_empty (od_category data))))"
| "proper _ data = True"

definition onboarding_ok :: "world \<Rightarrow> bool" where
  "onboarding_ok w \<longleftrightarrow> (\<forall>phone step data ex. kv (redis w) (onboarding_key phone) = Some (OnboardingDoc step data, ex) \<longrightarrow> proper step data)"

definition unchanged_since :: "world \<Rightarrow> world \<Rightarrow> bool" where
  "unchanged_since w0 w \<longleftrightarrow> traders w = traders w0 \<and> published w = published w0 \<and> onboarding_ok w"

definition failures :: "error set" where
  "failures = {NameError ''state'', ImportError ''save_state''}"

lemma aside_traders: "aside w w' \<Longrightarrow> traders w' = traders w \<and> published w' = published w \<and> redis w' = redis w \<and> clock w' = clock w"
proof -
  assume a: "aside w w'"
  then have "traders (core w') = traders (core w)" by (simp add: aside_def)
  with aside_fields [OF a] show ?thesis by (simp add: core_def)
qed

lemma since_aside: "aside w w' \<Longrightarrow> unchanged_since w0 w \<Longrightarrow> unchanged_since w0 w'"
  by (simp add: unchanged_since_def onboarding_ok_def aside_traders)

lemma onboarding_key_inj [simp]: "onboarding_key p = onboarding_key q \<longleftrightarrow> p = q"
  by (simp add: onboarding_key_def)

lemma onboarding_ok_updates [simp]:
  "onboarding_ok (w\<lparr>onboarding_events := es\<rparr>) = onboarding_ok w" "onboarding_ok (w\<lparr>uuid_n := n\<rparr>) = onboarding_ok w"
  by (simp_all add: onboarding_ok_def)

lemma onboarding_okD: "onboarding_ok w \<Longrightarrow> kv (redis w) (onboarding_key phone) = Some (OnboardingDoc step data, ex) \<Longrightarrow> proper step data"
  unfolding onboarding_ok_def by blast

lemma complete_raises:
  assumes "unique_traders w" and "\<forall>t\<in>set (traders w). td_phone_number t \<noteq> tk_phone tk"
  shows "\<exists>n. complete gw tk sfx data w = (Inl (NameError ''state''), w\<lparr>onboarding_events := onboarding_events w @
     [\<lparr>oe_phone_number = tk_phone tk, oe_event_type = ''completed'', oe_step_name = Some ''completed'', oe_path = Some (completion_path data),
       oe_created_at = clock w\<rparr>], uuid_n := n\<rparr>)"
proof -
  let ?w = "w\<lparr>onboarding_events := onboarding_events w @
     [\<lparr>oe_phone_number = tk_phone tk, oe_event_type = ''completed'', oe_step_name = Some ''completed'', oe_path = Some (completion_path data),
       oe_created_at = clock w\<rparr>]\<rparr>"
  let ?name = "or_empty (od_name data)"
  have nobody: "filter (\<lambda>t. td_phone_number t = tk_phone tk \<and> True) (traders w) = []"
    using assms(2) by (simp add: filter_empty_conv)
  have slug: "\<exists>s. generate_unique_slug ?name ?w = (Inr s, ?w)"
    using unique_loop_spec [of "slugs w" "slug_base ?name" "slug_base ?name" 2] assms(1)
    by (auto simp: generate_unique_slug_def bindA_apply unique_traders_def slugs_def)
  have unique: "\<exists>c. ensure_unique_referral_code code (?w\<lparr>uuid_n := n\<rparr>) = (Inr c, ?w\<lparr>uuid_n := n\<rparr>)" for code n
    using unique_loop_spec [of "referral_codes w" code code 2] assms(1)
    by (auto simp: ensure_unique_referral_code_def bindA_apply unique_traders_def referral_codes_def)
  obtain code n where code: "generate_referral_code ?name ?w = (Inr code, ?w\<lparr>uuid_n := n\<rparr>)"
  proof (cases "split_ws (upper (strip (filter (\<lambda>c. is_alnum c \<or> is_space c) ?name)))")
    case Nil
    then show ?thesis using that [of _ "Suc (uuid_n w)"] by (simp add: generate_referral_code_def Let_def bindA_apply)
  next
    case (Cons a as)
    then show ?thesis using that [of _ "uuid_n w"] by (simp add: generate_referral_code_def Let_def)
  qed
  from slug obtain s where s: "generate_unique_slug ?name ?w = (Inr s, ?w)" by blast
  from unique obtain c where c: "ensure_unique_referral_code code (?w\<lparr>uuid_n := n\<rparr>) = (Inr c, ?w\<lparr>uuid_n := n\<rparr>)" by blast
  have "create_or_find tk ?name ?w = (Inl (NameError ''state''), ?w\<lparr>uuid_n := n\<rparr>)"
    using nobody by (simp add: create_or_find_def session_begin_def trader_get_by_phone_def bindA_apply s code c restore_db_def)
  then show ?thesis by (auto simp: complete_def Let_def thenA_apply bindA_apply track_onboarding_event_def)
qed

lemmas since_quiet = outcome_quiet [OF _ since_aside]

lemma set_state_outcome: "proper step data \<Longrightarrow> outcome (unchanged_since w0) failures (set_state phone step data)"
  unfolding set_state_def cache_setex_def
  by (rule outcome_modA) (auto simp: unchanged_since_def onboarding_ok_def redis_setex_def split: if_splits)

lemma proper_ignores [simp]: "proper step (data\<lparr>od_pending_prompt := p\<rparr>) = proper step data" "proper step (data\<lparr>od_last_active := t\<rparr>) = proper step data"
  by (cases step; simp)+

lemma track_outcome: "outcome (unchanged_since w0) failures (track_onboarding_event phone ty step path)"
  unfolding track_onboarding_event_def by (rule outcome_modA) (simp add: unchanged_since_def onboarding_ok_def)

lemma advance_outcome: "proper step data \<Longrightarrow> outcome (unchanged_since w0) failures (advance gw tk step data prompt)"
  unfolding advance_def
  by (intro outcome_thenA outcome_bindA outcome_if outcome_ret set_state_outcome since_quiet) simp_all

lemma tell_outcome: "outcome (unchanged_since w0) failures (tell gw tk sfx msg)"
  by (rule since_quiet) simp_all

text \<open>The traders a dialogue is led for: the phone number is in no row.\<close>

definition newcomer :: "world \<Rightarrow> string \<Rightarrow> bool" where
  "newcomer w phone \<longleftrightarrow> unique_traders w \<and> (\<forall>t\<in>set (traders w). td_phone_number t \<noteq> phone)"

lemma complete_outcome:
  assumes "newcomer w0 (tk_phone tk)"
  shows "outcome (unchanged_since w0) failures (complete gw tk sfx data)"
  unfolding outcome_def
proof (intro allI impI)
  fix w assume u: "unchanged_since w0 w"
  with assms have "unique_traders w" "\<forall>t\<in>set (traders w). td_phone_number t \<noteq> tk_phone tk"
    by (simp_all add: newcomer_def unchanged_since_def unique_traders_def slugs_def referral_codes_def)
  from complete_raises [OF this, of gw sfx data] u
  show "unchanged_since w0 (snd (complete gw tk sfx data w)) \<and> (\<forall>e. fst (complete gw tk sfx data w) = Inl e \<longrightarrow> e \<in> failures)"
    by (auto simp: unchanged_since_def failures_def)
qed

lemmas onboarding_rules = outcome_thenA outcome_bindA outcome_if outcome_option outcome_ret outcome_getA track_outcome advance_outcome
  tell_outcome set_state_outcome

lemma start_qa_outcome: "newcomer w0 (tk_phone tk) \<Longrightarrow> outcome (unchanged_since w0) failures (start_qa gw tk data)"
  unfolding start_qa_def
  by (cases "get_items (or_empty (od_category data))") (simp_all add: complete_outcome advance_outcome)

lemma choice_outcome: "newcomer w0 (tk_phone tk) \<Longrightarrow> outcome (unchanged_since w0) failures (handle_catalogue_choice gw tk data)"
  unfolding handle_catalogue_choice_def Let_def chosen_path_def
  by (intro onboarding_rules start_qa_outcome complete_outcome) simp_all

lemma media_outcome: "outcome (unchanged_since w0) failures (send_extracted_product_list ps)"
  unfolding send_extracted_product_list_def by (rule outcome_raise) (simp add: failures_def)

lemma reading_outcome:
  "proper step data \<Longrightarrow> outcome (unchanged_since w0) failures (case ps of [] \<Rightarrow> advance gw tk step data prompt | a # as \<Rightarrow> send_extracted_product_list (a # as))"
  by (cases ps) (simp_all add: advance_outcome media_outcome)

lemma step_outcome:
  assumes "newcomer w0 (tk_phone tk)" and "proper step data"
  shows "outcome (unchanged_since w0) failures (step_handler gw rd tk data media mtype step)"
proof (cases step)
  case AWAITING_NAME
  then show ?thesis by (simp add: handle_name_def Let_def) (intro conjI impI onboarding_rules; simp)
next
  case AWAITING_CATEGORY
  then show ?thesis by (simp add: handle_category_def Let_def) (intro conjI impI onboarding_rules; simp)
next
  case AWAITING_CATALOGUE
  then show ?thesis using assms(1) by (simp add: choice_outcome)
next
  case AWAITING_PHOTO
  then show ?thesis using assms(1) by hypsubst (simp only: step_handler.simps handle_photo_def, intro onboarding_rules choice_outcome reading_outcome; simp)
next
  case AWAITING_VOICE
  then show ?thesis using assms(1) by hypsubst (simp only: step_handler.simps handle_voice_def, intro onboarding_rules choice_outcome reading_outcome; simp)
next
  case QA_IN_PROGRESS
  with assms show ?thesis by (simp add: handle_qa_def Let_def) (intro conjI impI onboarding_rules complete_outcome; simp)
qed (use assms in simp_all)

lemma resume_outcome:
  assumes "newcomer w0 (tk_phone tk)" and "proper step data"
  shows "outcome (unchanged_since w0) failures (resume gw rd tk media mtype step data)"
  unfolding resume_def Let_def
  by (intro onboarding_rules step_outcome since_quiet) (use assms in simp_all)

lemma begin_outcome: "outcome (unchanged_since w0) failures (begin_or_ignore gw tk)"
proof -
  have "outcome (unchanged_since w0) failures (start gw tk ty code)" for ty code
    unfolding start_def by (intro onboarding_rules) simp
  then show ?thesis by (auto simp: begin_or_ignore_def outcome_ret split: option.splits)
qed

lemma handle_outcome:
  assumes "unique_traders w0"
  shows "outcome (unchanged_since w0) failures (onboarding_handle gw rd phone message tid mid media mtype)"
  unfolding outcome_def
proof (intro allI impI)
  fix w assume u: "unchanged_since w0 w"
  let ?tk = "\<lparr>tk_phone = phone, tk_tenant = tid, tk_id = mid, tk_msg = strip message\<rparr>"
  let ?goal = "\<lambda>m. unchanged_since w0 (snd (m w)) \<and> (\<forall>e. fst (m w) = Inl e \<longrightarrow> e \<in> failures)"
  have d: "distinct (map td_phone_number (traders w))" using u assms by (simp add: unchanged_since_def unique_traders_def)
  show "?goal (onboarding_handle gw rd phone message tid mid media mtype)"
  proof (cases "find (\<lambda>t. td_phone_number t = phone \<and> True) (traders w)")
    case (Some t)
    then show ?thesis using u by (simp add: onboarding_handle_def bindA_apply trader_get_by_phone_def scalar_key [OF d, of phone "\<lambda>_. True", simplified])
  next
    case None
    then have nobody: "\<forall>t\<in>set (traders w0). td_phone_number t \<noteq> phone" using u by (auto simp: find_None_iff unchanged_since_def)
    with assms have new: "newcomer w0 (tk_phone ?tk)" by (simp add: newcomer_def)
    have f: "trader_get_by_phone phone w = (Inr None, w)"
      using None by (simp add: bindA_apply trader_get_by_phone_def scalar_key [OF d, of phone "\<lambda>_. True", simplified])
    show ?thesis
    proof (cases "get_state phone w")
      case (Pair r w')
      then obtain s where s: "get_state phone w = (Inr s, w)" and p: "\<forall>step data. s = Some (step, data) \<longrightarrow> proper step data"
        using u by (auto simp: get_state_def cache_get_def bindA_apply redis_get_def unchanged_since_def dest: onboarding_okD
            split: option.splits doc.splits if_splits prod.splits)
      then show ?thesis
        using outcomeD [OF begin_outcome u, of gw ?tk] outcomeD [OF resume_outcome [OF new] u, of _ _ gw rd media mtype]
        by (cases s) (auto simp: onboarding_handle_def bindA_apply f Let_def)
    qed
  qed
qed

lemma handler_outcome: "unique_traders w0 \<Longrightarrow> outcome (unchanged_since w0) failures (handle_onboarding gw rd e)"
  unfolding handle_onboarding_def Let_def by (intro outcome_if outcome_ret handle_outcome)

text \<open>Messages arriving over time, each given to the registered listener.\<close>

definition onboarding_run :: "gateway \<Rightarrow> reader \<Rightarrow> (int \<times> event) list \<Rightarrow> world \<Rightarrow> world" where
  "onboarding_run gw rd es w = fold (\<lambda>(s, e) w. register_onboarding_handler gw rd [e] (pass_time s w)) es w"

lemma run_unchanged: "unique_traders w0 \<Longrightarrow> unchanged_since w0 w \<Longrightarrow> unchanged_since w0 (onboarding_run gw rd es w)"
proof (induction es arbitrary: w)
  case Nil
  then show ?case by (simp add: onboarding_run_def)
next
  case (Cons x es)
  obtain s e where x: "x = (s, e)" by fastforce
  have "unchanged_since w0 (pass_time s w)" using Cons.prems(2) by (simp add: unchanged_since_def onboarding_ok_def pass_time_def)
  then have "unchanged_since w0 (register_onboarding_handler gw rd [e] (pass_time s w))"
    unfolding register_onboarding_handler_def create_global_listener_task_def
    by (rule listener_loop_keeps [rotated, where P = "unchanged_since w0"])
      (rule outcome_keeps [OF handler_outcome [OF Cons.prems(1)]])
  from Cons.IH [OF Cons.prems(1) this] show ?case by (simp add: onboarding_run_def x)
qed

text \<open>
  C27: WhatsApp onboarding never creates a trader. Whatever messages arrive at whatever times, and whatever the media
  pipeline reads in them, the traders table stays as it is, no \<open>trader.onboarded\<close> (nor any other) event is published, no dialogue ever
  reaches the confirmation of products read from a photo or a voice note, and a dialogue in the questions always has a question left.
\<close>

theorem onboarding_never_completes:
  assumes "unique_traders w" and "onboarding_ok w"
  shows "traders (onboarding_run gw rd es w) = traders w \<and> published (onboarding_run gw rd es w) = published w
     \<and> onboarding_ok (onboarding_run gw rd es w)"
  using run_unchanged [OF assms(1), of w gw rd es] assms(2) by (simp add: unchanged_since_def)

text \<open>
  The exceptions of one message. The handler of a message either returns or raises one of two errors: the undefined name
  \<open>state\<close> on completion or the missing import of \<open>save_state\<close> after media was read. In particular the current question's index is
  never out of range.
\<close>

theorem onboarding_exceptions:
  assumes "unique_traders w" and "onboarding_ok w"
  shows "fst (handle_onboarding gw rd e w) \<in> {Inr (), Inl (NameError ''state''), Inl (ImportError ''save_state'')}"
proof -
  have "unchanged_since w w" using assms by (simp add: unchanged_since_def)
  with outcomeD [OF handler_outcome [OF assms(1), of gw rd e]] show ?thesis
    by (cases "fst (handle_onboarding gw rd e w)") (auto simp: failures_def)
qed

section \<open>The end of a dialogue\<close>

text \<open>The messages that end a dialogue: skipping the catalogue, choosing questions when there are none, the answer to the last question.\<close>

fun ends :: "onboarding_step \<Rightarrow> onboarding_data \<Rightarrow> string \<Rightarrow> bool" where
  "ends step data m = (let items = get_items (or_empty (od_category data)) in
     if step = QA_IN_PROGRESS then lower m \<in> set skip_words \<or> Suc (od_qa_index data) = length items
     else step \<in> {AWAITING_CATALOGUE, AWAITING_PHOTO, AWAITING_VOICE} \<and> (m = ''4'' \<or> m = ''3'' \<and> items = []))"

lemma strip_strip [simp]: "strip (strip s) = strip s"
proof -
  let ?t = "lstrip s"
  have tail: "?t = rstrip ?t @ rev (takeWhile is_space (rev ?t))"
    by (metis rev_append rev_rev_ident rstrip_def takeWhile_dropWhile_id)
  have "lstrip (rstrip ?t) = rstrip ?t"
  proof (cases "rstrip ?t")
    case (Cons c cs)
    with tail have "?t = c # cs @ rev (takeWhile is_space (rev ?t))" by simp
    then have "\<not> is_space c" unfolding lstrip_def by (metis hd_dropWhile list.distinct(1) list.sel(1))
    with Cons show ?thesis by (simp add: lstrip_def)
  qed (simp add: lstrip_def)
  then show ?thesis by (simp add: strip_def) (simp add: rstrip_def)
qed

definition same_dialogue :: "world \<Rightarrow> world \<Rightarrow> bool" where
  "same_dialogue w w' \<longleftrightarrow> traders w' = traders w \<and> redis w' = redis w \<and> clock w' = clock w"

lemma complete_ends:
  assumes "newcomer w (tk_phone tk)"
  shows "\<exists>w'. complete gw tk sfx data w = (Inl (NameError ''state''), w') \<and> same_dialogue w w'
     \<and> oe_event_type (last (onboarding_events w')) = ''completed''"
  using complete_raises [of w tk gw sfx data] assms by (auto simp: newcomer_def same_dialogue_def)

lemma newcomer_same: "same_dialogue w w' \<Longrightarrow> newcomer w phone \<Longrightarrow> newcomer w' phone"
  by (simp add: same_dialogue_def newcomer_def unique_traders_def slugs_def referral_codes_def)

lemma after_same:
  assumes "m w = (Inr x, w1)" and "same_dialogue w w1" and "newcomer w (tk_phone tk)"
  shows "\<exists>w'. thenA m (complete gw tk sfx data) w = (Inl (NameError ''state''), w') \<and> same_dialogue w w'
     \<and> oe_event_type (last (onboarding_events w')) = ''completed''"
  using complete_ends [OF newcomer_same [OF assms(2,3)], of gw sfx data] assms(1,2) by (auto simp: thenA_apply same_dialogue_def)

lemma tell_same:
  obtains w1 where "tell gw tk sfx msg w = (Inr (), w1)" and "same_dialogue w w1"
proof -
  obtain x w1 where "tell gw tk sfx msg w = (Inr x, w1)" "aside w w1" using tell_quiet by (rule quietE)
  with that show thesis by (simp add: same_dialogue_def aside_traders)
qed

lemma choice_ends:
  assumes "newcomer w (tk_phone tk)" and "tk_msg tk = strip m" and "strip m = ''4'' \<or> strip m = ''3'' \<and> get_items (or_empty (od_category data)) = []"
  shows "\<exists>w'. handle_catalogue_choice gw tk data w = (Inl (NameError ''state''), w') \<and> same_dialogue w w'
     \<and> oe_event_type (last (onboarding_events w')) = ''completed''"
proof -
  have t: "chosen_path tk p w = (Inr (), w\<lparr>onboarding_events := onboarding_events w @ [\<lparr>oe_phone_number = tk_phone tk,
      oe_event_type = ''path_chosen'', oe_step_name = Some ''catalogue_path'', oe_path = Some p, oe_created_at = clock w\<rparr>]\<rparr>)" for p
    by (simp add: chosen_path_def track_onboarding_event_def)
  show ?thesis using assms(2,3) after_same [where m = "chosen_path tk p" and sfx = "[]" for p, OF t _ assms(1), of _ gw data]
    by (auto simp: handle_catalogue_choice_def Let_def start_qa_def same_dialogue_def)
qed

lemma qa_ends:
  assumes "newcomer w (tk_phone tk)" and "tk_msg tk = strip m" and "ends QA_IN_PROGRESS data (strip m)" and "proper QA_IN_PROGRESS data"
  shows "\<exists>w'. handle_qa gw tk data w = (Inl (NameError ''state''), w') \<and> same_dialogue w w'
     \<and> oe_event_type (last (onboarding_events w')) = ''completed''"
proof (cases "lower (strip m) \<in> set skip_words")
  case True
  obtain w1 where "tell gw tk [] (Template ''QA_DONE_EARLY'' []) w = (Inr (), w1)" "same_dialogue w w1" by (rule tell_same)
  from after_same [where m = "tell gw tk [] (Template ''QA_DONE_EARLY'' [])", OF this assms(1), of gw "''_done''" data] True assms(2) show ?thesis by (simp add: handle_qa_def Let_def)
next
  case False
  with assms(2-4) complete_ends [OF assms(1), of gw "[]"] show ?thesis by (simp add: handle_qa_def Let_def)
qed

text \<open>The dialogue of a phone number, as Redis holds it.\<close>

definition dialogue :: "world \<Rightarrow> string \<Rightarrow> (onboarding_step \<times> onboarding_data) option" where
  "dialogue w phone = (case redis_get (clock w) (onboarding_key phone) (redis w) of Some (OnboardingDoc step data) \<Rightarrow> Some (step, data) | _ \<Rightarrow> None)"

definition stamped :: "onboarding_step \<Rightarrow> onboarding_data \<Rightarrow> string \<Rightarrow> world \<Rightarrow> world" where
  "stamped step data phone w = exec (set_state phone step data) w"

lemma get_state_eq: "get_state phone w = (Inr (dialogue w phone), w)"
  by (auto simp: get_state_def cache_get_def bindA_apply dialogue_def split: option.splits doc.splits)

lemma set_state_eq: "set_state phone step data w = (Inr (), stamped step data phone w)"
  by (simp add: stamped_def exec_def set_state_def cache_setex_def)

lemma dialogue_stamped: "dialogue (stamped step data phone w) q = (if q = phone then Some (step, data) else dialogue w q)"
  by (simp add: dialogue_def stamped_def exec_def set_state_def cache_setex_def redis_get_setex ONBOARDING_TTL_def second_def)

lemma stamped_fields [simp]: "traders (stamped step data phone w) = traders w" "clock (stamped step data phone w) = clock w"
  by (simp_all add: stamped_def exec_def set_state_def cache_setex_def)

lemma newcomer_stamped [simp]: "newcomer (stamped step data phone w) p = newcomer w p"
  by (simp add: newcomer_def unique_traders_def slugs_def referral_codes_def)

lemma dialogue_same: "same_dialogue w w' \<Longrightarrow> dialogue w' p = dialogue w p"
  by (simp add: same_dialogue_def dialogue_def)

lemma newcomer_lookup: "newcomer w phone \<Longrightarrow> trader_get_by_phone phone w = (Inr None, w)"
  by (simp add: newcomer_def trader_get_by_phone_def bindA_apply filter_empty_conv scalar_None)

text \<open>What precedes the step: an optional greeting and the time of activity.\<close>

lemma resume_greets:
  assumes "newcomer w phone" and "dialogue w phone = Some (step, data)"
  obtains w1 where "same_dialogue w w1" and
    "onboarding_handle gw rd phone message tid mid media mtype w =
       (let tk = \<lparr>tk_phone = phone, tk_tenant = tid, tk_id = mid, tk_msg = strip message\<rparr>; data' = data\<lparr>od_last_active := clock w\<rparr> in
        (case od_pending_prompt data of
          Some prompt \<Rightarrow> bindA (say gw tk ''_reprompt'' prompt) (\<lambda>ok.
            if ok then set_state (tk_phone tk) step (data'\<lparr>od_pending_prompt := None\<rparr>) else ret ())
        | None \<Rightarrow> step_handler gw rd tk data' media mtype step) (stamped step data' phone w1))"
proof -
  let ?tk = "\<lparr>tk_phone = phone, tk_tenant = tid, tk_id = mid, tk_msg = strip message\<rparr>"
  let ?hi = "if od_last_active data \<noteq> 0 \<and> WELCOME_BACK_GAP < clock w - od_last_active data then tell gw ?tk ''_wb'' (Template ''WELCOME_BACK'' []) else ret ()"
  obtain w1 where w1: "?hi w = (Inr (), w1)" "same_dialogue w w1"
  proof (cases "od_last_active data \<noteq> 0 \<and> WELCOME_BACK_GAP < clock w - od_last_active data")
    case True
    obtain v where "tell gw ?tk ''_wb'' (Template ''WELCOME_BACK'' []) w = (Inr (), v)" "same_dialogue w v" by (rule tell_same)
    with that [of v] True show ?thesis by simp
  next
    case False
    with that [of w] show ?thesis by (simp add: same_dialogue_def)
  qed
  show thesis
    by (rule that [OF w1(2)]) (simp add: onboarding_handle_def bindA_apply newcomer_lookup [OF assms(1)] get_state_eq assms(2) Let_def resume_def thenA_apply w1(1) set_state_eq
        split: option.splits)
qed

text \<open>
  A dialogue cannot be finished. Whatever message ends it (the catalogue is skipped, there are no questions to ask, the
  last question is answered or the rest is skipped), the handler logs the analytics event of a completed onboarding and then raises; no
  trader is created, and the dialogue stays where it was, so that the next message ends it the same way.
\<close>

theorem onboarding_end_fails:
  assumes "newcomer w phone" and "dialogue w phone = Some (step, data)" and "od_pending_prompt data = None"
    and "ends step data (strip message)" and "proper step data"
  shows "\<exists>w'. onboarding_handle gw rd phone message tid mid media mtype w = (Inl (NameError ''state''), w')
     \<and> traders w' = traders w \<and> dialogue w' phone = Some (step, data\<lparr>od_last_active := clock w\<rparr>)
     \<and> oe_event_type (last (onboarding_events w')) = ''completed''"
proof -
  let ?tk = "\<lparr>tk_phone = phone, tk_tenant = tid, tk_id = mid, tk_msg = strip message\<rparr>"
  let ?d = "data\<lparr>od_last_active := clock w\<rparr>"
  obtain w1 where w1: "same_dialogue w w1"
    and run: "onboarding_handle gw rd phone message tid mid media mtype w = step_handler gw rd ?tk ?d media mtype step (stamped step ?d phone w1)"
    using resume_greets [OF assms(1,2), of gw rd message tid mid media mtype] assms(3) by (auto simp: Let_def)
  have new: "newcomer (stamped step ?d phone w1) (tk_phone ?tk)" using newcomer_same [OF w1 assms(1)] by simp
  note ends = choice_ends [OF new, of message ?d gw] qa_ends [OF new, of message ?d gw]
  have "\<exists>w'. step_handler gw rd ?tk ?d media mtype step (stamped step ?d phone w1) = (Inl (NameError ''state''), w')
     \<and> same_dialogue (stamped step ?d phone w1) w' \<and> oe_event_type (last (onboarding_events w')) = ''completed''"
    using ends assms(4,5) by (cases step) (auto simp: Let_def handle_photo_def handle_voice_def switch_words_def)
  then obtain w' where w': "step_handler gw rd ?tk ?d media mtype step (stamped step ?d phone w1) = (Inl (NameError ''state''), w')"
     "same_dialogue (stamped step ?d phone w1) w'" "oe_event_type (last (onboarding_events w')) = ''completed''" by blast
  have "traders w' = traders w" using w'(2) w1 by (simp add: same_dialogue_def)
  moreover have "dialogue w' phone = Some (step, ?d)" using dialogue_same [OF w'(2)] by (simp add: dialogue_stamped)
  ultimately show ?thesis using run w'(1,3) by simp
qed

text \<open>
  An undelivered prompt comes first. A message that arrives while the last prompt is still undelivered is not interpreted: the
  prompt is sent again, the step and everything the trader told so far stay, and the prompt is forgotten exactly when the sending
  succeeded. The handler does not raise.
\<close>

theorem pending_prompt_first:
  assumes "newcomer w phone" and "dialogue w phone = Some (step, data)" and "od_pending_prompt data = Some prompt"
  shows "\<exists>w1 ok w2 w'. same_dialogue w w1
     \<and> say gw \<lparr>tk_phone = phone, tk_tenant = tid, tk_id = mid, tk_msg = strip message\<rparr> ''_reprompt'' prompt
         (exec (set_state phone step (data\<lparr>od_last_active := clock w\<rparr>)) w1) = (Inr ok, w2)
     \<and> onboarding_handle gw rd phone message tid mid media mtype w = (Inr (), w')
     \<and> dialogue w' phone = Some (step, data\<lparr>od_last_active := clock w, od_pending_prompt := (if ok then None else Some prompt)\<rparr>)
     \<and> (\<forall>q. q \<noteq> phone \<longrightarrow> dialogue w' q = dialogue w q) \<and> traders w' = traders w"
proof -
  let ?tk = "\<lparr>tk_phone = phone, tk_tenant = tid, tk_id = mid, tk_msg = strip message\<rparr>"
  let ?d = "data\<lparr>od_last_active := clock w\<rparr>"
  obtain w1 where w1: "same_dialogue w w1"
    and run: "onboarding_handle gw rd phone message tid mid media mtype w = bindA (say gw ?tk ''_reprompt'' prompt) (\<lambda>ok.
       if ok then set_state phone step (?d\<lparr>od_pending_prompt := None\<rparr>) else ret ()) (stamped step ?d phone w1)"
  proof (rule resume_greets [OF assms(1,2), of gw rd message tid mid media mtype])
    fix v
    assume "same_dialogue w v" and "onboarding_handle gw rd phone message tid mid media mtype w =
       (let tk = ?tk; data' = ?d in (case od_pending_prompt data of
          Some prompt \<Rightarrow> bindA (say gw tk ''_reprompt'' prompt) (\<lambda>ok.
            if ok then set_state (tk_phone tk) step (data'\<lparr>od_pending_prompt := None\<rparr>) else ret ())
        | None \<Rightarrow> step_handler gw rd tk data' media mtype step) (stamped step data' phone v))"
    then show thesis using assms(3) by (intro that [of v]) (simp_all add: Let_def cong: if_cong)
  qed
  obtain ok w2 where ok: "say gw ?tk ''_reprompt'' prompt (stamped step ?d phone w1) = (Inr ok, w2)" and a: "aside (stamped step ?d phone w1) w2"
    using say_quiet by (rule quietE)
  from a have same: "same_dialogue (stamped step ?d phone w1) w2" by (simp add: same_dialogue_def aside_traders)
  have pend: "?d\<lparr>od_pending_prompt := Some prompt\<rparr> = ?d" using assms(3) by simp
  let ?w = "if ok then stamped step (?d\<lparr>od_pending_prompt := None\<rparr>) phone w2 else w2"
  have 1: "onboarding_handle gw rd phone message tid mid media mtype w = (Inr (), ?w)"
    by (simp add: run bindA_apply ok set_state_eq)
  have 2: "dialogue ?w phone = Some (step, ?d\<lparr>od_pending_prompt := (if ok then None else Some prompt)\<rparr>)"
    using pend by (simp add: dialogue_stamped dialogue_same [OF same])
  have 3: "\<forall>q. q \<noteq> phone \<longrightarrow> dialogue ?w q = dialogue w q"
    by (simp add: dialogue_stamped dialogue_same [OF same] dialogue_same [OF w1])
  have 4: "traders ?w = traders w" using same w1 by (simp add: same_dialogue_def)
  have 5: "say gw ?tk ''_reprompt'' prompt (exec (set_state phone step ?d) w1) = (Inr ok, w2)" using ok by (simp add: stamped_def)
  show ?thesis
    by (rule exI [of _ w1], rule exI [of _ ok], rule exI [of _ w2], rule exI [of _ ?w], intro conjI) (fact w1 1 2 3 4 5)+
qed

section \<open>Examples\<close>

definition iya_taiwo :: onboarding_data where
  "iya_taiwo = no_data\<lparr>od_last_active := 7, od_name := Some ''Iya Taiwo'', od_category := Some ''fabric''\<rparr>"

definition in_dialogue :: "onboarding_step \<Rightarrow> onboarding_data \<Rightarrow> world" where
  "in_dialogue step data = exec (set_state ''0803'' step data) (empty_world\<lparr>clock := 9, traders := [example_trader ''080'' ''mama-caro'']\<rparr>)"

definition blind_reader :: reader where
  "blind_reader = \<lparr>rd_image = \<lambda>_ _ _. Inr [], rd_audio = \<lambda>_ _ _ _. Inl (DispatchError ''whisper'')\<rparr>"

definition says_hi :: event where
  "says_hi = \<lparr>ev_event_name = ''conversation.message_saved'', ev_tenant_id = ''t1'', ev_payload = [(''channel'', JStr ''whatsapp''),
     (''sender_identifier'', JStr ''0803''), (''content'', JStr ''hi''), (''id'', JStr ''m1'')], ev_event_id = ''e1'', ev_timestamp = 9\<rparr>"

lemma in_dialogue_facts: "dialogue (in_dialogue step data) ''0803'' = Some (step, data)" "newcomer (in_dialogue step data) ''0803''"
  "clock (in_dialogue step data) = 9" "unique_traders (in_dialogue step data)"
  unfolding in_dialogue_def stamped_def [symmetric]
  by (simp_all add: dialogue_stamped newcomer_def unique_traders_def slugs_def referral_codes_def example_trader_def List.map_filter_def)

lemma in_dialogue_ok: "proper step data \<Longrightarrow> onboarding_ok (in_dialogue step data)"
  by (auto simp: onboarding_ok_def in_dialogue_def set_state_def cache_setex_def exec_def redis_setex_def empty_world_def empty_redis_def split: if_splits)

theorem onboarding_never_completes_witness:
  "unique_traders (in_dialogue AWAITING_CATALOGUE iya_taiwo) \<and> onboarding_ok (in_dialogue AWAITING_CATALOGUE iya_taiwo)
     \<and> length (traders (onboarding_run open_gateway blind_reader [(0, says_hi), (5, says_hi)] (in_dialogue AWAITING_CATALOGUE iya_taiwo))) = 1"
proof -
  let ?w = "in_dialogue AWAITING_CATALOGUE iya_taiwo"
  have ok: "unique_traders ?w" "onboarding_ok ?w" by (simp_all add: in_dialogue_facts in_dialogue_ok)
  have "length (traders ?w) = 1" by (simp add: in_dialogue_def stamped_def [symmetric])
  with onboarding_never_completes [OF ok, of open_gateway blind_reader "[(0, says_hi), (5, says_hi)]"] ok show ?thesis by metis
qed

theorem onboarding_exceptions_witness:
  "unique_traders (in_dialogue AWAITING_NAME no_data) \<and> onboarding_ok (in_dialogue AWAITING_NAME no_data)
     \<and> fst (handle_onboarding open_gateway blind_reader says_hi (in_dialogue AWAITING_NAME no_data)) \<noteq> Inl (IndexError ''list index out of range'')"
proof -
  let ?w = "in_dialogue AWAITING_NAME no_data"
  have ok: "unique_traders ?w" "onboarding_ok ?w" by (simp_all add: in_dialogue_facts in_dialogue_ok)
  with onboarding_exceptions [OF ok, of open_gateway blind_reader says_hi] show ?thesis by auto
qed

theorem onboarding_end_fails_witness:
  "let w = in_dialogue AWAITING_CATALOGUE iya_taiwo in newcomer w ''0803'' \<and> dialogue w ''0803'' = Some (AWAITING_CATALOGUE, iya_taiwo)
     \<and> od_pending_prompt iya_taiwo = None \<and> ends AWAITING_CATALOGUE iya_taiwo (strip '' 4'') \<and> proper AWAITING_CATALOGUE iya_taiwo
     \<and> fst (onboarding_handle open_gateway blind_reader ''0803'' '' 4'' ''t1'' ''m1'' None None w) = Inl (NameError ''state'')"
proof -
  have e: "ends AWAITING_CATALOGUE iya_taiwo (strip '' 4'')" by code_simp
  have p: "od_pending_prompt iya_taiwo = None" "proper AWAITING_CATALOGUE iya_taiwo" by (simp_all add: iya_taiwo_def no_data_def)
  from onboarding_end_fails [OF in_dialogue_facts(2) in_dialogue_facts(1) p(1) e p(2), of open_gateway blind_reader "''t1''" "''m1''" None None] e p
  show ?thesis by (auto simp: Let_def in_dialogue_facts simp del: ends.simps proper.simps)
qed

theorem pending_prompt_first_witness:
  "let d = iya_taiwo\<lparr>od_pending_prompt := Some (Template ''AWAIT_PHOTO'' [])\<rparr>; w = in_dialogue AWAITING_PHOTO d in
     newcomer w ''0803'' \<and> dialogue w ''0803'' = Some (AWAITING_PHOTO, d) \<and> od_pending_prompt d = Some (Template ''AWAIT_PHOTO'' [])
     \<and> fst (onboarding_handle open_gateway blind_reader ''0803'' ''4'' ''t1'' ''m1'' None None w) = Inr ()"
proof -
  let ?d = "iya_taiwo\<lparr>od_pending_prompt := Some (Template ''AWAIT_PHOTO'' [])\<rparr>"
  have p: "od_pending_prompt ?d = Some (Template ''AWAIT_PHOTO'' [])" by simp
  from pending_prompt_first [OF in_dialogue_facts(2) in_dialogue_facts(1) p, of AWAITING_PHOTO open_gateway "''t1''" "''m1''" "''4''" blind_reader None None]
  show ?thesis by (auto simp: Let_def in_dialogue_facts)
qed

end
