(* ===== verification/Auth.thy ===== *)
theory Auth
  imports Traders Notifications Onboarding
begin

text \<open>
  Accounts (\<open>modules/auth\<close>, \<open>modules/staff/router.py\<close>, \<open>infra/auth_utils.py\<close>, \<open>core/dependencies.py\<close>): sign-up and login by
  password, by Google and by a one-time code over WhatsApp, invitations of staff, and the check of the bearer token. Password
  hashing, the signature of tokens and Google's endpoint are parameters (a library record); what is random in the code (codes, invite tokens) is
  drawn from the supply of identifiers.
\<close>

section \<open>Libraries and settings\<close>

record claims =
  jw_sub :: string
  jw_tenant :: string
  jw_mail :: string
  jw_superadmin :: bool
  jw_exp :: timestamp

record google_claims =
  gc_aud :: "string option"
  gc_email :: "string option"
  gc_name :: "string option"

record authlib =
  al_hash :: "string \<Rightarrow> string"
  al_verify :: "string \<Rightarrow> string \<Rightarrow> bool"
  al_encode :: "claims \<Rightarrow> string"
  al_decode :: "timestamp \<Rightarrow> string \<Rightarrow> claims option"
  al_google :: "string \<Rightarrow> error + nat \<times> google_claims"
  al_random :: "string \<Rightarrow> nat"

record auth_settings =
  as_tenant_id :: string
  as_expire_minutes :: int
  as_google_client_id :: string
  as_phone_number_id :: string
  as_access_token :: string
  as_frontend_url :: string

definition MINUTE :: int where "MINUTE = 60 * second"

definition create_access_token :: "authlib \<Rightarrow> auth_settings \<Rightarrow> string \<Rightarrow> string \<Rightarrow> string \<Rightarrow> bool \<Rightarrow> string svc" where
  "create_access_token al st uid tid email super = bindA (getA clock) (\<lambda>now.
     ret (al_encode al \<lparr>jw_sub = uid, jw_tenant = tid, jw_mail = email, jw_superadmin = super, jw_exp = now + as_expire_minutes st * MINUTE\<rparr>))"

definition verify_google_token :: "authlib \<Rightarrow> auth_settings \<Rightarrow> string \<Rightarrow> error + string \<times> string" where
  "verify_google_token al st tok = (case al_google al tok of
     Inl _ \<Rightarrow> Inl (ValueError ''Could not reach Google to verify token'')
   | Inr (status, c) \<Rightarrow> if status \<noteq> 200 then Inl (ValueError ''Invalid or expired Google ID token'')
       else if as_google_client_id st \<noteq> [] \<and> gc_aud c \<noteq> Some (as_google_client_id st) then Inl (ValueError ''Google token audience mismatch - wrong client_id'')
       else if \<not> truthy_str (gc_email c) then Inl (ValueError ''Google token missing email claim'')
       else Inr (or_empty (gc_email c), or_empty (gc_name c)))"

section \<open>Who is asking\<close>

record principal =
  pn_user_id :: string
  pn_tenant_id :: string
  pn_email :: string
  pn_superadmin :: bool

definition get_current_user :: "authlib \<Rightarrow> string \<Rightarrow> principal svc" where
  "get_current_user al tok = bindA (getA clock) (\<lambda>now. case al_decode al now tok of
     None \<Rightarrow> raise (UnauthorizedError ''Invalid or expired token'')
   | Some c \<Rightarrow> if jw_sub c = [] \<or> jw_tenant c = [] then raise (UnauthorizedError ''Invalid token claims'')
       else ret \<lparr>pn_user_id = jw_sub c, pn_tenant_id = jw_tenant c, pn_email = jw_mail c, pn_superadmin = jw_superadmin c\<rparr>)"

definition require_superadmin :: "principal \<Rightarrow> principal svc" where
  "require_superadmin p = (if pn_superadmin p then ret p else raise (ForbiddenError ''Superadmin access required.''))"

section \<open>Repository\<close>

definition get_user_by_email :: "string \<Rightarrow> user option svc" where
  "get_user_by_email email = bindA (getA users) (\<lambda>us. liftE (scalar_one_or_none (filter (\<lambda>u. u_email u = email) us)))"

definition get_user_by_phone :: "string \<Rightarrow> user option svc" where
  "get_user_by_phone phone = bindA (getA users) (\<lambda>us. liftE (scalar_one_or_none (filter (\<lambda>u. u_phone_number u = Some phone) us)))"

definition create_user :: "string \<Rightarrow> string option \<Rightarrow> auth_provider \<Rightarrow> string option \<Rightarrow> string option \<Rightarrow> user svc" where
  "create_user email pw provider name phone = bindA uuid4 (\<lambda>i w.
     if email \<in> u_email ` set (users w) then (Inl (IntegrityError ''uq_users_email''), w)
     else if phone \<noteq> None \<and> phone \<in> u_phone_number ` set (users w) then (Inl (IntegrityError ''users_phone_number_key''), w)
     else let u = \<lparr>u_id = i, u_email = email, u_phone_number = phone, u_password_hash = pw, u_auth_provider = provider, u_display_name = name,
                   u_is_superadmin = False\<rparr>
          in (Inr u, w\<lparr>users := users w @ [u]\<rparr>))"

definition create_tenant :: "string option \<Rightarrow> tenant svc" where
  "create_tenant name = bindA uuid4 (\<lambda>i. let t = \<lparr>tn_id = i, tn_name = name\<rparr> in
     thenA (modA (\<lambda>w. w\<lparr>tenants := tenants w @ [t]\<rparr>)) (ret t))"

definition get_user_tenant :: "string \<Rightarrow> user_tenant option svc" where
  "get_user_tenant uid = bindA (getA user_tenants) (\<lambda>ts. liftE (scalar_one_or_none (take 1 (filter (\<lambda>m. ut_user_id m = uid) ts))))"

definition get_owner_tenant_or_first :: "string \<Rightarrow> user_tenant option svc" where
  "get_owner_tenant_or_first uid = bindA (getA user_tenants) (\<lambda>ts.
     liftE (scalar_one_or_none (take 1 (sort_key ut_role (filter (\<lambda>m. ut_user_id m = uid) ts)))))"

definition create_user_tenant :: "string \<Rightarrow> string \<Rightarrow> string \<Rightarrow> user_tenant svc" where
  "create_user_tenant uid tid role = (\<lambda>w.
     if (uid, tid) \<in> (\<lambda>m. (ut_user_id m, ut_tenant_id m)) ` set (user_tenants w) then (Inl (IntegrityError ''uq_user_tenants_user_tenant''), w)
     else let m = \<lparr>ut_user_id = uid, ut_tenant_id = tid, ut_role = role, ut_created_at = clock w\<rparr>
          in (Inr m, w\<lparr>user_tenants := user_tenants w @ [m]\<rparr>))"

section \<open>Sign-up and login\<close>

text \<open>What a session consists of: the token, the user, the tenant and the flag of a platform administrator.\<close>

record login =
  lg_access_token :: string
  lg_user_id :: string
  lg_email :: string
  lg_tenant_id :: string
  lg_superadmin :: bool

definition issue :: "authlib \<Rightarrow> auth_settings \<Rightarrow> string \<Rightarrow> string \<Rightarrow> string \<Rightarrow> bool \<Rightarrow> login svc" where
  "issue al st uid tid email super = bindA (create_access_token al st uid tid email super) (\<lambda>tok.
     ret \<lparr>lg_access_token = tok, lg_user_id = uid, lg_email = email, lg_tenant_id = tid, lg_superadmin = super\<rparr>)"

definition tenant_or_empty :: "user_tenant option \<Rightarrow> string" where
  "tenant_or_empty m = (case m of Some m \<Rightarrow> ut_tenant_id m | None \<Rightarrow> [])"

text \<open>The password rule: one line of at least eight characters with a letter and a digit, seventy-two at most in all.\<close>

definition valid_password :: "string \<Rightarrow> bool" where
  "valid_password s = (let line = takeWhile (\<lambda>c. c \<noteq> CHR 0x0A) s; rest = drop (length line) s in
     8 \<le> length s \<and> length s \<le> 72 \<and> (rest = [] \<or> rest = [CHR 0x0A]) \<and> 8 \<le> length line \<and> list_ex is_ascii_alpha line \<and> list_ex is_digit line)"

definition email_signup :: "authlib \<Rightarrow> auth_settings \<Rightarrow> string \<Rightarrow> string \<Rightarrow> login svc" where
  "email_signup al st email pw = bindA (get_user_by_email email) (\<lambda>existing. case existing of
     Some _ \<Rightarrow> raise (ConflictError (ConflictMsg (''An account with email '' @ [CHR 0x27] @ email @ [CHR 0x27] @ '' already exists.'')))
   | None \<Rightarrow> bindA (create_user email (Some (al_hash al pw)) EMAIL None None) (\<lambda>u.
       bindA (create_tenant None) (\<lambda>t. thenA (create_user_tenant (u_id u) (tn_id t) ''owner'')
         (issue al st (u_id u) (tn_id t) (u_email u) False))))"

definition google_identity :: "authlib \<Rightarrow> auth_settings \<Rightarrow> string \<Rightarrow> (string \<times> string) svc" where
  "google_identity al st tok = (case verify_google_token al st tok of
     Inl (ValueError m) \<Rightarrow> raise (UnauthorizedError m) | Inl e \<Rightarrow> raise e | Inr c \<Rightarrow> ret c)"

definition google_signup :: "authlib \<Rightarrow> auth_settings \<Rightarrow> string \<Rightarrow> login svc" where
  "google_signup al st tok = bindA (google_identity al st tok) (\<lambda>(email, name). bindA (get_user_by_email email) (\<lambda>existing. case existing of
     Some u \<Rightarrow> bindA (get_user_tenant (u_id u)) (\<lambda>m. issue al st (u_id u) (tenant_or_empty m) (u_email u) False)
   | None \<Rightarrow> let dn = (if name = [] then None else Some name) in
       bindA (create_user email None GOOGLE dn None) (\<lambda>u. bindA (create_tenant dn) (\<lambda>t.
         thenA (create_user_tenant (u_id u) (tn_id t) ''owner'') (issue al st (u_id u) (tn_id t) (u_email u) False)))))"

definition login_as :: "authlib \<Rightarrow> auth_settings \<Rightarrow> user \<Rightarrow> login svc" where
  "login_as al st u = bindA (get_owner_tenant_or_first (u_id u)) (\<lambda>m. issue al st (u_id u) (tenant_or_empty m) (u_email u) (u_is_superadmin u))"

definition email_login :: "authlib \<Rightarrow> auth_settings \<Rightarrow> string \<Rightarrow> string \<Rightarrow> login svc" where
  "email_login al st email pw = bindA (get_user_by_email email) (\<lambda>u. case u of
     None \<Rightarrow> raise (UnauthorizedError ''Invalid email or password.'')
   | Some u \<Rightarrow> if u_auth_provider u \<noteq> EMAIL then raise (UnauthorizedError ''Invalid email or password.'')
       else if \<not> truthy_str (u_password_hash u) \<or> \<not> al_verify al pw (or_empty (u_password_hash u)) then raise (UnauthorizedError ''Invalid email or password.'')
       else login_as al st u)"

definition google_login :: "authlib \<Rightarrow> auth_settings \<Rightarrow> string \<Rightarrow> login svc" where
  "google_login al st tok = bindA (google_identity al st tok) (\<lambda>(email, name). bindA (get_user_by_email email) (\<lambda>u. case u of
     None \<Rightarrow> raise (UnauthorizedError ''No account found for this Google account. Please sign up first.'')
   | Some u \<Rightarrow> login_as al st u))"

section \<open>One-time codes\<close>

text \<open>\<open>_normalize_phone\<close> keeps the digits and turns the Nigerian local form into the international one.\<close>

definition normalize_phone :: "string \<Rightarrow> error + string" where
  "normalize_phone v = (let ds = filter is_digit v in
     if length ds < 7 then Inl (ValueError ''Phone number must have at least 7 digits.'')
     else if length ds = 11 \<and> startswith ds ''0'' then Inr (''234'' @ tl ds) else Inr ds)"

definition otp_key :: "string \<Rightarrow> string" where "otp_key phone = ''auth:otp:'' @ phone"

definition attempts_key :: "string \<Rightarrow> string" where "attempts_key phone = ''auth:otp:attempts:'' @ phone"

definition counter_value :: "doc \<Rightarrow> int" where
  "counter_value d = (case d of CounterDoc n \<Rightarrow> n | _ \<Rightarrow> 0)"

definition OTP_TTL :: int where "OTP_TTL = 600"

definition six_digits :: "nat \<Rightarrow> string" where
  "six_digits n = (let s = show_nat n in replicate (6 - length s) (CHR ''0'') @ s)"

text \<open>The platform's channel, the settings where it has none, and the post, which fails when the message is not accepted.\<close>

definition otp_channel :: "gateway \<Rightarrow> auth_settings \<Rightarrow> (string \<times> string) option svc" where
  "otp_channel gw st = (if as_tenant_id st = [] then ret None
     else bindA (get_by_tenant_and_channel (as_tenant_id st) ''whatsapp'') (\<lambda>c. case c of
        Some c \<Rightarrow> if tc_encrypted_access_token c = [] then ret None
          else bindA (liftE (gw_decrypt gw (tc_encrypted_access_token c))) (\<lambda>tok. ret (Some (tc_phone_number_id c, tok)))
      | None \<Rightarrow> ret None))"

definition otp_credentials :: "auth_settings \<Rightarrow> (string \<times> string) option \<Rightarrow> string \<times> string" where
  "otp_credentials st found = (case found of
     Some (p, t) \<Rightarrow> if p \<noteq> [] \<and> t \<noteq> [] then (p, t) else (as_phone_number_id st, as_access_token st)
   | None \<Rightarrow> (as_phone_number_id st, as_access_token st))"

definition post_otp :: "gateway \<Rightarrow> auth_settings \<Rightarrow> string \<times> string \<Rightarrow> string \<Rightarrow> wa_message \<Rightarrow> unit svc" where
  "post_otp gw st cred phone msg = (\<lambda>w. case gw_post gw (clock w) (fst cred) (snd cred) phone msg of
     Inl e \<Rightarrow> (Inl e, w)
   | Inr r \<Rightarrow> if is_success r then (Inr (), w\<lparr>dispatched := dispatched w @ [(as_tenant_id st, phone, msg)]\<rparr>)
       else (Inl (ChatToSalesError ''Could not deliver the login code right now. Please try again shortly.'' 502), w))"

definition send_otp_whatsapp :: "gateway \<Rightarrow> auth_settings \<Rightarrow> string \<Rightarrow> string \<Rightarrow> unit svc" where
  "send_otp_whatsapp gw st phone otp = bindA (otp_channel gw st) (\<lambda>found.
     let cred = otp_credentials st found;
         msg = TextMsg (Template ''otp_message'' [JStr (rev (dropWhile (\<lambda>c. c = CHR ''/'') (rev (as_frontend_url st)))), JStr otp, JStr phone]) in
     if fst cred = [] \<or> snd cred = [] then ret () else post_otp gw st cred phone msg)"

definition request_otp :: "gateway \<Rightarrow> authlib \<Rightarrow> auth_settings \<Rightarrow> string \<Rightarrow> unit svc" where
  "request_otp gw al st phone = bindA (cache_get (attempts_key phone)) (\<lambda>n.
     if (case n of Some d \<Rightarrow> 5 \<le> counter_value d | None \<Rightarrow> False)
     then raise (TooManyRequestsError ''Too many OTP requests for this number. Try again in 10 minutes.'')
     else bindA uuid4 (\<lambda>u. let otp = six_digits (al_random al u mod 1000000) in
       thenA (cache_setex (otp_key phone) OTP_TTL (TextDoc otp))
       (thenA (modA (\<lambda>w. w\<lparr>redis := redis_incr counter_value CounterDoc (clock w) (attempts_key phone) (redis w)\<rparr>))
       (thenA (modA (\<lambda>w. w\<lparr>redis := redis_expire (clock w) (attempts_key phone) OTP_TTL (redis w)\<rparr>))
         (send_otp_whatsapp gw st phone otp)))))"

definition bust_trader_caches :: "string \<Rightarrow> string \<Rightarrow> string option \<Rightarrow> unit svc" where
  "bust_trader_caches phone old slug = thenA (cache_delete (trader_phone_key phone)) (thenA (cache_delete (trader_tenant_key old))
     (if truthy_str slug then cache_delete (trader_slug_key (or_empty slug)) else ret ()))"

definition first_login :: "auth_settings \<Rightarrow> string \<Rightarrow> trader_row \<Rightarrow> (user \<times> string) svc" where
  "first_login st phone t = bindA (create_user (phone @ ''@wa.chattosales.com'') None WHATSAPP (td_business_name t) (Some phone)) (\<lambda>u.
     bindA (create_tenant (td_business_name t)) (\<lambda>tn. thenA (create_user_tenant (u_id u) (tn_id tn) ''owner'')
       (let old = (if truthy_str (td_tenant_id t) then or_empty (td_tenant_id t) else as_tenant_id st) in
        thenA (migrate_trader_orders_to_tenant phone old (tn_id tn))
        (thenA (update_tenant_id phone (tn_id tn))
        (thenA (bust_trader_caches phone old (td_store_slug t)) (ret (u, tn_id tn)))))))"

definition verify_otp :: "authlib \<Rightarrow> auth_settings \<Rightarrow> string \<Rightarrow> string \<Rightarrow> login svc" where
  "verify_otp al st phone code = bindA (cache_get (otp_key phone)) (\<lambda>d.
     if d \<noteq> Some (TextDoc code) \<or> code = [] then raise (UnauthorizedError ''Invalid or expired login code.'')
     else thenA (cache_delete (otp_key phone)) (bindA (get_user_by_phone phone) (\<lambda>u. case u of
       Some u \<Rightarrow> login_as al st u
     | None \<Rightarrow> bindA (trader_get_by_phone phone) (\<lambda>t. case t of
         None \<Rightarrow> raise (UnauthorizedError ''No trader account found for this number. Please complete onboarding on WhatsApp first.'')
       | Some t \<Rightarrow> bindA (first_login st phone t) (\<lambda>(u, tid). issue al st (u_id u) tid (u_email u) (u_is_superadmin u))))))"

text \<open>The endpoints, each in the request's transaction.\<close>

definition otp_request :: "gateway \<Rightarrow> authlib \<Rightarrow> auth_settings \<Rightarrow> string \<Rightarrow> unit svc" where
  "otp_request gw al st raw = bindA (liftE (normalize_phone raw)) (\<lambda>phone. session_begin (request_otp gw al st phone))"

definition otp_verify :: "authlib \<Rightarrow> auth_settings \<Rightarrow> string \<Rightarrow> string \<Rightarrow> login svc" where
  "otp_verify al st raw code = bindA (liftE (normalize_phone raw)) (\<lambda>phone.
     if length code \<noteq> 6 \<or> \<not> list_all is_digit code then raise (ValueError ''Code must be 6 digits.'')
     else session_begin (verify_otp al st phone code))"

definition signup_phone :: "gateway \<Rightarrow> authlib \<Rightarrow> auth_settings \<Rightarrow> string \<Rightarrow> string \<Rightarrow> string \<Rightarrow> (string \<times> int) list \<Rightarrow> unit svc" where
  "signup_phone gw al st raw name cat products = bindA (liftE (normalize_phone raw)) (\<lambda>phone.
     if length name < 2 \<or> 60 < length name \<or> cat = [] then raise (ValueError ''validation'')
     else thenA (bindA (trader_get_by_phone phone) (\<lambda>t. case t of
         Some _ \<Rightarrow> ret ()
       | None \<Rightarrow> let d = dict_of products; path = (if products = [] then ''web_skip'' else ''web_products'') in
           bindA (session_begin (bindA (generate_unique_slug name) (\<lambda>slug.
              thenA (trader_create phone name cat slug None (if d = [] then None else Some (CatDict d)) None None None) (ret slug)))) (\<lambda>slug.
           thenA (cache_trader_by_phone phone (TraderDoc \<lparr>tr_business_name = name, tr_business_category = cat, tr_catalogue = d, tr_phone_number = phone,
              tr_tenant_id = [], tr_store_slug = slug, tr_bank_name = [], tr_bank_account_number = [], tr_bank_account_name = []\<rparr>))
           (thenA (track_onboarding_event phone ''started'' (Some ''web_signup'') None)
           (thenA (track_onboarding_event phone ''path_chosen'' (Some ''catalogue_path'') (Some path))
             (track_onboarding_event phone ''completed'' (Some ''completed'') (Some path)))))))
       (session_begin (request_otp gw al st phone)))"

section \<open>Staff\<close>

definition INVITE_TTL_HOURS :: int where "INVITE_TTL_HOURS = 72"

definition list_staff :: "principal \<Rightarrow> world \<Rightarrow> (string \<times> string option \<times> string \<times> string) list" where
  "list_staff p w = concat (map (\<lambda>m. map (\<lambda>u. (u_id u, u_display_name u, u_email u, ut_role m)) (filter (\<lambda>u. u_id u = ut_user_id m) (users w)))
     (order_by_asc ut_created_at (filter (\<lambda>m. ut_tenant_id m = pn_tenant_id p) (user_tenants w))))"

definition create_invite :: "principal \<Rightarrow> string \<Rightarrow> string svc" where
  "create_invite p role = bindA uuid4 (\<lambda>tok. bindA (getA clock) (\<lambda>now.
     thenA (modA (\<lambda>w. w\<lparr>invite_tokens := invite_tokens w @ [\<lparr>iv_tenant_id = pn_tenant_id p, iv_token = tok, iv_role = role,
        iv_expires_at = now + INVITE_TTL_HOURS * 60 * MINUTE, iv_used_at = None\<rparr>]\<rparr>)) (ret tok)))"

definition load_valid_invite :: "string \<Rightarrow> invite_token svc" where
  "load_valid_invite tok = bindA (getA (\<lambda>w. (invite_tokens w, clock w))) (\<lambda>(is, now).
     bindA (liftE (scalar_one_or_none (filter (\<lambda>i. iv_token i = tok) is))) (\<lambda>i. case i of
       None \<Rightarrow> raise (NotFoundError ''Invite token'' tok)
     | Some i \<Rightarrow> if iv_used_at i \<noteq> None \<or> iv_expires_at i < now then raise (NotFoundError ''Invite token'' tok) else ret i))"

definition accept_invite :: "authlib \<Rightarrow> auth_settings \<Rightarrow> string \<Rightarrow> string \<Rightarrow> string \<Rightarrow> string \<Rightarrow> login svc" where
  "accept_invite al st tok name email pw = bindA (load_valid_invite tok) (\<lambda>i. bindA (get_user_by_email email) (\<lambda>existing. case existing of
     Some _ \<Rightarrow> raise (ConflictError (ConflictMsg (''An account with email '' @ [CHR 0x27] @ email @ [CHR 0x27] @ '' already exists.'')))
   | None \<Rightarrow> bindA (create_user email (Some (al_hash al pw)) EMAIL (if name = [] then None else Some name) None) (\<lambda>u.
       thenA (create_user_tenant (u_id u) (iv_tenant_id i) (iv_role i))
       (thenA (modA (\<lambda>w. w\<lparr>invite_tokens := update_where (\<lambda>j. iv_token j = tok) (\<lambda>j. j\<lparr>iv_used_at := Some (clock w)\<rparr>) (invite_tokens w)\<rparr>))
         (issue al st (u_id u) (iv_tenant_id i) (u_email u) False)))))"

definition remove_member :: "principal \<Rightarrow> string \<Rightarrow> unit svc" where
  "remove_member p uid = bindA (getA user_tenants) (\<lambda>ms.
     bindA (liftE (scalar_one_or_none (filter (\<lambda>m. ut_user_id m = uid \<and> ut_tenant_id m = pn_tenant_id p) ms))) (\<lambda>m. case m of
       None \<Rightarrow> raise (NotFoundError ''Staff member'' uid)
     | Some m \<Rightarrow> if ut_role m = ''owner'' then raise (ForbiddenError ''The workspace owner cannot be removed.'')
         else modA (\<lambda>w. w\<lparr>user_tenants := filter (\<lambda>x. \<not> (ut_user_id x = uid \<and> ut_tenant_id x = pn_tenant_id p)) (user_tenants w)\<rparr>)))"

section \<open>One-time codes\<close>

definition stored_code :: "string \<Rightarrow> world \<Rightarrow> doc option" where
  "stored_code phone w = redis_get (clock w) (otp_key phone) (redis w)"

definition no_code :: "string \<Rightarrow> world \<Rightarrow> bool" where
  "no_code phone w \<longleftrightarrow> kv (redis w) (otp_key phone) = None"

lemma other_trader_keys [simp]:
  "otp_key phone \<noteq> trader_phone_key p" "otp_key phone \<noteq> trader_tenant_key t" "otp_key phone \<noteq> trader_slug_key s" "otp_key phone = otp_key p \<longleftrightarrow> phone = p"
  by (simp_all add: otp_key_def trader_phone_key_def trader_tenant_key_def trader_slug_key_def)

lemma no_code_delete: "keeps (cache_delete k) (no_code phone)"
  by (auto intro!: keepsI simp: no_code_def cache_delete_def redis_delete_def)

lemma no_code_tables:
  "no_code phone (w\<lparr>users := us\<rparr>) = no_code phone w" "no_code phone (w\<lparr>tenants := ts\<rparr>) = no_code phone w" "no_code phone (w\<lparr>user_tenants := ms\<rparr>) = no_code phone w"
  "no_code phone (w\<lparr>uuid_n := n\<rparr>) = no_code phone w" "no_code phone (w\<lparr>traders := tr\<rparr>) = no_code phone w"
  "no_code phone (w\<lparr>orders := os, conversations := cs, messages := mss, scheduled_messages := sms\<rparr>) = no_code phone w"
  by (simp_all add: no_code_def)

lemma keeps_uuid4: "(\<And>w n. P (w\<lparr>uuid_n := n\<rparr>) = P w) \<Longrightarrow> keeps uuid4 P"
  by (rule keepsI) simp

lemma issue_keeps: "keeps (issue al st uid tid email super) P"
  unfolding issue_def create_access_token_def by (intro keeps_bindA keeps_getA keeps_ret)

lemma login_as_keeps: "keeps (login_as al st u) P"
  unfolding login_as_def get_owner_tenant_or_first_def by (intro keeps_bindA keeps_getA keeps_liftE issue_keeps)

lemma create_user_no_code: "keeps (create_user email pw pr name ph) (no_code phone)"
  by (rule keepsI) (simp add: create_user_def bindA_apply Let_def no_code_tables)

lemma create_tenant_no_code: "keeps (create_tenant name) (no_code phone)"
  by (rule keepsI) (simp add: create_tenant_def bindA_apply thenA_apply Let_def no_code_tables)

lemma create_user_tenant_no_code: "keeps (create_user_tenant u t r) (no_code phone)"
  by (rule keepsI) (simp add: create_user_tenant_def Let_def no_code_tables)

lemma migrate_no_code: "keeps (migrate_trader_orders_to_tenant p a b) (no_code phone)"
  by (rule keepsI) (simp add: migrate_trader_orders_to_tenant_def Let_def no_code_tables)

lemma update_tenant_no_code: "keeps (update_tenant_id p t) (no_code phone)"
  by (rule keepsI) (simp add: update_tenant_id_def update_trader_def no_code_tables)

lemma first_login_no_code: "keeps (first_login st p t) (no_code phone)"
  unfolding first_login_def Let_def bust_trader_caches_def
  by (intro keeps_bindA keeps_thenA keeps_if keeps_ret create_user_no_code create_tenant_no_code create_user_tenant_no_code migrate_no_code
      update_tenant_no_code no_code_delete)

lemma verify_wrong: "stored_code phone w \<noteq> Some (TextDoc code) \<Longrightarrow>
    verify_otp al st phone code w = (Inl (UnauthorizedError ''Invalid or expired login code.''), w)"
  by (simp add: verify_otp_def cache_get_def bindA_apply stored_code_def)

lemma keeps_case_pair: "(\<And>a b. keeps (f a b) P) \<Longrightarrow> keeps (case x of (a, b) \<Rightarrow> f a b) P"
  by (cases x) simp

lemma verify_consumes:
  assumes "stored_code phone w = Some (TextDoc code)" and "code \<noteq> []"
  shows "no_code phone (exec (verify_otp al st phone code) w)"
proof -
  let ?rest = "bindA (get_user_by_phone phone) (\<lambda>u. case u of
       Some u \<Rightarrow> login_as al st u
     | None \<Rightarrow> bindA (trader_get_by_phone phone) (\<lambda>t. case t of
         None \<Rightarrow> raise (UnauthorizedError ''No trader account found for this number. Please complete onboarding on WhatsApp first.'')
       | Some t \<Rightarrow> bindA (first_login st phone t) (\<lambda>(u, tid). issue al st (u_id u) tid (u_email u) (u_is_superadmin u))))"
  have "keeps ?rest (no_code phone)"
    unfolding get_user_by_phone_def trader_get_by_phone_def
    by (intro keeps_bindA keeps_getA keeps_liftE keeps_option keeps_raise login_as_keeps first_login_no_code keeps_case_pair issue_keeps)
  moreover have "no_code phone (w\<lparr>redis := redis_delete (otp_key phone) (redis w)\<rparr>)" by (simp add: no_code_def redis_delete_def)
  ultimately have "no_code phone (snd (?rest (w\<lparr>redis := redis_delete (otp_key phone) (redis w)\<rparr>)))" by (rule keepsD)
  then show ?thesis using assms by (simp add: exec_def verify_otp_def cache_get_def cache_delete_def bindA_apply thenA_apply stored_code_def)
qed

text \<open>
  C29: a login code works once. A code other than the stored one is refused and changes nothing, so the number of guesses is not
  limited; the stored code is consumed whatever comes of the login, and after that every code is refused until a new one is requested,
  however much time passes.
\<close>

theorem otp_single_use:
  assumes "code \<noteq> []"
  shows "(stored_code phone w \<noteq> Some (TextDoc code) \<longrightarrow> verify_otp al st phone code w = (Inl (UnauthorizedError ''Invalid or expired login code.''), w))
     \<and> (stored_code phone w = Some (TextDoc code) \<longrightarrow> (\<forall>s code'. let w' = pass_time s (exec (verify_otp al st phone code) w) in
          verify_otp al st phone code' w' = (Inl (UnauthorizedError ''Invalid or expired login code.''), w')))"
proof (intro conjI impI allI)
  assume "stored_code phone w \<noteq> Some (TextDoc code)"
  then show "verify_otp al st phone code w = (Inl (UnauthorizedError ''Invalid or expired login code.''), w)" by (rule verify_wrong)
next
  fix s code'
  assume "stored_code phone w = Some (TextDoc code)"
  then have "no_code phone (exec (verify_otp al st phone code) w)" by (rule verify_consumes [OF _ assms])
  then have "stored_code phone (pass_time s (exec (verify_otp al st phone code) w)) = None"
    by (simp add: no_code_def stored_code_def redis_get_def pass_time_def)
  then show "let w' = pass_time s (exec (verify_otp al st phone code) w) in
      verify_otp al st phone code' w' = (Inl (UnauthorizedError ''Invalid or expired login code.''), w')"
    by (simp add: Let_def verify_wrong)
qed

section \<open>The limit on codes\<close>

definition attempts :: "string \<Rightarrow> world \<Rightarrow> int" where
  "attempts phone w = (case redis_get (clock w) (attempts_key phone) (redis w) of Some d \<Rightarrow> counter_value d | None \<Rightarrow> 0)"

definition same_redis :: "doc redis \<Rightarrow> timestamp \<Rightarrow> world \<Rightarrow> bool" where
  "same_redis r now w \<longleftrightarrow> redis w = r \<and> clock w = now"

lemma otp_channel_reads: "snd (otp_channel gw st w) = w"
  by (simp add: otp_channel_def get_by_tenant_and_channel_def bindA_apply split: sum.split option.split)

lemma otp_channel_keeps: "keeps (otp_channel gw st) P"
  by (rule keepsI) (simp add: otp_channel_reads)

lemma post_otp_redis: "keeps (post_otp gw st cred phone msg) (same_redis r now)"
  by (rule keepsI) (simp add: post_otp_def same_redis_def split: sum.split)

lemma send_otp_redis: "keeps (send_otp_whatsapp gw st phone otp) (same_redis r now)"
  unfolding send_otp_whatsapp_def Let_def by (intro keeps_bindA keeps_if keeps_ret otp_channel_keeps post_otp_redis)

lemma post_otp_one: "\<exists>ds. dispatched (snd (post_otp gw st cred phone msg w)) = dispatched w @ ds \<and> length ds \<le> Suc 0"
  by (simp add: post_otp_def split: sum.split)

lemma send_otp_one: "\<exists>ds. dispatched (snd (send_otp_whatsapp gw st phone otp w)) = dispatched w @ ds \<and> length ds \<le> Suc 0"
proof (cases "otp_channel gw st w")
  case (Pair r v)
  with otp_channel_reads [of gw st w] have [simp]: "v = w" by simp
  show ?thesis by (cases r) (simp_all add: send_otp_whatsapp_def bindA_apply Pair Let_def post_otp_one)
qed

lemma own_keys: "otp_key phone \<noteq> attempts_key phone"
proof
  assume "otp_key phone = attempts_key phone"
  then have "length (otp_key phone) = length (attempts_key phone)" by (rule arg_cong)
  then show False by (simp add: otp_key_def attempts_key_def)
qed

lemma request_refused: "5 \<le> attempts phone w \<Longrightarrow> exec (request_otp gw al st phone) w = w"
  by (auto simp: attempts_def exec_def request_otp_def cache_get_def bindA_apply split: option.splits)

lemma request_counted:
  fixes gw :: gateway and al :: authlib and st :: auth_settings and phone :: string and w :: world
  assumes "attempts phone w < 5"
  defines "w' \<equiv> exec (request_otp gw al st phone) w"
  shows "kv (redis w') (attempts_key phone) = Some (CounterDoc (attempts phone w + 1), Some (clock w + OTP_TTL * second))"
    and "clock w' = clock w" and "length (dispatched w') \<le> Suc (length (dispatched w))"
proof -
  let ?otp = "six_digits (al_random al (uuid_src w (uuid_n w)) mod 1000000)"
  define r1 where "r1 = redis_setex (clock w) (otp_key phone) OTP_TTL (TextDoc ?otp) (redis w)"
  define r2 where "r2 = redis_incr counter_value CounterDoc (clock w) (attempts_key phone) r1"
  define r3 where "r3 = redis_expire (clock w) (attempts_key phone) OTP_TTL r2"
  let ?w = "w\<lparr>uuid_n := Suc (uuid_n w), redis := r3\<rparr>"
  have run: "w' = snd (send_otp_whatsapp gw st phone ?otp ?w)"
    using assms(1) by (auto simp: w'_def exec_def request_otp_def cache_get_def cache_setex_def bindA_apply thenA_apply attempts_def r1_def r2_def r3_def Let_def
        split: option.splits)
  have r1: "kv r1 (attempts_key phone) = kv (redis w) (attempts_key phone)"
    using own_keys [of phone] by (simp add: r1_def redis_setex_def)
  have "\<exists>ex. kv r2 (attempts_key phone) = Some (CounterDoc (attempts phone w + 1), ex) \<and> alive (clock w) ex"
    by (auto simp: r2_def redis_incr_def r1 attempts_def redis_get_def alive_def split: option.splits)
  then have "kv r3 (attempts_key phone) = Some (CounterDoc (attempts phone w + 1), Some (clock w + OTP_TTL * second))"
    by (auto simp: r3_def redis_expire_def redis_get_def)
  moreover have "same_redis r3 (clock w) w'"
    unfolding run by (rule keepsD [OF send_otp_redis]) (simp add: same_redis_def)
  ultimately show "kv (redis w') (attempts_key phone) = Some (CounterDoc (attempts phone w + 1), Some (clock w + OTP_TTL * second))" "clock w' = clock w"
    by (simp_all add: same_redis_def)
  show "length (dispatched w') \<le> Suc (length (dispatched w))"
    using send_otp_one [of gw st phone ?otp ?w] by (auto simp: run)
qed

definition otp_requests :: "gateway \<Rightarrow> authlib \<Rightarrow> auth_settings \<Rightarrow> string \<Rightarrow> int list \<Rightarrow> world \<Rightarrow> world" where
  "otp_requests gw al st phone waits w = fold (\<lambda>s w. exec (request_otp gw al st phone) (pass_time s w)) waits w"

lemma otp_requests_simps [simp]:
  "otp_requests gw al st phone [] w = w"
  "otp_requests gw al st phone (s # ss) w = otp_requests gw al st phone ss (exec (request_otp gw al st phone) (pass_time s w))"
  by (simp_all add: otp_requests_def)

text \<open>While a counter lives, it bounds what can still be sent.\<close>

lemma counted_requests:
  assumes "kv (redis w) (attempts_key phone) = Some (CounterDoc n, Some ex)" and "till \<le> ex" and "till \<le> clock w + OTP_TTL * second"
    and "\<forall>s\<in>set waits. 0 \<le> s" and "clock w + sum_list waits < till"
  shows "int (length (dispatched (otp_requests gw al st phone waits w))) \<le> int (length (dispatched w)) + max 0 (5 - n)"
  using assms
proof (induction waits arbitrary: w n ex)
  case (Cons s ss)
  let ?v = "pass_time s w"
  have s: "0 \<le> s" "0 \<le> sum_list ss" using Cons.prems(4) by (auto intro: sum_list_nonneg)
  have v: "kv (redis ?v) (attempts_key phone) = Some (CounterDoc n, Some ex)" "clock ?v = clock w + s" "dispatched ?v = dispatched w"
    using Cons.prems(1) by (simp_all add: pass_time_def)
  have n: "attempts phone ?v = n"
    using v(1,2) s Cons.prems(2,5) by (simp add: attempts_def redis_get_def alive_def counter_value_def)
  show ?case
  proof (cases "n < 5")
    case True
    let ?w = "exec (request_otp gw al st phone) ?v"
    have "attempts phone ?v < 5" using True n by simp
    note st = request_counted [OF this, of gw al st]
    have "int (length (dispatched (otp_requests gw al st phone ss ?w))) \<le> int (length (dispatched ?w)) + max 0 (5 - (n + 1))"
      by (rule Cons.IH [OF st(1) [unfolded n]]) (use Cons.prems(3-5) s v(2) st(2) in simp_all)
    with st(3) True v(3) show ?thesis by simp
  next
    case False
    then have "exec (request_otp gw al st phone) ?v = ?v" by (intro request_refused) (simp add: n)
    moreover have "int (length (dispatched (otp_requests gw al st phone ss ?v))) \<le> int (length (dispatched ?v)) + max 0 (5 - n)"
      by (rule Cons.IH [OF v(1) Cons.prems(2)]) (use Cons.prems(3-5) s v(2) in simp_all)
    ultimately show ?thesis using v(3) by simp
  qed
qed simp

text \<open>
  C30: at most five login codes in ten minutes. However the requests for a phone number fall within ten minutes, at most five messages
  with a code are sent to it.
\<close>

theorem otp_request_limit:
  assumes "\<forall>s\<in>set waits. 0 \<le> s" and "sum_list waits < OTP_TTL * second"
    and "\<forall>n ex. kv (redis w) (attempts_key phone) = Some (CounterDoc n, ex) \<longrightarrow> 0 \<le> n"
  shows "length (dispatched (otp_requests gw al st phone waits w)) \<le> length (dispatched w) + 5"
proof -
  have "length (dispatched (otp_requests gw al st phone waits v)) \<le> length (dispatched v) + 5"
    if "\<forall>n ex. kv (redis v) (attempts_key phone) = Some (CounterDoc n, ex) \<longrightarrow> 0 \<le> n" "till \<le> clock v + OTP_TTL * second"
      "\<forall>s\<in>set waits. 0 \<le> s" "clock v + sum_list waits < till" for v till
    using that
  proof (induction waits arbitrary: v)
    case (Cons s ss)
    let ?v = "pass_time s v"
    have s: "0 \<le> s" "0 \<le> sum_list ss" using Cons.prems(3) by (auto intro: sum_list_nonneg)
    have v: "clock ?v = clock v + s" "dispatched ?v = dispatched v" "redis ?v = redis v" by (simp_all add: pass_time_def)
    have nn: "0 \<le> attempts phone ?v"
      using Cons.prems(1) by (auto simp: attempts_def v redis_get_def counter_value_def split: option.splits doc.splits)
    show ?case
    proof (cases "attempts phone ?v < 5")
      case True
      let ?w = "exec (request_otp gw al st phone) ?v"
      note st = request_counted [OF True, of gw al st]
      have "int (length (dispatched (otp_requests gw al st phone ss ?w))) \<le> int (length (dispatched ?w)) + max 0 (5 - (attempts phone ?v + 1))"
        by (rule counted_requests [OF st(1), of till]) (use Cons.prems(2-4) s v st(2) in simp_all)
      with st(3) nn v(2) True show ?thesis by simp
    next
      case False
      then have "exec (request_otp gw al st phone) ?v = ?v" by (intro request_refused) simp
      moreover have "length (dispatched (otp_requests gw al st phone ss ?v)) \<le> length (dispatched ?v) + 5"
        by (rule Cons.IH) (use Cons.prems s v in simp_all)
      ultimately show ?thesis using v(2) by simp
    qed
  qed simp
  from this [of w "clock w + OTP_TTL * second"] assms show ?thesis by simp
qed

section \<open>Sessions\<close>

datatype sign_in =
    EmailSignup string string
  | GoogleSignup string
  | EmailLogin string string
  | GoogleLogin string
  | CodeLogin string string
  | InviteAccepted string string string string

definition sign_in :: "authlib \<Rightarrow> auth_settings \<Rightarrow> sign_in \<Rightarrow> login svc" where
  "sign_in al st way = (case way of
     EmailSignup e p \<Rightarrow> session_begin (email_signup al st e p) | GoogleSignup t \<Rightarrow> session_begin (google_signup al st t)
   | EmailLogin e p \<Rightarrow> session_begin (email_login al st e p) | GoogleLogin t \<Rightarrow> session_begin (google_login al st t)
   | CodeLogin raw c \<Rightarrow> otp_verify al st raw c | InviteAccepted tok n e p \<Rightarrow> session_begin (accept_invite al st tok n e p))"

definition session_of :: "authlib \<Rightarrow> auth_settings \<Rightarrow> login \<Rightarrow> world \<Rightarrow> bool" where
  "session_of al st l w \<longleftrightarrow>
     lg_access_token l = al_encode al \<lparr>jw_sub = lg_user_id l, jw_tenant = lg_tenant_id l, jw_mail = lg_email l, jw_superadmin = lg_superadmin l,
        jw_exp = clock w + as_expire_minutes st * MINUTE\<rparr>
     \<and> (\<exists>u\<in>set (users w). u_id u = lg_user_id l \<and> u_email u = lg_email l \<and> (lg_superadmin l \<longrightarrow> u_is_superadmin u))
     \<and> (if lg_tenant_id l = [] then True else \<exists>m\<in>set (user_tenants w). ut_user_id m = lg_user_id l \<and> ut_tenant_id m = lg_tenant_id l)"

text \<open>What holds of the value and the state after an action that returns.\<close>

definition returns :: "(world \<Rightarrow> bool) \<Rightarrow> 'a svc \<Rightarrow> ('a \<Rightarrow> world \<Rightarrow> bool) \<Rightarrow> bool" where
  "returns P m Q \<longleftrightarrow> (\<forall>w x w'. P w \<longrightarrow> m w = (Inr x, w') \<longrightarrow> Q x w')"

lemma returnsI: "(\<And>w x w'. P w \<Longrightarrow> m w = (Inr x, w') \<Longrightarrow> Q x w') \<Longrightarrow> returns P m Q"
  by (simp add: returns_def)

lemma returnsD: "returns P m Q \<Longrightarrow> P w \<Longrightarrow> m w = (Inr x, w') \<Longrightarrow> Q x w'"
  by (simp add: returns_def)

lemma returns_bindA: "returns P m R \<Longrightarrow> (\<And>x. returns (R x) (f x) Q) \<Longrightarrow> returns P (bindA m f) Q"
  by (force simp: returns_def bindA_apply split: prod.splits sum.splits)

lemma returns_thenA: "returns P m (\<lambda>_. R) \<Longrightarrow> returns R k Q \<Longrightarrow> returns P (thenA m k) Q"
  unfolding thenA_def by (erule returns_bindA)

lemma returns_ret: "(\<And>w. P w \<Longrightarrow> Q x w) \<Longrightarrow> returns P (ret x) Q"
  by (rule returnsI) simp

lemma returns_raise: "returns P (raise e) Q"
  by (rule returnsI) simp

lemma returns_true: "returns P m (\<lambda>_ _. True)"
  by (rule returnsI) simp

lemma returns_keeps: "keeps m P \<Longrightarrow> returns P m (\<lambda>_. P)"
  by (rule returnsI) (metis keepsD snd_conv)

lemma returns_session: "returns P m Q \<Longrightarrow> returns P (session_begin m) Q"
  by (rule returnsI) (auto simp: session_begin_def dest: returnsD split: prod.splits sum.splits)

definition known :: "string \<Rightarrow> string \<Rightarrow> bool \<Rightarrow> world \<Rightarrow> bool" where
  "known uid email super w \<longleftrightarrow> (\<exists>u\<in>set (users w). u_id u = uid \<and> u_email u = email \<and> (super \<longrightarrow> u_is_superadmin u))"

definition belongs_to :: "string \<Rightarrow> string \<Rightarrow> world \<Rightarrow> bool" where
  "belongs_to uid tid w \<longleftrightarrow> tid = [] \<or> (\<exists>m\<in>set (user_tenants w). ut_user_id m = uid \<and> ut_tenant_id m = tid)"

lemma issue_returns: "returns (\<lambda>w. known uid email super w \<and> belongs_to uid tid w) (issue al st uid tid email super) (session_of al st)"
  by (rule returnsI) (auto simp: issue_def create_access_token_def bindA_apply session_of_def known_def belongs_to_def)

lemma scalar_member: "scalar_one_or_none xs = Inr (Some x) \<Longrightarrow> x \<in> set xs"
  by (drule scalar_Some) simp

lemma user_known: "u \<in> set (users w) \<Longrightarrow> super \<longrightarrow> u_is_superadmin u \<Longrightarrow> known (u_id u) (u_email u) super w"
  unfolding known_def by blast

definition found :: "user option \<Rightarrow> world \<Rightarrow> bool" where
  "found r w \<longleftrightarrow> (case r of Some u \<Rightarrow> u \<in> set (users w) | None \<Rightarrow> True)"

lemma found_user: "returns P (get_user_by_email e) found" "returns P (get_user_by_phone p) found"
  by (auto intro!: returnsI simp: get_user_by_email_def get_user_by_phone_def bindA_apply found_def dest!: scalar_member split: option.split)

lemma returns_option:
  "returns P n Q \<Longrightarrow> (\<And>x. r = Some x \<Longrightarrow> returns P (s x) Q) \<Longrightarrow> returns P (case r of Some x \<Rightarrow> s x | None \<Rightarrow> n) Q"
  by (cases r) simp_all

lemma returns_if: "returns P m Q \<Longrightarrow> returns P k Q \<Longrightarrow> returns P (if b then m else k) Q"
  by simp

lemma returns_weaken: "returns P m Q \<Longrightarrow> (\<And>w. P' w \<Longrightarrow> P w) \<Longrightarrow> returns P' m Q"
  by (auto simp: returns_def)

definition account :: "user \<Rightarrow> world \<Rightarrow> bool" where
  "account u w \<longleftrightarrow> u \<in> set (users w)"

lemma create_user_returns: "returns P (create_user e pw pr name ph) account"
  by (rule returnsI) (auto simp: create_user_def bindA_apply Let_def account_def split: if_splits)

lemma create_tenant_account: "keeps (create_tenant name) (account u)"
  by (rule keepsI) (simp add: create_tenant_def bindA_apply thenA_apply Let_def account_def)

lemma create_user_tenant_returns:
  "returns (account u) (create_user_tenant (u_id u) tid role) (\<lambda>_ w. account u w \<and> belongs_to (u_id u) tid w)"
  by (rule returnsI) (auto simp: create_user_tenant_def Let_def account_def belongs_to_def split: if_splits)

lemma issue_account:
  "returns (\<lambda>w. account u w \<and> belongs_to (u_id u) tid w) (issue al st (u_id u) tid (u_email u) False) (session_of al st)"
  "returns (\<lambda>w. account u w \<and> belongs_to (u_id u) tid w) (issue al st (u_id u) tid (u_email u) (u_is_superadmin u)) (session_of al st)"
  by (rule returns_weaken [OF issue_returns], simp add: account_def user_known)+

lemma new_account:
  "returns P (bindA (create_user e pw pr n ph) (\<lambda>u. bindA (create_tenant dn) (\<lambda>t. thenA (create_user_tenant (u_id u) (tn_id t) role)
     (issue al st (u_id u) (tn_id t) (u_email u) False)))) (session_of al st)"
  by (rule returns_bindA [OF create_user_returns] returns_bindA [OF returns_keeps [OF create_tenant_account]]
      returns_thenA [OF create_user_tenant_returns] issue_account(1))+

lemma member_belongs:
  "returns (account u) (get_user_tenant (u_id u)) (\<lambda>m w. account u w \<and> belongs_to (u_id u) (tenant_or_empty m) w)"
  "returns (account u) (get_owner_tenant_or_first (u_id u)) (\<lambda>m w. account u w \<and> belongs_to (u_id u) (tenant_or_empty m) w)"
  by (rule returnsI; auto simp: get_user_tenant_def get_owner_tenant_or_first_def bindA_apply tenant_or_empty_def belongs_to_def
      dest!: scalar_member in_set_takeD split: option.split)+

lemma login_as_returns: "returns (account u) (login_as al st u) (session_of al st)"
  unfolding login_as_def by (rule returns_bindA [OF member_belongs(2)] issue_account(2))+

lemma returns_found: "(\<And>u. returns (account u) (s u) Q) \<Longrightarrow> returns (\<lambda>_. True) n Q \<Longrightarrow>
    returns (found r) (case r of Some u \<Rightarrow> s u | None \<Rightarrow> n) Q"
  by (cases r) (auto simp: found_def account_def returns_def)

lemma first_login_returns: "returns P (first_login st phone t) (\<lambda>(u, tid) w. account u w \<and> belongs_to (u_id u) tid w)"
proof -
  have mig: "keeps (migrate_trader_orders_to_tenant phone a b) (\<lambda>w. account u w \<and> belongs_to (u_id u) c w)" for a b c u
    by (rule keepsI) (simp add: migrate_trader_orders_to_tenant_def Let_def account_def belongs_to_def)
  have upd: "keeps (update_tenant_id phone b) (\<lambda>w. account u w \<and> belongs_to (u_id u) c w)" for b c u
    by (rule keepsI) (simp add: update_tenant_id_def update_trader_def account_def belongs_to_def)
  have del: "keeps (cache_delete k) (\<lambda>w. account u w \<and> belongs_to (u_id u) c w)" for k c u
    by (rule keepsI) (simp add: cache_delete_def account_def belongs_to_def)
  have bust: "keeps (bust_trader_caches phone a b) (\<lambda>w. account u w \<and> belongs_to (u_id u) c w)" for a b c u
    unfolding bust_trader_caches_def by (intro keeps_thenA keeps_if keeps_ret del)
  show ?thesis unfolding first_login_def Let_def
    by (rule returns_bindA [OF create_user_returns] returns_bindA [OF returns_keeps [OF create_tenant_account]]
      returns_thenA [OF create_user_tenant_returns] returns_thenA [OF returns_keeps [OF mig]] returns_thenA [OF returns_keeps [OF upd]]
      returns_thenA [OF returns_keeps [OF bust]] returns_ret)+ simp
qed

lemma email_signup_returns: "returns P (email_signup al st e pw) (session_of al st)"
  unfolding email_signup_def by (rule returns_bindA [OF found_user(1)] returns_found returns_raise new_account)+

lemma google_signup_returns: "returns P (google_signup al st tok) (session_of al st)"
  unfolding google_signup_def Let_def case_prod_beta
  by (rule returns_bindA [OF returns_true]) (rule returns_bindA [OF found_user(1)] returns_found new_account returns_bindA [OF member_belongs(1)] issue_account(1))+

lemma email_login_returns: "returns P (email_login al st e pw) (session_of al st)"
  unfolding email_login_def by (rule returns_bindA [OF found_user(1)] returns_found returns_raise returns_if login_as_returns)+

lemma google_login_returns: "returns P (google_login al st tok) (session_of al st)"
  unfolding google_login_def case_prod_beta
  by (rule returns_bindA [OF returns_true]) (rule returns_bindA [OF found_user(1)] returns_found returns_raise login_as_returns)+

lemma verify_otp_returns: "returns P (verify_otp al st phone code) (session_of al st)"
proof -
  have new: "returns Q (bindA (first_login st phone t) (\<lambda>(u, tid). issue al st (u_id u) tid (u_email u) (u_is_superadmin u))) (session_of al st)" for t Q
    by (rule returns_bindA [OF first_login_returns]) (auto intro: returns_weaken [OF issue_account(2)])
  have rest: "returns Q (bindA (trader_get_by_phone phone) (\<lambda>t. case t of None \<Rightarrow> raise e
     | Some t \<Rightarrow> bindA (first_login st phone t) (\<lambda>(u, tid). issue al st (u_id u) tid (u_email u) (u_is_superadmin u)))) (session_of al st)" for Q e
    by (rule returns_bindA [OF returns_true] returns_option returns_raise new)+
  show ?thesis unfolding verify_otp_def
    by (rule returns_bindA [OF returns_true] returns_if returns_raise returns_thenA [OF returns_true] returns_bindA [OF found_user(2)] returns_found login_as_returns rest)+
qed

lemma accept_invite_returns: "returns P (accept_invite al st tok n e pw) (session_of al st)"
proof -
  have use: "keeps (modA (\<lambda>w. w\<lparr>invite_tokens := f w\<rparr>)) (\<lambda>w. account u w \<and> belongs_to (u_id u) c w)" for f u c
    by (rule keeps_modA) (simp add: account_def belongs_to_def)
  show ?thesis unfolding accept_invite_def
    by (rule returns_bindA [OF returns_true] returns_bindA [OF found_user(1)] returns_found returns_raise returns_bindA [OF create_user_returns]
      returns_thenA [OF create_user_tenant_returns] returns_thenA [OF returns_keeps [OF use]] issue_account(1))+
qed

lemma sign_in_returns: "returns P (sign_in al st way) (session_of al st)"
  unfolding sign_in_def otp_verify_def
  by (cases way; simp only: sign_in.case;
      (rule returns_bindA [OF returns_true] returns_if returns_raise returns_session email_signup_returns google_signup_returns email_login_returns
        google_login_returns verify_otp_returns accept_invite_returns)+)

text \<open>python-jose: a token that has not expired decodes to the claims it was made of, the expiry in whole seconds.\<close>

definition jwt_roundtrip :: "authlib \<Rightarrow> bool" where
  "jwt_roundtrip al \<longleftrightarrow> (\<forall>c now. now < jw_exp c \<longrightarrow> al_decode al now (al_encode al c) = Some (c\<lparr>jw_exp := jw_exp c div second * second\<rparr>))"

text \<open>
  C28: a session is somebody's. Whichever way a session is opened (sign-up or login with a password or with Google, a login code, an
  invitation), its token, presented before it expires, authenticates as a registered user and as a tenant this user belongs to, and as a
  platform administrator only when the user is one; a user without a tenant gets a token that is always refused.
\<close>

theorem session_authenticates:
  assumes "jwt_roundtrip al" and "sign_in al st way w = (Inr l, w')" and "s < as_expire_minutes st * MINUTE"
  shows "fst (get_current_user al (lg_access_token l) (pass_time s w'))
      = (if lg_user_id l = [] \<or> lg_tenant_id l = [] then Inl (UnauthorizedError ''Invalid token claims'')
         else Inr \<lparr>pn_user_id = lg_user_id l, pn_tenant_id = lg_tenant_id l, pn_email = lg_email l, pn_superadmin = lg_superadmin l\<rparr>)
    \<and> (\<exists>u\<in>set (users w'). u_id u = lg_user_id l \<and> u_email u = lg_email l \<and> (lg_superadmin l \<longrightarrow> u_is_superadmin u))
    \<and> (lg_tenant_id l \<noteq> [] \<longrightarrow> (\<exists>m\<in>set (user_tenants w'). ut_user_id m = lg_user_id l \<and> ut_tenant_id m = lg_tenant_id l))"
proof -
  have ok: "session_of al st l w'" by (rule returnsD [OF sign_in_returns [of "\<lambda>_. True"] TrueI assms(2)])
  let ?c = "\<lparr>jw_sub = lg_user_id l, jw_tenant = lg_tenant_id l, jw_mail = lg_email l, jw_superadmin = lg_superadmin l,
        jw_exp = clock w' + as_expire_minutes st * MINUTE\<rparr>"
  have "al_decode al (clock w' + s) (lg_access_token l) = Some (?c\<lparr>jw_exp := jw_exp ?c div second * second\<rparr>)"
    using assms(1,3) ok by (simp add: jwt_roundtrip_def session_of_def)
  then have "fst (get_current_user al (lg_access_token l) (pass_time s w'))
      = (if lg_user_id l = [] \<or> lg_tenant_id l = [] then Inl (UnauthorizedError ''Invalid token claims'')
         else Inr \<lparr>pn_user_id = lg_user_id l, pn_tenant_id = lg_tenant_id l, pn_email = lg_email l, pn_superadmin = lg_superadmin l\<rparr>)"
    by (simp add: get_current_user_def bindA_apply pass_time_def)
  with ok show ?thesis by (simp add: session_of_def split: if_splits)
qed

text \<open>A library that keeps the round trip: fields with their length in front.\<close>

definition packed :: "string \<Rightarrow> string" where
  "packed s = replicate (length s) (CHR ''1'') @ CHR ''0'' # s"

definition unpacked :: "string \<Rightarrow> string \<times> string" where
  "unpacked s = (let n = length (takeWhile (\<lambda>c. c = CHR ''1'') s) in (take n (drop (Suc n) s), drop (Suc n + n) s))"

lemma unpacked_packed [simp]: "unpacked (packed s @ r) = (s, r)"
  by (simp add: unpacked_def packed_def takeWhile_append Let_def)

definition plain_lib :: authlib where
  "plain_lib = \<lparr>al_hash = id, al_verify = (=),
     al_encode = (\<lambda>c. packed (jw_sub c) @ packed (jw_tenant c) @ packed (jw_mail c) @ packed (if jw_superadmin c then ''1'' else [])
        @ packed (if 0 \<le> jw_exp c then ''+'' else ''-'') @ replicate (nat \<bar>jw_exp c div second\<bar>) (CHR ''1'')),
     al_decode = (\<lambda>now s. let (sub, s1) = unpacked s; (tid, s2) = unpacked s1; (mail, s3) = unpacked s2; (adm, s4) = unpacked s3; (sgn, s5) = unpacked s4;
          e = (if sgn = ''+'' then 1 else - 1) * int (length s5) * second
        in if now div second \<le> e div second then Some \<lparr>jw_sub = sub, jw_tenant = tid, jw_mail = mail, jw_superadmin = adm \<noteq> [], jw_exp = e\<rparr> else None),
     al_google = (\<lambda>t. Inr (200, \<lparr>gc_aud = Some [], gc_email = Some t, gc_name = None\<rparr>)), al_random = length\<rparr>"

lemma plain_lib_roundtrip: "jwt_roundtrip plain_lib"
proof -
  have "al_decode plain_lib now (al_encode plain_lib c) = Some (c\<lparr>jw_exp := jw_exp c div second * second\<rparr>)" if "now < jw_exp c" for c now
  proof -
    have "now div second \<le> jw_exp c div second" using that by (intro zdiv_mono1) (simp_all add: second_def)
    moreover have "(0 \<le> jw_exp c div second) = (0 \<le> jw_exp c)" by (simp add: second_def pos_imp_zdiv_nonneg_iff)
    ultimately show ?thesis by (cases "0 \<le> jw_exp c") (simp_all add: plain_lib_def Let_def second_def)
  qed
  then show ?thesis by (simp add: jwt_roundtrip_def)
qed

definition plain_settings :: auth_settings where
  "plain_settings = \<lparr>as_tenant_id = ''t1'', as_expire_minutes = 60, as_google_client_id = [], as_phone_number_id = ''p'', as_access_token = ''a'',
     as_frontend_url = ''https://x/''\<rparr>"

definition staff_world :: world where
  "staff_world = empty_world\<lparr>users := [\<lparr>u_id = ''u1'', u_email = ''a@b'', u_phone_number = Some ''2348000000001'', u_password_hash = Some ''secret12'',
     u_auth_provider = EMAIL, u_display_name = None, u_is_superadmin = False\<rparr>],
     user_tenants := [\<lparr>ut_user_id = ''u1'', ut_tenant_id = ''t1'', ut_role = ''owner'', ut_created_at = 0\<rparr>]\<rparr>"

theorem session_authenticates_witness:
  "\<exists>l w'. sign_in plain_lib plain_settings (EmailLogin ''a@b'' ''secret12'') staff_world = (Inr l, w')
     \<and> fst (get_current_user plain_lib (lg_access_token l) (pass_time 5 w'))
        = Inr \<lparr>pn_user_id = ''u1'', pn_tenant_id = ''t1'', pn_email = ''a@b'', pn_superadmin = False\<rparr>"
proof -
  have "\<exists>l w'. sign_in plain_lib plain_settings (EmailLogin ''a@b'' ''secret12'') staff_world = (Inr l, w')
      \<and> lg_user_id l = ''u1'' \<and> lg_tenant_id l = ''t1'' \<and> lg_email l = ''a@b'' \<and> \<not> lg_superadmin l"
    by (simp add: sign_in_def session_begin_def email_login_def get_user_by_email_def login_as_def get_owner_tenant_or_first_def issue_def
        create_access_token_def bindA_apply staff_world_def empty_world_def tenant_or_empty_def truthy_str_def or_empty_def) (simp add: plain_lib_def)
  then obtain l w' where l: "sign_in plain_lib plain_settings (EmailLogin ''a@b'' ''secret12'') staff_world = (Inr l, w')"
      "lg_user_id l = ''u1''" "lg_tenant_id l = ''t1''" "lg_email l = ''a@b''" "\<not> lg_superadmin l" by blast
  show ?thesis
    using session_authenticates [OF plain_lib_roundtrip l(1), of 5] l by (simp add: plain_settings_def MINUTE_def second_def)
qed

section \<open>Invitations\<close>

lemma load_spent:
  "\<forall>i\<in>set (invite_tokens w). iv_token i = tok \<longrightarrow> iv_used_at i \<noteq> None \<Longrightarrow> length (filter (\<lambda>i. iv_token i = tok) (invite_tokens w)) = Suc 0 \<Longrightarrow>
   load_valid_invite tok w = (Inl (NotFoundError ''Invite token'' tok), w)"
  by (auto simp: load_valid_invite_def bindA_apply length_Suc_conv filter_eq_Cons_iff)

lemma length_filter_update_where:
  "(\<And>x. p x \<Longrightarrow> p (f x)) \<Longrightarrow> length (filter p (update_where p f xs)) = length (filter p xs)"
  by (induction xs) (auto simp: update_where_def)

lemma load_open:
  "load_valid_invite tok w = (Inr i, w') \<Longrightarrow> w' = w \<and> filter (\<lambda>i. iv_token i = tok) (invite_tokens w) = [i] \<and> iv_used_at i = None \<and> clock w \<le> iv_expires_at i"
  by (auto simp: load_valid_invite_def bindA_apply dest!: scalar_Some split: option.splits sum.splits if_splits)

lemma all_used: "\<forall>j\<in>set (update_where (\<lambda>j. iv_token j = tok) (\<lambda>j. j\<lparr>iv_used_at := Some t\<rparr>) is). iv_token j = tok \<longrightarrow> iv_used_at j \<noteq> None"
  by (induction "is") simp_all

lemma issue_result: "issue al st uid tid email super w = (Inr l, w') \<Longrightarrow> w' = w \<and> lg_tenant_id l = tid \<and> lg_user_id l = uid"
  by (auto simp: issue_def create_access_token_def bindA_apply)

text \<open>
  C19: an invitation is used once. Who joins with a token joins the tenant it was made for with the role it was made with, before it
  expired; from then on the token is refused, whoever presents it and whenever.
\<close>

theorem invite_single_use:
  assumes "accept_invite al st tok n e pw w = (Inr l, w')"
  shows "(\<exists>i\<in>set (invite_tokens w). iv_token i = tok \<and> iv_used_at i = None \<and> clock w \<le> iv_expires_at i \<and> lg_tenant_id l = iv_tenant_id i
        \<and> (\<exists>m\<in>set (user_tenants w'). ut_user_id m = lg_user_id l \<and> ut_tenant_id m = lg_tenant_id l \<and> ut_role m = iv_role i))
    \<and> (\<forall>s n' e' pw'. fst (accept_invite al st tok n' e' pw' (pass_time s w')) = Inl (NotFoundError ''Invite token'' tok))"
proof -
  obtain i where load: "load_valid_invite tok w = (Inr i, w)"
    using assms by (auto simp: accept_invite_def bindA_apply dest: load_open split: prod.splits sum.splits)
  then have i: "filter (\<lambda>i. iv_token i = tok) (invite_tokens w) = [i]" "iv_used_at i = None" "clock w \<le> iv_expires_at i"
    using load_open by blast+
  obtain u w1 m w2 where st: "create_user e (Some (al_hash al pw)) EMAIL (if n = [] then None else Some n) None w = (Inr u, w1)"
      "create_user_tenant (u_id u) (iv_tenant_id i) (iv_role i) w1 = (Inr m, w2)"
      "issue al st (u_id u) (iv_tenant_id i) (u_email u) False
         (w2\<lparr>invite_tokens := update_where (\<lambda>j. iv_token j = tok) (\<lambda>j. j\<lparr>iv_used_at := Some (clock w2)\<rparr>) (invite_tokens w2)\<rparr>) = (Inr l, w')"
    using assms unfolding accept_invite_def bindA_apply [of "load_valid_invite tok"] load
    by (auto simp: bindA_apply thenA_apply get_user_by_email_def split: prod.splits sum.splits option.splits)
  have w1: "invite_tokens w1 = invite_tokens w" using st(1) by (auto simp: create_user_def bindA_apply Let_def split: if_splits)
  have w2: "invite_tokens w2 = invite_tokens w1" "m \<in> set (user_tenants w2)" "ut_user_id m = u_id u" "ut_tenant_id m = iv_tenant_id i" "ut_role m = iv_role i"
    using st(2) by (auto simp: create_user_tenant_def Let_def split: if_splits)
  have l: "lg_tenant_id l = iv_tenant_id i" "lg_user_id l = u_id u"
      "w' = w2\<lparr>invite_tokens := update_where (\<lambda>j. iv_token j = tok) (\<lambda>j. j\<lparr>iv_used_at := Some (clock w2)\<rparr>) (invite_tokens w2)\<rparr>"
    using issue_result [OF st(3)] by simp_all
  from w2 l have run: "\<exists>m\<in>set (user_tenants w'). ut_user_id m = lg_user_id l \<and> ut_tenant_id m = lg_tenant_id l \<and> ut_role m = iv_role i"
    by (intro bexI [of _ m]) simp_all
  have spent: "invite_tokens w' = update_where (\<lambda>j. iv_token j = tok) (\<lambda>j. j\<lparr>iv_used_at := Some (clock w2)\<rparr>) (invite_tokens w)"
    by (simp add: l(3) w1 w2(1))
  from i(1) have mem: "i \<in> set (invite_tokens w)" "iv_token i = tok" by (auto simp: filter_eq_Cons_iff)
  have "load_valid_invite tok (pass_time s w') = (Inl (NotFoundError ''Invite token'' tok), pass_time s w')" for s
  proof (rule load_spent)
    show "\<forall>j\<in>set (invite_tokens (pass_time s w')). iv_token j = tok \<longrightarrow> iv_used_at j \<noteq> None"
      using all_used [of tok "clock w2" "invite_tokens w"] by (simp add: pass_time_def spent)
    show "length (filter (\<lambda>j. iv_token j = tok) (invite_tokens (pass_time s w'))) = Suc 0"
      by (simp add: pass_time_def spent length_filter_update_where i(1))
  qed
  then have "\<forall>s n' e' pw'. fst (accept_invite al st tok n' e' pw' (pass_time s w')) = Inl (NotFoundError ''Invite token'' tok)"
    by (simp add: accept_invite_def bindA_apply)
  with mem i run l(1) show ?thesis by blast
qed

definition invited_world :: world where
  "invited_world = staff_world\<lparr>invite_tokens := [\<lparr>iv_tenant_id = ''t1'', iv_token = ''tok'', iv_role = ''member'', iv_expires_at = 10, iv_used_at = None\<rparr>]\<rparr>"

theorem invite_single_use_witness:
  "\<exists>l w'. accept_invite plain_lib plain_settings ''tok'' ''Ada'' ''c@d'' ''secret12'' invited_world = (Inr l, w')
     \<and> lg_tenant_id l = ''t1'' \<and> fst (accept_invite plain_lib plain_settings ''tok'' ''Obi'' ''e@f'' ''secret12'' (pass_time 0 w')) = Inl (NotFoundError ''Invite token'' ''tok'')"
proof -
  have "\<exists>l w'. accept_invite plain_lib plain_settings ''tok'' ''Ada'' ''c@d'' ''secret12'' invited_world = (Inr l, w') \<and> lg_tenant_id l = ''t1''"
    by (simp add: accept_invite_def load_valid_invite_def get_user_by_email_def create_user_def create_user_tenant_def issue_def create_access_token_def
        bindA_apply thenA_apply Let_def invited_world_def staff_world_def empty_world_def)
  then obtain l w' where l: "accept_invite plain_lib plain_settings ''tok'' ''Ada'' ''c@d'' ''secret12'' invited_world = (Inr l, w')" "lg_tenant_id l = ''t1''"
    by blast
  with invite_single_use [OF l(1)] show ?thesis by blast
qed

theorem otp_single_use_witness:
  "stored_code ''234'' (exec (cache_setex (otp_key ''234'') OTP_TTL (TextDoc ''000007'')) empty_world) = Some (TextDoc ''000007'')
   \<and> (let w' = pass_time 1 (exec (verify_otp plain_lib plain_settings ''234'' ''000007'') (exec (cache_setex (otp_key ''234'') OTP_TTL (TextDoc ''000007'')) empty_world)) in
      verify_otp plain_lib plain_settings ''234'' ''000007'' w' = (Inl (UnauthorizedError ''Invalid or expired login code.''), w'))"
proof -
  let ?w = "exec (cache_setex (otp_key ''234'') OTP_TTL (TextDoc ''000007'')) empty_world"
  have "stored_code ''234'' ?w = Some (TextDoc ''000007'')"
    by (simp add: stored_code_def exec_def cache_setex_def redis_setex_def redis_get_def alive_def OTP_TTL_def second_def)
  with otp_single_use [of "''000007''" "''234''" ?w plain_lib plain_settings] show ?thesis by blast
qed

theorem otp_request_limit_witness:
  "length (dispatched (otp_requests open_gateway plain_lib plain_settings ''234'' (replicate 9 1) empty_world)) \<le> length (dispatched empty_world) + 5"
proof (rule otp_request_limit)
  show "\<forall>s\<in>set (replicate 9 1). 0 \<le> (s :: int)" by simp
  show "sum_list (replicate 9 1) < OTP_TTL * second" by (simp add: sum_list_replicate OTP_TTL_def second_def)
  show "\<forall>n ex. kv (redis empty_world) (attempts_key ''234'') = Some (CounterDoc n, ex) \<longrightarrow> 0 \<le> n" by (simp add: empty_world_def empty_redis_def)
qed

end
