(* ===== verification/Reports.thy ===== *)
theory Reports
  imports Conversations Credit_Sales Notifications Auth
begin

text \<open>
  The weekly report (\<open>modules/reports\<close>): the week it covers, the figures it gathers, its text, and the run that
  sends it once per tenant and week. The time zone database, \<open>uuid5\<close>, the text of an exception and the column \<open>updated_at\<close> of a credit sale, which the
  database maintains, are parameters. Text is in UTF-8.
\<close>

section \<open>Parameters\<close>

text \<open>A time zone turns UTC into wall clock time and back.\<close>

record zone =
  z_local :: "timestamp \<Rightarrow> int"
  z_utc :: "int \<Rightarrow> timestamp"

record report_lib =
  rl_zones :: "string \<Rightarrow> zone option"
  rl_uuid5 :: "string \<Rightarrow> string"
  rl_describe :: "error \<Rightarrow> string"
  rl_updated_at :: "credit_sale \<Rightarrow> timestamp"

definition safe_tz :: "report_lib \<Rightarrow> string \<Rightarrow> error + zone" where
  "safe_tz rl name = (case rl_zones rl name of Some z \<Rightarrow> Inr z
     | None \<Rightarrow> (case rl_zones rl ''Africa/Lagos'' of Some z \<Rightarrow> Inr z | None \<Rightarrow> Inl (KeyError ''No time zone found with key Africa/Lagos'')))"

section \<open>The week\<close>

definition civil :: "int \<Rightarrow> int \<times> int \<times> int" where
  "civil day = (let z = day + 719468; doe = z mod 146097;
       yoe = (doe - doe div 1460 + doe div 36524 - doe div 146096) div 365;
       doy = doe - (365 * yoe + yoe div 4 - yoe div 100);
       mp = (5 * doy + 2) div 153; m = (if mp < 10 then mp + 3 else mp - 9)
     in (yoe + z div 146097 * 400 + (if m \<le> 2 then 1 else 0), m, doy - (153 * mp + 2) div 5 + 1))"

definition padded :: "nat \<Rightarrow> int \<Rightarrow> string" where
  "padded n i = (let s = show_int i in replicate (n - length s) (CHR ''0'') @ s)"

definition isoformat :: "int \<Rightarrow> string" where
  "isoformat day = (let (y, m, d) = civil day in padded 4 y @ ''-'' @ padded 2 m @ ''-'' @ padded 2 d)"

definition monday_of_prior_week :: "int \<Rightarrow> int" where
  "monday_of_prior_week today = (let prior = today - 7 in prior - (prior + 3) mod 7)"

definition get_week_boundaries :: "zone \<Rightarrow> timestamp \<Rightarrow> timestamp \<times> timestamp \<times> int" where
  "get_week_boundaries z now = (let monday = monday_of_prior_week (z_local z now div day_us); sunday = monday + 6 in
     (z_utc z (monday * day_us), z_utc z (sunday * day_us + (23 * 3600 + 59 * 60 + 59) * second), monday))"

section \<open>The figures\<close>

record top_customer =
  wc_name :: string
  wc_order_count :: nat
  wc_revenue :: decimal

record needs_attention =
  na_customer_name :: string
  na_customer_identifier :: string
  na_hours :: int

record weekly_metrics =
  wm_week_start :: int
  wm_new_conversations :: nat
  wm_new_orders :: nat
  wm_revenue_paid :: decimal
  wm_currency :: string
  wm_top_customers :: "top_customer list"
  wm_needs_attention :: "needs_attention list"
  wm_conv_delta :: int
  wm_revenue_delta :: decimal
  wm_trending :: "(string \<times> int) list"
  wm_total_outstanding :: decimal
  wm_active_debts :: nat
  wm_settled :: nat

definition conversations_between :: "string \<Rightarrow> timestamp \<Rightarrow> timestamp \<Rightarrow> world \<Rightarrow> nat" where
  "conversations_between tid s e w = length (filter (\<lambda>c. cv_tenant_id c = tid \<and> s \<le> cv_created_at c \<and> cv_created_at c \<le> e) (conversations w))"

definition orders_between :: "string \<Rightarrow> timestamp \<Rightarrow> timestamp \<Rightarrow> world \<Rightarrow> order list" where
  "orders_between tid s e w = filter (\<lambda>x. o_tenant_id x = tid \<and> s \<le> o_created_at x \<and> o_created_at x \<le> e) (orders w)"

text \<open>\<open>coalesce(sum(case state = PAID then amount end), 0)\<close>; a missing amount counts for nothing.\<close>

definition paid_sum :: "order list \<Rightarrow> decimal" where
  "paid_sum xs = sum_list (map (\<lambda>x. amount_or_0 (o_amount x)) (filter (\<lambda>x. o_state x = PAID) xs))"

text \<open>\<open>GROUP BY\<close>: the keys in the order they first occur, each with its rows.\<close>

definition group_by :: "('a \<Rightarrow> 'k) \<Rightarrow> 'a list \<Rightarrow> ('k \<times> 'a list) list" where
  "group_by k xs = map (\<lambda>a. (a, filter (\<lambda>x. k x = a) xs)) (rev (remdups (rev (map k xs))))"

definition top_customers :: "order list \<Rightarrow> conversation list \<Rightarrow> top_customer list" where
  "top_customers xs cs = (let rows = concat (map (\<lambda>x. map (\<lambda>c. (x, cv_customer_name c)) (filter (\<lambda>c. cv_id c = o_conversation_id x) cs)) xs) in
     map (\<lambda>((cid, name), rs). \<lparr>wc_name = (if truthy_str name then or_empty name else if truthy_str cid then or_empty cid else ''Unknown''),
            wc_order_count = length rs, wc_revenue = paid_sum (map fst rs)\<rparr>)
       (take 3 (order_by_desc (\<lambda>(k, rs). length rs) (group_by (\<lambda>(x, name). (o_customer_id x, name)) rows))))"

definition attention :: "string \<Rightarrow> world \<Rightarrow> needs_attention list" where
  "attention tid w = (let now = clock w; waiting = concat (map (\<lambda>c. case last_message (cv_id c) w of
         Some m \<Rightarrow> if cv_tenant_id c = tid \<and> cv_status c = CV_ACTIVE \<and> m_sender_role m = ''user'' \<and> m_created_at m < now - 24 * hour_us then [(c, m_created_at m)] else []
       | None \<Rightarrow> []) (conversations w)) in
     map (\<lambda>(c, t). \<lparr>na_customer_name = (if truthy_str (cv_customer_name c) then or_empty (cv_customer_name c) else cv_customer_identifier c),
            na_customer_identifier = cv_customer_identifier c, na_hours = max 0 ((now - t) div hour_us)\<rparr>)
       (take 5 (order_by_asc snd waiting)))"

definition trending_products :: "order list \<Rightarrow> order_item list \<Rightarrow> (string \<times> int) list" where
  "trending_products xs is = take 5 (order_by_desc snd (map (\<lambda>(name, rs). (name, sum_list (map oi_quantity rs)))
     (group_by oi_product_name (concat (map (\<lambda>i. map (\<lambda>_. i) (filter (\<lambda>x. o_id x = oi_order_id i) xs)) is)))))"

definition gather_metrics :: "report_lib \<Rightarrow> string \<Rightarrow> timestamp \<Rightarrow> timestamp \<Rightarrow> int \<Rightarrow> world \<Rightarrow> weekly_metrics" where
  "gather_metrics rl tid s e monday w = (let xs = orders_between tid s e w; debts = filter (\<lambda>c. cs_tenant_id c = tid) (credit_sales w);
       active = filter (\<lambda>c. cs_status c = CS_ACTIVE) debts; prior = (s - 7 * day_us, e - 7 * day_us) in
     \<lparr>wm_week_start = monday, wm_new_conversations = conversations_between tid s e w, wm_new_orders = length xs, wm_revenue_paid = paid_sum xs,
      wm_currency = (case map o_currency xs of [] \<Rightarrow> ''NGN'' | c # cs \<Rightarrow> let m = foldl max c cs in if m = [] then ''NGN'' else m),
      wm_top_customers = top_customers xs (conversations w), wm_needs_attention = attention tid w,
      wm_conv_delta = int (conversations_between tid s e w) - int (conversations_between tid (fst prior) (snd prior) w),
      wm_revenue_delta = paid_sum xs - paid_sum (orders_between tid (fst prior) (snd prior) w),
      wm_trending = trending_products xs (order_items w),
      wm_total_outstanding = sum_list (map cs_amount active), wm_active_debts = length active,
      wm_settled = length (filter (\<lambda>c. cs_status c = CS_SETTLED \<and> s \<le> rl_updated_at rl c \<and> rl_updated_at rl c \<le> e) debts)\<rparr>)"

section \<open>The text\<close>

definition utf8 :: "nat \<Rightarrow> string" where
  "utf8 n = (if n < 0x80 then [char_of n]
     else if n < 0x800 then [char_of (0xC0 + n div 0x40), char_of (0x80 + n mod 0x40)]
     else if n < 0x10000 then [char_of (0xE0 + n div 0x1000), char_of (0x80 + n div 0x40 mod 0x40), char_of (0x80 + n mod 0x40)]
     else [char_of (0xF0 + n div 0x40000), char_of (0x80 + n div 0x1000 mod 0x40), char_of (0x80 + n div 0x40 mod 0x40), char_of (0x80 + n mod 0x40)])"

definition MONTHS :: "string list" where
  "MONTHS = [''Jan'', ''Feb'', ''Mar'', ''Apr'', ''May'', ''Jun'', ''Jul'', ''Aug'', ''Sep'', ''Oct'', ''Nov'', ''Dec'']"

definition day_month :: "int \<Rightarrow> string" where
  "day_month day = (let (y, m, d) = civil day in show_int d @ '' '' @ MONTHS ! nat (m - 1))"

text \<open>\<open>f"{d:,.2f}"\<close>.\<close>

definition format_cents :: "decimal \<Rightarrow> string" where
  "format_cents q = (let c = round_half_even (q * 100) in (if c < 0 then ''-'' else []) @ commas (\<bar>c\<bar> div 100) @ ''.'' @ padded 2 (\<bar>c\<bar> mod 100))"

definition fmt_delta_int :: "int \<Rightarrow> string \<Rightarrow> string" where
  "fmt_delta_int v label = (if 0 < v then ''+'' @ show_int v @ '' '' @ label else if v < 0 then show_int v @ '' '' @ label else ''same as last week'')"

definition fmt_delta_money :: "decimal \<Rightarrow> string" where
  "fmt_delta_money v = (if 0 < v then ''+'' @ naira @ format_amount v @ '' vs last week''
     else if v < 0 then ''-'' @ naira @ format_amount \<bar>v\<bar> @ '' vs last week'' else ''same as last week'')"

definition RULE :: string where
  "RULE = concat (replicate 20 (utf8 0x2501))"

definition section_head :: "string \<Rightarrow> string list" where
  "section_head title = [[], RULE, ''*'' @ title @ ''*'']"

definition enumerated :: "('a \<Rightarrow> string) \<Rightarrow> 'a list \<Rightarrow> string list" where
  "enumerated f xs = map (\<lambda>(i, x). show_nat (Suc i) @ ''. '' @ f x) (enumerate 0 xs)"

definition customer_line :: "top_customer \<Rightarrow> string" where
  "customer_line c = wc_name c @ '' ('' @ show_nat (wc_order_count c) @ '' '' @ (if wc_order_count c = 1 then ''order'' else ''orders'')
     @ (if 0 < wc_revenue c then '' '' @ utf8 0x2014 @ '' '' @ naira @ format_amount (wc_revenue c) else []) @ '')''"

definition product_line :: "string \<times> int \<Rightarrow> string" where
  "product_line p = fst p @ '' '' @ utf8 0x2014 @ '' '' @ show_int (snd p) @ '' '' @ (if snd p = 1 then ''unit'' else ''units'')"

definition debt_lines :: "weekly_metrics \<Rightarrow> string list" where
  "debt_lines m = (if wm_active_debts m > 0 then [''Outstanding: *'' @ naira @ format_amount (wm_total_outstanding m) @ ''* (''
        @ show_nat (wm_active_debts m) @ '' debtor'' @ (if wm_active_debts m \<noteq> 1 then ''s'' else []) @ '')''] else [])
     @ (if wm_settled m > 0 then [''Settled this week: *'' @ show_nat (wm_settled m) @ ''*''] else [])
     @ (if wm_active_debts m = 0 then [''All debts cleared! '' @ utf8 0x1F389] else [])"

definition report_lines :: "weekly_metrics \<Rightarrow> string list" where
  "report_lines m = [utf8 0x1F4CA @ '' *Weekly Report* '' @ utf8 0x2014 @ '' '' @ day_month (wm_week_start m) @ utf8 0x2013 @ day_month (wm_week_start m + 6)
        @ '' '' @ show_int (fst (civil (wm_week_start m + 6))), [], RULE, ''*This week at a glance*'',
      utf8 0x1F4AC @ '' New leads: *'' @ show_nat (wm_new_conversations m) @ ''* ('' @ fmt_delta_int (wm_conv_delta m) ''vs last week'' @ '')'',
      utf8 0x1F6CD @ utf8 0xFE0F @ '' Orders: *'' @ show_nat (wm_new_orders m) @ ''*'',
      utf8 0x1F4B0 @ '' Revenue (paid): *'' @ naira @ format_cents (wm_revenue_paid m) @ ''*'',
      ''   '' @ utf8 0x21B3 @ '' '' @ fmt_delta_money (wm_revenue_delta m)]
    @ (if wm_top_customers m = [] then [] else section_head (utf8 0x1F3C6 @ '' Top customers'') @ enumerated customer_line (wm_top_customers m))
    @ (if wm_trending m = [] then [] else section_head (utf8 0x1F4C8 @ '' Trending products'') @ enumerated product_line (wm_trending m))
    @ (if wm_active_debts m > 0 \<or> wm_settled m > 0 then section_head (utf8 0x1F4D6 @ '' Debt book'') @ debt_lines m else [])
    @ (if wm_needs_attention m = [] then [] else section_head (utf8 0x26A0 @ utf8 0xFE0F @ '' Needs your attention'')
        @ map (\<lambda>n. utf8 0x2022 @ '' '' @ na_customer_name n @ '' '' @ utf8 0x2014 @ '' waiting '' @ show_int (na_hours n) @ ''h'') (wm_needs_attention m))
    @ [[], RULE, ''_Sent by ChatToSales_'']"

definition render_report :: "weekly_metrics \<Rightarrow> string" where
  "render_report m = join [CHR 0x0A] (report_lines m)"

section \<open>The service\<close>

definition find_config :: "string \<Rightarrow> report_config option svc" where
  "find_config tid = bindA (getA report_configs) (\<lambda>cs. liftE (scalar_one_or_none (filter (\<lambda>c. rc_tenant_id c = tid) cs)))"

text \<open>The default configuration is committed at once.\<close>

definition get_config :: "string \<Rightarrow> report_config svc" where
  "get_config tid = bindA (find_config tid) (\<lambda>c. case c of
     Some c \<Rightarrow> ret c
   | None \<Rightarrow> let c = \<lparr>rc_tenant_id = tid, rc_enabled = False, rc_recipient_phone = None, rc_timezone = ''Africa/Lagos''\<rparr> in
       thenA (modA (\<lambda>w. w\<lparr>report_configs := report_configs w @ [c]\<rparr>)) (ret c))"

text \<open>A patch: for the phone, whether the field is present and its value, which may be null.\<close>

definition upsert_config :: "string \<Rightarrow> bool option \<Rightarrow> string option option \<Rightarrow> string option \<Rightarrow> report_config svc" where
  "upsert_config tid enabled phone tz = bindA (session_begin (get_config tid)) (\<lambda>c.
     let f = (\<lambda>c. c\<lparr>rc_enabled := (case enabled of Some b \<Rightarrow> b | None \<Rightarrow> rc_enabled c),
           rc_recipient_phone := (case phone of Some p \<Rightarrow> p | None \<Rightarrow> rc_recipient_phone c),
           rc_timezone := (case tz of Some z \<Rightarrow> z | None \<Rightarrow> rc_timezone c)\<rparr>) in
     thenA (modA (\<lambda>w. w\<lparr>report_configs := update_where (\<lambda>c. rc_tenant_id c = tid) f (report_configs w)\<rparr>)) (ret (f c)))"

definition week_of :: "report_lib \<Rightarrow> report_config \<Rightarrow> (timestamp \<times> timestamp \<times> int) svc" where
  "week_of rl c = bindA (liftE (safe_tz rl (rc_timezone c))) (\<lambda>z. bindA (getA clock) (\<lambda>now. ret (get_week_boundaries z now)))"

definition compose_report :: "report_lib \<Rightarrow> string \<Rightarrow> timestamp \<times> timestamp \<times> int \<Rightarrow> string svc" where
  "compose_report rl tid = (\<lambda>(s, e, monday). bindA (getA (gather_metrics rl tid s e monday)) (\<lambda>m. ret (render_report m)))"

definition send_preview :: "gateway \<Rightarrow> report_lib \<Rightarrow> string \<Rightarrow> string svc" where
  "send_preview gw rl tid = bindA (session_begin (get_config tid)) (\<lambda>c. case rc_recipient_phone c of
     None \<Rightarrow> raise (ValueError ''No recipient_phone configured. Set one via PUT /reports/config.'')
   | Some phone \<Rightarrow> if phone = [] then raise (ValueError ''No recipient_phone configured. Set one via PUT /reports/config.'')
     else bindA (get_by_tenant_and_channel tid ''whatsapp'') (\<lambda>ch. case ch of
       None \<Rightarrow> raise (ValueError ''WhatsApp channel not connected for this tenant. Connect it first via POST /api/v1/channels/whatsapp/connect.'')
     | Some _ \<Rightarrow> session_begin (bindA (week_of rl c) (\<lambda>week. bindA (compose_report rl tid week) (\<lambda>text. bindA uuid4 (\<lambda>u.
         thenA (send_message gw tid (''report.preview.'' @ tid @ ''.'' @ u) phone (Plain text) ''whatsapp'' None None) (ret text)))))))"

definition find_report :: "string \<Rightarrow> string \<Rightarrow> weekly_report option svc" where
  "find_report tid week = bindA (getA weekly_reports) (\<lambda>rs. liftE (scalar_one_or_none (filter (\<lambda>r. wr_tenant_id r = tid \<and> wr_week_start r = week) rs)))"

definition add_report :: "weekly_report \<Rightarrow> weekly_report svc" where
  "add_report r = (\<lambda>w. if (wr_tenant_id r, wr_week_start r) \<in> (\<lambda>r. (wr_tenant_id r, wr_week_start r)) ` set (weekly_reports w)
     then (Inl (IntegrityError ''ix_weekly_reports_tenant_week''), w) else (Inr r, w\<lparr>weekly_reports := weekly_reports w @ [r]\<rparr>))"

text \<open>The report of a tenant with reports enabled: what the attempt to send it ends in.\<close>

definition attempt_report :: "gateway \<Rightarrow> report_lib \<Rightarrow> string \<Rightarrow> string \<Rightarrow> timestamp \<times> timestamp \<times> int \<Rightarrow> weekly_report svc" where
  "attempt_report gw rl tid phone week = (let iso = isoformat (snd (snd week)) in
     tryA (bindA (compose_report rl tid week) (\<lambda>text.
        thenA (send_message gw tid (rl_uuid5 rl (''report.weekly.'' @ tid @ ''.'' @ iso)) phone (Plain text) ''whatsapp'' None None)
          (ret \<lparr>wr_tenant_id = tid, wr_week_start = iso, wr_status = WR_SENT, wr_recipient_phone = Some phone, wr_report_text = Some text, wr_error_detail = None\<rparr>)))
     (\<lambda>e. ret \<lparr>wr_tenant_id = tid, wr_week_start = iso, wr_status = WR_FAILED, wr_recipient_phone = Some phone, wr_report_text = None,
            wr_error_detail = Some (take 500 (rl_describe rl e))\<rparr>))"

definition run_weekly :: "gateway \<Rightarrow> report_lib \<Rightarrow> string \<Rightarrow> weekly_report svc" where
  "run_weekly gw rl tid = bindA (session_begin (get_config tid)) (\<lambda>c. session_begin (bindA (week_of rl c) (\<lambda>week. let iso = isoformat (snd (snd week)) in
     bindA (find_report tid iso) (\<lambda>existing. case existing of
       Some r \<Rightarrow> ret r
     | None \<Rightarrow> if \<not> rc_enabled c \<or> \<not> truthy_str (rc_recipient_phone c)
         then add_report \<lparr>wr_tenant_id = tid, wr_week_start = iso, wr_status = WR_SKIPPED, wr_recipient_phone = rc_recipient_phone c, wr_report_text = None,
            wr_error_detail = Some ''Report disabled or no recipient configured.''\<rparr>
         else bindA (attempt_report gw rl tid (or_empty (rc_recipient_phone c)) week) add_report))))"

definition trigger_weekly :: "gateway \<Rightarrow> report_lib \<Rightarrow> string \<Rightarrow> string \<Rightarrow> string option \<Rightarrow> weekly_report svc" where
  "trigger_weekly gw rl secret tid given = (if secret = [] \<or> given \<noteq> Some secret then raise (UnauthorizedError ''Invalid or missing X-Report-Secret header.'')
     else run_weekly gw rl tid)"

definition get_report_history :: "string \<Rightarrow> nat \<Rightarrow> world \<Rightarrow> weekly_report list" where
  "get_report_history tid limit w = take (min limit 52) (rev (sort_key wr_week_start (filter (\<lambda>r. wr_tenant_id r = tid) (weekly_reports w))))"

text \<open>The job of the scheduler: every tenant with reports enabled and a recipient, each failure on its own.\<close>

definition send_weekly_reports :: "gateway \<Rightarrow> report_lib \<Rightarrow> unit svc" where
  "send_weekly_reports gw rl = bindA (getA (\<lambda>w. filter (\<lambda>c. rc_enabled c \<and> rc_recipient_phone c \<noteq> None) (report_configs w)))
     (\<lambda>cs. forA cs (\<lambda>c. tryA (thenA (run_weekly gw rl (rc_tenant_id c)) (ret ())) (\<lambda>_. ret ())))"

section \<open>The week covered\<close>

definition fixed_zone :: "int \<Rightarrow> zone" where
  "fixed_zone off = \<lparr>z_local = (\<lambda>t. t + off), z_utc = (\<lambda>l. l - off)\<rparr>"

definition covers :: "zone \<Rightarrow> timestamp \<Rightarrow> timestamp \<Rightarrow> bool" where
  "covers z now t \<longleftrightarrow> fst (get_week_boundaries z now) \<le> t \<and> t \<le> fst (snd (get_week_boundaries z now))"

text \<open>Microseconds since the Monday before, in the zone.\<close>

definition into_week :: "int \<Rightarrow> timestamp \<Rightarrow> int" where
  "into_week off t = (t + off + 3 * day_us) mod (7 * day_us)"

lemma monday_eq: "monday_of_prior_week today = 7 * ((today - 4) div 7) - 3"
proof -
  have "monday_of_prior_week today = today - 7 - (today - 4) mod 7" by (simp add: monday_of_prior_week_def Let_def)
  then show ?thesis using div_mult_mod_eq [of "today - 4" 7] by linarith
qed

lemma boundaries_eq:
  "get_week_boundaries (fixed_zone off) now = (let k = ((now + off) div day_us - 4) div 7 in
     ((7 * k - 3) * day_us - off, (7 * k + 4) * day_us - second - off, 7 * k - 3))"
  by (simp add: get_week_boundaries_def fixed_zone_def monday_eq Let_def algebra_simps) (simp add: day_us_def second_def)

lemma within_week: "q * k \<le> x \<and> x \<le> q * k + (q - r) \<longleftrightarrow> k = x div q \<and> x mod q \<le> q - r" if "0 < r" "r < (q :: int)"
proof -
  have x: "x = q * (x div q) + x mod q" "0 \<le> x mod q" "x mod q < q" using that by simp_all
  show ?thesis
  proof
    assume h: "q * k \<le> x \<and> x \<le> q * k + (q - r)"
    then have "k = x div q" using that by (intro sym [OF int_div_pos_eq [where r = "x - q * k"]]) simp_all
    moreover from this h have "x - q * (x div q) \<le> q - r" by simp
    ultimately show "k = x div q \<and> x mod q \<le> q - r" using x(1) by linarith
  next
    assume "k = x div q \<and> x mod q \<le> q - r"
    with x show "q * k \<le> x \<and> x \<le> q * k + (q - r)" by (metis add_le_cancel_left le_add_same_cancel1)
  qed
qed

lemma covers_iff: "covers (fixed_zone off) now t \<longleftrightarrow>
    ((now + off) div day_us - 4) div 7 = (t + off + 3 * day_us) div (7 * day_us) \<and> into_week off t \<le> 7 * day_us - second"
proof -
  have "covers (fixed_zone off) now t \<longleftrightarrow> (let k = ((now + off) div day_us - 4) div 7; x = t + off + 3 * day_us; q = 7 * day_us in
      q * k \<le> x \<and> x \<le> q * k + (q - second))"
    by (simp add: covers_def boundaries_eq Let_def algebra_simps)
  moreover have "0 < second" "second < 7 * day_us" by (simp_all add: day_us_def second_def)
  ultimately show ?thesis using within_week [of second "7 * day_us"] by (simp only: Let_def into_week_def)
qed

text \<open>
  The weeks of the reports leave out their last second. In a zone of a fixed offset the report of a moment covers the week before the
  current one, from Monday 0:00 to Sunday 23:59:59 sharp; what happens at a time is covered by the reports of exactly one week, the
  next, except in the second before midnight on Sunday, which no report ever counts.
\<close>

theorem report_weeks:
  shows "(\<forall>now. fst (get_week_boundaries (fixed_zone off) now) + 7 * day_us \<le> now \<and> now < fst (get_week_boundaries (fixed_zone off) now) + 14 * day_us
        \<and> into_week off (fst (get_week_boundaries (fixed_zone off) now)) = 0)
     \<and> ((\<exists>now. covers (fixed_zone off) now t) \<longleftrightarrow> into_week off t \<le> 7 * day_us - second)
     \<and> (into_week off t \<le> 7 * day_us - second \<longrightarrow> covers (fixed_zone off) (t + 7 * day_us) t)"
proof (intro conjI allI)
  fix now
  define d where "d = (now + off) div day_us"
  define k where "k = (d - 4) div 7"
  have s: "fst (get_week_boundaries (fixed_zone off) now) = (7 * k - 3) * day_us - off" by (simp add: boundaries_eq Let_def k_def d_def)
  have k: "7 * k \<le> d - 4" "d - 4 < 7 * k + 7" unfolding k_def by simp_all
  have d: "d * day_us \<le> now + off" "now + off < (d + 1) * day_us"
    using div_mult_mod_eq [of "now + off" day_us] pos_mod_bound [of day_us "now + off"] pos_mod_sign [of day_us "now + off"]
    by (simp_all add: d_def day_us_def)
  show "fst (get_week_boundaries (fixed_zone off) now) + 7 * day_us \<le> now" "now < fst (get_week_boundaries (fixed_zone off) now) + 14 * day_us"
    using k d by (simp_all add: s day_us_def)
  have "(7 * k - 3) * day_us - off + off + 3 * day_us = k * (7 * day_us)" by (simp add: algebra_simps)
  then show "into_week off (fst (get_week_boundaries (fixed_zone off) now)) = 0" by (simp add: into_week_def s)
next
  have own: "covers (fixed_zone off) (t + 7 * day_us) t" if "into_week off t \<le> 7 * day_us - second"
  proof -
    have "(t + 7 * day_us + off) div day_us = (t + off) div day_us + 7"
      using div_mult_self1 [of day_us "t + off" 7] by (simp add: day_us_def algebra_simps)
    moreover have "((t + off) div day_us + 3) div 7 = (t + off + 3 * day_us) div (7 * day_us)"
      using zdiv_zmult2_eq [of 7 "t + off + 3 * day_us" day_us] div_mult_self1 [of day_us "t + off" 3] by (simp add: mult.commute) (simp add: day_us_def)
    ultimately show ?thesis using that by (simp add: covers_iff)
  qed
  show "(\<exists>now. covers (fixed_zone off) now t) \<longleftrightarrow> into_week off t \<le> 7 * day_us - second"
    using own by (auto simp: covers_iff)
  show "into_week off t \<le> 7 * day_us - second \<longrightarrow> covers (fixed_zone off) (t + 7 * day_us) t" using own by blast
qed

section \<open>Once a week\<close>

definition report_key :: "weekly_report \<Rightarrow> string \<times> string" where
  "report_key r = (wr_tenant_id r, wr_week_start r)"

definition attempted :: "world \<Rightarrow> world \<Rightarrow> bool" where
  "attempted w w' \<longleftrightarrow> (\<exists>rs ds. weekly_reports w' = weekly_reports w @ rs \<and> dispatched w' = dispatched w @ ds
     \<and> length ds \<le> length (filter (\<lambda>r. wr_status r = WR_SENT) rs)
     \<and> (distinct (map report_key (weekly_reports w)) \<longrightarrow> distinct (map report_key (weekly_reports w @ rs))))"

lemma attemptedI: "weekly_reports w' = weekly_reports w \<Longrightarrow> dispatched w' = dispatched w \<Longrightarrow> attempted w w'"
  unfolding attempted_def by (rule exI [of _ "[]"], rule exI [of _ "[]"]) simp

lemma attempted_trans: "attempted w v \<Longrightarrow> attempted v u \<Longrightarrow> attempted w u"
proof -
  assume "attempted w v" "attempted v u"
  then obtain rs ds rs' ds' where "weekly_reports v = weekly_reports w @ rs" "dispatched v = dispatched w @ ds"
     "length ds \<le> length (filter (\<lambda>r. wr_status r = WR_SENT) rs)"
     "distinct (map report_key (weekly_reports w)) \<longrightarrow> distinct (map report_key (weekly_reports w @ rs))"
     "weekly_reports u = weekly_reports v @ rs'" "dispatched u = dispatched v @ ds'"
     "length ds' \<le> length (filter (\<lambda>r. wr_status r = WR_SENT) rs')"
     "distinct (map report_key (weekly_reports v)) \<longrightarrow> distinct (map report_key (weekly_reports v @ rs'))"
    unfolding attempted_def by blast
  then show ?thesis unfolding attempted_def by (intro exI [of _ "rs @ rs'"] exI [of _ "ds @ ds'"]) simp
qed

text \<open>What sending a message changes of what matters here.\<close>

definition one_message :: "'a svc \<Rightarrow> bool" where
  "one_message m \<longleftrightarrow> (\<forall>w. weekly_reports (snd (m w)) = weekly_reports w \<and> (\<exists>ds. dispatched (snd (m w)) = dispatched w @ ds \<and> length ds \<le> 1
     \<and> (\<forall>e. fst (m w) = Inl e \<longrightarrow> ds = [])))"

lemma send_once_one:
  assumes "only_dispatches rcpt dispatch"
  shows "one_message (send_once tid eid rcpt text ch oid skipped dispatch raise)"
  unfolding one_message_def
proof
  fix w :: world
  let ?m = "send_once tid eid rcpt text ch oid skipped dispatch raise"
  show "weekly_reports (snd (?m w)) = weekly_reports w \<and> (\<exists>ds. dispatched (snd (?m w)) = dispatched w @ ds \<and> length ds \<le> 1
     \<and> (\<forall>e. fst (?m w) = Inl e \<longrightarrow> ds = []))"
  proof (cases "get_by_event_id eid w")
    case (Pair r w0)
    then have [simp]: "w0 = w" by (auto simp: get_by_event_id_def bindA_apply)
    show ?thesis
    proof (cases "r = Inr None")
      case False
      then show ?thesis using Pair by (auto simp: send_once_def bindA_apply split: sum.split option.split)
    next
      case True
      obtain c w1 where c: "notification_create tid eid rcpt text ch oid w = (c, w1)" by force
      then have w1: "weekly_reports w1 = weekly_reports w" "dispatched w1 = dispatched w"
        by (auto simp: notification_create_def bindA_apply Let_def split: if_splits)
      show ?thesis
      proof (cases c)
        case (Inl e)
        then show ?thesis using w1 Pair True c by (simp add: send_once_def bindA_apply)
      next
        case (Inr n)
        obtain x ds where d: "dispatch w1 = (x, w1\<lparr>dispatched := dispatched w1 @ ds\<rparr>)" "length ds \<le> 1" "\<forall>e. x = Inl e \<longrightarrow> ds = []"
          using assms unfolding only_dispatches_def by blast
        then show ?thesis using w1 Pair True c Inr
          by (cases x) (auto simp: send_once_def bindA_apply thenA_apply tryA_apply update_status_def)
      qed
    qed
  qed
qed

lemma send_message_one: "one_message (send_message gw tid eid rcpt text ''whatsapp'' oid ctid)"
  unfolding send_message_def by (rule send_once_one) (simp add: dispatch_adapter_defs)

definition same_record :: "world \<Rightarrow> world \<Rightarrow> bool" where
  "same_record w v \<longleftrightarrow> weekly_reports v = weekly_reports w \<and> dispatched v = dispatched w"

lemma restore_same: "same_record w v \<Longrightarrow> same_record w (restore_db w v)"
  by (simp add: same_record_def restore_db_def)

lemma get_config_same: "same_record w (snd (session_begin (get_config tid) w))"
proof (cases "find_config tid w")
  case (Pair r v)
  then have [simp]: "v = w" by (auto simp: find_config_def bindA_apply)
  show ?thesis using Pair
    by (cases r) (auto simp: session_begin_def get_config_def bindA_apply thenA_apply Let_def same_record_def restore_db_def split: option.split)
qed

lemma upsert_config_same: "same_record w (snd (upsert_config tid en ph tz w))"
proof (cases "session_begin (get_config tid) w")
  case (Pair r v)
  with get_config_same [of w tid] have "same_record w v" by simp
  with Pair show ?thesis by (cases r) (simp_all add: upsert_config_def bindA_apply thenA_apply Let_def same_record_def)
qed

lemma attempt_report_cases:
  obtains r v ds where "attempt_report gw rl tid phone week w = (Inr r, v)" and "report_key r = (tid, isoformat (snd (snd week)))"
    and "weekly_reports v = weekly_reports w" and "dispatched v = dispatched w @ ds" and "length ds \<le> (if wr_status r = WR_SENT then 1 else 0)"
proof -
  obtain s e monday where wk: "week = (s, e, monday)" by (cases week)
  let ?text = "render_report (gather_metrics rl tid s e monday w)"
  let ?send = "send_message gw tid (rl_uuid5 rl (''report.weekly.'' @ tid @ ''.'' @ isoformat monday)) phone (Plain ?text) ''whatsapp'' None None"
  obtain x v where send: "?send w = (x, v)" by force
  from send_message_one [of gw tid "rl_uuid5 rl (''report.weekly.'' @ tid @ ''.'' @ isoformat monday)" phone "Plain ?text" None None] send
  obtain ds where ds: "weekly_reports v = weekly_reports w" "dispatched v = dispatched w @ ds" "length ds \<le> 1" "\<forall>e. x = Inl e \<longrightarrow> ds = []"
    unfolding one_message_def by (metis fst_conv snd_conv)
  define out where "out = (case x of
      Inr _ \<Rightarrow> \<lparr>wr_tenant_id = tid, wr_week_start = isoformat monday, wr_status = WR_SENT, wr_recipient_phone = Some phone, wr_report_text = Some ?text, wr_error_detail = None\<rparr>
    | Inl e \<Rightarrow> \<lparr>wr_tenant_id = tid, wr_week_start = isoformat monday, wr_status = WR_FAILED, wr_recipient_phone = Some phone, wr_report_text = None,
        wr_error_detail = Some (take 500 (rl_describe rl e))\<rparr>)"
  have "attempt_report gw rl tid phone week w = (Inr out, v)"
    using send by (cases x) (simp_all add: out_def attempt_report_def wk Let_def compose_report_def tryA_apply bindA_apply thenA_apply)
  moreover have "report_key out = (tid, isoformat (snd (snd week)))" "length ds \<le> (if wr_status out = WR_SENT then 1 else 0)"
    using ds(3,4) by (cases x; simp add: out_def report_key_def wk)+
  ultimately show thesis using ds(1,2) by (intro that) 
qed

lemma find_report_cases: "find_report tid wk w = (r, v) \<Longrightarrow> v = w \<and> (r = Inr None \<longrightarrow> (tid, wk) \<notin> report_key ` set (weekly_reports w))"
  by (auto simp: find_report_def bindA_apply scalar_None report_key_def filter_empty_conv)

lemma add_report_new: "report_key r \<notin> report_key ` set (weekly_reports w) \<Longrightarrow> add_report r w = (Inr r, w\<lparr>weekly_reports := weekly_reports w @ [r]\<rparr>)"
  by (auto simp: add_report_def report_key_def)

lemma attempted_row:
  assumes "report_key r \<notin> report_key ` set (weekly_reports w)" and "dispatched v = dispatched w @ ds"
    and "length ds \<le> (if wr_status r = WR_SENT then 1 else 0)" and "weekly_reports v = weekly_reports w @ [r]"
  shows "attempted w v"
  unfolding attempted_def using assms by (intro exI [of _ "[r]"] exI [of _ ds]) (simp split: if_splits)

lemma run_weekly_attempted: "attempted w (exec (run_weekly gw rl tid) w)"
proof (cases "session_begin (get_config tid) w")
  case (Pair r0 w0)
  with get_config_same [of w tid] have w0: "weekly_reports w0 = weekly_reports w" "dispatched w0 = dispatched w" by (simp_all add: same_record_def)
  note same = attemptedI [OF w0]
  show ?thesis
  proof (cases r0)
    case (Inl e)
    then show ?thesis using Pair same by (simp add: run_weekly_def exec_def bindA_apply)
  next
    case (Inr c)
    obtain wk v1 where wk: "week_of rl c w0 = (wk, v1)" by force
    then have v1: "v1 = w0" by (auto simp: week_of_def bindA_apply split: sum.splits)
    show ?thesis
    proof (cases wk)
      case (Inl e)
      then show ?thesis using Pair Inr wk same by (simp add: run_weekly_def exec_def bindA_apply session_begin_def v1)
    next
      case week: (Inr week)
      let ?iso = "isoformat (snd (snd week))"
      obtain f v where f: "find_report tid ?iso w0 = (f, v)" by force
      note fc = find_report_cases [OF f]
      show ?thesis
      proof (cases "f = Inr None")
        case False
        then show ?thesis using Pair Inr wk week same f fc
          by (cases f) (auto simp: run_weekly_def exec_def bindA_apply session_begin_def v1 Let_def split: option.split)
      next
        case True
        then have new: "(tid, ?iso) \<notin> report_key ` set (weekly_reports w0)" using fc by blast
        let ?skip = "\<lparr>wr_tenant_id = tid, wr_week_start = ?iso, wr_status = WR_SKIPPED, wr_recipient_phone = rc_recipient_phone c, wr_report_text = None,
            wr_error_detail = Some ''Report disabled or no recipient configured.''\<rparr>"
        show ?thesis
        proof (cases "\<not> rc_enabled c \<or> \<not> truthy_str (rc_recipient_phone c)")
          case True
          have "report_key ?skip \<notin> report_key ` set (weekly_reports w0)" using new by (simp add: report_key_def)
          note add = add_report_new [OF this]
          have "exec (run_weekly gw rl tid) w = w0\<lparr>weekly_reports := weekly_reports w0 @ [?skip]\<rparr>"
            using Pair Inr wk week f fc True \<open>f = Inr None\<close> add by (simp add: run_weekly_def exec_def bindA_apply session_begin_def v1 Let_def)
          then show ?thesis using new w0 by (intro attempted_row [of ?skip _ _ "[]"]) (simp_all add: report_key_def)
        next
          case False
          obtain r v2 ds where at: "attempt_report gw rl tid (or_empty (rc_recipient_phone c)) week w0 = (Inr r, v2)" "report_key r = (tid, ?iso)"
              "weekly_reports v2 = weekly_reports w0" "dispatched v2 = dispatched w0 @ ds" "length ds \<le> (if wr_status r = WR_SENT then 1 else 0)"
            by (rule attempt_report_cases)
          have "report_key r \<notin> report_key ` set (weekly_reports v2)" using new at by simp
          note add = add_report_new [OF this]
          have "exec (run_weekly gw rl tid) w = v2\<lparr>weekly_reports := weekly_reports v2 @ [r]\<rparr>"
            using Pair Inr wk week f fc False \<open>f = Inr None\<close> at(1) add by (simp add: run_weekly_def exec_def bindA_apply session_begin_def v1 Let_def)
          then show ?thesis using new w0 at by (intro attempted_row [of r _ _ ds]) simp_all
        qed
      qed
    qed
  qed
qed

lemma weekly_job_attempted: "attempted w (exec (send_weekly_reports gw rl) w)"
proof -
  define job where "job = (\<lambda>c :: report_config. tryA (thenA (run_weekly gw rl (rc_tenant_id c)) (ret ())) (\<lambda>_. ret ()))"
  have one: "\<exists>v. job c w = (Inr (), v) \<and> attempted w v" for c w
  proof (cases "run_weekly gw rl (rc_tenant_id c) w")
    case (Pair r v)
    then have "attempted w v" using run_weekly_attempted [of w gw rl "rc_tenant_id c"] by (simp add: exec_def)
    with Pair show ?thesis by (cases r) (simp_all add: job_def tryA_apply thenA_apply)
  qed
  have "\<exists>v. forA cs job w = (Inr (), v) \<and> attempted w v" for cs w
  proof (induction cs arbitrary: w)
    case Nil
    then show ?case by (simp add: attemptedI)
  next
    case (Cons c cs)
    obtain v where v: "job c w = (Inr (), v)" "attempted w v" using one by blast
    obtain u where "forA cs job v = (Inr (), u)" "attempted v u" using Cons.IH by blast
    with v attempted_trans show ?case by (simp add: thenA_apply)
  qed
  from this [of "filter (\<lambda>c. rc_enabled c \<and> rc_recipient_phone c \<noteq> None) (report_configs w)" w] show ?thesis
    by (auto simp: send_weekly_reports_def job_def exec_def bindA_apply)
qed

text \<open>What can happen to the reports: the endpoint, the job, a change of the configuration, time.\<close>

datatype report_op =
    TriggerWeekly string "string option"
  | WeeklyJob
  | PutConfig string "bool option" "string option option" "string option"
  | Pause int

fun report_step :: "gateway \<Rightarrow> report_lib \<Rightarrow> string \<Rightarrow> report_op \<Rightarrow> world \<Rightarrow> world" where
  "report_step gw rl secret (TriggerWeekly tid given) w = exec (trigger_weekly gw rl secret tid given) w"
| "report_step gw rl secret WeeklyJob w = exec (send_weekly_reports gw rl) w"
| "report_step gw rl secret (PutConfig tid en ph tz) w = exec (upsert_config tid en ph tz) w"
| "report_step gw rl secret (Pause s) w = pass_time s w"

lemma report_step_attempted: "attempted w (report_step gw rl secret op w)"
proof (cases op)
  case (TriggerWeekly tid given)
  then show ?thesis using run_weekly_attempted by (simp add: trigger_weekly_def exec_def attemptedI)
next
  case (PutConfig tid en ph tz)
  then show ?thesis using upsert_config_same [of w tid en ph tz] by (simp add: exec_def same_record_def attemptedI)
next
  case (Pause s)
  then show ?thesis by (simp add: attemptedI pass_time_def)
qed (simp add: weekly_job_attempted)

text \<open>
  C33: one report per tenant and week. However the endpoint and the job run, whatever configurations change and whatever time passes,
  each tenant has at most one report for a week, a report once recorded stays as it is (so a failed one is not tried again), and no more
  messages go out than reports are recorded as sent. Without the secret the endpoint does nothing.
\<close>

theorem weekly_report_once:
  fixes gw :: gateway and rl :: report_lib and w :: world and ops :: "report_op list" and secret :: string
  assumes "distinct (map report_key (weekly_reports w))"
  defines "w' \<equiv> fold (report_step gw rl secret) ops w"
  shows "(\<exists>rs ds. weekly_reports w' = weekly_reports w @ rs \<and> dispatched w' = dispatched w @ ds
        \<and> length ds \<le> length (filter (\<lambda>r. wr_status r = WR_SENT) rs))
     \<and> distinct (map report_key (weekly_reports w'))
     \<and> (secret = [] \<or> given \<noteq> Some secret \<longrightarrow> report_step gw rl secret (TriggerWeekly tid given) w = w)"
proof -
  have "attempted w (fold (report_step gw rl secret) ops w)" for w
  proof (induction ops arbitrary: w)
    case Nil
    then show ?case by (simp add: attemptedI)
  next
    case (Cons op ops)
    show ?case using attempted_trans [OF report_step_attempted Cons.IH] by simp
  qed
  then obtain rs ds where "weekly_reports w' = weekly_reports w @ rs" "dispatched w' = dispatched w @ ds"
     "length ds \<le> length (filter (\<lambda>r. wr_status r = WR_SENT) rs)" "distinct (map report_key (weekly_reports w @ rs))"
    using assms(1) unfolding w'_def attempted_def by blast
  then show ?thesis by (auto simp: trigger_weekly_def exec_def)
qed

section \<open>Witnesses\<close>

definition lagos :: report_lib where
  "lagos = \<lparr>rl_zones = (\<lambda>n. if n = ''Africa/Lagos'' then Some (fixed_zone (60 * 60 * second)) else None), rl_uuid5 = id, rl_describe = (\<lambda>_. ''error''),
     rl_updated_at = cs_created_at\<rparr>"

theorem report_weeks_witness:
  "covers (fixed_zone (60 * 60 * second)) (7 * day_us) 0 \<and> \<not> (\<exists>now. covers (fixed_zone 0) now (4 * day_us - 1))"
proof -
  have "into_week (60 * 60 * second) 0 \<le> 7 * day_us - second" "\<not> into_week 0 (4 * day_us - 1) \<le> 7 * day_us - second"
    by (simp_all add: into_week_def day_us_def second_def)
  with report_weeks [of "60 * 60 * second" 0] report_weeks [of 0 "4 * day_us - 1"] show ?thesis by simp
qed

theorem weekly_report_once_witness:
  "\<exists>w'. w' = fold (report_step open_gateway lagos ''s'') [PutConfig ''t1'' (Some True) (Some (Some ''080'')) None, TriggerWeekly ''t1'' (Some ''s''), WeeklyJob] one_channel
     \<and> distinct (map report_key (weekly_reports w')) \<and> report_step open_gateway lagos ''s'' (TriggerWeekly ''t1'' None) one_channel = one_channel"
proof -
  have "distinct (map report_key (weekly_reports one_channel))" by (simp add: one_channel_def empty_world_def)
  from weekly_report_once [OF this, of open_gateway lagos "''s''" "[PutConfig ''t1'' (Some True) (Some (Some ''080'')) None, TriggerWeekly ''t1'' (Some ''s''), WeeklyJob]" None "''t1''"]
  show ?thesis by simp
qed

end
