(* ===== verification/Scheduler.thy ===== *)
theory Scheduler
  imports Traders Replies Conversations Credit_Sales Segments Reports
begin

text \<open>
  The background jobs of \<open>infra/scheduler.py\<close>: scheduled messages, reminders of unconfirmed orders and of debts, the daily
  Status Kit, weekly reports, follow-ups of interest and the nightly segments. Object storage, image download and the rendering of cards and videos are
  parameters (a studio); the settings are a record. Hours are taken from microsecond timestamps in UTC.
\<close>

record settings =
  st_tenant_id :: string
  st_followup_delay_hours :: int
  st_r2_public_url :: string
  st_r2_bucket_name :: string
  st_r2_account_id :: string

section \<open>Scheduled messages\<close>

text \<open>
  Binding the keyword arguments of a call to the parameters of a Python function without defaults: a keyword that is not a
  parameter is a \<open>TypeError\<close>, and so is a parameter left without a value.
\<close>

definition bind_keywords :: "string \<Rightarrow> string list \<Rightarrow> string list \<Rightarrow> error + unit" where
  "bind_keywords f params given = (case filter (\<lambda>k. k \<notin> set params) given of
     k # _ \<Rightarrow> Inl (TypeError (f @ ''() got an unexpected keyword argument '' @ k))
   | [] \<Rightarrow> (case filter (\<lambda>p. p \<notin> set given) params of
       [] \<Rightarrow> Inr ()
     | p # _ \<Rightarrow> Inl (TypeError (f @ ''() missing a required argument: '' @ p))))"

definition add_message_parameters :: "string list" where
  "add_message_parameters = [''conversation_id'', ''data'']"

definition due_messages :: "world \<Rightarrow> scheduled_message list" where
  "due_messages w = filter (\<lambda>m. sm_status m = ''pending'' \<and> sm_scheduled_for m \<le> clock w) (scheduled_messages w)"

definition fire_message :: "gateway \<Rightarrow> scheduled_message \<Rightarrow> unit svc" where
  "fire_message gw sm = tryA (session_begin
     (thenA (liftE (bind_keywords ''ConversationService.add_message'' add_message_parameters
          [''conversation_id'', ''tenant_id'', ''content'', ''sender_role'', ''external_id'']))
       (thenA (add_message gw (sm_conversation_id sm) ''assistant'' (sm_content sm) None)
         (modA (\<lambda>w. w\<lparr>scheduled_messages := update_where (\<lambda>m. sm_id m = sm_id sm) (\<lambda>m. m\<lparr>sm_status := ''sent''\<rparr>) (scheduled_messages w)\<rparr>)))))
     (\<lambda>_. ret ())"

definition fire_due_messages :: "gateway \<Rightarrow> unit svc" where
  "fire_due_messages gw = bindA (getA due_messages) (\<lambda>due. forA due (fire_message gw))"

section \<open>Business hours\<close>

definition utc_hour :: "timestamp \<Rightarrow> int" where
  "utc_hour t = (t div hour_us) mod 24"

definition is_business_hours :: "timestamp \<Rightarrow> bool" where
  "is_business_hours now = (let h = (utc_hour now + 1) mod 24 in 8 \<le> h \<and> h < 20)"

definition in_business_hours :: "(timestamp \<Rightarrow> unit svc) \<Rightarrow> unit svc" where
  "in_business_hours job = bindA (getA clock) (\<lambda>now. if is_business_hours now then job now else ret ())"

section \<open>Reminders of orders\<close>

definition REMINDER_DELAY_HOURS :: int where "REMINDER_DELAY_HOURS = 1"

definition is_stale :: "timestamp \<Rightarrow> order \<Rightarrow> bool" where
  "is_stale now x \<longleftrightarrow> o_state x = INQUIRY \<and> o_created_at x \<le> now - REMINDER_DELAY_HOURS * hour_us
     \<and> o_reminder_sent_at x = None \<and> o_trader_phone x \<noteq> None"

definition reminder_event :: "order \<Rightarrow> string" where
  "reminder_event x = ''order.reminder.'' @ o_id x"

definition remind_order :: "gateway \<Rightarrow> settings \<Rightarrow> timestamp \<Rightarrow> order \<Rightarrow> unit svc" where
  "remind_order gw st now x = (let ref = take 8 (o_id x);
       customer = (if truthy_str (o_customer_phone x) then or_empty (o_customer_phone x) else ''unknown'') in
     tryA (thenA (session_begin (send_interactive gw (st_tenant_id st) (reminder_event x) (or_empty (o_trader_phone x))
         (Template ''order_reminder_to_trader'' [JStr customer, JInt (int_of_decimal (amount_or_0 (o_amount x))), JStr ref,
            JInt (max 1 ((now - o_created_at x) div hour_us)), json_opt (o_customer_name x)])
         [(''CONFIRM '' @ ref, ''Confirm''), (''CANCEL '' @ ref, ''Decline'')] ''whatsapp'' None (Some (st_tenant_id st)) None))
       (session_begin (modA (\<lambda>w. w\<lparr>orders := update_where (\<lambda>y. o_id y = o_id x) (\<lambda>y. y\<lparr>o_reminder_sent_at := Some now\<rparr>) (orders w)\<rparr>))))
     (\<lambda>_. ret ()))"

definition send_order_reminders :: "gateway \<Rightarrow> settings \<Rightarrow> unit svc" where
  "send_order_reminders gw st = in_business_hours (\<lambda>now.
     bindA (getA (\<lambda>w. filter (is_stale now) (orders w))) (\<lambda>stale. forA stale (remind_order gw st now)))"

section \<open>Reminders of debts\<close>

definition reminder_due :: "timestamp \<Rightarrow> credit_sale \<Rightarrow> bool" where
  "reminder_due now c \<longleftrightarrow> cs_status c = CS_ACTIVE \<and> cs_reminders_sent c < cs_max_reminders c
     \<and> cs_reminder_interval_days c * day_us \<le> now - (case cs_last_reminded_at c of Some t \<Rightarrow> t | None \<Rightarrow> cs_created_at c)"

text \<open>The phone number of a tenant's trader: from the cache unless it is missing or says there is none, else from the table.\<close>

definition tenant_trader_phone :: "string \<Rightarrow> string svc" where
  "tenant_trader_phone tid = bindA (get_trader_by_tenant_cache tid) (\<lambda>d. case d of
     Some (TraderDoc t) \<Rightarrow> ret (tr_phone_number t)
   | _ \<Rightarrow> bindA (trader_get_by_tenant tid) (\<lambda>t. ret (case t of None \<Rightarrow> [] | Some t \<Rightarrow> td_phone_number t)))"

definition remind_customer :: "gateway \<Rightarrow> settings \<Rightarrow> credit_sale \<Rightarrow> unit svc" where
  "remind_customer gw st c = thenA (session_begin (send_reminder (cs_id c) (cs_tenant_id c)))
     (bindA (tenant_trader_phone (cs_tenant_id c)) (\<lambda>phone. if phone = [] then ret ()
       else session_begin (send_message gw (st_tenant_id st) (''debt.reminder_notify.'' @ cs_id c @ ''.'' @ show_int (cs_reminders_sent c)) phone
         (Template ''debt_customer_reminded_notification'' [JStr (cs_customer_name c), JInt (int_of_decimal (cs_amount c)), JInt (cs_reminders_sent c)])
         ''whatsapp'' None (Some (st_tenant_id st)))))"

definition remind_trader :: "gateway \<Rightarrow> settings \<Rightarrow> timestamp \<Rightarrow> credit_sale \<Rightarrow> unit svc" where
  "remind_trader gw st now c = bindA (tenant_trader_phone (cs_tenant_id c)) (\<lambda>phone. if phone = [] then ret ()
     else thenA (session_begin (send_message gw (st_tenant_id st) (''debt.reminder.'' @ cs_id c @ ''.'' @ show_int (cs_reminders_sent c)) phone
         (Template ''debt_reminder_to_trader'' [JStr (cs_customer_name c), JInt (int_of_decimal (cs_amount c)), JInt (max 1 ((now - cs_created_at c) div day_us))])
         ''whatsapp'' None (Some (st_tenant_id st))))
       (session_begin (modA (\<lambda>w. w\<lparr>credit_sales := update_where (\<lambda>d. cs_id d = cs_id c)
          (\<lambda>d. d\<lparr>cs_reminders_sent := cs_reminders_sent c + 1, cs_last_reminded_at := Some now\<rparr>) (credit_sales w)\<rparr>))))"

definition remind_debt :: "gateway \<Rightarrow> settings \<Rightarrow> timestamp \<Rightarrow> credit_sale \<Rightarrow> unit svc" where
  "remind_debt gw st now c = tryA (if truthy_str (cs_conversation_id c) then remind_customer gw st c else remind_trader gw st now c) (\<lambda>_. ret ())"

definition send_debt_reminders :: "gateway \<Rightarrow> settings \<Rightarrow> unit svc" where
  "send_debt_reminders gw st = in_business_hours (\<lambda>now.
     bindA (getA (\<lambda>w. filter (reminder_due now) (credit_sales w))) (\<lambda>due. forA due (remind_debt gw st now)))"

section \<open>Follow-ups\<close>

text \<open>The attributes of a mapped \<open>Trader\<close>: its columns and those of the base model.\<close>

definition trader_attributes :: "string list" where
  "trader_attributes = [''id'', ''created_at'', ''updated_at'', ''tenant_id'', ''phone_number'', ''business_name'', ''business_category'', ''store_slug'',
     ''onboarding_status'', ''tier'', ''bank_name'', ''bank_account_number'', ''bank_account_name'', ''referral_code'', ''attribution_type'',
     ''attribution_code'', ''onboarding_catalogue'']"

text \<open>\<open>trader.catalogue or {}\<close>: the lookup of the attribute comes first.\<close>

definition trader_catalogue :: "trader_row \<Rightarrow> error + (string \<times> int) list" where
  "trader_catalogue t = (if ''catalogue'' \<in> set trader_attributes then Inr (parse_catalogue (td_onboarding_catalogue t))
     else Inl (AttributeError ''Trader.catalogue''))"

definition ordered_since :: "interest_event \<Rightarrow> world \<Rightarrow> order option" where
  "ordered_since e w = find (\<lambda>x. o_trader_phone x = Some (ie_trader_phone e) \<and> o_customer_phone x = Some (ie_customer_phone e)
     \<and> (o_state x = CONFIRMED \<or> o_state x = PAID) \<and> ie_created_at e < o_created_at x) (orders w)"

definition followed :: "interest_event \<Rightarrow> unit svc" where
  "followed e = session_begin (mark_followed_up (ie_id e))"

text \<open>What follows once the catalogue is known: the product check, the customer's wishes, both messages and the mark.\<close>

definition follow_up_customer :: "gateway \<Rightarrow> settings \<Rightarrow> timestamp \<Rightarrow> interest_event \<Rightarrow> trader_row \<Rightarrow> (string \<times> int) list \<Rightarrow> unit svc" where
  "follow_up_customer gw st now e t cat = (let hit = find (\<lambda>(k, v). lower k = lower (ie_product_name e)) cat;
       name = (if truthy_str (td_business_name t) then or_empty (td_business_name t) else ''the trader'');
       price = (case ie_price e of Some p \<Rightarrow> if p \<noteq> 0 then Some p else (case hit of Some (k, v) \<Rightarrow> Some v | None \<Rightarrow> Some p)
                | None \<Rightarrow> (case hit of Some (k, v) \<Rightarrow> Some v | None \<Rightarrow> None)) in
     if hit = None \<and> ie_price e = None then followed e
     else bindA (getA customer_list) (\<lambda>cl.
       bindA (liftE (scalar_one_or_none (filter (\<lambda>c. cl_trader_phone c = ie_trader_phone e \<and> cl_customer_phone c = ie_customer_phone e) cl))) (\<lambda>c.
       if (case c of Some c \<Rightarrow> cl_opted_out c \<or> (case cl_last_broadcast_at c of Some b \<Rightarrow> days_between now b < 7 | None \<Rightarrow> False) | None \<Rightarrow> False)
       then followed e
       else thenA (session_begin (send_message gw (st_tenant_id st) (''followup.'' @ ie_id e) (ie_customer_phone e)
             (Template ''followup_to_customer'' [json_opt (ie_customer_name e), JStr (ie_product_name e),
                (case price of Some p \<Rightarrow> JInt p | None \<Rightarrow> JNull), JStr name]) ''whatsapp'' None None))
         (thenA (session_begin (send_message gw (st_tenant_id st) (''followup.trader.'' @ ie_id e) (ie_trader_phone e)
             (Template ''followup_notification_to_trader'' [json_opt (ie_customer_name e), JStr (ie_customer_phone e), JStr (ie_product_name e)])
             ''whatsapp'' None None))
           (followed e)))))"

definition follow_up :: "gateway \<Rightarrow> settings \<Rightarrow> timestamp \<Rightarrow> interest_event \<Rightarrow> unit svc" where
  "follow_up gw st now e = tryA
     (if ie_product_name e = ''(photo inquiry)'' then followed e
      else bindA (getA (ordered_since e)) (\<lambda>x. case x of
        Some x \<Rightarrow> session_begin (mark_converted (ie_trader_phone e) (ie_customer_phone e) (ie_product_name e) (o_id x))
      | None \<Rightarrow> bindA (trader_get_by_phone (ie_trader_phone e)) (\<lambda>t. case t of
          None \<Rightarrow> ret ()
        | Some t \<Rightarrow> bindA (liftE (trader_catalogue t)) (follow_up_customer gw st now e t))))
     (\<lambda>_. ret ())"

definition send_smart_followups :: "gateway \<Rightarrow> settings \<Rightarrow> unit svc" where
  "send_smart_followups gw st = in_business_hours (\<lambda>now.
     bindA (getA (get_pending_followups (st_followup_delay_hours st) 30)) (\<lambda>es. forA es (follow_up gw st now)))"

section \<open>Segments\<close>

definition recompute_customer_segments :: "unit svc" where
  "recompute_customer_segments = tryA (session_begin (thenA recompute_all_segments (ret ()))) (\<lambda>_. ret ())"

section \<open>The Status Kit\<close>

record studio =
  sd_download :: "string \<Rightarrow> string option"
  sd_video :: "string \<Rightarrow> string \<times> int \<Rightarrow> string \<Rightarrow> string \<Rightarrow> string \<Rightarrow> error + string option"
  sd_card :: "string \<Rightarrow> string \<times> int \<Rightarrow> string \<Rightarrow> string option \<Rightarrow> int \<Rightarrow> nat \<Rightarrow> string \<Rightarrow> error + string"
  sd_client :: bool
  sd_put :: "string \<Rightarrow> string \<Rightarrow> string \<Rightarrow> error + unit"

definition EFFECTS :: "string list" where
  "EFFECTS = [''zoom_in'', ''zoom_out'', ''pan_right'', ''pan_down'']"

definition pick_effect :: "int \<Rightarrow> nat \<Rightarrow> string" where
  "pick_effect day i = EFFECTS ! nat ((day + int i) mod 4)"

definition slugify :: "string \<Rightarrow> string" where
  "slugify s = (let t = strip_dashes (filter is_slug_char (dash_spaces False (lower s))) in if t = [] then ''product'' else t)"

definition day_index :: "timestamp \<Rightarrow> int" where
  "day_index now = days_between now (days_from_civil 2026 1 1 * day_us)"

text \<open>The products of a day: up to three in the order of their names, starting three further each day.\<close>

definition selected_products :: "int \<Rightarrow> 'a list \<Rightarrow> 'a list" where
  "selected_products day ps = (let n = length ps in
     map (\<lambda>i. ps ! ((nat ((day * 3) mod int n) + i) mod n)) [0..<min 3 n])"

definition card_url :: "settings \<Rightarrow> string \<Rightarrow> string" where
  "card_url st key = (if st_r2_public_url st \<noteq> [] then rev (dropWhile (\<lambda>c. c = CHR ''/'') (rev (st_r2_public_url st))) @ ''/'' @ key
     else ''https://'' @ st_r2_bucket_name st @ ''.'' @ st_r2_account_id st @ ''.r2.cloudflarestorage.com/'' @ key)"

definition photo_of :: "studio \<Rightarrow> string \<Rightarrow> string \<Rightarrow> world \<Rightarrow> string option" where
  "photo_of sd phone product w = (case map_of (rev (map (\<lambda>i. (pi_product_name i, pi_image_url i)) (filter (\<lambda>i. pi_trader_phone i = phone) (product_images w)))) product of
     Some url \<Rightarrow> if url \<noteq> [] then sd_download sd url else None | None \<Rightarrow> None)"

text \<open>One card: a video on even days when there is a photo and the renderer gives one, else an image. The answer is the number of cards sent.\<close>

definition send_card :: "gateway \<Rightarrow> studio \<Rightarrow> settings \<Rightarrow> int \<Rightarrow> trader_row \<Rightarrow> string option \<Rightarrow> string \<times> int \<Rightarrow> nat \<Rightarrow> nat svc" where
  "send_card gw sd st day t pic item n = (let name = (if truthy_str (td_business_name t) then or_empty (td_business_name t) else ''My Store'');
       url = ''chattosales.com/stores/'' @ or_empty (td_store_slug t); phone = td_phone_number t;
       key = (\<lambda>ext. ''status-kit/'' @ phone @ ''/'' @ show_int day @ ''-'' @ slugify (fst item) @ ext);
       eid = ''status_kit.'' @ phone @ ''.'' @ show_int day @ ''.'' @ show_nat n;
       deliver = (\<lambda>k bytes ty video. tryA (if \<not> sd_client sd then ret n
          else thenA (liftE (sd_put sd k bytes ty)) (thenA (session_begin (if video
               then send_video_url gw (st_tenant_id st) eid phone (card_url st k) (Some (Plain (''Share to your Status! '' @ url))) ''whatsapp'' (Some (st_tenant_id st))
               else send_image_url gw (st_tenant_id st) eid phone (card_url st k) (Some (Plain (''Share to your Status! '' @ url))) ''whatsapp'' (Some (st_tenant_id st))))
             (ret (Suc n)))) (\<lambda>_. ret n)) in
     bindA (if truthy_str pic \<and> day mod 2 = 0 then liftE (sd_video sd (or_empty pic) item name url (pick_effect day n)) else ret None) (\<lambda>video.
       if truthy_str video then deliver (key ''.mp4'') (or_empty video) ''video/mp4'' True
       else bindA (liftE (sd_card sd name item url pic day n (or_empty (td_business_category t)))) (\<lambda>bytes.
         deliver (key ''.jpg'') bytes ''image/jpeg'' False)))"

fun send_cards :: "gateway \<Rightarrow> studio \<Rightarrow> settings \<Rightarrow> int \<Rightarrow> trader_row \<Rightarrow> world \<Rightarrow> (string \<times> int) list \<Rightarrow> nat \<Rightarrow> nat svc" where
  "send_cards gw sd st day t w0 [] n = ret n"
| "send_cards gw sd st day t w0 (p # ps) n = bindA (send_card gw sd st day t (photo_of sd (td_phone_number t) (fst p) w0) p n)
     (send_cards gw sd st day t w0 ps)"

definition kit_for :: "gateway \<Rightarrow> studio \<Rightarrow> settings \<Rightarrow> int \<Rightarrow> trader_row \<Rightarrow> unit svc" where
  "kit_for gw sd st day t = tryA (case sort (parse_catalogue (td_onboarding_catalogue t)) of [] \<Rightarrow> ret ()
     | ps \<Rightarrow> bindA (getA id) (\<lambda>w0. bindA (send_cards gw sd st day t w0 (selected_products day ps) 0) (\<lambda>n.
         if n = 0 then ret () else session_begin (send_message gw (st_tenant_id st) (''status_kit.prompt.'' @ td_phone_number t @ ''.'' @ show_int day)
           (td_phone_number t) (Template ''status_kit_prompt'' [JInt (int n)]) ''whatsapp'' None (Some (st_tenant_id st))))))
     (\<lambda>_. ret ())"

definition send_status_kit :: "gateway \<Rightarrow> studio \<Rightarrow> settings \<Rightarrow> unit svc" where
  "send_status_kit gw sd st = in_business_hours (\<lambda>now.
     bindA (getA (\<lambda>w. filter (\<lambda>t. td_onboarding_status t = COMPLETE \<and> td_onboarding_catalogue t \<noteq> None \<and> td_store_slug t \<noteq> None) (traders w)))
       (\<lambda>ts. forA ts (kit_for gw sd st (day_index now))))"

section \<open>Triggers\<close>

text \<open>When a job may start: at an interval, or at a time of day (UTC) and within the grace period after it.\<close>

datatype job = FireMessages | OrderReminders | DebtReminders | StatusKit | WeeklyReports | Followups | Recompute

datatype trigger = Interval int | Cron int int | CronDay int int int

definition JOBS :: "(job \<times> trigger \<times> int) list" where
  "JOBS = [(FireMessages, Interval 60, 30), (OrderReminders, Interval (30 * 60), 60), (DebtReminders, Interval (6 * 3600), 120),
     (StatusKit, Cron 5 30, 3600), (WeeklyReports, CronDay 0 7 0, 3600), (Followups, Interval 3600, 300), (Recompute, Cron 2 0, 3600)]"

fun may_start :: "trigger \<times> int \<Rightarrow> timestamp \<Rightarrow> bool" where
  "may_start (Interval s, grace) t = True"
| "may_start (Cron h m, grace) t = (let s = (t mod day_us) div 1000000; due = h * 3600 + m * 60 in due \<le> s \<and> s \<le> due + grace)"
| "may_start (CronDay d h m, grace) t = (weekday t = d \<and> (let s = (t mod day_us) div 1000000; due = h * 3600 + m * 60 in due \<le> s \<and> s \<le> due + grace))"

definition run_job :: "gateway \<Rightarrow> studio \<Rightarrow> report_lib \<Rightarrow> settings \<Rightarrow> job \<Rightarrow> unit svc" where
  "run_job gw sd rl st j = (case j of FireMessages \<Rightarrow> fire_due_messages gw | OrderReminders \<Rightarrow> send_order_reminders gw st
     | DebtReminders \<Rightarrow> send_debt_reminders gw st | StatusKit \<Rightarrow> send_status_kit gw sd st | WeeklyReports \<Rightarrow> send_weekly_reports gw rl | Followups \<Rightarrow> send_smart_followups gw st
     | Recompute \<Rightarrow> recompute_customer_segments)"

section \<open>Scheduled messages\<close>

lemma fire_message_nothing: "fire_message gw sm w = (Inr (), w)"
  by (simp add: fire_message_def tryA_apply session_begin_def thenA_apply bind_keywords_def add_message_parameters_def)

lemma fire_all_nothing: "forA sms (fire_message gw) w = (Inr (), w)"
  by (induction sms) (simp_all add: thenA_apply fire_message_nothing)

text \<open>
  Scheduled messages are never sent. The job calls \<open>add_message\<close> with keywords the method does not have, so every attempt raises and is
  swallowed: however often the job runs and however much time passes, a due message stays due, and nothing is stored or sent.
\<close>

theorem scheduled_messages_never_sent:
  fixes gw :: gateway and w :: world and waits :: "int list"
  assumes "sm \<in> set (due_messages w)" and "\<forall>s\<in>set waits. 0 \<le> s"
  defines "w' \<equiv> fold (\<lambda>s w. exec (fire_due_messages gw) (pass_time s w)) waits w"
  shows "sm \<in> set (due_messages w') \<and> messages w' = messages w \<and> dispatched w' = dispatched w \<and> scheduled_messages w' = scheduled_messages w"
proof -
  have run: "exec (fire_due_messages gw) v = v" for v
    by (simp add: exec_def fire_due_messages_def bindA_apply fire_all_nothing)
  have "w' = pass_time (sum_list waits) w"
    unfolding w'_def by (induction waits arbitrary: w) (simp_all add: run pass_time_def add.assoc)
  moreover have "0 \<le> sum_list waits" using assms(2) by (induction waits) auto
  ultimately show ?thesis using assms(1) by (auto simp: due_messages_def pass_time_def)
qed

section \<open>Reminders of orders\<close>

definition reminded_at :: "timestamp \<Rightarrow> order \<Rightarrow> order" where
  "reminded_at now x = x\<lparr>o_reminder_sent_at := Some now\<rparr>"

definition mark_reminded :: "timestamp \<Rightarrow> order \<Rightarrow> world \<Rightarrow> world" where
  "mark_reminded now x w = w\<lparr>orders := update_where (\<lambda>y. o_id y = o_id x) (reminded_at now) (orders w)\<rparr>"

text \<open>That every message posted for a tenant is accepted as long as the channels stay as they are.\<close>

definition accepting :: "gateway \<Rightarrow> string \<Rightarrow> world \<Rightarrow> bool" where
  "accepting gw tid w \<longleftrightarrow> (\<forall>v rcpt msg. tenant_channels v = tenant_channels w \<longrightarrow> (\<exists>x. fst (dispatch_or_raise gw tid rcpt msg v) = Inr x))"

lemma dispatch_refused:
  assumes "fst (dispatch_whatsapp_interactive gw tid rcpt msg bs ctx v) = Inl e" and "tenant_channels v = tenant_channels w" and "tid = tid'"
  shows "\<not> accepting gw tid' w"
proof
  assume "accepting gw tid' w"
  with assms(2,3) obtain x v' where "dispatch_or_raise gw tid rcpt (ButtonMsg msg (take 3 bs) (case ctx of Some [] \<Rightarrow> None | _ \<Rightarrow> ctx)) v = (Inr x, v')"
    unfolding accepting_def by (metis eq_fst_iff)
  with assms(1) show False by (simp add: dispatch_whatsapp_interactive_def thenA_apply)
qed

text \<open>The three ways a reminder can end.\<close>

lemma remind_order_cases:
  assumes "wf_notifications w"
  obtains (known) "reminder_event x \<in> notified w" and "remind_order gw st now x w = (Inr (), mark_reminded now x w)"
  | (failed) "reminder_event x \<notin> notified w" and "remind_order gw st now x w = (Inr (), w\<lparr>uuid_n := Suc (uuid_n w)\<rparr>)"
      and "\<not> accepting gw (st_tenant_id st) w"
  | (sent) n ds where "reminder_event x \<notin> notified w" and "nt_event_id n = reminder_event x" and "nt_id n = uuid_src w (uuid_n w)" and "length ds \<le> 1"
      and "remind_order gw st now x w = (Inr (), mark_reminded now x (with_row w n\<lparr>dispatched := dispatched w @ ds\<rparr>))"
proof -
  define msg where "msg = Template ''order_reminder_to_trader'' [JStr (if truthy_str (o_customer_phone x) then or_empty (o_customer_phone x) else ''unknown''),
     JInt (int_of_decimal (amount_or_0 (o_amount x))), JStr (take 8 (o_id x)), JInt (max 1 ((now - o_created_at x) div hour_us)), json_opt (o_customer_name x)]"
  define bs where "bs = [(''CONFIRM '' @ take 8 (o_id x), ''Confirm''), (''CANCEL '' @ take 8 (o_id x), ''Decline'')]"
  let ?d = "dispatch_whatsapp_interactive gw (sending_tenant (Some (st_tenant_id st)) (st_tenant_id st)) (or_empty (o_trader_phone x)) msg bs None"
  let ?send = "send_once (st_tenant_id st) (reminder_event x) (or_empty (o_trader_phone x)) msg ''whatsapp'' None () ?d raise"
  have run: "remind_order gw st now x w = tryA (thenA (session_begin ?send) (session_begin (modA (mark_reminded now x)))) (\<lambda>_. ret ()) w"
    by (simp add: remind_order_def send_interactive_def Let_def msg_def bs_def mark_reminded_def [abs_def] reminded_at_def [abs_def])
  have od: "only_dispatches (or_empty (o_trader_phone x)) ?d" by (simp add: dispatch_adapter_defs)
  have tenant: "sending_tenant (Some (st_tenant_id st)) (st_tenant_id st) = st_tenant_id st" by (simp add: sending_tenant_def)
  show thesis
  proof (cases "reminder_event x \<in> notified w")
    case True
    show ?thesis
      by (rule known [OF True]) (simp add: run tryA_apply thenA_apply session_begin_def send_once_known [OF assms True])
  next
    case False
    from assms False od show ?thesis
    proof (rule send_once_new [of _ _ _ _ "st_tenant_id st" msg "''whatsapp''" None "()" raise])
      fix u ds
      assume "?send w = (Inr u, with_row w (pending_row w (st_tenant_id st) (reminder_event x) (or_empty (o_trader_phone x)) msg ''whatsapp'' None\<lparr>nt_status := NT_SENT\<rparr>)
          \<lparr>dispatched := dispatched w @ ds\<rparr>)" and "length ds \<le> 1"
      then show ?thesis
        by (intro sent [OF False pending_row_keys(1) pending_row_keys(2)]) (simp_all add: run tryA_apply thenA_apply session_begin_def)
    next
      fix e
      assume "?send w = raise e (with_row w (pending_row w (st_tenant_id st) (reminder_event x) (or_empty (o_trader_phone x)) msg ''whatsapp'' None\<lparr>nt_status := NT_FAILED\<rparr>))"
        and "fst (?d (with_row w (pending_row w (st_tenant_id st) (reminder_event x) (or_empty (o_trader_phone x)) msg ''whatsapp'' None))) = Inl e"
      moreover from this(2) have "\<not> accepting gw (st_tenant_id st) w"
        by (rule dispatch_refused) (simp_all add: with_row_def tenant)
      ultimately show ?thesis
        by (intro failed [OF False]) (simp_all add: run tryA_apply thenA_apply session_begin_def restore_with_row)
    qed
  qed
qed

lemma reminder_event_inj [simp]: "reminder_event x = reminder_event y \<longleftrightarrow> o_id x = o_id y"
  by (simp add: reminder_event_def)

text \<open>What one reminder and a sequence of reminders leave behind.\<close>

definition after_reminders :: "gateway \<Rightarrow> settings \<Rightarrow> timestamp \<Rightarrow> order list \<Rightarrow> world \<Rightarrow> world \<Rightarrow> bool" where
  "after_reminders gw st now xs w w' \<longleftrightarrow> wf_notifications w' \<and> notified w \<subseteq> notified w' \<and> notified w' \<subseteq> notified w \<union> reminder_event ` set xs
     \<and> orders w' = update_where (\<lambda>y. \<exists>x\<in>set xs. o_id y = o_id x \<and> reminder_event x \<in> notified w') (reminded_at now) (orders w)
     \<and> (\<exists>ds. dispatched w' = dispatched w @ ds \<and> length ds \<le> card (notified w' - notified w))
     \<and> (accepting gw (st_tenant_id st) w \<longrightarrow> reminder_event ` set xs \<subseteq> notified w') \<and> tenant_channels w' = tenant_channels w"

lemma mark_reminded_simps [simp]:
  "notifications (mark_reminded now x w) = notifications w" "dispatched (mark_reminded now x w) = dispatched w"
  "orders (mark_reminded now x w) = update_where (\<lambda>y. o_id y = o_id x) (reminded_at now) (orders w)"
  "notified (mark_reminded now x w) = notified w" "wf_notifications (mark_reminded now x w) = wf_notifications w"
  "tenant_channels (mark_reminded now x w) = tenant_channels w"
  by (simp_all add: mark_reminded_def notified_def wf_notifications_def)

lemma update_where_const [simp]: "update_where (\<lambda>_. False) f xs = xs"
  by (simp add: update_where_def)

lemma uuid_notified [simp]: "notified (w\<lparr>uuid_n := n\<rparr>) = notified w"
  by (simp add: notified_def)

lemma remind_order_after:
  assumes "wf_notifications w"
  shows "\<exists>w'. remind_order gw st now x w = (Inr (), w') \<and> after_reminders gw st now [x] w w'"
  using assms
proof (cases rule: remind_order_cases [of w x gw st now])
  case known
  then show ?thesis using assms by (auto simp: after_reminders_def)
next
  case failed
  have "wf_notifications (w\<lparr>uuid_n := Suc (uuid_n w)\<rparr>)" using assms by (simp add: wf_notifications_def)
  with failed show ?thesis by (auto simp: after_reminders_def)
next
  case (sent n ds)
  let ?w = "with_row w n\<lparr>dispatched := dispatched w @ ds\<rparr>"
  have n: "notified ?w = insert (reminder_event x) (notified w)" using sent(2) by (simp add: notified_def with_row_def)
  have "\<forall>m\<ge>Suc (uuid_n w). uuid_src w m \<noteq> uuid_src w (uuid_n w)" using assms by (auto simp: wf_notifications_def dest: injD)
  then have wf: "wf_notifications ?w" using assms sent(1-3)
    by (auto simp: wf_notifications_def with_row_def notified_def)
  have c: "card (notified ?w - notified w) = 1" using sent(1) by (simp add: n insert_Diff_if)
  have o: "orders ?w = orders w" "tenant_channels ?w = tenant_channels w" "dispatched ?w = dispatched w @ ds" by (simp_all add: with_row_def)
  have "after_reminders gw st now [x] w (mark_reminded now x ?w)"
    unfolding after_reminders_def mark_reminded_simps using wf c o n sent(4) by auto
  with sent(5) show ?thesis by blast
qed

lemma update_where_twice:
  "(\<And>y. o_id (f y) = o_id y) \<Longrightarrow> (\<And>y. f (f y) = f y) \<Longrightarrow>
   update_where (\<lambda>y. P (o_id y)) f (update_where (\<lambda>y. Q (o_id y)) f xs) = update_where (\<lambda>y. Q (o_id y) \<or> P (o_id y)) f xs"
  by (induction xs) auto

lemma after_reminders_trans:
  assumes "after_reminders gw st now [x] w w1" and "after_reminders gw st now xs w1 w2" and "o_id x \<notin> o_id ` set xs"
  shows "after_reminders gw st now (x # xs) w w2"
proof -
  have new: "reminder_event x \<in> notified w2 \<longleftrightarrow> reminder_event x \<in> notified w1"
    using assms unfolding after_reminders_def by (auto simp: image_iff)
  have "orders w2 = update_where (\<lambda>y. \<exists>z\<in>set xs. o_id y = o_id z \<and> reminder_event z \<in> notified w2) (reminded_at now)
      (update_where (\<lambda>y. o_id y = o_id x \<and> reminder_event x \<in> notified w2) (reminded_at now) (orders w))"
    using assms(1,2) by (simp add: after_reminders_def new)
  also have "\<dots> = update_where (\<lambda>y. \<exists>z\<in>set (x # xs). o_id y = o_id z \<and> reminder_event z \<in> notified w2) (reminded_at now) (orders w)"
    unfolding set_simps bex_simps
    by (rule update_where_twice [of "reminded_at now" "\<lambda>i. \<exists>z\<in>set xs. i = o_id z \<and> reminder_event z \<in> notified w2"
        "\<lambda>i. i = o_id x \<and> reminder_event x \<in> notified w2" "orders w"]) (simp_all add: reminded_at_def)
  finally have orders: "orders w2 = update_where (\<lambda>y. \<exists>z\<in>set (x # xs). o_id y = o_id z \<and> reminder_event z \<in> notified w2) (reminded_at now) (orders w)" .
  have "\<exists>ds. dispatched w1 = dispatched w @ ds \<and> length ds \<le> card (notified w1 - notified w)"
      "\<exists>ds. dispatched w2 = dispatched w1 @ ds \<and> length ds \<le> card (notified w2 - notified w1)"
    using assms(1,2) by (simp_all add: after_reminders_def)
  then obtain d1 d2 where d: "dispatched w1 = dispatched w @ d1" "length d1 \<le> card (notified w1 - notified w)"
      "dispatched w2 = dispatched w1 @ d2" "length d2 \<le> card (notified w2 - notified w1)" by blast
  have sub: "notified w \<subseteq> notified w1" "notified w1 \<subseteq> notified w2" "finite (notified w2)"
    using assms(1,2) by (simp_all add: after_reminders_def notified_def)
  have "card (notified w2 - notified w) = card (notified w1 - notified w) + card (notified w2 - notified w1)"
    using sub by (subst card_Un_disjoint [symmetric]) (auto intro!: finite_subset [OF _ sub(3)] arg_cong [where f = card])
  with d have len: "\<exists>ds. dispatched w2 = dispatched w @ ds \<and> length ds \<le> card (notified w2 - notified w)"
    by (intro exI [of _ "d1 @ d2"]) simp
  have "accepting gw (st_tenant_id st) w1 = accepting gw (st_tenant_id st) w"
    using assms(1) by (simp add: accepting_def after_reminders_def)
  with assms(1,2) have live: "accepting gw (st_tenant_id st) w \<longrightarrow> reminder_event ` set (x # xs) \<subseteq> notified w2"
    using new by (auto simp: after_reminders_def)
  show ?thesis using assms(1,2) orders len live sub unfolding after_reminders_def by auto
qed

lemma remind_orders_after:
  "wf_notifications w \<Longrightarrow> distinct (map o_id xs) \<Longrightarrow>
     \<exists>w'. forA xs (remind_order gw st now) w = (Inr (), w') \<and> after_reminders gw st now xs w w'"
proof (induction xs arbitrary: w)
  case Nil
  then show ?case by (simp add: after_reminders_def)
next
  case (Cons x xs)
  obtain w1 where w1: "remind_order gw st now x w = (Inr (), w1)" "after_reminders gw st now [x] w w1"
    using remind_order_after [OF Cons.prems(1)] by blast
  then have "wf_notifications w1" by (simp add: after_reminders_def)
  with Cons obtain w2 where "forA xs (remind_order gw st now) w1 = (Inr (), w2)" "after_reminders gw st now xs w1 w2" by auto
  with w1 after_reminders_trans [OF w1(2)] Cons.prems(2) show ?case by (auto simp: thenA_apply)
qed

text \<open>
  C31: reminders of unconfirmed orders. In business hours a run marks exactly the stale orders whose reminder is on record (sent now or
  before) and changes no other order; it sends at most one message per order newly on record, and a reminder that could not
  be sent leaves no mark, so it is tried again. When the platform's channel accepts messages, no stale order is left. Outside business
  hours nothing happens.
\<close>

theorem order_reminders_exact:
  fixes gw :: gateway and st :: settings and w :: world
  assumes "wf_orders w" and "wf_notifications w"
  defines "w' \<equiv> exec (send_order_reminders gw st) w"
  shows "fst (send_order_reminders gw st w) = Inr ()
     \<and> (\<not> is_business_hours (clock w) \<longrightarrow> w' = w)
     \<and> (is_business_hours (clock w) \<longrightarrow>
          orders w' = update_where (\<lambda>x. is_stale (clock w) x \<and> reminder_event x \<in> notified w') (\<lambda>x. x\<lparr>o_reminder_sent_at := Some (clock w)\<rparr>) (orders w)
        \<and> (\<exists>ds. dispatched w' = dispatched w @ ds \<and> length ds \<le> card (notified w' - notified w))
        \<and> notified w' - notified w \<subseteq> reminder_event ` set (filter (is_stale (clock w)) (orders w))
        \<and> (accepting gw (st_tenant_id st) w \<longrightarrow> filter (is_stale (clock w)) (orders w') = []))"
proof (cases "is_business_hours (clock w)")
  case False
  then show ?thesis by (simp add: w'_def exec_def send_order_reminders_def in_business_hours_def bindA_apply)
next
  case True
  let ?xs = "filter (is_stale (clock w)) (orders w)"
  have d: "distinct (map o_id (orders w))" by (rule wf_orders_distinct [OF assms(1)])
  then have "distinct (map o_id ?xs)" by (simp add: distinct_map_filter)
  from remind_orders_after [OF assms(2) this, of gw st "clock w"] obtain v where
    v: "forA ?xs (remind_order gw st (clock w)) w = (Inr (), v)" "after_reminders gw st (clock w) ?xs w v" by blast
  then have run: "send_order_reminders gw st w = (Inr (), v)"
    using True by (simp add: send_order_reminders_def in_business_hours_def bindA_apply)
  then have w': "w' = v" by (simp add: w'_def exec_def)
  have sel: "(\<exists>x\<in>set ?xs. o_id y = o_id x \<and> reminder_event x \<in> notified v) \<longleftrightarrow> is_stale (clock w) y \<and> reminder_event y \<in> notified v"
    if "y \<in> set (orders w)" for y
    using that d by (auto simp: reminder_event_def distinct_map dest: inj_onD)
  have ords: "orders v = update_where (\<lambda>x. is_stale (clock w) x \<and> reminder_event x \<in> notified v) (reminded_at (clock w)) (orders w)"
    using v(2) sel by (simp add: after_reminders_def update_where_def)
  have "filter (is_stale (clock w)) (orders v) = []" if "accepting gw (st_tenant_id st) w"
  proof -
    from that v(2) have "reminder_event x \<in> notified v" if "x \<in> set (orders w)" "is_stale (clock w) x" for x
      using that unfolding after_reminders_def by auto
    moreover have "\<not> is_stale (clock w) (reminded_at (clock w) x)" for x by (simp add: reminded_at_def is_stale_def)
    ultimately show ?thesis by (auto simp: filter_empty_conv ords set_update_where)
  qed
  with run True w' ords v(2) show ?thesis by (auto simp: after_reminders_def reminded_at_def [abs_def])
qed

section \<open>Reminders of debts\<close>

definition counted :: "timestamp \<Rightarrow> credit_sale \<Rightarrow> credit_sale" where
  "counted now c = c\<lparr>cs_reminders_sent := cs_reminders_sent c + 1, cs_last_reminded_at := Some now\<rparr>"

definition sales_at :: "credit_sale list \<Rightarrow> timestamp \<Rightarrow> world \<Rightarrow> bool" where
  "sales_at cs now w \<longleftrightarrow> credit_sales w = cs \<and> clock w = now"

lemma session_preserves: "keeps m P \<Longrightarrow> (\<And>w. P w \<Longrightarrow> P (restore_db w (snd (m w)))) \<Longrightarrow> keeps (session_begin m) P"
  unfolding keeps_def session_begin_def by (auto split: prod.splits sum.splits) (metis snd_conv)+

lemma session_modA: "session_begin (modA f) w = (Inr (), f w)"
  by (simp add: session_begin_def)

lemma send_message_aside: "aside w (snd (send_message gw tid eid rcpt msg ch oid ctid w))"
  by (simp add: send_message_def dispatch_adapter_defs send_once_aside only_may)

lemma send_message_keeps_sales: "keeps (session_begin (send_message gw tid eid rcpt msg ch oid ctid)) (sales_at cs now)"
proof (rule session_preserves)
  show "keeps (send_message gw tid eid rcpt msg ch oid ctid) (sales_at cs now)"
    using send_message_aside [of _ gw tid eid rcpt msg ch oid ctid] aside_fields(4,6) by (auto simp: keeps_def sales_at_def aside_fields)
  fix w assume "sales_at cs now w"
  then show "sales_at cs now (restore_db w (snd (send_message gw tid eid rcpt msg ch oid ctid w)))"
    using aside_fields(6) [OF send_message_aside [of w gw tid eid rcpt msg ch oid ctid]] by (simp add: sales_at_def restore_db_def)
qed

lemma trader_phone_keeps: "keeps (tenant_trader_phone tid) P"
proof -
  have r: "keeps (bindA (trader_get_by_tenant tid) (\<lambda>t. ret (f t))) P" for f :: "trader_row option \<Rightarrow> string"
    unfolding trader_get_by_tenant_def by (intro keeps_bindA keeps_getA keeps_liftE keeps_ret)
  have "keeps (case d of Some (TraderDoc t) \<Rightarrow> ret (tr_phone_number t)
     | _ \<Rightarrow> bindA (trader_get_by_tenant tid) (\<lambda>t. ret (case t of None \<Rightarrow> [] | Some t \<Rightarrow> td_phone_number t))) P" for d
    by (auto intro: r split: option.splits doc.splits)
  then show ?thesis
    unfolding tenant_trader_phone_def get_trader_by_tenant_cache_def cache_get_def by (intro keeps_bindA keeps_getA)
qed

lemma counted_once:
  assumes "distinct (map cs_id cs)" and "c \<in> set cs"
  shows "update_where (\<lambda>d. cs_id d = cs_id c) (\<lambda>d. d\<lparr>cs_reminders_sent := cs_reminders_sent c + 1, cs_last_reminded_at := Some now\<rparr>) cs
     = update_where (\<lambda>d. cs_id d = cs_id c) (counted now) cs"
proof -
  have "d = c" if "d \<in> set cs" "cs_id d = cs_id c" for d using assms that by (auto simp: distinct_map dest: inj_onD)
  then show ?thesis by (auto simp: update_where_def counted_def)
qed

lemma swallow_ends: "\<exists>w'. tryA m (\<lambda>_. ret ()) w = (Inr (), w')" for m :: "unit svc"
  by (cases "m w") (auto simp: tryA_apply split: sum.splits)

lemma send_reminder_sales:
  assumes "distinct (map cs_id (credit_sales w))" and "c \<in> set (credit_sales w)"
  shows "let w1 = snd (session_begin (send_reminder (cs_id c) (cs_tenant_id c)) w) in clock w1 = clock w
     \<and> (credit_sales w1 = credit_sales w \<or> credit_sales w1 = update_where (\<lambda>d. cs_id d = cs_id c) (counted (clock w)) (credit_sales w))"
proof -
  have found: "credit_sale_or_404 (cs_id c) (cs_tenant_id c) w = (Inr c, w)"
    using filter_key_unique [of cs_id "credit_sales w" c "\<lambda>d. cs_tenant_id d = cs_tenant_id c"] assms
    by (simp add: credit_sale_or_404_def cs_get_by_id_def act_simps)
  show ?thesis
    by (cases "cs_conversation_id c") (auto simp: session_begin_def send_reminder_def act_simps found restore_db_def save_message_def insert_message_def
        increment_reminder_def set_credit_sale_def Let_def counted_def [abs_def])
qed

lemma remind_debt_sales:
  assumes "distinct (map cs_id (credit_sales w))" and "c \<in> set (credit_sales w)"
  obtains w' where "remind_debt gw st (clock w) c w = (Inr (), w')"
    and "sales_at (credit_sales w) (clock w) w' \<or> sales_at (update_where (\<lambda>d. cs_id d = cs_id c) (counted (clock w)) (credit_sales w)) (clock w) w'"
proof -
  let ?old = "sales_at (credit_sales w) (clock w)"
  let ?new = "sales_at (update_where (\<lambda>d. cs_id d = cs_id c) (counted (clock w)) (credit_sales w)) (clock w)"
  let ?m = "if truthy_str (cs_conversation_id c) then remind_customer gw st c else remind_trader gw st (clock w) c"
  have notify: "keeps (bindA (tenant_trader_phone tid) (\<lambda>phone. if phone = [] then ret () else session_begin (send_message gw t (f phone) phone (b phone) ''whatsapp'' None ct))) (sales_at cs now)"
    for tid t f b ct cs now by (intro keeps_bindA trader_phone_keeps keeps_if keeps_ret send_message_keeps_sales)
  have customer: "?old (snd (remind_customer gw st c w)) \<or> ?new (snd (remind_customer gw st c w))"
  proof -
    obtain r w1 where s: "session_begin (send_reminder (cs_id c) (cs_tenant_id c)) w = (r, w1)" by fastforce
    then have w1: "?old w1 \<or> ?new w1" using send_reminder_sales [OF assms] by (simp add: Let_def sales_at_def)
    show ?thesis
    proof (cases r)
      case (Inr u)
      have "sales_at cs now (snd (remind_customer gw st c w))" if "sales_at cs now w1" for cs now
        using keepsD [OF notify that] by (simp add: remind_customer_def thenA_apply s Inr)
      with w1 show ?thesis by blast
    qed (use w1 in \<open>simp add: remind_customer_def thenA_apply s\<close>)
  qed
  have trader: "?old (snd (remind_trader gw st (clock w) c w)) \<or> ?new (snd (remind_trader gw st (clock w) c w))"
  proof -
    obtain r w1 where p: "tenant_trader_phone (cs_tenant_id c) w = (r, w1)" by fastforce
    have w1: "?old w1" using keepsD [OF trader_phone_keeps, of ?old w "cs_tenant_id c"] p by (simp add: sales_at_def)
    show ?thesis
    proof (cases r)
      case (Inr phone)
      let ?send = "session_begin (send_message gw (st_tenant_id st) (''debt.reminder.'' @ cs_id c @ ''.'' @ show_int (cs_reminders_sent c)) phone
         (Template ''debt_reminder_to_trader'' [JStr (cs_customer_name c), JInt (int_of_decimal (cs_amount c)), JInt (max 1 ((clock w - cs_created_at c) div day_us))])
         ''whatsapp'' None (Some (st_tenant_id st)))"
      obtain r2 w2 where m: "?send w1 = (r2, w2)" by fastforce
      have w2: "?old w2" using keepsD [OF send_message_keeps_sales w1] m by (metis snd_conv)
      then have cs: "credit_sales w2 = credit_sales w" "clock w2 = clock w" by (simp_all add: sales_at_def)
      show ?thesis
      proof (cases "phone = []")
        case True
        with w1 show ?thesis by (simp add: remind_trader_def bindA_apply p Inr)
      next
        case False
        then have "remind_trader gw st (clock w) c w = thenA ?send (session_begin (modA (\<lambda>w'. w'\<lparr>credit_sales := update_where (\<lambda>d. cs_id d = cs_id c)
            (\<lambda>d. d\<lparr>cs_reminders_sent := cs_reminders_sent c + 1, cs_last_reminded_at := Some (clock w)\<rparr>) (credit_sales w')\<rparr>))) w1"
          by (simp only: remind_trader_def bindA_apply p Inr prod.case sum.case if_False)
        then show ?thesis
          unfolding thenA_apply m by (cases r2) (use w2 cs counted_once [OF assms, of "clock w"] in \<open>simp_all add: session_modA sales_at_def\<close>)
      qed
    qed (use w1 in \<open>simp add: remind_trader_def bindA_apply p\<close>)
  qed
  obtain w' where w': "remind_debt gw st (clock w) c w = (Inr (), w')" unfolding remind_debt_def using swallow_ends by blast
  then have "w' = snd (?m w)" by (auto simp: remind_debt_def tryA_apply split: prod.splits sum.splits)
  with customer trader have "?old w' \<or> ?new w'" by (simp split: if_splits)
  with w' that show thesis by blast
qed

lemma disjoint_within: "S' \<subseteq> insert a S \<Longrightarrow> a \<notin> A \<Longrightarrow> S \<inter> A = {} \<Longrightarrow> S' \<inter> A = {}"
  by blast

lemma remind_debts_sales:
  assumes "distinct (map cs_id cs)" and "set xs \<subseteq> set cs" and "distinct (map cs_id xs)" and "S \<inter> cs_id ` set xs = {}"
    and "sales_at (update_where (\<lambda>d. cs_id d \<in> S) (counted now) cs) now w"
  shows "\<exists>w' T. forA xs (remind_debt gw st now) w = (Inr (), w') \<and> T \<subseteq> S \<union> cs_id ` set xs
     \<and> sales_at (update_where (\<lambda>d. cs_id d \<in> T) (counted now) cs) now w'"
  using assms(2-)
proof (induction xs arbitrary: S w)
  case Nil
  then show ?case by auto
next
  case (Cons x xs)
  let ?cs = "\<lambda>S. update_where (\<lambda>d. cs_id d \<in> S) (counted now) cs"
  have now: "clock w = now" "credit_sales w = ?cs S" using Cons.prems(4) by (simp_all add: sales_at_def)
  have ids: "map cs_id (?cs S) = map cs_id cs" by (simp add: update_where_def counted_def)
  have d: "distinct (map cs_id (credit_sales w))" using assms(1) by (simp add: now ids)
  have x: "x \<in> set (credit_sales w)" using Cons.prems(1,3) by (auto simp: now set_update_where image_iff intro!: bexI [of _ x])
  have step: "update_where (\<lambda>d. cs_id d = cs_id x) (counted now) (?cs S) = ?cs (insert (cs_id x) S)"
    using Cons.prems(3) by (auto simp: update_where_def counted_def)
  obtain w1 where w1: "remind_debt gw st now x w = (Inr (), w1)" and or: "sales_at (?cs S) now w1 \<or> sales_at (?cs (insert (cs_id x) S)) now w1"
    using remind_debt_sales [OF d x, of gw st] by (auto simp: now step)
  then obtain S' where S': "sales_at (?cs S') now w1" "S \<subseteq> S'" "S' \<subseteq> insert (cs_id x) S" by blast
  have "cs_id x \<notin> cs_id ` set xs" "S \<inter> cs_id ` set xs = {}" using Cons.prems(2,3) by auto
  with S'(3) have "S' \<inter> cs_id ` set xs = {}" by (rule disjoint_within)
  from Cons.IH [OF _ _ this S'(1)] Cons.prems obtain w' T where
    t: "forA xs (remind_debt gw st now) w1 = (Inr (), w')" "T \<subseteq> S' \<union> cs_id ` set xs" "sales_at (?cs T) now w'" by auto
  have "forA (x # xs) (remind_debt gw st now) w = (Inr (), w')" using w1 t(1) by (simp add: thenA_apply)
  moreover have "T \<subseteq> S \<union> cs_id ` set (x # xs)" using t(2) S'(3) by auto
  ultimately show ?case using t(3) by blast
qed

lemma rel_source: "list_all2 R xs ys \<Longrightarrow> y \<in> set ys \<Longrightarrow> \<exists>x\<in>set xs. R x y"
  by (induction rule: list_all2_induct) auto

lemma debt_run:
  assumes "distinct (map cs_id (credit_sales w))"
  shows "\<exists>w'. send_debt_reminders gw st w = (Inr (), w') \<and> clock w' = clock w \<and> list_all2 (\<lambda>c c'. c' = c \<or>
     is_business_hours (clock w) \<and> reminder_due (clock w) c \<and> c' = counted (clock w) c) (credit_sales w) (credit_sales w')"
proof (cases "is_business_hours (clock w)")
  case False
  then show ?thesis by (simp add: send_debt_reminders_def in_business_hours_def bindA_apply list.rel_refl)
next
  case True
  let ?xs = "filter (reminder_due (clock w)) (credit_sales w)"
  have "sales_at (update_where (\<lambda>d. cs_id d \<in> {}) (counted (clock w)) (credit_sales w)) (clock w) w" by (simp add: sales_at_def)
  from remind_debts_sales [OF assms _ _ _ this, of ?xs gw st] assms obtain w' T where
    run: "forA ?xs (remind_debt gw st (clock w)) w = (Inr (), w')" and T: "T \<subseteq> cs_id ` set ?xs"
    and s: "sales_at (update_where (\<lambda>d. cs_id d \<in> T) (counted (clock w)) (credit_sales w)) (clock w) w'"
    by (auto simp: distinct_map_filter)
  have due: "reminder_due (clock w) c" if "c \<in> set (credit_sales w)" "cs_id c \<in> T" for c
  proof -
    from that(2) T obtain d where "d \<in> set (credit_sales w)" "reminder_due (clock w) d" "cs_id d = cs_id c" by auto
    with that(1) assms show ?thesis by (auto simp: distinct_map dest: inj_onD)
  qed
  have "list_all2 (\<lambda>c c'. c' = c \<or> reminder_due (clock w) c \<and> c' = counted (clock w) c) (credit_sales w)
      (update_where (\<lambda>d. cs_id d \<in> T) (counted (clock w)) (credit_sales w))"
    unfolding update_where_def list_all2_map2 by (rule list.rel_refl_strong) (use due in auto)
  moreover have "send_debt_reminders gw st w = (Inr (), w')"
    using True run by (simp add: send_debt_reminders_def in_business_hours_def bindA_apply)
  moreover have "credit_sales w' = update_where (\<lambda>d. cs_id d \<in> T) (counted (clock w)) (credit_sales w)" "clock w' = clock w"
    using s by (simp_all add: sales_at_def)
  ultimately show ?thesis using True by auto
qed

text \<open>
  C32: reminders of debts are paced and bounded. A run changes a sale only when it is in business hours, the sale is active, its interval
  has passed and the limit is not reached; then it counts exactly one reminder with the time of the run. Over any history of runs
  no sale exceeds its limit.
\<close>

theorem debt_reminders_paced:
  fixes gw :: gateway and st :: settings and w :: world and waits :: "int list"
  assumes "distinct (map cs_id (credit_sales w))" and "\<forall>c\<in>set (credit_sales w). cs_reminders_sent c \<le> cs_max_reminders c"
  defines "w' \<equiv> fold (\<lambda>s w. exec (send_debt_reminders gw st) (pass_time s w)) waits w"
  shows "(\<forall>c\<in>set (credit_sales w'). cs_reminders_sent c \<le> cs_max_reminders c)
     \<and> list_all2 (\<lambda>c c'. c' = c \<or> is_business_hours (clock w') \<and> reminder_due (clock w') c \<and> c' = counted (clock w') c)
         (credit_sales w') (credit_sales (exec (send_debt_reminders gw st) w'))"
proof -
  define ok where "ok = (\<lambda>v :: world. distinct (map cs_id (credit_sales v)) \<and> (\<forall>c\<in>set (credit_sales v). cs_reminders_sent c \<le> cs_max_reminders c))"
  have step: "ok (exec (send_debt_reminders gw st) v)" if v: "ok v" for v
  proof -
    from v debt_run [of v gw st] obtain v' where run: "send_debt_reminders gw st v = (Inr (), v')" and
      rel: "list_all2 (\<lambda>c c'. c' = c \<or> is_business_hours (clock v) \<and> reminder_due (clock v) c \<and> c' = counted (clock v) c) (credit_sales v) (credit_sales v')"
      by (auto simp: ok_def)
    from rel have "list_all2 (\<lambda>c c'. cs_id c' = cs_id c) (credit_sales v) (credit_sales v')"
      by (rule list.rel_mono_strong) (auto simp: counted_def)
    then have "map cs_id (credit_sales v') = map cs_id (credit_sales v)"
      by (induction rule: list_all2_induct) auto
    moreover have "\<forall>c'\<in>set (credit_sales v'). cs_reminders_sent c' \<le> cs_max_reminders c'"
    proof
      fix c' assume "c' \<in> set (credit_sales v')"
      from rel_source [OF rel this] obtain c where "c \<in> set (credit_sales v)" "c' = c \<or> reminder_due (clock v) c \<and> c' = counted (clock v) c"
        by blast
      with v show "cs_reminders_sent c' \<le> cs_max_reminders c'" by (auto simp: ok_def counted_def reminder_due_def)
    qed
    ultimately show ?thesis using v by (simp add: ok_def exec_def run)
  qed
  have wait: "ok (pass_time s v) = ok v" for s v by (simp add: ok_def pass_time_def)
  have "ok v \<Longrightarrow> ok (fold (\<lambda>s w. exec (send_debt_reminders gw st) (pass_time s w)) waits v)" for v
    by (induction waits arbitrary: v) (simp_all add: step wait)
  then have "ok w'" using assms by (simp add: ok_def)
  with debt_run [of w' gw st] show ?thesis by (auto simp: ok_def exec_def)
qed

section \<open>Follow-ups\<close>

definition untold :: "interest_event \<Rightarrow> interest_event \<Rightarrow> bool" where
  "untold e e' \<longleftrightarrow> ie_id e' = ie_id e \<and> ie_product_name e' = ie_product_name e
     \<and> (ie_followed_up e' \<longrightarrow> ie_followed_up e \<or> ie_product_name e = ''(photo inquiry)'')"

definition silent_since :: "world \<Rightarrow> world \<Rightarrow> bool" where
  "silent_since w0 w \<longleftrightarrow> dispatched w = dispatched w0 \<and> notifications w = notifications w0
     \<and> list_all2 untold (interest_events w0) (interest_events w)"

lemma no_catalogue: "bindA (liftE (trader_catalogue t)) f = raise (AttributeError ''Trader.catalogue'')"
  by (rule ext) (simp add: bindA_apply trader_catalogue_def trader_attributes_def)

lemma followed_silent:
  assumes "distinct (map ie_id (interest_events w0))" and "e0 \<in> set (interest_events w0)" and "untold e0 e" and "ie_product_name e = ''(photo inquiry)''"
  shows "keeps (followed e) (silent_since w0)"
proof (rule keepsI)
  fix w assume w: "silent_since w0 w"
  have same: "d = e0" if "d \<in> set (interest_events w0)" "ie_id d = ie_id e" for d
    using assms(1-3) that by (auto simp: untold_def distinct_map dest: inj_onD)
  have "list_all2 untold (interest_events w0) (update_where (\<lambda>d. ie_id d = ie_id e)
      (\<lambda>d. d\<lparr>ie_followed_up := True, ie_followed_up_at := Some (clock w)\<rparr>) (interest_events w))"
    unfolding update_where_def list_all2_map2
  proof (rule list.rel_mono_strong)
    show "list_all2 untold (interest_events w0) (interest_events w)" using w by (simp add: silent_since_def)
    fix d d' assume "d \<in> set (interest_events w0)" "untold d d'"
    with same [of d] assms(3,4) show "untold d (if ie_id d' = ie_id e then d'\<lparr>ie_followed_up := True, ie_followed_up_at := Some (clock w)\<rparr> else d')"
      by (auto simp: untold_def)
  qed
  then show "silent_since w0 (snd (followed e w))" using w by (simp add: followed_def session_modA mark_followed_up_def silent_since_def)
qed

lemma converted_silent: "keeps (session_begin (mark_converted tp cp p i)) (silent_since w0)"
  unfolding mark_converted_def keeps_def session_modA silent_since_def update_where_def
  by (auto simp: list_all2_map2 untold_def elim!: list.rel_mono_strong)

lemma follow_up_silent:
  assumes "distinct (map ie_id (interest_events w0))" and "e0 \<in> set (interest_events w0)" and "untold e0 e"
  shows "keeps (follow_up gw st now e) (silent_since w0)"
proof -
  have "keeps (bindA (getA (ordered_since e)) (\<lambda>x. case x of
        Some x \<Rightarrow> session_begin (mark_converted (ie_trader_phone e) (ie_customer_phone e) (ie_product_name e) (o_id x))
      | None \<Rightarrow> bindA (trader_get_by_phone (ie_trader_phone e)) (\<lambda>t. case t of
          None \<Rightarrow> ret ()
        | Some t \<Rightarrow> bindA (liftE (trader_catalogue t)) (follow_up_customer gw st now e t)))) (silent_since w0)"
    unfolding no_catalogue trader_get_by_phone_def
    by (intro keeps_bindA keeps_getA keeps_option keeps_liftE keeps_ret keeps_raise converted_silent)
  then show ?thesis unfolding follow_up_def
    by (intro keeps_tryA keeps_ret) (simp add: followed_silent [OF assms])
qed

lemma forA_keeps_set: "(\<And>x. x \<in> set xs \<Longrightarrow> keeps (f x) P) \<Longrightarrow> keeps (forA xs f) P"
  by (induction xs) (auto intro!: keeps_thenA)

lemma followups_silent:
  assumes "distinct (map ie_id (interest_events w0))" and "silent_since w0 w"
  shows "silent_since w0 (exec (send_smart_followups gw st) w)"
proof -
  let ?es = "get_pending_followups (st_followup_delay_hours st) 30 w"
  have "keeps (forA ?es (follow_up gw st (clock w))) (silent_since w0)"
  proof (rule forA_keeps_set)
    fix e assume "e \<in> set ?es"
    then have "e \<in> set (interest_events w)" by (auto simp: get_pending_followups_def order_by_asc_def dest: in_set_takeD)
    with rel_source [of untold "interest_events w0" "interest_events w"] assms(2) obtain e0 where
      "e0 \<in> set (interest_events w0)" "untold e0 e" by (auto simp: silent_since_def)
    then show "keeps (follow_up gw st (clock w) e) (silent_since w0)" by (rule follow_up_silent [OF assms(1)])
  qed
  from keepsD [OF this assms(2)] assms(2) show ?thesis
    by (simp add: exec_def send_smart_followups_def in_business_hours_def bindA_apply)
qed

text \<open>
  Follow-ups are never sent. Reading \<open>trader.catalogue\<close>, which the model of a trader does not have, raises before the first message:
  over any history of runs nothing is sent or recorded, and no event is marked as followed up except generic photo inquiries, so that
  pending events stay at the head of the queue of thirty.
\<close>

theorem followups_never_sent:
  fixes gw :: gateway and st :: settings and w :: world and waits :: "int list"
  assumes "distinct (map ie_id (interest_events w))"
  defines "w' \<equiv> fold (\<lambda>s w. exec (send_smart_followups gw st) (pass_time s w)) waits w"
  shows "dispatched w' = dispatched w \<and> notifications w' = notifications w \<and> list_all2 (\<lambda>e e'. ie_id e' = ie_id e
     \<and> (ie_followed_up e' \<longrightarrow> ie_followed_up e \<or> ie_product_name e = ''(photo inquiry)'')) (interest_events w) (interest_events w')"
proof -
  have wait: "silent_since w (pass_time s v) = silent_since w v" for s v by (simp add: silent_since_def pass_time_def)
  have "silent_since w v \<Longrightarrow> silent_since w (fold (\<lambda>s w. exec (send_smart_followups gw st) (pass_time s w)) waits v)" for v
    by (induction waits arbitrary: v) (simp_all add: followups_silent [OF assms(1)] wait)
  moreover have "silent_since w w" by (simp add: silent_since_def list.rel_refl untold_def)
  ultimately have "silent_since w w'" by (simp add: w'_def)
  then show ?thesis by (auto simp: silent_since_def untold_def elim!: list.rel_mono_strong)
qed

section \<open>The Status Kit\<close>

text \<open>
  The daily Status Kit is never sent. Whenever its trigger lets the job start (5:30 UTC or within the hour of grace), it is outside
  the business hours the job itself requires, so the run does nothing.
\<close>

theorem status_kit_never_sent:
  assumes "(StatusKit, trigger) \<in> set JOBS" and "may_start trigger (clock w)"
  shows "run_job gw sd rl st StatusKit w = (Inr (), w)"
proof -
  define s where "s = (clock w mod day_us) div 1000000"
  have s: "19800 \<le> s" "s \<le> 23400" using assms by (auto simp: JOBS_def Let_def s_def)
  have "clock w div hour_us = 24 * (clock w div day_us) + (clock w mod day_us) div hour_us"
  proof -
    have "clock w = clock w mod day_us + hour_us * (24 * (clock w div day_us))"
      using mod_mult_div_eq [of "clock w" day_us] by (simp add: day_us_def hour_us_def)
    then have "clock w div hour_us = (clock w mod day_us + hour_us * (24 * (clock w div day_us))) div hour_us" by (rule arg_cong)
    then show ?thesis by (simp add: hour_us_def)
  qed
  moreover have "(clock w mod day_us) div hour_us = s div 3600"
    using zdiv_zmult2_eq [of 3600 "clock w mod day_us" 1000000] by (simp add: s_def hour_us_def)
  ultimately have "utc_hour (clock w) = (s div 3600) mod 24" by (simp add: utc_hour_def)
  moreover have "s div 3600 = 5 \<or> s div 3600 = 6" using zdiv_mono1 [OF s(1), of 3600] zdiv_mono1 [OF s(2), of 3600] by auto
  ultimately have "\<not> is_business_hours (clock w)" by (auto simp: is_business_hours_def Let_def)
  then show ?thesis by (simp add: run_job_def send_status_kit_def in_business_hours_def bindA_apply)
qed

lemma shift_mod_inj:
  fixes x y n a :: nat
  assumes "x < n" and "y < n" and "(a + x) mod n = (a + y) mod n"
  shows "x = y"
proof -
  have "u = v" if "u \<le> v" "v < n" "(a + v) mod n = (a + u) mod n" for u v
  proof -
    from that(1,3) have "n dvd v - u" using mod_eq_dvd_iff_nat [of "a + u" "a + v" n] by simp
    with that(1,2) show ?thesis by (auto dest: dvd_imp_le)
  qed
  from this [of x y] this [of y x] assms show ?thesis by (cases x y rule: linorder_le_cases) simp_all
qed

text \<open>
  The rotation of products. A day shows as many products as there are, at most three and no position twice, and every product has its
  turn within \<open>\<lceil>n/3\<rceil>\<close> consecutive days, from whatever day on.
\<close>

theorem status_rotation_complete:
  assumes "i < length ps"
  shows "(\<exists>d. day \<le> d \<and> d < day + (int (length ps) + 2) div 3 \<and> ps ! i \<in> set (selected_products d ps))
     \<and> length (selected_products day ps) = min 3 (length ps) \<and> set (selected_products day ps) \<subseteq> set ps
     \<and> (distinct ps \<longrightarrow> distinct (selected_products day ps))"
proof -
  define n where "n = int (length ps)"
  have ne: "0 < length ps" using assms by (cases ps) simp_all
  then have n: "0 < n" by (simp add: n_def)
  define r where "r = (int i - day * 3) mod n"
  have r: "0 \<le> r" "r < n" using n by (simp_all add: r_def)
  define d where "d = day + r div 3"
  define k where "k = nat (r mod 3)"
  have k: "k < min 3 (length ps)"
  proof (cases "length ps < 3")
    case True
    with r have "r mod 3 = r" by (simp add: n_def)
    with r True show ?thesis by (simp add: k_def n_def nat_less_iff)
  qed (simp add: k_def nat_less_iff)
  have "((d * 3) mod n + int k) mod n = (d * 3 + int k) mod n" by (simp add: mod_add_left_eq)
  also have "d * 3 + int k = day * 3 + r" using r by (simp add: d_def k_def algebra_simps)
  also have "(day * 3 + r) mod n = int i mod n" unfolding r_def by (simp add: mod_add_right_eq)
  also have "\<dots> = int i" using assms by (simp add: n_def)
  finally have "nat (((d * 3) mod n + int k) mod n) = i" by simp
  then have idx: "(nat ((d * 3) mod n) + k) mod length ps = i"
    using n by (simp add: n_def nat_mod_as_int)
  have "ps ! i \<in> set (selected_products d ps)"
    unfolding selected_products_def Let_def set_map
    by (rule image_eqI [of _ _ k]) (use k idx in \<open>simp_all add: n_def\<close>)
  moreover have "day \<le> d" "d < day + (n + 2) div 3" using r by (simp_all add: d_def)
  moreover have "set (selected_products day ps) \<subseteq> set ps"
    using mod_less_divisor [OF ne] by (auto simp: selected_products_def Let_def)
  moreover have "distinct (selected_products day ps)" if "distinct ps"
  proof -
    have "inj_on (\<lambda>k. ps ! ((a + k) mod length ps)) (set [0..<min 3 (length ps)])" for a
    proof (rule inj_onI)
      fix x y assume "x \<in> set [0..<min 3 (length ps)]" "y \<in> set [0..<min 3 (length ps)]" "ps ! ((a + x) mod length ps) = ps ! ((a + y) mod length ps)"
      then show "x = y" using that shift_mod_inj [of x "length ps" y a] mod_less_divisor [OF ne] by (simp add: nth_eq_iff_index_eq)
    qed
    then show ?thesis by (simp add: selected_products_def Let_def distinct_map)
  qed
  ultimately show ?thesis by (auto simp: n_def selected_products_def Let_def)
qed

section \<open>Examples\<close>

definition noon :: timestamp where "noon = 12 * hour_us"

definition example_settings :: settings where
  "example_settings = \<lparr>st_tenant_id = ''t1'', st_followup_delay_hours = 24, st_r2_public_url = [], st_r2_bucket_name = ''kit'', st_r2_account_id = ''acc''\<rparr>"

definition idle_studio :: studio where
  "idle_studio = \<lparr>sd_download = \<lambda>_. None, sd_video = \<lambda>_ _ _ _ _. Inr None, sd_card = \<lambda>_ _ _ _ _ _ _. Inr ''jpg'', sd_client = False, sd_put = \<lambda>_ _ _. Inr ()\<rparr>"

definition later_message :: scheduled_message where
  "later_message = \<lparr>sm_id = ''s1'', sm_tenant_id = ''t1'', sm_conversation_id = ''c1'', sm_content = ''Hi'', sm_scheduled_for = 5, sm_status = ''pending''\<rparr>"

theorem scheduled_messages_never_sent_witness:
  "later_message \<in> set (due_messages (empty_world\<lparr>clock := 9, scheduled_messages := [later_message]\<rparr>)) \<and> (\<forall>s\<in>set [60, 60 :: int]. 0 \<le> s)
     \<and> messages (fold (\<lambda>s w. exec (fire_due_messages open_gateway) (pass_time s w)) [60, 60] (empty_world\<lparr>clock := 9, scheduled_messages := [later_message]\<rparr>)) = []"
proof -
  let ?w = "empty_world\<lparr>clock := 9, scheduled_messages := [later_message]\<rparr>"
  have d: "later_message \<in> set (due_messages ?w)" by (simp add: due_messages_def later_message_def)
  have p: "\<forall>s\<in>set [60, 60 :: int]. 0 \<le> s" by simp
  from scheduled_messages_never_sent [OF d p, of open_gateway] d p show ?thesis by (simp add: empty_world_def)
qed

definition stale_world :: world where
  "stale_world = one_channel\<lparr>clock := noon, orders := [create_order_row ''o1'' ''t1'' ''c1'' None (Some ''234'') None (Some ''080'') (Some 100) ''NGN'' 0]\<rparr>"

lemma stale_world_facts: "wf_orders stale_world" "wf_notifications stale_world" "is_business_hours (clock stale_world)"
    "accepting open_gateway (st_tenant_id example_settings) stale_world"
proof -
  show "wf_orders stale_world"
    by (rule wf_orders_example) (simp_all add: stale_world_def one_channel_def create_order_row_def empty_world_def)
  show "wf_notifications stale_world"
    by (rule wf_notifications_none) (simp_all add: stale_world_def one_channel_def empty_world_def)
  show "is_business_hours (clock stale_world)"
    by (simp add: stale_world_def noon_def is_business_hours_def utc_hour_def hour_us_def)
  show "accepting open_gateway (st_tenant_id example_settings) stale_world"
    unfolding accepting_def
    by (auto simp: example_settings_def dispatch_or_raise_def get_by_tenant_and_channel_def bindA_apply stale_world_def one_channel_def
        post_message_def open_gateway_def is_success_def)
qed

theorem order_reminders_exact_witness:
  "wf_orders stale_world \<and> wf_notifications stale_world \<and> is_business_hours (clock stale_world) \<and> accepting open_gateway (st_tenant_id example_settings) stale_world
     \<and> length (filter (is_stale (clock stale_world)) (orders stale_world)) = 1
     \<and> filter (is_stale (clock stale_world)) (orders (exec (send_order_reminders open_gateway example_settings) stale_world)) = []"
proof -
  have "length (filter (is_stale (clock stale_world)) (orders stale_world)) = 1"
    by (simp add: stale_world_def is_stale_def create_order_row_def noon_def REMINDER_DELAY_HOURS_def hour_us_def)
  with order_reminders_exact [OF stale_world_facts(1,2), of open_gateway example_settings] stale_world_facts show ?thesis by blast
qed

definition owing :: "nat \<Rightarrow> credit_sale" where
  "owing n = \<lparr>cs_id = ''d1'', cs_tenant_id = ''t1'', cs_order_id = None, cs_conversation_id = None, cs_customer_name = ''Bimpe'', cs_amount = 5000,
     cs_currency = ''NGN'', cs_due_date = None, cs_status = CS_ACTIVE, cs_notes = None, cs_reminder_interval_days = 0, cs_max_reminders = 2,
     cs_reminders_sent = int n, cs_last_reminded_at = None, cs_created_at = 0\<rparr>"

theorem debt_reminders_paced_witness:
  "let w = empty_world\<lparr>clock := noon, credit_sales := [owing 1]\<rparr> in distinct (map cs_id (credit_sales w))
     \<and> (\<forall>c\<in>set (credit_sales w). cs_reminders_sent c \<le> cs_max_reminders c)
     \<and> (\<forall>c\<in>set (credit_sales (fold (\<lambda>s w. exec (send_debt_reminders open_gateway example_settings) (pass_time s w)) [0, 7, 9] w)).
          cs_reminders_sent c \<le> cs_max_reminders c)"
proof -
  let ?w = "empty_world\<lparr>clock := noon, credit_sales := [owing 1]\<rparr>"
  have h: "distinct (map cs_id (credit_sales ?w))" "\<forall>c\<in>set (credit_sales ?w). cs_reminders_sent c \<le> cs_max_reminders c"
    by (simp_all add: owing_def)
  from debt_reminders_paced [OF h, of open_gateway example_settings "[0, 7, 9]"] h show ?thesis unfolding Let_def by blast
qed

definition asked :: interest_event where
  "asked = \<lparr>ie_id = ''i1'', ie_tenant_id = ''t1'', ie_trader_phone = ''080'', ie_customer_phone = ''234'', ie_customer_name = None, ie_product_name = ''Milo'',
     ie_price = Some 3500, ie_event_type = PRICE_INQUIRY, ie_followed_up = False, ie_followed_up_at = None, ie_converted = False, ie_order_id = None, ie_created_at = 0\<rparr>"

theorem followups_never_sent_witness:
  "let w = empty_world\<lparr>clock := 2 * day_us + noon, interest_events := [asked], traders := [example_trader ''080'' ''mama-caro'']\<rparr> in
     distinct (map ie_id (interest_events w))
     \<and> dispatched (fold (\<lambda>s w. exec (send_smart_followups open_gateway example_settings) (pass_time s w)) [0, hour_us] w) = []"
proof -
  let ?w = "empty_world\<lparr>clock := 2 * day_us + noon, interest_events := [asked], traders := [example_trader ''080'' ''mama-caro'']\<rparr>"
  have d: "distinct (map ie_id (interest_events ?w))" by simp
  from followups_never_sent [OF d, of open_gateway example_settings "[0, hour_us]"] show ?thesis by (simp add: Let_def empty_world_def)
qed

theorem status_kit_never_sent_witness:
  "(StatusKit, Cron 5 30, 3600) \<in> set JOBS \<and> may_start (Cron 5 30, 3600) (6 * hour_us)
     \<and> run_job open_gateway idle_studio lagos example_settings StatusKit (empty_world\<lparr>clock := 6 * hour_us\<rparr>) = (Inr (), empty_world\<lparr>clock := 6 * hour_us\<rparr>)"
proof -
  have j: "(StatusKit, Cron 5 30, 3600) \<in> set JOBS" by (simp add: JOBS_def)
  have s: "may_start (Cron 5 30, 3600) (clock (empty_world\<lparr>clock := 6 * hour_us\<rparr>))" by (simp add: hour_us_def day_us_def Let_def)
  from status_kit_never_sent [OF j s] j s show ?thesis by simp
qed

theorem status_rotation_complete_witness:
  "2 < length [10, 20, 30, 40 :: nat] \<and> (\<exists>d. 5 \<le> d \<and> d < 5 + (int (length [10, 20, 30, 40 :: nat]) + 2) div 3 \<and> 30 \<in> set (selected_products d [10, 20, 30, 40 :: nat]))"
proof -
  have i: "2 < length [10, 20, 30, 40 :: nat]" by simp
  from status_rotation_complete [OF i, of 5] show ?thesis by simp
qed

end
