(* ===== verification/Ingestion.thy ===== *)
theory Ingestion
  imports Conversations Delivery Auth
begin

text \<open>
  The entrance: Meta's webhook and the channel-agnostic endpoint (\<open>modules/ingestion\<close>), which turn an HTTP request into one
  \<open>message.received\<close> event, and the rate limit every request passes (\<open>infra/rate_limit.py\<close>). The digest of a body and the JSON
  reader are parameters; a body that is not JSON is read as nothing.
\<close>

record webhook_lib =
  wl_hexdigest :: "string \<Rightarrow> string \<Rightarrow> string"
  wl_loads :: "string \<Rightarrow> jval option"

section \<open>Requests and events\<close>

definition CHANNELS :: "string list" where
  "CHANNELS = [''whatsapp'', ''sms'', ''web'']"

record inbound =
  ib_channel :: string
  ib_sender :: string
  ib_message :: string
  ib_tenant_id :: string
  ib_message_id :: "string option"
  ib_media_id :: "string option"
  ib_media_type :: "string option"
  ib_sender_name :: "string option"

text \<open>
  \<open>InboundMessageRequest(...)\<close>: the lengths are checked before the validators strip the sender and the message; the channel is normalised
  first.
\<close>

definition InboundMessageRequest :: "inbound \<Rightarrow> error + inbound" where
  "InboundMessageRequest r = (let ch = lower (strip (ib_channel r)) in
     if ch \<notin> set CHANNELS then Inl (ValueError ''channel'')
     else if length (ib_sender r) < 3 \<or> 40 < length (ib_sender r) then Inl (ValueError ''sender_identifier'')
     else if ib_message r = [] \<or> 4096 < length (ib_message r) then Inl (ValueError ''message'')
     else if ib_tenant_id r = [] then Inl (ValueError ''tenant_id'')
     else Inr (r\<lparr>ib_channel := ch, ib_sender := strip (ib_sender r), ib_message := strip (ib_message r)\<rparr>))"

record normalized =
  nm_channel :: string
  nm_sender :: string
  nm_message :: string
  nm_message_lower :: string
  nm_word_count :: nat
  nm_tenant_id :: string
  nm_is_empty :: bool
  nm_media_id :: "string option"
  nm_media_type :: "string option"
  nm_sender_name :: "string option"

definition normalize :: "inbound \<Rightarrow> normalized" where
  "normalize r = (let s = strip (ib_message r) in
     \<lparr>nm_channel = ib_channel r, nm_sender = strip (ib_sender r), nm_message = s, nm_message_lower = lower s,
      nm_word_count = length (split_ws s), nm_tenant_id = ib_tenant_id r, nm_is_empty = (s = []),
      nm_media_id = ib_media_id r, nm_media_type = ib_media_type r, nm_sender_name = ib_sender_name r\<rparr>)"

definition received_payload :: "normalized \<Rightarrow> string option \<Rightarrow> payload" where
  "received_payload n mid = [(''channel'', JStr (nm_channel n)), (''sender_identifier'', JStr (nm_sender n)), (''customer_identifier'', JStr (nm_sender n)),
     (''message'', JStr (nm_message n)), (''message_lower'', JStr (nm_message_lower n)), (''word_count'', JInt (int (nm_word_count n))),
     (''tenant_id'', JStr (nm_tenant_id n)), (''message_id'', json_opt mid), (''media_id'', json_opt (nm_media_id n)),
     (''media_type'', json_opt (nm_media_type n)), (''sender_name'', json_opt (nm_sender_name n))]"

definition ingest :: "inbound \<Rightarrow> normalized svc" where
  "ingest r = (let n = normalize r in thenA (emit ''message.received'' (nm_tenant_id n) (received_payload n (ib_message_id r))) (ret n))"

definition receive_message :: "inbound \<Rightarrow> normalized svc" where
  "receive_message r = bindA (liftE (InboundMessageRequest r)) ingest"

section \<open>Reading JSON the way Python does\<close>

text \<open>\<open>bool(v)\<close>, \<open>v[key]\<close>, \<open>v[0]\<close> and \<open>v.get(key, default)\<close> on what \<open>json.loads\<close> returns.\<close>

fun truthy_json :: "jval \<Rightarrow> bool" where
  "truthy_json JNull = False"
| "truthy_json (JBool b) = b"
| "truthy_json (JStr s) = (s \<noteq> [])"
| "truthy_json (JInt i) = (i \<noteq> 0)"
| "truthy_json (JDec d) = (d \<noteq> 0)"
| "truthy_json (JList xs) = (xs \<noteq> [])"
| "truthy_json (JObj p) = (p \<noteq> [])"

fun subscript_key :: "string \<Rightarrow> jval \<Rightarrow> error + jval" where
  "subscript_key k (JObj p) = (case map_of p k of None \<Rightarrow> Inl (KeyError k) | Some v \<Rightarrow> Inr v)"
| "subscript_key k v = Inl (TypeError ''indices must be integers'')"

fun subscript_0 :: "jval \<Rightarrow> error + jval" where
  "subscript_0 (JList xs) = (case xs of [] \<Rightarrow> Inl (IndexError ''list index out of range'') | x # _ \<Rightarrow> Inr x)"
| "subscript_0 (JStr s) = (case s of [] \<Rightarrow> Inl (IndexError ''string index out of range'') | c # _ \<Rightarrow> Inr (JStr [c]))"
| "subscript_0 (JObj p) = Inl (KeyError ''0'')"
| "subscript_0 v = Inl (TypeError ''object is not subscriptable'')"

fun json_get :: "string \<Rightarrow> jval \<Rightarrow> jval \<Rightarrow> error + jval" where
  "json_get k d (JObj p) = Inr (payload_get p k d)"
| "json_get k d v = Inl (AttributeError ''get'')"

definition or_json :: "jval \<Rightarrow> jval \<Rightarrow> jval" where
  "or_json v d = (if truthy_json v then v else d)"

definition bindE :: "error + 'a \<Rightarrow> ('a \<Rightarrow> error + 'b) \<Rightarrow> error + 'b" where
  "bindE m f = (case m of Inl e \<Rightarrow> Inl e | Inr x \<Rightarrow> f x)"

section \<open>Meta's webhook\<close>

definition verify_signature_bytes :: "webhook_lib \<Rightarrow> string \<Rightarrow> string option \<Rightarrow> string \<Rightarrow> error + unit" where
  "verify_signature_bytes wl body header secret = (if secret = [] then Inr ()
     else case header of None \<Rightarrow> Inl InvalidWebhookSignatureError
     | Some h \<Rightarrow> if \<not> startswith h ''sha256='' then Inl InvalidWebhookSignatureError
         else if drop 7 h \<noteq> wl_hexdigest wl secret body then Inl InvalidWebhookSignatureError else Inr ())"

text \<open>What the handler reads of the first message: sender, profile name, content, message id, media id and media type.\<close>

record extracted =
  ex_sender :: jval
  ex_name :: jval
  ex_content :: jval
  ex_id :: jval
  ex_media_id :: jval
  ex_media_type :: jval

definition profile_name :: "jval \<Rightarrow> error + jval" where
  "profile_name value = bindE (json_get ''contacts'' JNull value) (\<lambda>cs. if \<not> truthy_json cs then Inr JNull
     else bindE (subscript_0 cs) (\<lambda>c. bindE (json_get ''profile'' JNull c) (\<lambda>p.
       bindE (json_get ''name'' JNull (or_json p (JObj []))) (\<lambda>n. Inr (or_json n JNull)))))"

text \<open>The id of the tapped button or row, or its title.\<close>

definition tapped :: "jval \<Rightarrow> error + jval" where
  "tapped b = bindE (json_get ''id'' (JStr []) b) (\<lambda>i. if truthy_json i then Inr i else json_get ''title'' (JStr []) b)"

definition message_content :: "jval \<Rightarrow> jval \<Rightarrow> error + jval \<times> jval \<times> jval" where
  "message_content ty msg =
     (if ty = JStr ''text'' then bindE (json_get ''text'' JNull msg) (\<lambda>t. bindE (json_get ''body'' (JStr []) (or_json t (JObj []))) (\<lambda>c. Inr (c, JNull, JNull)))
      else if ty = JStr ''image'' then bindE (json_get ''image'' JNull msg) (\<lambda>i. bindE (json_get ''id'' (JStr []) (or_json i (JObj []))) (\<lambda>m.
        bindE (json_get ''mime_type'' (JStr ''image/jpeg'') (or_json i (JObj []))) (\<lambda>t. Inr (JStr ''[image]'', m, t))))
      else if ty = JStr ''audio'' then bindE (json_get ''audio'' JNull msg) (\<lambda>i. bindE (json_get ''id'' (JStr []) (or_json i (JObj []))) (\<lambda>m.
        bindE (json_get ''mime_type'' (JStr ''audio/ogg'') (or_json i (JObj []))) (\<lambda>t. Inr (JStr ''[audio]'', m, t))))
      else if ty = JStr ''interactive'' then bindE (json_get ''interactive'' JNull msg) (\<lambda>i. let i = or_json i (JObj []) in
        bindE (json_get ''type'' (JStr []) i) (\<lambda>rt.
          if rt = JStr ''button_reply'' then bindE (json_get ''button_reply'' JNull i) (\<lambda>b. bindE (tapped (or_json b (JObj []))) (\<lambda>c. Inr (c, JNull, JNull)))
          else if rt = JStr ''list_reply'' then bindE (json_get ''list_reply'' JNull i) (\<lambda>b. bindE (tapped (or_json b (JObj []))) (\<lambda>c. Inr (c, JNull, JNull)))
          else Inr (JStr [], JNull, JNull)))
      else Inr (JStr [], JNull, JNull))"

definition first_message :: "jval \<Rightarrow> error + extracted" where
  "first_message raw = bindE (subscript_key ''entry'' raw) (\<lambda>es. bindE (subscript_0 es) (\<lambda>e. bindE (subscript_key ''changes'' e) (\<lambda>cs.
     bindE (subscript_0 cs) (\<lambda>c. bindE (subscript_key ''value'' c) (\<lambda>value. bindE (subscript_key ''messages'' value) (\<lambda>ms. bindE (subscript_0 ms) (\<lambda>msg.
     bindE (json_get ''type'' (JStr []) msg) (\<lambda>ty. bindE (json_get ''from'' (JStr []) msg) (\<lambda>sender. bindE (json_get ''id'' (JStr []) msg) (\<lambda>mid.
     bindE (profile_name value) (\<lambda>name. bindE (message_content ty msg) (\<lambda>(c, media, mime).
       Inr \<lparr>ex_sender = sender, ex_name = name, ex_content = c, ex_id = mid, ex_media_id = media, ex_media_type = mime\<rparr>))))))))))))"

text \<open>
  \<open>except (KeyError, IndexError, TypeError): pass\<close>. The content is assigned last, so a caught exception leaves it empty and the request is
  acknowledged without effect; an \<open>AttributeError\<close> is not caught.
\<close>

fun lookup_error :: "error \<Rightarrow> bool" where
  "lookup_error (KeyError _) = True"
| "lookup_error (IndexError _) = True"
| "lookup_error (TypeError _) = True"
| "lookup_error _ = False"

text \<open>The pattern of messages without any text, on the characters of the model.\<close>

definition emoji_only :: "string \<Rightarrow> bool" where
  "emoji_only s \<longleftrightarrow> s \<noteq> [] \<and> list_all is_space s"

text \<open>\<open>str | None\<close> fields of the request: \<open>v or None\<close> must be a string.\<close>

fun optional_string :: "jval \<Rightarrow> error + string option" where
  "optional_string (JStr s) = Inr (if s = [] then None else Some s)"
| "optional_string v = (if truthy_json v then Inl (ValueError ''Input should be a valid string'') else Inr None)"

definition inbound_of :: "string \<Rightarrow> string \<Rightarrow> string \<Rightarrow> extracted \<Rightarrow> error + inbound" where
  "inbound_of tid sender content x = bindE (optional_string (ex_id x)) (\<lambda>mid. bindE (optional_string (ex_media_id x)) (\<lambda>media.
     bindE (optional_string (ex_media_type x)) (\<lambda>mime. bindE (optional_string (ex_name x)) (\<lambda>name.
       InboundMessageRequest \<lparr>ib_channel = ''whatsapp'', ib_sender = sender, ib_message = content, ib_tenant_id = tid, ib_message_id = mid,
         ib_media_id = media, ib_media_type = mime, ib_sender_name = name\<rparr>))))"

definition accept_message :: "string \<Rightarrow> extracted \<Rightarrow> unit svc" where
  "accept_message tid x = (if \<not> truthy_json (ex_sender x) \<or> \<not> truthy_json (ex_content x) then ret ()
     else case ex_content x of
       JStr content \<Rightarrow> if emoji_only (strip content) then ret ()
         else (case ex_sender x of
           JStr sender \<Rightarrow> bindA (liftE (inbound_of tid sender content x)) (\<lambda>r. thenA (ingest r) (ret ()))
         | _ \<Rightarrow> raise (ValueError ''Input should be a valid string''))
     | _ \<Rightarrow> raise (AttributeError ''strip''))"

definition receive_whatsapp_message :: "webhook_lib \<Rightarrow> string \<Rightarrow> string \<Rightarrow> string \<Rightarrow> string option \<Rightarrow> unit svc" where
  "receive_whatsapp_message wl secret tid body header = thenA (liftE (verify_signature_bytes wl body header secret))
     (case wl_loads wl body of None \<Rightarrow> ret ()
      | Some raw \<Rightarrow> (case first_message raw of
          Inl e \<Rightarrow> if lookup_error e then ret () else raise e
        | Inr x \<Rightarrow> accept_message tid x))"

definition verify_whatsapp_webhook :: "string \<Rightarrow> string \<Rightarrow> string \<Rightarrow> string \<Rightarrow> error + int" where
  "verify_whatsapp_webhook expected mode challenge tok = (if mode \<noteq> ''subscribe'' \<or> tok \<noteq> expected then Inl (ForbiddenError ''Verification failed.'')
     else case py_int challenge of None \<Rightarrow> Inl (ValueError ''invalid literal for int()'') | Some i \<Rightarrow> Inr i)"

section \<open>The rate limit\<close>

definition RATE_LIMITS :: "(string \<times> int) list" where
  "RATE_LIMITS = [(''/api/v1/auth'', 10), (''/api/v1/marketing'', 30), (''/api/v1'', 100)]"

definition EXEMPT_PREFIXES :: "string list" where
  "EXEMPT_PREFIXES = [''/health'', ''/api/v1/ingestion'', ''/ws/'']"

definition get_limit :: "string \<Rightarrow> int option" where
  "get_limit path = (if list_ex (startswith path) EXEMPT_PREFIXES then None
     else case find (\<lambda>(p, l). startswith path p) RATE_LIMITS of Some (p, l) \<Rightarrow> Some l | None \<Rightarrow> Some 100)"

record http_request =
  hr_path :: string
  hr_forwarded :: "string option"
  hr_host :: "string option"

definition client_ip :: "http_request \<Rightarrow> string" where
  "client_ip r = (let ip = strip (hd (split_on (\<lambda>c. c = CHR '','') (or_empty (hr_forwarded r)))) in
     if ip \<noteq> [] then ip else case hr_host r of Some h \<Rightarrow> h | None \<Rightarrow> ''unknown'')"

text \<open>\<open>strftime('%Y%m%d%H%M')\<close>: the civil date of the day and the minute of the day.\<close>

definition civil_month :: "timestamp \<Rightarrow> int \<times> int" where
  "civil_month t = (let z = t div day_us + 719468; doe = day_of_era t;
       yoe = (doe - doe div 1460 + doe div 36524 - doe div 146096) div 365;
       doy = doe - (365 * yoe + yoe div 4 - yoe div 100);
       mp = (5 * doy + 2) div 153; m = (if mp < 10 then mp + 3 else mp - 9)
     in (yoe + z div 146097 * 400 + (if m \<le> 2 then 1 else 0), m))"

definition two_digits :: "int \<Rightarrow> string" where
  "two_digits n = (if n < 10 then ''0'' @ show_int n else show_int n)"

definition minute_stamp :: "timestamp \<Rightarrow> string" where
  "minute_stamp t = show_int (fst (civil_month t)) @ two_digits (snd (civil_month t)) @ two_digits (day_of_month t)
     @ two_digits (t div hour_us mod 24) @ two_digits (t div MINUTE mod 60)"

definition window_key :: "string \<Rightarrow> timestamp \<Rightarrow> string" where
  "window_key ip now = ''ratelimit:'' @ ip @ '':'' @ minute_stamp now"

text \<open>Whether a request passes; outside development.\<close>

definition rate_limit_dispatch :: "http_request \<Rightarrow> bool svc" where
  "rate_limit_dispatch r = (case get_limit (hr_path r) of None \<Rightarrow> ret True
     | Some limit \<Rightarrow> bindA (getA clock) (\<lambda>now. let k = window_key (client_ip r) now in
         thenA (modA (\<lambda>w. w\<lparr>redis := redis_incr counter_value CounterDoc now k (redis w)\<rparr>))
         (bindA (getA (\<lambda>w. case redis_get now k (redis w) of Some d \<Rightarrow> counter_value d | None \<Rightarrow> 0)) (\<lambda>count.
           thenA (if count = 1 then modA (\<lambda>w. w\<lparr>redis := redis_expire now k 60 (redis w)\<rparr>) else ret ())
             (ret (count \<le> limit))))))"

section \<open>Requests that take effect\<close>

text \<open>A request body of Meta's Cloud API with the given contacts and messages, and a text message of it.\<close>

definition cloud_payload :: "jval list \<Rightarrow> jval list \<Rightarrow> jval" where
  "cloud_payload contacts msgs = JObj [(''object'', JStr ''whatsapp_business_account''), (''entry'', JList [JObj [(''id'', JStr ''0''),
     (''changes'', JList [JObj [(''value'', JObj [(''messaging_product'', JStr ''whatsapp''), (''contacts'', JList contacts), (''messages'', JList msgs)]),
        (''field'', JStr ''messages'')]])]])]"

definition text_message :: "string \<Rightarrow> string \<Rightarrow> string \<Rightarrow> jval" where
  "text_message mid sender content = JObj [(''from'', JStr sender), (''id'', JStr mid), (''timestamp'', JStr ''0''), (''type'', JStr ''text''),
     (''text'', JObj [(''body'', JStr content)])]"

definition contact :: "string \<Rightarrow> string \<Rightarrow> jval" where
  "contact name phone = JObj [(''profile'', JObj [(''name'', JStr name)]), (''wa_id'', JStr phone)]"

definition text_request :: "string \<Rightarrow> string \<Rightarrow> string \<Rightarrow> string \<Rightarrow> string \<Rightarrow> inbound" where
  "text_request tid mid sender content name = \<lparr>ib_channel = ''whatsapp'', ib_sender = strip sender, ib_message = strip content, ib_tenant_id = tid,
     ib_message_id = (if mid = [] then None else Some mid), ib_media_id = None, ib_media_type = None,
     ib_sender_name = (if name = [] then None else Some name)\<rparr>"

definition acceptable :: "string \<Rightarrow> string \<Rightarrow> string \<Rightarrow> bool" where
  "acceptable tid sender content \<longleftrightarrow> tid \<noteq> [] \<and> 3 \<le> length sender \<and> length sender \<le> 40 \<and> content \<noteq> [] \<and> length content \<le> 4096"

lemma strip_space_free: "\<not> (strip s \<noteq> [] \<and> list_all is_space (strip s))"
proof -
  { assume ne: "strip s \<noteq> []"
    then have "dropWhile is_space (rev (lstrip s)) \<noteq> []" by (simp add: strip_def rstrip_def)
    then have "\<not> is_space (hd (dropWhile is_space (rev (lstrip s))))" by (rule hd_dropWhile)
    moreover have "hd (dropWhile is_space (rev (lstrip s))) \<in> set (strip s)"
      using ne by (simp add: strip_def rstrip_def)
    ultimately have "\<not> list_all is_space (strip s)" by (auto simp: list_all_iff) }
  then show ?thesis by blast
qed

lemma not_emoji [simp]: "\<not> emoji_only (strip s)"
  using strip_space_free by (simp add: emoji_only_def)

lemma first_text:
  "first_message (cloud_payload [contact name sender] (text_message mid sender content # batch)) =
     Inr \<lparr>ex_sender = JStr sender, ex_name = or_json (JStr name) JNull, ex_content = JStr content, ex_id = JStr mid, ex_media_id = JNull, ex_media_type = JNull\<rparr>"
  by (simp add: first_message_def cloud_payload_def text_message_def contact_def bindE_def payload_get_def profile_name_def message_content_def or_json_def)

lemma accepted_text:
  assumes "acceptable tid sender content"
  shows "inbound_of tid sender content \<lparr>ex_sender = JStr sender, ex_name = or_json (JStr name) JNull, ex_content = JStr content, ex_id = JStr mid,
      ex_media_id = JNull, ex_media_type = JNull\<rparr> = Inr (text_request tid mid sender content name)"
proof -
  have ch: "lower (strip ''whatsapp'') = ''whatsapp''" by code_simp
  show ?thesis using assms
    by (simp add: inbound_of_def bindE_def or_json_def InboundMessageRequest_def ch CHANNELS_def text_request_def acceptable_def Let_def)
qed

definition authentic :: "webhook_lib \<Rightarrow> string \<Rightarrow> string \<Rightarrow> string option \<Rightarrow> bool" where
  "authentic wl secret body header \<longleftrightarrow> secret = [] \<or> header = Some (''sha256='' @ wl_hexdigest wl secret body)"

lemma authentic_iff: "verify_signature_bytes wl body header secret = (if authentic wl secret body header then Inr () else Inl InvalidWebhookSignatureError)"
proof (cases header)
  case (Some h)
  define p where "p = ''sha256=''"
  have l: "length p = 7" by (simp add: p_def)
  have eq: "startswith h p \<and> drop 7 h = d \<longleftrightarrow> h = p @ d" for d
    unfolding startswith_def l using append_eq_conv_conj [of p d h] by (auto simp: l)
  have "verify_signature_bytes wl body header secret =
      (if secret = [] \<or> (startswith h p \<and> drop 7 h = wl_hexdigest wl secret body) then Inr () else Inl InvalidWebhookSignatureError)"
    unfolding verify_signature_bytes_def Some p_def [symmetric] by simp
  then show ?thesis unfolding eq authentic_def Some p_def [symmetric] option.inject .
qed (simp add: verify_signature_bytes_def authentic_def)

definition text_event :: "inbound \<Rightarrow> world \<Rightarrow> event" where
  "text_event r w = \<lparr>ev_event_name = ''message.received'', ev_tenant_id = ib_tenant_id r, ev_payload = received_payload (normalize r) (ib_message_id r),
     ev_event_id = uuid_src w (uuid_n w), ev_timestamp = clock w\<rparr>"

definition announced :: "event \<Rightarrow> world \<Rightarrow> world" where
  "announced e w = w\<lparr>uuid_n := Suc (uuid_n w), published := published w @ [e]\<rparr>"

lemma ingest_apply: "ingest r w = (Inr (normalize r), announced (text_event r w) w)"
  by (simp add: ingest_def Let_def thenA_apply text_event_def announced_def) (simp add: normalize_def Let_def)

lemma webhook_text:
  assumes "authentic wl secret body header" and "acceptable tid sender content"
    and "wl_loads wl body = Some (cloud_payload [contact name sender] (text_message mid sender content # batch))"
  shows "receive_whatsapp_message wl secret tid body header w = (Inr (), announced (text_event (text_request tid mid sender content name) w) w)"
proof -
  have s: "sender \<noteq> []" "content \<noteq> []" using assms(2) by (auto simp: acceptable_def)
  have "accept_message tid \<lparr>ex_sender = JStr sender, ex_name = or_json (JStr name) JNull, ex_content = JStr content, ex_id = JStr mid,
      ex_media_id = JNull, ex_media_type = JNull\<rparr> w = (Inr (), announced (text_event (text_request tid mid sender content name) w) w)"
    using s by (simp add: accept_message_def accepted_text [OF assms(2)] bindA_apply thenA_apply ingest_apply)
  with assms(1,3) show ?thesis by (simp add: receive_whatsapp_message_def thenA_apply authentic_iff first_text)
qed

text \<open>What a request can do at all.\<close>

definition one_event :: "unit svc \<Rightarrow> string \<Rightarrow> bool" where
  "one_event m tid \<longleftrightarrow> (\<forall>w. snd (m w) = w \<or> (\<exists>r. ib_tenant_id r = tid \<and> m w = (Inr (), announced (text_event r w) w)))"

lemma inbound_tenant: "InboundMessageRequest r = Inr r' \<Longrightarrow> ib_tenant_id r' = ib_tenant_id r"
  by (auto simp: InboundMessageRequest_def Let_def split: if_splits)

lemma inbound_of_tenant: "inbound_of tid s c x = Inr r \<Longrightarrow> ib_tenant_id r = tid"
  by (auto simp: inbound_of_def bindE_def split: sum.splits dest!: inbound_tenant)

lemma accept_one: "one_event (accept_message tid x) tid"
proof -
  have "one_event (bindA (liftE (inbound_of tid s c x)) (\<lambda>r. thenA (ingest r) (ret ()))) tid" for s c
  proof (cases "inbound_of tid s c x")
    case (Inr r)
    then show ?thesis using inbound_of_tenant [OF Inr] by (auto simp: one_event_def bindA_apply thenA_apply ingest_apply)
  qed (simp add: one_event_def bindA_apply)
  then show ?thesis by (auto simp: accept_message_def one_event_def split: jval.split)
qed

text \<open>
  C12: only authentic webhooks take effect. With a secret configured, a request whose signature header is not the digest of its body
  is refused and changes nothing. Any other request publishes at most one event, of the platform's tenant, and changes nothing else.
\<close>

theorem webhook_authentic:
  shows "(secret \<noteq> [] \<and> header \<noteq> Some (''sha256='' @ wl_hexdigest wl secret body) \<longrightarrow>
       receive_whatsapp_message wl secret tid body header w = (Inl InvalidWebhookSignatureError, w))
     \<and> (snd (receive_whatsapp_message wl secret tid body header w) = w
        \<or> (\<exists>e. snd (receive_whatsapp_message wl secret tid body header w) = w\<lparr>uuid_n := Suc (uuid_n w), published := published w @ [e]\<rparr>
            \<and> ev_event_name e = ''message.received'' \<and> ev_tenant_id e = tid))"
proof (cases "authentic wl secret body header")
  case False
  then show ?thesis by (simp add: receive_whatsapp_message_def thenA_apply authentic_iff)
next
  case True
  have "snd (receive_whatsapp_message wl secret tid body header w) = w
      \<or> (\<exists>r. ib_tenant_id r = tid \<and> snd (receive_whatsapp_message wl secret tid body header w) = announced (text_event r w) w)"
    using True accept_one [of tid] 
    by (fastforce simp: receive_whatsapp_message_def thenA_apply authentic_iff one_event_def split: option.split sum.split)
  with True show ?thesis by (auto simp: authentic_def announced_def text_event_def)
qed

section \<open>From the webhook to the conversation\<close>

lemma receive_payload: "ev_tenant_id e = ev_tenant_id e' \<Longrightarrow> ev_payload e = ev_payload e' \<Longrightarrow> receive e = receive e'"
proof (rule ext)
  fix w
  assume eq: "ev_tenant_id e = ev_tenant_id e'" "ev_payload e = ev_payload e'"
  have sp: "saved_payload c m e = saved_payload c m e'" for c m by (intro ext) (simp add: saved_payload_def eq)
  show "receive e w = receive e' w" unfolding receive_def handle_message_received_def eq sp ..
qed

lemma listened_receives: "listener_loop handle_message_received es w = fold receive es w"
  by (induction es arbitrary: w) (simp_all add: receive_def)

lemma receive_repeated:
  assumes "wf_inbound w" and "complete_event e" and "external_id_of (ev_payload e) = Some x"
  shows "messages (fold receive (replicate n e) (receive e w)) = messages (receive e w)"
proof (induction n)
  case (Suc n)
  have "fold receive (replicate (Suc n) e) (receive e w) = receive e (fold receive (replicate n e) (receive e w))"
    by (simp add: replicate_append_same [symmetric] del: replicate.simps)
  with receive_again [OF assms refl, of "replicate n e"] Suc show ?case by simp
qed simp

lemma receive_first:
  assumes wf: "wf_inbound w" and ce: "complete_event e" and x: "external_id_of (ev_payload e) = Some x"
  shows "messages (receive e w) = messages w \<and> (\<exists>m\<in>set (messages w). m_external_id m = Some x)
     \<or> (\<exists>m. messages (receive e w) = messages w @ [m] \<and> m_tenant_id m = ev_tenant_id e \<and> m_sender_role m = ''user''
          \<and> m_sender_identifier m = Some (sender_of (ev_payload e)) \<and> m_content m = payload_str (ev_payload e) ''message'' \<and> m_external_id m = Some x)"
proof -
  obtain c w1 where w1: "wf_inbound w1" "same_pick w w1" "picked w1 (event_key e) \<noteq> None"
      "cv_id c = cv_id (the (picked w1 (event_key e)))" "messages w1 = messages w" "published w1 = published w"
      "\<exists>m w2. save_message (cv_id c) (ev_tenant_id e) ''user'' (payload_str (ev_payload e) ''message'') (external_id_of (ev_payload e))
             (Some (sender_of (ev_payload e))) w1 = (Inr m, w2)
           \<and> exec (handle_message_received e) w = (case m of None \<Rightarrow> w2
               | Some m \<Rightarrow> exec (emit ''conversation.message_saved'' (ev_tenant_id e) (saved_payload c m e (sender_of (ev_payload e))
                   (payload_str (ev_payload e) ''message'') (payload_str (ev_payload e) ''channel''))) w2)"
    by (rule received_cases [OF wf ce])
  show ?thesis
  proof (cases "stored w1 (cv_id c) x")
    case True
    then have "messages (receive e w) = messages w"
      using w1(7) w1(5) by (auto simp: receive_def x save_message_eq [OF w1(1)])
    moreover from True w1(5) have "\<exists>m\<in>set (messages w). m_external_id m = Some x" by (auto simp: stored_def)
    ultimately show ?thesis by blast
  next
    case False
    then show ?thesis
      using w1(7) w1(5) by (auto simp: receive_def x save_message_eq [OF w1(1)] Let_def exec_def)
  qed
qed

definition webhook_requests :: "webhook_lib \<Rightarrow> string \<Rightarrow> string \<Rightarrow> string \<Rightarrow> string option \<Rightarrow> nat \<Rightarrow> world \<Rightarrow> world" where
  "webhook_requests wl secret tid body header n w = ((\<lambda>w. exec (receive_whatsapp_message wl secret tid body header) w) ^^ n) w"

lemma announced_n:
  assumes "\<And>v. f v = announced (text_event r v) v"
  shows "\<exists>es. (f ^^ n) w = w\<lparr>uuid_n := uuid_n w + n, published := published w @ es\<rparr> \<and> length es = n
     \<and> (\<forall>e\<in>set es. ev_event_name e = ''message.received'' \<and> ev_tenant_id e = ib_tenant_id r \<and> ev_payload e = received_payload (normalize r) (ib_message_id r))"
proof (induction n)
  case (Suc n)
  then obtain es where es: "(f ^^ n) w = w\<lparr>uuid_n := uuid_n w + n, published := published w @ es\<rparr>" "length es = n"
     "\<forall>e\<in>set es. ev_event_name e = ''message.received'' \<and> ev_tenant_id e = ib_tenant_id r \<and> ev_payload e = received_payload (normalize r) (ib_message_id r)" by blast
  have "(f ^^ Suc n) w = announced (text_event r ((f ^^ n) w)) ((f ^^ n) w)" unfolding funpow.simps comp_apply assms ..
  then have "(f ^^ Suc n) w = w\<lparr>uuid_n := uuid_n w + Suc n, published := published w @ es @ [text_event r ((f ^^ n) w)]\<rparr>"
    by (simp add: es(1) announced_def)
  moreover have "\<forall>e\<in>set (es @ [text_event r ((f ^^ n) w)]). ev_event_name e = ''message.received'' \<and> ev_tenant_id e = ib_tenant_id r
      \<and> ev_payload e = received_payload (normalize r) (ib_message_id r)"
    using es(3) by (simp add: text_event_def)
  ultimately show ?case using es(2) by (intro exI [of _ "es @ [text_event r ((f ^^ n) w)]"]) simp
qed simp

text \<open>
  C11: a text message is stored once however often Meta repeats the webhook. Every authentic repetition is acknowledged and publishes one
  event; when the conversation listener has seen them all, the message is stored exactly once, stripped, under the sender,
  unless a message with its identifier was stored before. Only the first message of a request is looked at.
\<close>

theorem webhook_message_stored_once:
  fixes wl :: webhook_lib and w :: world and n :: nat and secret tid body :: string and header :: "string option"
  assumes "wf_inbound w" and "authentic wl secret body header" and "acceptable tid sender content"
    and "wl_loads wl body = Some (cloud_payload [contact name sender] (text_message mid sender content # batch))"
    and "mid \<noteq> []" and "strip sender \<noteq> []" and "strip content \<noteq> []"
  defines "w1 \<equiv> webhook_requests wl secret tid body header (Suc n) w"
  defines "es \<equiv> drop (length (published w)) (published w1)"
  defines "w2 \<equiv> register_message_received_handler es w1"
  shows "length es = Suc n
     \<and> (messages w2 = messages w \<and> (\<exists>m\<in>set (messages w). m_external_id m = Some mid)
        \<or> (\<exists>m. messages w2 = messages w @ [m] \<and> m_tenant_id m = tid \<and> m_sender_role m = ''user'' \<and> m_sender_identifier m = Some (strip sender)
             \<and> m_content m = strip content \<and> m_external_id m = Some mid))"
proof -
  let ?r = "text_request tid mid sender content name"
  obtain fs where fs: "w1 = w\<lparr>uuid_n := uuid_n w + Suc n, published := published w @ fs\<rparr>" "length fs = Suc n"
     "\<forall>e\<in>set fs. ev_event_name e = ''message.received'' \<and> ev_tenant_id e = ib_tenant_id ?r \<and> ev_payload e = received_payload (normalize ?r) (ib_message_id ?r)"
    using announced_n [of "\<lambda>w. exec (receive_whatsapp_message wl secret tid body header) w" ?r "Suc n" w]
      webhook_text [OF assms(2,3,4)] unfolding w1_def webhook_requests_def exec_def by (metis snd_conv)
  have es: "es = fs" by (simp add: es_def fs(1))
  obtain e where e: "e \<in> set fs" using fs(2) by (cases fs) auto
  have same: "receive e' = receive e" if "e' \<in> set fs" for e' using fs(3) that e by (intro receive_payload) simp_all
  have "fold receive fs v = fold receive (replicate (length fs) e) v" for v
    using same by (induction fs arbitrary: v) auto
  moreover have "subscribe_all_tenants_event ''message.received'' fs = fs"
    using fs(3) own_channel [of "''message.received''"] by (auto simp: subscribe_all_tenants_event_def filter_id_conv plain_def)
  ultimately have w2: "w2 = fold receive (replicate n e) (receive e w1)"
    by (simp add: w2_def es register_message_received_handler_def create_global_listener_task_def listened_receives fs(2))
  have pl: "ev_tenant_id e = tid" "sender_of (ev_payload e) = strip sender" "payload_str (ev_payload e) ''message'' = strip content"
      "external_id_of (ev_payload e) = Some mid" "payload_str (ev_payload e) ''channel'' = ''whatsapp''"
    using fs(3) e assms(5,6) by (auto simp: received_payload_def text_request_def normalize_def Let_def payload_str_def payload_get_def sender_of_def
        external_id_of_def json_opt_def)
  have ce: "complete_event e" using pl assms(3,6,7) by (simp add: complete_event_def acceptable_def)
  have wf1: "wf_inbound w1" using assms(1) by (simp add: wf_inbound_def fs(1))
  have "messages w2 = messages (receive e w1)" unfolding w2 by (rule receive_repeated [OF wf1 ce pl(4)])
  with receive_first [OF wf1 ce pl(4)] pl show ?thesis by (simp add: es fs(2)) (simp add: fs(1))
qed

section \<open>The rate limit\<close>

text \<open>The requests of one client with the time that passes before each, the answers of the middleware, and what they should be.\<close>

fun rate_run :: "(int \<times> http_request) list \<Rightarrow> world \<Rightarrow> bool list" where
  "rate_run [] w = []"
| "rate_run ((s, r) # rs) w = (fst (rate_limit_dispatch r (pass_time s w)) = Inr True) # rate_run rs (exec (rate_limit_dispatch r) (pass_time s w))"

fun admitted :: "int \<Rightarrow> http_request list \<Rightarrow> bool list" where
  "admitted n [] = []"
| "admitted n (r # rs) = (case get_limit (hr_path r) of None \<Rightarrow> True # admitted n rs | Some l \<Rightarrow> (n + 1 \<le> l) # admitted (n + 1) rs)"

lemma minute_stamp_minute:
  assumes "s div MINUTE = t div MINUTE"
  shows "minute_stamp s = minute_stamp t"
proof -
  have d: "x div day_us = x div MINUTE div 1440" for x
    using zdiv_zmult2_eq [of 1440 x MINUTE] by (simp add: day_us_def MINUTE_def second_def)
  have h: "x div hour_us = x div MINUTE div 60" for x
    using zdiv_zmult2_eq [of 60 x MINUTE] by (simp add: hour_us_def MINUTE_def second_def)
  show ?thesis unfolding minute_stamp_def civil_month_def day_of_month_def day_of_era_def Let_def d h assms ..
qed

definition minute_end :: "timestamp \<Rightarrow> timestamp" where
  "minute_end t = (t div MINUTE + 1) * MINUTE"

lemma minute_end: "t < minute_end t" "minute_end t \<le> t + 60 * second"
proof -
  have m: "0 \<le> t mod MINUTE" "t mod MINUTE < MINUTE" by (simp_all add: MINUTE_def second_def)
  have "minute_end t = t - t mod MINUTE + MINUTE"
    using div_mult_mod_eq [of t MINUTE] unfolding minute_end_def distrib_right by linarith
  with m show "t < minute_end t" "minute_end t \<le> t + 60 * second" by (simp_all add: MINUTE_def)
qed

text \<open>The counter of a client's window: none yet, or one that lives to the end of the minute.\<close>

definition window_at :: "string \<Rightarrow> int \<Rightarrow> world \<Rightarrow> bool" where
  "window_at ip n w \<longleftrightarrow> (n = 0 \<and> kv (redis w) (window_key ip (clock w)) = None)
     \<or> (1 \<le> n \<and> (\<exists>ex. kv (redis w) (window_key ip (clock w)) = Some (CounterDoc n, Some ex) \<and> minute_end (clock w) \<le> ex))"

lemma window_later:
  assumes "window_at ip n w" and "(clock w + s) div MINUTE = clock w div MINUTE"
  shows "window_at ip n (pass_time s w)"
  using assms minute_stamp_minute [OF assms(2)] by (simp add: window_at_def window_key_def pass_time_def minute_end_def)

lemma dispatch_counts:
  assumes "window_at (client_ip r) n w" and "get_limit (hr_path r) = Some l"
  shows "fst (rate_limit_dispatch r w) = Inr (n + 1 \<le> l) \<and> window_at (client_ip r) (n + 1) (exec (rate_limit_dispatch r) w)
     \<and> clock (exec (rate_limit_dispatch r) w) = clock w"
proof -
  let ?k = "window_key (client_ip r) (clock w)"
  from assms(1) consider (fresh) "n = 0" "kv (redis w) ?k = None"
    | (live) ex where "1 \<le> n" "kv (redis w) ?k = Some (CounterDoc n, Some ex)" "minute_end (clock w) \<le> ex"
    by (auto simp: window_at_def)
  then show ?thesis
  proof cases
    case fresh
    then show ?thesis using minute_end [of "clock w"]
      by (simp add: rate_limit_dispatch_def assms(2) bindA_apply thenA_apply Let_def exec_def redis_incr_def redis_get_def alive_def counter_value_def
          redis_expire_def window_at_def)
  next
    case live
    moreover have "clock w < ex" using live(3) minute_end(1) [of "clock w"] by simp
    ultimately show ?thesis
      by (simp add: rate_limit_dispatch_def assms(2) bindA_apply thenA_apply Let_def exec_def redis_incr_def redis_get_def alive_def counter_value_def
          window_at_def)
  qed
qed

lemma dispatch_exempt: "get_limit (hr_path r) = None \<Longrightarrow> rate_limit_dispatch r w = (Inr True, w)"
  by (simp add: rate_limit_dispatch_def)

lemma div_between: "0 \<le> a \<Longrightarrow> 0 \<le> b \<Longrightarrow> (t + (a + b)) div MINUTE = t div MINUTE \<Longrightarrow> (t + a) div MINUTE = t div (MINUTE :: int)"
  using zdiv_mono1 [of t "t + a" MINUTE] zdiv_mono1 [of "t + a" "t + (a + b)" MINUTE] by (simp add: MINUTE_def second_def)

lemma rate_run_admitted:
  assumes "window_at ip n w" and "\<forall>p\<in>set rs. 0 \<le> fst p \<and> client_ip (snd p) = ip"
    and "(clock w + sum_list (map fst rs)) div MINUTE = clock w div MINUTE"
  shows "rate_run rs w = admitted n (map snd rs)"
  using assms
proof (induction rs arbitrary: n w)
  case (Cons p rs)
  obtain s r where p: "p = (s, r)" by force
  have s: "0 \<le> s" "0 \<le> sum_list (map fst rs)" "client_ip r = ip" using Cons.prems(2) p by (auto intro!: sum_list_nonneg)
  have t: "(clock w + s) div MINUTE = clock w div MINUTE" by (rule div_between [OF s(1,2)]) (use Cons.prems(3) p in simp)
  let ?v = "pass_time s w"
  have w: "window_at ip n ?v" by (rule window_later [OF Cons.prems(1) t])
  have v: "clock ?v = clock w + s" by (simp add: pass_time_def)
  have rest: "(clock ?v + sum_list (map fst rs)) div MINUTE = clock ?v div MINUTE" using Cons.prems(3) p t v by (simp add: add.assoc)
  show ?case
  proof (cases "get_limit (hr_path r)")
    case None
    have "rate_run rs ?v = admitted n (map snd rs)" using Cons.IH [OF w _ rest] Cons.prems(2) p by simp
    then show ?thesis by (simp add: p None dispatch_exempt exec_def)
  next
    case (Some l)
    note d = dispatch_counts [OF w [folded s(3)] Some]
    have "rate_run rs (exec (rate_limit_dispatch r) ?v) = admitted (n + 1) (map snd rs)"
      by (rule Cons.IH) (use d s(3) Cons.prems(2) p rest in auto)
    with d show ?thesis by (simp add: p Some)
  qed
qed simp

lemma limits_bounded: "get_limit p = Some l \<Longrightarrow> l \<le> 100"
  by (auto simp: get_limit_def RATE_LIMITS_def split: if_splits option.splits)

lemma admitted_bounded: "0 \<le> n \<Longrightarrow> \<forall>r\<in>set rs. get_limit (hr_path r) \<noteq> None \<Longrightarrow> int (length (filter (\<lambda>b. b) (admitted n rs))) \<le> max 0 (100 - n)"
proof (induction rs arbitrary: n)
  case (Cons r rs)
  then obtain l where l: "get_limit (hr_path r) = Some l" by auto
  note limits_bounded [OF l]
  moreover have "int (length (filter (\<lambda>b. b) (admitted (n + 1) rs))) \<le> max 0 (100 - (n + 1))" using Cons by (intro Cons.IH) auto
  ultimately show ?case by (auto simp: l max_def split: if_splits)
qed simp

text \<open>
  C13: the rate limit is a counter per client and minute. Whatever requests a client sends within one minute, each request to a limited
  path passes exactly when the client's requests so far, over all limited paths, do not exceed the limit of its own path; so requests to one
  path use up the limits of all others, and in all at most a hundred pass. The address of Meta's webhook is a limited path, and the limit of
  the login codes is ten a minute where the documentation of the middleware promises five and no limit on webhooks.
\<close>

theorem rate_limit_exact:
  assumes "kv (redis w) (window_key ip (clock w)) = None" and "\<forall>p\<in>set rs. 0 \<le> fst p \<and> client_ip (snd p) = ip"
    and "(clock w + sum_list (map fst rs)) div MINUTE = clock w div MINUTE"
  shows "rate_run rs w = admitted 0 (map snd rs)
     \<and> ((\<forall>p\<in>set rs. get_limit (hr_path (snd p)) \<noteq> None) \<longrightarrow> length (filter (\<lambda>b. b) (rate_run rs w)) \<le> 100)
     \<and> get_limit ''/api/v1/webhooks/whatsapp'' = Some 100 \<and> get_limit ''/api/v1/auth/otp/request'' = Some 10"
proof -
  have "window_at ip 0 w" using assms(1) by (simp add: window_at_def)
  from rate_run_admitted [OF this assms(2,3)] have run: "rate_run rs w = admitted 0 (map snd rs)" .
  moreover have "length (filter (\<lambda>b. b) (rate_run rs w)) \<le> 100" if "\<forall>p\<in>set rs. get_limit (hr_path (snd p)) \<noteq> None"
    using admitted_bounded [of 0 "map snd rs"] that by (auto simp: run)
  moreover have "get_limit ''/api/v1/webhooks/whatsapp'' = Some 100" "get_limit ''/api/v1/auth/otp/request'' = Some 10"
    by (simp_all add: get_limit_def EXEMPT_PREFIXES_def RATE_LIMITS_def startswith_def)
  ultimately show ?thesis by blast
qed

section \<open>Witnesses\<close>

definition meta_lib :: webhook_lib where
  "meta_lib = \<lparr>wl_hexdigest = (\<lambda>k b. ''d''), wl_loads = (\<lambda>b. Some (cloud_payload [contact ''Ada'' ''234''] [text_message ''wamid1'' ''234'' ''Hello '']))\<rparr>"

theorem webhook_authentic_witness:
  "receive_whatsapp_message meta_lib ''k'' ''t1'' ''body'' (Some ''sha256=x'') empty_world = (Inl InvalidWebhookSignatureError, empty_world)"
  using webhook_authentic [of "''k''" "Some ''sha256=x''" meta_lib "''body''" "''t1''" empty_world] by (simp add: meta_lib_def)

theorem webhook_message_stored_once_witness:
  "\<exists>w1 w2 m. w1 = webhook_requests meta_lib ''k'' ''t1'' ''body'' (Some ''sha256=d'') 3 empty_world
     \<and> w2 = register_message_received_handler (published w1) w1 \<and> messages w2 = [m] \<and> m_content m = strip ''Hello ''"
proof -
  have s: "strip ''Hello '' \<noteq> []" "strip ''234'' \<noteq> []" by code_simp+
  have h: "wf_inbound empty_world" "authentic meta_lib ''k'' ''body'' (Some ''sha256=d'')" "acceptable ''t1'' ''234'' ''Hello ''"
    "wl_loads meta_lib ''body'' = Some (cloud_payload [contact ''Ada'' ''234''] (text_message ''wamid1'' ''234'' ''Hello '' # []))"
    by (simp_all add: wf_inbound_empty authentic_def meta_lib_def acceptable_def)
  from webhook_message_stored_once [OF h _ s(2,1), where n = 2] show ?thesis
    by (simp add: empty_world_def numeral_3_eq_3 numeral_2_eq_2) blast
qed

definition from_ip :: "string \<Rightarrow> int \<times> http_request" where
  "from_ip path = (1, \<lparr>hr_path = path, hr_forwarded = None, hr_host = Some ''1.2.3.4''\<rparr>)"

theorem rate_limit_exact_witness:
  "rate_run (replicate 10 (from_ip ''/api/v1/orders'') @ [from_ip ''/api/v1/auth/otp/request'']) empty_world = replicate 10 True @ [False]"
proof -
  let ?rs = "replicate 10 (from_ip ''/api/v1/orders'') @ [from_ip ''/api/v1/auth/otp/request'']"
  have ip: "client_ip (snd (from_ip p)) = ''1.2.3.4''" for p
    by (simp add: from_ip_def client_ip_def or_empty_def split_on_def strip_def rstrip_def lstrip_def)
  have "rate_run ?rs empty_world = admitted 0 (map snd ?rs)"
    using rate_limit_exact [of empty_world "''1.2.3.4''" ?rs] ip
    by (simp add: empty_world_def empty_redis_def MINUTE_def second_def sum_list_replicate) (simp add: from_ip_def)
  then show ?thesis
    by (simp add: from_ip_def numeral_eq_Suc get_limit_def EXEMPT_PREFIXES_def RATE_LIMITS_def startswith_def)
qed

end
