(* ===== verification/Channel_Connect.thy ===== *)
theory Channel_Connect
  imports Channels Event_Bus Pystring
begin

text \<open>
  Connecting a WhatsApp account (\<open>src/app/modules/channels/service.py\<close>, \<open>router.py\<close>): the token is encrypted, the
  channel stored, \<open>channel.connected\<close> published and the webhook registered with Meta in at most two attempts; and the list of a tenant's channels. The cipher and Meta's Graph API are a parameter.
\<close>

section \<open>Meta's Graph API\<close>

text \<open>
  The answer to a request: no answer (\<open>httpx.RequestError\<close>), or a status, the text and what
  \<open>response.json()\<close> gives, which raises when the text is not JSON.
\<close>

datatype 'a meta_reply = NoAnswer string | Answer nat string "error + 'a"

record meta_api =
  ma_encrypt :: "string \<Rightarrow> error + string"
  ma_subscribe :: "nat \<Rightarrow> string \<Rightarrow> string \<Rightarrow> jval meta_reply"
  ma_exchange :: "string \<Rightarrow> jval meta_reply"
  ma_str :: "jval \<Rightarrow> string"

definition json_field :: "jval \<Rightarrow> string \<Rightarrow> error + jval" where
  "json_field j k = (case j of JObj p \<Rightarrow> Inr (payload_get p k JNull) | _ \<Rightarrow> Inl (AttributeError ''get''))"

definition WEBHOOK_MAX_RETRIES :: nat where
  "WEBHOOK_MAX_RETRIES = 2"

text \<open>One attempt: registered, or not registered and another attempt may follow; an unreadable answer raises.\<close>

definition register_attempt :: "jval meta_reply \<Rightarrow> error + bool" where
  "register_attempt r = (case r of
     NoAnswer e \<Rightarrow> Inr False
   | Answer st txt js \<Rightarrow> if st = 200 then (case js of Inl e \<Rightarrow> Inl e
         | Inr j \<Rightarrow> (case json_field j ''success'' of Inl e \<Rightarrow> Inl e | Inr v \<Rightarrow> Inr (jtruthy v)))
       else Inr False)"

fun register_attempts :: "meta_api \<Rightarrow> string \<Rightarrow> string \<Rightarrow> nat list \<Rightarrow> error + bool" where
  "register_attempts ma pid token [] = Inr False"
| "register_attempts ma pid token (n # ns) = (case register_attempt (ma_subscribe ma n pid token) of
     Inl e \<Rightarrow> Inl e
   | Inr True \<Rightarrow> Inr True
   | Inr False \<Rightarrow> register_attempts ma pid token ns)"

definition register_webhook :: "meta_api \<Rightarrow> string \<Rightarrow> string \<Rightarrow> error + bool" where
  "register_webhook ma pid token = register_attempts ma pid token [1..<Suc WEBHOOK_MAX_RETRIES]"

definition emit_connected_event :: "string \<Rightarrow> string \<Rightarrow> unit svc" where
  "emit_connected_event tid ch = emit ''channel.connected'' tid [(''channel'', JStr ch), (''tenant_id'', JStr tid)]"

section \<open>The service\<close>

record connect_request =
  wc_tenant_id :: string
  wc_phone_number_id :: string
  wc_access_token :: string

text \<open>The request as its schema validates it; the fields are stripped first.\<close>

definition sized :: "nat \<Rightarrow> nat \<Rightarrow> string \<Rightarrow> bool" where
  "sized lo hi s \<longleftrightarrow> lo \<le> length s \<and> length s \<le> hi"

definition make_connect_request :: "string \<Rightarrow> string \<Rightarrow> string \<Rightarrow> error + connect_request" where
  "make_connect_request tid pid token = (if sized 1 36 (strip tid) \<and> sized 1 64 (strip pid) \<and> 10 \<le> length token
     then Inr \<lparr>wc_tenant_id = strip tid, wc_phone_number_id = strip pid, wc_access_token = token\<rparr>
     else Inl (ValueError ''validation error for WhatsAppConnectRequest''))"

record signup_request =
  sr_tenant_id :: string
  sr_code :: string
  sr_phone_number_id :: string

definition make_signup_request :: "string \<Rightarrow> string \<Rightarrow> string \<Rightarrow> string \<Rightarrow> error + signup_request" where
  "make_signup_request tid code pid waba = (if sized 1 36 (strip tid) \<and> code \<noteq> [] \<and> sized 1 64 (strip pid) \<and> sized 1 64 (strip waba)
     then Inr \<lparr>sr_tenant_id = strip tid, sr_code = code, sr_phone_number_id = strip pid\<rparr>
     else Inl (ValueError ''validation error for WhatsAppEmbeddedSignupRequest''))"

record connect_response =
  co_phone_number_id :: string
  co_webhook_registered :: bool

definition connect :: "meta_api \<Rightarrow> connect_request \<Rightarrow> connect_response svc" where
  "connect ma rq = bindA (liftE (ma_encrypt ma (wc_access_token rq))) (\<lambda>encrypted.
     bindA (channel_upsert (wc_tenant_id rq) ''whatsapp'' (wc_phone_number_id rq) encrypted False) (\<lambda>_.
     thenA (emit_connected_event (wc_tenant_id rq) ''whatsapp'')
     (bindA (liftE (register_webhook ma (wc_phone_number_id rq) (wc_access_token rq))) (\<lambda>webhook_ok.
     thenA (if webhook_ok then mark_webhook_registered (wc_tenant_id rq) ''whatsapp'' else ret ())
       (ret \<lparr>co_phone_number_id = wc_phone_number_id rq, co_webhook_registered = webhook_ok\<rparr>)))))"

definition exchange_code :: "meta_api \<Rightarrow> string \<Rightarrow> error + string" where
  "exchange_code ma code = (case ma_exchange ma code of
     NoAnswer e \<Rightarrow> Inl (DispatchError e)
   | Answer st txt js \<Rightarrow> if \<not> (200 \<le> st \<and> st < 300) then Inl (DispatchError txt)
       else (case js of Inl e \<Rightarrow> Inl e | Inr j \<Rightarrow> (case json_field j ''access_token'' of
           Inl e \<Rightarrow> Inl e
         | Inr v \<Rightarrow> if \<not> jtruthy v then Inl (ValueError ''Meta code exchange returned no access_token'')
             else Inr (case v of JStr t \<Rightarrow> t | _ \<Rightarrow> ma_str ma v))))"

definition connect_from_embedded_signup :: "meta_api \<Rightarrow> signup_request \<Rightarrow> connect_response svc" where
  "connect_from_embedded_signup ma rq = bindA (liftE (exchange_code ma (sr_code rq))) (\<lambda>token.
     bindA (liftE (make_connect_request (sr_tenant_id rq) (sr_phone_number_id rq) token)) (connect ma))"

section \<open>The routes\<close>

text \<open>Each request runs in the session of \<open>get_db\<close>; the tenant of the body is replaced by the user's, except on the development route.\<close>

definition connect_whatsapp :: "meta_api \<Rightarrow> string \<Rightarrow> connect_request \<Rightarrow> connect_response svc" where
  "connect_whatsapp ma user_tenant body = session_begin (connect ma (body\<lparr>wc_tenant_id := user_tenant\<rparr>))"

definition dev_connect_whatsapp :: "meta_api \<Rightarrow> connect_request \<Rightarrow> connect_response svc" where
  "dev_connect_whatsapp ma body = session_begin (connect ma body)"

definition connect_whatsapp_embedded_signup :: "meta_api \<Rightarrow> string \<Rightarrow> signup_request \<Rightarrow> connect_response svc" where
  "connect_whatsapp_embedded_signup ma user_tenant body =
     session_begin (connect_from_embedded_signup ma (body\<lparr>sr_tenant_id := user_tenant\<rparr>))"

definition list_channels :: "string \<Rightarrow> world \<Rightarrow> (string \<times> string \<times> bool) list" where
  "list_channels user_tenant w = map (\<lambda>c. (tc_channel c, tc_phone_number_id c, tc_webhook_registered c)) (list_by_tenant user_tenant w)"

section \<open>Properties\<close>

lemma mark_registered_run:
  assumes "wf_channels w" and "channel_at w tid ch = Some c"
  obtains w' where "mark_webhook_registered tid ch w = (Inr (), w')" and "wf_channels w'"
    and "\<And>t k. channel_at w' t k = (if (t, k) = (tid, ch) then Some (c\<lparr>tc_webhook_registered := True\<rparr>) else channel_at w t k)"
    and "published w' = published w"
proof -
  define f :: "tenant_channel \<Rightarrow> tenant_channel" where "f = (\<lambda>c. c\<lparr>tc_webhook_registered := True\<rparr>)"
  define w' where "w' = w\<lparr>tenant_channels := update_where (\<lambda>x. tc_id x = tc_id c) f (tenant_channels w)\<rparr>"
  note mem = channel_at_SomeD [OF assms(2)]
  have k [simp]: "tc_key (f x) = tc_key x" "tc_id (f x) = tc_id x" for x by (simp_all add: f_def tc_key_def)
  show thesis
  proof (rule that)
    show "mark_webhook_registered tid ch w = (Inr (), w')"
      by (simp add: mark_webhook_registered_def act_simps get_channel_eq [OF assms(1)] assms(2) set_channel_def f_def w'_def)
    show "wf_channels w'"
      using assms(1) by (simp add: wf_channels_def w'_def map_update_where_same image_update_where_same)
    have at: "channel_at w' t k = (if (t, k) = (tid, ch) then Some (f c) else channel_at w t k)" for t k
      using find_update_key [of tc_id "tenant_channels w" c tc_key f "(t, k)"] assms mem
      by (auto simp: channel_at_def w'_def wf_channels_def)
    then show "channel_at w' t k = (if (t, k) = (tid, ch) then Some (c\<lparr>tc_webhook_registered := True\<rparr>) else channel_at w t k)" for t k
      unfolding f_def .
  qed (simp add: w'_def)
qed

lemma upsert_published: "published (snd (channel_upsert tid ch pid token reg w)) = published w"
  using get_channel_state [of tid ch w]
  by (auto simp: channel_upsert_def act_simps set_channel_def Let_def split: prod.splits sum.splits option.splits)

text \<open>
  C34: connecting WhatsApp is an upsert that announces itself first. When the cipher works and Meta's answer can be read, the
  user's tenant has exactly the given number and the encrypted token, marked as registered when one of two attempts
  succeeded, no other channel changes and one event \<open>channel.connected\<close> is published. When the answer cannot be read
  the request raises: the channel is rolled back, although the event is already published.
\<close>

theorem connect_outcome:
  assumes "wf_channels w" and "ma_encrypt ma (wc_access_token rq) = Inr enc"
  shows "case register_webhook ma (wc_phone_number_id rq) (wc_access_token rq) of
      Inr ok \<Rightarrow> \<exists>w' c e. connect_whatsapp ma tid rq w = (Inr \<lparr>co_phone_number_id = wc_phone_number_id rq, co_webhook_registered = ok\<rparr>, w')
        \<and> wf_channels w' \<and> published w' = published w @ [e] \<and> ev_event_name e = ''channel.connected'' \<and> ev_tenant_id e = tid
        \<and> tc_phone_number_id c = wc_phone_number_id rq \<and> tc_encrypted_access_token c = enc \<and> tc_webhook_registered c = ok
        \<and> (\<forall>t k. channel_at w' t k = (if (t, k) = (tid, ''whatsapp'') then Some c else channel_at w t k))
    | Inl err \<Rightarrow> \<exists>w' e. connect_whatsapp ma tid rq w = (Inl err, w') \<and> tenant_channels w' = tenant_channels w
        \<and> published w' = published w @ [e] \<and> ev_event_name e = ''channel.connected''"
proof -
  let ?pid = "wc_phone_number_id rq" and ?ch = "''whatsapp''"
  from channel_upsert_roundtrip [OF assms(1), of tid ?ch ?pid enc False] obtain c created w1 where
    up: "channel_upsert tid ?ch ?pid enc False w = (Inr (c, created), w1)" and wf1: "wf_channels w1"
    and get1: "\<forall>t k. get_by_tenant_and_channel t k w1 = (Inr (if (t, k) = (tid, ?ch) then Some c else channel_at w t k), w1)"
    and c: "tc_phone_number_id c = ?pid" "tc_encrypted_access_token c = enc" "\<not> tc_webhook_registered c" by blast
  have at1: "channel_at w1 t k = (if (t, k) = (tid, ?ch) then Some c else channel_at w t k)" for t k
    using spec [OF spec [OF get1, of t], of k] by (simp only: get_channel_eq [OF wf1] prod.inject sum.inject)
  have p1: "published w1 = published w" using upsert_published [of tid ?ch ?pid enc False w] by (simp add: up)
  define e where "e = \<lparr>ev_event_name = ''channel.connected'', ev_tenant_id = tid,
    ev_payload = [(''channel'', JStr ?ch), (''tenant_id'', JStr tid)], ev_event_id = uuid_src w1 (uuid_n w1), ev_timestamp = clock w1\<rparr>"
  define w2 where "w2 = w1\<lparr>uuid_n := Suc (uuid_n w1), published := published w1 @ [e]\<rparr>"
  have wf2: "wf_channels w2" using wf1 by (simp add: wf_channels_def w2_def)
  have at2: "channel_at w2 t k = channel_at w1 t k" for t k by (simp add: channel_at_def w2_def)
  have e: "ev_event_name e = ''channel.connected''" "ev_tenant_id e = tid" by (simp_all add: e_def)
  have run: "connect_whatsapp ma tid rq w = session_begin (\<lambda>_. bindA (liftE (register_webhook ma ?pid (wc_access_token rq))) (\<lambda>ok.
       thenA (if ok then mark_webhook_registered tid ?ch else ret ()) (ret \<lparr>co_phone_number_id = ?pid, co_webhook_registered = ok\<rparr>)) w2) w"
    by (simp add: connect_whatsapp_def connect_def session_begin_def bindA_apply thenA_apply assms(2) up emit_connected_event_def w2_def e_def split: sum.split)
  show ?thesis
  proof (cases "register_webhook ma ?pid (wc_access_token rq)")
    case (Inl err)
    have "connect_whatsapp ma tid rq w = (Inl err, restore_db w w2)" by (simp add: run session_begin_def bindA_apply Inl)
    moreover have "published (restore_db w w2) = published w @ [e]" "tenant_channels (restore_db w w2) = tenant_channels w"
      by (simp_all add: restore_db_def w2_def p1)
    ultimately show ?thesis using e Inl by auto
  next
    case (Inr ok)
    show ?thesis
    proof (cases ok)
      case True
      have "channel_at w2 tid ?ch = Some c" by (simp add: at2 at1)
      then obtain w3 where
        m: "mark_webhook_registered tid ?ch w2 = (Inr (), w3)" and w3: "wf_channels w3" "published w3 = published w2"
          "\<And>t k. channel_at w3 t k = (if (t, k) = (tid, ?ch) then Some (c\<lparr>tc_webhook_registered := True\<rparr>) else channel_at w2 t k)"
        using mark_registered_run [OF wf2] by metis
      define c' where "c' = c\<lparr>tc_webhook_registered := True\<rparr>"
      have 1: "connect_whatsapp ma tid rq w = (Inr \<lparr>co_phone_number_id = ?pid, co_webhook_registered = ok\<rparr>, w3)"
        by (simp add: run session_begin_def bindA_apply thenA_apply Inr True m)
      have 2: "published w3 = published w @ [e]" by (simp add: w3(2) w2_def p1)
      have 3: "\<forall>t k. channel_at w3 t k = (if (t, k) = (tid, ?ch) then Some c' else channel_at w t k)"
        by (simp add: w3(3) at2 at1 c'_def)
      have 4: "tc_phone_number_id c' = ?pid" "tc_encrypted_access_token c' = enc" "tc_webhook_registered c' = ok"
        using c True by (simp_all add: c'_def)
      show ?thesis unfolding Inr sum.case by (intro exI conjI) (fact 1 w3(1) 2 e 4 3)+
    next
      case False
      have 1: "connect_whatsapp ma tid rq w = (Inr \<lparr>co_phone_number_id = ?pid, co_webhook_registered = ok\<rparr>, w2)"
        by (simp add: run session_begin_def bindA_apply thenA_apply Inr False)
      have 2: "published w2 = published w @ [e]" by (simp add: w2_def p1)
      have 3: "\<forall>t k. channel_at w2 t k = (if (t, k) = (tid, ?ch) then Some c else channel_at w t k)" by (simp add: at2 at1)
      have 4: "tc_webhook_registered c = ok" using c False by simp
      show ?thesis unfolding Inr sum.case by (intro exI conjI) (fact 1 wf2 2 e c(1,2) 4 3)+
    qed
  qed
qed

text \<open>Meta that answers the second attempt, and Meta whose success page is not JSON.\<close>

definition slow_meta :: meta_api where
  "slow_meta = \<lparr>ma_encrypt = (\<lambda>s. Inr (''enc-'' @ s)), ma_subscribe = (\<lambda>n _ _. if n = 1 then NoAnswer ''timeout''
       else Answer 200 ''ok'' (Inr (JObj [(''success'', JBool True)]))), ma_exchange = (\<lambda>_. NoAnswer []), ma_str = (\<lambda>_. [])\<rparr>"

definition html_meta :: meta_api where
  "html_meta = slow_meta\<lparr>ma_subscribe := (\<lambda>_ _ _. Answer 200 ''<html>'' (Inl (ValueError ''Expecting value'')))\<rparr>"

theorem connect_outcome_witness:
  "(\<exists>w' c. connect_whatsapp slow_meta ''t1'' \<lparr>wc_tenant_id = ''x'', wc_phone_number_id = ''p2'', wc_access_token = ''tok''\<rparr> one_channel
        = (Inr \<lparr>co_phone_number_id = ''p2'', co_webhook_registered = True\<rparr>, w')
      \<and> channel_at w' ''t1'' ''whatsapp'' = Some c \<and> tc_encrypted_access_token c = ''enc-tok'')
   \<and> (\<exists>w' e. connect_whatsapp html_meta ''t1'' \<lparr>wc_tenant_id = ''x'', wc_phone_number_id = ''p2'', wc_access_token = ''tok''\<rparr> one_channel
        = (Inl (ValueError ''Expecting value''), w') \<and> tenant_channels w' = tenant_channels one_channel \<and> published w' = published one_channel @ [e])"
proof -
  let ?rq = "\<lparr>wc_tenant_id = ''x'', wc_phone_number_id = ''p2'', wc_access_token = ''tok''\<rparr>"
  have e1: "ma_encrypt slow_meta (wc_access_token ?rq) = Inr ''enc-tok''" by (simp add: slow_meta_def)
  have e2: "ma_encrypt html_meta (wc_access_token ?rq) = Inr ''enc-tok''" by (simp add: html_meta_def slow_meta_def)
  have two: "[1..<Suc WEBHOOK_MAX_RETRIES] = [1, 2]" by (simp add: WEBHOOK_MAX_RETRIES_def upt_rec)
  have r: "register_webhook slow_meta (wc_phone_number_id ?rq) (wc_access_token ?rq) = Inr True"
    "register_webhook html_meta (wc_phone_number_id ?rq) (wc_access_token ?rq) = Inl (ValueError ''Expecting value'')"
    unfolding register_webhook_def two
    by (simp_all add: register_attempt_def slow_meta_def html_meta_def json_field_def payload_get_def)
  from connect_outcome [OF wf_one_channel e1, of "''t1''"] connect_outcome [OF wf_one_channel e2, of "''t1''"] show ?thesis
    unfolding r by auto
qed

end
