(* ===== verification/Startup.thy ===== *)
theory Startup
  imports Channel_Connect Auth
begin

text \<open>
  What the process writes when it starts (\<open>src/app/main.py\<close>): the platform's own WhatsApp channel and the platform's
  administrator, both from the environment.
\<close>

section \<open>Seeds\<close>

record platform_settings =
  ps_tenant_id :: string
  ps_phone_number_id :: string
  ps_access_token :: string
  ps_admin_phone :: string
  ps_admin_email :: string
  ps_admin_password :: string

definition seed_platform_channel :: "meta_api \<Rightarrow> platform_settings \<Rightarrow> unit svc" where
  "seed_platform_channel ma ps = (if ps_tenant_id ps = [] \<or> ps_phone_number_id ps = [] \<or> ps_access_token ps = [] then ret ()
     else session_begin (bindA (get_by_tenant_and_channel (ps_tenant_id ps) ''whatsapp'') (\<lambda>existing. case existing of
       Some _ \<Rightarrow> ret ()
     | None \<Rightarrow> bindA (liftE (ma_encrypt ma (ps_access_token ps))) (\<lambda>encrypted.
         thenA (channel_upsert (ps_tenant_id ps) ''whatsapp'' (ps_phone_number_id ps) encrypted True) (ret ())))))"

definition admin_phone :: "platform_settings \<Rightarrow> string" where
  "admin_phone ps = (let ds = filter is_digit (ps_admin_phone ps) in if length ds = 11 \<and> startswith ds ''0'' then ''234'' @ tl ds else ds)"

definition set_superadmin :: "user \<Rightarrow> unit svc" where
  "set_superadmin u = modA (\<lambda>w. w\<lparr>users := update_where (\<lambda>v. u_id v = u_id u) (\<lambda>v. v\<lparr>u_is_superadmin := True\<rparr>) (users w)\<rparr>)"

definition seed_superadmin :: "authlib \<Rightarrow> platform_settings \<Rightarrow> unit svc" where
  "seed_superadmin al ps = (if ps_admin_phone ps = [] \<or> ps_admin_email ps = [] \<or> ps_admin_password ps = [] then ret ()
     else session_begin (bindA (get_user_by_phone (admin_phone ps)) (\<lambda>existing. case existing of
       Some u \<Rightarrow> if u_is_superadmin u then ret () else set_superadmin u
     | None \<Rightarrow> bindA (create_user (ps_admin_email ps) (Some (al_hash al (ps_admin_password ps))) EMAIL (Some ''Platform Admin'') (Some (admin_phone ps))) (\<lambda>u.
         thenA (set_superadmin u)
         (bindA (create_tenant (Some ''ChatToSales Admin'')) (\<lambda>t. thenA (create_user_tenant (u_id u) (tn_id t) ''owner'') (ret ())))))))"

definition startup :: "meta_api \<Rightarrow> authlib \<Rightarrow> platform_settings \<Rightarrow> unit svc" where
  "startup ma al ps = thenA (seed_platform_channel ma ps) (seed_superadmin al ps)"

section \<open>A seed that has run stays\<close>

definition channel_seeded :: "platform_settings \<Rightarrow> world \<Rightarrow> bool" where
  "channel_seeded ps w \<longleftrightarrow> ps_tenant_id ps = [] \<or> ps_phone_number_id ps = [] \<or> ps_access_token ps = []
     \<or> (\<exists>c. get_by_tenant_and_channel (ps_tenant_id ps) ''whatsapp'' w = (Inr (Some c), w))"

definition admin_seeded :: "platform_settings \<Rightarrow> world \<Rightarrow> bool" where
  "admin_seeded ps w \<longleftrightarrow> ps_admin_phone ps = [] \<or> ps_admin_email ps = [] \<or> ps_admin_password ps = []
     \<or> (\<exists>u. get_user_by_phone (admin_phone ps) w = (Inr (Some u), w) \<and> u_is_superadmin u)"

lemma seeded_channel_quiet: "channel_seeded ps w \<Longrightarrow> seed_platform_channel ma ps w = (Inr (), w)"
  by (auto simp: channel_seeded_def seed_platform_channel_def session_begin_def bindA_apply)

lemma seeded_admin_quiet: "admin_seeded ps w \<Longrightarrow> seed_superadmin al ps w = (Inr (), w)"
  by (auto simp: admin_seeded_def seed_superadmin_def session_begin_def bindA_apply)

lemma one_or_none_Inr: "scalar_one_or_none xs = Inr r \<longleftrightarrow> (case r of None \<Rightarrow> xs = [] | Some x \<Rightarrow> xs = [x])"
  by (cases xs rule: scalar_one_or_none.cases) (auto split: option.splits)

lemma channel_seeds: "seed_platform_channel ma ps w = (Inr (), w') \<Longrightarrow> channel_seeded ps w' \<and> users w' = users w"
proof (cases "ps_tenant_id ps = [] \<or> ps_phone_number_id ps = [] \<or> ps_access_token ps = []")
  case True
  moreover assume "seed_platform_channel ma ps w = (Inr (), w')"
  ultimately show ?thesis by (auto simp: seed_platform_channel_def channel_seeded_def)
next
  case False
  let ?k = "\<lambda>c. (tc_tenant_id c, tc_channel c) = (ps_tenant_id ps, ''whatsapp'') \<and> True"
  assume run: "seed_platform_channel ma ps w = (Inr (), w')"
  obtain r where g: "get_by_tenant_and_channel (ps_tenant_id ps) ''whatsapp'' w = (r, w)"
    using get_channel_state [of "ps_tenant_id ps" "''whatsapp''" w] by (metis prod.collapse)
  show ?thesis
  proof (cases "\<exists>c. r = Inr (Some c)")
    case True
    with run False g show ?thesis by (auto simp: seed_platform_channel_def session_begin_def bindA_apply channel_seeded_def)
  next
    case none: False
    with run False g have r: "r = Inr None" by (auto simp: seed_platform_channel_def session_begin_def bindA_apply split: sum.splits option.splits)
    then have "filter ?k (tenant_channels w) = []"
      using g by (auto simp: get_by_tenant_and_channel_def bindA_apply one_or_none_Inr)
    with run False g r show ?thesis
      by (auto simp: seed_platform_channel_def session_begin_def act_simps channel_upsert_def Let_def channel_seeded_def
          get_by_tenant_and_channel_def split: sum.splits)
  qed
qed

lemma admin_seeds: "seed_superadmin al ps w = (Inr (), w') \<Longrightarrow> admin_seeded ps w' \<and> tenant_channels w' = tenant_channels w"
proof (cases "ps_admin_phone ps = [] \<or> ps_admin_email ps = [] \<or> ps_admin_password ps = []")
  case True
  moreover assume "seed_superadmin al ps w = (Inr (), w')"
  ultimately show ?thesis by (auto simp: seed_superadmin_def admin_seeded_def)
next
  case False
  let ?p = "\<lambda>u. u_phone_number u = Some (admin_phone ps)"
  assume run: "seed_superadmin al ps w = (Inr (), w')"
  obtain r where g: "get_user_by_phone (admin_phone ps) w = (r, w)" and r: "r = scalar_one_or_none (filter ?p (users w))"
    by (simp add: get_user_by_phone_def bindA_apply)
  have found: "admin_seeded ps v" if "filter ?p (users v) = [u]" "u_is_superadmin u" for u v
    using that by (auto simp: admin_seeded_def get_user_by_phone_def bindA_apply)
  show ?thesis
  proof (cases "filter ?p (users w) = []")
    case True
    have none: "filter ?p (update_where (\<lambda>v. u_id v = i) (u_is_superadmin_update (\<lambda>_. True)) (users w)) = []" for i
      using True by (auto simp: filter_empty_conv update_where_def)
    from True have "r = Inr None" by (simp add: r)
    with run False g none show ?thesis
      by (auto simp: seed_superadmin_def session_begin_def act_simps create_user_def set_superadmin_def create_tenant_def create_user_tenant_def
          Let_def update_where_append split: if_splits intro!: found)
  next
    case some: False
    with run False g r obtain u where one: "filter ?p (users w) = [u]"
      by (cases "filter ?p (users w)" rule: scalar_one_or_none.cases) (auto simp: seed_superadmin_def session_begin_def bindA_apply)
    have "filter ?p (update_where (\<lambda>v. u_id v = i) (u_is_superadmin_update (\<lambda>_. True)) xs)
        = map (\<lambda>v. if u_id v = i then v\<lparr>u_is_superadmin := True\<rparr> else v) (filter ?p xs)" for i xs
      by (induction xs) (auto simp: update_where_def)
    note flagged = this
    have some: "get_user_by_phone (admin_phone ps) w = (Inr (Some u), w)" using g r one by simp
    show ?thesis
    proof (cases "u_is_superadmin u")
      case True
      with run False some have "w' = w" by (simp add: seed_superadmin_def session_begin_def act_simps)
      with found [OF one True] show ?thesis by simp
    next
      case no: False
      with run False some have "w' = w\<lparr>users := update_where (\<lambda>v. u_id v = u_id u) (\<lambda>v. v\<lparr>u_is_superadmin := True\<rparr>) (users w)\<rparr>"
        by (simp add: seed_superadmin_def session_begin_def act_simps set_superadmin_def)
      with one show ?thesis using found [of w' "u\<lparr>u_is_superadmin := True\<rparr>"] by (simp add: flagged)
    qed
  qed
qed

section \<open>Properties\<close>

text \<open>
  A restart repeats nothing. When the process has started, starting it again with the same environment changes nothing at all.
  It does not start when the administrator's e-mail address already belongs to a user with another phone number:
  the seed looks users up by phone only, and the insertion raises.
\<close>

theorem startup_idempotent:
  assumes "startup ma al ps w = (Inr (), w')"
  shows "startup ma al ps w' = (Inr (), w')
    \<and> (\<forall>v u. get_user_by_phone (admin_phone ps) v = (Inr None, v) \<and> u \<in> set (users v) \<and> u_email u = ps_admin_email ps
         \<and> ps_admin_phone ps \<noteq> [] \<and> ps_admin_email ps \<noteq> [] \<and> ps_admin_password ps \<noteq> []
       \<longrightarrow> (\<exists>e. fst (startup ma al ps v) = Inl e))"
proof (intro conjI allI impI)
  from assms obtain w1 where w1: "seed_platform_channel ma ps w = (Inr (), w1)" and w2: "seed_superadmin al ps w1 = (Inr (), w')"
    by (auto simp: startup_def thenA_apply split: prod.splits sum.splits)
  have c: "channel_seeded ps w1" using channel_seeds [OF w1] by blast
  have t: "tenant_channels w' = tenant_channels w1" and a: "admin_seeded ps w'" using admin_seeds [OF w2] by simp_all
  have "channel_seeded ps w'" using c t by (auto simp: channel_seeded_def get_by_tenant_and_channel_def bindA_apply split: sum.splits)
  then show "startup ma al ps w' = (Inr (), w')" by (simp add: startup_def thenA_apply seeded_channel_quiet seeded_admin_quiet [OF a])
next
  fix v u
  assume v: "get_user_by_phone (admin_phone ps) v = (Inr None, v) \<and> u \<in> set (users v) \<and> u_email u = ps_admin_email ps
         \<and> ps_admin_phone ps \<noteq> [] \<and> ps_admin_email ps \<noteq> [] \<and> ps_admin_password ps \<noteq> []"
  obtain r v1 where s: "seed_platform_channel ma ps v = (r, v1)" by fastforce
  show "\<exists>e. fst (startup ma al ps v) = Inl e"
  proof (cases r)
    case (Inr x)
    with channel_seeds [of ma ps v v1] s have us: "users v1 = users v" by simp
    then have "get_user_by_phone (admin_phone ps) v1 = (Inr None, v1)" using v by (auto simp: get_user_by_phone_def bindA_apply split: sum.splits)
    moreover have "ps_admin_email ps \<in> u_email ` set (users v)" using v by force
    ultimately show ?thesis using v us s Inr
      by (auto simp: startup_def thenA_apply seed_superadmin_def session_begin_def bindA_apply create_user_def)
  qed (simp add: startup_def thenA_apply s)
qed

definition sample_settings :: platform_settings where
  "sample_settings = \<lparr>ps_tenant_id = ''t1'', ps_phone_number_id = ''p1'', ps_access_token = ''token'', ps_admin_phone = ''0801 234 5678'',
     ps_admin_email = ''a@b.c'', ps_admin_password = ''pw''\<rparr>"

theorem startup_idempotent_witness:
  "\<exists>w'. startup slow_meta plain_lib sample_settings empty_world = (Inr (), w') \<and> startup slow_meta plain_lib sample_settings w' = (Inr (), w')
     \<and> length (users w') = 1 \<and> length (tenant_channels w') = 1"
proof -
  have "\<exists>w'. startup slow_meta plain_lib sample_settings empty_world = (Inr (), w') \<and> length (users w') = 1 \<and> length (tenant_channels w') = 1"
    by (simp add: startup_def sample_settings_def seed_platform_channel_def seed_superadmin_def session_begin_def act_simps get_by_tenant_and_channel_def
        channel_upsert_def slow_meta_def get_user_by_phone_def create_user_def create_tenant_def create_user_tenant_def set_superadmin_def
        empty_world_def Let_def update_where_def)
  then obtain w' where w': "startup slow_meta plain_lib sample_settings empty_world = (Inr (), w')" "length (users w') = 1" "length (tenant_channels w') = 1"
    by blast
  from startup_idempotent [OF w'(1)] w' show ?thesis by blast
qed

end
