(* ===== verification/Event_Notices.thy ===== *)
theory Event_Notices
  imports Conversations Order_Service Broadcast Delivery
begin

text \<open>
  The messages a customer gets when something is published about an order (\<open>src/app/modules/notifications/handlers.py\<close>):
  an order was created, it was confirmed or paid, its payment arrived. Each handler looks up the phone number
  through the conversation and sends one message under the event's identifier.
\<close>

section \<open>Messages\<close>

definition short_id :: "string \<Rightarrow> string" where
  "short_id oid = upper (drop (length oid - 8) oid)"

definition MSG_ORDER_CREATED :: "string \<Rightarrow> string" where
  "MSG_ORDER_CREATED s = ''Hi! Your order ('' @ s @ '') has been created. Please confirm to proceed.''"

definition MSG_ORDER_CONFIRMED :: "string \<Rightarrow> string" where
  "MSG_ORDER_CONFIRMED s = ''Your order ('' @ s @ '') is confirmed! Please proceed to payment.''"

definition MSG_ORDER_PAID :: "string \<Rightarrow> string" where
  "MSG_ORDER_PAID s = ''Payment received for order '' @ s @ ''. Your order is being processed.''"

definition MSG_PAYMENT_CONFIRMED :: "string \<Rightarrow> string" where
  "MSG_PAYMENT_CONFIRMED s = ''Payment successful! Thank you for your purchase (order '' @ s @ ''). We'' @ [CHR 39] @ ''ll keep you updated.''"

text \<open>The message for a new state, if there is one.\<close>

definition state_message :: "string \<Rightarrow> (string \<Rightarrow> string) option" where
  "state_message st = map_of [(order_state_value CONFIRMED, MSG_ORDER_CONFIRMED), (order_state_value PAID, MSG_ORDER_PAID)] st"

section \<open>Phone lookup\<close>

definition phone_from_conversation :: "string \<Rightarrow> string \<Rightarrow> string option svc" where
  "phone_from_conversation cid tid = bindA (get_conversation_by_id cid (Some tid)) (\<lambda>c. case c of
     None \<Rightarrow> ret None | Some c \<Rightarrow> ret (Some (cv_customer_identifier c)))"

definition phone_from_order :: "string \<Rightarrow> string \<Rightarrow> string option svc" where
  "phone_from_order oid tid = bindA (get_by_id oid (Some tid)) (\<lambda>x. case x of
     None \<Rightarrow> ret None | Some x \<Rightarrow> phone_from_conversation (o_conversation_id x) tid)"

section \<open>Handlers\<close>

definition notify_customer :: "gateway \<Rightarrow> string option svc \<Rightarrow> string \<Rightarrow> event \<Rightarrow> string \<Rightarrow> string \<Rightarrow> unit svc" where
  "notify_customer gw phone tid e oid msg = session_begin (bindA phone (\<lambda>p. case p of
     None \<Rightarrow> ret ()
   | Some p \<Rightarrow> send_message gw tid (ev_event_id e) p (Plain msg) ''whatsapp'' (Some oid) None))"

definition handle_order_created_notification :: "gateway \<Rightarrow> event \<Rightarrow> unit svc" where
  "handle_order_created_notification gw e = (let tid = ev_tenant_id e; oid = payload_str (ev_payload e) ''order_id'';
       cid = payload_str (ev_payload e) ''conversation_id'' in
     if tid = [] \<or> oid = [] \<or> cid = [] then ret ()
     else notify_customer gw (phone_from_conversation cid tid) tid e oid (MSG_ORDER_CREATED (short_id oid)))"

definition handle_order_state_changed_notification :: "gateway \<Rightarrow> event \<Rightarrow> unit svc" where
  "handle_order_state_changed_notification gw e = (let tid = ev_tenant_id e; oid = payload_str (ev_payload e) ''order_id'';
       cid = payload_str (ev_payload e) ''conversation_id''; st = payload_str (ev_payload e) ''new_state'' in
     if tid = [] \<or> oid = [] \<or> cid = [] \<or> st = [] then ret ()
     else case state_message st of None \<Rightarrow> ret ()
       | Some msg \<Rightarrow> notify_customer gw (phone_from_conversation cid tid) tid e oid (msg (short_id oid)))"

definition handle_payment_confirmed_notification :: "gateway \<Rightarrow> event \<Rightarrow> unit svc" where
  "handle_payment_confirmed_notification gw e = (let t = payload_str (ev_payload e) ''tenant_id'';
       tid = (if t = [] then ev_tenant_id e else t); oid = payload_str (ev_payload e) ''order_id'' in
     if tid = [] \<or> oid = [] then ret ()
     else notify_customer gw (phone_from_order oid tid) tid e oid (MSG_PAYMENT_CONFIRMED (short_id oid)))"

definition register_order_created_notification_handler :: "gateway \<Rightarrow> event list \<Rightarrow> world \<Rightarrow> world" where
  "register_order_created_notification_handler gw = create_global_listener_task ''order.created'' (handle_order_created_notification gw)"

definition register_order_state_changed_notification_handler :: "gateway \<Rightarrow> event list \<Rightarrow> world \<Rightarrow> world" where
  "register_order_state_changed_notification_handler gw =
     create_global_listener_task ''order.state_changed'' (handle_order_state_changed_notification gw)"

definition register_payment_confirmed_notification_handler :: "gateway \<Rightarrow> event list \<Rightarrow> world \<Rightarrow> world" where
  "register_payment_confirmed_notification_handler gw =
     create_global_listener_task ''payment.confirmed'' (handle_payment_confirmed_notification gw)"

section \<open>What is due\<close>

datatype notice_kind = OrderCreated | OrderStateChanged | PaymentConfirmed

fun notice_handler :: "notice_kind \<Rightarrow> gateway \<Rightarrow> event \<Rightarrow> unit svc" where
  "notice_handler OrderCreated = handle_order_created_notification"
| "notice_handler OrderStateChanged = handle_order_state_changed_notification"
| "notice_handler PaymentConfirmed = handle_payment_confirmed_notification"

text \<open>The customer's number in a conversation of the tenant, and the message an event asks for: tenant, number and text.\<close>

definition conversation_phone :: "string \<Rightarrow> string \<Rightarrow> world \<Rightarrow> string option" where
  "conversation_phone cid tid w = map_option cv_customer_identifier (find (\<lambda>c. cv_id c = cid \<and> scoped (Some tid) (cv_tenant_id c)) (conversations w))"

definition event_order :: "event \<Rightarrow> string" where
  "event_order e = payload_str (ev_payload e) ''order_id''"

definition event_conversation :: "event \<Rightarrow> string" where
  "event_conversation e = payload_str (ev_payload e) ''conversation_id''"

fun notice :: "notice_kind \<Rightarrow> event \<Rightarrow> world \<Rightarrow> (string \<times> string \<times> string) option" where
  "notice OrderCreated e w = (if ev_tenant_id e = [] \<or> event_order e = [] \<or> event_conversation e = [] then None
     else map_option (\<lambda>p. (ev_tenant_id e, p, MSG_ORDER_CREATED (short_id (event_order e)))) (conversation_phone (event_conversation e) (ev_tenant_id e) w))"
| "notice OrderStateChanged e w = (if ev_tenant_id e = [] \<or> event_order e = [] \<or> event_conversation e = [] then None
     else case state_message (payload_str (ev_payload e) ''new_state'') of None \<Rightarrow> None
       | Some msg \<Rightarrow> map_option (\<lambda>p. (ev_tenant_id e, p, msg (short_id (event_order e)))) (conversation_phone (event_conversation e) (ev_tenant_id e) w))"
| "notice PaymentConfirmed e w = (let t = payload_str (ev_payload e) ''tenant_id''; tid = (if t = [] then ev_tenant_id e else t) in
     if tid = [] \<or> event_order e = [] then None
     else case order_at w (event_order e) (Some tid) of None \<Rightarrow> None
       | Some x \<Rightarrow> map_option (\<lambda>p. (tid, p, MSG_PAYMENT_CONFIRMED (short_id (event_order e)))) (conversation_phone (o_conversation_id x) tid w))"

section \<open>Handlers send what is due\<close>

definition wf_notices :: "world \<Rightarrow> bool" where
  "wf_notices w \<longleftrightarrow> wf_notifications w \<and> wf_conversations w \<and> wf_orders w"

lemma phone_from_conversation_eq:
  "wf_conversations w \<Longrightarrow> phone_from_conversation cid tid w = (Inr (conversation_phone cid tid w), w)"
  using scalar_key [of cv_id "conversations w" cid "\<lambda>c. scoped (Some tid) (cv_tenant_id c)"]
  by (simp add: phone_from_conversation_def get_conversation_by_id_def bindA_apply conversation_phone_def wf_conversations_def
      split: option.split)

lemma phone_from_order_eq:
  assumes "wf_notices w"
  shows "phone_from_order oid tid w = (Inr (case order_at w oid (Some tid) of None \<Rightarrow> None
     | Some x \<Rightarrow> conversation_phone (o_conversation_id x) tid w), w)"
  using assms by (simp add: phone_from_order_def bindA_apply get_by_id_eq wf_notices_def phone_from_conversation_eq split: option.split)

definition send_notice :: "gateway \<Rightarrow> event \<Rightarrow> string \<times> string \<times> string \<Rightarrow> unit svc" where
  "send_notice gw e n = session_begin (send_message gw (fst n) (ev_event_id e) (fst (snd n)) (Plain (snd (snd n))) ''whatsapp'' (Some (event_order e)) None)"

lemma notify_customer_eq:
  "phone w = (Inr r, w) \<Longrightarrow> notify_customer gw phone tid e (event_order e) msg w =
     (case r of None \<Rightarrow> (Inr (), w) | Some p \<Rightarrow> send_notice gw e (tid, p, msg) w)"
  by (simp add: notify_customer_def send_notice_def session_begin_def bindA_apply split: option.split)

lemma state_message_empty [simp]: "state_message [] = None"
  by (simp add: state_message_def)

lemma notice_handler_eq:
  assumes "wf_notices w"
  shows "notice_handler k gw e w = (case notice k e w of None \<Rightarrow> (Inr (), w) | Some n \<Rightarrow> send_notice gw e n w)"
proof -
  have conv: "wf_conversations w" using assms by (simp add: wf_notices_def)
  note eqs = notify_customer_eq [where phone = "phone_from_conversation cid tid" for cid tid, OF phone_from_conversation_eq [OF conv]]
    notify_customer_eq [where phone = "phone_from_order oid tid" for oid tid, OF phone_from_order_eq [OF assms]]
  show ?thesis
  proof (cases k)
    case OrderStateChanged
    then show ?thesis
      by (simp add: handle_order_state_changed_notification_def Let_def event_order_def [symmetric] event_conversation_def [symmetric] eqs
          split: option.split)
  qed (simp_all add: handle_order_created_notification_def handle_payment_confirmed_notification_def Let_def event_order_def [symmetric]
      event_conversation_def [symmetric] eqs split: option.split)
qed

definition notice_message :: "string \<times> string \<times> string \<Rightarrow> string \<times> string \<times> wa_message" where
  "notice_message n = (fst n, fst (snd n), TextMsg (Plain (snd (snd n))))"

lemma no_channel_no_dispatch:
  assumes "\<forall>c\<in>set (tenant_channels w). tc_tenant_id c \<noteq> tid"
  shows "\<exists>e. fst (dispatch_whatsapp gw tid p msg w) = Inl e"
proof -
  have "filter (\<lambda>c. (tc_tenant_id c, tc_channel c) = (tid, ''whatsapp'') \<and> True) (tenant_channels w) = []"
    using assms by (auto simp: filter_empty_conv)
  then show ?thesis
    by (auto simp: dispatch_whatsapp_def dispatch_or_raise_def get_by_tenant_and_channel_def bindA_apply thenA_apply)
qed

lemma send_notice_cases:
  assumes wf: "wf_notifications w"
  obtains (known) "exec (send_notice gw e n) w = w" and "ev_event_id e \<in> notified w"
  | (refused) "exec (send_notice gw e n) w = w\<lparr>uuid_n := Suc (uuid_n w)\<rparr>"
  | (sent) r ds where "exec (send_notice gw e n) w = with_row w r\<lparr>dispatched := dispatched w @ ds\<rparr>"
      and "nt_event_id r = ev_event_id e" and "nt_id r = uuid_src w (uuid_n w)" and "ev_event_id e \<notin> notified w" and "length ds \<le> 1"
      and "set ds \<subseteq> {notice_message n}" and "\<exists>c\<in>set (tenant_channels w). tc_tenant_id c = fst n"
proof -
  let ?p = "fst (snd n)" and ?m = "Plain (snd (snd n))" and ?ev = "ev_event_id e"
  let ?send = "send_message gw (fst n) ?ev ?p ?m ''whatsapp'' (Some (event_order e)) None"
  let ?d = "dispatch_whatsapp gw (fst n) ?p ?m"
  have od: "only_dispatches ?p ?d" by (simp add: dispatch_adapter_defs)
  have send: "?send = send_once (fst n) ?ev ?p ?m ''whatsapp'' (Some (event_order e)) () ?d raise"
    by (simp add: send_message_def sending_tenant_def)
  have ex: "exec (send_notice gw e n) w = (case ?send w of (Inl _, w') \<Rightarrow> restore_db w w' | (Inr _, w') \<Rightarrow> w')"
    by (auto simp: exec_def send_notice_def session_begin_def split: prod.splits sum.splits)
  show thesis
  proof (cases "?ev \<in> notified w")
    case True
    then show thesis by (intro known) (simp_all add: ex send send_once_known [OF wf])
  next
    case False
    show thesis
    proof (rule send_once_new [OF wf False od, of "fst n" ?m "''whatsapp''" "Some (event_order e)" "()" raise])
      fix x ds
      let ?r = "pending_row w (fst n) ?ev ?p ?m ''whatsapp'' (Some (event_order e))\<lparr>nt_status := NT_SENT\<rparr>"
      assume run: "send_once (fst n) ?ev ?p ?m ''whatsapp'' (Some (event_order e)) () ?d raise w = (Inr x, with_row w ?r\<lparr>dispatched := dispatched w @ ds\<rparr>)"
        and ds: "length ds \<le> 1" and ok: "fst (?d (with_row w (pending_row w (fst n) ?ev ?p ?m ''whatsapp'' (Some (event_order e))))) = Inr x"
      have "appends_only (dispatched w) (sending_tenant None (fst n), ?p, TextMsg ?m) (snd (?send w))"
        by (rule keepsD [OF keeps_appends_send_message]) simp
      then have msg: "set ds \<subseteq> {notice_message n}"
        by (simp add: send run appends_only_def sending_tenant_def notice_message_def)
      have ch: "\<exists>c\<in>set (tenant_channels w). tc_tenant_id c = fst n"
        using no_channel_no_dispatch [of "with_row w (pending_row w (fst n) ?ev ?p ?m ''whatsapp'' (Some (event_order e)))" "fst n" gw ?p ?m] ok
        by (auto simp: with_row_def)
      show thesis
        by (rule sent [where r = ?r and ds = ds]) (use False ds msg ch in \<open>simp_all add: ex send run pending_row_def\<close>)
    next
      fix x assume "send_once (fst n) ?ev ?p ?m ''whatsapp'' (Some (event_order e)) () ?d raise w =
        raise x (with_row w (pending_row w (fst n) ?ev ?p ?m ''whatsapp'' (Some (event_order e))\<lparr>nt_status := NT_FAILED\<rparr>))"
      then show thesis by (intro refused) (simp add: ex send restore_with_row)
    qed
  qed
qed

text \<open>A message the gateway takes, whatever the table of notifications holds.\<close>

definition accepts :: "gateway \<Rightarrow> string \<times> string \<times> string \<Rightarrow> world \<Rightarrow> bool" where
  "accepts gw n w \<longleftrightarrow> dispatch_whatsapp gw (fst n) (fst (snd n)) (Plain (snd (snd n))) w = (Inr (), w\<lparr>dispatched := dispatched w @ [notice_message n]\<rparr>)"

lemma accepts_with_row: "accepts gw n w \<Longrightarrow> accepts gw n (with_row w r)"
  by (auto simp: accepts_def dispatch_whatsapp_def dispatch_or_raise_def get_by_tenant_and_channel_def post_message_def notice_message_def
      with_row_def act_simps split: sum.splits option.splits if_splits)

lemma accepted_notice_sent:
  assumes wf: "wf_notifications w" and new: "ev_event_id e \<notin> notified w" and "accepts gw n w"
  shows "dispatched (exec (send_notice gw e n) w) = dispatched w @ [notice_message n]"
proof -
  let ?p = "fst (snd n)" and ?m = "Plain (snd (snd n))" and ?ev = "ev_event_id e"
  let ?d = "dispatch_whatsapp gw (fst n) ?p ?m" and ?r = "pending_row w (fst n) ?ev ?p ?m ''whatsapp'' (Some (event_order e))"
  have od: "only_dispatches ?p ?d" by (simp add: dispatch_adapter_defs)
  have acc: "?d (with_row w ?r) = (Inr (), with_row w ?r\<lparr>dispatched := dispatched (with_row w ?r) @ [notice_message n]\<rparr>)"
    using accepts_with_row [OF assms(3), of ?r] by (simp add: accepts_def)
  have "get_by_event_id ?ev w = (Inr None, w)"
    using new by (simp add: get_by_event_id_eq [OF wf] notified_def find_None_iff) (metis imageI)
  moreover have "notification_create (fst n) ?ev ?p ?m ''whatsapp'' (Some (event_order e)) w = (Inr ?r, with_row w ?r)"
    using new by (simp add: notification_create_def bindA_apply notified_def pending_row_def with_row_def Let_def)
  ultimately show ?thesis
    by (simp add: send_notice_def send_message_def sending_tenant_def send_once_def session_begin_def bindA_apply thenA_apply tryA_apply
        acc exec_def update_status_def) (simp add: with_row_def)
qed

section \<open>The listeners\<close>

text \<open>The state without what a notice changes.\<close>

definition quiet_part :: "world \<Rightarrow> world" where
  "quiet_part w = w\<lparr>notifications := [], dispatched := [], uuid_n := 0\<rparr>"

lemma quiet_part_fields:
  assumes "quiet_part w' = quiet_part w"
  shows "orders w' = orders w" "conversations w' = conversations w" "tenant_channels w' = tenant_channels w"
    "uuid_src w' = uuid_src w" "messages w' = messages w"
  using arg_cong [OF assms, of orders] arg_cong [OF assms, of conversations] arg_cong [OF assms, of tenant_channels]
    arg_cong [OF assms, of uuid_src] arg_cong [OF assms, of messages] by (simp_all add: quiet_part_def)

lemma notice_quiet: "quiet_part w' = quiet_part w \<Longrightarrow> notice k e w' = notice k e w"
  using quiet_part_fields(1,2) [of w' w] by (cases k) (simp_all add: conversation_phone_def order_at_def Let_def split: option.split)

definition notices_inv :: "notice_kind \<Rightarrow> event list \<Rightarrow> world \<Rightarrow> world \<Rightarrow> bool" where
  "notices_inv k es w0 w \<longleftrightarrow> wf_notices w \<and> quiet_part w = quiet_part w0 \<and> notified w0 \<subseteq> notified w \<and> notified w \<subseteq> notified w0 \<union> ev_event_id ` set es
     \<and> (\<exists>ds. dispatched w = dispatched w0 @ ds \<and> length ds \<le> card (notified w - notified w0)
          \<and> (\<forall>d\<in>set ds. \<exists>e\<in>set es. \<exists>n. notice k e w0 = Some n \<and> d = notice_message n \<and> (\<exists>c\<in>set (tenant_channels w0). tc_tenant_id c = fst n)))"

lemma notice_step:
  assumes inv: "notices_inv k es w0 w" and e: "e \<in> set es"
  shows "notices_inv k es w0 (exec (notice_handler k gw e) w)"
proof (cases "notice k e w")
  case None
  with inv show ?thesis by (simp add: exec_def notice_handler_eq notices_inv_def)
next
  case (Some n)
  have wf: "wf_notices w" "wf_notifications w" and q: "quiet_part w = quiet_part w0" using inv by (simp_all add: notices_inv_def wf_notices_def)
  have n: "notice k e w0 = Some n" using Some notice_quiet [OF q] by simp
  have ex: "exec (notice_handler k gw e) w = exec (send_notice gw e n) w" by (simp add: exec_def notice_handler_eq [OF wf(1)] Some)
  from inv obtain ds0 where ds0: "dispatched w = dispatched w0 @ ds0" "length ds0 \<le> card (notified w - notified w0)"
    "\<forall>d\<in>set ds0. \<exists>e\<in>set es. \<exists>n. notice k e w0 = Some n \<and> d = notice_message n \<and> (\<exists>c\<in>set (tenant_channels w0). tc_tenant_id c = fst n)"
    unfolding notices_inv_def by blast
  show ?thesis
  proof (cases rule: send_notice_cases [OF wf(2), of gw e n, case_names known refused sent])
    case known
    with inv ex show ?thesis by simp
  next
    case refused
    have "wf_notices (w\<lparr>uuid_n := Suc (uuid_n w)\<rparr>)" using wf(1) by (auto simp: wf_notices_def wf_notifications_def wf_conversations_def wf_orders_def order_ids_def)
    with inv refused ex show ?thesis by (simp add: notices_inv_def quiet_part_def notified_def)
  next
    case (sent r ds)
    let ?w = "with_row w r\<lparr>dispatched := dispatched w @ ds\<rparr>"
    have "send_outcome False (ev_event_id e) w (Inr (), ?w)" unfolding send_outcome_def using sent by blast
    from send_outcome_wf [OF wf(2) this] have wf': "wf_notifications ?w" and nt: "notified ?w = insert (ev_event_id e) (notified w)"
      by simp_all
    have wfn: "wf_notices ?w"
      using wf(1) wf' by (auto simp: wf_notices_def wf_conversations_def wf_orders_def order_ids_def with_row_def)
    have fin: "finite (notified w)" "finite (notified w0)" by (simp_all add: notified_def)
    have "notified w0 \<subseteq> notified w" using inv by (simp add: notices_inv_def)
    then have "notified ?w - notified w0 = insert (ev_event_id e) (notified w - notified w0)" using sent(4) nt by auto
    then have card: "card (notified ?w - notified w0) = Suc (card (notified w - notified w0))" using sent(4) fin by simp
    have "tenant_channels w = tenant_channels w0" using quiet_part_fields [OF q] by simp
    with sent(6,7) n e have "\<forall>d\<in>set ds. \<exists>e\<in>set es. \<exists>n. notice k e w0 = Some n \<and> d = notice_message n
        \<and> (\<exists>c\<in>set (tenant_channels w0). tc_tenant_id c = fst n)"
      by (metis singletonD subsetD)
    with ds0 card sent(5) have "\<exists>ds. dispatched ?w = dispatched w0 @ ds \<and> length ds \<le> card (notified ?w - notified w0)
      \<and> (\<forall>d\<in>set ds. \<exists>e\<in>set es. \<exists>n. notice k e w0 = Some n \<and> d = notice_message n \<and> (\<exists>c\<in>set (tenant_channels w0). tc_tenant_id c = fst n))"
      by (intro exI [of _ "ds0 @ ds"]) (simp add: ball_Un)
    moreover have "quiet_part ?w = quiet_part w0" using q by (simp add: quiet_part_def with_row_def)
    moreover have "notified w0 \<subseteq> notified ?w" "notified ?w \<subseteq> notified w0 \<union> ev_event_id ` set es"
      using inv e by (auto simp: nt notices_inv_def)
    ultimately show ?thesis using wfn ex sent(1) unfolding notices_inv_def by simp
  qed
qed

lemma notice_loop: "notices_inv k es w0 w \<Longrightarrow> set es' \<subseteq> set es \<Longrightarrow> notices_inv k es w0 (listener_loop (notice_handler k gw) es' w)"
  by (induction es' arbitrary: w) (auto intro: notice_step)

section \<open>Properties\<close>

fun notice_listener :: "notice_kind \<Rightarrow> gateway \<Rightarrow> event list \<Rightarrow> world \<Rightarrow> world" where
  "notice_listener OrderCreated = register_order_created_notification_handler"
| "notice_listener OrderStateChanged = register_order_state_changed_notification_handler"
| "notice_listener PaymentConfirmed = register_payment_confirmed_notification_handler"

lemma notice_listener_eq: "\<exists>name. notice_listener k gw es w = listener_loop (notice_handler k gw) (subscribe_all_tenants_event name es) w"
  by (cases k) (auto simp: register_order_created_notification_handler_def register_order_state_changed_notification_handler_def
      register_payment_confirmed_notification_handler_def create_global_listener_task_def)

text \<open>
  C35: customers hear of their orders at most once per event. Whatever events arrive, however often repeated and whatever the gateway
  answers, a notification listener sends no more messages than there are new events; each is the text the event asks for, to the
  customer of its conversation; nothing but the table of notifications changes. A new event whose message the gateway takes is told. A tenant without a channel of
  its own, as after its orders moved off the platform's tenant, sends none.
\<close>

theorem event_notices:
  fixes w :: world and k :: notice_kind and gw :: gateway and es :: "event list"
  assumes "wf_notices w"
  defines "w' \<equiv> notice_listener k gw es w"
  shows "(\<exists>ds. dispatched w' = dispatched w @ ds \<and> length ds \<le> card (ev_event_id ` set es - notified w)
      \<and> (\<forall>d\<in>set ds. \<exists>e\<in>set es. \<exists>t p m. notice k e w = Some (t, p, m) \<and> d = (t, p, TextMsg (Plain m)) \<and> (\<exists>c\<in>set (tenant_channels w). tc_tenant_id c = t)))
    \<and> w'\<lparr>notifications := notifications w, dispatched := dispatched w, uuid_n := uuid_n w\<rparr> = w
    \<and> (\<forall>e n. notice k e w = Some n \<and> ev_event_id e \<notin> notified w \<and> accepts gw n w
         \<longrightarrow> dispatched (exec (notice_handler k gw e) w) = dispatched w @ [notice_message n])"
proof -
  obtain name where "w' = listener_loop (notice_handler k gw) (subscribe_all_tenants_event name es) w"
    using notice_listener_eq [of k gw es w] by (auto simp: w'_def)
  moreover have "notices_inv k es w w" using assms(1) by (simp add: notices_inv_def)
  ultimately have inv: "notices_inv k es w w'"
    using notice_loop [of k es w w "subscribe_all_tenants_event name es" gw] by (auto simp: subscribe_all_tenants_event_def)
  then have q: "quiet_part w' = quiet_part w" by (simp add: notices_inv_def)
  have new: "card (notified w' - notified w) \<le> card (ev_event_id ` set es - notified w)"
    using inv by (intro card_mono) (auto simp: notices_inv_def)
  from inv obtain ds where ds: "dispatched w' = dispatched w @ ds" "length ds \<le> card (notified w' - notified w)"
    "\<forall>d\<in>set ds. \<exists>e\<in>set es. \<exists>n. notice k e w = Some n \<and> d = notice_message n \<and> (\<exists>c\<in>set (tenant_channels w). tc_tenant_id c = fst n)"
    unfolding notices_inv_def by blast
  have "w'\<lparr>notifications := notifications w, dispatched := dispatched w, uuid_n := uuid_n w\<rparr> =
      (quiet_part w')\<lparr>notifications := notifications w, dispatched := dispatched w, uuid_n := uuid_n w\<rparr>" by (simp add: quiet_part_def)
  also have "\<dots> = w" by (simp add: q) (simp add: quiet_part_def)
  finally have same: "w'\<lparr>notifications := notifications w, dispatched := dispatched w, uuid_n := uuid_n w\<rparr> = w" .
  have "\<forall>d\<in>set ds. \<exists>e\<in>set es. \<exists>t p m. notice k e w = Some (t, p, m) \<and> d = (t, p, TextMsg (Plain m)) \<and> (\<exists>c\<in>set (tenant_channels w). tc_tenant_id c = t)"
    using ds(3) by (fastforce simp: notice_message_def)
  moreover have "dispatched (exec (notice_handler k gw e) w) = dispatched w @ [notice_message n]"
    if "notice k e w = Some n" "ev_event_id e \<notin> notified w" "accepts gw n w" for e n
    using accepted_notice_sent [OF _ that(2,3)] assms(1) that(1) by (simp add: exec_def notice_handler_eq) (simp add: wf_notices_def)
  ultimately show ?thesis using ds(1,2) new same by (intro conjI exI [of _ ds] allI impI) auto
qed

text \<open>A confirmed order whose conversation is with 234; its event delivered three times.\<close>

definition notice_world :: world where
  "notice_world = (one_order CONFIRMED)\<lparr>tenant_channels := tenant_channels one_channel,
     conversations := [\<lparr>cv_id = ''c1'', cv_tenant_id = ''t1'', cv_channel = ''whatsapp'', cv_customer_id = None, cv_customer_identifier = ''234'',
       cv_customer_name = None, cv_status = CV_ACTIVE, cv_assigned_to_user_id = None, cv_created_at = 0, cv_updated_at = 0\<rparr>]\<rparr>"

definition confirmed_notice :: event where
  "confirmed_notice = \<lparr>ev_event_name = ''order.state_changed'', ev_tenant_id = ''t1'', ev_payload = [(''order_id'', JStr ''0123456789ab''),
     (''conversation_id'', JStr ''c1''), (''new_state'', JStr ''confirmed'')], ev_event_id = ''e1'', ev_timestamp = 0\<rparr>"

lemma short_id_example: "short_id ''0123456789ab'' = ''456789AB''"
  by code_simp

theorem event_notices_witness:
  "\<exists>ds. dispatched (notice_listener OrderStateChanged open_gateway (replicate 3 confirmed_notice) notice_world) = dispatched notice_world @ ds
     \<and> length ds \<le> 1 \<and> (\<forall>d\<in>set ds. d = (''t1'', ''234'', TextMsg (Plain ''Your order (456789AB) is confirmed! Please proceed to payment.'')))
   \<and> dispatched (exec (notice_handler OrderStateChanged open_gateway confirmed_notice) notice_world) = dispatched notice_world
        @ [(''t1'', ''234'', TextMsg (Plain ''Your order (456789AB) is confirmed! Please proceed to payment.''))]"
proof -
  let ?n = "(''t1'', ''234'', ''Your order (456789AB) is confirmed! Please proceed to payment.'')"
  have wf: "wf_notices notice_world"
    using wf_one_order [of CONFIRMED]
    by (simp add: wf_notices_def wf_notifications_def wf_conversations_def wf_orders_def order_ids_def notice_world_def one_order_def
        empty_world_def inj_replicate)
  have msg: "notice OrderStateChanged confirmed_notice notice_world
      = Some (''t1'', ''234'', ''Your order (456789AB) is confirmed! Please proceed to payment.'')"
    by (simp add: confirmed_notice_def notice_world_def event_order_def event_conversation_def payload_str_def payload_get_def state_message_def
        conversation_phone_def scoped_def short_id_example MSG_ORDER_CONFIRMED_def)
  have acc: "accepts open_gateway ?n notice_world" "ev_event_id confirmed_notice \<notin> notified notice_world"
    by (simp_all add: accepts_def notice_message_def dispatch_whatsapp_def dispatch_or_raise_def get_by_tenant_and_channel_def post_message_def act_simps
        notice_world_def one_channel_def one_order_def empty_world_def open_gateway_def is_success_def notified_def)
  have card: "card (ev_event_id ` set (replicate 3 confirmed_notice) - notified notice_world) = 1"
    by (simp add: notified_def notice_world_def one_order_def empty_world_def)
  show ?thesis
    using event_notices [OF wf, of OrderStateChanged open_gateway "replicate 3 confirmed_notice"] acc msg unfolding card
    by (auto simp: notice_message_def simp del: notice.simps notice_listener.simps notice_handler.simps)
qed

end
