(* ===== verification/Realtime.thy ===== *)
theory Realtime
  imports Event_Bus
begin

text \<open>
  The stream of events to the dashboards (\<open>src/app/modules/realtime\<close>): the registry of WebSocket connections per tenant,
  the broadcast that drops connections it cannot write to, the endpoint, and the listener that forwards every event
  of the bus to the connections of its tenant.
\<close>

section \<open>The registry\<close>

text \<open>
  The connections of each tenant, without repetition, and what each client has received. A message has the fields of
  the event it stands for.
\<close>

record 's hub =
  hb_connections :: "string \<Rightarrow> 's list option"
  hb_inbox :: "'s \<Rightarrow> event list"

definition new_hub :: "'s hub" where
  "new_hub = \<lparr>hb_connections = (\<lambda>_. None), hb_inbox = (\<lambda>_. [])\<rparr>"

definition sockets_of :: "'s hub \<Rightarrow> string \<Rightarrow> 's list" where
  "sockets_of h tid = (case hb_connections h tid of None \<Rightarrow> [] | Some ss \<Rightarrow> ss)"

definition ws_connect :: "string \<Rightarrow> 's \<Rightarrow> 's hub \<Rightarrow> 's hub" where
  "ws_connect tid s h = h\<lparr>hb_connections := (hb_connections h)(tid := Some (List.insert s (sockets_of h tid)))\<rparr>"

definition ws_disconnect :: "string \<Rightarrow> 's \<Rightarrow> 's hub \<Rightarrow> 's hub" where
  "ws_disconnect tid s h = (let left = removeAll s (sockets_of h tid) in
     h\<lparr>hb_connections := (hb_connections h)(tid := if length left = 0 then None else Some left)\<rparr>)"

definition ws_count :: "'s hub \<Rightarrow> string \<Rightarrow> nat" where
  "ws_count h tid = length (sockets_of h tid)"

definition active_tenants :: "'s hub \<Rightarrow> string set" where
  "active_tenants h = dom (hb_connections h)"

text \<open>Writing to each socket; \<open>up s e\<close> tells whether \<open>send_text\<close> succeeds. The result lists the sockets that failed.\<close>

fun send_all :: "('s \<Rightarrow> event \<Rightarrow> bool) \<Rightarrow> event \<Rightarrow> 's list \<Rightarrow> 's hub \<Rightarrow> 's list \<times> 's hub" where
  "send_all up e [] h = ([], h)"
| "send_all up e (s # ss) h = (if up s e then send_all up e ss (h\<lparr>hb_inbox := (hb_inbox h)(s := hb_inbox h s @ [e])\<rparr>)
     else let (stale, h') = send_all up e ss h in (s # stale, h'))"

definition ws_broadcast :: "('s \<Rightarrow> event \<Rightarrow> bool) \<Rightarrow> string \<Rightarrow> event \<Rightarrow> 's hub \<Rightarrow> 's hub" where
  "ws_broadcast up tid e h = (if sockets_of h tid = [] then h
     else let (stale, h') = send_all up e (sockets_of h tid) h in fold (ws_disconnect tid) stale h')"

text \<open>One event in the loop of \<open>_listen_and_broadcast\<close>.\<close>

definition forward :: "('s \<Rightarrow> event \<Rightarrow> bool) \<Rightarrow> event \<Rightarrow> 's hub \<Rightarrow> 's hub" where
  "forward up e h = (if ws_count h (ev_tenant_id e) \<noteq> 0 then ws_broadcast up (ev_tenant_id e) e h else h)"

section \<open>Runs\<close>

text \<open>
  A client opens or leaves the endpoint of a tenant, or an event is published, when some clients may be unreachable. The listener
  hears the channels of the pattern of all events.
\<close>

datatype 's hub_op = Opens string 's | Leaves string 's | Publishes event "'s \<Rightarrow> event \<Rightarrow> bool"

fun hub_step :: "'s hub_op \<Rightarrow> 's hub \<Rightarrow> 's hub" where
  "hub_step (Opens tid s) h = ws_connect tid s h"
| "hub_step (Leaves tid s) h = ws_disconnect tid s h"
| "hub_step (Publishes e up) h = fold (forward up) (subscribe_all_events [e]) h"

text \<open>What one client should hear: the events of the tenants it is connected to, until a write to it fails.\<close>

fun heard :: "'s \<Rightarrow> string set \<Rightarrow> 's hub_op list \<Rightarrow> event list" where
  "heard s R [] = []"
| "heard s R (Opens tid x # ops) = heard s (if x = s then insert tid R else R) ops"
| "heard s R (Leaves tid x # ops) = heard s (if x = s then R - {tid} else R) ops"
| "heard s R (Publishes e up # ops) = (if ev_tenant_id e \<notin> R then heard s R ops
     else if up s e then e # heard s R ops else heard s (R - {ev_tenant_id e}) ops)"

definition rooms :: "'s hub \<Rightarrow> 's \<Rightarrow> string set" where
  "rooms h s = {tid. s \<in> set (sockets_of h tid)}"

definition wf_hub :: "'s hub \<Rightarrow> bool" where
  "wf_hub h \<longleftrightarrow> (\<forall>tid. distinct (sockets_of h tid) \<and> hb_connections h tid \<noteq> Some [])"

lemma sockets_connect [simp]: "sockets_of (ws_connect tid s h) t = (if t = tid then List.insert s (sockets_of h tid) else sockets_of h t)"
  by (simp add: sockets_of_def ws_connect_def)

lemma sockets_disconnect [simp]: "sockets_of (ws_disconnect tid s h) t = (if t = tid then removeAll s (sockets_of h tid) else sockets_of h t)"
  by (simp add: sockets_of_def ws_disconnect_def Let_def)

lemma inbox_same [simp]: "hb_inbox (ws_connect tid s h) = hb_inbox h" "hb_inbox (ws_disconnect tid s h) = hb_inbox h"
  by (simp_all add: ws_connect_def ws_disconnect_def Let_def)

lemma wf_connect: "wf_hub h \<Longrightarrow> wf_hub (ws_connect tid s h)"
  by (simp add: wf_hub_def) (auto simp: ws_connect_def List.insert_def)

lemma wf_disconnect: "wf_hub h \<Longrightarrow> wf_hub (ws_disconnect tid s h)"
  by (simp add: wf_hub_def distinct_removeAll) (simp add: ws_disconnect_def Let_def)

lemma fold_disconnect:
  "sockets_of (fold (ws_disconnect tid) ss h) t = (if t = tid then filter (\<lambda>s. s \<notin> set ss) (sockets_of h tid) else sockets_of h t)"
  "hb_inbox (fold (ws_disconnect tid) ss h) = hb_inbox h"
  "wf_hub h \<Longrightarrow> wf_hub (fold (ws_disconnect tid) ss h)"
proof (induction ss arbitrary: h)
  case (Cons s ss)
  { case 1 show ?case by (auto simp: Cons(1) removeAll_filter_not_eq intro!: filter_cong) }
  { case 2 show ?case by (simp add: Cons(2)) }
  { case 3 then show ?case by (simp add: Cons(3) wf_disconnect) }
qed simp_all

lemma send_all_eq:
  assumes "distinct ss"
  shows "send_all up e ss h = (filter (\<lambda>s. \<not> up s e) ss,
     h\<lparr>hb_inbox := (\<lambda>s. hb_inbox h s @ (if s \<in> set ss \<and> up s e then [e] else []))\<rparr>)"
  using assms by (induction ss arbitrary: h) (auto simp: fun_eq_iff)

lemma all_events: "subscribe_all_events [e] = [e]"
proof -
  have "event_channel e = CHANNEL_PREFIX @ ''.'' @ ev_tenant_id e @ ''.'' @ ev_event_name e"
    by (simp add: event_channel_def channel_def)
  then show ?thesis
    using wild_match_prefix [of "CHR ''*''" "CHANNEL_PREFIX @ ''.''" "CHR ''?''" "event_channel e"]
    by (simp add: subscribe_all_events_def glob_def ALL_EVENTS_PATTERN_def)
qed

lemma publish_step:
  assumes "wf_hub h"
  shows "wf_hub (hub_step (Publishes e up) h)"
    "hb_inbox (hub_step (Publishes e up) h) s = hb_inbox h s @ (if ev_tenant_id e \<in> rooms h s \<and> up s e then [e] else [])"
    "rooms (hub_step (Publishes e up) h) s = (if ev_tenant_id e \<in> rooms h s \<and> \<not> up s e then rooms h s - {ev_tenant_id e} else rooms h s)"
proof -
  let ?t = "ev_tenant_id e"
  have d: "distinct (sockets_of h ?t)" using assms by (simp add: wf_hub_def)
  have step: "hub_step (Publishes e up) h = (if sockets_of h ?t = [] then h
     else fold (ws_disconnect ?t) (filter (\<lambda>s. \<not> up s e) (sockets_of h ?t))
       (h\<lparr>hb_inbox := (\<lambda>s. hb_inbox h s @ (if s \<in> set (sockets_of h ?t) \<and> up s e then [e] else []))\<rparr>))"
    by (simp add: all_events forward_def ws_count_def ws_broadcast_def send_all_eq [OF d])
  have same: "wf_hub (h\<lparr>hb_inbox := i\<rparr>) = wf_hub h" "sockets_of (h\<lparr>hb_inbox := i\<rparr>) = sockets_of h" for i
    by (simp_all add: wf_hub_def sockets_of_def fun_eq_iff)
  show "wf_hub (hub_step (Publishes e up) h)" using assms by (simp add: step fold_disconnect same del: hub_step.simps)
  show "hb_inbox (hub_step (Publishes e up) h) s = hb_inbox h s @ (if ?t \<in> rooms h s \<and> up s e then [e] else [])"
    by (simp add: step fold_disconnect rooms_def del: hub_step.simps)
  show "rooms (hub_step (Publishes e up) h) s = (if ?t \<in> rooms h s \<and> \<not> up s e then rooms h s - {?t} else rooms h s)"
    by (auto simp: step fold_disconnect rooms_def same simp del: hub_step.simps)
qed

lemma connect_rooms:
  "rooms (ws_connect tid x h) s = (if x = s then insert tid (rooms h s) else rooms h s)"
  "rooms (ws_disconnect tid x h) s = (if x = s then rooms h s - {tid} else rooms h s)"
  by (auto simp: rooms_def)

lemma hub_run: "wf_hub h \<Longrightarrow> hb_inbox (fold hub_step ops h) s = hb_inbox h s @ heard s (rooms h s) ops \<and> wf_hub (fold hub_step ops h)"
proof (induction ops arbitrary: h)
  case (Cons x ops)
  have wf: "wf_hub (hub_step x h)"
  proof (cases x)
    case (Publishes e up)
    then show ?thesis using publish_step(1) [OF Cons.prems] by blast
  qed (use Cons.prems in \<open>simp_all add: wf_connect wf_disconnect\<close>)
  show ?case
  proof (cases x)
    case (Publishes e up)
    with Cons.IH [OF wf] publish_step [OF Cons.prems] show ?thesis by (simp del: hub_step.simps)
  qed (use Cons.IH [OF wf] in \<open>simp_all add: connect_rooms\<close>)
qed simp

lemma heard_opened: "e \<in> set (heard s R ops) \<Longrightarrow> ev_tenant_id e \<in> R \<or> Opens (ev_tenant_id e) s \<in> set ops"
  by (induction s R ops rule: heard.induct) (auto split: if_splits)

section \<open>Properties\<close>

text \<open>
  C36: every client hears its own stream. Whatever clients come, leave or become unreachable and whatever is published, a client has
  received exactly the events of the tenants it was connected to at the time, in order and once each, up to the first
  write to it that failed; no other client influences this. A tenant is registered only while it has connections.
\<close>

theorem client_stream_exact:
  fixes ops :: "'s hub_op list" and s :: 's
  defines "h \<equiv> fold hub_step ops new_hub"
  shows "hb_inbox h s = heard s {} ops \<and> (\<forall>e\<in>set (hb_inbox h s). Opens (ev_tenant_id e) s \<in> set ops)
    \<and> active_tenants h = {tid. ws_count h tid \<noteq> 0}"
proof -
  have wf: "wf_hub (new_hub :: 's hub)" by (simp add: wf_hub_def new_hub_def sockets_of_def)
  have run: "hb_inbox h s = heard s {} ops" "wf_hub h"
    using hub_run [OF wf, of ops s] by (simp_all add: h_def new_hub_def rooms_def sockets_of_def)
  have "(hb_connections h tid \<noteq> None) = (ws_count h tid \<noteq> 0)" for tid
    using run(2) by (cases "hb_connections h tid") (auto simp: wf_hub_def ws_count_def sockets_of_def)
  with run(1) heard_opened [of _ s "{}" ops] show ?thesis by (auto simp: active_tenants_def)
qed

theorem client_stream_exact_witness:
  "let e = (\<lambda>n t. \<lparr>ev_event_name = n, ev_tenant_id = t, ev_payload = [], ev_event_id = n, ev_timestamp = 0\<rparr>);
       ops = [Opens ''t1'' (0::nat), Opens ''t2'' 1, Opens ''t1'' 2, Publishes (e ''order.created'' ''t1'') (\<lambda>s _. s \<noteq> 2),
              Publishes (e ''order.paid'' ''t1'') (\<lambda>_ _. True)]
   in hb_inbox (fold hub_step ops new_hub) 0 = [e ''order.created'' ''t1'', e ''order.paid'' ''t1'']
      \<and> hb_inbox (fold hub_step ops new_hub) 1 = [] \<and> hb_inbox (fold hub_step ops new_hub) 2 = []"
proof -
  define e where "e = (\<lambda>n t. \<lparr>ev_event_name = n, ev_tenant_id = t, ev_payload = [], ev_event_id = n, ev_timestamp = 0\<rparr> :: event)"
  define ops where "ops = [Opens ''t1'' (0::nat), Opens ''t2'' 1, Opens ''t1'' 2, Publishes (e ''order.created'' ''t1'') (\<lambda>s _. s \<noteq> 2),
              Publishes (e ''order.paid'' ''t1'') (\<lambda>_ _. True)]"
  have [simp]: "ev_tenant_id (e n t) = t" for n t by (simp add: e_def)
  have "heard 0 {} ops = [e ''order.created'' ''t1'', e ''order.paid'' ''t1'']" "heard 1 {} ops = []" "heard 2 {} ops = []"
    by (simp_all add: ops_def)
  with client_stream_exact [of ops 0] client_stream_exact [of ops 1] client_stream_exact [of ops 2]
  show ?thesis unfolding Let_def e_def [symmetric] ops_def [symmetric] by simp
qed

end
