(* ===== verification/Pickers.thy ===== *)
theory Pickers
  imports Catalogue
begin

text \<open>
  The list pickers a trader taps on (\<open>src/app/modules/orders/whatsapp.py\<close>): menus, the paged lists of products, categories,
  products for photos and status posts, and audiences. A picker is the body, the label of its button and the sections of rows;
  a row is its identifier, title and description. Emoji in titles are left out.
\<close>

section \<open>Rows of products\<close>

type_synonym picker_row = "string \<times> string \<times> string"
type_synonym picker = "body \<times> string \<times> (string \<times> picker_row list) list"

definition PAGE_SIZE :: nat where "PAGE_SIZE = 8"

definition product_row :: "string \<Rightarrow> bool \<Rightarrow> string \<times> int \<Rightarrow> picker_row" where
  "product_row id_prefix show_price np = (take 72 (id_prefix @ ''_'' @ fst np), take 24 (fst np),
     if show_price then naira_amount (snd np) else ''Current: '' @ naira_amount (snd np))"

definition nav_row :: "string \<Rightarrow> string \<Rightarrow> string \<Rightarrow> int \<Rightarrow> nat \<Rightarrow> picker_row" where
  "nav_row id_prefix direction label pg tot = (id_prefix @ ''_'' @ direction @ ''_'' @ show_int pg, label,
     ''Page '' @ show_int pg @ '' of '' @ show_nat tot)"

definition paginate_product_rows :: "(string \<times> int) list \<Rightarrow> int \<Rightarrow> string \<Rightarrow> bool \<Rightarrow> picker_row list \<times> nat" where
  "paginate_product_rows products pg id_prefix show_price = (let n = length products in
     if n \<le> 10 then (map (product_row id_prefix show_price) products, 1)
     else let tot = (n + PAGE_SIZE - 1) div PAGE_SIZE; p = max 1 (min pg (int tot)); start = (nat p - 1) * PAGE_SIZE in
       (map (product_row id_prefix show_price) (take PAGE_SIZE (drop start products))
        @ (if 1 < p then [nav_row id_prefix ''PREV'' ''Previous page'' (p - 1) tot] else [])
        @ (if p < int tot then [nav_row id_prefix ''NEXT'' ''Next page'' (p + 1) tot] else []), tot))"

definition page_label :: "int \<Rightarrow> nat \<Rightarrow> string" where
  "page_label pg tot = (if 1 < tot then '' (page '' @ show_int pg @ ''/'' @ show_nat tot @ '')'' else [])"

definition remove_product_list :: "(string \<times> int) list \<Rightarrow> int \<Rightarrow> picker" where
  "remove_product_list d pg = (let (rows, tot) = paginate_product_rows (sort d) pg ''RM'' True in
     (Plain (''Which product would you like to remove?'' @ page_label pg tot), ''Select product'', [(''Your products'', rows)]))"

definition price_product_list :: "(string \<times> int) list \<Rightarrow> int \<Rightarrow> picker" where
  "price_product_list d pg = (let (rows, tot) = paginate_product_rows (sort d) pg ''PR'' False in
     (Plain (''Which product would you like to update?'' @ page_label pg tot), ''Select product'', [(''Your products'', rows)]))"

definition product_lines :: "(string \<times> int) list \<Rightarrow> string" where
  "product_lines d = join [CHR 0x0A] (map (\<lambda>(i, n, p). ''  '' @ show_nat i @ ''. '' @ n @ '' - '' @ naira_amount p) (zip [1..<Suc (length d)] (sort d)))"

definition catalogue_picker :: "(string \<times> int) list \<Rightarrow> string \<Rightarrow> int \<Rightarrow> picker" where
  "catalogue_picker d name pg = (let nl = [CHR 0x0A, CHR 0x0A]; n = show_nat (length d);
       body = ''*'' @ name @ ''* - '' @ n @ '' products:'' @ nl @ product_lines d @ nl @ ''Tap a product below to update its price.'';
       short = ''*'' @ name @ ''* - '' @ n @ '' products.'' @ nl @ ''Tap a product below to update its price.'' in
     (Plain (if 1024 < length body then short else body), ''Edit price'',
      [(''Your products'', fst (paginate_product_rows (sort d) pg ''PR'' False))]))"

text \<open>The first ten products, for a photo or a status post; none when the catalogue is empty.\<close>

definition ten_products :: "string \<Rightarrow> (string \<times> int) list \<Rightarrow> picker_row list" where
  "ten_products id_prefix d = take 10 (map (product_row id_prefix True) (sort d))"

definition product_photo_which_product :: "(string \<times> int) list \<Rightarrow> picker option" where
  "product_photo_which_product d = (if d = [] then None
     else Some (Plain ''Nice photo! Which product is this for?'', ''Select product'', [(''Your products'', ten_products ''PHOT'' d)]))"

definition status_label :: "string \<Rightarrow> string" where
  "status_label mode = (case map_of [(''image'', ''Status image''), (''video'', ''Status video''), (''post'', ''Status post'')] mode of
     Some l \<Rightarrow> l | None \<Rightarrow> ''Status post'')"

definition status_prefix :: "string \<Rightarrow> string" where
  "status_prefix mode = (case map_of [(''image'', ''STIMG''), (''video'', ''STVID''), (''post'', ''STPOST'')] mode of Some l \<Rightarrow> l | None \<Rightarrow> ''STPOST'')"

definition status_product_picker :: "(string \<times> int) list \<Rightarrow> string \<Rightarrow> picker option" where
  "status_product_picker d mode = (if d = [] then None
     else Some (Plain (''Which product do you want to create a '' @ status_label mode @ '' for?''), ''Select product'',
       [(''Your products'', ten_products (status_prefix mode) d)]))"

section \<open>Menus\<close>

definition trader_menu :: picker where
  "trader_menu = (Plain ''What would you like to do?'', ''Open menu'', [(''Menu'',
     [(''SUB_ORDERS'', ''Orders & Debts'', ''View orders, track who owes you''), (''SUB_CATALOGUE'', ''Catalogue'', ''Add, remove, update products''),
      (''SUB_STORE'', ''Store & Settings'', ''Store link, bank, category''), (''SUB_MARKETING'', ''Marketing'', ''Create Status posts and videos'')])])"

definition trader_submenu_orders :: picker where
  "trader_submenu_orders = (Plain ''*Orders & Debts*'', ''Select'', [(''Orders & Debts'',
     [(''MENU_ORDERS'', ''Active Orders'', ''View and manage your orders''), (''MENU_DEBTS'', ''Who Owes Me'', ''See your debt book''),
      (''MENU_WHOIS'', ''Customer Lookup'', ''Look up a customer'' @ [CHR 39] @ ''s history'')])])"

definition trader_submenu_catalogue :: picker where
  "trader_submenu_catalogue = (Plain ''*Catalogue*'', ''Select'', [(''Catalogue'',
     [(''MENU_CATALOGUE'', ''My Catalogue'', ''View all your products''), (''MENU_ADD'', ''Add Product'', ''Add new product + price''),
      (''MENU_REMOVE'', ''Remove Product'', ''Remove a product''), (''MENU_PRICE'', ''Update Price'', ''Change a product'' @ [CHR 39] @ ''s price''),
      (''MENU_PRICELIST'', ''Upload Price List'', ''Photo/voice to update catalogue'')])])"

definition trader_submenu_store :: picker where
  "trader_submenu_store = (Plain ''*Store & Settings*'', ''Select'', [(''Store & Settings'',
     [(''MENU_STORE'', ''My Store'', ''View store link''), (''MENU_CATEGORY'', ''Change Category'', ''Switch business category''),
      (''MENU_BANK'', ''Bank Details'', ''Set or update bank account'')])])"

definition trader_submenu_marketing :: picker where
  "trader_submenu_marketing = (Plain ''*Marketing*'', ''Select'', [(''Marketing'',
     [(''MENU_BROADCAST'', ''Broadcast Message'', ''Send a message to your customers''), (''MENU_REFER'', ''Refer a Trader'', ''Share your referral code''),
      (''MENU_STATUS_IMAGE'', ''Status Image'', ''Generate a product image for Status''),
      (''MENU_STATUS_VIDEO'', ''Status Video'', ''Generate a Ken Burns video for Status''),
      (''MENU_STATUS_POST'', ''Create Status Post'', ''Auto-generate image + video for Status'')])])"

definition sub_map :: "(string \<times> picker) list" where
  "sub_map = [(''SUB_ORDERS'', trader_submenu_orders), (''SUB_CATALOGUE'', trader_submenu_catalogue), (''SUB_STORE'', trader_submenu_store),
     (''SUB_MARKETING'', trader_submenu_marketing)]"

definition category_picker :: "string \<Rightarrow> picker" where
  "category_picker cur = (Plain (''Your current category: *'' @ (case map_of CATEGORY_DISPLAY_NAMES cur of Some n \<Rightarrow> n | None \<Rightarrow> cur) @ ''*''
       @ [CHR 0x0A, CHR 0x0A] @ ''Select your new category:''), ''Pick category'',
     [(''Business categories'', map (\<lambda>(c, n). (''CAT_'' @ c, take 24 n, [])) CATEGORY_DISPLAY_NAMES)])"

section \<open>Audiences\<close>

definition SEGMENT_DISPLAY :: "(string \<times> string \<times> string) list" where
  "SEGMENT_DISPLAY = [(''all_customers'', ''All Customers'', ''Audience''), (''vip'', ''VIP Customers'', ''By Behaviour''),
     (''repeat_buyer'', ''Repeat Buyers'', ''By Behaviour''), (''paid_once'', ''Bought Once'', ''By Behaviour''), (''new_lead'', ''New Leads'', ''By Behaviour''),
     (''lapsed'', ''Lapsed Customers'', ''By Behaviour''), (''abandoned_cart'', ''Abandoned Cart'', ''By Behaviour''),
     (''browsed_only'', ''Browsed Only'', ''By Behaviour''), (''diverse_buyer'', ''Diverse Buyers'', ''By Interest''),
     (''price_sensitive'', ''Price Sensitive'', ''By Interest''), (''premium'', ''Premium Buyers'', ''By Interest''),
     (''weekly'', ''Weekly Shoppers'', ''By Timing''), (''monthly'', ''Monthly Shoppers'', ''By Timing''), (''payday'', ''Payday Buyers'', ''By Timing''),
     (''weekend'', ''Weekend Shoppers'', ''By Timing'')]"

definition SEGMENT_ORDER :: "string list" where
  "SEGMENT_ORDER = [''all_customers'', ''vip'', ''repeat_buyer'', ''paid_once'', ''new_lead'', ''lapsed'', ''abandoned_cart'', ''diverse_buyer'',
     ''price_sensitive'', ''premium'', ''weekly'', ''monthly'', ''payday'', ''weekend'']"

definition plural :: "int \<Rightarrow> string" where
  "plural n = (if n \<noteq> 1 then ''s'' else [])"

definition count_of :: "(string \<rightharpoonup> nat) \<Rightarrow> string \<Rightarrow> int" where
  "count_of m k = (case m k of Some n \<Rightarrow> int n | None \<Rightarrow> 0)"

definition broadcast_segment_picker :: "(string \<rightharpoonup> nat) \<Rightarrow> picker" where
  "broadcast_segment_picker counts = (let tot = count_of counts ''all_customers'' in
     if tot = 0 then (Plain ''You have no customers yet.'', ''Select'', [])
     else (Plain (''You have *'' @ show_int tot @ '' customers* in total.'' @ [CHR 0x0A, CHR 0x0A] @ ''Who should receive this broadcast?''), ''Select audience'',
       [(''Audience'', take 10 (map (\<lambda>k. (take 72 (''BCSEG_'' @ k), take 24 (case map_of SEGMENT_DISPLAY k of Some (l, _) \<Rightarrow> l | None \<Rightarrow> k),
           show_int (count_of counts k) @ '' customer'' @ plural (count_of counts k))) (filter (\<lambda>k. 0 < count_of counts k) SEGMENT_ORDER)))]))"

section \<open>Reading a tap on a product list\<close>

datatype list_tap = GoToPage int | Tapped string

text \<open>The branches of \<open>handle_trader_command\<close> for the prefixes RM and PR.\<close>

definition read_list_tap :: "string \<Rightarrow> string \<Rightarrow> list_tap" where
  "read_list_tap id_prefix message = (let stripped = upper (strip message); suffix = drop 3 (strip message) in
     if startswith stripped (id_prefix @ ''_NEXT_'') \<or> startswith stripped (id_prefix @ ''_PREV_'')
     then GoToPage (case py_int (last (split_on (\<lambda>c. c = CHR ''_'') suffix)) of Some n \<Rightarrow> n | None \<Rightarrow> 1)
     else Tapped suffix)"

section \<open>Properties\<close>

lemma concat_pages: "concat (map (\<lambda>i. take k (drop (i * k) xs)) [0..<m]) = take (m * k) xs"
  by (induction m) (simp_all add: add.commute [of k] take_add)

lemma upto_shift: "[1..int m] = map (\<lambda>i. int i + 1) [0..<m]"
proof (induction m)
  case (Suc m)
  have "[1..int m + 1] = [1..int m] @ [int m + 1]" by (subst upto_rec2) simp_all
  then show ?case by (simp add: Suc add.commute)
qed simp

lemma strip_last:
  assumes "strip s = s" and "s \<noteq> []"
  shows "\<not> is_space (last s)"
proof -
  have "rev s = dropWhile is_space (rev (lstrip s))" using arg_cong [OF assms(1), of rev] by (simp add: strip_def rstrip_def)
  moreover have "rev s \<noteq> []" using assms(2) by simp
  ultimately have "\<not> is_space (hd (rev s))" by (metis hd_dropWhile)
  then show ?thesis using assms(2) by (simp add: hd_rev)
qed

abbreviation is_list_prefix :: "string \<Rightarrow> bool" where
  "is_list_prefix prefix \<equiv> prefix = ''RM'' \<or> prefix = ''PR''"

lemma strip_prefixed:
  assumes "strip name = name" and "is_list_prefix prefix"
  shows "strip (prefix @ ''_'' @ name) = prefix @ ''_'' @ name"
proof (rule strip_id)
  show "\<not> is_space (hd (prefix @ ''_'' @ name))" using assms(2) by (auto simp: is_space_def Let_def)
  show "\<not> is_space (last (prefix @ ''_'' @ name))"
    using assms strip_last [OF assms(1)] by (cases "name = []") (auto simp: is_space_def Let_def)
qed simp

lemma read_prefixed:
  assumes "strip name = name" and "is_list_prefix prefix"
  shows "read_list_tap prefix (prefix @ ''_'' @ name) = (if startswith (upper name) ''NEXT_'' \<or> startswith (upper name) ''PREV_''
     then GoToPage (case py_int (last (split_on (\<lambda>c. c = CHR ''_'') name)) of Some n \<Rightarrow> n | None \<Rightarrow> 1) else Tapped name)"
proof -
  have "upper (prefix @ ''_'' @ name) = prefix @ ''_'' @ upper name" using assms(2) by (auto simp: upper_def) (code_simp)+
  then show ?thesis using assms(2) strip_prefixed [OF assms] by (auto simp: read_list_tap_def startswith_def eval_nat_numeral)
qed

lemma read_nav:
  assumes "is_list_prefix prefix" and "dir = ''NEXT'' \<or> dir = ''PREV''" and "0 \<le> q"
  shows "read_list_tap prefix (fst (nav_row prefix dir l q tot)) = GoToPage q"
proof -
  let ?s = "show_nat (nat q)"
  have d: "\<forall>c\<in>set ?s. is_digit c" using show_nat_digits by (simp add: list_all_iff)
  then have u: "\<forall>c\<in>set ?s. c \<noteq> CHR ''_''" by (auto simp: is_digit_def)
  have "split_acc (\<lambda>c. c = CHR ''_'') [] ?s = [?s]" using split_acc_plain [of ?s "\<lambda>c. c = CHR ''_''" "[]" "[]"] u by simp
  then have sp: "last (split_on (\<lambda>c. c = CHR ''_'') (dir @ ''_'' @ ?s)) = ?s" using assms(2) by (auto simp: split_on_def)
  have st: "strip (dir @ ''_'' @ ?s) = dir @ ''_'' @ ?s"
    using assms(2) last_show_nat [of "nat q"] show_nat_nonempty [of "nat q"] by (intro strip_id) (auto simp: is_space_def Let_def)
  have up: "startswith (upper (dir @ ''_'' @ ?s)) (dir @ ''_'')" using assms(2) by (auto simp: upper_def startswith_def) (code_simp)+
  have up': "startswith (upper (dir @ ''_'' @ ?s)) ''NEXT_'' \<or> startswith (upper (dir @ ''_'' @ ?s)) ''PREV_''" using up assms(2) by auto
  have "fst (nav_row prefix dir l q tot) = prefix @ ''_'' @ dir @ ''_'' @ ?s" using assms(3) by (simp add: nav_row_def show_int_def)
  moreover have "read_list_tap prefix (prefix @ ''_'' @ dir @ ''_'' @ ?s) = GoToPage q"
    unfolding read_prefixed [OF st assms(1)] sp using up' assms(3) by (simp add: py_int_show_nat)
  ultimately show ?thesis by simp
qed

definition nav_rows :: "string \<Rightarrow> int \<Rightarrow> nat \<Rightarrow> picker_row list" where
  "nav_rows prefix p tot = (if 1 < p then [nav_row prefix ''PREV'' ''Previous page'' (p - 1) tot] else [])
     @ (if p < int tot then [nav_row prefix ''NEXT'' ''Next page'' (p + 1) tot] else [])"

lemma nav_rows_lead:
  assumes "is_list_prefix prefix" and "p \<in> {1..int tot}"
  shows "map (read_list_tap prefix \<circ> fst) (nav_rows prefix p tot)
    = (if 1 < p then [GoToPage (p - 1)] else []) @ (if p < int tot then [GoToPage (p + 1)] else [])"
  using assms by (simp add: nav_rows_def read_nav del: One_nat_def)

text \<open>
  C17: a trader reaches every product of a long list. Whatever page is asked for, a page of a product list has at most ten rows, the limit of
  WhatsApp; page numbers out of range are the nearest page. The pages together show every product exactly once in order, and
  the rows for the next and the previous page, when tapped, are read as these pages. A tap on a product is read as its
  name, unless the name is longer than 69 characters, has spaces around it or begins like a row for a page.
\<close>

theorem product_pages:
  fixes ps :: "(string \<times> int) list" and prefix :: string and show_price :: bool
  assumes "is_list_prefix prefix"
  defines "n \<equiv> snd (paginate_product_rows ps 1 prefix show_price)"
  shows "(\<forall>p. paginate_product_rows ps p prefix show_price = paginate_product_rows ps (max 1 (min p (int n))) prefix show_price
        \<and> length (fst (paginate_product_rows ps p prefix show_price)) \<le> 10)
    \<and> (\<exists>shown. (\<forall>p\<in>{1..int n}. \<exists>nav. paginate_product_rows ps p prefix show_price = (map (product_row prefix show_price) (shown p) @ nav, n)
          \<and> map (read_list_tap prefix \<circ> fst) nav = (if 1 < p then [GoToPage (p - 1)] else []) @ (if p < int n then [GoToPage (p + 1)] else []))
        \<and> concat (map shown [1..int n]) = ps)
    \<and> (\<forall>name price. length name \<le> 69 \<and> strip name = name \<and> \<not> startswith (upper name) ''NEXT_'' \<and> \<not> startswith (upper name) ''PREV_''
         \<longrightarrow> read_list_tap prefix (fst (product_row prefix show_price (name, price))) = Tapped name)"
proof (intro conjI allI impI)
  let ?row = "product_row prefix show_price" and ?pages = "\<lambda>p. paginate_product_rows ps p prefix show_price"
  have n: "n = (if length ps \<le> 10 then 1 else (length ps + PAGE_SIZE - 1) div PAGE_SIZE)"
    by (simp add: n_def paginate_product_rows_def Let_def)
  have long: "?pages p = (let q = max 1 (min p (int n)) in (map ?row (take PAGE_SIZE (drop ((nat q - 1) * PAGE_SIZE) ps)) @ nav_rows prefix q n, n))"
    if "10 < length ps" for p
    using that by (simp add: paginate_product_rows_def Let_def n nav_rows_def)
  have few: "?pages p = (map ?row ps, 1)" if "length ps \<le> 10" for p using that by (simp add: paginate_product_rows_def Let_def)
  have n1: "1 \<le> n" using div_le_mono [of 8 "length ps + 8 - 1" 8] unfolding n PAGE_SIZE_def by auto
  fix p
  show "?pages p = ?pages (max 1 (min p (int n)))"
  proof (cases "length ps \<le> 10")
    case True
    then show ?thesis by (simp add: few)
  next
    case False
    have "max 1 (min (max 1 (min p (int n))) (int n)) = max 1 (min p (int n))" using n1 by auto
    with False show ?thesis by (simp add: long)
  qed
  show "length (fst (?pages p)) \<le> 10"
    by (cases "length ps \<le> 10") (auto simp: few long Let_def nav_rows_def PAGE_SIZE_def)
next
  let ?row = "product_row prefix show_price" and ?pages = "\<lambda>p. paginate_product_rows ps p prefix show_price"
  have n: "n = (if length ps \<le> 10 then 1 else (length ps + PAGE_SIZE - 1) div PAGE_SIZE)"
    by (simp add: n_def paginate_product_rows_def Let_def)
  define shown where "shown p = (if length ps \<le> 10 then ps else take PAGE_SIZE (drop ((nat p - 1) * PAGE_SIZE) ps))" for p :: int
  show "\<exists>shown. (\<forall>p\<in>{1..int n}. \<exists>nav. ?pages p = (map ?row (shown p) @ nav, n)
          \<and> map (read_list_tap prefix \<circ> fst) nav = (if 1 < p then [GoToPage (p - 1)] else []) @ (if p < int n then [GoToPage (p + 1)] else []))
        \<and> concat (map shown [1..int n]) = ps"
  proof (intro exI [of _ shown] conjI ballI)
    fix p assume p: "p \<in> {1..int n}"
    then have q: "max 1 (min p (int n)) = p" by simp
    have "?pages p = (map ?row (shown p) @ nav_rows prefix p n, n)"
    proof (cases "length ps \<le> 10")
      case True
      with p n have "p = 1" "n = 1" by simp_all
      with True show ?thesis by (simp add: paginate_product_rows_def nav_rows_def shown_def)
    next
      case False
      then have tot: "(length ps + PAGE_SIZE - 1) div PAGE_SIZE = n" by (simp add: n)
      from False show ?thesis by (simp only: paginate_product_rows_def Let_def tot q nav_rows_def shown_def if_False append_assoc)
    qed
    then show "\<exists>nav. ?pages p = (map ?row (shown p) @ nav, n)
          \<and> map (read_list_tap prefix \<circ> fst) nav = (if 1 < p then [GoToPage (p - 1)] else []) @ (if p < int n then [GoToPage (p + 1)] else [])"
      using nav_rows_lead [OF assms(1) p] by blast
  next
    have "length ps \<le> n * PAGE_SIZE" if "10 < length ps" using that unfolding n PAGE_SIZE_def by simp
    moreover have "nat (int i + 1) - 1 = i" for i by simp
    ultimately show "concat (map shown [1..int n]) = ps"
      using concat_pages [of PAGE_SIZE ps n] by (cases "length ps \<le> 10") (simp_all add: upto_shift shown_def comp_def n)
  qed
next
  fix name and price :: int
  assume a: "length name \<le> 69 \<and> strip name = name \<and> \<not> startswith (upper name) ''NEXT_'' \<and> \<not> startswith (upper name) ''PREV_''"
  then have "fst (product_row prefix show_price (name, price)) = prefix @ ''_'' @ name" using assms(1) by (auto simp: product_row_def)
  then show "read_list_tap prefix (fst (product_row prefix show_price (name, price))) = Tapped name"
    using a read_prefixed [OF _ assms(1), of name] by simp
qed

definition eleven_products :: "(string \<times> int) list" where
  "eleven_products = map (\<lambda>i. (''item '' @ show_nat i, 100)) [0..<11]"

theorem product_pages_witness:
  "is_list_prefix ''RM'' \<and> snd (paginate_product_rows eleven_products 1 ''RM'' True) = 2
   \<and> (\<exists>shown. concat (map shown [1..2]) = eleven_products)
   \<and> map (read_list_tap ''RM'' \<circ> fst) [nav_row ''RM'' ''NEXT'' ''Next page'' 2 2] = [GoToPage 2]
   \<and> read_list_tap ''RM'' (fst (product_row ''RM'' True (''rice'', 100))) = Tapped ''rice''"
proof -
  have n: "snd (paginate_product_rows eleven_products 1 ''RM'' True) = 2"
    by (simp add: paginate_product_rows_def eleven_products_def PAGE_SIZE_def)
  have rice: "length ''rice'' \<le> 69 \<and> strip ''rice'' = ''rice'' \<and> \<not> startswith (upper ''rice'') ''NEXT_'' \<and> \<not> startswith (upper ''rice'') ''PREV_''"
    by code_simp
  note all = product_pages [of "''RM''" eleven_products True, unfolded n]
  have shown: "\<exists>shown. concat (map shown [1..2]) = eleven_products" using all by auto
  have tap: "read_list_tap ''RM'' (fst (product_row ''RM'' True (''rice'', 100))) = Tapped ''rice''" using all rice by blast
  have "read_list_tap ''RM'' (fst (nav_row ''RM'' ''NEXT'' ''Next page'' 2 2)) = GoToPage 2" by (rule read_nav) simp_all
  with n shown tap show ?thesis by simp
qed

end
