(* ===== verification/Product_Photos.thy ===== *)
theory Product_Photos
  imports Pickers Scheduler
begin

text \<open>
  Photos of products (\<open>src/app/modules/orders/service.py\<close>, \<open>product_images.py\<close>, \<open>product_descriptions.py\<close>,
  \<open>src/app/infra/storage.py\<close>): the photo a trader files under a product, the photo a customer asks about, and the trader's
  answer, from which photos like it are recognised later. Reading, hashing and resizing of pictures and the vision model
  are parameters; a picture is the list of its bytes, also where a session holds their base64 text.
\<close>

section \<open>Services around pictures\<close>

text \<open>
  The distance of two hashes is \<open>None\<close> when the library raises \<open>ValueError\<close> or \<open>TypeError\<close>. The vision model answers with a
  name and a confidence, a decimal.
\<close>

record media_lib =
  ml_studio :: studio
  ml_settings :: settings
  ml_resize :: "string \<Rightarrow> string option"
  ml_shrink :: "string \<Rightarrow> error + string"
  ml_cutout :: "string \<Rightarrow> error + string option"
  ml_phash :: "string \<Rightarrow> error + string"
  ml_distance :: "string \<Rightarrow> string \<Rightarrow> nat option"
  ml_vision :: "string \<Rightarrow> (string \<times> int) list \<Rightarrow> string \<Rightarrow> error + (string option \<times> rat)"
  ml_ocr :: "string \<Rightarrow> error + string"
  ml_products :: "string \<Rightarrow> string \<Rightarrow> error + (string \<times> int) list"
  ml_download :: "string \<Rightarrow> string \<Rightarrow> error + string"
  ml_transcribe :: "string \<Rightarrow> string \<Rightarrow> error + string"

definition product_key :: "string \<Rightarrow> string \<Rightarrow> string \<Rightarrow> string" where
  "product_key tp name ext = ''products/'' @ tp @ ''/'' @ slugify name @ ext"

definition upload_product_image :: "media_lib \<Rightarrow> string \<Rightarrow> string \<Rightarrow> string \<Rightarrow> string option \<times> string option" where
  "upload_product_image ml tp name bytes = (let sd = ml_studio ml; url = card_url (ml_settings ml);
       small = (case ml_resize ml bytes of Some b \<Rightarrow> b | None \<Rightarrow> bytes) in
     if \<not> sd_client sd then (None, None)
     else case sd_put sd (product_key tp name ''.jpg'') small ''image/jpeg'' of Inl _ \<Rightarrow> (None, None)
       | Inr _ \<Rightarrow> (Some (url (product_key tp name ''.jpg'')), case ml_cutout ml small of
             Inr (Some b) \<Rightarrow> if b = [] then None
               else (case sd_put sd (product_key tp name ''-nobg.png'') b ''image/png'' of Inl _ \<Rightarrow> None | Inr _ \<Rightarrow> Some (url (product_key tp name ''-nobg.png'')))
           | _ \<Rightarrow> None))"

definition hash_or_none :: "media_lib \<Rightarrow> string \<Rightarrow> string option" where
  "hash_or_none ml bytes = (case ml_phash ml bytes of Inl _ \<Rightarrow> None | Inr h \<Rightarrow> Some h)"

section \<open>Stored photos\<close>

definition image_get :: "string \<Rightarrow> string \<Rightarrow> product_image option svc" where
  "image_get tp name = bindA (getA product_images) (\<lambda>is.
     liftE (scalar_one_or_none (filter (\<lambda>i. pi_trader_phone i = tp \<and> pi_product_name i = name) is)))"

definition image_upsert :: "string \<Rightarrow> string \<Rightarrow> string \<Rightarrow> string option \<Rightarrow> string option \<Rightarrow> unit svc" where
  "image_upsert tp name url nobg hash = bindA (image_get tp name) (\<lambda>existing. case existing of
     Some _ \<Rightarrow> modA (\<lambda>w. w\<lparr>product_images := update_where (\<lambda>i. pi_trader_phone i = tp \<and> pi_product_name i = name)
       (\<lambda>i. i\<lparr>pi_image_url := url, pi_image_nobg_url := (if nobg \<noteq> None then nobg else pi_image_nobg_url i),
              pi_image_hash := (if truthy_str hash then hash else pi_image_hash i)\<rparr>) (product_images w)\<rparr>)
   | None \<Rightarrow> modA (\<lambda>w. w\<lparr>product_images := product_images w @ [\<lparr>pi_trader_phone = tp, pi_product_name = name, pi_image_url = url,
       pi_image_nobg_url = nobg, pi_image_hash = hash\<rparr>]\<rparr>))"

definition save_product_image :: "media_lib \<Rightarrow> string \<Rightarrow> string \<Rightarrow> string \<Rightarrow> string option svc" where
  "save_product_image ml tp name bytes = (let (url, nobg) = upload_product_image ml tp name bytes in
     if \<not> truthy_str url then ret None
     else thenA (session_begin (image_upsert tp name (or_empty url) nobg (hash_or_none ml bytes))) (ret url))"

section \<open>Photos a trader sends\<close>

text \<open>Pickers, buttons and prompts to the trader.\<close>

definition send_picker :: "gateway \<Rightarrow> command \<Rightarrow> string \<Rightarrow> picker \<Rightarrow> unit svc" where
  "send_picker gw cm name pk = reply_list gw (cm_trader_phone cm) (cm_tenant_id cm) (cm_event name cm) (fst pk) (fst (snd pk)) (snd (snd pk))
     (cm_channel_tenant_id cm)"

definition tell_trader :: "gateway \<Rightarrow> command \<Rightarrow> string \<Rightarrow> body \<Rightarrow> unit svc" where
  "tell_trader gw cm name msg = to_trader gw cm (cm_event name cm) msg"

definition ask_trader :: "gateway \<Rightarrow> command \<Rightarrow> string \<Rightarrow> body \<Rightarrow> unit svc" where
  "ask_trader gw cm name msg = reply_with_cancel gw (cm_trader_phone cm) (cm_tenant_id cm) (cm_event name cm) msg (cm_channel_tenant_id cm)"

definition offer_buttons :: "gateway \<Rightarrow> command \<Rightarrow> string \<Rightarrow> body \<Rightarrow> (string \<times> string) list \<Rightarrow> unit svc" where
  "offer_buttons gw cm name msg bs = reply_interactive gw (cm_trader_phone cm) (cm_tenant_id cm) (cm_event name cm) msg bs (cm_channel_tenant_id cm) None"

definition enter_session :: "command \<Rightarrow> string \<Rightarrow> payload \<Rightarrow> unit svc" where
  "enter_session cm state p = set_trader_session (cm_trader_phone cm) (TraderSessionDoc state p)"

definition file_photo :: "gateway \<Rightarrow> media_lib \<Rightarrow> command \<Rightarrow> string \<times> int \<Rightarrow> string \<Rightarrow> unit svc" where
  "file_photo gw ml cm np bytes = thenA (save_product_image ml (cm_trader_phone cm) (fst np) bytes)
     (tell_trader gw cm ''trader.photo_saved'' (Template ''product_photo_saved'' [JStr (fst np), JInt (snd np)]))"

definition base64_length :: "string \<Rightarrow> nat" where
  "base64_length bytes = 4 * ((length bytes + 2) div 3)"

definition handle_trader_product_photo :: "gateway \<Rightarrow> media_lib \<Rightarrow> command \<Rightarrow> string \<Rightarrow> unit svc" where
  "handle_trader_product_photo gw ml cm bytes = (let d = tr_catalogue (cm_trader cm); message = cm_message cm;
       caption = (if message \<noteq> [] \<and> message \<noteq> ''[image]'' then strip message else []);
       ask = (case product_photo_which_product d of None \<Rightarrow> ret ()
         | Some pk \<Rightarrow> bindA (if 700000 < base64_length bytes then liftE (ml_shrink ml bytes) else ret bytes) (\<lambda>kept.
             thenA (enter_session cm ''awaiting_photo_product'' [(''image_b64'', JStr kept)]) (send_picker gw cm ''trader.photo_pick'' pk))) in
     case (if caption = [] then None else find (\<lambda>(k, v). contains (lower k) (lower caption) \<or> contains (lower caption) (lower k)) d) of
       Some np \<Rightarrow> if fst np = [] then ask else file_photo gw ml cm np bytes
     | None \<Rightarrow> ask)"

text \<open>The product tapped or typed after a photo was sent.\<close>

definition photo_product_answer :: "gateway \<Rightarrow> media_lib \<Rightarrow> command \<Rightarrow> payload \<Rightarrow> unit svc" where
  "photo_product_answer gw ml cm ts = thenA (clear_trader_session (cm_trader_phone cm))
     (let typed = strip (cm_message cm); name = (if startswith (upper typed) ''PHOT_'' then drop 5 typed else typed); bytes = payload_str ts ''image_b64'';
          unknown = tell_trader gw cm ''trader.photo_nomatch'' (Template ''product_not_found'' [JStr name]) in
      case matched_key name (tr_catalogue (cm_trader cm)) of
        None \<Rightarrow> unknown
      | Some np \<Rightarrow> if fst np = [] then unknown else if bytes = [] then ret () else file_photo gw ml cm np bytes)"

section \<open>Learned photos\<close>

definition MAX_HAMMING_DISTANCE :: nat where "MAX_HAMMING_DISTANCE = 12"

definition save_description :: "string \<Rightarrow> string \<Rightarrow> int option \<Rightarrow> string option \<Rightarrow> unit svc" where
  "save_description tp name price hash = bindA uuid4 (\<lambda>i. modA (\<lambda>w. w\<lparr>product_descriptions := product_descriptions w @
     [\<lparr>pd_id = i, pd_trader_phone = tp, pd_product_name = name, pd_price = price, pd_description = None, pd_image_hash = hash,
       pd_confirmed = True, pd_created_at = clock w\<rparr>]\<rparr>))"

definition list_confirmed_for_trader :: "string \<Rightarrow> world \<Rightarrow> product_description list" where
  "list_confirmed_for_trader tp w = order_by_desc pd_created_at
     (filter (\<lambda>p. pd_trader_phone p = tp \<and> pd_confirmed p \<and> pd_image_hash p \<noteq> None) (product_descriptions w))"

text \<open>The price of a learned photo: the catalogue's if it lists the product, else the one the trader answered.\<close>

definition learned_price :: "(string \<times> int) list \<Rightarrow> product_description \<Rightarrow> int option" where
  "learned_price d p = (case matched_key (pd_product_name p) d of Some (k, v) \<Rightarrow> Some v | None \<Rightarrow> pd_price p)"

definition closer_match :: "media_lib \<Rightarrow> string \<Rightarrow> (string \<times> int) list \<Rightarrow> product_description \<Rightarrow> (string \<times> int \<times> nat) option
    \<Rightarrow> (string \<times> int \<times> nat) option" where
  "closer_match ml h d p best = (let best_distance = (case best of None \<Rightarrow> Suc MAX_HAMMING_DISTANCE | Some (_, _, b) \<Rightarrow> b) in
     if \<not> truthy_str (pd_image_hash p) then best
     else case ml_distance ml h (or_empty (pd_image_hash p)) of None \<Rightarrow> best
       | Some k \<Rightarrow> if best_distance \<le> k \<or> MAX_HAMMING_DISTANCE < k then best
           else (case learned_price d p of None \<Rightarrow> best | Some price \<Rightarrow> Some (pd_product_name p, price, k)))"

definition find_best_match :: "media_lib \<Rightarrow> string \<Rightarrow> string \<Rightarrow> (string \<times> int) list \<Rightarrow> world \<Rightarrow> (string \<times> int \<times> nat) option" where
  "find_best_match ml tp h d w = fold (closer_match ml h d) (list_confirmed_for_trader tp w) None"

section \<open>A customer's photo\<close>

text \<open>The name the model gives counts only when the catalogue has it.\<close>

definition describe_product_image :: "media_lib \<Rightarrow> string \<Rightarrow> (string \<times> int) list \<Rightarrow> string \<Rightarrow> error + (string option \<times> int option \<times> rat)" where
  "describe_product_image ml bytes d category = (case ml_vision ml bytes d category of Inl e \<Rightarrow> Inl e
   | Inr (name, conf) \<Rightarrow> Inr (if \<not> truthy_str name then (name, None, conf)
       else case matched_key (strip (or_empty name)) d of Some (k, v) \<Rightarrow> (Some k, Some v, conf) | None \<Rightarrow> (None, None, min conf (3 / 10))))"

definition match_by_vision :: "gateway \<Rightarrow> media_lib \<Rightarrow> inbound \<Rightarrow> string \<Rightarrow> string \<Rightarrow> bool svc" where
  "match_by_vision gw ml ib media bytes = (let d = tr_catalogue (ib_trader ib) in
     if d = [] then ret False
     else thenA (to_customer gw ib (event_of ''order.image_ack'' ib) (Plain ''I see your photo! Let me check...''))
       (tryA (bindA (liftE (describe_product_image ml bytes d (tr_business_category (ib_trader ib)))) (\<lambda>(name, price, conf).
            if truthy_str name \<and> truthy_int price \<and> 7 / 10 \<le> conf
            then thenA (create_image_order gw (ib\<lparr>ib_customer_name := None\<rparr>) (or_empty name) (the price) (Some media)) (ret True) else ret False))
          (\<lambda>_. ret False)))"

definition forward_inquiry :: "gateway \<Rightarrow> media_lib \<Rightarrow> inbound \<Rightarrow> string \<Rightarrow> string \<Rightarrow> string option \<Rightarrow> unit svc" where
  "forward_inquiry gw ml ib media bytes h = (let tp = tr_phone_number (ib_trader ib); cp = ib_customer_phone ib in
     thenA (log_interest_event (ib_tenant_id ib) tp cp (ib_customer_name ib) ''(photo inquiry)'' None IMAGE_INQUIRY)
     (thenA (to_customer gw ib (event_of ''order.image_forwarded'' ib) (Template ''image_inquiry_forwarded'' [JStr (tr_business_name (ib_trader ib))]))
     (if tp = [] then ret ()
      else thenA (reply_image gw tp (ib_tenant_id ib) (event_of ''order.image_to_trader'' ib) media (Some (Template ''image_inquiry_to_trader'' [JStr cp]))
            (ib_channel_tenant_id ib))
        (set_pending_image_inquiry tp (ImageInquiryDoc cp [(''image_hash'', JStr (or_empty h)),
          (''image_url'', JStr (or_empty (fst (upload_product_image ml tp (''_pending_'' @ (if truthy_str h then or_empty h else cp)) bytes)))),
          (''tenant_id'', JStr (ib_tenant_id ib)), (''conversation_id'', JStr (ib_conversation_id ib)),
          (''channel_tenant_id'', JStr (or_empty (ib_channel_tenant_id ib)))])))))"

definition handle_image_inquiry :: "gateway \<Rightarrow> media_lib \<Rightarrow> inbound \<Rightarrow> string \<Rightarrow> string \<Rightarrow> unit svc" where
  "handle_image_inquiry gw ml ib media bytes = (let tp = tr_phone_number (ib_trader ib); h = hash_or_none ml bytes in
     bindA (get_open_order_by_customer_phone (ib_customer_phone ib) (ib_tenant_id ib)) (\<lambda>ord.
       if (case ord of Some x \<Rightarrow> o_state x = CONFIRMED | None \<Rightarrow> False) then handle_payment_sent gw ib True
       else bindA (if truthy_str h \<and> tp \<noteq> [] then getA (find_best_match ml tp (or_empty h) (tr_catalogue (ib_trader ib))) else ret None) (\<lambda>learned.
         case learned of
           Some (product, price, _) \<Rightarrow> create_image_order gw (ib\<lparr>ib_customer_name := None\<rparr>) product price (Some media)
         | None \<Rightarrow> bindA (match_by_vision gw ml ib media bytes) (\<lambda>matched. if matched then ret () else forward_inquiry gw ml ib media bytes h))))"

section \<open>The trader's answer\<close>

text \<open>The last number of the text, commas between digits removed, and what stands before it.\<close>

definition split_last_number :: "string \<Rightarrow> (string \<times> int) option" where
  "split_last_number s = (let r = dropWhile (\<lambda>c. \<not> is_digit c) (rev s); d = takeWhile is_digit r in
     if d = [] then None else Some (rev (drop (length d) r), digits_val (rev d)))"

definition drop_trailing_marks :: "string \<Rightarrow> string" where
  "drop_trailing_marks s = rev (dropWhile (\<lambda>c. c = CHR ''-'' \<or> c = CHR '':'') (rev s))"

definition answered_name :: "(string \<times> int) list \<Rightarrow> string \<Rightarrow> string" where
  "answered_name d part = (if part = [] then ''Product''
     else case find (\<lambda>(k, v). contains (lower k) (lower part) \<or> contains (lower part) (lower k)) d of
       Some (k, v) \<Rightarrow> if k = [] then part else k | None \<Rightarrow> part)"

definition name_interest :: "string \<Rightarrow> string \<Rightarrow> string \<Rightarrow> int \<Rightarrow> unit svc" where
  "name_interest tp cp name price = modA (\<lambda>w. w\<lparr>interest_events := update_where (\<lambda>e. ie_trader_phone e = tp \<and> ie_customer_phone e = cp
     \<and> ie_product_name e = ''(photo inquiry)'' \<and> \<not> ie_converted e) (\<lambda>e. e\<lparr>ie_product_name := name, ie_price := Some price\<rparr>) (interest_events w)\<rparr>)"

text \<open>
  Placing the order commits the session of the event handler, and the answer then commits it once more. The session was opened
  with \<open>async_session_factory.begin()\<close>, whose block allows one commit: the second raises \<open>InvalidRequestError\<close>. What
  the first one wrote stays, and nothing after it runs.
\<close>

definition answer_inquiry :: "gateway \<Rightarrow> command \<Rightarrow> string \<Rightarrow> payload \<Rightarrow> string \<Rightarrow> int \<Rightarrow> unit svc" where
  "answer_inquiry gw cm cp p name price = (let tp = cm_trader_phone cm; h = payload_str p ''image_hash''; url = payload_str p ''image_url'';
       conv = payload_str p ''conversation_id''; ch = payload_str p ''channel_tenant_id''; hash = (if h = [] then None else Some h) in
     thenA (save_description tp name (Some price) hash)
     (thenA (if url = [] then ret () else tryA (session_begin (image_upsert tp name url None hash)) (\<lambda>_. ret ()))
     (thenA (tell_trader gw cm ''order.image_learned'' (Template ''image_inquiry_price_saved'' [JStr name, JInt price]))
     (thenA (if cp = [] then ret () else name_interest tp cp name price)
     (if cp \<noteq> [] \<and> conv \<noteq> [] then thenA (create_image_order gw \<lparr>ib_tenant_id = payload_str p ''tenant_id'', ib_conversation_id = conv, ib_customer_phone = cp, ib_message = [],
           ib_message_id = cm_message_id cm, ib_trader = cm_trader cm, ib_channel_tenant_id = (if ch = [] then None else Some ch), ib_customer_name = None\<rparr>
         name price None) (raise InvalidRequestError)
      else thenA (clear_pending_image_inquiry tp (Some cp))
       (bindA (count_pending_image_inquiries tp) (\<lambda>remaining. if 0 < remaining
          then tell_trader gw cm ''order.image_more_pending'' (Template ''image_inquiry_more_pending'' [JInt (int remaining)]) else ret ())))))))"

definition handle_image_inquiry_reply :: "gateway \<Rightarrow> command \<Rightarrow> bool svc" where
  "handle_image_inquiry_reply gw cm = bindA (get_pending_image_inquiry (cm_trader_phone cm)) (\<lambda>pending. case pending of
     Some (ImageInquiryDoc cp p) \<Rightarrow> (case split_last_number (strip_number_commas (strip (cm_message cm))) of
         None \<Rightarrow> ret False
       | Some (before, price) \<Rightarrow> if price \<le> 0 then ret False
           else thenA (answer_inquiry gw cm cp p (answered_name (tr_catalogue (cm_trader cm)) (strip (drop_trailing_marks (strip before)))) price) (ret True))
   | _ \<Rightarrow> ret False)"

section \<open>Orders are only touched in the allowed ways\<close>

lemma upsert_moves: "moves order_touch (session_begin (image_upsert tp name url nobg hash))"
  unfolding image_upsert_def image_get_def
  by (intro trader_change.moves_session touch_rules trader_change.moves_same) (simp_all add: later_def)

lemma redis_moves: "moves order_touch (cache_setex k n d)" "moves order_touch (cache_delete k)" "moves order_touch (cache_get k)"
  "moves order_touch (set_trader_session p d)" "moves order_touch (clear_trader_session p)" "moves order_touch (get_trader_session p)"
  "moves order_touch (enter_session cm st pl)"
  by (rule trader_change.moves_same; simp add: session_defs set_trader_session_def clear_trader_session_def get_trader_session_def
      enter_session_def later_def)+

lemma inquiry_moves:
  "moves order_touch (set_pending_image_inquiry tp d)" "moves order_touch (drop_inquiry tp cp)" "moves order_touch (clear_pending_image_inquiry tp c)"
  "moves order_touch (count_pending_image_inquiries tp)" "moves order_touch (first_inquiry tp cps)"
proof -
  have red: "moves order_touch (modA (\<lambda>w. w\<lparr>redis := f w\<rparr>))" for f by (rule trader_change.moves_same) (simp add: later_def)
  note rules = red redis_moves touch_rules
  show "moves order_touch (set_pending_image_inquiry tp d)" unfolding set_pending_image_inquiry_def Let_def by (intro rules)
  show d: "moves order_touch (drop_inquiry tp cp)" for cp unfolding drop_inquiry_def by (intro rules)
  show "moves order_touch (clear_pending_image_inquiry tp c)" unfolding clear_pending_image_inquiry_def by (intro rules d)
  show "moves order_touch (count_pending_image_inquiries tp)" unfolding count_pending_image_inquiries_def by (intro rules)
  show "moves order_touch (first_inquiry tp cps)"
  proof (induction cps)
    case (Cons cp cps)
    show ?case unfolding first_inquiry.simps by (intro rules Cons.IH)
  qed (simp only: first_inquiry.simps trader_change.moves_ret)
qed

lemma talk_moves: "moves order_touch (send_picker gw cm n pk)" "moves order_touch (tell_trader gw cm n m)" "moves order_touch (ask_trader gw cm n m)"
  "moves order_touch (offer_buttons gw cm n m bs)"
  unfolding send_picker_def tell_trader_def ask_trader_def offer_buttons_def by (intro touch_rules)+

lemma save_description_moves: "moves order_touch (save_description tp n pr h)"
  by (rule trader_change.moves_same) (simp add: save_description_def bindA_apply later_def)

lemma name_interest_moves: "moves order_touch (name_interest tp cp n pr)"
  by (rule trader_change.moves_same) (simp add: name_interest_def later_def)

lemmas photo_rules = touch_rules redis_moves inquiry_moves talk_moves upsert_moves save_description_moves name_interest_moves flow_touch [OF image_flow]
  flow_touch [OF payment_sent_flow]

lemma photo_moves:
  "moves order_touch (handle_trader_product_photo gw ml cm bytes)" "moves order_touch (photo_product_answer gw ml cm ts)"
  "moves order_touch (handle_image_inquiry gw ml ib media bytes)" "moves order_touch (handle_image_inquiry_reply gw cm)"
proof -
  have img: "moves order_touch (create_image_order gw ib n p m)" for ib n p m by (rule flow_touch [OF image_flow])
  have filed: "moves order_touch (file_photo gw ml cm np b)" for np b
    unfolding file_photo_def save_product_image_def case_prod_beta Let_def by (intro photo_rules)
  show "moves order_touch (handle_trader_product_photo gw ml cm bytes)"
    unfolding handle_trader_product_photo_def Let_def by (intro photo_rules filed)
  show "moves order_touch (photo_product_answer gw ml cm ts)" unfolding photo_product_answer_def Let_def by (intro photo_rules filed)
  have vision: "moves order_touch (match_by_vision gw ml ib media bytes)"
    unfolding match_by_vision_def Let_def case_prod_beta by (intro photo_rules img)
  have fwd: "moves order_touch (forward_inquiry gw ml ib media bytes h)" for h
    unfolding forward_inquiry_def Let_def by (intro photo_rules)
  show "moves order_touch (handle_image_inquiry gw ml ib media bytes)"
    unfolding handle_image_inquiry_def Let_def case_prod_beta by (intro photo_rules img vision fwd flow_touch [OF payment_sent_flow])
  have ans: "moves order_touch (answer_inquiry gw cm cp p n pr)" for cp p n pr
    unfolding answer_inquiry_def Let_def by (intro photo_rules img)
  have doc: "moves order_touch (case d of ImageInquiryDoc cp p \<Rightarrow> f cp p | _ \<Rightarrow> ret False)" if "\<And>cp p. moves order_touch (f cp p)" for d and f :: "string \<Rightarrow> payload \<Rightarrow> bool svc"
    using that by (cases d) (simp_all add: trader_change.moves_ret)
  show "moves order_touch (handle_image_inquiry_reply gw cm)"
    unfolding handle_image_inquiry_reply_def get_pending_image_inquiry_def Let_def case_prod_beta by (intro photo_rules ans doc)
qed

section \<open>Learning from an answer\<close>

text \<open>A photo is farther from another hash than \<open>k\<close>, or cannot be compared with it.\<close>

definition farther :: "media_lib \<Rightarrow> string \<Rightarrow> nat \<Rightarrow> product_description \<Rightarrow> bool" where
  "farther ml h k p \<longleftrightarrow> (\<forall>j. ml_distance ml h (or_empty (pd_image_hash p)) = Some j \<longrightarrow> k < j)"

lemma closer_skips: "farther ml h k p \<Longrightarrow> closer_match ml h d p (Some (n, pr, k)) = Some (n, pr, k)"
  by (auto simp: closer_match_def farther_def Let_def split: option.splits)

lemma closer_far:
  assumes "farther ml h k p" and "best = None \<or> (\<exists>n pr j. best = Some (n, pr, j) \<and> k < j)"
  shows "closer_match ml h d p best = None \<or> (\<exists>n pr j. closer_match ml h d p best = Some (n, pr, j) \<and> k < j)"
  using assms by (auto simp: closer_match_def farther_def Let_def split: option.splits)

lemma closest_found:
  assumes q: "ml_distance ml h (or_empty (pd_image_hash q)) = Some k" "k \<le> MAX_HAMMING_DISTANCE" "truthy_str (pd_image_hash q)"
    "learned_price d q = Some pr"
    and "q \<in> set xs" and "\<forall>p\<in>set xs. p = q \<or> farther ml h k p"
    and "best = None \<or> (\<exists>n pr j. best = Some (n, pr, j) \<and> k < j)"
  shows "fold (closer_match ml h d) xs best = Some (pd_product_name q, pr, k)"
  using assms(5-)
proof (induction xs arbitrary: best)
  case (Cons x xs)
  show ?case
  proof (cases "x = q")
    case True
    have "closer_match ml h d q best = Some (pd_product_name q, pr, k)"
      using q Cons.prems(3) by (auto simp: closer_match_def Let_def split: option.splits)
    moreover have "closer_match ml h d q (Some (pd_product_name q, pr, k)) = Some (pd_product_name q, pr, k)"
      using q by (simp add: closer_match_def Let_def)
    moreover have "fold (closer_match ml h d) ys (Some (pd_product_name q, pr, k)) = Some (pd_product_name q, pr, k)"
      if "\<forall>p\<in>set ys. p = q \<or> farther ml h k p" for ys
      using that calculation(2) closer_skips by (induction ys) auto
    ultimately show ?thesis using True Cons.prems(2) by simp
  next
    case False
    with Cons.prems show ?thesis using closer_far [of ml h k x best d] by (simp add: Cons.IH)
  qed
qed simp

text \<open>What the steps of an answer keep.\<close>

definition kept :: "world \<Rightarrow> world \<Rightarrow> bool" where
  "kept w w' \<longleftrightarrow> orders w' = orders w \<and> order_items w' = order_items w \<and> product_descriptions w' = product_descriptions w
     \<and> redis w' = redis w \<and> clock w' = clock w"

lemma kept_refl [simp]: "kept w w" and kept_trans: "kept w w' \<Longrightarrow> kept w' w'' \<Longrightarrow> kept w w''"
  by (simp_all add: kept_def)

lemma aside_kept: "aside w w' \<Longrightarrow> kept w w'"
proof -
  assume a: "aside w w'"
  then have "core w' = core w" by (simp add: aside_def)
  from arg_cong [OF this, of product_descriptions] have "product_descriptions w' = product_descriptions w" by (simp add: core_def)
  with aside_fields [OF a] show ?thesis by (simp add: kept_def)
qed

definition keeping :: "'a svc \<Rightarrow> bool" where
  "keeping m \<longleftrightarrow> (\<forall>w. \<exists>x w'. m w = (Inr x, w') \<and> kept w w')"

lemma keepingE: assumes "keeping m" obtains x w' where "m w = (Inr x, w')" and "kept w w'"
  using assms unfolding keeping_def by blast

lemma keeping_quiet: "quiet m \<Longrightarrow> keeping m"
  unfolding quiet_def keeping_def using aside_kept by blast

lemma keeping_parts: "keeping (ret x)" "keeping (tell_trader gw cm n m)" "keeping (name_interest tp cp n pr)"
  "keeping (tryA (session_begin (image_upsert tp n u b h)) (\<lambda>_. ret ()))"
proof -
  show "keeping (ret x)" by (simp add: keeping_quiet)
  show "keeping (tell_trader gw cm n m)" unfolding tell_trader_def by (simp add: keeping_quiet)
  show "keeping (name_interest tp cp n pr)" by (simp add: keeping_def name_interest_def kept_def)
  show "keeping (tryA (session_begin (image_upsert tp n u b h)) (\<lambda>_. ret ()))"
    by (auto simp: keeping_def image_upsert_def image_get_def bindA_apply session_begin_def tryA_apply kept_def restore_db_def split: sum.splits option.splits)
qed

lemma image_order_spec:
  obtains w' rows where "create_image_order gw ib product price media w = (Inr (), w')" and "orders w' = orders w @ [new_order ib price w]"
    and "order_items w' = order_items w @ rows" and "map item_data rows = [(product, 1, of_int price)]"
    and "product_descriptions w' = product_descriptions w" and "clock w' = clock w"
    and "\<exists>d. redis w' = redis_setex (clock w) (session_key (ib_tenant_id ib) (ib_customer_phone ib)) SESSION_TTL d (redis w)"
proof (rule place_order_eq [of ib "[item product 1 (Some price)]" price w], fold new_order_def)
  fix rows
  let ?w1 = "w\<lparr>uuid_n := Suc (uuid_n w) + length [item product 1 (Some price)], orders := orders w @ [new_order ib price w], order_items := order_items w @ rows\<rparr>"
  let ?w2 = "?w1\<lparr>redis := redis_setex (clock w) (session_key (ib_tenant_id ib) (ib_customer_phone ib)) SESSION_TTL
      (ConfirmSession (Some (o_id (new_order ib price w))) [item product 1 (Some price)] price (if truthy_str media then media else None)) (redis w)\<rparr>"
  assume p: "place_order ib [item product 1 (Some price)] price w = (Inr (new_order ib price w), ?w1)"
    and rows: "map item_data rows = map (create_data \<circ> as_request) [item product 1 (Some price)]"
  obtain u w' where r: "reply_list gw (ib_customer_phone ib) (ib_tenant_id ib) (''order.image_matched.'' @ o_id (new_order ib price w))
          (Template ''image_inquiry_matched_list'' [JStr product, JInt price, JStr (tr_business_name (ib_trader ib))])
          ''Select quantity'' (quantity_rows product price) (ib_channel_tenant_id ib) ?w2 = (Inr u, w')" "aside ?w2 w'"
    by (rule quietE [OF reply_list_quiet])
  have "create_image_order gw ib product price media w = (Inr (), w')"
    using r(1) by (simp add: create_image_order_def bindA_apply thenA_apply p set_order_session_def cache_apply)
  moreover have "kept ?w2 w'" by (rule aside_kept [OF r(2)])
  moreover have "map item_data rows = [(product, 1, of_int price)]" using rows by (simp add: create_data_def as_request_def item_def price_of_def)
  ultimately show thesis by (intro that [of w' rows]) (auto simp: kept_def)
qed

lemma answer_spec:
  assumes "cp \<noteq> []" and "payload_str p ''conversation_id'' \<noteq> []" and "payload_str p ''image_hash'' = h" and "h \<noteq> []"
  obtains w' x rows q k d where "answer_inquiry gw cm cp p name price w = (Inl InvalidRequestError, w')" and "orders w' = orders w @ [x]"
    and "o_state x = INQUIRY" and "o_amount x = Some (of_int price)" and "o_customer_phone x = Some cp" and "o_tenant_id x = payload_str p ''tenant_id''"
    and "order_items w' = order_items w @ rows" and "map item_data rows = [(name, 1, of_int price)]"
    and "product_descriptions w' = product_descriptions w @ [q]" and "pd_trader_phone q = cm_trader_phone cm" and "pd_product_name q = name"
    and "pd_price q = Some price" and "pd_image_hash q = Some h" and "pd_confirmed q"
    and "clock w' = clock w" and "redis w' = redis_setex (clock w) (session_key (payload_str p ''tenant_id'') cp) SESSION_TTL d (redis w)"
proof -
  define q where "q = \<lparr>pd_id = uuid_src w (uuid_n w), pd_trader_phone = cm_trader_phone cm, pd_product_name = name, pd_price = Some price, pd_description = None,
    pd_image_hash = Some h, pd_confirmed = True, pd_created_at = clock w\<rparr>"
  define w1 where "w1 = w\<lparr>uuid_n := Suc (uuid_n w), product_descriptions := product_descriptions w @ [q]\<rparr>"
  have s: "save_description (cm_trader_phone cm) name (Some price) (Some h) w = (Inr (), w1)"
    by (simp add: save_description_def bindA_apply w1_def q_def)
  obtain w2 where w2: "(if payload_str p ''image_url'' = [] then ret () else tryA (session_begin (image_upsert (cm_trader_phone cm) name
      (payload_str p ''image_url'') None (Some h))) (\<lambda>_. ret ())) w1 = (Inr (), w2)" "kept w1 w2"
    by (rule keepingE [of "if payload_str p ''image_url'' = [] then ret () else tryA (session_begin (image_upsert (cm_trader_phone cm) name
      (payload_str p ''image_url'') None (Some h))) (\<lambda>_. ret ())" w1]) (auto simp: keeping_parts)
  obtain w3 where w3: "tell_trader gw cm ''order.image_learned'' (Template ''image_inquiry_price_saved'' [JStr name, JInt price]) w2 = (Inr (), w3)" "kept w2 w3"
    by (rule keepingE [OF keeping_parts(2)]) auto
  obtain w4 where w4: "name_interest (cm_trader_phone cm) cp name price w3 = (Inr (), w4)" "kept w3 w4"
    by (rule keepingE [OF keeping_parts(3)]) auto
  let ?ib = "\<lparr>ib_tenant_id = payload_str p ''tenant_id'', ib_conversation_id = payload_str p ''conversation_id'', ib_customer_phone = cp, ib_message = [],
     ib_message_id = cm_message_id cm, ib_trader = cm_trader cm,
     ib_channel_tenant_id = (if payload_str p ''channel_tenant_id'' = [] then None else Some (payload_str p ''channel_tenant_id'')), ib_customer_name = None\<rparr>"
  obtain w5 rows where w5: "create_image_order gw ?ib name price None w4 = (Inr (), w5)" "orders w5 = orders w4 @ [new_order ?ib price w4]"
    "order_items w5 = order_items w4 @ rows" "map item_data rows = [(name, 1, of_int price)]" "product_descriptions w5 = product_descriptions w4"
    "clock w5 = clock w4" "\<exists>d. redis w5 = redis_setex (clock w4) (session_key (ib_tenant_id ?ib) (ib_customer_phone ?ib)) SESSION_TTL d (redis w4)"
    by (rule image_order_spec)
  have k: "kept w1 w4" using w2(2) w3(2) w4(2) kept_trans by blast
  with w5(7) obtain d where "redis w5 = redis_setex (clock w) (session_key (payload_str p ''tenant_id'') cp) SESSION_TTL d (redis w)"
    by (auto simp: kept_def w1_def)
  moreover have "answer_inquiry gw cm cp p name price w = (Inl InvalidRequestError, w5)"
    by (simp only: answer_inquiry_def Let_def assms if_True if_False simp_thms thenA_apply raise_apply s w2(1) w3(1) w4(1) w5(1) prod.case sum.case)
  ultimately show thesis
    by (intro that [of w5 "new_order ?ib price w4" rows q d]) (use w5(2-6) k in \<open>simp_all add: kept_def w1_def q_def\<close>)
qed

text \<open>Looking up the pending inquiry removes only stale entries of the index, so it is found again while it lives.\<close>

lemma first_inquiry_tables: "snd (first_inquiry tp cps w) = w\<lparr>redis := redis (snd (first_inquiry tp cps w))\<rparr>"
proof (induction cps arbitrary: w)
  case (Cons cp cps)
  let ?v = "w\<lparr>redis := redis_srem (clock w) (image_inquiry_index_key tp) cp (redis w)\<rparr>"
  show ?case
  proof (cases "redis_get (clock w) (image_inquiry_key tp cp) (redis w)")
    case None
    then have "first_inquiry tp (cp # cps) w = first_inquiry tp cps ?v" by (simp add: bindA_apply cache_get_def thenA_apply)
    with Cons.IH [of ?v] show ?thesis by simp
  qed (simp add: bindA_apply cache_get_def)
qed simp

lemma first_inquiry_members:
  "set (inquiry_members tp (snd (first_inquiry tp cps w))) \<subseteq> set (inquiry_members tp w)
   \<and> (cp \<in> set (inquiry_members tp w) \<and> inquiry_at (clock w) tp cp w \<noteq> None \<longrightarrow> cp \<in> set (inquiry_members tp (snd (first_inquiry tp cps w))))"
proof (induction cps arbitrary: w)
  case (Cons c cps)
  let ?v = "unindex tp c w"
  show ?case
  proof (cases "inquiry_at (clock w) tp c w")
    case None
    then have "first_inquiry tp (c # cps) w = first_inquiry tp cps ?v"
      by (simp add: bindA_apply cache_get_def thenA_apply inquiry_at_def unindex_def)
    moreover have "set (inquiry_members tp ?v) = set (inquiry_members tp w) - {c}"
      by (simp add: inquiry_members_def unindex_def redis_smembers_srem)
    ultimately show ?thesis using Cons.IH [of ?v] None by (auto simp del: first_inquiry.simps)
  qed (simp add: bindA_apply cache_get_def inquiry_at_def)
qed simp

lemma find_still:
  fixes xs ys :: "'a :: linorder list"
  assumes "find P (rev (sort xs)) = Some x" and "set ys \<subseteq> set xs" and "x \<in> set ys"
  shows "find P (rev (sort ys)) = Some x"
proof -
  have found: "P x \<and> x \<in> set zs" if "find P zs = Some x" for x and zs :: "'a list"
    using that by (induction zs) (auto split: if_splits)
  have px: "P x" using found [OF assms(1)] ..
  show ?thesis
  proof (cases "find P (rev (sort ys))")
    case None
    with px assms(3) show ?thesis by (simp add: find_None_iff)
  next
    case (Some y)
    from found [OF Some] have "P y" "y \<in> set ys" by simp_all
    with find_greatest [OF assms(1)] find_greatest [OF Some assms(3) px] assms(2) have "y = x" by (meson order_antisym subsetD)
    with \<open>find P (rev (sort ys)) = Some y\<close> show ?thesis by simp
  qed
qed

lemma pending_again:
  assumes got: "get_pending_image_inquiry tp w = (Inr (Some d), w0)"
    and same: "clock w' = clock w0" "redis w' = redis_setex (clock w0) (session_key tid cp) n x (redis w0)"
  obtains w'' where "get_pending_image_inquiry tp w' = (Inr (Some d), w'')"
proof -
  let ?cps = "rev (sort (inquiry_members tp w))"
  have w0: "w0 = snd (first_inquiry tp ?cps w)" using got by (simp add: get_pending_image_inquiry_def bindA_apply)
  have at: "inquiry_at t tp c w' = inquiry_at t tp c w" for t c
  proof -
    have "session_key tid cp \<noteq> image_inquiry_key tp c" by (simp add: session_key_def image_inquiry_key_def)
    then have "inquiry_at t tp c w' = inquiry_at t tp c w0" by (simp add: inquiry_at_def same(2) redis_get_setex)
    also have "\<dots> = inquiry_at t tp c w" using first_inquiry_docs by (simp add: w0 inquiry_at_def redis_get_def)
    finally show ?thesis .
  qed
  have clk: "clock w' = clock w" using first_inquiry_docs same(1) by (simp add: w0)
  have mem: "inquiry_members tp w' = inquiry_members tp w0"
    using same by (simp add: inquiry_members_def redis_smembers_def redis_setex_def)
  obtain v where "first_inquiry tp ?cps w = (Inr (case find (\<lambda>c. inquiry_at (clock w) tp c w \<noteq> None) ?cps of
       None \<Rightarrow> None | Some c \<Rightarrow> inquiry_at (clock w) tp c w), v)" using first_inquiry_spec by blast
  with got obtain c where c: "find (\<lambda>c. inquiry_at (clock w) tp c w \<noteq> None) ?cps = Some c" "inquiry_at (clock w) tp c w = Some d"
    by (auto simp: get_pending_image_inquiry_def bindA_apply split: option.splits)
  have "x \<in> set zs" if "find P zs = Some x" for P x and zs :: "string list"
    using that by (induction zs) (auto split: if_splits)
  from this [OF c(1)] have "c \<in> set (inquiry_members tp w)" by simp
  with c(2) have "c \<in> set (inquiry_members tp w0)" "set (inquiry_members tp w0) \<subseteq> set (inquiry_members tp w)"
    unfolding w0 using first_inquiry_members by blast+
  then have "find (\<lambda>c. inquiry_at (clock w) tp c w \<noteq> None) (rev (sort (inquiry_members tp w'))) = Some c"
    unfolding mem by (intro find_still [OF c(1)])
  moreover obtain v' where "first_inquiry tp (rev (sort (inquiry_members tp w'))) w' = (Inr (case find (\<lambda>c. inquiry_at (clock w') tp c w' \<noteq> None)
      (rev (sort (inquiry_members tp w'))) of None \<Rightarrow> None | Some c \<Rightarrow> inquiry_at (clock w') tp c w'), v')" using first_inquiry_spec by blast
  ultimately have "first_inquiry tp (rev (sort (inquiry_members tp w'))) w' = (Inr (Some d), v')" using c(2) by (simp add: at clk)
  then show thesis by (intro that [of v']) (simp add: get_pending_image_inquiry_def bindA_apply)
qed

section \<open>Properties\<close>

text \<open>
  C16: what an answer to a photo does. When a photo waits for the trader and the trader answers with a name and a price, the
  waiting customer gets exactly one order of that product at that price and the photo is learned, both committed; then the second commit of
  the session raises, so the reply never returns \<open>True\<close> and the same inquiry is still the pending one, to be answered by the next
  number the trader sends. From then on whoever sends this trader a photo whose hash is within
  twelve bits of the answered one, and nearer to it than to any other photo learned before, gets an order of the product
  at once, at the price the catalogue has for it or else the one answered, unless the photo is taken for a proof of payment.
\<close>

theorem photo_learned:
  fixes cm :: command and p :: payload
  assumes pending: "get_pending_image_inquiry (cm_trader_phone cm) w = (Inr (Some (ImageInquiryDoc cp p)), w0)"
    and answer: "split_last_number (strip_number_commas (strip (cm_message cm))) = Some (before, price)" and "0 < price"
    and known: "cp \<noteq> []" "payload_str p ''conversation_id'' \<noteq> []" "payload_str p ''image_hash'' = h" "h \<noteq> []"
  defines "name \<equiv> answered_name (tr_catalogue (cm_trader cm)) (strip (drop_trailing_marks (strip before)))"
  shows "\<exists>w'. handle_image_inquiry_reply gw cm w = (Inl InvalidRequestError, w')
    \<and> (\<exists>x rows. orders w' = orders w @ [x] \<and> o_state x = INQUIRY \<and> o_amount x = Some (of_int price) \<and> o_customer_phone x = Some cp
         \<and> o_tenant_id x = payload_str p ''tenant_id'' \<and> order_items w' = order_items w @ rows \<and> map item_data rows = [(name, 1, of_int price)])
    \<and> (\<exists>w''. get_pending_image_inquiry (cm_trader_phone cm) w' = (Inr (Some (ImageInquiryDoc cp p)), w''))
    \<and> (\<forall>gw ml ib media bytes g k r. ml_phash ml bytes = Inr g \<and> g \<noteq> [] \<and> ml_distance ml g h = Some k \<and> k \<le> 12
         \<and> tr_phone_number (ib_trader ib) = cm_trader_phone cm \<and> cm_trader_phone cm \<noteq> []
         \<and> (\<forall>d\<in>set (product_descriptions w). pd_trader_phone d = cm_trader_phone cm \<longrightarrow> farther ml g k d)
         \<and> get_open_order_by_customer_phone (ib_customer_phone ib) (ib_tenant_id ib) w' = (Inr r, w') \<and> (\<forall>x. r = Some x \<longrightarrow> o_state x \<noteq> CONFIRMED)
       \<longrightarrow> (\<exists>w'' y rows. handle_image_inquiry gw ml ib media bytes w' = (Inr (), w'') \<and> orders w'' = orders w' @ [y]
              \<and> o_customer_phone y = Some (ib_customer_phone ib) \<and> order_items w'' = order_items w' @ rows
              \<and> map item_data rows = [(name, 1, of_int (case matched_key name (tr_catalogue (ib_trader ib)) of Some (_, v) \<Rightarrow> v | None \<Rightarrow> price))]))"
proof -
  have k0: "orders w0 = orders w" "order_items w0 = order_items w" "product_descriptions w0 = product_descriptions w"
    using pending arg_cong [OF first_inquiry_tables [of "cm_trader_phone cm" "rev (sort (inquiry_members (cm_trader_phone cm) w))" w], of orders]
      arg_cong [OF first_inquiry_tables [of "cm_trader_phone cm" "rev (sort (inquiry_members (cm_trader_phone cm) w))" w], of order_items]
      arg_cong [OF first_inquiry_tables [of "cm_trader_phone cm" "rev (sort (inquiry_members (cm_trader_phone cm) w))" w], of product_descriptions]
    by (simp_all add: get_pending_image_inquiry_def bindA_apply)
  obtain w' x rows q dk where a: "answer_inquiry gw cm cp p name price w0 = (Inl InvalidRequestError, w')" and o: "orders w' = orders w0 @ [x]"
    "o_state x = INQUIRY" "o_amount x = Some (of_int price)" "o_customer_phone x = Some cp" "o_tenant_id x = payload_str p ''tenant_id''"
    "order_items w' = order_items w0 @ rows" "map item_data rows = [(name, 1, of_int price)]"
    and q: "product_descriptions w' = product_descriptions w0 @ [q]" "pd_trader_phone q = cm_trader_phone cm" "pd_product_name q = name"
    "pd_price q = Some price" "pd_image_hash q = Some h" "pd_confirmed q"
    and still: "clock w' = clock w0" "redis w' = redis_setex (clock w0) (session_key (payload_str p ''tenant_id'') cp) SESSION_TTL dk (redis w0)"
    by (rule answer_spec [OF known])
  have run: "handle_image_inquiry_reply gw cm w = (Inl InvalidRequestError, w')"
    using assms(3) by (simp add: handle_image_inquiry_reply_def bindA_apply thenA_apply pending answer a [unfolded name_def])
  show ?thesis
  proof (rule exI [of _ w'], intro conjI allI impI, goal_cases)
    case 1 show ?case by (rule run)
  next
    case 2 show ?case using o k0 by auto
  next
    case 3 show ?case using pending_again [OF pending still] by blast
  next
    case (4 gw ml ib media bytes g k r)
    let ?d = "tr_catalogue (ib_trader ib)" and ?ls = "list_confirmed_for_trader (cm_trader_phone cm) w'"
    define pr where "pr = (case matched_key name ?d of Some (_, v) \<Rightarrow> v | None \<Rightarrow> price)"
    have "q \<in> set ?ls" by (simp add: list_confirmed_for_trader_def q)
    moreover have "\<forall>z\<in>set ?ls. z = q \<or> farther ml g k z" using 4 k0 by (auto simp: list_confirmed_for_trader_def q(1))
    moreover have "learned_price ?d q = Some pr" by (auto simp: learned_price_def q pr_def split: option.splits)
    ultimately have "find_best_match ml (cm_trader_phone cm) g ?d w' = Some (name, pr, k)"
      using 4 closest_found [of ml g q k ?d pr ?ls None] q known(4) by (simp add: find_best_match_def MAX_HAMMING_DISTANCE_def or_empty_def truthy_str_def)
    moreover obtain w'' rows' where c: "create_image_order gw (ib\<lparr>ib_customer_name := None\<rparr>) name pr (Some media) w' = (Inr (), w'')"
      "orders w'' = orders w' @ [new_order (ib\<lparr>ib_customer_name := None\<rparr>) pr w']" "order_items w'' = order_items w' @ rows'"
      "map item_data rows' = [(name, 1, of_int pr)]"
      by (rule image_order_spec)
    moreover have "\<not> (case r of Some x \<Rightarrow> o_state x = CONFIRMED | None \<Rightarrow> False)" using 4 by (auto split: option.splits)
    ultimately have "handle_image_inquiry gw ml ib media bytes w' = (Inr (), w'')"
      using 4 by (simp add: handle_image_inquiry_def Let_def bindA_apply hash_or_none_def or_empty_def truthy_str_def)
    with c(2-4) show ?case unfolding pr_def [symmetric]
      by (intro exI [of _ w''] exI [of _ "new_order (ib\<lparr>ib_customer_name := None\<rparr>) pr w'"] exI [of _ rows'] conjI) simp_all
  qed
qed

text \<open>The trader is asked about the photo of customer 234, whose hash is the picture itself, and answers with a name and a price.\<close>

definition sample_lib :: media_lib where
  "sample_lib = \<lparr>ml_studio = idle_studio, ml_settings = \<lparr>st_tenant_id = ''t1'', st_followup_delay_hours = 2, st_r2_public_url = [], st_r2_bucket_name = [],
       st_r2_account_id = []\<rparr>, ml_resize = Some, ml_shrink = Inr, ml_cutout = (\<lambda>_. Inr None), ml_phash = Inr,
     ml_distance = (\<lambda>a b. Some (if a = b then 0 else 64)), ml_vision = (\<lambda>_ _ _. Inr (None, 0)), ml_ocr = Inr, ml_products = (\<lambda>_ _. Inr []),
     ml_download = (\<lambda>m _. Inr m), ml_transcribe = (\<lambda>b _. Inr b)\<rparr>"

definition asked_about_photo :: world where
  "asked_about_photo = exec (set_pending_image_inquiry ''080'' (ImageInquiryDoc ''234''
     [(''image_hash'', JStr ''aa''), (''tenant_id'', JStr ''t1''), (''conversation_id'', JStr ''c1'')])) (one_order PAID)"

theorem photo_learned_witness:
  "\<exists>w' x y w''. handle_image_inquiry_reply open_gateway (says [] ''Golden Morn - 2,500'') asked_about_photo = (Inl InvalidRequestError, w')
     \<and> orders w' = orders (one_order PAID) @ [x] \<and> o_amount x = Some 2500 \<and> o_customer_phone x = Some ''234''
     \<and> handle_image_inquiry open_gateway sample_lib ((chat ''[image]'')\<lparr>ib_customer_phone := ''555''\<rparr>) ''m2'' ''aa'' w' = (Inr (), w'')
     \<and> orders w'' = orders w' @ [y] \<and> o_customer_phone y = Some ''555''"
proof -
  let ?p = "[(''image_hash'', JStr ''aa''), (''tenant_id'', JStr ''t1''), (''conversation_id'', JStr ''c1'')]" and ?ib = "(chat ''[image]'')\<lparr>ib_customer_phone := ''555''\<rparr>"
  have pend: "get_pending_image_inquiry (cm_trader_phone (says [] ''Golden Morn - 2,500'')) asked_about_photo = (Inr (Some (ImageInquiryDoc ''234'' ?p)), asked_about_photo)"
    by (simp add: asked_about_photo_def exec_def get_pending_image_inquiry_def set_pending_image_inquiry_def Let_def bindA_apply thenA_apply
        inquiry_customer_def session_defs inquiry_members_def one_order_def empty_world_def redis_defs empty_redis_def alive_def
        image_inquiry_key_def image_inquiry_index_key_def IMAGE_INQUIRY_TTL_def second_def says_def)
  have num: "split_last_number (strip_number_commas (strip (cm_message (says [] ''Golden Morn - 2,500'')))) = Some (''Golden Morn - '', 2500)"
    by (simp add: says_def) code_simp
  have known: "(''234'' :: string) \<noteq> []" "payload_str ?p ''conversation_id'' \<noteq> []" "payload_str ?p ''image_hash'' = ''aa''" "(''aa'' :: string) \<noteq> []"
    by (simp_all add: payload_str_def payload_get_def)
  have pds: "product_descriptions asked_about_photo = []" and o: "orders asked_about_photo = orders (one_order PAID)"
    by (simp_all add: asked_about_photo_def exec_def set_pending_image_inquiry_def Let_def thenA_apply inquiry_customer_def session_defs one_order_def empty_world_def)
  have "(0::int) < 2500" by simp
  from photo_learned [OF pend num this known, of open_gateway] show ?thesis
  proof (elim exE conjE, goal_cases)
    case (1 w' x rows)
    have "get_open_order_by_customer_phone (ib_customer_phone ?ib) (ib_tenant_id ?ib) w' = (Inr None, w')"
      using 1(4,7) o by (simp add: get_open_order_by_customer_phone_def bindA_apply one_order_def create_order_row_def chat_def)
    then have "\<exists>w'' y. handle_image_inquiry open_gateway sample_lib ?ib ''m2'' ''aa'' w' = (Inr (), w'') \<and> orders w'' = orders w' @ [y]
        \<and> o_customer_phone y = Some (ib_customer_phone ?ib)"
      using 1(2) [THEN spec, of open_gateway, THEN spec, of sample_lib, THEN spec, of ?ib, THEN spec, of "''m2''", THEN spec, of "''aa''",
          THEN spec, of "''aa''", THEN spec, of 0, THEN spec, of None] pds
      by (auto simp: sample_lib_def chat_def shop_trader_def says_def)
    with 1(1,4,6,7) o show ?case by (auto simp: chat_def)
  qed
qed

end
