(* ===== verification/Broadcast_Dialogue.thy ===== *)
theory Broadcast_Dialogue
  imports Product_Photos Broadcast
begin

text \<open>
  Broadcasts by chat (\<open>src/app/modules/orders/service.py\<close>): the trader picks a segment, is held back for 48 hours after a broadcast to it, is
  warned of a wide audience, writes the message, sees how it was rewritten and confirms; the sending runs as a task of its own. A task
  is the action it runs; the handler that starts it returns it.
\<close>

section \<open>Picking the audience\<close>

definition start_broadcast_flow :: "gateway \<Rightarrow> command \<Rightarrow> unit svc" where
  "start_broadcast_flow gw cm = bindA (getA (get_segment_counts (cm_trader_phone cm))) (\<lambda>counts.
     if count_of counts ''all_customers'' = 0 then tell_trader gw cm ''trader.bc_no_customers'' (Template ''broadcast_no_customers'' [])
     else thenA (enter_session cm ''awaiting_broadcast_segment'' []) (send_picker gw cm ''trader.bc_segment_pick'' (broadcast_segment_picker counts)))"

text \<open>\<open>str.title()\<close>: a letter is upper case after a character that is no letter, else lower case.\<close>

fun title_case :: "bool \<Rightarrow> string \<Rightarrow> string" where
  "title_case inside [] = []"
| "title_case inside (c # s) = (let letter = upper_char c \<noteq> lower_char c in
     (if letter then if inside then lower_char c else upper_char c else c) # title_case letter s)"

definition segment_label :: "string \<Rightarrow> string" where
  "segment_label seg = (case map_of SEGMENT_DISPLAY seg of Some (l, _) \<Rightarrow> l
     | None \<Rightarrow> title_case False (map (\<lambda>c. if c = CHR ''_'' then CHR '' '' else c) seg))"

definition COOLDOWN :: int where "COOLDOWN = 48 * 60 * 60 * second"

definition hours_left :: "timestamp \<Rightarrow> timestamp \<Rightarrow> int" where
  "hours_left now t = (COOLDOWN - (now - t)) div (60 * 60 * second) + 1"

definition audience :: "string \<Rightarrow> string \<Rightarrow> nat \<Rightarrow> nat \<Rightarrow> payload" where
  "audience seg label n skip = [(''segment'', JStr seg), (''segment_label'', JStr label), (''count'', JInt (int n)), (''will_skip'', JInt (int skip)),
     (''will_receive'', JInt (int n - int skip))]"

definition payload_int :: "payload \<Rightarrow> string \<Rightarrow> int \<Rightarrow> int" where
  "payload_int p k dflt = (case payload_get p k (JInt dflt) of JInt n \<Rightarrow> n | _ \<Rightarrow> 0)"

definition payload_text :: "payload \<Rightarrow> string \<Rightarrow> string \<Rightarrow> string" where
  "payload_text p k dflt = (case payload_get p k (JStr dflt) of JStr s \<Rightarrow> s | _ \<Rightarrow> [])"

text \<open>The prompt for the message, with a warning when customers will be skipped.\<close>

definition ask_message :: "gateway \<Rightarrow> command \<Rightarrow> payload \<Rightarrow> unit svc" where
  "ask_message gw cm p = (let label = JStr (payload_text p ''segment_label'' ''All Customers''); n = JInt (payload_int p ''count'' 0);
       skip = payload_int p ''will_skip'' 0 in
     thenA (enter_session cm ''awaiting_broadcast_message'' p)
       (ask_trader gw cm ''trader.bc_compose'' (if 0 < skip
          then Template ''broadcast_skip_warning'' [label, n, JInt skip, JInt (payload_int p ''will_receive'' 0)]
          else Template ''broadcast_compose_prompt'' [label, n])))"

definition segment_selected :: "gateway \<Rightarrow> command \<Rightarrow> string \<Rightarrow> unit svc" where
  "segment_selected gw cm seg = (let tp = cm_trader_phone cm; label = segment_label seg in
     bindA (getA (get_customers_by_segment tp seg)) (\<lambda>customers. let n = length customers in
     if n = 0 then thenA (clear_trader_session tp) (tell_trader gw cm ''trader.bc_seg_empty'' (Plain (''No customers in the *'' @ label @ ''* segment yet.'')))
     else bindA (getA (get_last_broadcast_to_segment tp seg)) (\<lambda>last. bindA (getA clock) (\<lambda>now.
       case (case last of Some t \<Rightarrow> if now - t < COOLDOWN then Some (hours_left now t) else None | None \<Rightarrow> None) of
         Some h \<Rightarrow> thenA (clear_trader_session tp) (tell_trader gw cm ''trader.bc_cooldown'' (Template ''broadcast_segment_cooldown'' [JStr label, JInt h]))
       | None \<Rightarrow> bindA (getA (get_7day_skip_count tp (map cl_customer_phone customers))) (\<lambda>skip. let p = audience seg label n skip in
           if 100 \<le> int n - int skip then thenA (enter_session cm ''awaiting_broadcast_wide_confirm'' p)
             (offer_buttons gw cm ''trader.bc_wide_warn'' (Template ''broadcast_wide_audience_warning'' [JInt (int n - int skip), JStr label])
               [(''BCWIDEYES'', ''Yes, proceed''), (''BCNO'', ''Cancel'')])
           else ask_message gw cm p)))))"

section \<open>Writing and confirming\<close>

text \<open>
  The rewriting by the language model: without a key the text stays, when the call fails the store's name and link are added.
\<close>

type_synonym copywriter = "(string \<Rightarrow> string \<Rightarrow> string \<Rightarrow> error + string) option"

definition strip_quotes :: "string \<Rightarrow> string" where
  "strip_quotes s = rev (dropWhile (\<lambda>c. c = CHR 34) (rev (dropWhile (\<lambda>c. c = CHR 34) s)))"

definition rewrite_broadcast_message :: "copywriter \<Rightarrow> string \<Rightarrow> string \<Rightarrow> string \<Rightarrow> string" where
  "rewrite_broadcast_message cw raw name url = (case cw of None \<Rightarrow> raw
   | Some f \<Rightarrow> (case f raw name url of Inr s \<Rightarrow> strip_quotes (strip s) | Inl _ \<Rightarrow> raw @ [CHR 0x0A, CHR 0x0A] @ ''- '' @ name @ [CHR 0x0A] @ url))"

definition compose_answer :: "gateway \<Rightarrow> copywriter \<Rightarrow> command \<Rightarrow> payload \<Rightarrow> unit svc" where
  "compose_answer gw cw cm ts = (let txt = strip (cm_message cm); issues = check_message_quality txt; t = cm_trader cm;
       url = (if tr_store_slug t \<noteq> [] then ''https://chattosales.com/stores/'' @ tr_store_slug t else []);
       rewritten = rewrite_broadcast_message cw txt (tr_business_name t) url; seg = payload_text ts ''segment'' ''all_customers'';
       label = payload_text ts ''segment_label'' ''All Customers''; n = payload_int ts ''count'' 0; receive = payload_int ts ''will_receive'' n in
     if issues \<noteq> [] then tell_trader gw cm ''trader.bc_quality'' (Template ''broadcast_quality_issues'' [JList (map JStr issues)])
     else thenA (enter_session cm ''awaiting_broadcast_confirm'' [(''segment'', JStr seg), (''segment_label'', JStr label), (''count'', JInt n),
            (''will_receive'', JInt receive), (''original_text'', JStr txt), (''rewritten_text'', JStr rewritten)])
          (offer_buttons gw cm ''trader.bc_preview'' (Template ''broadcast_preview'' [JStr rewritten, JStr label, JInt receive])
            [(''BCYES'', ''Send now''), (''BCNO'', ''Cancel'')]))"

definition wide_confirmed :: "gateway \<Rightarrow> command \<Rightarrow> unit svc" where
  "wide_confirmed gw cm = bindA (get_trader_session (cm_trader_phone cm)) (\<lambda>s. case s of
     Some (TraderSessionDoc st p) \<Rightarrow> if st \<noteq> ''awaiting_broadcast_wide_confirm'' then ret ()
       else ask_message gw cm [(''segment'', JStr (payload_text p ''segment'' ''all_customers'')),
         (''segment_label'', JStr (payload_text p ''segment_label'' ''All Customers'')), (''count'', JInt (payload_int p ''count'' 0)),
         (''will_skip'', JInt (payload_int p ''will_skip'' 0)), (''will_receive'', JInt (payload_int p ''will_receive'' 0))]
   | _ \<Rightarrow> ret ())"

text \<open>The broadcast and one row for each customer of the segment.\<close>

fun add_recipients :: "string \<Rightarrow> customer_list_entry list \<Rightarrow> unit svc" where
  "add_recipients bid [] = ret ()"
| "add_recipients bid (c # cs) = bindA uuid4 (\<lambda>i. thenA (modA (\<lambda>w. w\<lparr>broadcast_recipients := broadcast_recipients w @
     [\<lparr>br_id = i, br_broadcast_id = bid, br_customer_phone = cl_customer_phone c, br_customer_name = cl_customer_name c, br_status = RC_PENDING,
       br_sent_at = None, br_skip_reason = None\<rparr>]\<rparr>)) (add_recipients bid cs))"

definition create_broadcast :: "command \<Rightarrow> string \<Rightarrow> string \<Rightarrow> string \<Rightarrow> customer_list_entry list \<Rightarrow> string svc" where
  "create_broadcast cm seg txt original customers = bindA uuid4 (\<lambda>bid. thenA (modA (\<lambda>w. w\<lparr>broadcasts := broadcasts w @
       [\<lparr>b_id = bid, b_tenant_id = cm_tenant_id cm, b_trader_phone = cm_trader_phone cm, b_segment = seg, b_message_text = txt,
         b_original_text = Some original, b_total_recipients = int (length customers), b_sent_count = 0, b_status = BC_DRAFT, b_completed_at = None\<rparr>]\<rparr>))
     (thenA (add_recipients bid customers) (ret bid)))"

definition on_broadcast_progress :: "gateway \<Rightarrow> command \<Rightarrow> string \<Rightarrow> nat \<Rightarrow> nat \<Rightarrow> unit svc" where
  "on_broadcast_progress gw cm bid sent tot = to_trader gw cm (''trader.bc_progress.'' @ bid @ ''.'' @ show_nat sent)
     (Template ''broadcast_progress'' [JInt (int sent), JInt (int tot)])"

text \<open>The task: sending, then the totals; a failure is told as well.\<close>

definition run_broadcast :: "gateway \<Rightarrow> settings \<Rightarrow> command \<Rightarrow> string \<Rightarrow> unit svc" where
  "run_broadcast gw st cm bid = (let ptid = (if st_tenant_id st \<noteq> [] then st_tenant_id st else cm_tenant_id cm) in
     tryA (thenA (send_broadcast_paced gw bid (cm_trader_phone cm) ptid (Some (on_broadcast_progress gw cm bid)))
        (bindA (getA broadcasts) (\<lambda>bs. bindA (liftE (scalar_one_or_none (filter (\<lambda>b. b_id b = bid) bs))) (\<lambda>b.
          let sent = (case b of Some b \<Rightarrow> b_sent_count b | None \<Rightarrow> 0); tot = (case b of Some b \<Rightarrow> b_total_recipients b | None \<Rightarrow> 0) in
          to_trader gw cm (''trader.bc_complete.'' @ bid) (Template ''broadcast_complete'' [JInt sent, JInt tot, JInt (tot - sent)])))))
      (\<lambda>_. to_trader gw cm (''trader.bc_failed.'' @ bid) (Plain ''Something went wrong with the broadcast. Please try again later.'')))"

definition broadcast_confirm :: "gateway \<Rightarrow> settings \<Rightarrow> command \<Rightarrow> bool \<Rightarrow> unit svc list svc" where
  "broadcast_confirm gw st cm confirmed = bindA (get_trader_session (cm_trader_phone cm)) (\<lambda>s. case s of
     Some (TraderSessionDoc state p) \<Rightarrow> if state \<noteq> ''awaiting_broadcast_confirm'' then ret []
       else thenA (clear_trader_session (cm_trader_phone cm))
        (if \<not> confirmed then thenA (tell_trader gw cm ''trader.bc_cancelled'' (Template ''broadcast_cancelled'' [])) (ret [])
         else let seg = payload_text p ''segment'' ''all_customers'' in
           bindA (session_begin (bindA (getA (get_customers_by_segment (cm_trader_phone cm) seg)) (\<lambda>customers.
               bindA (create_broadcast cm seg (payload_text p ''rewritten_text'' []) (payload_text p ''original_text'' []) customers) (\<lambda>bid.
               ret (bid, length customers))))) (\<lambda>(bid, n).
           thenA (tell_trader gw cm ''trader.bc_sending'' (Template ''broadcast_sending'' [JInt (int n)])) (ret [run_broadcast gw st cm bid])))
   | _ \<Rightarrow> ret [])"


section \<open>Orders are not touched\<close>

lemma add_recipients_moves: "moves order_touch (add_recipients bid cs)"
  by (induction cs) (simp_all only: add_recipients.simps touch_rules, intro touch_rules, simp_all add: trader_change.moves_same later_def)

lemma dialogue_moves:
  "moves order_touch (start_broadcast_flow gw cm)" "moves order_touch (segment_selected gw cm seg)" "moves order_touch (compose_answer gw cw cm p)"
  "moves order_touch (wide_confirmed gw cm)" "moves order_touch (broadcast_confirm gw st cm b)"
proof -
  have ask: "moves order_touch (ask_message gw cm p)" for p unfolding ask_message_def Let_def by (intro photo_rules)
  show "moves order_touch (start_broadcast_flow gw cm)" unfolding start_broadcast_flow_def by (intro photo_rules)
  show "moves order_touch (segment_selected gw cm seg)" unfolding segment_selected_def Let_def by (intro photo_rules ask)
  show "moves order_touch (compose_answer gw cw cm p)" unfolding compose_answer_def Let_def by (intro photo_rules)
  have doc: "moves order_touch (case d of TraderSessionDoc s p \<Rightarrow> f s p | _ \<Rightarrow> ret x)" if "\<And>s p. moves order_touch (f s p)"
    for d and f :: "string \<Rightarrow> payload \<Rightarrow> 'b svc" and x
    using that by (cases d) (simp_all add: trader_change.moves_ret)
  show "moves order_touch (wide_confirmed gw cm)" unfolding wide_confirmed_def by (intro photo_rules ask doc)
  have row: "moves order_touch (modA (\<lambda>w. w\<lparr>broadcasts := f w\<rparr>))" for f by (rule trader_change.moves_same) (simp add: later_def)
  have new: "moves order_touch uuid4" by (rule trader_change.moves_same) (simp add: later_def)
  show "moves order_touch (broadcast_confirm gw st cm b)"
    unfolding broadcast_confirm_def create_broadcast_def case_prod_beta Let_def by (intro photo_rules doc row new add_recipients_moves)
qed

section \<open>Properties\<close>

text \<open>What a reply leaves: a message to its recipient at most.\<close>

lemma reply_run:
  assumes "wf_notifications w"
  obtains w' ds where "reply gw phone tid eid msg ctid w = (Inr (), w')" and "core w' = core w" and "uuid_n w \<le> uuid_n w'"
    and "wf_notifications w'" and "notified w \<subseteq> notified w'" and "dispatched w' = dispatched w @ ds" and "\<forall>d\<in>set ds. fst (snd d) = phone"
proof -
  obtain x w' where run: "reply gw phone tid eid msg ctid w = (Inr x, w')" and a: "aside w w'" by (rule quietE [OF reply_quiet])
  have "wf_notifications w' \<and> notified w \<subseteq> notified w' \<and> (\<exists>ds. dispatched w' = dispatched w @ ds \<and> (\<forall>d\<in>set ds. fst (snd d) = phone))"
  proof (cases "phone = []")
    case True with run assms show ?thesis by (simp add: reply_def)
  next
    case False
    let ?m = "session_begin (send_message gw tid eid phone msg ''whatsapp'' None ctid)"
    obtain r v where r: "?m w = (r, v)" by fastforce
    have wv: "v = w'" using run r False by (simp add: reply_def tryA_apply split: sum.splits)
    have "send_outcome False eid w (r, v)"
      using run_send_outcome [OF assms, of gw "Message tid eid phone msg ''whatsapp'' None ctid"] r by simp
    from send_outcome_wf [OF assms this] have n: "wf_notifications v" "notified w \<subseteq> notified v" by auto
    have "keeps ?m (appends_only (dispatched w) (sending_tenant ctid tid, phone, TextMsg msg))"
      by (rule keeps_session_begin [OF keeps_appends_send_message]) (simp add: appends_only_restore)
    from keepsD [OF this appends_only_refl] r have "appends_only (dispatched w) (sending_tenant ctid tid, phone, TextMsg msg) v" by simp
    then obtain ds where "dispatched v = dispatched w @ ds" "set ds \<subseteq> {(sending_tenant ctid tid, phone, TextMsg msg)}"
      unfolding appends_only_def by blast
    with n wv show ?thesis by (intro conjI exI [of _ ds]) auto
  qed
  moreover have "reply gw phone tid eid msg ctid w = (Inr (), w')" using run by simp
  ultimately show thesis using that a unfolding aside_def by blast
qed


text \<open>Keys of broadcasts and their recipients, the foreign key, and fresh identifiers to come.\<close>

definition wf_broadcasts :: "world \<Rightarrow> bool" where
  "wf_broadcasts w \<longleftrightarrow> distinct (map b_id (broadcasts w)) \<and> distinct (map br_id (broadcast_recipients w))
     \<and> br_broadcast_id ` set (broadcast_recipients w) \<subseteq> b_id ` set (broadcasts w)
     \<and> (\<forall>n\<ge>uuid_n w. uuid_src w n \<notin> b_id ` set (broadcasts w) \<and> uuid_src w n \<notin> br_id ` set (broadcast_recipients w))"

definition recipient_row :: "(nat \<Rightarrow> string) \<Rightarrow> string \<Rightarrow> nat \<times> customer_list_entry \<Rightarrow> broadcast_recipient" where
  "recipient_row ids bid nc = \<lparr>br_id = ids (fst nc), br_broadcast_id = bid, br_customer_phone = cl_customer_phone (snd nc),
     br_customer_name = cl_customer_name (snd nc), br_status = RC_PENDING, br_sent_at = None, br_skip_reason = None\<rparr>"

lemma add_recipients_run:
  "add_recipients bid cs w = (Inr (), w\<lparr>broadcast_recipients := broadcast_recipients w
     @ map (recipient_row (uuid_src w) bid) (zip [uuid_n w..<uuid_n w + length cs] cs), uuid_n := uuid_n w + length cs\<rparr>)"
proof (induction cs arbitrary: w)
  case (Cons c cs)
  have "[uuid_n w..<uuid_n w + length (c # cs)] = uuid_n w # [Suc (uuid_n w)..<Suc (uuid_n w + length cs)]"
    by (simp add: upt_rec)
  then show ?case by (simp add: bindA_apply thenA_apply Cons.IH recipient_row_def)
qed (simp add: ret_def)

lemma segment_customer:
  assumes "wf_customers w" and "c \<in> set (get_customers_by_segment tp seg w)"
  shows "entry_at w tp (cl_customer_phone c) = Some c" and "\<not> cl_opted_out c"
proof -
  have c: "c \<in> set (customer_list w)" "cl_trader_phone c = tp" "\<not> cl_opted_out c"
    using assms(2) by (auto simp: get_customers_by_segment_def get_customers_for_trader_def Let_def split: if_splits)
  then show "\<not> cl_opted_out c" by simp
  have "cl_key c = (tp, cl_customer_phone c)" using c(2) by (simp add: cl_key_def)
  with find_distinct_key [of cl_key "customer_list w" c "\<lambda>_. True"] assms(1) c(1) show "entry_at w tp (cl_customer_phone c) = Some c"
    by (simp add: entry_at_def wf_customers_def)
qed

lemma progress_to_trader: "trader_callback (cm_trader_phone cm) (Some (on_broadcast_progress gw cm bid))"
  unfolding trader_callback_def Let_def
proof (intro allI impI)
  fix f n m and w :: world assume f: "Some (on_broadcast_progress gw cm bid) = Some f" and wf: "wf_notifications w"
  obtain w' ds where "f n m w = (Inr (), w')" and c: "core w' = core w" and r: "uuid_n w \<le> uuid_n w'" "wf_notifications w'" "notified w \<subseteq> notified w'"
      "dispatched w' = dispatched w @ ds" "\<forall>d\<in>set ds. fst (snd d) = cm_trader_phone cm"
    using f reply_run [OF wf, of gw "cm_trader_phone cm" "cm_tenant_id cm" "''trader.bc_progress.'' @ bid @ ''.'' @ show_nat n"
        "Template ''broadcast_progress'' [JInt (int n), JInt (int m)]" "cm_channel_tenant_id cm"]
    unfolding on_broadcast_progress_def by blast
  moreover have "broadcasts w' = broadcasts w" "broadcast_recipients w' = broadcast_recipients w"
    using arg_cong [OF c, of broadcasts] arg_cong [OF c, of broadcast_recipients] by (simp_all add: core_def)
  moreover note core_fields [OF c]
  ultimately show "wf_notifications (snd (f n m w)) \<and> notified w \<subseteq> notified (snd (f n m w)) \<and> uuid_n w \<le> uuid_n (snd (f n m w))
      \<and> uuid_src (snd (f n m w)) = uuid_src w \<and> clock (snd (f n m w)) = clock w \<and> customer_list (snd (f n m w)) = customer_list w
      \<and> broadcasts (snd (f n m w)) = broadcasts w \<and> broadcast_recipients (snd (f n m w)) = broadcast_recipients w
      \<and> (\<exists>ds. dispatched (snd (f n m w)) = dispatched w @ ds \<and> (\<forall>d\<in>set ds. fst (snd d) = cm_trader_phone cm))"
    by auto
qed


text \<open>A second broadcast to the segment while the first is young: the dialogue is closed and no broadcast starts.\<close>

lemma segment_held_back:
  assumes "get_last_broadcast_to_segment (cm_trader_phone cm) seg w = Some t" and "clock w - t < COOLDOWN"
  shows "\<exists>v. segment_selected gw cm seg w = (Inr (), v) \<and> core v = core (exec (clear_trader_session (cm_trader_phone cm)) w)"
proof -
  let ?w = "w\<lparr>redis := redis_delete (trader_session_key (cm_trader_phone cm)) (redis w)\<rparr>"
  have told: "\<exists>v. tell_trader gw cm n m ?w = (Inr (), v) \<and> core v = core ?w" for n m
    using reply_quiet unfolding tell_trader_def quiet_def aside_def by fastforce
  show ?thesis
    using assms told by (auto simp: segment_selected_def Let_def bindA_apply thenA_apply clear_trader_session_def cache_delete_def exec_def)
qed


text \<open>What the confirming tap records.\<close>

lemma broadcast_confirm_run:
  assumes sess: "get_trader_session (cm_trader_phone cm) w = (Inr (Some (TraderSessionDoc ''awaiting_broadcast_confirm'' p)), w)"
    and seg: "payload_text p ''segment'' ''all_customers'' = seg" and tp: "cm_trader_phone cm = tp"
    and wf: "wf_customers w" "wf_notifications w" "wf_broadcasts w"
  obtains w1 b rows where "broadcast_confirm gw st cm True w = (Inr [run_broadcast gw st cm (b_id b)], w1)"
    and "broadcast_ready b w1" and "pending_recipients (b_id b) w1 = rows" and "\<forall>x\<in>set (broadcasts w). b_id x \<noteq> b_id b"
    and "b_segment b = seg" and "b_trader_phone b = tp" and "b_status b = BC_DRAFT" and "b_message_text b = payload_text p ''rewritten_text'' []"
    and "broadcasts w1 = broadcasts w @ [b]" and "broadcast_recipients w1 = broadcast_recipients w @ rows"
    and "customer_list w1 = customer_list w" and "clock w1 = clock w"
    and "map br_customer_phone rows = map cl_customer_phone (get_customers_by_segment tp seg w)"
    and "\<forall>c. fst (broadcast_confirm gw st cm c w1) = Inr []"
proof -
  define cs where "cs = get_customers_by_segment tp seg w"
  define bid where "bid = uuid_src w (uuid_n w)"
  define b where "b = \<lparr>b_id = bid, b_tenant_id = cm_tenant_id cm, b_trader_phone = tp, b_segment = seg,
    b_message_text = payload_text p ''rewritten_text'' [], b_original_text = Some (payload_text p ''original_text'' []),
    b_total_recipients = int (length cs), b_sent_count = 0, b_status = BC_DRAFT, b_completed_at = None\<rparr>"
  define rows where "rows = map (recipient_row (uuid_src w) bid) (zip [Suc (uuid_n w)..<Suc (uuid_n w + length cs)] cs)"
  define u where "u = w\<lparr>redis := redis_delete (trader_session_key tp) (redis w), broadcasts := broadcasts w @ [b],
    broadcast_recipients := broadcast_recipients w @ rows, uuid_n := Suc (uuid_n w + length cs)\<rparr>"
  have "wf_notifications u" using wf(2) by (simp add: u_def wf_notifications_def)
  then obtain w1 ds1 where say: "reply gw tp (cm_tenant_id cm) (cm_event ''trader.bc_sending'' cm) (Template ''broadcast_sending'' [JInt (int (length cs))])
      (cm_channel_tenant_id cm) u = (Inr (), w1)" and c1: "core w1 = core u" and n1: "uuid_n u \<le> uuid_n w1" "wf_notifications w1"
    by (rule reply_run)
  have seen: "get_customers_by_segment tp seg (w\<lparr>redis := r\<rparr>) = cs" for r
    by (simp add: cs_def get_customers_by_segment_def get_customers_for_trader_def)
  have bb: "b_id b = bid" by (simp add: b_def)
  have confirm: "broadcast_confirm gw st cm True w = (Inr [run_broadcast gw st cm (b_id b)], w1)"
    using say [unfolded u_def rows_def] sess bb
    by (simp add: broadcast_confirm_def bindA_apply thenA_apply clear_trader_session_def cache_delete_def session_begin_def create_broadcast_def
        seg seen tp Let_def add_recipients_run bid_def [symmetric] b_def [symmetric] tell_trader_def
        del: upt_Suc)
  have fresh: "bid \<notin> b_id ` set (broadcasts w)" "bid \<notin> br_broadcast_id ` set (broadcast_recipients w)"
    "\<forall>n>uuid_n w. uuid_src w n \<notin> br_id ` set (broadcast_recipients w)" and dist: "distinct (map b_id (broadcasts w))"
      "distinct (map br_id (broadcast_recipients w))"
    using wf(3) unfolding wf_broadcasts_def bid_def by (auto dest: less_imp_le)
  have ids: "map br_id rows = map (uuid_src w) [Suc (uuid_n w)..<Suc (uuid_n w + length cs)]"
    by (rule nth_equalityI) (simp_all add: rows_def recipient_row_def del: upt_Suc)
  have phones: "map br_customer_phone rows = map cl_customer_phone cs"
    by (rule nth_equalityI) (simp_all add: rows_def recipient_row_def del: upt_Suc)
  have own: "\<forall>r\<in>set rows. br_broadcast_id r = bid \<and> br_status r = RC_PENDING" by (simp add: rows_def recipient_row_def)
  have inj: "inj (uuid_src w)" using wf(1) by (simp add: wf_customers_def)
  have same: "broadcasts w1 = broadcasts w @ [b]" "broadcast_recipients w1 = broadcast_recipients w @ rows" "customer_list w1 = customer_list w"
      "clock w1 = clock w" "uuid_src w1 = uuid_src w"
    using arg_cong [OF c1, of broadcasts] arg_cong [OF c1, of broadcast_recipients] core_fields [OF c1] by (simp_all add: core_def u_def)
  have red: "redis w1 = redis_delete (trader_session_key tp) (redis w)" using core_fields [OF c1] by (simp add: u_def)
  have "uuid_n w \<le> uuid_n w1" using n1(1) by (simp add: u_def)
  with wf(1) same have wfc: "wf_customers w1" using wf_customers_later by blast
  have rdy: "broadcast_ready b w1"
    unfolding broadcast_ready_def
  proof (intro conjI wfc n1(2))
    show "distinct (map b_id (broadcasts w1))" using dist(1) fresh(1) by (simp add: same b_def)
    have "distinct (map br_id rows)" unfolding ids distinct_map using inj_on_subset [OF inj subset_UNIV] by simp
    moreover have "set (map br_id rows) \<inter> br_id ` set (broadcast_recipients w) = {}"
    proof -
      have "uuid_src w n \<notin> br_id ` set (broadcast_recipients w)" if "n \<in> {Suc (uuid_n w)..<Suc (uuid_n w + length cs)}" for n
        using that fresh(3) by (simp add: Suc_le_eq)
      then show ?thesis unfolding ids set_map set_upt by blast
    qed
    ultimately show "distinct (map br_id (broadcast_recipients w1))" using dist(2) unfolding same map_append distinct_append set_map
      by (simp add: Int_commute)
    show "b \<in> set (broadcasts w1)" by (simp add: same)
  qed
  have pend: "pending_recipients (b_id b) w1 = rows" using own fresh(2)
    by (force simp: pending_recipients_def same b_def filter_empty_conv intro!: filter_True)
  have closed: "\<forall>c. fst (broadcast_confirm gw st cm c w1) = Inr []"
    by (simp add: broadcast_confirm_def get_trader_session_def cache_get_def bindA_apply red tp redis_get_def redis_delete_def alive_def ret_def)
  have new: "\<forall>x\<in>set (broadcasts w). b_id x \<noteq> b_id b" using fresh(1) by (auto simp: b_def)
  show thesis
    by (rule that [OF confirm rdy pend new _ _ _ _ same(1,2,3,4) phones [unfolded cs_def] closed]) (simp_all add: b_def)
qed

text \<open>The task: it sends what \<open>send_broadcast_paced\<close> sends, closes the broadcast and tells the trader.\<close>

definition close_broadcast :: "string \<Rightarrow> timestamp \<Rightarrow> nat \<Rightarrow> broadcast list \<Rightarrow> broadcast list" where
  "close_broadcast bid t n bs = update_where (\<lambda>b. b_id b = bid) (\<lambda>b. b\<lparr>b_status := BC_SENT, b_sent_count := int n, b_completed_at := Some t\<rparr>)
     (update_where (\<lambda>b. b_id b = bid) (\<lambda>b. b\<lparr>b_status := BC_SENDING\<rparr>) bs)"

lemma totals_told:
  assumes run: "send_broadcast_paced gw bid tp (if st_tenant_id st \<noteq> [] then st_tenant_id st else cm_tenant_id cm)
      (Some (on_broadcast_progress gw cm bid)) w1 = (Inr (), x)" and tp: "cm_trader_phone cm = tp" and wf: "wf_notifications x"
  obtains w2 ds where "run_broadcast gw st cm bid w1 = (Inr (), w2)" and "core w2 = core x" and "dispatched w2 = dispatched x @ ds"
    and "\<forall>d\<in>set ds. fst (snd d) = tp"
proof (cases "scalar_one_or_none (filter (\<lambda>b. b_id b = bid) (broadcasts x))")
  case (Inl e)
  obtain v ds where "reply gw tp (cm_tenant_id cm) (''trader.bc_failed.'' @ bid) (Plain ''Something went wrong with the broadcast. Please try again later.'')
      (cm_channel_tenant_id cm) x = (Inr (), v)" "core v = core x" "dispatched v = dispatched x @ ds" "\<forall>d\<in>set ds. fst (snd d) = tp"
    by (rule reply_run [OF wf]) blast
  then show thesis by (intro that [of v ds]) (use Inl run tp in \<open>simp_all add: run_broadcast_def Let_def tryA_apply thenA_apply bindA_apply\<close>)
next
  case (Inr b)
  let ?sent = "case b of None \<Rightarrow> 0 | Some b \<Rightarrow> b_sent_count b" and ?tot = "case b of None \<Rightarrow> 0 | Some b \<Rightarrow> b_total_recipients b"
  obtain v ds where "reply gw tp (cm_tenant_id cm) (''trader.bc_complete.'' @ bid) (Template ''broadcast_complete'' [JInt ?sent, JInt ?tot, JInt (?tot - ?sent)])
      (cm_channel_tenant_id cm) x = (Inr (), v)" "core v = core x" "dispatched v = dispatched x @ ds" "\<forall>d\<in>set ds. fst (snd d) = tp"
    by (rule reply_run [OF wf]) blast
  then show thesis by (intro that [of v ds]) (use Inr run tp in \<open>simp_all add: run_broadcast_def Let_def tryA_apply thenA_apply bindA_apply\<close>)
qed

lemma run_broadcast_run:
  assumes ready: "broadcast_ready b w1" and tp: "cm_trader_phone cm = tp"
  obtains w2 ds n where "run_broadcast gw st cm (b_id b) w1 = (Inr (), w2)" and "dispatched w2 = dispatched w1 @ ds" and "distinct (deliveries tp ds)"
    and "\<forall>d\<in>set ds. fst (snd d) \<noteq> tp \<longrightarrow> accepted w1 b tp (if st_tenant_id st \<noteq> [] then st_tenant_id st else cm_tenant_id cm)
           (pending_recipients (b_id b) w1) d"
    and "broadcasts w2 = close_broadcast (b_id b) (clock w2) n (broadcasts w1)"
proof -
  let ?ptid = "if st_tenant_id st \<noteq> [] then st_tenant_id st else cm_tenant_id cm"
  obtain n w3 t where run: "send_broadcast_paced gw (b_id b) tp ?ptid (Some (on_broadcast_progress gw cm (b_id b))) w1 = (Inr (), w3\<lparr>broadcasts :=
        update_where (\<lambda>x. b_id x = b_id b) (\<lambda>x. x\<lparr>b_status := BC_SENT, b_sent_count := int n, b_completed_at := Some t\<rparr>) (broadcasts w3)\<rparr>)"
      and t: "t = clock w3" and inv: "broadcast_inv w1 b tp ?ptid (pending_recipients (b_id b) w1) w3"
      and bs: "broadcasts w3 = update_where (\<lambda>x. b_id x = b_id b) (\<lambda>x. x\<lparr>b_status := BC_SENDING\<rparr>) (broadcasts w1)"
    by (rule broadcast_run [OF ready progress_to_trader [of cm gw "b_id b", unfolded tp]])
  from inv obtain ds where ds: "dispatched w3 = dispatched w1 @ ds" "distinct (deliveries tp ds)"
      "\<forall>d\<in>set ds. fst (snd d) \<noteq> tp \<longrightarrow> accepted w1 b tp ?ptid (pending_recipients (b_id b) w1) d"
    unfolding broadcast_inv_def by blast
  have wf: "wf_notifications (w3\<lparr>broadcasts := bl\<rparr>)" for bl using inv by (simp add: broadcast_inv_def wf_notifications_def)
  obtain w2 ds' where task: "run_broadcast gw st cm (b_id b) w1 = (Inr (), w2)" and c2: "core w2 = core (w3\<lparr>broadcasts :=
        update_where (\<lambda>x. b_id x = b_id b) (\<lambda>x. x\<lparr>b_status := BC_SENT, b_sent_count := int n, b_completed_at := Some t\<rparr>) (broadcasts w3)\<rparr>)"
      and d2: "dispatched w2 = dispatched w3 @ ds'" "\<forall>d\<in>set ds'. fst (snd d) = tp"
    by (rule totals_told [OF run tp wf]) simp
  have own: "deliveries tp ds' = []" using d2(2) by (simp add: deliveries_def filter_empty_conv)
  have "clock w2 = t" using core_fields [OF c2] t by simp
  moreover have "broadcasts w2 = close_broadcast (b_id b) t n (broadcasts w1)"
    using arg_cong [OF c2, of broadcasts] by (simp add: core_def bs close_broadcast_def)
  ultimately show thesis
    by (intro that [OF task, of "ds @ ds'" n]) (use ds d2 own in auto)
qed

text \<open>A closed broadcast holds its segment back.\<close>

lemma closed_holds_back:
  assumes "broadcasts w2 = close_broadcast bid (clock w2) n (bs @ [b])" and "b_id b = bid" and "b_segment b = seg" and "b_trader_phone b = tp"
    and "\<forall>x\<in>set bs. b_id x \<noteq> bid" and ended: "\<forall>x\<in>set bs. b_status x = BC_SENT \<longrightarrow> b_completed_at x \<noteq> None"
  obtains t where "get_last_broadcast_to_segment tp seg w2 = Some t" and "clock w2 \<le> t"
proof -
  let ?b = "b\<lparr>b_status := BC_SENT, b_sent_count := int n, b_completed_at := Some (clock w2)\<rparr>"
  have bs: "broadcasts w2 = bs @ [?b]"
    using assms(1,2,5) by (simp add: close_broadcast_def update_where_def map_idI)
  let ?S = "map b_completed_at (filter (\<lambda>b. b_trader_phone b = tp \<and> b_segment b = seg \<and> b_status b = BC_SENT) (broadcasts w2))"
  have S: "?S \<noteq> []" "clock w2 \<in> set (map the ?S)" by (simp_all add: bs assms(3,4))
  moreover have "None \<notin> set ?S" using ended by (auto simp: bs)
  ultimately have "get_last_broadcast_to_segment tp seg w2 = Some (Max (set (map the ?S)))"
    by (simp only: get_last_broadcast_to_segment_def Let_def if_False simp_thms)
  then show thesis using that S(2) Max_ge [of "set (map the ?S)"] by simp
qed

text \<open>Whom an accepted message reaches.\<close>

lemma accepted_customer:
  assumes wf: "wf_customers w" and a: "accepted w1 b tp ptid rows d"
    and phones: "map br_customer_phone rows = map cl_customer_phone (get_customers_by_segment tp seg w)"
    and same: "customer_list w1 = customer_list w" "clock w1 = clock w" and m: "b_message_text b = m"
  shows "snd (snd d) = TextMsg (Plain m) \<and> (\<exists>c\<in>set (get_customers_by_segment tp seg w). cl_customer_phone c = fst (snd d) \<and> \<not> cl_opted_out c
      \<and> (\<forall>t. cl_last_broadcast_at c = Some t \<longrightarrow> 7 \<le> days_between (clock w) t))"
proof -
  from a have "fst (snd d) \<in> set (map br_customer_phone rows)" by (simp add: accepted_def)
  then obtain c where c: "c \<in> set (get_customers_by_segment tp seg w)" "cl_customer_phone c = fst (snd d)" unfolding phones by auto
  from segment_customer [OF wf c(1)] c(2) have e: "entry_at w tp (fst (snd d)) = Some c" "\<not> cl_opted_out c" by simp_all
  with a have "skip_check (clock w) (Some c) = None" by (simp add: accepted_def same entry_at_def)
  then have "\<forall>t. cl_last_broadcast_at c = Some t \<longrightarrow> 7 \<le> days_between (clock w) t"
    by (auto simp: skip_check_def Let_def split: option.splits if_splits)
  moreover have "snd (snd d) = TextMsg (Plain m)" using a m unfolding accepted_def by (metis snd_conv)
  ultimately show ?thesis using c e(2) by auto
qed

text \<open>
  C15: a broadcast written by chat. On the confirming tap exactly one broadcast is recorded, with the text of the preview and one pending
  row for each customer of the segment, and the dialogue is closed, so a second tap finds nothing; one sending task is started. The task
  ends: it sends the previewed text, at most once each, only to customers of the segment who had no broadcast in the seven days before,
  and from then on the segment is held back for 48 hours: picking it closes the dialogue and records nothing. Before the task ended the last
  broadcast to the segment is the one from before.
\<close>

theorem broadcast_by_chat:
  fixes gw :: gateway
  assumes sess: "get_trader_session (cm_trader_phone cm) w = (Inr (Some (TraderSessionDoc ''awaiting_broadcast_confirm'' p)), w)"
    and seg: "payload_text p ''segment'' ''all_customers'' = seg"
    and wf: "wf_customers w" "wf_notifications w" "wf_broadcasts w"
    and ended: "\<forall>x\<in>set (broadcasts w). b_status x = BC_SENT \<longrightarrow> b_completed_at x \<noteq> None"
  shows "\<exists>task w1 b rows w2 ds. broadcast_confirm gw st cm True w = (Inr [task], w1)
     \<and> broadcasts w1 = broadcasts w @ [b] \<and> b_segment b = seg \<and> b_trader_phone b = cm_trader_phone cm \<and> b_status b = BC_DRAFT
     \<and> b_message_text b = payload_text p ''rewritten_text'' []
     \<and> broadcast_recipients w1 = broadcast_recipients w @ rows
     \<and> map br_customer_phone rows = map cl_customer_phone (get_customers_by_segment (cm_trader_phone cm) seg w)
     \<and> (\<forall>c. fst (broadcast_confirm gw st cm c w1) = Inr [])
     \<and> get_last_broadcast_to_segment (cm_trader_phone cm) seg w1 = get_last_broadcast_to_segment (cm_trader_phone cm) seg w
     \<and> task w1 = (Inr (), w2) \<and> dispatched w2 = dispatched w1 @ ds \<and> distinct (deliveries (cm_trader_phone cm) ds)
     \<and> (\<forall>d\<in>set ds. fst (snd d) \<noteq> cm_trader_phone cm \<longrightarrow> snd (snd d) = TextMsg (Plain (payload_text p ''rewritten_text'' []))
          \<and> (\<exists>c\<in>set (get_customers_by_segment (cm_trader_phone cm) seg w). cl_customer_phone c = fst (snd d) \<and> \<not> cl_opted_out c
               \<and> (\<forall>t. cl_last_broadcast_at c = Some t \<longrightarrow> 7 \<le> days_between (clock w) t)))
     \<and> (\<forall>d. d < COOLDOWN \<longrightarrow> (\<exists>v. segment_selected gw cm seg (w2\<lparr>clock := clock w2 + d\<rparr>) = (Inr (), v)
          \<and> core v = core (exec (clear_trader_session (cm_trader_phone cm)) (w2\<lparr>clock := clock w2 + d\<rparr>))))"
proof -
  define tp where "tp = cm_trader_phone cm"
  define cs where "cs = get_customers_by_segment tp seg w"
  note folds = tp_def [symmetric] cs_def [symmetric]
  obtain w1 b rows where confirm: "broadcast_confirm gw st cm True w = (Inr [run_broadcast gw st cm (b_id b)], w1)" and ready: "broadcast_ready b w1"
      and pend: "pending_recipients (b_id b) w1 = rows" and new: "\<forall>x\<in>set (broadcasts w). b_id x \<noteq> b_id b"
      and b: "b_segment b = seg" "b_trader_phone b = tp" "b_status b = BC_DRAFT" "b_message_text b = payload_text p ''rewritten_text'' []"
      and same: "broadcasts w1 = broadcasts w @ [b]" "broadcast_recipients w1 = broadcast_recipients w @ rows" "customer_list w1 = customer_list w"
        "clock w1 = clock w"
      and phones: "map br_customer_phone rows = map cl_customer_phone cs" and closed: "\<forall>c. fst (broadcast_confirm gw st cm c w1) = Inr []"
    unfolding cs_def by (rule broadcast_confirm_run [OF sess seg tp_def [symmetric] wf, of gw st])
  obtain w2 ds n where task: "run_broadcast gw st cm (b_id b) w1 = (Inr (), w2)" "dispatched w2 = dispatched w1 @ ds" "distinct (deliveries tp ds)"
      and acc: "\<forall>d\<in>set ds. fst (snd d) \<noteq> tp \<longrightarrow> accepted w1 b tp (if st_tenant_id st \<noteq> [] then st_tenant_id st else cm_tenant_id cm)
           (pending_recipients (b_id b) w1) d"
      and bs: "broadcasts w2 = close_broadcast (b_id b) (clock w2) n (broadcasts w1)"
    by (rule run_broadcast_run [OF ready tp_def [symmetric], of gw st])
  have before: "get_last_broadcast_to_segment tp seg w1 = get_last_broadcast_to_segment tp seg w"
    using b by (simp add: get_last_broadcast_to_segment_def same)
  obtain t where t: "get_last_broadcast_to_segment tp seg w2 = Some t" "clock w2 \<le> t"
    by (rule closed_holds_back [OF bs [unfolded same] refl b(1,2) new ended])
  have held: "\<exists>v. segment_selected gw cm seg (w2\<lparr>clock := clock w2 + d\<rparr>) = (Inr (), v)
      \<and> core v = core (exec (clear_trader_session tp) (w2\<lparr>clock := clock w2 + d\<rparr>))" if "d < COOLDOWN" for d
    by (rule segment_held_back [where t = t and cm = cm, folded tp_def]) (use t that in \<open>simp_all add: get_last_broadcast_to_segment_def\<close>)
  have to: "snd (snd d) = TextMsg (Plain (payload_text p ''rewritten_text'' [])) \<and> (\<exists>c\<in>set cs. cl_customer_phone c = fst (snd d) \<and> \<not> cl_opted_out c
      \<and> (\<forall>t. cl_last_broadcast_at c = Some t \<longrightarrow> 7 \<le> days_between (clock w) t))" if "d \<in> set ds" "fst (snd d) \<noteq> tp" for d
    using accepted_customer [OF wf(1) _ phones [unfolded cs_def] same(3,4) b(4)] acc that pend unfolding cs_def by blast
  show ?thesis
    unfolding folds
    by (rule exI [of _ "run_broadcast gw st cm (b_id b)"], rule exI [of _ w1], rule exI [of _ b], rule exI [of _ rows], rule exI [of _ w2],
        rule exI [of _ ds], intro conjI ballI allI impI; (rule confirm same b phones closed [rule_format] before task held)?)
      (use to in blast)+
qed

text \<open>A previewed message to the one customer of the list.\<close>

definition previewed :: payload where
  "previewed = [(''segment'', JStr ''all_customers''), (''rewritten_text'', JStr ''Fresh rice!''), (''original_text'', JStr ''rice'')]"

definition previewing :: world where
  "previewing = exec (set_trader_session ''080'' (TraderSessionDoc ''awaiting_broadcast_confirm'' previewed))
     (one_channel\<lparr>customer_list := [new_entry ''l1'' ''t1'' ''080'' ''234'' None 2500 0]\<rparr>)"

theorem broadcast_by_chat_witness:
  "\<exists>task w1 b w2 ds. broadcast_confirm open_gateway (ml_settings sample_lib) (says [] ''BCYES'') True previewing = (Inr [task], w1)
     \<and> broadcasts w1 = [b] \<and> b_message_text b = ''Fresh rice!'' \<and> task w1 = (Inr (), w2) \<and> dispatched w2 = dispatched w1 @ ds
     \<and> (\<forall>d\<in>set ds. fst (snd d) = ''080'' \<or> fst (snd d) = ''234'' \<and> snd (snd d) = TextMsg (Plain ''Fresh rice!''))"
proof -
  have tp: "cm_trader_phone (says [] ''BCYES'') = ''080''" by (simp add: says_def)
  note rec = previewing_def exec_def set_trader_session_def cache_setex_def one_channel_def empty_world_def
  have sess: "get_trader_session (cm_trader_phone (says [] ''BCYES'')) previewing
      = (Inr (Some (TraderSessionDoc ''awaiting_broadcast_confirm'' previewed)), previewing)"
    by (simp add: tp rec get_trader_session_def cache_get_def redis_defs empty_redis_def TRADER_SESSION_TTL_def second_def)
  have seg: "payload_text previewed ''segment'' ''all_customers'' = ''all_customers''" and mt: "payload_text previewed ''rewritten_text'' [] = ''Fresh rice!''"
    by (simp_all add: payload_text_def payload_get_def previewed_def)
  have wf: "wf_customers previewing" "wf_notifications previewing" "wf_broadcasts previewing"
    using replicate_neq_hd [of "''l1''" "CHR ''u''"]
    by (simp_all add: rec wf_customers_def wf_notifications_def wf_broadcasts_def new_entry_def inj_replicate)
  have none: "broadcasts previewing = []" by (simp add: rec)
  have "customer_list previewing = [new_entry ''l1'' ''t1'' ''080'' ''234'' None 2500 0]" by (simp add: rec)
  then have to': "cl_customer_phone c = ''234''" if "c \<in> set (get_customers_by_segment ''080'' ''all_customers'' previewing)" for c
    using that by (simp add: get_customers_by_segment_def get_customers_for_trader_def new_entry_def)
  have "\<forall>x\<in>set (broadcasts previewing). b_status x = BC_SENT \<longrightarrow> b_completed_at x \<noteq> None" by (simp add: none)
  from broadcast_by_chat [OF sess seg wf this, of open_gateway "ml_settings sample_lib"] show ?thesis
    unfolding tp mt none append_Nil
  proof (elim exE conjE, goal_cases)
    case (1 task w1 b rows w2 ds)
    have "fst (snd d) = ''080'' \<or> fst (snd d) = ''234'' \<and> snd (snd d) = TextMsg (Plain ''Fresh rice!'')" if d: "d \<in> set ds" for d
      using bspec [OF 1(14) d] to' by metis
    with 1(1,2,6,11,12) show ?case by blast
  qed
qed

end
