(* ===== verification/Spec2Isabelle.thy ===== *)
theory Spec2Isabelle
  imports Broadcast Followup Segments Payments Trader_Properties Order_Routing Onboarding Scheduler Ingestion
    Startup Event_Notices Realtime Broadcast_Dialogue
begin

text \<open>
  Verification of ChatToSales, a Python service that lets traders sell over WhatsApp.

  \<^bold>\<open>The program.\<close> Customers write to a trader's WhatsApp number. Inbound messages become events; the conversation
  module stores them and the order module answers them: it parses the text, keeps the state of each dialogue in Redis, writes orders and line
  items to the database and replies through the notification service. The trader confirms, cancels and pays orders by commands and taps,
  keeps a debt book and sells on credit. Payments arrive as provider webhooks, credit sales are settled over HTTP; both
  publish events whose listeners pay the order. Paying an order updates the trader's customer list and a referral milestone; the
  customer list feeds segments, broadcasts and follow-ups.

  \<^bold>\<open>State and effects.\<close> \<open>World\<close> has the database as one list of rows per table, the published events, the messages
  the gateway accepted, Redis, the clock and the supply of identifiers. A coroutine is an action \<open>world \<Rightarrow> (error + 'a) \<times> world\<close> (\<open>Prelude\<close>):
  what it did before raising stays unless a transaction (\<open>session_begin\<close>) rolls the tables back; published events and sent messages are never
  rolled back. Constraint violations, missing rows and refused transitions are values of \<open>error\<close>.

  \<^bold>\<open>Theories and sources\<close> (below \<open>src/app/\<close>).
  \<^item> \<open>Prelude\<close>, \<open>World\<close>: errors (\<open>core/exceptions.py\<close>), actions, queries over tables, rows (\<open>*/models.py\<close>).
  \<^item> \<open>Pystring\<close>, \<open>Regex\<close>, \<open>Calendar\<close>, \<open>Redis\<close>: the parts of Python's \<open>str\<close>, \<open>re\<close>, \<open>datetime\<close> and of Redis the sources use.
  \<^item> \<open>Event_Bus\<close>, \<open>Delivery\<close>: \<open>infra/event_bus.py\<close>; at-least-once delivery as the locale \<open>settling_handler\<close>.
  \<^item> \<open>Order_State_Machine\<close>, \<open>Order_Repository\<close>, \<open>Order_Service\<close>: \<open>modules/orders/state_machine.py\<close>, \<open>repository.py\<close> and the order operations of \<open>service.py\<close>.
  \<^item> \<open>Order_Session\<close>: \<open>modules/orders/session.py\<close>; \<open>Nlp\<close>: \<open>modules/orders/nlp.py\<close>.
  \<^item> \<open>Replies\<close>, \<open>Customer_Flow\<close>, \<open>Customer_Properties\<close>: the reply helpers and the customer's dialogue of \<open>modules/orders/service.py\<close>.
  \<^item> \<open>Trader_Orders\<close>, \<open>Order_Moves\<close>, \<open>Trader_Properties\<close>: order commands, payment and credit taps, negotiation, the debt book and the list of
    active orders; \<open>Order_Moves\<close> shows of every message that it moves an order at most once.
  \<^item> \<open>Traders\<close>: \<open>modules/onboarding/repository.py\<close>, the store slug, \<open>modules/orders/customer_routing.py\<close> and the cached lookups of \<open>modules/orders/handlers.py\<close>.
  \<^item> \<open>Catalogue\<close>: the trader's catalogue, bank details and category in \<open>modules/orders/service.py\<close>, \<open>infra/paystack.py\<close>.
  \<^item> \<open>Order_Routing\<close>: cart messages and the routing of customers in \<open>modules/orders/handlers.py\<close>.
  \<^item> \<open>Onboarding\<close>: \<open>modules/onboarding/service.py\<close>, \<open>session.py\<close>, \<open>handlers.py\<close>, \<open>catalogue_templates.py\<close>.
  \<^item> \<open>Payments\<close>, \<open>Credit_Sales\<close>, \<open>Conversations\<close> with \<open>Paging\<close>, \<open>Channels\<close>, \<open>Notifications\<close>: the modules of these names.
  \<^item> \<open>Scheduler\<close>: the background jobs of \<open>infra/scheduler.py\<close>, \<open>infra/status_video.py\<close> (the rotation of effects).
  \<^item> \<open>Reports\<close>: \<open>modules/reports\<close>, the weekly report and the job of \<open>infra/scheduler.py\<close> that sends it.
  \<^item> \<open>Ingestion\<close>: \<open>modules/ingestion\<close> (webhook, signature, reading and storing of messages), \<open>infra/rate_limit.py\<close>.
  \<^item> \<open>Auth\<close>: \<open>modules/auth\<close>, \<open>modules/staff/router.py\<close>, \<open>infra/auth_utils.py\<close>, \<open>core/dependencies.py\<close>.
  \<^item> \<open>Channel_Connect\<close>: connecting a WhatsApp account (\<open>modules/channels/service.py\<close>, \<open>router.py\<close>); \<open>Startup\<close>: the seeds of \<open>main.py\<close>.
  \<^item> \<open>Event_Notices\<close>: \<open>modules/notifications/handlers.py\<close>; \<open>Realtime\<close>: \<open>modules/realtime\<close>, the event stream to dashboards.
  \<^item> \<open>Customer_List\<close>, \<open>Segments\<close>, \<open>Referrals\<close>, \<open>Followup\<close>, \<open>Broadcast\<close>: \<open>modules/marketing\<close>.
  \<^item> \<open>Pickers\<close>: the list pickers and menus of \<open>modules/orders/whatsapp.py\<close> and the reading of their taps.
  \<^item> \<open>Product_Photos\<close>: product photos and customers' photo inquiries (\<open>modules/orders/service.py\<close>, \<open>product_images.py\<close>,
    \<open>product_descriptions.py\<close>, \<open>infra/storage.py\<close>).
  \<^item> \<open>Broadcast_Dialogue\<close>: the trader's dialogue that writes, previews and sends a broadcast (\<open>modules/orders/service.py\<close>).

  \<^bold>\<open>What is shown.\<close>
  \<^item> Every single operation of the service, and every single message of a conversation, moves an order along at most one arrow of the state
    machine, and orders keep their tenant; a sale over chat completes; paying records exactly one purchase.
  \<^item> Webhooks and status events take effect exactly once under redelivery; messages are accepted at most once per event, but for forwarded
    images whose accepting answer cannot be read.
  \<^item> Orders placed from messages and carts have the amount of their items; commands change exactly the named order.
  \<^item> The session store with quiet modes and image inquiries refines a map with expiry, the customer list a purchase ledger; cursor pages visit every row once; printed
    ADD commands and cart messages parse back; the searches for a referral code and a store slug end.
  \<^item> A trader's record read through the cache by phone is the one in the database; the copy under the store slug can be stale.
  \<^item> Onboarding keeps every dialogue well-formed, resends undelivered prompts and never completes; reminders are sent once, when due and within
    their limits.
  \<^item> A session belongs to a registered user and a tenant of this user; login codes and invitations work once; codes are limited in number.
  \<^item> A webhook without the right signature changes nothing, a message delivered again is stored once, and the rate limiter admits exactly
    the allowed number of requests of a window.
  \<^item> The weekly report is sent once per trader and week; the last second of a week is counted in no week.
  \<^item> Connecting an account replaces exactly the tenant's channel or changes nothing; starting the process twice changes nothing more; every
    dashboard client receives exactly the events of its tenants, every customer at most one notice per event.
  \<^item> The pages of a picker show every product once and their rows lead where they say; an answered photo is recognised afterwards, although the answer itself ends
    in an exception and leaves the inquiry pending; a broadcast
    confirmed by chat reaches the customers of its segment with the previewed text and holds the segment back for 48 hours.
  \<^item> Where the code departs from what it says, the theorem states what it does: the taps on an order on credit raise, a negotiated price is not charged, a
    chosen quantity drops other items, any trader can report the payment of any order, and others.

  \<^bold>\<open>Interfaces.\<close> \<open>order_relation\<close> (\<open>Replies\<close>) says when an action stays within a relation on orders and derives the rules by which whole
  dialogues are checked; it is interpreted for changes within a tenant, for the trader's changes and for what leaves orders as they are.
  \<open>document_cache\<close> (\<open>Redis\<close>) is interpreted for the session documents and for all slots of the store. \<open>settling_handler\<close>
  is interpreted for the payment and the credit-sale listeners, \<open>Paging\<close>'s locale for conversations and messages, \<open>store_invariant\<close> (\<open>Catalogue\<close>)
  for the caches of traders under the phone number and under the slug.

  \<^bold>\<open>Parameters.\<close> The WhatsApp gateway (\<open>gateway\<close>: decryption and HTTP post), the language model (\<open>llm\<close>), readers of photos and voice notes,
  Paystack, Meta's Graph API (\<open>meta_api\<close>), the rendering of cards (\<open>studio\<close>), image
  hashing, background removal and the vision model (\<open>media_lib\<close>), the model that rewrites broadcasts (\<open>copywriter\<close>), hashing and tokens (\<open>authlib\<close>), digests and the JSON reader (\<open>webhook_lib\<close>),
  time zones and name-based identifiers (\<open>report_lib\<close>) are arguments; no theorem assumes anything of them unless it says so. Identifiers are an injective supply, as UUIDs are taken to be.

  \<^bold>\<open>Bounds.\<close> Amounts are rationals (\<open>Decimal\<close>) and unbounded integers, so nothing overflows. Characters are the code points up to 255; an
  em dash is written as a hyphen, and emoji in button titles are left out. The body of a message is its plain text or the name of its
  template with the arguments. Repetition in \<open>Regex\<close> has the length of the remaining input as fuel, which is enough because every round consumes.
  \<open>walk\<close> in \<open>Paging\<close> has one step per row plus one as fuel.

  \<^bold>\<open>Not modelled.\<close> HTTP routers, configuration and migrations are glue around libraries; the dashboard and the admin pages are read-only
  aggregation queries; image, video and audio processing, object storage and the language model are other services. The
  dispatch of menu taps, the price list read from photos and the posting of a product to the status on demand mostly call those services
  and are left out, as are the customer lookup and the referral message of the trader's menu.
\<close>

section \<open>Properties that span components\<close>

text \<open>
  C3: a payment reaches its order exactly once. For a pending payment of a CONFIRMED order of the same tenant, the
  success webhook publishes one event; handing it to the listener any positive number of times marks the
  order PAID and records one purchase of the order's amount in the customer ledger, and the payment itself
  is SUCCESS.
\<close>

theorem webhook_pays_order:
  fixes w :: world and n :: nat
  assumes "wf_orders w" and "wf_payments w" and "wf_customers w"
    and "p \<in> set (payments w)" and "p_status p = PAY_PENDING" and "x \<in> set (orders w)"
    and "p_order_id p = o_id x" and "p_tenant_id p = o_tenant_id x" and "o_state x = CONFIRMED"
    and "o_id x \<noteq> []" and "o_tenant_id x \<noteq> []"
  defines "w1 \<equiv> webhook (p_reference p, True) w"
  defines "w2 \<equiv> register_payment_confirmed_handler (concat (replicate (Suc n) (drop (length (published w)) (published w1)))) w1"
  shows "x\<lparr>o_state := PAID\<rparr> \<in> set (orders w2)
     \<and> ledger_of w2 = record_purchase (str_or_empty (o_trader_phone x)) (str_or_empty (o_customer_phone x))
            (amount_or_0 (o_amount x)) (ledger_of w)
     \<and> p\<lparr>p_status := PAY_SUCCESS\<rparr> \<in> set (payments w1)"
proof -
  have at: "payment_at w (p_reference p) = Some p" using assms(4) by (simp add: payment_at_iff [OF assms(2)])
  have w1: "w1 = w\<lparr>payments := update_where (\<lambda>q. p_id q = p_id p) (\<lambda>q. q\<lparr>p_status := PAY_SUCCESS\<rparr>) (payments w),
      uuid_n := Suc (uuid_n w), published := published w @ [confirmed_event p w]\<rparr>"
    using at assms(5) by (simp add: w1_def webhook_def exec_def session_begin_def handle_webhook_eq [OF assms(2)] Let_def)
  have "order_change True None w w1" by (intro order_change.unchanged) (simp_all add: w1 later_def)
  then have wf1: "wf_orders w1" by (rule change_wf [OF _ assms(1)])
  have wc1: "wf_customers w1" using assms(3) by (auto simp: wf_customers_def w1)
  define es where "es = concat (replicate (Suc n) [confirmed_event p w])"
  have set: "set es = {confirmed_event p w}" by (auto simp: es_def)
  have "subscribe_all_tenants_event ''payment.confirmed'' es = es"
    using own_channel [of "''payment.confirmed''" "confirmed_event p w"] set
    by (auto simp: subscribe_all_tenants_event_def filter_id_conv plain_def confirmed_event_def)
  then have "w2 = listener_loop on_payment_confirmed es w1"
    by (simp add: w2_def register_payment_confirmed_handler_def create_global_listener_task_def w1 es_def)
  then have w2: "w2 = exec (on_payment_confirmed (confirmed_event p w)) w1"
    using payment_delivery.repeated_delivery [OF wf1 set] by simp
  have ev: "confirmed_order (confirmed_event p w) = o_id x" "confirmed_tenant (confirmed_event p w) = o_tenant_id x"
    using assms(7,8,11) by (simp_all add: confirmed_order_def confirmed_tenant_def confirmed_event_def confirmed_payload_def
        payload_str_def payload_get_def)
  have oat: "order_at w1 (o_id x) (Some (o_tenant_id x)) = Some x"
    using assms(6) by (simp add: order_at_iff [OF wf1] scoped_def) (simp add: w1)
  then have "w2 = after_paid x w1"
    using assms(9,10,11) by (simp add: w2 on_payment_confirmed_exec [OF wf1] ev pay_if_awaiting_def order_at_awaiting [OF wf1])
  moreover have "x\<lparr>o_state := PAID\<rparr> \<in> set (orders (after_paid x w1))"
    using after_paid_orders [OF assms(9), of w1] assms(6) by (auto simp: set_update_where image_iff w1)
  moreover have "ledger_of (after_paid x w1) = record_purchase (str_or_empty (o_trader_phone x)) (str_or_empty (o_customer_phone x))
            (amount_or_0 (o_amount x)) (ledger_of w1)"
    using after_paid_effects [OF assms(9) wc1] by blast
  moreover have "ledger_of w1 = ledger_of w" by (simp add: ledger_of_def entry_at_def w1)
  moreover have "p\<lparr>p_status := PAY_SUCCESS\<rparr> \<in> set (payments w1)"
    using assms(4) by (auto simp: w1 set_update_where image_iff)
  ultimately show ?thesis by simp
qed

theorem webhook_pays_order_witness:
  "\<exists>x\<in>set (orders (register_payment_confirmed_handler (concat (replicate 3 (published (webhook (''r1'', True) paying_world))))
      (webhook (''r1'', True) paying_world))). o_state x = PAID"
proof -
  let ?x = "hd (orders (one_order CONFIRMED))" and ?p = "sample_payment ''p1'' ''r1'' PAY_PENDING"
  have wf: "wf_orders paying_world"
    by (rule wf_orders_example) (simp_all add: paying_world_def one_order_def create_order_row_def empty_world_def)
  have wc: "wf_customers paying_world" by (simp add: wf_customers_def paying_world_def one_order_def empty_world_def inj_replicate)
  have "?p \<in> set (payments paying_world)" "p_status ?p = PAY_PENDING" "?x \<in> set (orders paying_world)" "p_order_id ?p = o_id ?x"
    "p_tenant_id ?p = o_tenant_id ?x" "o_state ?x = CONFIRMED" "o_id ?x \<noteq> []" "o_tenant_id ?x \<noteq> []"
    by (simp_all add: paying_world_def sample_payment_def one_order_def create_order_row_def)
  from webhook_pays_order [OF wf wf_paying wc this, of 2]
  have "?x\<lparr>o_state := PAID\<rparr> \<in> set (orders (register_payment_confirmed_handler (concat (replicate 3 (published (webhook (''r1'', True) paying_world))))
      (webhook (''r1'', True) paying_world)))"
    by (simp add: sample_payment_def paying_world_def one_order_def empty_world_def numeral_3_eq_3)
  moreover have "o_state (?x\<lparr>o_state := PAID\<rparr>) = PAID" by simp
  ultimately show ?thesis by metis
qed

lemma listened_remdups: "filter P (rev (remdups (rev es))) = rev (remdups (rev (filter P es)))"
  by (simp add: rev_filter remdups_filter)

text \<open>
  C4: the listeners that pay orders turn at-least-once delivery into exactly-once effect. Whatever sequence of payment or
  credit-sale events arrives, with any repetitions anywhere in it, the state afterwards is the one the
  first delivery of each event alone would give.
\<close>

theorem redelivery_harmless:
  assumes "wf_orders w"
  shows "register_payment_confirmed_handler es w = register_payment_confirmed_handler (rev (remdups (rev es))) w
     \<and> register_credit_sale_status_handler es w = register_credit_sale_status_handler (rev (remdups (rev es))) w"
  unfolding register_payment_confirmed_handler_def register_credit_sale_status_handler_def create_global_listener_task_def
    subscribe_all_tenants_event_def listened_remdups
  using payment_delivery.first_deliveries [OF assms] credit_delivery.first_deliveries [OF assms] by blast

theorem redelivery_harmless_witness:
  "let e = confirmed_event (sample_payment ''p1'' ''r1'' PAY_PENDING) (one_order CONFIRMED); f = e\<lparr>ev_event_id := ''e2''\<rparr>
   in register_payment_confirmed_handler [e, f, e] (one_order CONFIRMED) = register_payment_confirmed_handler [e, f] (one_order CONFIRMED)"
proof -
  let ?e = "confirmed_event (sample_payment ''p1'' ''r1'' PAY_PENDING) (one_order CONFIRMED)"
  have "ev_event_id ?e \<noteq> ''e2''" by (simp add: confirmed_event_def one_order_def empty_world_def)
  then have neq: "?e \<noteq> ?e\<lparr>ev_event_id := ''e2''\<rparr>"
    by (intro notI) (drule arg_cong [where f = ev_event_id], simp)
  have rd: "rev (remdups (rev [e, f, e])) = [e, f]" if "e \<noteq> f" for e f :: event using that by simp
  show ?thesis
    using redelivery_harmless [OF wf_one_order, of "[?e, ?e\<lparr>ev_event_id := ''e2''\<rparr>, ?e]" CONFIRMED]
    unfolding rd [OF neq] Let_def by (rule conjunct1)
qed

end
